(* ===== verification/Prelude950.thy ===== *)
theory Prelude950
  imports Main "HOL-Library.Word"
begin

text \<open>
  Shared vocabulary of the development: the C integer types as words, the little and big
  endian views of a four byte command, the search loop that several C functions share, and the
  generic lemmas on words and lists that the component theories use. The collection
  \<open>c_consts\<close> gathers the definitions of the firmware's numeric macros, \<open>layout\<close> the
  addresses of the flash layout.
\<close>

unbundle bit_operations_syntax

named_theorems c_consts "numeric constants of the C sources"
named_theorems layout "addresses of the flash layout"

type_synonym u8 = "8 word"
type_synonym u16 = "16 word"
type_synonym u32 = "32 word"

text \<open>A four byte command in the order of the bytes in memory.\<close>

type_synonym cmd4 = "u8 \<times> u8 \<times> u8 \<times> u8"

section \<open>Words from bytes\<close>

text \<open>
  The value a little endian load (the STM32) or a big endian load gives for four bytes. The
  shifts of the sources are on 32 bit unsigned integers.
\<close>

definition le_word :: "cmd4 \<Rightarrow> u32" where
  "le_word = (\<lambda>(b0, b1, b2, b3).
     ucast b0 OR push_bit 8 (ucast b1) OR push_bit 16 (ucast b2) OR push_bit 24 (ucast b3))"

definition be_word :: "cmd4 \<Rightarrow> u32" where
  "be_word = (\<lambda>(b0, b1, b2, b3).
     push_bit 24 (ucast b0) OR push_bit 16 (ucast b1) OR push_bit 8 (ucast b2) OR ucast b3)"

definition le_bytes :: "u32 \<Rightarrow> cmd4" where
  "le_bytes w = (ucast w, ucast (drop_bit 8 w), ucast (drop_bit 16 w), ucast (drop_bit 24 w))"

definition bytes_of :: "cmd4 \<Rightarrow> u8 list" where
  "bytes_of = (\<lambda>(b0, b1, b2, b3). [b0, b1, b2, b3])"

definition of_bytes :: "u8 list \<Rightarrow> cmd4" where
  "of_bytes bs = (bs ! 0, bs ! 1, bs ! 2, bs ! 3)"

lemma length_bytes_of [simp]: "length (bytes_of c) = 4"
  by (simp add: bytes_of_def split: prod.splits)

lemma of_bytes_of [simp]: "of_bytes (bytes_of c) = c"
  by (simp add: of_bytes_def bytes_of_def split: prod.splits)

lemma bit_u8_high [simp]:
  fixes b :: u8
  shows "8 \<le> n \<Longrightarrow> \<not> bit b n"
  by (auto dest: bit_imp_le_length)

lemma le_word_le_bytes [simp]: "le_word (le_bytes w) = w"
proof (rule bit_word_eqI)
  fix n
  assume "n < LENGTH(32)"
  then consider "n < 8" | "8 \<le> n" "n < 16" | "16 \<le> n" "n < 24" | "24 \<le> n" "n < 32"
    by fastforce
  then show "bit (le_word (le_bytes w)) n = bit w n"
    by cases (auto simp: le_word_def le_bytes_def bit_simps)
qed

lemma le_bytes_le_word [simp]: "le_bytes (le_word c) = c"
  unfolding le_word_def le_bytes_def
  by (auto simp: bit_simps split: prod.splits intro!: bit_word_eqI)

lemma be_word_rev: "be_word (b3, b2, b1, b0) = le_word (b0, b1, b2, b3)"
  by (simp add: be_word_def le_word_def or.assoc or.commute or.left_commute)

section \<open>Results that may fail\<close>

text \<open>Sequencing of computations with an error on the left.\<close>

definition bindE :: "'e + 'a \<Rightarrow> ('a \<Rightarrow> 'e + 'b) \<Rightarrow> 'e + 'b" where
  "bindE m k = (case m of Inl e \<Rightarrow> Inl e | Inr x \<Rightarrow> k x)"

lemma bindE_simps [simp]: "bindE (Inl e) k = Inl e" "bindE (Inr x) k = k x"
  by (simp_all add: bindE_def)

section \<open>Bit fields\<close>

text \<open>Masking with a contiguous mask selects a field.\<close>

lemma and_field:
  "a AND push_bit k (mask m) = push_bit k (take_bit m (drop_bit k a))"
  for a :: "'a::semiring_bit_operations"
  by (rule bit_eqI) (auto simp: bit_simps intro: possible_bit_less_imp)

lemma nat_and_field: "n AND push_bit k (mask m) = 2 ^ k * (n div 2 ^ k mod 2 ^ m)" for n :: nat
  unfolding and_field by (simp add: push_bit_eq_mult take_bit_eq_mod drop_bit_eq_div)

lemma unat_and_field:
  "unat v = push_bit k (mask m) \<Longrightarrow> unat (w AND v) = 2 ^ k * (unat w div 2 ^ k mod 2 ^ m)"
  for w v :: "'a::len word"
  by (simp only: unsigned_and_eq nat_and_field)

lemma unat_u8_less [simp]: "unat (b :: u8) < 256"
  using unsigned_less [of b, where 'a = nat] by simp

lemma unat_ucast_u8 [simp]: "unat (ucast (b :: u8) :: u32) = unat b"
  by (simp add: unsigned_ucast_eq take_bit_nat_eq_self_iff less_trans [OF unat_u8_less])

lemma unat_ucast_to_u8: "unat (ucast (w :: u32) :: u8) = unat w mod 256"
  by (simp add: unsigned_ucast_eq take_bit_eq_mod)

lemma unat_add_small:
  "unat a + unat b < 2 ^ LENGTH('a) \<Longrightarrow> unat (a + b) = unat a + unat b" for a b :: "'a::len word"
  by (simp add: unat_word_ariths)

lemma sint_eq_unat:
  fixes w :: u32
  assumes "unat w < 2 ^ 31"
  shows "sint w = int (unat w)"
proof -
  have "nat (uint w) < nat (2 ^ 31)" using assms by (simp add: nat_uint_eq)
  then have "uint w < 2 ^ 31" by (simp only: zless_nat_conj)
  moreover have "- (2 ^ 31) \<le> uint w" by (rule order_trans [of _ 0]) simp_all
  ultimately have "sint w = uint w" by (simp add: sint_uint signed_take_bit_int_eq_self)
  then show ?thesis by simp
qed

lemma unat_of_nat_less: "n < 2 ^ LENGTH('a) \<Longrightarrow> unat (word_of_nat n :: 'a::len word) = n"
  by (simp add: unat_of_nat)

lemma div_mod_pair: "b < m \<Longrightarrow> (a = i div m \<and> b = i mod m) = (i = m * a + b)" for a b i m :: nat
  using mult_div_mod_eq [of m i] by fastforce

text \<open>Packing and unpacking of the first two bytes of a command.\<close>

lemma unpack3:
  fixes o' k h :: nat
  assumes "k < 16" "h < 4"
  shows "(64 * o' + 4 * k + h) div 64 = o'" "(64 * o' + 4 * k + h) div 4 mod 16 = k"
    "(64 * o' + 4 * k + h) mod 4 = h"
proof -
  let ?c = "64 * o' + 4 * k + h"
  have c: "16 * o' + k = ?c div 4" "h = ?c mod 4"
    using div_mod_pair [of h 4 "16 * o' + k" ?c] assms by simp_all
  have "o' = ?c div 4 div 16" "k = ?c div 4 mod 16"
    using div_mod_pair [of k 16 o' "?c div 4"] assms c(1) by simp_all
  with c show "?c div 64 = o'" "?c div 4 mod 16 = k" "?c mod 4 = h"
    using div_mult2_eq [of ?c 4 16] by simp_all
qed

lemma pack3: "64 * (c div 64) + 4 * (c div 4 mod 16) + c mod 4 = c" for c :: nat
proof -
  have "c div 64 = c div 4 div 16" using div_mult2_eq [of c 4 16] by simp
  moreover have "16 * (c div 4 div 16) + c div 4 mod 16 = c div 4" by (rule mult_div_mod_eq)
  ultimately have "4 * (16 * (c div 64) + c div 4 mod 16) + c mod 4 = c"
    by (simp only: mult_div_mod_eq)
  then show ?thesis by (simp add: algebra_simps)
qed

section \<open>Exhaustive case analysis of a byte\<close>

lemma u8_exhaust:
  fixes b :: u8
  assumes "\<And>n. n < 256 \<Longrightarrow> P (word_of_nat n)"
  shows "P b"
proof -
  have "P (word_of_nat (unat b))"
    by (rule assms) (use unsigned_less [of b, where 'a = nat] in simp)
  then show ?thesis by simp
qed

lemma u8_all_list:
  fixes P :: "u8 \<Rightarrow> bool"
  assumes "list_all (\<lambda>n. P (word_of_nat n)) [0..<256]"
  shows "P b"
  by (rule u8_exhaust) (use assms in \<open>auto simp only: list_all_iff set_upt atLeastLessThan_iff\<close>)

section \<open>Search loops\<close>

text \<open>
  \<open>for (i = lo; i < n; ++i) if (P i) { r = i; break; }\<close> with \<open>r\<close> initialised to
  \<open>d\<close>.
\<close>

function scan_from :: "(nat \<Rightarrow> bool) \<Rightarrow> nat \<Rightarrow> nat \<Rightarrow> nat \<Rightarrow> nat" where
  "scan_from P lo n d = (if lo < n then if P lo then lo else scan_from P (Suc lo) n d else d)"
  by pat_completeness auto
termination
  by (relation "measure (\<lambda>(P, lo, n, d). n - lo)") auto

declare scan_from.simps [simp del]

lemma scan_from_hit:
  assumes "lo \<le> k" "k < n" "P k" "\<And>j. lo \<le> j \<Longrightarrow> j < k \<Longrightarrow> \<not> P j"
  shows "scan_from P lo n d = k"
  using assms
proof (induction P lo n d rule: scan_from.induct)
  case (1 P lo n d)
  show ?case
  proof (cases "lo = k")
    case True
    with "1.prems" show ?thesis by (simp add: scan_from.simps [of P k])
  next
    case False
    with "1.prems" have "\<not> P lo" "lo < n" "Suc lo \<le> k" by auto
    then show ?thesis
      using "1.IH" "1.prems" by (simp add: scan_from.simps [of P lo])
  qed
qed

lemma scan_from_miss:
  assumes "\<And>j. lo \<le> j \<Longrightarrow> j < n \<Longrightarrow> \<not> P j"
  shows "scan_from P lo n d = d"
  using assms
  by (induction P lo n d rule: scan_from.induct) (simp add: scan_from.simps)

end
