(* ===== verification/Protocol.thy ===== *)
theory Protocol
  imports Prelude950
begin

text \<open>
  The four byte command codec. The STM32 side is \<open>drivers/protocol.c\<close>: the lookup tables
  \<open>opIndex\<close>, \<open>keyIndex\<close>, \<open>typeIndex\<close> and the functions \<open>prot_cmd_to_msg\<close>,
  \<open>prot_msg_to_cmd\<close>. The DSP side is the head of \<open>Spi_Code.c\<close>: the field getters and
  \<open>instruction_encoder\<close> on one 32 bit word. Both are instances of the locale
  \<open>frame_codec\<close>, and the two agree on every command.
\<close>

section \<open>The interface of a codec\<close>

locale frame_codec =
  fixes enc :: "'m \<Rightarrow> 'c option"
    and dec :: "'c \<Rightarrow> 'm option"
    and in_range :: "'m \<Rightarrow> bool"
  assumes enc_dec: "in_range m \<Longrightarrow> \<exists>c. enc m = Some c \<and> dec c = Some m"
    and dec_range: "dec c = Some m \<Longrightarrow> in_range m"
    and dec_enc: "dec c = Some m \<Longrightarrow> enc m = Some c"
begin

lemma enc_inject:
  assumes "in_range m" "in_range m'" "enc m = enc m'"
  shows "m = m'"
  using assms enc_dec [of m] enc_dec [of m'] by auto

lemma dec_inject:
  assumes "dec c = Some m" "dec c' = Some m"
  shows "c = c'"
  using assms [THEN dec_enc] by simp

lemma decodable_iff: "(\<exists>m. dec c = Some m) = (\<exists>m. in_range m \<and> enc m = Some c)"
proof
  assume "\<exists>m. dec c = Some m"
  then show "\<exists>m. in_range m \<and> enc m = Some c"
    using dec_range dec_enc by blast
next
  assume "\<exists>m. in_range m \<and> enc m = Some c"
  then obtain m where m: "in_range m" "enc m = Some c" by blast
  with enc_dec [of m] show "\<exists>m. dec c = Some m" by auto
qed

end

section \<open>STM32: protocol.c\<close>

text \<open>\<open>CmdMsgStru_t\<close> of \<open>inc.h\<close>; the field \<open>type\<close> is \<open>mtype\<close> here.\<close>

record CmdMsgStru =
  op :: u32
  key :: u32
  mtype :: u32
  param1 :: u32
  param2 :: u32
  param3 :: u32

definition zero_msg :: CmdMsgStru where
  "zero_msg = \<lparr>op = 0, key = 0, mtype = 0, param1 = 0, param2 = 0, param3 = 0\<rparr>"

definition opIndex :: "u32 list" where
  "opIndex = [0x00, 0x40, 0x80, 0xC0]"

definition keyIndex :: "u32 list" where
  "keyIndex =
     [0x00, 0x04, 0x08, 0x0c,
      0x10, 0x14, 0x18, 0x1c,
      0x20, 0x24, 0x28, 0x2c,
      0x30, 0x34, 0x38, 0x3c]"

definition typeIndex :: "(u32 \<times> u32) list" where
  "typeIndex =
     [(0x00, 0x00), (0x00, 0x20), (0x00, 0x40), (0x00, 0x60),
      (0x00, 0x80), (0x00, 0xa0), (0x00, 0xc0), (0x00, 0xe0),
      (0x01, 0x00), (0x01, 0x20), (0x01, 0x40), (0x01, 0x60),
      (0x01, 0x80), (0x01, 0xa0), (0x01, 0xc0), (0x01, 0xe0),
      (0x02, 0x00), (0x02, 0x20), (0x02, 0x40), (0x02, 0x60),
      (0x02, 0x80), (0x02, 0xa0), (0x02, 0xc0), (0x02, 0xe0),
      (0x03, 0x00), (0x03, 0x20), (0x03, 0x40), (0x03, 0x60),
      (0x03, 0x80), (0x03, 0xa0), (0x03, 0xc0), (0x03, 0xe0)]"

definition CMD_GROUP_GENERAL :: u32 where [c_consts]: "CMD_GROUP_GENERAL = 1"
definition CMD_GROUP_MAX :: u32 where [c_consts]: "CMD_GROUP_MAX = 15"

text \<open>
  \<open>prot_cmd_to_msg (pCmd, pMsg)\<close>: the returned code and the message after the call. On the
  error path the message has already lost its operation and its group.
\<close>

definition prot_cmd_to_msg :: "cmd4 \<Rightarrow> CmdMsgStru \<Rightarrow> int \<times> CmdMsgStru" where
  "prot_cmd_to_msg pCmd pMsg =
     (case pCmd of (c0, c1, c2, c3) \<Rightarrow>
      let b0 = ucast c0 :: u32;
          b1 = ucast c1 :: u32;
          m = pMsg\<lparr>op := word_of_nat (scan_from (\<lambda>i. b0 AND 0xC0 = opIndex ! i) 0 4 0)\<rparr>;
          m = m\<lparr>key := word_of_nat (scan_from (\<lambda>i. b0 AND 0x3C = keyIndex ! i) 0 16 0)\<rparr>
      in if key m < CMD_GROUP_GENERAL \<or> CMD_GROUP_MAX < key m then (-1, m)
         else
           (0, m\<lparr>mtype := word_of_nat (scan_from (\<lambda>i. b0 AND 0x03 = fst (typeIndex ! i)
                                              \<and> b1 AND 0xE0 = snd (typeIndex ! i)) 0 32 0),
                 param1 := b1 AND 0x1F, param2 := ucast c2, param3 := ucast c3\<rparr>))"

text \<open>
  \<open>prot_msg_to_cmd (pMsg, pCmd)\<close>: the four bytes written, or \<open>None\<close> when one of the three
  tables is indexed beyond its end (the C code does not check).
\<close>

definition prot_msg_to_cmd :: "CmdMsgStru \<Rightarrow> cmd4 option" where
  "prot_msg_to_cmd m =
     (if unat (op m) < 4 \<and> unat (key m) < 16 \<and> unat (mtype m) < 32 then
        Some (ucast (opIndex ! unat (op m) + keyIndex ! unat (key m)
                       + fst (typeIndex ! unat (mtype m))),
              ucast (snd (typeIndex ! unat (mtype m)) + param1 m),
              ucast (param2 m), ucast (param3 m))
      else None)"

text \<open>The fields a command can carry, as the protocol comment in \<open>Spi_Code.c\<close> lays them out.\<close>

definition msg_in_range :: "CmdMsgStru \<Rightarrow> bool" where
  "msg_in_range m \<longleftrightarrow>
     unat (op m) < 4 \<and> 1 \<le> unat (key m) \<and> unat (key m) < 16 \<and> unat (mtype m) < 32 \<and>
     unat (param1 m) < 32 \<and> unat (param2 m) < 256 \<and> unat (param3 m) < 256"

text \<open>The decoder as a partial function, for callers that start from a zero message.\<close>

definition decode_cmd :: "cmd4 \<Rightarrow> CmdMsgStru option" where
  "decode_cmd c = (case prot_cmd_to_msg c zero_msg of (r, m) \<Rightarrow> if r < 0 then None else Some m)"

subsection \<open>The tables in closed form\<close>

lemma length_tables [simp]:
  "length opIndex = 4" "length keyIndex = 16" "length typeIndex = 32"
  by (simp_all add: opIndex_def keyIndex_def typeIndex_def)

lemma all_less_list: "(\<forall>i<n. P i) = list_all P [0..<n]" for P :: "nat \<Rightarrow> bool"
  by (auto simp: list_all_iff)

lemma opIndex_nth: "i < 4 \<Longrightarrow> unat (opIndex ! i) = 64 * i"
proof -
  have "\<forall>i<4. unat (opIndex ! i) = 64 * i"
    unfolding all_less_list by (simp add: opIndex_def upt_rec)
  then show "i < 4 \<Longrightarrow> unat (opIndex ! i) = 64 * i" by blast
qed

lemma keyIndex_nth: "i < 16 \<Longrightarrow> unat (keyIndex ! i) = 4 * i"
proof -
  have "\<forall>i<16. unat (keyIndex ! i) = 4 * i"
    unfolding all_less_list by (simp add: keyIndex_def upt_rec)
  then show "i < 16 \<Longrightarrow> unat (keyIndex ! i) = 4 * i" by blast
qed

lemma typeIndex_nth:
  assumes "i < 32"
  shows "unat (fst (typeIndex ! i)) = i div 8" "unat (snd (typeIndex ! i)) = 32 * (i mod 8)"
proof -
  have "\<forall>i<32. unat (fst (typeIndex ! i)) = i div 8 \<and> unat (snd (typeIndex ! i)) = 32 * (i mod 8)"
    unfolding all_less_list by (simp add: typeIndex_def upt_rec)
  with assms show "unat (fst (typeIndex ! i)) = i div 8" "unat (snd (typeIndex ! i)) = 32 * (i mod 8)"
    by blast+
qed

subsection \<open>The masked bytes in closed form\<close>

lemma byte_masks:
  fixes b :: u8
  shows "unat ((ucast b :: u32) AND 0xC0) = 64 * (unat b div 64)"
    and "unat ((ucast b :: u32) AND 0x3C) = 4 * (unat b div 4 mod 16)"
    and "unat ((ucast b :: u32) AND 0x03) = unat b mod 4"
    and "unat ((ucast b :: u32) AND 0xE0) = 32 * (unat b div 32)"
    and "unat ((ucast b :: u32) AND 0x1F) = unat b mod 32"
proof -
  have "unat b div 64 < 4" "unat b div 32 < 8"
    using unat_u8_less [of b] by linarith+
  then show "unat ((ucast b :: u32) AND 0xC0) = 64 * (unat b div 64)"
    and "unat ((ucast b :: u32) AND 0x3C) = 4 * (unat b div 4 mod 16)"
    and "unat ((ucast b :: u32) AND 0x03) = unat b mod 4"
    and "unat ((ucast b :: u32) AND 0xE0) = 32 * (unat b div 32)"
    and "unat ((ucast b :: u32) AND 0x1F) = unat b mod 32"
    using unat_and_field [of "0xC0 :: u32" 6 2 "ucast b"]
      unat_and_field [of "0x3C :: u32" 2 4 "ucast b"]
      unat_and_field [of "0x03 :: u32" 0 2 "ucast b"]
      unat_and_field [of "0xE0 :: u32" 5 3 "ucast b"]
      unat_and_field [of "0x1F :: u32" 0 5 "ucast b"]
    by (simp_all add: push_bit_eq_mult mask_eq_exp_minus_1)
qed

lemma decode_op: "scan_from (\<lambda>i. (ucast b :: u32) AND 0xC0 = opIndex ! i) 0 4 0 = unat b div 64"
  for b :: u8
proof -
  have k: "unat b div 64 < 4" using unat_u8_less [of b] by linarith
  have "((ucast b :: u32) AND 0xC0 = opIndex ! i) = (i = unat b div 64)" if "i < 4" for i
    using that by (auto simp: word_unat_eq_iff opIndex_nth byte_masks)
  with k show ?thesis by (intro scan_from_hit) auto
qed

lemma decode_key:
  "scan_from (\<lambda>i. (ucast b :: u32) AND 0x3C = keyIndex ! i) 0 16 0 = unat b div 4 mod 16"
  for b :: u8
proof -
  have "((ucast b :: u32) AND 0x3C = keyIndex ! i) = (i = unat b div 4 mod 16)" if "i < 16" for i
    using that by (auto simp: word_unat_eq_iff keyIndex_nth byte_masks)
  then show ?thesis by (intro scan_from_hit) auto
qed

lemma decode_type:
  "scan_from (\<lambda>i. (ucast b :: u32) AND 0x03 = fst (typeIndex ! i)
                \<and> (ucast c :: u32) AND 0xE0 = snd (typeIndex ! i)) 0 32 0
     = 8 * (unat b mod 4) + unat c div 32"
  for b c :: u8
proof -
  have c: "unat c div 32 < 8" using unat_u8_less [of c] by linarith
  have "((ucast b :: u32) AND 0x03 = fst (typeIndex ! i)
            \<and> (ucast c :: u32) AND 0xE0 = snd (typeIndex ! i))
          = (i = 8 * (unat b mod 4) + unat c div 32)" if "i < 32" for i
  proof -
    have "((ucast b :: u32) AND 0x03 = fst (typeIndex ! i)
            \<and> (ucast c :: u32) AND 0xE0 = snd (typeIndex ! i))
          = (unat b mod 4 = i div 8 \<and> unat c div 32 = i mod 8)"
      using that by (auto simp: word_unat_eq_iff typeIndex_nth byte_masks)
    with div_mod_pair [OF c] show ?thesis by simp
  qed
  moreover have "8 * (unat b mod 4) + unat c div 32 < 32"
    using c mod_less_divisor [of 4 "unat b"] by linarith
  ultimately show ?thesis by (intro scan_from_hit) auto
qed

lemmas decode_fields = decode_op decode_key decode_type

text \<open>The decoder in closed form: which bits of which byte each field is.\<close>

lemma prot_cmd_to_msg_eq:
  "prot_cmd_to_msg (c0, c1, c2, c3) m =
     (let m' = m\<lparr>op := word_of_nat (unat c0 div 64), key := word_of_nat (unat c0 div 4 mod 16)\<rparr>
      in if unat c0 div 4 mod 16 = 0 then (-1, m')
         else (0, m'\<lparr>mtype := word_of_nat (8 * (unat c0 mod 4) + unat c1 div 32),
                     param1 := word_of_nat (unat c1 mod 32),
                     param2 := ucast c2, param3 := ucast c3\<rparr>))"
proof -
  have "unat (word_of_nat (unat c0 div 4 mod 16) :: u32) = unat c0 div 4 mod 16"
    by (simp add: unat_of_nat)
  then have "((word_of_nat (unat c0 div 4 mod 16) :: u32) < CMD_GROUP_GENERAL
              \<or> CMD_GROUP_MAX < word_of_nat (unat c0 div 4 mod 16)) = (unat c0 div 4 mod 16 = 0)"
    using mod_less_divisor [of 16 "unat c0 div 4"]
    by (simp add: c_consts word_less_nat_alt) linarith
  moreover have "(ucast c1 :: u32) AND 0x1F = word_of_nat (unat c1 mod 32)"
    by (simp add: word_unat_eq_iff byte_masks unat_of_nat)
  ultimately show ?thesis
    by (simp add: prot_cmd_to_msg_def decode_fields Let_def)
qed

lemma decode_cmd_eq:
  "decode_cmd (c0, c1, c2, c3) =
     (if unat c0 div 4 mod 16 = 0 then None
      else Some \<lparr>op = word_of_nat (unat c0 div 64), key = word_of_nat (unat c0 div 4 mod 16),
                 mtype = word_of_nat (8 * (unat c0 mod 4) + unat c1 div 32),
                 param1 = word_of_nat (unat c1 mod 32), param2 = ucast c2, param3 = ucast c3\<rparr>)"
  by (simp add: decode_cmd_def prot_cmd_to_msg_eq zero_msg_def Let_def)

lemma decode_cmd_bounds:
  fixes c0 c1 :: u8
  shows "unat c0 div 64 < 4 \<and> unat c0 div 4 mod 16 < 16 \<and>
    8 * (unat c0 mod 4) + unat c1 div 32 < 32 \<and> unat c1 mod 32 < 32"
proof -
  have "unat c0 div 64 < 4" using unat_u8_less [of c0] by linarith
  moreover have "8 * (unat c0 mod 4) + unat c1 div 32 < 32"
    using unat_u8_less [of c1] mod_less_divisor [of 4 "unat c0"] by linarith
  ultimately show ?thesis by simp
qed

lemma decode_cmd_fields:
  assumes "decode_cmd (c0, c1, c2, c3) = Some m"
  shows "unat (op m) = unat c0 div 64" "unat (key m) = unat c0 div 4 mod 16"
    "unat (mtype m) = 8 * (unat c0 mod 4) + unat c1 div 32" "unat (param1 m) = unat c1 mod 32"
    "param2 m = ucast c2" "param3 m = ucast c3" "unat (key m) \<noteq> 0"
  using assms decode_cmd_bounds [of c0 c1]
  by (auto simp: decode_cmd_eq unat_of_nat_less simp del: of_nat_add of_nat_mult split: if_splits)

lemma decode_cmd_in_range: "decode_cmd c = Some m \<Longrightarrow> msg_in_range m"
proof (cases c)
  case (fields c0 c1 c2 c3)
  assume "decode_cmd c = Some m"
  then have "decode_cmd (c0, c1, c2, c3) = Some m" by (simp add: fields)
  from decode_cmd_fields [OF this] show ?thesis
    using decode_cmd_bounds [of c0 c1] by (simp add: msg_in_range_def)
qed

text \<open>The encoder in closed form on messages in range.\<close>

lemma prot_msg_to_cmd_eq:
  assumes "msg_in_range m"
  obtains c0 c1 where "prot_msg_to_cmd m = Some (c0, c1, ucast (param2 m), ucast (param3 m))"
    "unat c0 = 64 * unat (op m) + 4 * unat (key m) + unat (mtype m) div 8"
    "unat c1 = 32 * (unat (mtype m) mod 8) + unat (param1 m)"
proof
  define w0 where
    "w0 = opIndex ! unat (op m) + keyIndex ! unat (key m) + fst (typeIndex ! unat (mtype m))"
  define w1 where "w1 = snd (typeIndex ! unat (mtype m)) + param1 m"
  from assms have r: "unat (op m) < 4" "unat (key m) < 16" "unat (mtype m) < 32"
    "unat (param1 m) < 32"
    by (auto simp: msg_in_range_def)
  then show "prot_msg_to_cmd m = Some (ucast w0, ucast w1, ucast (param2 m), ucast (param3 m))"
    by (simp add: prot_msg_to_cmd_def w0_def w1_def)
  from r have "unat (mtype m) div 8 < 4" "unat (mtype m) mod 8 < 8" by linarith+
  with r have "unat w0 = 64 * unat (op m) + 4 * unat (key m) + unat (mtype m) div 8"
    "64 * unat (op m) + 4 * unat (key m) + unat (mtype m) div 8 < 256"
    "unat w1 = 32 * (unat (mtype m) mod 8) + unat (param1 m)"
    "32 * (unat (mtype m) mod 8) + unat (param1 m) < 256"
    by (simp_all add: w0_def w1_def unat_add_small opIndex_nth keyIndex_nth typeIndex_nth)
  then show "unat (ucast w0 :: u8) = 64 * unat (op m) + 4 * unat (key m) + unat (mtype m) div 8"
    and "unat (ucast w1 :: u8) = 32 * (unat (mtype m) mod 8) + unat (param1 m)"
    by (simp_all only: unat_ucast_to_u8 mod_less)
qed

lemma decode_encode:
  assumes "msg_in_range m"
  shows "\<exists>c. prot_msg_to_cmd m = Some c \<and> decode_cmd c = Some m"
proof -
  obtain c0 c1 where c: "prot_msg_to_cmd m = Some (c0, c1, ucast (param2 m), ucast (param3 m))"
    "unat c0 = 64 * unat (op m) + 4 * unat (key m) + unat (mtype m) div 8"
    "unat c1 = 32 * (unat (mtype m) mod 8) + unat (param1 m)"
    using prot_msg_to_cmd_eq [OF assms] .
  have r: "unat (op m) < 4" "1 \<le> unat (key m)" "unat (key m) < 16" "unat (mtype m) < 32"
    "unat (param1 m) < 32" "unat (param2 m) < 256" "unat (param3 m) < 256"
    using assms by (auto simp: msg_in_range_def)
  then have t: "unat (mtype m) div 8 < 4" "unat (mtype m) mod 8 < 8" by linarith+
  have "unat c0 div 64 = unat (op m)" "unat c0 div 4 mod 16 = unat (key m)"
    "unat c0 mod 4 = unat (mtype m) div 8" "unat c1 div 32 = unat (mtype m) mod 8"
    "unat c1 mod 32 = unat (param1 m)"
    using unpack3 [OF r(3) t(1), of "unat (op m)"]
      div_mod_pair [OF r(5), of "unat (mtype m) mod 8" "unat c1"] c(2,3)
    by (simp_all only: simp_thms)
  moreover have "(ucast (ucast (param2 m) :: u8) :: u32) = param2 m"
    "(ucast (ucast (param3 m) :: u8) :: u32) = param3 m"
    using r by (simp_all add: word_unat_eq_iff unat_ucast_to_u8)
  ultimately have "decode_cmd (c0, c1, ucast (param2 m), ucast (param3 m)) = Some m"
    using r by (simp add: decode_cmd_eq)
  with c(1) show ?thesis by blast
qed

lemma encode_decode:
  assumes "decode_cmd c = Some m"
  shows "prot_msg_to_cmd m = Some c"
proof (cases c)
  case (fields a0 a1 a2 a3)
  obtain c0 c1 where c: "prot_msg_to_cmd m = Some (c0, c1, ucast (param2 m), ucast (param3 m))"
    "unat c0 = 64 * unat (op m) + 4 * unat (key m) + unat (mtype m) div 8"
    "unat c1 = 32 * (unat (mtype m) mod 8) + unat (param1 m)"
    using prot_msg_to_cmd_eq [OF decode_cmd_in_range [OF assms]] .
  note m = decode_cmd_fields [OF assms [unfolded fields]]
  have "unat a1 div 32 < 8" using unat_u8_less [of a1] by linarith
  then have "unat c0 = unat a0" "unat c1 = unat a1"
    unfolding c(2,3) m using pack3 [of "unat a0"] by simp_all
  then have "c0 = a0" "c1 = a1" by (simp_all add: word_unat_eq_iff)
  with c(1) show ?thesis by (simp add: fields m word_unat_eq_iff unat_ucast_to_u8)
qed

interpretation stm: frame_codec prot_msg_to_cmd decode_cmd msg_in_range
  by unfold_locales (rule decode_encode decode_cmd_in_range encode_decode; assumption)+

section \<open>DSP: the field getters and the encoder of Spi\_Code.c\<close>

definition getinstructiontype :: "u32 \<Rightarrow> u32" where
  "getinstructiontype w = drop_bit 30 (w AND 0xC0000000)"

definition getinstructiongroup :: "u32 \<Rightarrow> u32" where
  "getinstructiongroup w = drop_bit 26 (w AND 0x3C000000)"

definition getinstructionindexingroup :: "u32 \<Rightarrow> u32" where
  "getinstructionindexingroup w = drop_bit 21 (w AND 0x3E00000)"

definition getpara1_unsignedint :: "u32 \<Rightarrow> u32" where
  "getpara1_unsignedint w = drop_bit 16 (w AND 0x1F0000)"

definition getpara2_unsignedint :: "u32 \<Rightarrow> u32" where
  "getpara2_unsignedint w = drop_bit 8 (w AND 0xFF00)"

text \<open>The signed getters shift the byte to the top of an \<open>int\<close> and back arithmetically.\<close>

definition getpara2_signedint :: "u32 \<Rightarrow> u32" where
  "getpara2_signedint w = signed_drop_bit 24 (push_bit 16 (w AND 0xFF00))"

definition getpara3_unsignedint :: "u32 \<Rightarrow> u32" where
  "getpara3_unsignedint w = w AND 0xFF"

definition getpara3_signedint :: "u32 \<Rightarrow> u32" where
  "getpara3_signedint w = signed_drop_bit 24 (push_bit 24 (w AND 0xFF))"

definition getpara23_unsignedint :: "u32 \<Rightarrow> u32" where
  "getpara23_unsignedint w = 256 * getpara2_unsignedint w + getpara3_unsignedint w"

definition instruction_encoder :: "u32 \<Rightarrow> u32 \<Rightarrow> u32 \<Rightarrow> u32 \<Rightarrow> u32 \<Rightarrow> u32 \<Rightarrow> u32" where
  "instruction_encoder t g i p1 p2 p3 =
     push_bit 30 (t AND 0x3) OR push_bit 26 (g AND 0xF) OR push_bit 21 (i AND 0x1F)
     OR push_bit 16 (p1 AND 0x1F) OR push_bit 8 (p2 AND 0xFF) OR (p3 AND 0xFF)"

lemma getters_take_bit:
  "getinstructiontype w = take_bit 2 (drop_bit 30 w)"
  "getinstructiongroup w = take_bit 4 (drop_bit 26 w)"
  "getinstructionindexingroup w = take_bit 5 (drop_bit 21 w)"
  "getpara1_unsignedint w = take_bit 5 (drop_bit 16 w)"
  "getpara2_unsignedint w = take_bit 8 (drop_bit 8 w)"
  "getpara3_unsignedint w = take_bit 8 w"
proof -
  have m: "(0xC0000000 :: u32) = push_bit 30 (mask 2)" "(0x3C000000 :: u32) = push_bit 26 (mask 4)"
    "(0x3E00000 :: u32) = push_bit 21 (mask 5)" "(0x1F0000 :: u32) = push_bit 16 (mask 5)"
    "(0xFF00 :: u32) = push_bit 8 (mask 8)" "(0xFF :: u32) = mask 8"
    by (simp_all add: mask_eq_exp_minus_1 push_bit_eq_mult)
  show "getinstructiontype w = take_bit 2 (drop_bit 30 w)"
    "getinstructiongroup w = take_bit 4 (drop_bit 26 w)"
    "getinstructionindexingroup w = take_bit 5 (drop_bit 21 w)"
    "getpara1_unsignedint w = take_bit 5 (drop_bit 16 w)"
    "getpara2_unsignedint w = take_bit 8 (drop_bit 8 w)"
    "getpara3_unsignedint w = take_bit 8 w"
    unfolding getinstructiontype_def getinstructiongroup_def getinstructionindexingroup_def
      getpara1_unsignedint_def getpara2_unsignedint_def getpara3_unsignedint_def m
    by (rule bit_word_eqI; auto simp: bit_simps)+
qed

lemma and_take_bit:
  "(t AND 0x3 :: u32) = take_bit 2 t" "(t AND 0xF :: u32) = take_bit 4 t"
  "(t AND 0x1F :: u32) = take_bit 5 t" "(t AND 0xFF :: u32) = take_bit 8 t"
  by (simp_all add: take_bit_eq_mask mask_eq_exp_minus_1)

lemma getters_of_encoder:
  "getinstructiontype (instruction_encoder t g i p1 p2 p3) = take_bit 2 t"
  "getinstructiongroup (instruction_encoder t g i p1 p2 p3) = take_bit 4 g"
  "getinstructionindexingroup (instruction_encoder t g i p1 p2 p3) = take_bit 5 i"
  "getpara1_unsignedint (instruction_encoder t g i p1 p2 p3) = take_bit 5 p1"
  "getpara2_unsignedint (instruction_encoder t g i p1 p2 p3) = take_bit 8 p2"
  "getpara3_unsignedint (instruction_encoder t g i p1 p2 p3) = take_bit 8 p3"
  unfolding getters_take_bit instruction_encoder_def and_take_bit
  by (rule bit_word_eqI; auto simp: bit_simps)+

lemma encoder_of_getters:
  "instruction_encoder (getinstructiontype w) (getinstructiongroup w)
     (getinstructionindexingroup w) (getpara1_unsignedint w) (getpara2_unsignedint w)
     (getpara3_unsignedint w) = w"
proof (rule bit_word_eqI)
  fix n
  assume "n < LENGTH(32)"
  then consider "n < 8" | "8 \<le> n" "n < 16" | "16 \<le> n" "n < 21" | "21 \<le> n" "n < 26"
    | "26 \<le> n" "n < 30" | "30 \<le> n" "n < 32"
    by fastforce
  then show "bit (instruction_encoder (getinstructiontype w) (getinstructiongroup w)
     (getinstructionindexingroup w) (getpara1_unsignedint w) (getpara2_unsignedint w)
     (getpara3_unsignedint w)) n = bit w n"
    by cases (auto simp: instruction_encoder_def getters_take_bit and_take_bit bit_simps)
qed

definition dsp_encode :: "CmdMsgStru \<Rightarrow> u32" where
  "dsp_encode m = instruction_encoder (op m) (key m) (mtype m) (param1 m) (param2 m) (param3 m)"

definition dsp_decode :: "u32 \<Rightarrow> CmdMsgStru" where
  "dsp_decode w = \<lparr>op = getinstructiontype w, key = getinstructiongroup w,
     mtype = getinstructionindexingroup w, param1 = getpara1_unsignedint w,
     param2 = getpara2_unsignedint w, param3 = getpara3_unsignedint w\<rparr>"

definition dsp_in_range :: "CmdMsgStru \<Rightarrow> bool" where
  "dsp_in_range m \<longleftrightarrow>
     unat (op m) < 4 \<and> unat (key m) < 16 \<and> unat (mtype m) < 32 \<and>
     unat (param1 m) < 32 \<and> unat (param2 m) < 256 \<and> unat (param3 m) < 256"

lemma take_bit_u32_self: "unat w < 2 ^ n \<Longrightarrow> n \<le> 32 \<Longrightarrow> take_bit n w = w" for w :: u32
  by (simp add: word_unat_eq_iff unsigned_take_bit_eq take_bit_nat_eq_self_iff)

lemma unat_take_bit_u32: "unat (take_bit n w) < 2 ^ n" for w :: u32
  by (simp add: unsigned_take_bit_eq take_bit_nat_less_exp)

lemma dsp_decode_encode: "dsp_in_range m \<Longrightarrow> dsp_decode (dsp_encode m) = m"
  by (simp add: dsp_in_range_def dsp_decode_def dsp_encode_def getters_of_encoder take_bit_u32_self)

lemma dsp_decode_in_range: "dsp_in_range (dsp_decode w)"
  using unat_take_bit_u32 [of 2] unat_take_bit_u32 [of 4] unat_take_bit_u32 [of 5]
    unat_take_bit_u32 [of 8]
  by (simp add: dsp_in_range_def dsp_decode_def getters_take_bit)

interpretation dsp: frame_codec "\<lambda>m. Some (dsp_encode m)" "\<lambda>w. Some (dsp_decode w)" dsp_in_range
  by unfold_locales
    (auto simp: dsp_decode_encode dsp_decode_in_range,
     auto simp: dsp_encode_def dsp_decode_def encoder_of_getters)

section \<open>The two sides agree\<close>

lemma bit_u8_high': "bit (c :: u8) n \<Longrightarrow> n < 8"
  by (auto dest: bit_imp_le_length)

lemma be_word_fields:
  "getinstructiontype (be_word (c0, c1, c2, c3)) = take_bit 2 (drop_bit 6 (ucast c0))"
  "getinstructiongroup (be_word (c0, c1, c2, c3)) = take_bit 4 (drop_bit 2 (ucast c0))"
  "getinstructionindexingroup (be_word (c0, c1, c2, c3))
     = push_bit 3 (take_bit 2 (ucast c0)) OR take_bit 3 (drop_bit 5 (ucast c1))"
  "getpara1_unsignedint (be_word (c0, c1, c2, c3)) = take_bit 5 (ucast c1)"
  "getpara2_unsignedint (be_word (c0, c1, c2, c3)) = ucast c2"
  "getpara3_unsignedint (be_word (c0, c1, c2, c3)) = ucast c3"
  unfolding getters_take_bit
  by (rule bit_word_eqI; auto simp: be_word_def bit_simps dest: bit_u8_high')+

lemma unat_take_drop_u8:
  "m \<le> 32 \<Longrightarrow> unat (take_bit m (drop_bit k (ucast (c :: u8))) :: u32) = unat c div 2 ^ k mod 2 ^ m"
  unfolding unsigned_take_bit_eq unat_drop_bit_eq unat_ucast_u8
  by (simp add: take_bit_eq_mod drop_bit_eq_div)

lemma dsp_agrees:
  assumes "decode_cmd c = Some m"
  shows "dsp_decode (be_word c) = m"
proof (cases c)
  case (fields c0 c1 c2 c3)
  note m = decode_cmd_fields [OF assms [unfolded fields]]
  have "unat c1 div 32 < 8" "unat c0 div 64 < 4"
    using unat_u8_less [of c1] unat_u8_less [of c0] by linarith+
  then have "getinstructiontype (be_word c) = op m" "getinstructiongroup (be_word c) = key m"
    "getpara1_unsignedint (be_word c) = param1 m"
    using unat_take_drop_u8 [of 2 6 c0] unat_take_drop_u8 [of 4 2 c0] unat_take_drop_u8 [of 5 0 c1]
    by (simp_all add: fields be_word_fields word_unat_eq_iff m)
  moreover have "getinstructionindexingroup (be_word c) = mtype m"
  proof -
    have "getinstructionindexingroup (be_word c)
            = push_bit 3 (take_bit 2 (ucast c0)) + take_bit 3 (drop_bit 5 (ucast c1))"
      unfolding fields be_word_fields
      by (rule disjunctive_add_eq_or [symmetric]) (rule bit_word_eqI; auto simp: bit_simps)
    moreover have "unat (take_bit 3 (drop_bit 5 (ucast c1)) :: u32) = unat c1 div 32"
      "unat (push_bit 3 (take_bit 2 (ucast c0)) :: u32) = 8 * (unat c0 mod 4)"
      using unat_take_drop_u8 [of 3 5 c1] unat_take_drop_u8 [of 2 0 c0] \<open>unat c1 div 32 < 8\<close>
      by (simp_all add: push_bit_eq_mult unat_word_ariths)
    ultimately show ?thesis
      using decode_cmd_bounds [of c0 c1] by (simp add: word_unat_eq_iff m unat_add_small)
  qed
  ultimately show ?thesis
    by (simp add: dsp_decode_def m fields be_word_fields)
qed

lemma getpara_signed:
  "sint (getpara2_signedint w) = sint (ucast (getpara2_unsignedint w) :: u8)"
  "sint (getpara3_signedint w) = sint (ucast (getpara3_unsignedint w) :: u8)"
proof -
  have m: "(0xFF00 :: u32) = push_bit 8 (mask 8)" "(0xFF :: u32) = mask 8"
    by (simp_all add: mask_eq_exp_minus_1 push_bit_eq_mult)
  show "sint (getpara2_signedint w) = sint (ucast (getpara2_unsignedint w) :: u8)"
    "sint (getpara3_signedint w) = sint (ucast (getpara3_unsignedint w) :: u8)"
    unfolding getpara2_signedint_def getpara3_signedint_def getters_take_bit m
      sint_signed_drop_bit_eq
    by (rule bit_eqI; auto simp: bit_simps min_def)+
qed

lemma prot_cmd_to_msg_ok_iff: "(prot_cmd_to_msg c m0 = (0, m)) = (decode_cmd c = Some m)"
  by (cases c) (auto simp: prot_cmd_to_msg_eq decode_cmd_eq Let_def)

lemma prot_cmd_to_msg_code: "fst (prot_cmd_to_msg c m0) = (if decode_cmd c = None then -1 else 0)"
  by (cases c) (auto simp: prot_cmd_to_msg_eq decode_cmd_eq Let_def)

section \<open>Properties\<close>

text \<open>
  C10: encoding a message whose fields are in range and decoding the four bytes again gives
  the same message, whatever the decoder's output buffer held before.
\<close>

theorem prot_round_trip:
  assumes "msg_in_range m"
  shows "\<exists>c. prot_msg_to_cmd m = Some c \<and> prot_cmd_to_msg c m0 = (0, m)"
  using stm.enc_dec [OF assms] by (simp add: prot_cmd_to_msg_ok_iff)

theorem prot_round_trip_witness:
  "\<exists>c. prot_msg_to_cmd \<lparr>op = 0, key = 1, mtype = 8, param1 = 0, param2 = 48, param3 = 0\<rparr> = Some c
     \<and> prot_cmd_to_msg c zero_msg
         = (0, \<lparr>op = 0, key = 1, mtype = 8, param1 = 0, param2 = 48, param3 = 0\<rparr>)"
  by (rule prot_round_trip) (simp add: msg_in_range_def)

text \<open>
  Every command the STM32 decoder accepts is the encoding of the message it returns, and
  that message is in range; the decoder loses nothing.
\<close>

theorem prot_decode_lossless:
  assumes "prot_cmd_to_msg c m0 = (0, m)"
  shows "msg_in_range m \<and> prot_msg_to_cmd m = Some c"
  using assms stm.dec_range stm.dec_enc unfolding prot_cmd_to_msg_ok_iff by blast

theorem prot_decode_lossless_witness:
  "msg_in_range \<lparr>op = 0, key = 1, mtype = 9, param1 = 1, param2 = 0, param3 = 0\<rparr> \<and>
   prot_msg_to_cmd \<lparr>op = 0, key = 1, mtype = 9, param1 = 1, param2 = 0, param3 = 0\<rparr>
     = Some (0x05, 0x21, 0, 0)"
  using prot_decode_lossless [of "(0x05, 0x21, 0, 0)" zero_msg
      "\<lparr>op = 0, key = 1, mtype = 9, param1 = 1, param2 = 0, param3 = 0\<rparr>"]
  by (simp add: prot_cmd_to_msg_ok_iff decode_cmd_eq)

text \<open>
  C18: the two processors read the same fields. If the STM32 decodes a command, then the
  DSP's getters applied to the word the four bytes form on the wire (first byte highest) return
  exactly the operation, group, index and the three parameters of the STM32's message.
\<close>

theorem stm_dsp_agree:
  assumes "prot_cmd_to_msg c m0 = (0, m)"
  shows "getinstructiontype (be_word c) = op m \<and> getinstructiongroup (be_word c) = key m \<and>
    getinstructionindexingroup (be_word c) = mtype m \<and> getpara1_unsignedint (be_word c) = param1 m \<and>
    getpara2_unsignedint (be_word c) = param2 m \<and> getpara3_unsignedint (be_word c) = param3 m"
proof -
  from assms have "dsp_decode (be_word c) = m"
    by (simp add: prot_cmd_to_msg_ok_iff dsp_agrees)
  then show ?thesis by (auto simp: dsp_decode_def)
qed

theorem stm_dsp_agree_witness:
  "getinstructiongroup (be_word (0x05, 0x00, 0x30, 0x00)) = 1 \<and>
   getinstructionindexingroup (be_word (0x05, 0x00, 0x30, 0x00)) = 8 \<and>
   getpara2_unsignedint (be_word (0x05, 0x00, 0x30, 0x00)) = 0x30"
  using stm_dsp_agree [of "(0x05, 0x00, 0x30, 0x00)" zero_msg
      "\<lparr>op = 0, key = 1, mtype = 8, param1 = 0, param2 = 0x30, param3 = 0\<rparr>"]
  by (simp add: prot_cmd_to_msg_ok_iff decode_cmd_eq)

text \<open>
  The DSP's encoder and getters are inverse: the getters return each argument cut to
  its field width, and re-encoding the fields of any word gives the word back.
\<close>

theorem instruction_encoder_inverse:
  "getinstructiontype (instruction_encoder t g i p1 p2 p3) = take_bit 2 t \<and>
   getinstructiongroup (instruction_encoder t g i p1 p2 p3) = take_bit 4 g \<and>
   getinstructionindexingroup (instruction_encoder t g i p1 p2 p3) = take_bit 5 i \<and>
   getpara1_unsignedint (instruction_encoder t g i p1 p2 p3) = take_bit 5 p1 \<and>
   getpara2_unsignedint (instruction_encoder t g i p1 p2 p3) = take_bit 8 p2 \<and>
   getpara3_unsignedint (instruction_encoder t g i p1 p2 p3) = take_bit 8 p3 \<and>
   instruction_encoder (getinstructiontype w) (getinstructiongroup w)
     (getinstructionindexingroup w) (getpara1_unsignedint w) (getpara2_unsignedint w)
     (getpara3_unsignedint w) = w"
  by (simp add: getters_of_encoder encoder_of_getters)

end
