(* ===== verification/Spi_Port.thy ===== *)
theory Spi_Port
  imports Prelude950
begin

text \<open>
  The SPI peripherals of the STM32 as the drivers see them. A port is a record of the three
  things the code can do to a chip with state \<open>'c\<close>: drive its select line low or high, and
  exchange one byte (the polling on \<open>TXE\<close> and \<open>RXNE\<close> inside \<open>SPI_DSP_SendByte\<close> and
  \<open>SPI_FLASH_SendByte\<close> belongs to the peripheral). The theory holds the block transfers of
  \<open>drivers/spi_instruction.c\<close> and a recording port, whose state is the trace of the bus.
\<close>

record 'c spi_port =
  cs_low :: "'c \<Rightarrow> 'c"
  cs_high :: "'c \<Rightarrow> 'c"
  xfer :: "u8 \<Rightarrow> 'c \<Rightarrow> u8 \<times> 'c"

text \<open>The transmit loop: every byte is sent, every reply dropped.\<close>

fun tx_loop :: "'c spi_port \<Rightarrow> u8 list \<Rightarrow> 'c \<Rightarrow> 'c" where
  "tx_loop p [] c = c"
| "tx_loop p (b # bs) c = tx_loop p bs (snd (xfer p b c))"

definition SPI_DSP_SendBytes :: "'c spi_port \<Rightarrow> u8 list \<Rightarrow> 'c \<Rightarrow> 'c" where
  "SPI_DSP_SendBytes p buffer c = cs_high p (tx_loop p buffer (cs_low p c))"

definition SPI_DSP_SendBytes_using_tftp :: "'c spi_port \<Rightarrow> u8 list \<Rightarrow> 'c \<Rightarrow> 'c" where
  "SPI_DSP_SendBytes_using_tftp p buffer c = cs_high p (tx_loop p buffer (cs_low p c))"

text \<open>The four replies form the word with the first reply highest.\<close>

definition SPI_DSP_ReadByte :: "'c spi_port \<Rightarrow> 'c \<Rightarrow> u32 \<times> 'c" where
  "SPI_DSP_ReadByte p c =
     (let c = cs_low p c;
          (r1, c) = xfer p 0xff c;
          (r2, c) = xfer p 0xff c;
          (r3, c) = xfer p 0xff c;
          (r4, c) = xfer p 0xff c;
          c = cs_high p c
      in (push_bit 24 (ucast r1) OR push_bit 16 (ucast r2) OR push_bit 8 (ucast r3) OR ucast r4, c))"

section \<open>A recording port\<close>

datatype spi_event = CsLow | CsHigh | Tx u8

text \<open>\<open>reply\<close> is what the chip answers to each byte, as a function of the trace so far.\<close>

definition trace_port :: "(spi_event list \<Rightarrow> u8) \<Rightarrow> spi_event list spi_port" where
  "trace_port reply =
     \<lparr>cs_low = (\<lambda>t. t @ [CsLow]), cs_high = (\<lambda>t. t @ [CsHigh]),
      xfer = (\<lambda>b t. (reply t, t @ [Tx b]))\<rparr>"

definition frame :: "u8 list \<Rightarrow> spi_event list" where
  "frame bs = CsLow # map Tx bs @ [CsHigh]"

lemma trace_port_sel [simp]:
  "cs_low (trace_port r) t = t @ [CsLow]" "cs_high (trace_port r) t = t @ [CsHigh]"
  "xfer (trace_port r) b t = (r t, t @ [Tx b])"
  by (simp_all add: trace_port_def)

lemma tx_loop_append: "tx_loop p (as @ bs) c = tx_loop p bs (tx_loop p as c)"
  by (induction as arbitrary: c) simp_all

lemma tx_loop_trace [simp]: "tx_loop (trace_port r) bs t = t @ map Tx bs"
  by (induction bs arbitrary: t) simp_all

lemma SendBytes_trace [simp]: "SPI_DSP_SendBytes (trace_port r) bs t = t @ frame bs"
  by (simp add: SPI_DSP_SendBytes_def frame_def)

text \<open>
  What the DSP sees: \<open>SPI_DSP_Init\<close> selects \<open>SPI_FirstBit_LSB\<close>, so a receiver of 32 bit
  words assembles four bytes with the first one lowest.
\<close>

definition lsb_first_word :: "u8 list \<Rightarrow> u32" where
  "lsb_first_word bs = le_word (of_bytes bs)"

text \<open>Splits a trace into the byte strings of its frames; bytes outside a frame are ignored.\<close>

fun split_frames :: "u8 list option \<Rightarrow> spi_event list \<Rightarrow> u8 list list" where
  "split_frames cur [] = []"
| "split_frames cur (CsLow # es) = split_frames (Some []) es"
| "split_frames None (Tx b # es) = split_frames None es"
| "split_frames (Some bs) (Tx b # es) = split_frames (Some (bs @ [b])) es"
| "split_frames None (CsHigh # es) = split_frames None es"
| "split_frames (Some bs) (CsHigh # es) = bs # split_frames None es"

lemma split_frames_body:
  "split_frames (Some acc) (map Tx bs @ CsHigh # es) = (acc @ bs) # split_frames None es"
  by (induction bs arbitrary: acc) simp_all

lemma split_frames_frame [simp]: "split_frames None (frame bs @ es) = bs # split_frames None es"
  by (simp add: frame_def split_frames_body)

lemma split_frames_concat [simp]: "split_frames None (concat (map frame fs)) = fs"
  by (induction fs) simp_all

definition received_words :: "spi_event list \<Rightarrow> u32 list" where
  "received_words t = map lsb_first_word (split_frames None t)"

text \<open>What a reader of four bytes gets from a chip that answers with fixed bytes.\<close>

lemma ReadByte_trace:
  "SPI_DSP_ReadByte (trace_port r) t =
     (be_word (r (t @ [CsLow]), r (t @ [CsLow, Tx 0xff]), r (t @ [CsLow, Tx 0xff, Tx 0xff]),
               r (t @ [CsLow, Tx 0xff, Tx 0xff, Tx 0xff])),
      t @ frame [0xff, 0xff, 0xff, 0xff])"
  by (simp add: SPI_DSP_ReadByte_def be_word_def frame_def Let_def)

end
