(* ===== verification/Command_Db.thy ===== *)
theory Command_Db
  imports Protocol Spi_Port
begin

text \<open>
  The parameter database of the STM32: the command tables and descriptors of
  \<open>drivers/inc.c\<close> and the operations of \<open>drivers/do_data.c\<close> on them. A table is an array
  of (id, data) pairs whose used entries form a prefix; an id is built from the group, the index
  in the group and, depending on the descriptor, one or two parameters. Each table refines a
  finite map from ids to data words (locale \<open>id_store\<close>).
\<close>

section \<open>Groups, descriptors and ids\<close>

record CmdData =
  cd_id :: u32
  cd_data :: u32

record GroupAndTableStru =
  gt_key :: u32
  gt_table :: "CmdData list"

type_synonym cmd_db = "GroupAndTableStru list"

definition zero_entry :: CmdData where
  "zero_entry = \<lparr>cd_id = 0, cd_data = 0\<rparr>"

definition CMD_GROUP_MIN :: u32 where [c_consts]: "CMD_GROUP_MIN = 1"
definition CMD_GROUP_OUTPUT :: u32 where [c_consts]: "CMD_GROUP_OUTPUT = 11"
definition CMD_GROUP_OTHER :: u32 where [c_consts]: "CMD_GROUP_OTHER = 13"
definition CMD_GROUP_SOUND :: u32 where [c_consts]: "CMD_GROUP_SOUND = 14"
definition CMD_GROUP_FERQ :: u32 where [c_consts]: "CMD_GROUP_FERQ = 15"

definition CMD_DATA_INDEX_INVALID :: u32 where [c_consts]: "CMD_DATA_INDEX_INVALID = 3"
definition CMD_DATA_INDEX_MAX :: u32 where [c_consts]: "CMD_DATA_INDEX_MAX = 2"

definition INPUT_PARA_SIZE :: nat where "INPUT_PARA_SIZE = 1+1+1+8+1+1"
definition GENERAL_PARA_SIZE :: nat where
  "GENERAL_PARA_SIZE = 1+1+1+1+24+24+24+1+1+1+1+1+24*24+1+1+1"
definition OTHER_PARA_SIZE :: nat where "OTHER_PARA_SIZE = 1"
definition SOUND_PARA_SIZE :: nat where "SOUND_PARA_SIZE = 1"
definition OUTPUT_PARA_SIZE :: nat where "OUTPUT_PARA_SIZE = 24*3+30+24+24+24+24+24+30*31"
definition FREQDIV_PARA_SIZE :: nat where "FREQDIV_PARA_SIZE = 24 * 6"

definition SPI_CODE_SIZE :: nat where
  "SPI_CODE_SIZE = INPUT_PARA_SIZE * 7 + GENERAL_PARA_SIZE + OTHER_PARA_SIZE + SOUND_PARA_SIZE
     + OUTPUT_PARA_SIZE + FREQDIV_PARA_SIZE"

lemmas para_size = INPUT_PARA_SIZE_def GENERAL_PARA_SIZE_def OTHER_PARA_SIZE_def
  SOUND_PARA_SIZE_def OUTPUT_PARA_SIZE_def FREQDIV_PARA_SIZE_def

lemma SPI_CODE_SIZE_eq: "SPI_CODE_SIZE = 2049"
  by (simp add: SPI_CODE_SIZE_def para_size)

text \<open>The keys and the sizes of \<open>group_table\<close>, in its order.\<close>

definition group_sizes :: "(u32 \<times> nat) list" where
  "group_sizes =
     [(1, GENERAL_PARA_SIZE),
      (2, INPUT_PARA_SIZE), (3, INPUT_PARA_SIZE), (4, INPUT_PARA_SIZE), (5, INPUT_PARA_SIZE),
      (6, INPUT_PARA_SIZE), (7, INPUT_PARA_SIZE), (8, INPUT_PARA_SIZE),
      (11, OUTPUT_PARA_SIZE), (13, OTHER_PARA_SIZE), (14, SOUND_PARA_SIZE),
      (15, FREQDIV_PARA_SIZE)]"

text \<open>The tables at reset: C zeroes static arrays.\<close>

definition group_table_init :: cmd_db where
  "group_table_init =
     map (\<lambda>(k, n). \<lparr>gt_key = k, gt_table = replicate n zero_entry\<rparr>) group_sizes"

text \<open>A descriptor row: index in the group, position of the value, name.\<close>

type_synonym cmd_desc_row = "u32 \<times> u32 \<times> string"

definition general_cmd_desc :: "cmd_desc_row list" where
  "general_cmd_desc =
     [(1, 1, ''SoundFieldX''), (2, 1, ''SoundFieldY''), (3, 1, ''SoundFieldZ''),
      (4, 0, ''SpeakerNumber''), (5, 1, ''SpeakerX''), (6, 1, ''SpeakerY''),
      (7, 1, ''SpeakerZ''), (8, 1, ''KnobVolume''), (9, 0, ''InputXtype''),
      (10, 0, ''FadeInTime''), (11, 0, ''FadeOutTime''), (12, 0, ''SurroundType''),
      (13, 2, ''OutPinAssign''), (14, 0, ''MonitorOutState''), (15, 0, ''Mute''),
      (16, 0, ''PCSwitch'')]"

definition input_cmd_desc :: "cmd_desc_row list" where
  "input_cmd_desc =
     [(1, 0, ''SamplingRate''), (2, 0, ''Decoder''), (3, 0, ''ChannelNumber''),
      (4, 1, ''PinAssignList''), (5, 1, ''Delay''), (6, 0, ''PlaybackSF'')]"

definition output_cmd_desc :: "cmd_desc_row list" where
  "output_cmd_desc =
     [(1, 2, ''FreqDivVal''), (2, 1, ''Level''), (3, 1, ''Delay''), (4, 1, ''HighCutFreq''),
      (5, 1, ''LowCutFreq''), (6, 1, ''HighCutSlope''), (7, 1, ''LowCutSlope''),
      (8, 2, ''EQBandGain'')]"

definition freq_div_cmd_desc :: "cmd_desc_row list" where
  "freq_div_cmd_desc =
     [(1, 1, ''FreqDiv_01''), (2, 1, ''FreqDiv_02''), (3, 1, ''FreqDiv_03''),
      (4, 1, ''FreqDiv_04''), (5, 1, ''FreqDiv_05''), (6, 1, ''FreqDiv_06''),
      (7, 1, ''FreqDiv_07''), (8, 1, ''FreqDiv_08''), (9, 1, ''FreqDiv_09''),
      (10, 1, ''FreqDiv_10''), (11, 1, ''FreqDiv_11''), (12, 1, ''FreqDiv_12''),
      (13, 1, ''FreqDiv_13''), (14, 1, ''FreqDiv_14''), (15, 1, ''FreqDiv_15''),
      (16, 1, ''FreqDiv_16''), (17, 1, ''FreqDiv_17''), (18, 1, ''FreqDiv_18''),
      (19, 1, ''FreqDiv_19''), (20, 1, ''FreqDiv_20''), (21, 1, ''FreqDiv_21''),
      (22, 1, ''FreqDiv_22''), (23, 1, ''FreqDiv_23''), (24, 1, ''FreqDiv_24'')]"

lemmas desc_tables = general_cmd_desc_def input_cmd_desc_def output_cmd_desc_def
  freq_div_cmd_desc_def

text \<open>
  \<open>get_table_name\<close>: the position in \<open>group_table\<close> of the row with the key; the C loop
  has no \<open>break\<close>, so it is the last such row.
\<close>

fun last_row :: "u32 \<Rightarrow> cmd_db \<Rightarrow> nat \<Rightarrow> nat option \<Rightarrow> nat option" where
  "last_row k [] i p = p"
| "last_row k (g # gs) i p = last_row k gs (Suc i) (if gt_key g = k then Some i else p)"

definition get_table_name :: "cmd_db \<Rightarrow> u32 \<Rightarrow> nat option" where
  "get_table_name db k =
     (if k < CMD_GROUP_MIN \<or> CMD_GROUP_MAX < k then None else last_row k db 0 None)"

text \<open>\<open>get_cmd_desc_s\<close>: the descriptor table of a group, \<open>None\<close> for the return value -1.\<close>

definition get_cmd_desc_s :: "u32 \<Rightarrow> cmd_desc_row list option" where
  "get_cmd_desc_s k =
     (if k = CMD_GROUP_GENERAL then Some general_cmd_desc
      else if k \<in> {2, 3, 4, 5, 6, 7, 8} then Some input_cmd_desc
      else if k = CMD_GROUP_OUTPUT then Some output_cmd_desc
      else if k = CMD_GROUP_FERQ then Some freq_div_cmd_desc
      else None)"

definition get_cmd_index :: "u32 \<Rightarrow> u32 \<Rightarrow> u32" where
  "get_cmd_index k t =
     (case get_cmd_desc_s k of
        None \<Rightarrow> CMD_DATA_INDEX_INVALID
      | Some ds \<Rightarrow>
          let index = (case map_of ds t of Some (ix, _) \<Rightarrow> ix | None \<Rightarrow> CMD_DATA_INDEX_INVALID)
          in if CMD_DATA_INDEX_MAX < index then CMD_DATA_INDEX_INVALID else index)"

text \<open>
  \<open>get_cmd_id\<close>: the 32 bits of the returned \<open>int\<close>; -1 is \<open>0xFFFFFFFF\<close>. The shifts are
  those of the macros \<open>GET_CMD_ID_P1\<close> to \<open>GET_CMD_ID_P3\<close>.
\<close>

definition get_cmd_id :: "CmdMsgStru \<Rightarrow> u32" where
  "get_cmd_id m =
     (let index = get_cmd_index (key m) (mtype m);
          p1 = push_bit 18 (key m) OR push_bit 13 (mtype m)
      in if index = CMD_DATA_INDEX_INVALID then -1
         else if index = 0 then p1
         else if index = 1 then p1 OR push_bit 8 (param1 m)
         else if index = 2 then p1 OR push_bit 8 (param1 m) OR param2 m
         else -1)"

section \<open>One table\<close>

text \<open>
  The loop and the append of \<open>do_add_cmd_msg\<close>: the entries are walked while their id is not
  zero; an equal id has its data replaced, the first free entry takes the pair, and a full table
  fails (\<open>None\<close>).
\<close>

fun table_add :: "u32 \<Rightarrow> u32 \<Rightarrow> CmdData list \<Rightarrow> CmdData list option" where
  "table_add i d [] = None"
| "table_add i d (e # es) =
     (if cd_id e = 0 then Some (\<lparr>cd_id = i, cd_data = d\<rparr> # es)
      else if cd_id e = i then Some (e\<lparr>cd_data := d\<rparr> # es)
      else map_option (Cons e) (table_add i d es))"

text \<open>The search loop of \<open>do_get_data\<close>.\<close>

fun table_find :: "u32 \<Rightarrow> CmdData list \<Rightarrow> u32 option" where
  "table_find i [] = None"
| "table_find i (e # es) =
     (if cd_id e = 0 then None else if cd_id e = i then Some (cd_data e) else table_find i es)"

definition used :: "CmdData list \<Rightarrow> CmdData list" where
  "used tb = takeWhile (\<lambda>e. cd_id e \<noteq> 0) tb"

text \<open>The used entries have distinct ids and everything after them is zero.\<close>

definition table_ok :: "CmdData list \<Rightarrow> bool" where
  "table_ok tb \<longleftrightarrow> distinct (map cd_id (used tb)) \<and>
     (\<forall>e \<in> set (dropWhile (\<lambda>e. cd_id e \<noteq> 0) tb). e = zero_entry)"

section \<open>The operations of do\_data.c\<close>

text \<open>
  \<open>do_add_cmd_msg\<close>: return code and tables after the call; \<open>None\<close> stands for the out of
  bounds read in \<open>prot_msg_to_cmd\<close>. \<open>do_add_cmd\<close> decodes four bytes first.
\<close>

definition do_add_cmd_msg :: "CmdMsgStru \<Rightarrow> cmd_db \<Rightarrow> (int \<times> cmd_db) option" where
  "do_add_cmd_msg m db =
     (case get_table_name db (key m) of
        None \<Rightarrow> Some (-1, db)
      | Some t \<Rightarrow>
          let cmd_id = get_cmd_id m in
          if sint cmd_id < 0 then Some (-1, db)
          else
            (case prot_msg_to_cmd m of
               None \<Rightarrow> None
             | Some c \<Rightarrow>
                 (case table_add cmd_id (le_word c) (gt_table (db ! t)) of
                    None \<Rightarrow> Some (-1, db)
                  | Some tb \<Rightarrow> Some (0, db[t := (db ! t)\<lparr>gt_table := tb\<rparr>]))))"

definition do_add_cmd :: "cmd4 \<Rightarrow> cmd_db \<Rightarrow> (int \<times> cmd_db) option" where
  "do_add_cmd pCmd db =
     (case prot_cmd_to_msg pCmd zero_msg of
        (r, m) \<Rightarrow> if r < 0 then Some (-1, db) else do_add_cmd_msg m db)"

text \<open>\<open>do_set_cmd_entry\<close> with its two kinds of argument; the code of the callee is dropped.\<close>

datatype set_entry = SET_ENTRY_CMD cmd4 | SET_ENTRY_MSG CmdMsgStru

definition do_set_cmd_entry :: "set_entry \<Rightarrow> cmd_db \<Rightarrow> cmd_db option" where
  "do_set_cmd_entry e db =
     map_option snd
       (case e of SET_ENTRY_CMD c \<Rightarrow> do_add_cmd c db | SET_ENTRY_MSG m \<Rightarrow> do_add_cmd_msg m db)"

text \<open>\<open>do_get_data\<close>: the 32 bits of the returned \<open>int\<close>, -1 on every failure.\<close>

definition do_get_data :: "cmd_db \<Rightarrow> u32 \<Rightarrow> u32 \<Rightarrow> u32" where
  "do_get_data db k t =
     (if get_cmd_index k t = CMD_DATA_INDEX_INVALID then -1
      else
        let cmd_id = get_cmd_id (zero_msg\<lparr>key := k, mtype := t\<rparr>)
        in case get_table_name db k of
             None \<Rightarrow> -1
           | Some i \<Rightarrow> (case table_find cmd_id (gt_table (db ! i)) of Some d \<Rightarrow> d | None \<Rightarrow> -1))"

text \<open>
  \<open>do_transfer_data\<close>: the call made to the registered \<open>SendData2DSP_Handle\<close>, if any. The
  flag words are \<open>TRANS_DSP_MASK\<close> and its relatives.
\<close>

definition do_transfer_data :: "bool \<Rightarrow> u32 \<Rightarrow> CmdMsgStru \<Rightarrow> cmd4 list option" where
  "do_transfer_data dsp_handle_set who m =
     (case prot_msg_to_cmd m of
        None \<Rightarrow> None
      | Some c \<Rightarrow> Some (if who AND 0x0001 \<noteq> 0 \<and> dsp_handle_set then [c] else []))"

section \<open>A table refines a finite map\<close>

locale id_store =
  fixes add :: "'i \<Rightarrow> 'd \<Rightarrow> 't \<Rightarrow> 't option"
    and find :: "'i \<Rightarrow> 't \<Rightarrow> 'd option"
    and ok :: "'t \<Rightarrow> bool"
    and valid :: "'i \<Rightarrow> bool"
  assumes add_ok: "\<lbrakk>ok t; valid i; add i d t = Some t'\<rbrakk> \<Longrightarrow> ok t'"
    and find_add: "\<lbrakk>ok t; valid i; add i d t = Some t'\<rbrakk> \<Longrightarrow> find j t' = (if j = i then Some d else find j t)"
    and add_present: "\<lbrakk>ok t; find i t = Some d'\<rbrakk> \<Longrightarrow> \<exists>t'. add i d t = Some t'"
begin

fun add_all :: "('i \<times> 'd) list \<Rightarrow> 't \<Rightarrow> 't option" where
  "add_all [] t = Some t"
| "add_all ((i, d) # ps) t = (case add i d t of None \<Rightarrow> None | Some t' \<Rightarrow> add_all ps t')"

lemma add_all_ok:
  "\<lbrakk>ok t; list_all (valid \<circ> fst) ps; add_all ps t = Some t'\<rbrakk> \<Longrightarrow> ok t'"
proof (induction ps arbitrary: t)
  case (Cons p ps)
  then show ?case by (cases p) (auto split: option.splits intro: add_ok)
qed simp

text \<open>After a run of writes a lookup returns the last one of its key, as in a finite map.\<close>

lemma find_add_all:
  "\<lbrakk>ok t; list_all (valid \<circ> fst) ps; add_all ps t = Some t'\<rbrakk> \<Longrightarrow>
     find j t' = (case map_of (rev ps) j of Some d \<Rightarrow> Some d | None \<Rightarrow> find j t)"
proof (induction ps arbitrary: t)
  case Nil
  then show ?case by simp
next
  case (Cons p ps)
  obtain i d where p: "p = (i, d)" by (cases p)
  with Cons.prems obtain t1 where t1: "add i d t = Some t1" "add_all ps t1 = Some t'" "valid i"
    by (auto split: option.splits)
  with Cons.prems Cons.IH [of t1] p show ?case
    by (auto simp: add_ok find_add map_add_def split: option.splits)
qed

lemma add_twice:
  assumes "ok t" "valid i" "add i d t = Some t1"
  shows "\<exists>t2. add i d' t1 = Some t2 \<and> find i t2 = Some d'"
proof -
  from assms have "ok t1" "find i t1 = Some d" by (simp_all add: add_ok find_add)
  then show ?thesis using add_present assms(2) find_add by fastforce
qed

end

lemma used_simps [simp]:
  "used [] = []" "used (e # es) = (if cd_id e \<noteq> 0 then e # used es else [])"
  by (simp_all add: used_def)

lemma used_id: "e \<in> set (used tb) \<Longrightarrow> cd_id e \<noteq> 0"
  unfolding used_def by (rule set_takeWhileD [THEN conjunct2])

lemma table_ok_Nil [simp]: "table_ok []"
  by (simp add: table_ok_def)

lemma table_ok_Cons:
  "table_ok (e # es) \<longleftrightarrow>
     (if cd_id e = 0 then e = zero_entry \<and> (\<forall>x \<in> set es. x = zero_entry)
      else cd_id e \<notin> cd_id ` set (used es) \<and> table_ok es)"
  by (auto simp: table_ok_def used_def)

lemma table_ok_zeros [simp]: "table_ok (replicate n zero_entry)"
  by (cases n) (simp_all add: table_ok_Cons zero_entry_def)

lemma used_zeros [simp]: "used (replicate n zero_entry) = []"
  by (cases n) (simp_all add: zero_entry_def)

lemma used_append_zeros:
  "\<forall>e \<in> set us. cd_id e \<noteq> 0 \<Longrightarrow> used (us @ replicate n zero_entry) = us"
  by (induction us) simp_all

text \<open>A table in order is its used prefix followed by zero entries.\<close>

lemma table_ok_split:
  "table_ok tb \<Longrightarrow> tb = used tb @ replicate (length tb - length (used tb)) zero_entry"
proof (induction tb)
  case (Cons e es)
  then show ?case
    by (auto simp: table_ok_Cons intro: replicate_eqI split: if_splits)
qed simp

lemma table_add_length: "table_add i d tb = Some tb' \<Longrightarrow> length tb' = length tb"
  by (induction tb arbitrary: tb') (auto split: if_splits)

lemma table_add_used_set:
  "\<lbrakk>table_add i d tb = Some tb'; i \<noteq> 0; table_ok tb\<rbrakk> \<Longrightarrow>
     set (used tb') \<subseteq> insert \<lparr>cd_id = i, cd_data = d\<rparr> (set (used tb))"
proof (induction tb arbitrary: tb')
  case (Cons e es)
  show ?case
  proof (cases "cd_id e = 0")
    case True
    with Cons.prems have "\<forall>x \<in> set es. cd_id x = 0" by (auto simp: table_ok_Cons zero_entry_def)
    with True Cons.prems show ?thesis by (cases es) auto
  next
    case False
    with Cons show ?thesis by (auto simp: table_ok_Cons split: if_splits)
  qed
qed simp

lemma table_add_ids:
  "\<lbrakk>table_add i d tb = Some tb'; i \<noteq> 0; table_ok tb\<rbrakk> \<Longrightarrow>
     cd_id ` set (used tb') = insert i (cd_id ` set (used tb))"
proof (induction tb arbitrary: tb')
  case (Cons e es)
  show ?case
  proof (cases "cd_id e = 0")
    case True
    with Cons.prems have "\<forall>x \<in> set es. cd_id x = 0" by (auto simp: table_ok_Cons zero_entry_def)
    with True Cons.prems show ?thesis by (cases es) auto
  next
    case False
    with Cons show ?thesis
      by (auto simp: table_ok_Cons split: if_splits) (metis image_eqI insert_iff)
  qed
qed simp

lemma table_add_ok: "\<lbrakk>table_ok tb; i \<noteq> 0; table_add i d tb = Some tb'\<rbrakk> \<Longrightarrow> table_ok tb'"
proof (induction tb arbitrary: tb')
  case (Cons e es)
  show ?case
  proof (cases "cd_id e = 0")
    case True
    then have "\<forall>x \<in> set es. x = zero_entry" using Cons.prems(1) by (simp add: table_ok_Cons)
    then have "table_ok es" "used es = []"
      by (cases es; simp add: table_ok_Cons zero_entry_def)+
    with True Cons.prems show ?thesis by (auto simp: table_ok_Cons)
  next
    case False
    with Cons show ?thesis
      by (auto simp: table_ok_Cons table_add_ids split: if_splits)
  qed
qed simp

lemma table_find_add:
  "\<lbrakk>table_ok tb; i \<noteq> 0; table_add i d tb = Some tb'\<rbrakk> \<Longrightarrow>
     table_find j tb' = (if j = i then Some d else table_find j tb)"
proof (induction tb arbitrary: tb')
  case (Cons e es)
  show ?case
  proof (cases "cd_id e = 0")
    case True
    then have "\<forall>x \<in> set es. x = zero_entry" using Cons.prems(1) by (simp add: table_ok_Cons)
    then have "table_find j es = None" by (cases es) (simp_all add: zero_entry_def)
    with True Cons.prems show ?thesis by auto
  next
    case False
    with Cons show ?thesis by (auto simp: table_ok_Cons split: if_splits)
  qed
qed simp

lemma table_add_present: "table_find i tb = Some d' \<Longrightarrow> \<exists>tb'. table_add i d tb = Some tb'"
  by (induction tb) (auto split: if_splits)

interpretation table: id_store table_add table_find table_ok "\<lambda>i. i \<noteq> 0"
  by unfold_locales (auto simp: table_add_ok table_find_add intro: table_add_present)

text \<open>A write fails exactly when the table is full and the id is new.\<close>

lemma table_add_None_iff:
  "table_add i d tb = None \<longleftrightarrow> table_find i tb = None \<and> (\<forall>e \<in> set tb. cd_id e \<noteq> 0)"
  by (induction tb) auto

lemma table_find_used: "table_find i tb = map_of (map (\<lambda>e. (cd_id e, cd_data e)) (used tb)) i"
  by (induction tb) auto

text \<open>Writing the used entries of a table into an empty table of its size rebuilds it.\<close>

lemma table_rebuild_aux:
  "\<lbrakk>distinct (map cd_id (us @ vs)); \<forall>e \<in> set (us @ vs). cd_id e \<noteq> 0; length vs \<le> n\<rbrakk> \<Longrightarrow>
     table.add_all (map (\<lambda>e. (cd_id e, cd_data e)) vs) (us @ replicate n zero_entry)
       = Some (us @ vs @ replicate (n - length vs) zero_entry)"
proof (induction vs arbitrary: us n)
  case (Cons v vs)
  then obtain n' where n: "n = Suc n'" by (cases n) auto
  have "table_add (cd_id v) (cd_data v) (us @ zero_entry # replicate n' zero_entry)
      = Some (us @ v # replicate n' zero_entry)"
    using Cons.prems(1,2) by (induction us) (auto simp: zero_entry_def)
  moreover have "table.add_all (map (\<lambda>e. (cd_id e, cd_data e)) vs) ((us @ [v]) @ replicate n' zero_entry)
      = Some ((us @ [v]) @ vs @ replicate (n' - length vs) zero_entry)"
    using Cons.prems n by (intro Cons.IH) auto
  ultimately show ?case by (simp add: n)
qed simp

lemma table_rebuild:
  assumes "table_ok tb"
  shows "table.add_all (map (\<lambda>e. (cd_id e, cd_data e)) (used tb)) (replicate (length tb) zero_entry)
    = Some tb"
proof -
  have "length (used tb) \<le> length tb" by (simp add: used_def length_takeWhile_le)
  then show ?thesis
    using table_rebuild_aux [of "[]" "used tb" "length tb"] assms table_ok_split [OF assms]
    by (simp add: table_ok_def used_id)
qed

section \<open>Ids\<close>

lemma get_cmd_index_valid:
  "get_cmd_index k t \<noteq> CMD_DATA_INDEX_INVALID \<longleftrightarrow>
     (\<exists>ds ix s. get_cmd_desc_s k = Some ds \<and> map_of ds t = Some (ix, s) \<and> ix \<le> 2 \<and>
        get_cmd_index k t = ix)"
  by (auto simp: get_cmd_index_def c_consts Let_def not_less split: option.splits)

text \<open>Groups 9, 10, 12, 13 and 14 have no descriptors, so none of their commands has an id.\<close>

lemma get_cmd_desc_s_Some:
  "get_cmd_desc_s k = Some ds \<Longrightarrow> k \<in> {1, 2, 3, 4, 5, 6, 7, 8, 11, 15}"
  by (auto simp: get_cmd_desc_s_def c_consts split: if_splits)

lemma get_cmd_desc_s_types:
  assumes "get_cmd_desc_s k = Some ds"
  shows "\<forall>(t, ix, s) \<in> set ds. 1 \<le> unat t \<and> unat t \<le> 24"
  using assms by (auto simp: get_cmd_desc_s_def desc_tables split: if_splits)

lemma get_cmd_index_key:
  assumes "get_cmd_index k t \<noteq> CMD_DATA_INDEX_INVALID"
  shows "k \<in> {1, 2, 3, 4, 5, 6, 7, 8, 11, 15}" "1 \<le> unat t" "unat t \<le> 24"
    "get_cmd_index k t \<in> {0, 1, 2}"
proof -
  from assms obtain ds ix s where *: "get_cmd_desc_s k = Some ds" "map_of ds t = Some (ix, s)"
    "ix \<le> 2" "get_cmd_index k t = ix"
    unfolding get_cmd_index_valid by blast
  show "k \<in> {1, 2, 3, 4, 5, 6, 7, 8, 11, 15}"
    using *(1) by (rule get_cmd_desc_s_Some)
  show "1 \<le> unat t" "unat t \<le> 24"
    using get_cmd_desc_s_types [OF *(1)] map_of_SomeD [OF *(2)] by auto
  have "unat ix \<le> 2" using *(3) by (simp add: word_le_nat_alt)
  then consider "unat ix = 0" | "unat ix = 1" | "unat ix = 2" by linarith
  then show "get_cmd_index k t \<in> {0, 1, 2}"
    unfolding *(4) by cases (simp_all add: word_unat_eq_iff)
qed

lemma or_disjoint_add:
  fixes a b :: u32
  assumes "unat a < 2 ^ n" "n \<le> 32" "unat (push_bit n b) + unat a < 2 ^ 32"
  shows "unat (push_bit n b OR a) = unat (push_bit n b) + unat a"
proof -
  have "push_bit n b AND a = 0"
  proof (rule bit_word_eqI)
    fix m
    have "take_bit n a = a" using assms by (simp add: word_unat_eq_iff unsigned_take_bit_eq take_bit_nat_eq_self_iff)
    then have "bit a m \<Longrightarrow> m < n" by (metis bit_take_bit_iff)
    then show "bit (push_bit n b AND a) m = bit (0 :: u32) m" by (auto simp: bit_simps)
  qed
  then have "push_bit n b OR a = push_bit n b + a"
    by (simp add: disjunctive_add_eq_or [symmetric])
  then show ?thesis using assms(3) by (simp add: unat_add_small)
qed

lemma unat_push_bit_u32: "unat (b :: u32) * 2 ^ n < 2 ^ 32 \<Longrightarrow> unat (push_bit n b) = unat b * 2 ^ n"
  by (simp only: unsigned_push_bit_eq)
    (simp add: push_bit_eq_mult take_bit_nat_eq_self_iff)

text \<open>The id as a number in mixed radix.\<close>

lemma get_cmd_id_unat:
  assumes "msg_in_range m" "get_cmd_index (key m) (mtype m) \<noteq> CMD_DATA_INDEX_INVALID"
  shows "unat (get_cmd_id m) = 262144 * unat (key m) + 8192 * unat (mtype m)
    + (if get_cmd_index (key m) (mtype m) = 0 then 0 else 256 * unat (param1 m))
    + (if get_cmd_index (key m) (mtype m) = 2 then unat (param2 m) else 0)"
proof -
  from assms have r: "unat (key m) < 16" "unat (mtype m) < 32" "unat (param1 m) < 32"
    "unat (param2 m) < 256" by (auto simp: msg_in_range_def)
  let ?t = "push_bit 13 (mtype m)" and ?k = "push_bit 18 (key m)" and ?p = "push_bit 8 (param1 m)"
  have u: "unat ?t = 8192 * unat (mtype m)" "unat ?k = 262144 * unat (key m)"
    "unat ?p = 256 * unat (param1 m)"
    using r by (simp_all add: unat_push_bit_u32)
  have p2: "unat (?p OR param2 m) = 256 * unat (param1 m) + unat (param2 m)"
    using or_disjoint_add [of "param2 m" 8 "param1 m"] r u by simp
  have t: "unat (?t OR x) = 8192 * unat (mtype m) + unat x" if "unat x < 8192" for x
    using or_disjoint_add [of x 13 "mtype m"] r u that by simp
  have k: "unat (?k OR x) = 262144 * unat (key m) + unat x" if "unat x < 262144" for x
    using or_disjoint_add [of x 18 "key m"] r u that by simp
  have ix: "get_cmd_index (key m) (mtype m) \<in> {0, 1, 2}"
    using get_cmd_index_key [OF assms(2)] by simp
  have "unat (?k OR (?t OR (?p OR param2 m))) =
      262144 * unat (key m) + 8192 * unat (mtype m) + 256 * unat (param1 m) + unat (param2 m)"
    "unat (?k OR (?t OR ?p)) = 262144 * unat (key m) + 8192 * unat (mtype m) + 256 * unat (param1 m)"
    "unat (?k OR ?t) = 262144 * unat (key m) + 8192 * unat (mtype m)"
    using r by (simp_all add: k t p2 u)
  then show ?thesis
    using ix assms(2) by (auto simp: get_cmd_id_def Let_def or.assoc c_consts)
qed

lemma get_cmd_id_bounds:
  assumes "msg_in_range m" "get_cmd_index (key m) (mtype m) \<noteq> CMD_DATA_INDEX_INVALID"
  shows "0 < unat (get_cmd_id m)" "unat (get_cmd_id m) < 4194304"
  using assms(1) get_cmd_index_key(2) [OF assms(2)] unfolding get_cmd_id_unat [OF assms]
  by (auto simp: msg_in_range_def)

lemma sint_small: "unat (w :: u32) < 2 ^ 31 \<Longrightarrow> \<not> sint w < 0"
  by (simp add: sint_eq_unat)

lemma get_cmd_id_invalid:
  "get_cmd_index (key m) (mtype m) = CMD_DATA_INDEX_INVALID \<Longrightarrow> get_cmd_id m = -1"
  by (simp add: get_cmd_id_def)

lemma get_cmd_id_nonneg:
  assumes "msg_in_range m"
  shows "sint (get_cmd_id m) < 0 \<longleftrightarrow> get_cmd_index (key m) (mtype m) = CMD_DATA_INDEX_INVALID"
  using sint_small [of "get_cmd_id m"] get_cmd_id_bounds [OF assms] get_cmd_id_invalid [of m]
  by fastforce

lemma mixed_radix:
  fixes a a' b b' m :: nat
  assumes "m * a + b = m * a' + b'" "b < m" "b' < m"
  shows "a = a' \<and> b = b'"
  using div_mod_pair [OF assms(2), of a "m * a + b"] div_mod_pair [OF assms(3), of a' "m * a + b"]
    assms(1) by auto

text \<open>
  Two messages address the same parameter: same group, same index and, as far as the descriptor
  makes them part of the address, the same first and second parameter.
\<close>

definition same_param :: "CmdMsgStru \<Rightarrow> CmdMsgStru \<Rightarrow> bool" where
  "same_param m m' \<longleftrightarrow> key m = key m' \<and> mtype m = mtype m' \<and>
     (get_cmd_index (key m) (mtype m) \<noteq> 0 \<longrightarrow> param1 m = param1 m') \<and>
     (get_cmd_index (key m) (mtype m) = 2 \<longrightarrow> param2 m = param2 m')"

lemma get_cmd_id_inject:
  assumes "msg_in_range m" "get_cmd_index (key m) (mtype m) \<noteq> CMD_DATA_INDEX_INVALID"
    and "msg_in_range m'" "get_cmd_index (key m') (mtype m') \<noteq> CMD_DATA_INDEX_INVALID"
    and eq: "get_cmd_id m = get_cmd_id m'"
  shows "same_param m m'"
proof -
  define lo where "lo x = (if get_cmd_index (key x) (mtype x) = 0 then 0 else 256 * unat (param1 x))
    + (if get_cmd_index (key x) (mtype x) = 2 then unat (param2 x) else 0)" for x :: CmdMsgStru
  have id: "unat (get_cmd_id x) = 8192 * (32 * unat (key x) + unat (mtype x)) + lo x"
    if "msg_in_range x" "get_cmd_index (key x) (mtype x) \<noteq> CMD_DATA_INDEX_INVALID" for x
    using get_cmd_id_unat [OF that] by (simp add: lo_def)
  have lt: "lo x < 8192" "unat (mtype x) < 32" "unat (param2 x) < 256" if "msg_in_range x" for x
    using that by (simp_all add: lo_def msg_in_range_def)
  note m = id [OF assms(1,2)] lt [OF assms(1)] and m' = id [OF assms(3,4)] lt [OF assms(3)]
  have h: "32 * unat (key m) + unat (mtype m) = 32 * unat (key m') + unat (mtype m')" "lo m = lo m'"
    using mixed_radix [OF _ m(2) m'(2), of "32 * unat (key m) + unat (mtype m)"
        "32 * unat (key m') + unat (mtype m')"] eq m(1) m'(1) by simp_all
  then have k: "key m = key m'" "mtype m = mtype m'"
    using mixed_radix [OF h(1) m(3) m'(3)] by (simp_all add: word_unat_eq_iff)
  have "256 * unat (param1 m) + unat (param2 m) = 256 * unat (param1 m') + unat (param2 m')"
    if "get_cmd_index (key m) (mtype m) = 2"
    using h(2) that k by (simp add: lo_def)
  note p2 = mixed_radix [OF this m(4) m'(4)]
  show ?thesis
  proof (cases "get_cmd_index (key m) (mtype m) = 2")
    case True
    from p2 [OF True] k True show ?thesis by (simp add: same_param_def word_unat_eq_iff [of "param1 m"] word_unat_eq_iff [of "param2 m"])
  next
    case False
    with h(2) k show ?thesis
      by (simp add: same_param_def lo_def word_unat_eq_iff [of "param1 m"] split: if_splits)
  qed
qed

lemma get_cmd_id_same: "same_param m m' \<Longrightarrow> get_cmd_id m = get_cmd_id m'"
  by (auto simp: same_param_def get_cmd_id_def Let_def c_consts)

section \<open>Rows of the group table\<close>

lemma last_row_none: "k \<notin> gt_key ` set gs \<Longrightarrow> last_row k gs i p = p"
  by (induction gs arbitrary: i p) auto

lemma last_row_distinct:
  "distinct (map gt_key gs) \<Longrightarrow> j < length gs \<Longrightarrow> last_row (gt_key (gs ! j)) gs i p = Some (i + j)"
proof (induction gs arbitrary: i j p)
  case (Cons g gs)
  show ?case
  proof (cases j)
    case 0
    with Cons.prems show ?thesis by (simp add: last_row_none)
  next
    case (Suc j')
    with Cons show ?thesis by simp
  qed
qed simp

text \<open>The entry holds a command of the group of its table, stored under that command's id.\<close>

definition entry_ok :: "u32 \<Rightarrow> CmdData \<Rightarrow> bool" where
  "entry_ok k e \<longleftrightarrow>
     (case decode_cmd (le_bytes (cd_data e)) of
        None \<Rightarrow> False
      | Some m \<Rightarrow> key m = k \<and> cd_id e = get_cmd_id m \<and>
          get_cmd_index (key m) (mtype m) \<noteq> CMD_DATA_INDEX_INVALID)"

definition db_ok :: "cmd_db \<Rightarrow> bool" where
  "db_ok db \<longleftrightarrow> map (\<lambda>g. (gt_key g, length (gt_table g))) db = group_sizes \<and>
     (\<forall>g \<in> set db. table_ok (gt_table g) \<and> (\<forall>e \<in> set (used (gt_table g)). entry_ok (gt_key g) e))"

lemma group_sizes_keys: "map fst group_sizes = [1, 2, 3, 4, 5, 6, 7, 8, 11, 13, 14, 15]"
  by (simp add: group_sizes_def)

lemma db_keys:
  assumes "map (\<lambda>g. (gt_key g, length (gt_table g))) db = group_sizes"
  shows "map gt_key db = [1, 2, 3, 4, 5, 6, 7, 8, 11, 13, 14, 15]" "length db = 12"
proof -
  have "map gt_key db = map fst (map (\<lambda>g. (gt_key g, length (gt_table g))) db)" by simp
  then show *: "map gt_key db = [1, 2, 3, 4, 5, 6, 7, 8, 11, 13, 14, 15]"
    unfolding assms group_sizes_keys .
  show "length db = 12" using arg_cong [OF *, of length] by simp
qed

lemma get_table_name_key:
  assumes "map gt_key db = [1, 2, 3, 4, 5, 6, 7, 8, 11, 13, 14, 15]"
  shows "get_table_name db k = Some i \<longleftrightarrow> i < length db \<and> gt_key (db ! i) = k"
proof
  assume i: "i < length db \<and> gt_key (db ! i) = k"
  have "distinct (map gt_key db)" by (simp add: assms)
  from last_row_distinct [OF this, of i 0] i have "last_row k db 0 None = Some i" by auto
  moreover have "k \<in> set (map gt_key db)" using i by auto
  ultimately show "get_table_name db k = Some i"
    unfolding assms by (auto simp: get_table_name_def c_consts)
next
  assume s: "get_table_name db k = Some i"
  then have l: "last_row k db 0 None = Some i" by (simp add: get_table_name_def split: if_splits)
  then have "k \<in> gt_key ` set db" using last_row_none [of k db 0 None] by auto
  then obtain j where j: "j < length db" "gt_key (db ! j) = k" by (auto simp: in_set_conv_nth)
  have "distinct (map gt_key db)" by (simp add: assms)
  from last_row_distinct [OF this j(1), of 0 None] j l show "i < length db \<and> gt_key (db ! i) = k"
    by simp
qed

lemma get_table_name_ex:
  assumes "map gt_key db = [1, 2, 3, 4, 5, 6, 7, 8, 11, 13, 14, 15]"
    and "get_cmd_index k t \<noteq> CMD_DATA_INDEX_INVALID"
  obtains i where "get_table_name db k = Some i" "i < length db" "gt_key (db ! i) = k"
proof -
  have "k \<in> set (map gt_key db)" unfolding assms(1) using get_cmd_index_key(1) [OF assms(2)] by auto
  then obtain i where "i < length db" "gt_key (db ! i) = k" by (auto simp: in_set_conv_nth)
  then show ?thesis using that get_table_name_key [OF assms(1), of k i] by blast
qed

lemma db_ok_keys: "db_ok db \<Longrightarrow> map gt_key db = [1, 2, 3, 4, 5, 6, 7, 8, 11, 13, 14, 15]"
  unfolding db_ok_def by (elim conjE) (rule db_keys(1))

lemma db_ok_nth:
  assumes "db_ok db" "i < length db"
  shows "table_ok (gt_table (db ! i))"
    "\<forall>e \<in> set (used (gt_table (db ! i))). entry_ok (gt_key (db ! i)) e"
  using assms nth_mem [OF assms(2)] unfolding db_ok_def by blast+

lemma db_ok_init: "db_ok group_table_init"
  by (auto simp: db_ok_def group_table_init_def group_sizes_def)

section \<open>Adding a command\<close>

lemma do_add_cmd_eq:
  "do_add_cmd c db =
     (case decode_cmd c of None \<Rightarrow> Some (-1, db) | Some m \<Rightarrow> do_add_cmd_msg m db)"
  by (simp add: do_add_cmd_def decode_cmd_def split: prod.splits)

lemma do_add_cmd_msg_invalid:
  assumes "get_cmd_index (key m) (mtype m) = CMD_DATA_INDEX_INVALID"
  shows "do_add_cmd_msg m db = Some (-1, db)"
  using get_cmd_id_invalid [OF assms] by (simp add: do_add_cmd_msg_def split: option.splits)

lemma do_add_cmd_msg_valid:
  assumes "db_ok db" "msg_in_range m" "prot_msg_to_cmd m = Some c"
    and "get_cmd_index (key m) (mtype m) \<noteq> CMD_DATA_INDEX_INVALID"
  obtains i where "get_table_name db (key m) = Some i" "i < length db" "gt_key (db ! i) = key m"
    and "do_add_cmd_msg m db =
      (case table_add (get_cmd_id m) (le_word c) (gt_table (db ! i)) of
         None \<Rightarrow> Some (-1, db)
       | Some tb \<Rightarrow> Some (0, db[i := (db ! i)\<lparr>gt_table := tb\<rparr>]))"
proof -
  have keys: "map gt_key db = [1, 2, 3, 4, 5, 6, 7, 8, 11, 13, 14, 15]"
    by (rule db_ok_keys [OF assms(1)])
  from get_table_name_ex [OF keys assms(4)] obtain i where
    "get_table_name db (key m) = Some i" "i < length db" "gt_key (db ! i) = key m" by metis
  with that get_cmd_id_nonneg [OF assms(2)] assms(3,4) show ?thesis
    by (simp add: do_add_cmd_msg_def Let_def)
qed

lemma db_ok_update:
  assumes "db_ok db" "i < length db" "table_ok tb" "length tb = length (gt_table (db ! i))"
    and "\<forall>e \<in> set (used tb). entry_ok (gt_key (db ! i)) e"
  shows "db_ok (db[i := (db ! i)\<lparr>gt_table := tb\<rparr>])"
proof -
  have "map (\<lambda>g. (gt_key g, length (gt_table g))) (db[i := (db ! i)\<lparr>gt_table := tb\<rparr>])
      = map (\<lambda>g. (gt_key g, length (gt_table g))) db"
    using assms(2,4) by (auto simp: list_eq_iff_nth_eq nth_list_update)
  then show ?thesis
    using assms set_update_subset_insert [of db i "(db ! i)\<lparr>gt_table := tb\<rparr>"]
    by (auto simp: db_ok_def)
qed

lemma do_add_cmd_cases:
  assumes "db_ok db"
  shows "\<exists>r db'. do_add_cmd c db = Some (r, db') \<and> db_ok db' \<and> (r = 0 \<or> r = -1 \<and> db' = db)"
proof (cases "decode_cmd c")
  case None
  with assms show ?thesis by (simp add: do_add_cmd_eq)
next
  case (Some m)
  note rng = decode_cmd_in_range [OF Some]
  show ?thesis
  proof (cases "get_cmd_index (key m) (mtype m) = CMD_DATA_INDEX_INVALID")
    case True
    with assms Some show ?thesis by (simp add: do_add_cmd_eq do_add_cmd_msg_invalid)
  next
    case False
    obtain i where i: "i < length db" "gt_key (db ! i) = key m" "do_add_cmd_msg m db =
      (case table_add (get_cmd_id m) (le_word c) (gt_table (db ! i)) of
         None \<Rightarrow> Some (-1, db)
       | Some tb \<Rightarrow> Some (0, db[i := (db ! i)\<lparr>gt_table := tb\<rparr>]))"
      using do_add_cmd_msg_valid [OF assms rng encode_decode [OF Some] False] .
    have nz: "get_cmd_id m \<noteq> 0" using get_cmd_id_bounds(1) [OF rng False] by auto
    have t: "table_ok (gt_table (db ! i))" "\<forall>e \<in> set (used (gt_table (db ! i))). entry_ok (key m) e"
      using db_ok_nth [OF assms i(1)] i(2) by simp_all
    have e: "entry_ok (key m) \<lparr>cd_id = get_cmd_id m, cd_data = le_word c\<rparr>"
      using Some False by (simp add: entry_ok_def)
    show ?thesis
    proof (cases "table_add (get_cmd_id m) (le_word c) (gt_table (db ! i))")
      case None
      with assms i Some show ?thesis by (simp add: do_add_cmd_eq)
    next
      case tb: (Some tb)
      have "db_ok (db[i := (db ! i)\<lparr>gt_table := tb\<rparr>])"
        using table_add_used_set [OF tb nz t(1)] t(2) e table_add_length [OF tb]
          table_add_ok [OF t(1) nz tb] i(1,2)
        by (intro db_ok_update [OF assms]) auto
      with i Some tb show ?thesis by (simp add: do_add_cmd_eq)
    qed
  qed
qed

text \<open>The parameter a message addresses, looked up in the tables.\<close>

definition db_lookup :: "cmd_db \<Rightarrow> CmdMsgStru \<Rightarrow> u32 option" where
  "db_lookup db m =
     (case get_table_name db (key m) of
        None \<Rightarrow> None
      | Some i \<Rightarrow> table_find (get_cmd_id m) (gt_table (db ! i)))"

definition addressable :: "CmdMsgStru \<Rightarrow> bool" where
  "addressable m \<longleftrightarrow> msg_in_range m \<and> get_cmd_index (key m) (mtype m) \<noteq> CMD_DATA_INDEX_INVALID"

lemma db_lookup_add:
  assumes "db_ok db" "decode_cmd c = Some m" "do_add_cmd c db = Some (0, db')" "addressable m'"
  shows "db_lookup db' m' = (if same_param m m' then Some (le_word c) else db_lookup db m')"
proof -
  note rng = decode_cmd_in_range [OF assms(2)]
  have v: "get_cmd_index (key m) (mtype m) \<noteq> CMD_DATA_INDEX_INVALID"
    using assms(2,3) do_add_cmd_msg_invalid [of m db] by (auto simp: do_add_cmd_eq)
  obtain i where i: "get_table_name db (key m) = Some i" "i < length db" "gt_key (db ! i) = key m"
    "do_add_cmd_msg m db =
      (case table_add (get_cmd_id m) (le_word c) (gt_table (db ! i)) of
         None \<Rightarrow> Some (-1, db)
       | Some tb \<Rightarrow> Some (0, db[i := (db ! i)\<lparr>gt_table := tb\<rparr>]))"
    using do_add_cmd_msg_valid [OF assms(1) rng encode_decode [OF assms(2)] v] .
  with assms(2,3) obtain tb where tb: "table_add (get_cmd_id m) (le_word c) (gt_table (db ! i)) = Some tb"
    and db': "db' = db[i := (db ! i)\<lparr>gt_table := tb\<rparr>]"
    by (auto simp: do_add_cmd_eq split: option.splits)
  have keys: "map gt_key db = [1, 2, 3, 4, 5, 6, 7, 8, 11, 13, 14, 15]"
    by (rule db_ok_keys [OF assms(1)])
  moreover have "map gt_key db' = map gt_key db"
    using i(2) by (auto simp: db' list_eq_iff_nth_eq nth_list_update)
  ultimately have keys': "map gt_key db' = [1, 2, 3, 4, 5, 6, 7, 8, 11, 13, 14, 15]" by simp
  have v': "get_cmd_index (key m') (mtype m') \<noteq> CMD_DATA_INDEX_INVALID" "msg_in_range m'"
    using assms(4) by (simp_all add: addressable_def)
  obtain j where j: "get_table_name db (key m') = Some j" "j < length db" "gt_key (db ! j) = key m'"
    using get_table_name_ex [OF keys v'(1)] .
  have j': "get_table_name db' (key m') = Some j"
    unfolding get_table_name_key [OF keys'] using j i by (simp add: db' nth_list_update)
  have ok: "table_ok (gt_table (db ! i))" by (rule db_ok_nth [OF assms(1) i(2)])
  have nz: "get_cmd_id m \<noteq> 0" using get_cmd_id_bounds(1) [OF rng v] by auto
  have id: "(get_cmd_id m' = get_cmd_id m) = same_param m m'"
    using get_cmd_id_inject [OF rng v v'(2,1)] get_cmd_id_same [of m m'] by auto
  show ?thesis
  proof (cases "j = i")
    case True
    with i j j' show ?thesis
      by (simp add: db_lookup_def db' table_find_add [OF ok nz tb] id)
  next
    case False
    then have "key m \<noteq> key m'" using i(1) j(1) by auto
    with False j j' show ?thesis by (simp add: db_lookup_def db' same_param_def)
  qed
qed

lemma do_get_data_lookup:
  assumes "get_cmd_index k t \<noteq> CMD_DATA_INDEX_INVALID"
  shows "do_get_data db k t =
    (case db_lookup db (zero_msg\<lparr>key := k, mtype := t\<rparr>) of Some d \<Rightarrow> d | None \<Rightarrow> -1)"
  using assms by (simp add: do_get_data_def db_lookup_def Let_def split: option.splits)

lemma addressable_query:
  assumes "get_cmd_index k t \<noteq> CMD_DATA_INDEX_INVALID"
  shows "addressable (zero_msg\<lparr>key := k, mtype := t\<rparr>)"
  using assms get_cmd_index_key [OF assms] by (auto simp: addressable_def msg_in_range_def zero_msg_def)

section \<open>Descriptions\<close>

fun dec_digits :: "nat \<Rightarrow> string" where
  "dec_digits n =
     (if n < 10 then [char_of (48 + n)] else dec_digits (n div 10) @ [char_of (48 + n mod 10)])"

declare dec_digits.simps [simp del]

text \<open>The conversion \<open>%02d\<close> applied to an unsigned value.\<close>

definition fmt_02d :: "u32 \<Rightarrow> string" where
  "fmt_02d w =
     (if sint w < 0 then CHR ''-'' # dec_digits (nat (- sint w))
      else if sint w < 10 then CHR ''0'' # dec_digits (nat (sint w))
      else dec_digits (nat (sint w)))"

text \<open>\<open>get_cmd_desc\<close>: the string written to \<open>pDesc\<close>, \<open>None\<close> for \<open>NULL\<close>.\<close>

definition get_cmd_desc :: "CmdMsgStru \<Rightarrow> string option" where
  "get_cmd_desc m =
     (case get_cmd_desc_s (key m) of
        None \<Rightarrow> None
      | Some ds \<Rightarrow>
          (case map_of ds (mtype m) of
             None \<Rightarrow> None
           | Some (index, head) \<Rightarrow>
               if CMD_DATA_INDEX_MAX < index then None
               else if index = 0 then Some head
               else if index = 1 then Some (head @ ''_'' @ fmt_02d (param1 m))
               else Some (head @ ''_'' @ fmt_02d (param1 m) @ ''_'' @ fmt_02d (param2 m))))"

lemma dec_digits_length: "n < 10 ^ k \<Longrightarrow> 0 < k \<Longrightarrow> length (dec_digits n) \<le> k"
proof (induction n arbitrary: k rule: dec_digits.induct)
  case (1 n)
  show ?case
  proof (cases "n < 10")
    case True
    with "1.prems" show ?thesis by (simp add: dec_digits.simps)
  next
    case False
    with "1.prems" obtain k' where k: "k = Suc k'" "0 < k'"
      by (cases k; cases "k - 1") auto
    then have "n div 10 < 10 ^ k'" using "1.prems" by (simp add: less_mult_imp_div_less mult.commute)
    with False k "1.IH" show ?thesis by (simp add: dec_digits.simps)
  qed
qed

lemma fmt_02d_length: "length (fmt_02d w) \<le> 11"
proof -
  have "- (2 ^ 31) \<le> sint w" "sint w < 2 ^ 31"
    using sint_greater_eq [of w] sint_less [of w] by simp_all
  then have "nat (sint w) < nat (10 ^ 10)" "nat (- sint w) < nat (10 ^ 10)"
    by (simp_all only: zless_nat_conj) simp_all
  then have "nat (sint w) < 10 ^ 10" "nat (- sint w) < 10 ^ 10" by simp_all
  then have "length (dec_digits (nat (sint w))) \<le> 10" "length (dec_digits (nat (- sint w))) \<le> 10"
    by (simp_all add: dec_digits_length)
  moreover have "length (dec_digits (nat (sint w))) \<le> 1" if "\<not> sint w < 0" "sint w < 10"
    using that by (intro dec_digits_length) simp_all
  ultimately show ?thesis by (simp add: fmt_02d_def)
qed

lemma desc_head_length:
  assumes "get_cmd_desc_s k = Some ds"
  shows "\<forall>(t, ix, s) \<in> set ds. length s \<le> 15"
  using assms by (auto simp: get_cmd_desc_s_def desc_tables split: if_splits)

section \<open>Transfers\<close>

record 'h transfer_handles =
  SendData2DSP_Handle :: "'h option"
  SendData2PC_Handle :: "'h option"
  SendData2OSC_Handle :: "'h option"

definition transfer_fun_register ::
    "u32 \<Rightarrow> 'h option \<Rightarrow> 'h transfer_handles \<Rightarrow> 'h transfer_handles" where
  "transfer_fun_register who h s =
     (if who AND 0x0001 \<noteq> 0 then s\<lparr>SendData2DSP_Handle := h\<rparr>
      else if who AND 0x0010 \<noteq> 0 then s\<lparr>SendData2PC_Handle := h\<rparr>
      else if who AND 0x0100 \<noteq> 0 then s\<lparr>SendData2OSC_Handle := h\<rparr>
      else s)"

text \<open>\<open>transfer_handle_register\<close>: \<open>h\<close> stands for the address of \<open>send_data_to_pc\<close>.\<close>

definition transfer_handle_register :: "'h \<Rightarrow> 'h transfer_handles \<Rightarrow> 'h transfer_handles" where
  "transfer_handle_register h s = transfer_fun_register 0x0010 (Some h) s"

text \<open>\<open>send_data_to_pc\<close>: the successive four byte blocks given to \<open>send\<close>.\<close>

fun send_table_pc :: "CmdData list \<Rightarrow> cmd4 list" where
  "send_table_pc [] = []"
| "send_table_pc (e # es) = (if cd_id e \<noteq> 0 then le_bytes (cd_data e) # send_table_pc es else [])"

definition send_data_to_pc :: "cmd_db \<Rightarrow> cmd4 list" where
  "send_data_to_pc db = concat (map (send_table_pc \<circ> gt_table) db)"

text \<open>\<open>send_data_to_dsp\<close>: each data word byte-swapped and sent as four bytes, then the end mark.\<close>

definition swap_value :: "u32 \<Rightarrow> u32" where
  "swap_value v = (drop_bit 24 v AND 0xff) OR push_bit 8 (drop_bit 16 v AND 0xff)
     OR push_bit 24 (v AND 0xff) OR push_bit 16 (drop_bit 8 v AND 0xff)"

fun send_table_dsp :: "'c spi_port \<Rightarrow> CmdData list \<Rightarrow> 'c \<Rightarrow> 'c" where
  "send_table_dsp p [] c = c"
| "send_table_dsp p (e # es) c =
     (if cd_id e \<noteq> 0
      then send_table_dsp p es (SPI_DSP_SendBytes p (bytes_of (le_bytes (swap_value (cd_data e)))) c)
      else c)"

fun send_tables_dsp :: "'c spi_port \<Rightarrow> cmd_db \<Rightarrow> 'c \<Rightarrow> 'c" where
  "send_tables_dsp p [] c = c"
| "send_tables_dsp p (g # gs) c = send_tables_dsp p gs (send_table_dsp p (gt_table g) c)"

definition send_data_to_dsp :: "'c spi_port \<Rightarrow> cmd_db \<Rightarrow> 'c \<Rightarrow> 'c" where
  "send_data_to_dsp p db c =
     SPI_DSP_SendBytes p (bytes_of (le_bytes 0x34000000)) (send_tables_dsp p db c)"

definition all_used :: "cmd_db \<Rightarrow> CmdData list" where
  "all_used db = concat (map (used \<circ> gt_table) db)"

lemma send_table_pc_used: "send_table_pc tb = map (le_bytes \<circ> cd_data) (used tb)"
  by (induction tb) simp_all

lemma send_data_to_pc_used: "send_data_to_pc db = map (le_bytes \<circ> cd_data) (all_used db)"
  by (simp add: send_data_to_pc_def all_used_def map_concat send_table_pc_used comp_def)

lemma swap_value_be: "swap_value v = be_word (le_bytes v)"
proof (rule bit_word_eqI)
  fix n
  assume n: "n < LENGTH(32)"
  have m: "(0xff :: u32) = mask 8" by (simp add: mask_eq_exp_minus_1)
  from n consider "n < 8" | "8 \<le> n" "n < 16" | "16 \<le> n" "n < 24" | "24 \<le> n" "n < 32"
    by fastforce
  then show "bit (swap_value v) n = bit (be_word (le_bytes v)) n"
    unfolding swap_value_def m by cases (auto simp: be_word_def le_bytes_def bit_simps)
qed

lemma send_table_dsp_trace:
  "send_table_dsp (trace_port r) tb t
     = t @ concat (map (\<lambda>e. frame (bytes_of (le_bytes (swap_value (cd_data e))))) (used tb))"
  by (induction tb arbitrary: t) simp_all

lemma send_tables_dsp_trace:
  "send_tables_dsp (trace_port r) db t
     = t @ concat (map (\<lambda>e. frame (bytes_of (le_bytes (swap_value (cd_data e))))) (all_used db))"
  by (induction db arbitrary: t) (simp_all add: send_table_dsp_trace all_used_def)

lemma send_data_to_dsp_trace:
  "send_data_to_dsp (trace_port r) db t = t @ concat (map frame
     (map (\<lambda>e. bytes_of (le_bytes (swap_value (cd_data e)))) (all_used db)
        @ [bytes_of (le_bytes 0x34000000)]))"
  by (simp add: send_data_to_dsp_def send_tables_dsp_trace comp_def)

lemma received_words_dsp:
  "received_words (send_data_to_dsp (trace_port r) db []) =
     map (\<lambda>e. be_word (le_bytes (cd_data e))) (all_used db) @ [0x34000000]"
  unfolding received_words_def send_data_to_dsp_trace append_Nil split_frames_concat
  by (simp add: lsb_first_word_def comp_def swap_value_be)

lemma all_used_entry:
  assumes "db_ok db" "e \<in> set (all_used db)"
  obtains m where "decode_cmd (le_bytes (cd_data e)) = Some m" "cd_id e = get_cmd_id m"
    "addressable m" "db_lookup db m = Some (cd_data e)"
proof -
  from assms(2) obtain g where g: "g \<in> set db" "e \<in> set (used (gt_table g))"
    by (auto simp: all_used_def)
  with assms(1) have e: "entry_ok (gt_key g) e" "table_ok (gt_table g)" by (auto simp: db_ok_def)
  then obtain m where m: "decode_cmd (le_bytes (cd_data e)) = Some m" "key m = gt_key g"
    "cd_id e = get_cmd_id m" "get_cmd_index (key m) (mtype m) \<noteq> CMD_DATA_INDEX_INVALID"
    by (auto simp: entry_ok_def split: option.splits)
  obtain i where i: "i < length db" "db ! i = g" using g(1) by (auto simp: in_set_conv_nth)
  with get_table_name_key [OF db_ok_keys [OF assms(1)], of "key m" i] m(2)
  have "get_table_name db (key m) = Some i" by simp
  moreover have "table_find (cd_id e) (gt_table g) = Some (cd_data e)"
    unfolding table_find_used using g(2) e(2)
    by (intro map_of_is_SomeI) (auto simp: table_ok_def comp_def image_iff)
  ultimately show ?thesis
    using that m i decode_cmd_in_range [OF m(1)] by (simp add: db_lookup_def addressable_def)
qed

section \<open>Properties\<close>

definition table_full :: "cmd_db \<Rightarrow> u32 \<Rightarrow> bool" where
  "table_full db k = list_ex (\<lambda>g. gt_key g = k \<and> length (used (gt_table g)) = length (gt_table g)) db"

lemma used_full: "length (used tb) = length tb \<longleftrightarrow> (\<forall>e \<in> set tb. cd_id e \<noteq> 0)"
proof (induction tb)
  case (Cons e es)
  moreover have "length (used es) \<le> length es" by (simp add: used_def length_takeWhile_le)
  ultimately show ?case by auto
qed simp

lemma table_full_row:
  assumes "db_ok db" "get_table_name db k = Some i"
  shows "table_full db k \<longleftrightarrow> (\<forall>e \<in> set (gt_table (db ! i)). cd_id e \<noteq> 0)"
proof -
  note row = get_table_name_key [OF db_ok_keys [OF assms(1)]]
  have "gt_key g = k \<longleftrightarrow> g = db ! i" if "g \<in> set db" for g
    using that assms(2) row by (metis in_set_conv_nth option.inject)
  moreover have "db ! i \<in> set db" using assms(2) row by simp
  ultimately show ?thesis by (auto simp: table_full_def list_ex_iff used_full)
qed

lemma do_add_cmd_fail:
  assumes "db_ok db" "decode_cmd c = Some m"
  shows "do_add_cmd c db = Some (-1, db) \<longleftrightarrow>
    \<not> addressable m \<or> db_lookup db m = None \<and> table_full db (key m)"
proof (cases "get_cmd_index (key m) (mtype m) = CMD_DATA_INDEX_INVALID")
  case True
  with assms show ?thesis by (simp add: do_add_cmd_eq do_add_cmd_msg_invalid addressable_def)
next
  case False
  note rng = decode_cmd_in_range [OF assms(2)]
  obtain i where i: "get_table_name db (key m) = Some i" "do_add_cmd_msg m db =
      (case table_add (get_cmd_id m) (le_word c) (gt_table (db ! i)) of
         None \<Rightarrow> Some (-1, db)
       | Some tb \<Rightarrow> Some (0, db[i := (db ! i)\<lparr>gt_table := tb\<rparr>]))"
    using do_add_cmd_msg_valid [OF assms(1) rng encode_decode [OF assms(2)] False] .
  with assms(2) have "do_add_cmd c db = Some (-1, db) \<longleftrightarrow>
      table_add (get_cmd_id m) (le_word c) (gt_table (db ! i)) = None"
    by (simp add: do_add_cmd_eq split: option.splits)
  with i False rng show ?thesis
    by (simp add: table_add_None_iff table_full_row [OF assms(1) i(1)] db_lookup_def addressable_def)
qed

lemma lookup_in_all_used:
  assumes "db_lookup db m = Some d" and ok: "db_ok db"
  shows "\<exists>e \<in> set (all_used db). cd_id e = get_cmd_id m \<and> cd_data e = d"
proof -
  from assms(1) obtain i where i: "get_table_name db (key m) = Some i"
    "table_find (get_cmd_id m) (gt_table (db ! i)) = Some d"
    by (auto simp: db_lookup_def split: option.splits)
  then have "db ! i \<in> set db" using get_table_name_key [OF db_ok_keys [OF ok]] by simp
  moreover obtain e where "e \<in> set (used (gt_table (db ! i)))" "cd_id e = get_cmd_id m" "cd_data e = d"
    using map_of_SomeD [OF i(2) [unfolded table_find_used]] by auto
  ultimately show ?thesis by (force simp: all_used_def)
qed

text \<open>
  C4: adding a command refines the update of a finite map. On tables in order, a command that decodes is processed without an out of bounds access and the
  invariant of the tables is kept. The command is refused, with the code -1 and the tables unchanged, exactly when it has no descriptor or its parameter is new
  and the table of its group is full; otherwise the code is 0 and exactly the parameter the command addresses now holds the command.
\<close>

theorem do_add_cmd_refines:
  assumes "db_ok db" "decode_cmd c = Some m"
  defines "refused \<equiv> get_cmd_index (key m) (mtype m) = CMD_DATA_INDEX_INVALID \<or> db_lookup db m = None \<and> table_full db (key m)"
  shows "\<exists>db'. do_add_cmd c db = Some (if refused then -1 else 0, db') \<and> db_ok db' \<and>
    (if refused then db' = db
     else \<forall>m'. addressable m' \<longrightarrow> db_lookup db' m' = (if same_param m m' then Some (le_word c) else db_lookup db m'))"
proof -
  have "do_add_cmd c db = Some (-1, db) \<longleftrightarrow> refused"
    using do_add_cmd_fail [OF assms(1,2)] decode_cmd_in_range [OF assms(2)] by (auto simp: refused_def addressable_def)
  with do_add_cmd_cases [OF assms(1), of c] db_lookup_add [OF assms(1,2)] show ?thesis by auto
qed

theorem do_add_cmd_refines_witness:
  "(\<exists>db'. do_add_cmd (0x05, 0x00, 0x30, 0x00) group_table_init = Some (0, db') \<and> db_ok db' \<and>
     db_lookup db' \<lparr>op = 0, key = 1, mtype = 8, param1 = 0, param2 = 48, param3 = 0\<rparr> = Some (le_word (0x05, 0x00, 0x30, 0x00)))
   \<and> do_add_cmd (0x34, 0x20, 0, 0) group_table_init = Some (-1, group_table_init)"
proof
  let ?m = "\<lparr>op = 0, key = 1, mtype = 8, param1 = 0, param2 = 48, param3 = 0\<rparr> :: CmdMsgStru"
  have a: "addressable ?m" "get_cmd_index 1 8 \<noteq> CMD_DATA_INDEX_INVALID" "\<not> table_full group_table_init 1"
    by (simp_all add: addressable_def msg_in_range_def get_cmd_index_def get_cmd_desc_s_def general_cmd_desc_def c_consts table_full_def
        group_table_init_def group_sizes_def para_size)
  have "decode_cmd (0x05, 0x00, 0x30, 0x00) = Some ?m" by (simp add: decode_cmd_eq)
  from do_add_cmd_refines [OF db_ok_init this] a
  show "\<exists>db'. do_add_cmd (0x05, 0x00, 0x30, 0x00) group_table_init = Some (0, db') \<and> db_ok db' \<and> db_lookup db' ?m = Some (le_word (0x05, 0x00, 0x30, 0x00))"
    by (auto simp: same_param_def)
next
  let ?m = "\<lparr>op = 0, key = 13, mtype = 1, param1 = 0, param2 = 0, param3 = 0\<rparr> :: CmdMsgStru"
  have i: "get_cmd_index 13 1 = CMD_DATA_INDEX_INVALID" by (simp add: get_cmd_index_def get_cmd_desc_s_def c_consts)
  have "decode_cmd (0x34, 0x20, 0, 0) = Some ?m" by (simp add: decode_cmd_eq)
  from do_add_cmd_refines [OF db_ok_init this] i
  show "do_add_cmd (0x34, 0x20, 0, 0) group_table_init = Some (-1, group_table_init)" by auto
qed

text \<open>
  When a command is refused. On tables in order the code -1 is returned, with the tables
  unchanged, exactly when the command has no descriptor (every command of the groups 9, 10, 12,
  13 and 14, and indexes beyond the group's list) or its parameter is new and the table of its
  group is full.
\<close>

theorem do_add_cmd_refused_iff:
  assumes "db_ok db" "decode_cmd c = Some m"
  shows "do_add_cmd c db = Some (-1, db) \<longleftrightarrow>
    get_cmd_index (key m) (mtype m) = CMD_DATA_INDEX_INVALID \<or>
    db_lookup db m = None \<and> table_full db (key m)"
  using do_add_cmd_fail [OF assms] decode_cmd_in_range [OF assms(2)] by (auto simp: addressable_def)

theorem do_add_cmd_refused_iff_witness:
  "do_add_cmd (0x34, 0x20, 0, 0) group_table_init = Some (-1, group_table_init) \<longleftrightarrow>
    get_cmd_index 13 1 = CMD_DATA_INDEX_INVALID \<or>
    db_lookup group_table_init \<lparr>op = 0, key = 13, mtype = 1, param1 = 0, param2 = 0, param3 = 0\<rparr> = None
      \<and> table_full group_table_init 13"
  using do_add_cmd_refused_iff [OF db_ok_init,
      of "(0x34, 0x20, 0, 0)" "\<lparr>op = 0, key = 13, mtype = 1, param1 = 0, param2 = 0, param3 = 0\<rparr>"]
  by (simp add: decode_cmd_eq)

text \<open>
  A value that was just written is read back. A command whose first two parameters are not
  part of the address (or are zero there) and whose table has room is returned by
  \<open>do_get_data\<close> for its group and index.
\<close>

theorem do_get_data_after_add:
  assumes "db_ok db" "decode_cmd c = Some m" "addressable m"
    and "same_param m (zero_msg\<lparr>key := key m, mtype := mtype m\<rparr>)" "\<not> table_full db (key m)"
  shows "\<exists>db'. do_add_cmd c db = Some (0, db') \<and> do_get_data db' (key m) (mtype m) = le_word c"
proof -
  have "do_add_cmd c db \<noteq> Some (-1, db)" using do_add_cmd_fail [OF assms(1,2)] assms(3,5) by simp
  then obtain db' where db': "do_add_cmd c db = Some (0, db')"
    using do_add_cmd_cases [OF assms(1), of c] by auto
  have ix: "get_cmd_index (key m) (mtype m) \<noteq> CMD_DATA_INDEX_INVALID"
    using assms(3) by (simp add: addressable_def)
  with db' db_lookup_add [OF assms(1,2) db' addressable_query [OF ix]] assms(4) show ?thesis
    by (simp add: do_get_data_lookup)
qed

theorem do_get_data_after_add_witness:
  "\<exists>db'. do_add_cmd (0x05, 0x00, 0x30, 0x00) group_table_init = Some (0, db') \<and>
     do_get_data db' 1 8 = le_word (0x05, 0x00, 0x30, 0x00)"
  using do_get_data_after_add [OF db_ok_init, of "(0x05, 0x00, 0x30, 0x00)"
      "\<lparr>op = 0, key = 1, mtype = 8, param1 = 0, param2 = 48, param3 = 0\<rparr>"]
  by (simp add: decode_cmd_eq addressable_def msg_in_range_def same_param_def zero_msg_def
      get_cmd_index_def get_cmd_desc_s_def general_cmd_desc_def c_consts table_full_def
      group_table_init_def group_sizes_def para_size)

text \<open>
  The ids are a perfect address. Two addressable messages have the same id exactly when
  they address the same parameter, and an id is never 0 (the mark of a free entry) nor negative.
\<close>

theorem get_cmd_id_address:
  assumes "addressable m" "addressable m'"
  shows "(get_cmd_id m = get_cmd_id m' \<longleftrightarrow> same_param m m') \<and> get_cmd_id m \<noteq> 0 \<and>
    0 \<le> sint (get_cmd_id m)"
  using assms get_cmd_id_inject [of m m'] get_cmd_id_same [of m m'] get_cmd_id_bounds(1) [of m]
    get_cmd_id_nonneg [of m]
  by (auto simp: addressable_def)

theorem get_cmd_id_address_witness:
  "(get_cmd_id \<lparr>op = 0, key = 11, mtype = 2, param1 = 3, param2 = 9, param3 = 0\<rparr>
     = get_cmd_id \<lparr>op = 0, key = 11, mtype = 2, param1 = 4, param2 = 9, param3 = 0\<rparr> \<longleftrightarrow>
    same_param \<lparr>op = 0, key = 11, mtype = 2, param1 = 3, param2 = 9, param3 = 0\<rparr>
      \<lparr>op = 0, key = 11, mtype = 2, param1 = 4, param2 = 9, param3 = 0\<rparr>) \<and>
   get_cmd_id \<lparr>op = 0, key = 11, mtype = 2, param1 = 3, param2 = 9, param3 = 0\<rparr> \<noteq> 0 \<and>
   0 \<le> sint (get_cmd_id \<lparr>op = 0, key = 11, mtype = 2, param1 = 3, param2 = 9, param3 = 0\<rparr>)"
  by (rule get_cmd_id_address)
    (simp_all add: addressable_def msg_in_range_def get_cmd_index_def get_cmd_desc_s_def
      output_cmd_desc_def c_consts)

text \<open>
  Replaying the database to the DSP. The words the DSP receives are the stored commands in
  table order followed by the end mark; its getters return for each the message stored in the
  table, and every stored parameter is among them.
\<close>

theorem send_data_to_dsp_replay:
  assumes "db_ok db"
  shows "\<exists>ms. map dsp_decode (received_words (send_data_to_dsp (trace_port r) db []))
      = ms @ [dsp_decode 0x34000000] \<and>
    list_all2 (\<lambda>e m. decode_cmd (le_bytes (cd_data e)) = Some m \<and> db_lookup db m = Some (cd_data e))
      (all_used db) ms \<and>
    (\<forall>m. addressable m \<and> db_lookup db m \<noteq> None \<longrightarrow> (\<exists>m' \<in> set ms. same_param m m'))"
proof -
  define ms where "ms = map (\<lambda>e. dsp_decode (be_word (le_bytes (cd_data e)))) (all_used db)"
  have e: "decode_cmd (le_bytes (cd_data e)) = Some (dsp_decode (be_word (le_bytes (cd_data e))))
      \<and> db_lookup db (dsp_decode (be_word (le_bytes (cd_data e)))) = Some (cd_data e)"
    if "e \<in> set (all_used db)" for e
    using all_used_entry [OF assms that] dsp_agrees by metis
  have "\<exists>m' \<in> set ms. same_param m m'" if m: "addressable m" "db_lookup db m = Some d" for m d
  proof -
    from lookup_in_all_used [OF m(2) assms] obtain e where
      e': "e \<in> set (all_used db)" "cd_id e = get_cmd_id m" by blast
    from all_used_entry [OF assms e'(1)] obtain m' where
      m': "decode_cmd (le_bytes (cd_data e)) = Some m'" "cd_id e = get_cmd_id m'" "addressable m'" by metis
    have "same_param m m'"
      using m(1) m'(2,3) e'(2) by (intro get_cmd_id_inject) (auto simp: addressable_def)
    with e [OF e'(1)] m'(1) e'(1) show ?thesis by (force simp: ms_def)
  qed
  then show ?thesis
    using e by (intro exI [of _ ms]) (auto simp: received_words_dsp ms_def list_all2_map2 list_all2_same)
qed

theorem send_data_to_dsp_replay_witness:
  "\<exists>ms. map dsp_decode (received_words (send_data_to_dsp (trace_port (\<lambda>_. 0)) group_table_init []))
      = ms @ [dsp_decode 0x34000000] \<and>
    list_all2 (\<lambda>e m. decode_cmd (le_bytes (cd_data e)) = Some m \<and>
        db_lookup group_table_init m = Some (cd_data e)) (all_used group_table_init) ms \<and>
    (\<forall>m. addressable m \<and> db_lookup group_table_init m \<noteq> None \<longrightarrow> (\<exists>m' \<in> set ms. same_param m m'))"
  by (rule send_data_to_dsp_replay [OF db_ok_init])

text \<open>
  Descriptions fit their buffer. For every message, in range or not, the string that
  \<open>get_cmd_desc\<close> writes has less than \<open>CMD_DESC_SIZE\<close> = 50 characters, so that the
  terminating zero fits as well.
\<close>

theorem get_cmd_desc_fits:
  assumes "get_cmd_desc m = Some s"
  shows "length s < 50"
proof -
  from assms obtain ds index head where d: "get_cmd_desc_s (key m) = Some ds"
    "map_of ds (mtype m) = Some (index, head)"
    "s = head \<or> s = head @ ''_'' @ fmt_02d (param1 m) \<or>
      s = head @ ''_'' @ fmt_02d (param1 m) @ ''_'' @ fmt_02d (param2 m)"
    by (auto simp: get_cmd_desc_def split: option.splits if_splits)
  have "length head \<le> 15" using desc_head_length [OF d(1)] map_of_SomeD [OF d(2)] by auto
  with d(3) fmt_02d_length [of "param1 m"] fmt_02d_length [of "param2 m"] show ?thesis by auto
qed

theorem get_cmd_desc_fits_witness: "length ''KnobVolume_07'' < 50"
  by (rule get_cmd_desc_fits [of "\<lparr>op = 0, key = 1, mtype = 8, param1 = 7, param2 = 48, param3 = 0\<rparr>"])
    code_simp

end
