(* ===== verification/Spi_Flash.thy ===== *)
theory Spi_Flash
  imports Spi_Port
begin

text \<open>
  The serial flash driver of the STM32, \<open>drivers/spi_flash.c\<close>, over an arbitrary SPI port.
  A call returns \<open>None\<close> when the busy poll never ends or when it would read outside the
  caller's buffer. The flash chip is hardware: the locale \<open>w25q_chip\<close> states what the W25Q16
  data sheet says of the instructions the driver uses, the driver is proved correct inside it,
  and an executable model of the chip interprets it.
\<close>

section \<open>The driver\<close>

definition W25Q_WriteEnable :: u8 where [c_consts]: "W25Q_WriteEnable = 0x06"
definition W25Q_ReadStatusReg :: u8 where [c_consts]: "W25Q_ReadStatusReg = 0x05"
definition W25Q_ReadData :: u8 where [c_consts]: "W25Q_ReadData = 0x03"
definition W25Q_PageProgram :: u8 where [c_consts]: "W25Q_PageProgram = 0x02"
definition W25Q_SectorErase :: u8 where [c_consts]: "W25Q_SectorErase = 0x20"
definition W25Q_ChipErase :: u8 where [c_consts]: "W25Q_ChipErase = 0xC7"
definition W25Q_PowerDown :: u8 where [c_consts]: "W25Q_PowerDown = 0xB9"
definition W25Q_ReleasePowerDown :: u8 where [c_consts]: "W25Q_ReleasePowerDown = 0xAB"
definition W25Q_DeviceID :: u8 where [c_consts]: "W25Q_DeviceID = 0xAB"
definition W25Q_JedecDeviceID :: u8 where [c_consts]: "W25Q_JedecDeviceID = 0x9F"
definition Dummy_Byte :: u8 where [c_consts]: "Dummy_Byte = 0xFF"
definition WIP_Flag :: u8 where [c_consts]: "WIP_Flag = 0x01"
definition SPI_FLASH_PageSize :: u16 where [c_consts]: "SPI_FLASH_PageSize = 256"
definition SPI_FLASH_PerWritePageSize :: u16 where [c_consts]: "SPI_FLASH_PerWritePageSize = 256"

text \<open>The three address bytes every instruction sends, high byte first.\<close>

definition addr_bytes :: "u32 \<Rightarrow> u8 list" where
  "addr_bytes a = [ucast (drop_bit 16 (a AND 0xFF0000)), ucast (drop_bit 8 (a AND 0xFF00)),
     ucast (a AND 0xFF)]"

text \<open>The loop that reads \<open>n\<close> bytes by sending dummies.\<close>

fun rx_loop :: "'c spi_port \<Rightarrow> nat \<Rightarrow> 'c \<Rightarrow> u8 list \<times> 'c" where
  "rx_loop p 0 c = ([], c)"
| "rx_loop p (Suc n) c =
     (let (b, c1) = xfer p Dummy_Byte c; (bs, c2) = rx_loop p n c1 in (b # bs, c2))"

definition SPI_FLASH_WriteEnable :: "'c spi_port \<Rightarrow> 'c \<Rightarrow> 'c" where
  "SPI_FLASH_WriteEnable p c = cs_high p (tx_loop p [W25Q_WriteEnable] (cs_low p c))"

text \<open>The \<open>do while\<close> loop on the status register; it may run for ever.\<close>

partial_function (option) wait_poll :: "'c spi_port \<Rightarrow> 'c \<Rightarrow> 'c option" where
  "wait_poll p c =
     (if fst (xfer p Dummy_Byte c) AND WIP_Flag = 1 then wait_poll p (snd (xfer p Dummy_Byte c))
      else Some (snd (xfer p Dummy_Byte c)))"

definition SPI_FLASH_WaitForWriteEnd :: "'c spi_port \<Rightarrow> 'c \<Rightarrow> 'c option" where
  "SPI_FLASH_WaitForWriteEnd p c =
     map_option (cs_high p) (wait_poll p (tx_loop p [W25Q_ReadStatusReg] (cs_low p c)))"

definition SPI_FLASH_SectorErase :: "'c spi_port \<Rightarrow> u32 \<Rightarrow> 'c \<Rightarrow> 'c option" where
  "SPI_FLASH_SectorErase p SectorAddr c =
     (case SPI_FLASH_WaitForWriteEnd p (SPI_FLASH_WriteEnable p c) of
        None \<Rightarrow> None
      | Some c \<Rightarrow> SPI_FLASH_WaitForWriteEnd p
          (cs_high p (tx_loop p (W25Q_SectorErase # addr_bytes SectorAddr) (cs_low p c))))"

definition SPI_FLASH_BulkErase :: "'c spi_port \<Rightarrow> 'c \<Rightarrow> 'c option" where
  "SPI_FLASH_BulkErase p c =
     SPI_FLASH_WaitForWriteEnd p
       (cs_high p (tx_loop p [W25Q_ChipErase] (cs_low p (SPI_FLASH_WriteEnable p c))))"

definition SPI_FLASH_PageWrite :: "'c spi_port \<Rightarrow> u8 list \<Rightarrow> u32 \<Rightarrow> u16 \<Rightarrow> 'c \<Rightarrow> 'c option" where
  "SPI_FLASH_PageWrite p pBuffer WriteAddr NumByteToWrite c =
     (let c = tx_loop p (W25Q_PageProgram # addr_bytes WriteAddr) (cs_low p (SPI_FLASH_WriteEnable p c));
          n = (if NumByteToWrite > SPI_FLASH_PerWritePageSize then SPI_FLASH_PerWritePageSize
               else NumByteToWrite)
      in if length pBuffer < unat n then None
         else SPI_FLASH_WaitForWriteEnd p (cs_high p (tx_loop p (take (unat n) pBuffer) c)))"

text \<open>\<open>while (NumOfPage--)\<close>: whole pages; returns the advanced buffer and address.\<close>

fun page_loop :: "'c spi_port \<Rightarrow> nat \<Rightarrow> u8 list \<Rightarrow> u32 \<Rightarrow> 'c \<Rightarrow> (u8 list \<times> u32 \<times> 'c) option" where
  "page_loop p 0 buf a c = Some (buf, a, c)"
| "page_loop p (Suc n) buf a c =
     (case SPI_FLASH_PageWrite p buf a SPI_FLASH_PageSize c of
        None \<Rightarrow> None
      | Some c \<Rightarrow> page_loop p n (drop (unat SPI_FLASH_PageSize) buf) (a + ucast SPI_FLASH_PageSize) c)"

definition SPI_FLASH_BufferWrite :: "'c spi_port \<Rightarrow> u8 list \<Rightarrow> u32 \<Rightarrow> u16 \<Rightarrow> 'c \<Rightarrow> 'c option" where
  "SPI_FLASH_BufferWrite p pBuffer WriteAddr NumByteToWrite c =
     (let Addr = (ucast (WriteAddr mod ucast SPI_FLASH_PageSize) :: u8);
          count = (ucast (SPI_FLASH_PageSize - ucast Addr) :: u8);
          NumOfPage = (ucast (NumByteToWrite div SPI_FLASH_PageSize) :: u8);
          NumOfSingle = (ucast (NumByteToWrite mod SPI_FLASH_PageSize) :: u8)
      in if Addr = 0 then
           if NumOfPage = 0 then SPI_FLASH_PageWrite p pBuffer WriteAddr NumByteToWrite c
           else
             (case page_loop p (unat NumOfPage) pBuffer WriteAddr c of
                None \<Rightarrow> None
              | Some (buf, a, c) \<Rightarrow> SPI_FLASH_PageWrite p buf a (ucast NumOfSingle) c)
         else if NumOfPage = 0 then
           if NumOfSingle > count then
             (let temp = NumOfSingle - count
              in case SPI_FLASH_PageWrite p pBuffer WriteAddr (ucast count) c of
                   None \<Rightarrow> None
                 | Some c \<Rightarrow> SPI_FLASH_PageWrite p (drop (unat count) pBuffer)
                     (WriteAddr + ucast count) (ucast temp) c)
           else SPI_FLASH_PageWrite p pBuffer WriteAddr NumByteToWrite c
         else
           (let NumByteToWrite = NumByteToWrite - ucast count;
                NumOfPage = (ucast (NumByteToWrite div SPI_FLASH_PageSize) :: u8);
                NumOfSingle = (ucast (NumByteToWrite mod SPI_FLASH_PageSize) :: u8)
            in case SPI_FLASH_PageWrite p pBuffer WriteAddr (ucast count) c of
                 None \<Rightarrow> None
               | Some c \<Rightarrow>
                   (case page_loop p (unat NumOfPage) (drop (unat count) pBuffer)
                           (WriteAddr + ucast count) c of
                      None \<Rightarrow> None
                    | Some (buf, a, c) \<Rightarrow>
                        if NumOfSingle \<noteq> 0 then SPI_FLASH_PageWrite p buf a (ucast NumOfSingle) c
                        else Some c)))"

definition SPI_FLASH_BufferRead :: "'c spi_port \<Rightarrow> u32 \<Rightarrow> u16 \<Rightarrow> 'c \<Rightarrow> u8 list \<times> 'c" where
  "SPI_FLASH_BufferRead p ReadAddr NumByteToRead c =
     (let (bs, c) = rx_loop p (unat NumByteToRead)
            (tx_loop p (W25Q_ReadData # addr_bytes ReadAddr) (cs_low p c))
      in (bs, cs_high p c))"

definition SPI_FLASH_ReadID :: "'c spi_port \<Rightarrow> 'c \<Rightarrow> u32 \<times> 'c" where
  "SPI_FLASH_ReadID p c =
     (let c = tx_loop p [W25Q_JedecDeviceID] (cs_low p c);
          (Temp0, c) = xfer p Dummy_Byte c;
          (Temp1, c) = xfer p Dummy_Byte c;
          (Temp2, c) = xfer p Dummy_Byte c
      in (push_bit 16 (ucast Temp0) OR push_bit 8 (ucast Temp1) OR ucast Temp2, cs_high p c))"

definition SPI_FLASH_ReadDeviceID :: "'c spi_port \<Rightarrow> 'c \<Rightarrow> u32 \<times> 'c" where
  "SPI_FLASH_ReadDeviceID p c =
     (let c = tx_loop p [W25Q_DeviceID, Dummy_Byte, Dummy_Byte, Dummy_Byte] (cs_low p c);
          (Temp, c) = xfer p Dummy_Byte c
      in (ucast Temp, cs_high p c))"

text \<open>The streaming read: the select line stays low between the two calls.\<close>

definition SPI_FLASH_StartReadSequence :: "'c spi_port \<Rightarrow> u32 \<Rightarrow> 'c \<Rightarrow> 'c" where
  "SPI_FLASH_StartReadSequence p ReadAddr c =
     tx_loop p (W25Q_ReadData # addr_bytes ReadAddr) (cs_low p c)"

definition SPI_FLASH_ReadByte :: "'c spi_port \<Rightarrow> 'c \<Rightarrow> u8 \<times> 'c" where
  "SPI_FLASH_ReadByte p c = xfer p Dummy_Byte c"

definition SPI_Flash_PowerDown :: "'c spi_port \<Rightarrow> 'c \<Rightarrow> 'c" where
  "SPI_Flash_PowerDown p c = cs_high p (tx_loop p [W25Q_PowerDown] (cs_low p c))"

definition SPI_Flash_WAKEUP :: "'c spi_port \<Rightarrow> 'c \<Rightarrow> 'c" where
  "SPI_Flash_WAKEUP p c = cs_high p (tx_loop p [W25Q_ReleasePowerDown] (cs_low p c))"

section \<open>The memory array\<close>

definition flash_size :: nat where [layout]: "flash_size = 2097152"

definition addr24 :: "u8 list \<Rightarrow> nat" where
  "addr24 bs = 65536 * unat (bs ! 0) + 256 * unat (bs ! 1) + unat (bs ! 2)"

definition erase_sector :: "nat \<Rightarrow> (nat \<Rightarrow> u8) \<Rightarrow> nat \<Rightarrow> u8" where
  "erase_sector a m = (\<lambda>x. if x div 4096 = a div 4096 then 0xFF else m x)"

text \<open>
  The page program instruction can only clear bits, and an address that runs over the end of its
  256 byte page wraps to the start of the same page.
\<close>

definition page_program :: "nat \<Rightarrow> u8 list \<Rightarrow> (nat \<Rightarrow> u8) \<Rightarrow> nat \<Rightarrow> u8" where
  "page_program a bs m = (\<lambda>x.
     let i = (x mod 256 + 256 - a mod 256) mod 256
     in if x div 256 = a div 256 \<and> i < length bs then m x AND bs ! i else m x)"

text \<open>What a caller of \<open>SPI_FLASH_BufferWrite\<close> wants: consecutive addresses.\<close>

definition program_bytes :: "nat \<Rightarrow> u8 list \<Rightarrow> (nat \<Rightarrow> u8) \<Rightarrow> nat \<Rightarrow> u8" where
  "program_bytes a bs m = (\<lambda>x. if a \<le> x \<and> x < a + length bs then m x AND bs ! (x - a) else m x)"

lemma page_index:
  fixes X A y b n :: nat
  assumes "y < 256" "b + n \<le> 256" "b < 256"
  shows "(X = A \<and> (y + 256 - b) mod 256 < n) \<longleftrightarrow>
      (256 * A + b \<le> 256 * X + y \<and> 256 * X + y < 256 * A + b + n)"
    and "256 * A + b \<le> 256 * X + y \<Longrightarrow> 256 * X + y < 256 * A + b + n \<Longrightarrow>
      (y + 256 - b) mod 256 = 256 * X + y - (256 * A + b)"
proof -
  have i: "(y + 256 - b) mod 256 = (if b \<le> y then y - b else y + 256 - b)"
    using assms by (simp add: mod_if)
  have X: "X = A" if "256 * A + b \<le> 256 * X + y" "256 * X + y < 256 * A + b + n"
    using that assms by linarith
  show "(X = A \<and> (y + 256 - b) mod 256 < n) \<longleftrightarrow>
      (256 * A + b \<le> 256 * X + y \<and> 256 * X + y < 256 * A + b + n)"
    unfolding i using X assms by (cases "b \<le> y"; simp; linarith)
  show "(y + 256 - b) mod 256 = 256 * X + y - (256 * A + b)"
    if "256 * A + b \<le> 256 * X + y" "256 * X + y < 256 * A + b + n"
    unfolding i using X [OF that] that by simp
qed

lemma page_program_fits:
  assumes "a mod 256 + length bs \<le> 256"
  shows "page_program a bs m = program_bytes a bs m"
proof
  fix x :: nat
  have x: "256 * (x div 256) + x mod 256 = x" "256 * (a div 256) + a mod 256 = a" by simp_all
  note i = page_index [where X = "x div 256" and y = "x mod 256" and A = "a div 256" and b = "a mod 256"
      and n = "length bs", unfolded x]
  show "page_program a bs m x = program_bytes a bs m x"
    unfolding page_program_def program_bytes_def Let_def using i assms by simp
qed

lemma program_bytes_Nil [simp]: "program_bytes a [] m = m"
  unfolding program_bytes_def fun_eq_iff by auto

lemma program_bytes_append:
  "program_bytes a (as @ bs) m = program_bytes (a + length as) bs (program_bytes a as m)"
  by (auto simp: program_bytes_def nth_append fun_eq_iff)

lemma and_ff [simp]: "0xFF AND b = b" for b :: u8
proof -
  have "0xFF AND b = b AND mask 8" by (simp add: and.commute mask_eq_exp_minus_1)
  also have "\<dots> = take_bit 8 b" by (simp only: take_bit_eq_mask)
  also have "\<dots> = b" by (simp add: take_bit_word_eq_self)
  finally show ?thesis .
qed

text \<open>Programming erased cells stores the bytes.\<close>

lemma program_erased:
  assumes "\<forall>i < length bs. m (a + i) = 0xFF"
  shows "map (program_bytes a bs m) [a..<a + length bs] = bs"
proof (rule nth_equalityI)
  fix i
  assume "i < length (map (program_bytes a bs m) [a..<a + length bs])"
  then show "map (program_bytes a bs m) [a..<a + length bs] ! i = bs ! i"
    using assms by (simp add: program_bytes_def)
qed simp

lemma program_bytes_other:
  "x < a \<or> a + length bs \<le> x \<Longrightarrow> program_bytes a bs m x = m x"
  by (auto simp: program_bytes_def)

lemma length_addr_bytes [simp]: "length (addr_bytes a) = 3"
  by (simp add: addr_bytes_def)

lemma addr24_addr_bytes:
  assumes "unat a < flash_size"
  shows "addr24 (addr_bytes a) = unat a"
proof -
  have g: "a AND 0xFF0000 = push_bit 16 (take_bit 8 (drop_bit 16 a))"
    "a AND 0xFF00 = push_bit 8 (take_bit 8 (drop_bit 8 a))" "a AND 0xFF = take_bit 8 a"
    using and_field [of a 16 8] and_field [of a 8 8] and_field [of a 0 8]
    by (simp_all add: mask_eq_exp_minus_1)
  have f: "drop_bit 16 (a AND 0xFF0000) = take_bit 8 (drop_bit 16 a)"
    "drop_bit 8 (a AND 0xFF00) = take_bit 8 (drop_bit 8 a)" "a AND 0xFF = take_bit 8 a"
    unfolding g by (rule bit_word_eqI; auto simp: bit_simps)+
  have "addr24 (addr_bytes a) = 65536 * (unat a div 65536 mod 256) + 256 * (unat a div 256 mod 256)
      + unat a mod 256"
    unfolding addr24_def addr_bytes_def f
    by (simp only: nth_Cons_0 nth_Cons_Suc One_nat_def numeral_2_eq_2 unat_ucast_to_u8
        unsigned_take_bit_eq unat_drop_bit_eq)
      (simp add: take_bit_eq_mod drop_bit_eq_div)
  also have "unat a div 65536 mod 256 = unat a div 256 div 256"
    using assms by (simp add: layout div_mult2_eq [of _ 256 256, simplified])
  finally show ?thesis
    using mult_div_mod_eq [of 256 "unat a div 256"] mult_div_mod_eq [of 256 "unat a"] by linarith
qed

section \<open>What the data sheet promises\<close>

text \<open>At most \<open>n\<close> status reads until the busy bit is clear.\<close>

text \<open>The polling loop ends at the first read with the busy bit clear, and runs for ever without one.\<close>

lemma wait_poll_steps:
  assumes "fst (xfer p Dummy_Byte (((snd \<circ> xfer p Dummy_Byte) ^^ n) c)) AND WIP_Flag \<noteq> 1"
    and "\<And>m. m < n \<Longrightarrow> fst (xfer p Dummy_Byte (((snd \<circ> xfer p Dummy_Byte) ^^ m) c)) AND WIP_Flag = 1"
  shows "wait_poll p c = Some (((snd \<circ> xfer p Dummy_Byte) ^^ Suc n) c)"
  using assms
proof (induction n arbitrary: c)
  case 0
  then show ?case by (subst wait_poll.simps) simp
next
  case (Suc n)
  let ?c = "snd (xfer p Dummy_Byte c)"
  have sh: "((snd \<circ> xfer p Dummy_Byte) ^^ m) ?c = ((snd \<circ> xfer p Dummy_Byte) ^^ Suc m) c" for m
    by (simp add: funpow_swap1)
  have "wait_poll p ?c = Some (((snd \<circ> xfer p Dummy_Byte) ^^ Suc n) ?c)"
    using Suc.IH [of ?c, unfolded sh, OF Suc.prems(1) Suc.prems(2)] by (simp add: sh)
  with Suc.prems(2) [of 0] show ?case by (subst wait_poll.simps) (simp add: funpow_swap1)
qed

lemma wait_poll_returned:
  assumes "wait_poll p c = Some r"
  shows "\<exists>n. fst (xfer p Dummy_Byte (((snd \<circ> xfer p Dummy_Byte) ^^ n) c)) AND WIP_Flag \<noteq> 1"
  using assms
proof (rule wait_poll.raw_induct [where P = "\<lambda>p c r.
    \<exists>n. fst (xfer p Dummy_Byte (((snd \<circ> xfer p Dummy_Byte) ^^ n) c)) AND WIP_Flag \<noteq> 1", rotated])
  fix wait :: "'a spi_port \<Rightarrow> 'a \<Rightarrow> 'a option" and p :: "'a spi_port" and c r
  assume IH: "\<And>p c r. wait p c = Some r \<Longrightarrow>
      \<exists>n. fst (xfer p Dummy_Byte (((snd \<circ> xfer p Dummy_Byte) ^^ n) c)) AND WIP_Flag \<noteq> 1"
    and r: "(if fst (xfer p Dummy_Byte c) AND WIP_Flag = 1 then wait p (snd (xfer p Dummy_Byte c))
      else Some (snd (xfer p Dummy_Byte c))) = Some r"
  show "\<exists>n. fst (xfer p Dummy_Byte (((snd \<circ> xfer p Dummy_Byte) ^^ n) c)) AND WIP_Flag \<noteq> 1"
  proof (cases "fst (xfer p Dummy_Byte c) AND WIP_Flag = 1")
    case True
    with r IH obtain n where
      "fst (xfer p Dummy_Byte (((snd \<circ> xfer p Dummy_Byte) ^^ n) (snd (xfer p Dummy_Byte c)))) AND WIP_Flag \<noteq> 1"
      by fastforce
    then show ?thesis by (intro exI [of _ "Suc n"]) (simp add: funpow_swap1)
  next
    case False
    then show ?thesis by (intro exI [of _ 0]) simp
  qed
qed

lemma wait_poll_never:
  "(\<And>n. fst (xfer p Dummy_Byte (((snd \<circ> xfer p Dummy_Byte) ^^ n) c)) AND WIP_Flag = 1) \<Longrightarrow> wait_poll p c = None"
  using wait_poll_returned [of p c] by (cases "wait_poll p c") auto

fun poll_n :: "'c spi_port \<Rightarrow> nat \<Rightarrow> 'c \<Rightarrow> 'c option" where
  "poll_n p 0 c = None"
| "poll_n p (Suc n) c =
     (if fst (xfer p 0xFF c) AND 1 = 1 then poll_n p n (snd (xfer p 0xFF c))
      else Some (snd (xfer p 0xFF c)))"

definition send_frame :: "'c spi_port \<Rightarrow> u8 list \<Rightarrow> 'c \<Rightarrow> 'c" where
  "send_frame p bs c = cs_high p (tx_loop p bs (cs_low p c))"

text \<open>
  \<open>ready c\<close>: the chip is deselected and no write or erase is in progress; \<open>desel c\<close>: it is
  deselected. \<open>wel\<close> is the write enable latch and \<open>mem\<close> the contents of the array (during
  a write, those it will have when the write is complete).
\<close>

locale w25q_chip =
  fixes p :: "'c spi_port"
    and ready :: "'c \<Rightarrow> bool"
    and desel :: "'c \<Rightarrow> bool"
    and wel :: "'c \<Rightarrow> bool"
    and mem :: "'c \<Rightarrow> nat \<Rightarrow> u8"
  assumes ready_desel: "ready c \<Longrightarrow> desel c"
    and write_enable: "ready c \<Longrightarrow> ready (send_frame p [0x06] c) \<and> wel (send_frame p [0x06] c) \<and>
      mem (send_frame p [0x06] c) = mem c"
    and busy_ends: "desel c \<Longrightarrow> \<exists>n c'. poll_n p n (snd (xfer p 0x05 (cs_low p c))) = Some c' \<and>
      ready (cs_high p c') \<and> mem (cs_high p c') = mem c \<and> (ready c \<longrightarrow> wel (cs_high p c') = wel c)"
    and sector_erase: "\<lbrakk>ready c; wel c; length ab = 3; addr24 ab < flash_size\<rbrakk> \<Longrightarrow>
      desel (send_frame p (0x20 # ab) c) \<and>
      mem (send_frame p (0x20 # ab) c) = erase_sector (addr24 ab) (mem c)"
    and chip_erase: "\<lbrakk>ready c; wel c\<rbrakk> \<Longrightarrow>
      desel (send_frame p [0xC7] c) \<and> mem (send_frame p [0xC7] c) = (\<lambda>x. 0xFF)"
    and program: "\<lbrakk>ready c; wel c; length ab = 3; addr24 ab < flash_size; length bs \<le> 256\<rbrakk> \<Longrightarrow>
      desel (send_frame p (0x02 # ab @ bs) c) \<and>
      mem (send_frame p (0x02 # ab @ bs) c) = page_program (addr24 ab) bs (mem c)"
    and read_array: "\<lbrakk>ready c; length ab = 3; addr24 ab + n \<le> flash_size\<rbrakk> \<Longrightarrow>
      \<exists>c'. rx_loop p n (tx_loop p (0x03 # ab) (cs_low p c)) = (map (mem c) [addr24 ab..<addr24 ab + n], c')
        \<and> ready (cs_high p c') \<and> mem (cs_high p c') = mem c"

lemma wait_poll_n: "poll_n p n c = Some c' \<Longrightarrow> wait_poll p c = Some c'"
  by (induction n arbitrary: c)
    (subst wait_poll.simps, auto simp: c_consts split: if_splits)+

lemmas flash_cmds = W25Q_WriteEnable_def W25Q_ReadStatusReg_def W25Q_ReadData_def
  W25Q_PageProgram_def W25Q_SectorErase_def W25Q_ChipErase_def Dummy_Byte_def WIP_Flag_def

context w25q_chip
begin

lemma enable_ok:
  assumes "ready c"
  shows "ready (SPI_FLASH_WriteEnable p c)" "wel (SPI_FLASH_WriteEnable p c)"
    "mem (SPI_FLASH_WriteEnable p c) = mem c"
  using write_enable [OF assms] by (simp_all add: SPI_FLASH_WriteEnable_def send_frame_def flash_cmds)

lemma wait_ok:
  assumes "desel c"
  shows "\<exists>c'. SPI_FLASH_WaitForWriteEnd p c = Some c' \<and> ready c' \<and> mem c' = mem c \<and>
    (ready c \<longrightarrow> wel c' = wel c)"
proof -
  from busy_ends [OF assms] obtain n c' where
    "poll_n p n (snd (xfer p 0x05 (cs_low p c))) = Some c'" and c': "ready (cs_high p c')"
    "mem (cs_high p c') = mem c" "ready c \<longrightarrow> wel (cs_high p c') = wel c" by blast
  then have "SPI_FLASH_WaitForWriteEnd p c = Some (cs_high p c')"
    by (simp add: SPI_FLASH_WaitForWriteEnd_def flash_cmds wait_poll_n)
  with c' show ?thesis by blast
qed

lemma wait_done:
  "desel c \<Longrightarrow> \<exists>c'. SPI_FLASH_WaitForWriteEnd p c = Some c' \<and> ready c' \<and> mem c' = mem c"
  using wait_ok by blast

lemma sector_erase_ok:
  assumes "ready c" "unat a < flash_size"
  shows "\<exists>c'. SPI_FLASH_SectorErase p a c = Some c' \<and> ready c' \<and> mem c' = erase_sector (unat a) (mem c)"
proof -
  note e = enable_ok [OF assms(1)]
  from wait_ok [OF ready_desel [OF e(1)]] e obtain c1 where
    c1: "SPI_FLASH_WaitForWriteEnd p (SPI_FLASH_WriteEnable p c) = Some c1" "ready c1" "wel c1" "mem c1 = mem c"
    by auto
  let ?c2 = "send_frame p (0x20 # addr_bytes a) c1"
  have "desel ?c2" "mem ?c2 = erase_sector (unat a) (mem c)"
    using sector_erase [OF c1(2,3), of "addr_bytes a"] assms(2) c1(4) by (simp_all add: addr24_addr_bytes)
  with wait_done [of ?c2] c1 show ?thesis
    by (simp add: SPI_FLASH_SectorErase_def send_frame_def flash_cmds)
qed

lemma bulk_erase_ok:
  assumes "ready c"
  shows "\<exists>c'. SPI_FLASH_BulkErase p c = Some c' \<and> ready c' \<and> mem c' = (\<lambda>x. 0xFF)"
proof -
  note e = enable_ok [OF assms]
  with chip_erase [OF e(1,2)] wait_done [of "send_frame p [0xC7] (SPI_FLASH_WriteEnable p c)"]
  show ?thesis by (simp add: SPI_FLASH_BulkErase_def send_frame_def flash_cmds)
qed

lemma page_write_ok:
  assumes "ready c" "unat a < flash_size" "unat n \<le> 256" "unat n \<le> length buf"
  shows "\<exists>c'. SPI_FLASH_PageWrite p buf a n c = Some c' \<and> ready c' \<and>
    mem c' = page_program (unat a) (take (unat n) buf) (mem c)"
proof -
  note e = enable_ok [OF assms(1)]
  let ?c2 = "send_frame p (0x02 # addr_bytes a @ take (unat n) buf) (SPI_FLASH_WriteEnable p c)"
  have n: "(if n > SPI_FLASH_PerWritePageSize then SPI_FLASH_PerWritePageSize else n) = n"
    using assms(3) by (simp add: c_consts word_less_nat_alt)
  have "desel ?c2" "mem ?c2 = page_program (unat a) (take (unat n) buf) (mem c)"
    using program [OF e(1,2), of "addr_bytes a" "take (unat n) buf"] assms(2,3) e(3)
    by (simp_all add: addr24_addr_bytes)
  with wait_done [of ?c2] assms(4) show ?thesis
    unfolding SPI_FLASH_PageWrite_def n by (simp add: send_frame_def flash_cmds tx_loop_append)
qed

lemma page_write_fits:
  assumes "ready c" "unat a < flash_size" "unat a mod 256 + unat n \<le> 256" "unat n \<le> length buf"
  shows "\<exists>c'. SPI_FLASH_PageWrite p buf a n c = Some c' \<and> ready c' \<and>
    mem c' = program_bytes (unat a) (take (unat n) buf) (mem c)"
  using page_write_ok [OF assms(1,2) _ assms(4)] assms(3,4)
    page_program_fits [of "unat a" "take (unat n) buf"]
  by (simp add: min_absorb2)

lemma buffer_read_ok:
  assumes "ready c" "unat a + unat n \<le> flash_size" "unat a < flash_size"
  shows "\<exists>c'. SPI_FLASH_BufferRead p a n c = (map (mem c) [unat a..<unat a + unat n], c') \<and>
    ready c' \<and> mem c' = mem c"
  using read_array [OF assms(1), of "addr_bytes a" "unat n"] assms(2,3)
  by (auto simp: SPI_FLASH_BufferRead_def flash_cmds addr24_addr_bytes)

lemma page_loop_ok:
  assumes "ready c" "unat a mod 256 = 0" "unat a + 256 * k < flash_size" "256 * k \<le> length buf"
  shows "\<exists>c' a'. page_loop p k buf a c = Some (drop (256 * k) buf, a', c') \<and> ready c' \<and>
    unat a' = unat a + 256 * k \<and> mem c' = program_bytes (unat a) (take (256 * k) buf) (mem c)"
  using assms
proof (induction k arbitrary: c a buf)
  case 0
  then show ?case by simp
next
  case (Suc k)
  have P: "unat SPI_FLASH_PageSize = 256" by (simp add: c_consts)
  obtain c1 where c1: "SPI_FLASH_PageWrite p buf a SPI_FLASH_PageSize c = Some c1" "ready c1"
    "mem c1 = program_bytes (unat a) (take 256 buf) (mem c)"
    using page_write_fits [OF Suc.prems(1), of a SPI_FLASH_PageSize buf] Suc.prems P by auto
  have a1: "unat (a + ucast SPI_FLASH_PageSize) = unat a + 256"
    using Suc.prems(3) by (subst unat_add_small) (simp_all add: c_consts layout)
  have len: "256 * k \<le> length (drop 256 buf)" using Suc.prems(4) by simp
  obtain c' a' where c': "page_loop p k (drop 256 buf) (a + ucast SPI_FLASH_PageSize) c1
      = Some (drop (256 * k) (drop 256 buf), a', c')" "ready c'"
    "unat a' = unat (a + ucast SPI_FLASH_PageSize) + 256 * k"
    "mem c' = program_bytes (unat (a + ucast SPI_FLASH_PageSize)) (take (256 * k) (drop 256 buf)) (mem c1)"
    using Suc.IH [OF c1(2), of "a + ucast SPI_FLASH_PageSize", OF _ _ len] Suc.prems a1 by auto
  have "take (256 * Suc k) buf = take 256 buf @ take (256 * k) (drop 256 buf)"
    by (simp add: take_add)
  moreover have "length (take 256 buf) = 256" using Suc.prems(4) by simp
  ultimately have "mem c' = program_bytes (unat a) (take (256 * Suc k) buf) (mem c)"
    using program_bytes_append [of "unat a" "take 256 buf"] c'(4) c1(3) a1 by simp
  with c1 c' a1 P show ?case by (simp add: add.commute)
qed

lemma buffer_write_aligned:
  assumes "ready c" "unat a mod 256 = 0" "unat a + unat n < flash_size" "unat n \<le> length buf"
    and k: "unat k = unat n div 256" and s: "unat s = unat n mod 256"
  shows "\<exists>c'. (case page_loop p (unat k) buf a c of None \<Rightarrow> None
      | Some (buf, a, c) \<Rightarrow> SPI_FLASH_PageWrite p buf a s c) = Some c' \<and> ready c' \<and>
    mem c' = program_bytes (unat a) (take (unat n) buf) (mem c)"
proof -
  have n: "unat n = 256 * unat k + unat s" by (simp add: k s)
  obtain c1 a1 where c1: "page_loop p (unat k) buf a c = Some (drop (256 * unat k) buf, a1, c1)"
    "ready c1" "unat a1 = unat a + 256 * unat k"
    "mem c1 = program_bytes (unat a) (take (256 * unat k) buf) (mem c)"
    using page_loop_ok [OF assms(1,2), of "unat k" buf] assms(3,4) n by auto
  have "unat a1 mod 256 = 0" using assms(2) c1(3) by simp
  moreover have "unat s < 256" by (simp add: s)
  moreover have "unat s \<le> length (drop (256 * unat k) buf)" using assms(4) n by simp
  ultimately obtain c2 where c2: "SPI_FLASH_PageWrite p (drop (256 * unat k) buf) a1 s c1 = Some c2"
    "ready c2" "mem c2 = program_bytes (unat a1) (take (unat s) (drop (256 * unat k) buf)) (mem c1)"
    using page_write_fits [OF c1(2), of a1 s "drop (256 * unat k) buf"] assms(3,4) c1(3) n by auto
  have "length (take (256 * unat k) buf) = 256 * unat k" using assms(4) n by simp
  then have "mem c2 = program_bytes (unat a) (take (unat n) buf) (mem c)"
    unfolding c2(3) c1(3,4) n take_add program_bytes_append by simp
  with c1 c2 show ?thesis by simp
qed

text \<open>The second half of a write that starts in the middle of a page.\<close>

lemma buffer_write_tail:
  assumes "ready c" "unat a mod 256 + unat cnt = 256" "unat a + (unat cnt + unat n) < flash_size"
    and "unat cnt + unat n \<le> length buf" "unat cnt < 256"
  shows "\<exists>c1. SPI_FLASH_PageWrite p buf a (ucast (cnt :: u8)) c = Some c1 \<and> ready c1 \<and>
      unat (a + ucast cnt) = unat a + unat cnt \<and> unat (a + ucast cnt) mod 256 = 0 \<and>
      mem c1 = program_bytes (unat a) (take (unat cnt) buf) (mem c) \<and>
      program_bytes (unat (a + ucast cnt)) (take (unat n) (drop (unat cnt) buf)) (mem c1)
        = program_bytes (unat a) (take (unat cnt + unat n) buf) (mem c)"
proof -
  have u: "unat (ucast cnt :: u16) = unat cnt"
    by (simp add: unsigned_ucast_eq take_bit_nat_eq_self_iff less_trans [OF unat_u8_less])
  obtain c1 where c1: "SPI_FLASH_PageWrite p buf a (ucast cnt) c = Some c1" "ready c1"
    "mem c1 = program_bytes (unat a) (take (unat cnt) buf) (mem c)"
    using page_write_fits [OF assms(1), of a "ucast cnt" buf] assms u by auto
  have a: "unat (a + ucast cnt) = unat a + unat cnt"
    using assms(3) by (subst unat_add_small) (simp_all add: layout)
  have "(unat a + unat cnt) mod 256 = (unat a mod 256 + unat cnt) mod 256" by (simp add: mod_simps)
  then have "unat (a + ucast cnt) mod 256 = 0" using assms(2) a by simp
  moreover have "length (take (unat cnt) buf) = unat cnt" using assms(4) by simp
  ultimately show ?thesis
    using c1 a by (simp add: take_add program_bytes_append)
qed

text \<open>
  The 8 and 16 bit locals of \<open>SPI_FLASH_BufferWrite\<close> as numbers.
\<close>

lemma write_locals:
  fixes n :: u16
  shows "unat (ucast (a mod ucast SPI_FLASH_PageSize :: u32) :: u8) = unat a mod 256"
    "unat a mod 256 \<noteq> 0 \<Longrightarrow>
       unat (ucast (SPI_FLASH_PageSize - ucast (ucast (a mod ucast SPI_FLASH_PageSize) :: u8)) :: u8)
         = 256 - unat a mod 256"
    "unat (ucast (n div SPI_FLASH_PageSize) :: u8) = unat n div 256"
    "unat (ucast (n mod SPI_FLASH_PageSize) :: u8) = unat n mod 256"
    "unat (ucast (b :: u8) :: u16) = unat b"
proof -
  have c: "unat (ucast (w :: u16) :: u8) = unat w mod 256" for w
    by (simp add: unsigned_ucast_eq take_bit_eq_mod)
  have e: "unat (ucast (b :: u8) :: u16) = unat b" for b
    by (simp add: unsigned_ucast_eq take_bit_nat_eq_self_iff less_trans [OF unat_u8_less])
  have n: "unat n < 65536" using unsigned_less [of n, where 'a = nat] by simp
  show e': "unat (ucast (b :: u8) :: u16) = unat b" by (rule e)
  have p: "unat SPI_FLASH_PageSize = 256" "unat (ucast SPI_FLASH_PageSize :: u32) = 256"
    by (simp_all add: c_consts)
  show A: "unat (ucast (a mod ucast SPI_FLASH_PageSize :: u32) :: u8) = unat a mod 256"
    by (simp add: unat_ucast_to_u8 unat_mod_distrib p)
  have "unat n div 256 < 256" using n by linarith
  then show "unat (ucast (n div SPI_FLASH_PageSize) :: u8) = unat n div 256"
    by (simp add: c unat_div_distrib p)
  show "unat (ucast (n mod SPI_FLASH_PageSize) :: u8) = unat n mod 256"
    by (simp add: c unat_mod_distrib p)
  assume nz: "unat a mod 256 \<noteq> 0"
  have "unat (SPI_FLASH_PageSize - ucast (ucast (a mod ucast SPI_FLASH_PageSize) :: u8))
      = 256 - unat a mod 256"
    by (subst unat_sub) (simp_all add: word_le_nat_alt e A p less_imp_le)
  then show "unat (ucast (SPI_FLASH_PageSize - ucast (ucast (a mod ucast SPI_FLASH_PageSize) :: u8)) :: u8)
      = 256 - unat a mod 256"
    using nz by (simp add: c)
qed

lemma buffer_write_ok:
  assumes "ready c" "unat a + unat n < flash_size" "unat n \<le> length buf"
  shows "\<exists>c'. SPI_FLASH_BufferWrite p buf a n c = Some c' \<and> ready c' \<and>
    mem c' = program_bytes (unat a) (take (unat n) buf) (mem c)"
proof -
  define Addr where "Addr = (ucast (a mod ucast SPI_FLASH_PageSize) :: u8)"
  define cnt where "cnt = (ucast (SPI_FLASH_PageSize - ucast Addr) :: u8)"
  define np where "np m = (ucast (m div SPI_FLASH_PageSize) :: u8)" for m :: u16
  define ns where "ns m = (ucast (m mod SPI_FLASH_PageSize) :: u8)" for m :: u16
  have u: "unat Addr = unat a mod 256" "unat (np m) = unat m div 256" "unat (ns m) = unat m mod 256"
    "unat (ucast (b :: u8) :: u16) = unat b" for m b
    by (simp_all add: Addr_def np_def ns_def write_locals)
  note B = SPI_FLASH_BufferWrite_def [of p buf a n c, folded Addr_def, unfolded Let_def,
      folded cnt_def np_def ns_def]
  show ?thesis
  proof (cases "Addr = 0")
    case True
    then have al: "unat a mod 256 = 0" using u(1) by simp
    show ?thesis
    proof (cases "np n = 0")
      case np: True
      then have "unat n < 256" using u(2) [of n] by (simp add: div_eq_0_iff)
      with page_write_fits [OF assms(1) _ _ assms(3), of a] assms(2) al True np show ?thesis
        by (simp add: B)
    next
      case False
      with buffer_write_aligned [OF assms(1) al assms(2,3), of "np n" "ucast (ns n)"] True u show ?thesis
        by (simp add: B)
    qed
  next
    case False
    then have na: "unat a mod 256 \<noteq> 0" using u(1) by (auto simp: word_unat_eq_iff)
    have cnt: "unat cnt = 256 - unat a mod 256"
      unfolding cnt_def Addr_def by (rule write_locals(2) [OF na])
    then have cnt': "unat a mod 256 + unat cnt = 256" "unat cnt < 256" using na by simp_all
    show ?thesis
    proof (cases "unat n \<le> unat cnt")
      case True
      with cnt'(2) have "unat n < 256" by (rule le_less_trans [rotated])
      then have "np n = 0" "\<not> ns n > cnt"
        using True u(2,3) [of n] by (simp_all add: word_unat_eq_iff word_less_nat_alt)
      with page_write_fits [OF assms(1) _ _ assms(3), of a] assms(2) cnt'(1) True False show ?thesis
        by (simp add: B)
    next
      case gt: False
      let ?r = "n - ucast cnt"
      have r: "unat ?r = unat n - unat cnt" using gt u(4) [of cnt]
        by (simp add: unat_sub word_le_nat_alt)
      obtain c1 where c1: "SPI_FLASH_PageWrite p buf a (ucast cnt) c = Some c1" "ready c1"
        "unat (a + ucast cnt) = unat a + unat cnt" "unat (a + ucast cnt) mod 256 = 0"
        "program_bytes (unat (a + ucast cnt)) (take (unat ?r) (drop (unat cnt) buf)) (mem c1)
          = program_bytes (unat a) (take (unat n) buf) (mem c)"
        using buffer_write_tail [OF assms(1) cnt'(1), of ?r buf] assms(2,3) cnt'(2) r gt by auto
      have rl: "unat ?r \<le> length (drop (unat cnt) buf)" using assms(3) r by simp
      show ?thesis
      proof (cases "np n = 0")
        case np: True
        then have n: "unat n < 256" using u(2) [of n] by (simp add: div_eq_0_iff)
        then have "ns n > cnt" using gt u(3) [of n] by (simp add: word_less_nat_alt)
        moreover have t: "unat (ucast (ns n - cnt) :: u16) = unat ?r"
          using n r u(3,4) gt by (simp add: unat_sub word_le_nat_alt)
        moreover have "unat ?r \<le> 256" using n r by simp
        ultimately show ?thesis
          using page_write_fits [OF c1(2), of "a + ucast cnt" "ucast (ns n - cnt)" "drop (unat cnt) buf"]
            c1 rl assms(2) r gt np False by (simp add: B t)
      next
        case np: False
        have "\<exists>c'. (case page_loop p (unat (np ?r)) (drop (unat cnt) buf) (a + ucast cnt) c1 of None \<Rightarrow> None
            | Some (buf, a, c) \<Rightarrow> Some c) = Some c' \<and> ready c' \<and>
            mem c' = program_bytes (unat (a + ucast cnt)) (take (unat ?r) (drop (unat cnt) buf)) (mem c1)"
          if "ns ?r = 0"
        proof -
          have "unat ?r = 256 * unat (np ?r)" using that u(2,3) [of ?r] by auto
          with page_loop_ok [OF c1(2,4), of "unat (np ?r)" "drop (unat cnt) buf"] c1(3) assms(2) rl r gt
          show ?thesis by auto
        qed
        then show ?thesis
          using buffer_write_aligned [OF c1(2,4), of ?r "drop (unat cnt) buf" "np ?r" "ucast (ns ?r)"]
            c1 rl assms(2) r gt np False u
          by (cases "ns ?r = 0") (simp_all add: B cong: option.case_cong prod.case_cong)
      qed
    qed
  qed
qed

end

section \<open>An executable chip\<close>

text \<open>
  \<open>rx\<close> holds the bytes received since the select line went low; an instruction takes effect
  when it goes high again. Every write or erase keeps the chip busy for \<open>hold\<close> status reads.
\<close>

record w25q =
  cells :: "nat \<Rightarrow> u8"
  latch :: bool
  busy :: nat
  hold :: nat
  sel :: bool
  rx :: "u8 list"

definition chip_low :: "w25q \<Rightarrow> w25q" where
  "chip_low c = c\<lparr>sel := True, rx := []\<rparr>"

definition chip_reply :: "w25q \<Rightarrow> u8" where
  "chip_reply c =
     (case rx c of
        [] \<Rightarrow> 0xFF
      | op # args \<Rightarrow>
          if op = 0x05 then (if 0 < busy c then 1 else 0) OR (if latch c then 2 else 0)
          else if 0 < busy c then 0xFF
          else if op = 0x03 \<and> 3 \<le> length args
          then cells c ((addr24 args + (length args - 3)) mod flash_size)
          else if op = 0x9F \<and> length args < 3 then [0xEF, 0x40, 0x15] ! length args
          else if op = 0xAB \<and> length args = 3 then 0x14
          else 0xFF)"

definition chip_xfer :: "u8 \<Rightarrow> w25q \<Rightarrow> u8 \<times> w25q" where
  "chip_xfer b c =
     (if sel c then
        (chip_reply c, c\<lparr>rx := rx c @ [b],
           busy := (if rx c \<noteq> [] \<and> hd (rx c) = 0x05 then busy c - 1 else busy c)\<rparr>)
      else (0xFF, c))"

definition chip_high :: "w25q \<Rightarrow> w25q" where
  "chip_high c =
     (let c' = c\<lparr>sel := False, rx := []\<rparr> in
      if \<not> sel c \<or> 0 < busy c then c'
      else
        (case rx c of
           [] \<Rightarrow> c'
         | op # args \<Rightarrow>
             if op = 0x06 \<and> args = [] then c'\<lparr>latch := True\<rparr>
             else if \<not> latch c then c'
             else if op = 0x20 \<and> length args = 3
             then c'\<lparr>cells := erase_sector (addr24 args) (cells c), latch := False, busy := hold c\<rparr>
             else if op = 0xC7 \<and> args = []
             then c'\<lparr>cells := (\<lambda>x. 0xFF), latch := False, busy := hold c\<rparr>
             else if op = 0x02 \<and> 3 < length args \<and> length args \<le> 259
             then c'\<lparr>cells := page_program (addr24 args) (drop 3 args) (cells c), latch := False,
                     busy := hold c\<rparr>
             else c'))"

definition w25q_port :: "w25q spi_port" where
  "w25q_port = \<lparr>cs_low = chip_low, cs_high = chip_high, xfer = chip_xfer\<rparr>"

definition blank_chip :: w25q where
  "blank_chip = \<lparr>cells = (\<lambda>x. 0xFF), latch = False, busy = 0, hold = 3, sel = False, rx = []\<rparr>"

definition chip_ready :: "w25q \<Rightarrow> bool" where
  "chip_ready c \<longleftrightarrow> \<not> sel c \<and> busy c = 0"

definition chip_desel :: "w25q \<Rightarrow> bool" where
  "chip_desel c \<longleftrightarrow> \<not> sel c"

lemma w25q_port_sel [simp]:
  "cs_low w25q_port = chip_low" "cs_high w25q_port = chip_high" "xfer w25q_port = chip_xfer"
  by (simp_all add: w25q_port_def)

lemma chip_tx:
  "\<lbrakk>sel c; busy c = 0\<rbrakk> \<Longrightarrow> tx_loop w25q_port bs c = c\<lparr>rx := rx c @ bs\<rparr>"
  by (induction bs arbitrary: c) (simp_all add: chip_xfer_def)

lemma chip_frame:
  "busy c = 0 \<Longrightarrow> send_frame w25q_port bs c = chip_high (c\<lparr>sel := True, rx := bs\<rparr>)"
  by (simp add: send_frame_def chip_tx chip_low_def)

lemma addr24_append: "length ab = 3 \<Longrightarrow> addr24 (ab @ bs) = addr24 ab"
  by (simp add: addr24_def nth_append)

lemma status_bit:
  "((if 0 < n then 1 else 0) OR (if l then 2 else 0) :: u8) AND 1 = 1 \<longleftrightarrow> 0 < n" for n :: nat
  by simp

lemma chip_poll:
  assumes "sel c" "rx c \<noteq> []" "hd (rx c) = 0x05"
  shows "\<exists>r. poll_n w25q_port (Suc (busy c)) c = Some (c\<lparr>rx := r, busy := 0\<rparr>) \<and> r \<noteq> [] \<and> hd r = 0x05"
  using assms
proof (induction "busy c" arbitrary: c)
  case 0
  then show ?case by (cases "rx c") (auto simp: chip_xfer_def chip_reply_def)
next
  case (Suc n)
  let ?c = "c\<lparr>rx := rx c @ [0xFF], busy := n\<rparr>"
  have "fst (chip_xfer 0xFF c) AND 1 = 1"
    using Suc.prems Suc.hyps(2) status_bit [of "busy c" "latch c"]
    by (cases "rx c") (auto simp: chip_xfer_def chip_reply_def)
  moreover have "snd (chip_xfer 0xFF c) = ?c"
    using Suc.prems by (simp add: chip_xfer_def flip: Suc.hyps(2))
  ultimately show ?case
    using Suc.hyps(1) [of ?c] Suc.prems by (simp flip: Suc.hyps(2))
qed

lemma chip_busy_ends:
  assumes "chip_desel c"
  shows "\<exists>n c'. poll_n w25q_port n (snd (chip_xfer 0x05 (chip_low c))) = Some c' \<and>
      chip_ready (chip_high c') \<and> cells (chip_high c') = cells c \<and>
      (chip_ready c \<longrightarrow> latch (chip_high c') = latch c)"
proof -
  let ?c = "c\<lparr>sel := True, rx := [0x05]\<rparr>"
  have s: "snd (chip_xfer 0x05 (chip_low c)) = ?c" by (simp add: chip_xfer_def chip_low_def)
  obtain r where r: "poll_n w25q_port (Suc (busy ?c)) ?c = Some (?c\<lparr>rx := r, busy := 0\<rparr>)"
    "r \<noteq> []" "hd r = 0x05"
    using chip_poll [of ?c] by auto
  show ?thesis
  proof (intro exI conjI)
    show "poll_n w25q_port (Suc (busy ?c)) (snd (chip_xfer 0x05 (chip_low c))) = Some (?c\<lparr>rx := r, busy := 0\<rparr>)"
      unfolding s by (rule r(1))
  qed (use r in \<open>cases r; simp add: chip_high_def chip_ready_def Let_def\<close>)+
qed

lemma chip_rx:
  "\<lbrakk>sel c; busy c = 0; rx c = 0x03 # ab @ zs; length ab = 3; addr24 ab + (length zs + n) \<le> flash_size\<rbrakk> \<Longrightarrow>
     \<exists>r. rx_loop w25q_port n c = (map (cells c) [addr24 ab + length zs..<addr24 ab + length zs + n],
       c\<lparr>rx := 0x03 # r\<rparr>)"
proof (induction n arbitrary: c zs)
  case 0
  then show ?case by (intro exI [of _ "ab @ zs"]) simp
next
  case (Suc n)
  let ?c = "c\<lparr>rx := 0x03 # ab @ (zs @ [0xFF])\<rparr>"
  have x: "chip_xfer Dummy_Byte c = (cells c (addr24 ab + length zs), ?c)"
    using Suc.prems by (simp add: chip_xfer_def chip_reply_def addr24_append Dummy_Byte_def)
  obtain r where "rx_loop w25q_port n ?c =
      (map (cells c) [addr24 ab + Suc (length zs)..<addr24 ab + Suc (length zs) + n], ?c\<lparr>rx := 0x03 # r\<rparr>)"
    using Suc.IH [of ?c "zs @ [0xFF]"] Suc.prems by auto
  moreover have "[A..<A + Suc n] = A # [Suc A..<Suc A + n]" for A :: nat
    by (simp add: upt_conv_Cons del: upt_Suc)
  ultimately show ?case using x by (auto simp del: upt_Suc)
qed

lemmas chip_defs = chip_high_def chip_ready_def chip_desel_def Let_def

lemma chip_read_end:
  "chip_high (c\<lparr>rx := 0x03 # r\<rparr>) = c\<lparr>sel := False, rx := []\<rparr>"
  by (simp add: chip_high_def Let_def)

lemma w25q_model: "w25q_chip w25q_port chip_ready chip_desel latch cells"
proof
  fix c
  assume "chip_ready c"
  then show "chip_desel c" "chip_ready (send_frame w25q_port [0x06] c) \<and>
      latch (send_frame w25q_port [0x06] c) \<and> cells (send_frame w25q_port [0x06] c) = cells c"
    by (simp_all add: chip_frame chip_defs)
next
  fix c
  assume "chip_desel c"
  then show "\<exists>n c'. poll_n w25q_port n (snd (xfer w25q_port 0x05 (cs_low w25q_port c))) = Some c' \<and>
      chip_ready (cs_high w25q_port c') \<and> cells (cs_high w25q_port c') = cells c \<and>
      (chip_ready c \<longrightarrow> latch (cs_high w25q_port c') = latch c)"
    using chip_busy_ends by simp
next
  fix c and ab :: "u8 list"
  assume "chip_ready c" "latch c" "length ab = 3"
  then show "chip_desel (send_frame w25q_port (0x20 # ab) c) \<and>
      cells (send_frame w25q_port (0x20 # ab) c) = erase_sector (addr24 ab) (cells c)"
    by (simp add: chip_frame chip_defs)
next
  fix c
  assume "chip_ready c" "latch c"
  then show "chip_desel (send_frame w25q_port [0xC7] c) \<and> cells (send_frame w25q_port [0xC7] c) = (\<lambda>x. 0xFF)"
    by (simp add: chip_frame chip_defs)
next
  fix c and ab bs :: "u8 list"
  assume "chip_ready c" "latch c" "length ab = 3" "length bs \<le> 256"
  then show "chip_desel (send_frame w25q_port (0x02 # ab @ bs) c) \<and>
      cells (send_frame w25q_port (0x02 # ab @ bs) c) = page_program (addr24 ab) bs (cells c)"
    by (auto simp: chip_frame chip_defs addr24_append page_program_def)
next
  fix c n and ab :: "u8 list"
  assume "chip_ready c" "length ab = 3" "addr24 ab + n \<le> flash_size"
  then show "\<exists>c'. rx_loop w25q_port n (tx_loop w25q_port (0x03 # ab) (cs_low w25q_port c)) =
      (map (cells c) [addr24 ab..<addr24 ab + n], c') \<and>
      chip_ready (cs_high w25q_port c') \<and> cells (cs_high w25q_port c') = cells c"
    using chip_rx [of "c\<lparr>sel := True, rx := 0x03 # ab\<rparr>" ab "[]" n]
    by (fastforce simp: chip_read_end chip_ready_def chip_tx chip_low_def simp del: tx_loop.simps)
qed

interpretation w25q: w25q_chip w25q_port chip_ready chip_desel latch cells
  by (rule w25q_model)

lemma blank_ready: "chip_ready blank_chip"
  by (simp add: chip_ready_def blank_chip_def)

lemma same_sector: "a mod 4096 + i < 4096 \<Longrightarrow> (a + i) div 4096 = a div 4096" for a i :: nat
  using div_mod_pair [of "a mod 4096 + i" 4096 "a div 4096" "a + i"] by simp

section \<open>Properties\<close>

text \<open>
  C19: a buffer write stores consecutive bytes. On any chip that behaves as the data sheet says
  and is ready, a write of n bytes at an address whose range ends before the end of the array
  returns, leaves the chip ready, and clears exactly the bits of the n consecutive cells, although
  a page program instruction would wrap inside its 256 byte page.
\<close>

theorem buffer_write_contiguous:
  assumes "w25q_chip p ready desel wel mem" "ready c"
    and "unat a + unat n < flash_size" "unat n \<le> length buf"
  shows "\<exists>c'. SPI_FLASH_BufferWrite p buf a n c = Some c' \<and> ready c' \<and>
    mem c' = program_bytes (unat a) (take (unat n) buf) (mem c)"
  using assms by (rule w25q_chip.buffer_write_ok)

theorem buffer_write_contiguous_witness:
  "\<exists>c'. SPI_FLASH_BufferWrite w25q_port [1, 2, 3, 4, 5] 0x10FE 5 blank_chip = Some c' \<and> chip_ready c' \<and>
     cells c' = program_bytes 0x10FE [1, 2, 3, 4, 5] (\<lambda>x. 0xFF)"
  using buffer_write_contiguous [OF w25q_model blank_ready, where a = "0x10FE" and n = 5 and buf = "[1, 2, 3, 4, 5]"]
  by (simp add: layout blank_chip_def)

text \<open>
  Erase, write, read back. Erasing the sector of an address, writing n bytes that stay in
  that sector and reading them back returns the bytes written, and every call returns.
\<close>

theorem erase_write_read:
  assumes "w25q_chip p ready desel wel mem" "ready c"
    and "unat a + unat n < flash_size" "unat n \<le> length buf"
    and "unat a mod 4096 + unat n \<le> 4096"
  shows "\<exists>c1 c2 c3. SPI_FLASH_SectorErase p a c = Some c1 \<and> SPI_FLASH_BufferWrite p buf a n c1 = Some c2 \<and>
    SPI_FLASH_BufferRead p a n c2 = (take (unat n) buf, c3) \<and> ready c3"
proof -
  have a: "unat a < flash_size" using assms(3) by simp
  obtain c1 where c1: "SPI_FLASH_SectorErase p a c = Some c1" "ready c1"
    "mem c1 = erase_sector (unat a) (mem c)"
    using w25q_chip.sector_erase_ok [OF assms(1,2) a] by blast
  obtain c2 where c2: "SPI_FLASH_BufferWrite p buf a n c1 = Some c2" "ready c2"
    "mem c2 = program_bytes (unat a) (take (unat n) buf) (mem c1)"
    using w25q_chip.buffer_write_ok [OF assms(1) c1(2) assms(3,4)] by blast
  have "map (mem c2) [unat a..<unat a + unat n] = take (unat n) buf"
    using program_erased [of "take (unat n) buf" "mem c1" "unat a"] assms(4,5) c1(3)
    by (simp add: c2(3) erase_sector_def min_absorb2 same_sector)
  with w25q_chip.buffer_read_ok [OF assms(1) c2(2) _ a, of n] assms(3) c1 c2 show ?thesis
    by auto
qed

theorem erase_write_read_witness:
  "\<exists>c1 c2 c3. SPI_FLASH_SectorErase w25q_port 0x2000 blank_chip = Some c1 \<and>
     SPI_FLASH_BufferWrite w25q_port [1, 2, 3] 0x2000 3 c1 = Some c2 \<and>
     SPI_FLASH_BufferRead w25q_port 0x2000 3 c2 = ([1, 2, 3], c3) \<and> chip_ready c3"
  using erase_write_read [OF w25q_model blank_ready, where a = "0x2000" and n = 3 and buf = "[1, 2, 3]"]
  by (simp add: layout)

text \<open>
  What a page write of the driver does: at most 256 bytes, wrapped inside the page of the
  address, whatever the caller asked for.
\<close>

theorem page_write_wraps:
  assumes "w25q_chip p ready desel wel mem" "ready c" "unat a < flash_size" "256 \<le> length buf"
  shows "\<exists>c'. SPI_FLASH_PageWrite p buf a n c = Some c' \<and> ready c' \<and>
    mem c' = page_program (unat a) (take (min 256 (unat n)) buf) (mem c)"
proof (cases "unat n \<le> 256")
  case True
  with w25q_chip.page_write_ok [OF assms(1-3) True] assms(4) show ?thesis by (simp add: min_absorb2)
next
  case False
  then have "SPI_FLASH_PageWrite p buf a n c = SPI_FLASH_PageWrite p buf a 256 c"
    by (simp add: SPI_FLASH_PageWrite_def c_consts word_less_nat_alt)
  with w25q_chip.page_write_ok [OF assms(1-3), of 256 buf] False assms(4) show ?thesis by simp
qed

theorem page_write_wraps_witness:
  "\<exists>c'. SPI_FLASH_PageWrite w25q_port (replicate 300 7) 0x10 300 blank_chip = Some c' \<and> chip_ready c' \<and>
     cells c' = page_program 0x10 (take 256 (replicate 300 7)) (\<lambda>x. 0xFF)"
  using page_write_wraps [OF w25q_model blank_ready, where a = "0x10" and n = 300 and buf = "replicate 300 7"]
  by (simp add: layout blank_chip_def)


text \<open>
  C29: the wait for the end of a write. The loop has no bound of its own; it returns exactly when some
  read of the status register shows the busy bit clear, and then at the first such read, with
  the chip deselected.
\<close>

theorem wait_for_write_end_returns:
  fixes p :: "'c spi_port" and c :: 'c
  defines "st \<equiv> \<lambda>n. ((snd \<circ> xfer p Dummy_Byte) ^^ n) (snd (xfer p W25Q_ReadStatusReg (cs_low p c)))"
  defines "idle \<equiv> \<lambda>n. fst (xfer p Dummy_Byte (st n)) AND WIP_Flag \<noteq> 1"
  shows "SPI_FLASH_WaitForWriteEnd p c =
    (if \<exists>n. idle n then Some (cs_high p (st (Suc (LEAST n. idle n)))) else None)"
proof (cases "\<exists>n. idle n")
  case True
  then have "idle (LEAST n. idle n)" "\<And>m. m < (LEAST n. idle n) \<Longrightarrow> \<not> idle m"
    using LeastI_ex not_less_Least by blast+
  then have "wait_poll p (st 0) = Some (st (Suc (LEAST n. idle n)))"
    using wait_poll_steps [of p "LEAST n. idle n" "st 0"] by (simp add: idle_def st_def)
  with True show ?thesis by (simp add: SPI_FLASH_WaitForWriteEnd_def st_def)
next
  case False
  then have "wait_poll p (st 0) = None"
    using wait_poll_never [of p "st 0"] by (simp add: idle_def st_def)
  with False show ?thesis by (simp add: SPI_FLASH_WaitForWriteEnd_def st_def)
qed

end
