(* ===== verification/Flash_Store.thy ===== *)
theory Flash_Store
  imports Command_Db Spi_Flash
begin

text \<open>
  Persistence of the parameter database: \<open>store_w25q16\<close>,
  \<open>store_w25q16_volume_input_type\<close>, \<open>read_reboot_times\<close> and \<open>read_w25q16\<close> of
  \<open>drivers/inc.c\<close>. The functions use the flash through the three calls of the driver, the
  record \<open>flash_ops\<close>; the locale \<open>nor_flash\<close> is their contract and the driver of
  \<open>Spi_Flash\<close> meets it. The layout in the 2 MB array, in bytes: checksum of copy 1 at
  \<open>0x0\<close>, data from \<open>0x1000\<close>; checksum of copy 2 at \<open>0x4000\<close>, data from \<open>0x5000\<close>;
  volume and input type at \<open>0x11000\<close> and \<open>0x13000\<close> with checksums at \<open>0x10000\<close> and
  \<open>0x12000\<close>; boot counter at \<open>0x60000\<close>.
\<close>

section \<open>The driver interface\<close>

record 'c flash_ops =
  fl_erase :: "u32 \<Rightarrow> 'c \<Rightarrow> 'c option"
  fl_write :: "u8 list \<Rightarrow> u32 \<Rightarrow> u16 \<Rightarrow> 'c \<Rightarrow> 'c option"
  fl_read :: "u32 \<Rightarrow> u16 \<Rightarrow> 'c \<Rightarrow> u8 list \<times> 'c"

definition spi_flash_ops :: "'c spi_port \<Rightarrow> 'c flash_ops" where
  "spi_flash_ops p =
     \<lparr>fl_erase = SPI_FLASH_SectorErase p, fl_write = SPI_FLASH_BufferWrite p,
      fl_read = SPI_FLASH_BufferRead p\<rparr>"

locale nor_flash =
  fixes F :: "'c flash_ops"
    and ready :: "'c \<Rightarrow> bool"
    and mem :: "'c \<Rightarrow> nat \<Rightarrow> u8"
  assumes erase_ok: "\<lbrakk>ready c; unat a < flash_size\<rbrakk> \<Longrightarrow>
      \<exists>c'. fl_erase F a c = Some c' \<and> ready c' \<and> mem c' = erase_sector (unat a) (mem c)"
    and write_ok: "\<lbrakk>ready c; unat a + unat n < flash_size; unat n \<le> length buf\<rbrakk> \<Longrightarrow>
      \<exists>c'. fl_write F buf a n c = Some c' \<and> ready c' \<and>
        mem c' = program_bytes (unat a) (take (unat n) buf) (mem c)"
    and read_ok: "\<lbrakk>ready c; unat a + unat n \<le> flash_size; unat a < flash_size\<rbrakk> \<Longrightarrow>
      \<exists>c'. fl_read F a n c = (map (mem c) [unat a..<unat a + unat n], c') \<and> ready c' \<and> mem c' = mem c"

sublocale w25q_chip \<subseteq> nf: nor_flash "spi_flash_ops p" ready mem
  by unfold_locales
    (simp_all add: spi_flash_ops_def sector_erase_ok buffer_write_ok buffer_read_ok)

section \<open>The code\<close>

definition SPI_CODE_BASE_ADDR :: u32 where [c_consts, layout]: "SPI_CODE_BASE_ADDR = 0x000000"
definition VOLUME_INPUT_BASE_ADDR :: u32 where [c_consts, layout]: "VOLUME_INPUT_BASE_ADDR = 0x10000"
definition REBOOT_TIMES_ADDR :: u32 where [c_consts, layout]: "REBOOT_TIMES_ADDR = 0x060000"
definition SECTOR_NUMBER :: nat where [c_consts, layout]: "SECTOR_NUMBER = 3"
definition INIT_INPUT :: u32 where [c_consts]: "INIT_INPUT = 0x00002105"
definition MIC_INPUT :: u32 where [c_consts]: "MIC_INPUT = 0x00002605"

text \<open>The calls with a \<open>4\<close> byte variable as buffer.\<close>

definition write_word :: "'c flash_ops \<Rightarrow> u32 \<Rightarrow> u32 \<Rightarrow> 'c \<Rightarrow> 'c option" where
  "write_word F w a c = fl_write F (bytes_of (le_bytes w)) a 4 c"

definition read_word :: "'c flash_ops \<Rightarrow> u32 \<Rightarrow> 'c \<Rightarrow> u32 \<times> 'c" where
  "read_word F a c = (case fl_read F a 4 c of (bs, c') \<Rightarrow> (le_word (of_bytes bs), c'))"

fun erase_sectors :: "'c flash_ops \<Rightarrow> u32 list \<Rightarrow> 'c \<Rightarrow> 'c option" where
  "erase_sectors F [] c = Some c"
| "erase_sectors F (a # as) c = (case fl_erase F a c of None \<Rightarrow> None | Some c \<Rightarrow> erase_sectors F as c)"

text \<open>
  The inner loop over one table: \<open>base\<close> is the data address of the copy; offset, checksum and
  chip are threaded through.
\<close>

fun store_table :: "'c flash_ops \<Rightarrow> u32 \<Rightarrow> CmdData list \<Rightarrow> u32 \<times> u32 \<times> 'c \<Rightarrow> (u32 \<times> u32 \<times> 'c) option" where
  "store_table F base [] s = Some s"
| "store_table F base (e # es) (flash_offset, checksum, c) =
     (case write_word F (cd_data e) (base + flash_offset * 4) c of
        None \<Rightarrow> None
      | Some c \<Rightarrow> store_table F base es (flash_offset + 1, checksum + cd_data e, c))"

fun store_tables :: "'c flash_ops \<Rightarrow> u32 \<Rightarrow> cmd_db \<Rightarrow> u32 \<times> u32 \<times> 'c \<Rightarrow> (u32 \<times> u32 \<times> 'c) option" where
  "store_tables F base [] s = Some s"
| "store_tables F base (g # gs) s =
     (case store_table F base (gt_table g) s of None \<Rightarrow> None | Some s \<Rightarrow> store_tables F base gs s)"

text \<open>One copy: erase the checksum sector and the data sectors, write the data, then the checksum
  and read it back (for the debug output).\<close>

definition store_copy :: "'c flash_ops \<Rightarrow> u32 \<Rightarrow> cmd_db \<Rightarrow> 'c \<Rightarrow> 'c option" where
  "store_copy F cs_addr db c =
     (case erase_sectors F (cs_addr # map (\<lambda>i. cs_addr + 0x1000 + word_of_nat i * 0x1000) [0..<SECTOR_NUMBER]) c of
        None \<Rightarrow> None
      | Some c \<Rightarrow>
          (case store_tables F (cs_addr + 0x1000) db (0, 0, c) of
             None \<Rightarrow> None
           | Some (flash_offset, checksum_data, c) \<Rightarrow>
               map_option (\<lambda>c. snd (read_word F cs_addr c)) (write_word F checksum_data cs_addr c)))"

definition store_volume_copy :: "'c flash_ops \<Rightarrow> u32 \<Rightarrow> cmd_db \<Rightarrow> u32 \<Rightarrow> 'c \<Rightarrow> 'c option" where
  "store_volume_copy F cs_addr db g_input_type c =
     (case erase_sectors F [cs_addr, cs_addr + 0x1000] c of
        None \<Rightarrow> None
      | Some c \<Rightarrow>
          let c_data = do_get_data db 1 8
          in case write_word F c_data (cs_addr + 0x1000) c of
               None \<Rightarrow> None
             | Some c \<Rightarrow>
                 (case write_word F g_input_type (cs_addr + 0x1000 + 4) c of
                    None \<Rightarrow> None
                  | Some c \<Rightarrow> write_word F (c_data + g_input_type) cs_addr c))"

definition store_w25q16_volume_input_type :: "'c flash_ops \<Rightarrow> cmd_db \<Rightarrow> u32 \<Rightarrow> 'c \<Rightarrow> 'c option" where
  "store_w25q16_volume_input_type F db g_input_type c =
     (case store_volume_copy F VOLUME_INPUT_BASE_ADDR db g_input_type c of
        None \<Rightarrow> None
      | Some c \<Rightarrow> store_volume_copy F (VOLUME_INPUT_BASE_ADDR + 0x1000 + 0x1000) db g_input_type c)"

definition store_w25q16 :: "'c flash_ops \<Rightarrow> cmd_db \<Rightarrow> u32 \<Rightarrow> 'c \<Rightarrow> 'c option" where
  "store_w25q16 F db g_input_type c =
     (case store_copy F SPI_CODE_BASE_ADDR db c of
        None \<Rightarrow> None
      | Some c \<Rightarrow>
          (case store_copy F (SPI_CODE_BASE_ADDR + 0x1000 + 0x1000 * word_of_nat SECTOR_NUMBER) db c of
             None \<Rightarrow> None
           | Some c \<Rightarrow> store_w25q16_volume_input_type F db g_input_type c))"

definition read_reboot_times :: "'c flash_ops \<Rightarrow> 'c \<Rightarrow> (u32 \<times> 'c) option" where
  "read_reboot_times F c =
     (let (n, c) = read_word F REBOOT_TIMES_ADDR c;
          n = (if n = 0xffffff \<or> n = -1 then 0 else n);
          n = n + 1
      in case fl_erase F REBOOT_TIMES_ADDR c of
           None \<Rightarrow> None
         | Some c \<Rightarrow> map_option (Pair n) (write_word F n REBOOT_TIMES_ADDR c))"

text \<open>The body of the restore loops: blank words are skipped.\<close>

definition restore_value :: "u32 \<Rightarrow> cmd_db \<Rightarrow> cmd_db option" where
  "restore_value value db =
     (if value = 0xffffffff \<or> value = 0 then Some db
      else do_set_cmd_entry (SET_ENTRY_CMD (le_bytes value)) db)"

text \<open>The loop of the equal checksums: every word of the copy, \<open>n\<close> left from word \<open>i\<close>.\<close>

fun restore_loop :: "'c flash_ops \<Rightarrow> u32 \<Rightarrow> nat \<Rightarrow> u32 \<Rightarrow> cmd_db \<times> 'c \<Rightarrow> (cmd_db \<times> 'c) option" where
  "restore_loop F base 0 i s = Some s"
| "restore_loop F base (Suc n) i (db, c) =
     (case read_word F (base + i * 4) c of
        (value, c) \<Rightarrow>
          (case restore_value value db of
             None \<Rightarrow> None
           | Some db \<Rightarrow> restore_loop F base n (i + 1) (db, c)))"

text \<open>
  The loop of the fallback: \<open>goto back1\<close> stands inside the loop, so it stops at the first word
  that is not blank.
\<close>

fun restore_first :: "'c flash_ops \<Rightarrow> u32 \<Rightarrow> nat \<Rightarrow> u32 \<Rightarrow> cmd_db \<times> 'c \<Rightarrow> (bool \<times> cmd_db \<times> 'c) option" where
  "restore_first F base 0 i (db, c) = Some (False, db, c)"
| "restore_first F base (Suc n) i (db, c) =
     (case read_word F (base + i * 4) c of
        (value, c) \<Rightarrow>
          if value = 0xffffffff \<or> value = 0 then restore_first F base n (i + 1) (db, c)
          else map_option (\<lambda>db. (True, db, c)) (do_set_cmd_entry (SET_ENTRY_CMD (le_bytes value)) db))"

fun sum_loop :: "'c flash_ops \<Rightarrow> u32 \<Rightarrow> nat \<Rightarrow> u32 \<Rightarrow> u32 \<times> 'c \<Rightarrow> u32 \<times> 'c" where
  "sum_loop F base 0 i s = s"
| "sum_loop F base (Suc n) i (crc, c) =
     (case read_word F (base + i * 4) c of (v, c) \<Rightarrow> sum_loop F base n (i + 1) (crc + v, c))"

text \<open>The fallback for one copy: the flag is true when \<open>goto back1\<close> was taken.\<close>

definition fallback_copy ::
    "'c flash_ops \<Rightarrow> u32 \<Rightarrow> u32 \<Rightarrow> cmd_db \<times> 'c \<Rightarrow> (bool \<times> cmd_db \<times> 'c) option" where
  "fallback_copy F base checksum s =
     (case s of (db, c) \<Rightarrow>
      case sum_loop F base SPI_CODE_SIZE 0 (0, c) of
        (crc_data, c) \<Rightarrow>
          if checksum = crc_data \<and> checksum \<noteq> 0xffffff
          then restore_first F base SPI_CODE_SIZE 0 (db, c) else Some (False, db, c))"

definition clip_input :: "u32 \<Rightarrow> u32" where
  "clip_input value = (if sint value < sint INIT_INPUT \<or> sint MIC_INPUT < sint value then INIT_INPUT else value)"

text \<open>Restoring volume and input type from one data sector.\<close>

definition restore_volume :: "'c flash_ops \<Rightarrow> u32 \<Rightarrow> cmd_db \<times> 'c \<Rightarrow> (cmd_db \<times> 'c) option" where
  "restore_volume F base s =
     (case s of (db, c) \<Rightarrow>
      case read_word F base c of
        (value, c) \<Rightarrow>
          (case do_set_cmd_entry (SET_ENTRY_CMD (le_bytes value)) db of
             None \<Rightarrow> None
           | Some db \<Rightarrow>
               (case read_word F (base + 4) c of
                  (value, c) \<Rightarrow>
                    map_option (\<lambda>db. (db, c))
                      (do_set_cmd_entry (SET_ENTRY_CMD (le_bytes (clip_input value))) db))))"

definition read_volume_part :: "'c flash_ops \<Rightarrow> cmd_db \<times> 'c \<Rightarrow> (cmd_db \<times> 'c) option" where
  "read_volume_part F s =
     (case s of (db, c) \<Rightarrow>
      let (checksum1, c) = read_word F VOLUME_INPUT_BASE_ADDR c;
          (checksum2, c) = read_word F (VOLUME_INPUT_BASE_ADDR + 0x1000 + 0x1000) c
      in if checksum1 = checksum2 \<and> checksum1 \<noteq> 0xffffffff
         then restore_volume F (VOLUME_INPUT_BASE_ADDR + 0x1000) (db, c)
         else
           (let (crc_data, c) = sum_loop F (VOLUME_INPUT_BASE_ADDR + 0x1000) 2 0 (0, c)
            in if checksum1 = crc_data \<and> checksum1 \<noteq> 0xffffff
               then restore_volume F (VOLUME_INPUT_BASE_ADDR + 0x1000) (db, c)
               else
                 (let (crc_data, c) =
                        sum_loop F (VOLUME_INPUT_BASE_ADDR + 0x1000 + 0x1000 + 0x1000) 2 0 (0, c)
                  in if checksum2 = crc_data \<and> checksum2 \<noteq> 0xffffff
                     then restore_volume F (VOLUME_INPUT_BASE_ADDR + 0x1000 + 0x1000 + 0x1000) (db, c)
                     else Some (db, c))))"

definition read_code_part :: "'c flash_ops \<Rightarrow> cmd_db \<times> 'c \<Rightarrow> (cmd_db \<times> 'c) option" where
  "read_code_part F s =
     (case s of (db, c) \<Rightarrow>
      let copy2 = SPI_CODE_BASE_ADDR + 0x1000 + 0x1000 * word_of_nat SECTOR_NUMBER;
          (checksum1, c) = read_word F SPI_CODE_BASE_ADDR c;
          (checksum2, c) = read_word F copy2 c
      in if checksum1 = checksum2 \<and> checksum1 \<noteq> 0xffffffff
         then restore_loop F (SPI_CODE_BASE_ADDR + 0x1000) SPI_CODE_SIZE 0 (db, c)
         else
           (case fallback_copy F (SPI_CODE_BASE_ADDR + 0x1000) checksum1 (db, c) of
              None \<Rightarrow> None
            | Some (True, s) \<Rightarrow> Some s
            | Some (False, s) \<Rightarrow> map_option snd (fallback_copy F (copy2 + 0x1000) checksum2 s)))"

definition read_w25q16 :: "'c flash_ops \<Rightarrow> cmd_db \<times> 'c \<Rightarrow> (cmd_db \<times> 'c) option" where
  "read_w25q16 F s =
     (case read_code_part F s of None \<Rightarrow> None | Some s \<Rightarrow> read_volume_part F s)"

section \<open>The array as words\<close>

definition words :: "(nat \<Rightarrow> u8) \<Rightarrow> nat \<Rightarrow> u32" where
  "words m i = le_word (of_bytes (map m [4 * i..<4 * i + 4]))"

lemma words_bytes: "words m i = le_word (m (4 * i), m (4 * i + 1), m (4 * i + 2), m (4 * i + 3))"
  by (simp add: words_def of_bytes_def nth_append)

lemma words_cong:
  "m (4 * i) = m' (4 * i) \<Longrightarrow> m (4 * i + 1) = m' (4 * i + 1) \<Longrightarrow> m (4 * i + 2) = m' (4 * i + 2) \<Longrightarrow>
   m (4 * i + 3) = m' (4 * i + 3) \<Longrightarrow> words m i = words m' i"
  by (simp add: words_bytes)

lemma le_word_ones: "le_word (0xFF, 0xFF, 0xFF, 0xFF) = 0xFFFFFFFF"
  by (simp add: le_word_def)

lemma div_sector: "k < 4 \<Longrightarrow> (4 * i + k) div 4096 = i div 1024" for i k :: nat
proof -
  assume "k < 4"
  then have "(4 * i + k) div 4 = i" by simp
  then show ?thesis using div_mult2_eq [of "4 * i + k" 4 1024] by simp
qed

lemma words_erase:
  "words (erase_sector a m) i = (if i div 1024 = a div 4096 then 0xFFFFFFFF else words m i)"
  using div_sector [of 0 i] div_sector [of 1 i] div_sector [of 2 i] div_sector [of 3 i]
  by (simp add: words_bytes erase_sector_def le_word_ones)

lemma erased_bytes:
  assumes "words m i = 0xFFFFFFFF" "k < 4"
  shows "m (4 * i + k) = 0xFF"
proof -
  have "le_bytes (words m i) = (m (4 * i), m (4 * i + 1), m (4 * i + 2), m (4 * i + 3))"
    by (simp add: words_bytes)
  moreover have "le_bytes 0xFFFFFFFF = (0xFF, 0xFF, 0xFF, 0xFF)"
    using arg_cong [OF le_word_ones, of le_bytes] by simp
  ultimately have m: "m (4 * i) = 0xFF" "m (4 * i + 1) = 0xFF" "m (4 * i + 2) = 0xFF"
    "m (4 * i + 3) = 0xFF"
    using assms(1) by simp_all
  consider "k = 0" | "k = 1" | "k = 2" | "k = 3" using assms(2) by linarith
  then show ?thesis using m by cases simp_all
qed

lemma words_program:
  assumes "words m i = 0xFFFFFFFF"
  shows "words (program_bytes (4 * i) (bytes_of (le_bytes w)) m) = (words m)(i := w)"
proof
  fix j
  let ?bs = "bytes_of (le_bytes w)" and ?m = "program_bytes (4 * i) (bytes_of (le_bytes w)) m"
  show "words ?m j = ((words m)(i := w)) j"
  proof (cases "j = i")
    case True
    have "map ?m [4 * i..<4 * i + length ?bs] = ?bs"
      using erased_bytes [OF assms] by (intro program_erased) simp
    then show ?thesis by (simp add: True words_def)
  next
    case False
    then have "4 * j + 3 < 4 * i \<or> 4 * i + 4 \<le> 4 * j" by linarith
    then have "words ?m j = words m j"
      by (intro words_cong; intro program_bytes_other; simp; linarith)
    with False show ?thesis by simp
  qed
qed

definition put_words :: "nat \<Rightarrow> u32 list \<Rightarrow> (nat \<Rightarrow> u32) \<Rightarrow> nat \<Rightarrow> u32" where
  "put_words j ws W = (\<lambda>i. if j \<le> i \<and> i < j + length ws then ws ! (i - j) else W i)"

lemma put_words_Nil [simp]: "put_words j [] W = W"
  unfolding put_words_def fun_eq_iff by auto

lemma put_words_Cons: "put_words j (w # ws) W = put_words (Suc j) ws (W(j := w))"
  unfolding put_words_def fun_eq_iff
  by (auto simp: nth_Cons' not_le)

lemma put_words_append: "put_words j (us @ ws) W = put_words (j + length us) ws (put_words j us W)"
  by (auto simp: put_words_def fun_eq_iff nth_append)

lemma put_words_same: "map (put_words j ws W) [j..<j + length ws] = ws"
  by (rule nth_equalityI) (simp_all add: put_words_def)

lemma put_words_other: "i < j \<or> j + length ws \<le> i \<Longrightarrow> put_words j ws W i = W i"
  by (auto simp: put_words_def)

definition erase_words :: "nat \<Rightarrow> (nat \<Rightarrow> u32) \<Rightarrow> nat \<Rightarrow> u32" where
  "erase_words s W = (\<lambda>i. if i div 1024 = s then 0xFFFFFFFF else W i)"

lemma words_erase_sector: "words (erase_sector (4096 * s) m) = erase_words s (words m)"
  by (rule ext) (simp add: words_erase erase_words_def)

definition db_words :: "cmd_db \<Rightarrow> u32 list" where
  "db_words db = concat (map (map cd_data \<circ> gt_table) db)"

section \<open>What the driver calls do to words\<close>

context nor_flash
begin

lemma erase_words_ok:
  assumes "ready c" "unat a = 4096 * s" "s < 512"
  shows "\<exists>c'. fl_erase F a c = Some c' \<and> ready c' \<and> words (mem c') = erase_words s (words (mem c))"
proof -
  have "unat a < flash_size" using assms(2,3) by (simp add: layout)
  from erase_ok [OF assms(1) this] assms(2) show ?thesis
    by (auto simp: words_erase_sector)
qed

lemma write_word_ok:
  assumes "ready c" "unat a = 4 * i" "i < 524287" "words (mem c) i = 0xFFFFFFFF"
  shows "\<exists>c'. write_word F w a c = Some c' \<and> ready c' \<and> words (mem c') = (words (mem c))(i := w)"
proof -
  have "unat a + unat (4 :: u16) < flash_size" using assms(2,3) by (simp add: layout)
  from write_ok [OF assms(1) this, of "bytes_of (le_bytes w)"] assms(2) words_program [OF assms(4)]
  show ?thesis by (auto simp: write_word_def)
qed

lemma read_word_ok:
  assumes "ready c" "unat a = 4 * i" "i < 524287"
  shows "\<exists>c'. read_word F a c = (words (mem c) i, c') \<and> ready c' \<and> mem c' = mem c"
proof -
  have "unat a + unat (4 :: u16) \<le> flash_size" "unat a < flash_size"
    using assms(2,3) by (simp_all add: layout)
  from read_ok [OF assms(1) this] assms(2) show ?thesis
    by (auto simp: read_word_def words_def)
qed

lemma store_table_ok:
  assumes "ready c" "unat base = 4 * b" "b + unat off + length tb < 524287"
    and "\<forall>i. b + unat off \<le> i \<and> i < b + unat off + length tb \<longrightarrow> words (mem c) i = 0xFFFFFFFF"
  shows "\<exists>c' off'. store_table F base tb (off, crc, c) = Some (off', crc + sum_list (map cd_data tb), c') \<and>
    ready c' \<and> unat off' = unat off + length tb \<and>
    words (mem c') = put_words (b + unat off) (map cd_data tb) (words (mem c))"
  using assms
proof (induction tb arbitrary: off crc c)
  case Nil
  then show ?case by simp
next
  case (Cons e es)
  have o1: "unat (off + 1) = unat off + 1"
    using Cons.prems(3) by (subst unat_add_small) simp_all
  have "unat (off * 4) = unat off * 4"
    using Cons.prems(3) by (subst unat_mult_lem [THEN iffD1]) simp_all
  then have a: "unat (base + off * 4) = 4 * (b + unat off)"
    using Cons.prems(2,3) by (subst unat_add_small) simp_all
  obtain c1 where c1: "write_word F (cd_data e) (base + off * 4) c = Some c1" "ready c1"
    "words (mem c1) = (words (mem c))(b + unat off := cd_data e)"
    using write_word_ok [OF Cons.prems(1) a] Cons.prems(3,4) by auto
  have "\<forall>i. b + unat (off + 1) \<le> i \<and> i < b + unat (off + 1) + length es \<longrightarrow> words (mem c1) i = 0xFFFFFFFF"
    using Cons.prems(4) c1(3) o1 by simp
  from Cons.IH [OF c1(2) Cons.prems(2) _ this, of "crc + cd_data e"] Cons.prems(3) o1
  obtain c' off' where "store_table F base es (off + 1, crc + cd_data e, c1)
      = Some (off', crc + cd_data e + sum_list (map cd_data es), c')" "ready c'"
    "unat off' = unat off + 1 + length es"
    "words (mem c') = put_words (b + unat off + 1) (map cd_data es) (words (mem c1))"
    by (auto simp: add.assoc)
  with c1 show ?case by (simp add: put_words_Cons add.assoc)
qed

lemma store_tables_ok:
  assumes "ready c" "unat base = 4 * b" "b + unat off + length (db_words db) < 524287"
    and "\<forall>i. b + unat off \<le> i \<and> i < b + unat off + length (db_words db) \<longrightarrow> words (mem c) i = 0xFFFFFFFF"
  shows "\<exists>c' off'. store_tables F base db (off, crc, c) = Some (off', crc + sum_list (db_words db), c') \<and>
    ready c' \<and> words (mem c') = put_words (b + unat off) (db_words db) (words (mem c))"
  using assms
proof (induction db arbitrary: off crc c)
  case Nil
  then show ?case by (simp add: db_words_def)
next
  case (Cons g gs)
  have w: "db_words (g # gs) = map cd_data (gt_table g) @ db_words gs" by (simp add: db_words_def)
  obtain c1 off1 where c1: "store_table F base (gt_table g) (off, crc, c)
      = Some (off1, crc + sum_list (map cd_data (gt_table g)), c1)" "ready c1"
    "unat off1 = unat off + length (gt_table g)"
    "words (mem c1) = put_words (b + unat off) (map cd_data (gt_table g)) (words (mem c))"
    using store_table_ok [OF Cons.prems(1,2), of off "gt_table g" crc] Cons.prems(3,4) w by auto
  have "\<forall>i. b + unat off1 \<le> i \<and> i < b + unat off1 + length (db_words gs) \<longrightarrow> words (mem c1) i = 0xFFFFFFFF"
    using Cons.prems(4) c1(3,4) w by (simp add: put_words_other)
  from Cons.IH [OF c1(2) Cons.prems(2) _ this, of "crc + sum_list (map cd_data (gt_table g))"]
    Cons.prems(3) c1(3) w
  obtain c' off' where "store_tables F base gs (off1, crc + sum_list (map cd_data (gt_table g)), c1)
      = Some (off', crc + sum_list (map cd_data (gt_table g)) + sum_list (db_words gs), c')" "ready c'"
    "words (mem c') = put_words (b + unat off1) (db_words gs) (words (mem c1))"
    by auto
  with c1 w show ?case by (simp add: put_words_append add.assoc)
qed

text \<open>The contents of one copy, from sector \<open>s\<close>: checksum, data, the rest erased.\<close>

lemma erase_list_ok:
  assumes "ready c" "list_all2 (\<lambda>a s. unat a = 4096 * s \<and> s < 512) as ss"
  shows "\<exists>c'. erase_sectors F as c = Some c' \<and> ready c' \<and>
    words (mem c') = (\<lambda>i. if i div 1024 \<in> set ss then 0xFFFFFFFF else words (mem c) i)"
  using assms(2,1)
proof (induction as ss arbitrary: c rule: list_all2_induct)
  case Nil
  then show ?case by simp
next
  case (Cons a as s ss)
  obtain c1 where c1: "fl_erase F a c = Some c1" "ready c1"
    "words (mem c1) = erase_words s (words (mem c))"
    using erase_words_ok [OF Cons.prems, of a s] Cons.hyps(1) by blast
  obtain c' where c': "erase_sectors F as c1 = Some c'" "ready c'"
    "words (mem c') = (\<lambda>i. if i div 1024 \<in> set ss then 0xFFFFFFFF else words (mem c1) i)"
    using Cons.IH [OF c1(2)] by blast
  have "words (mem c') = (\<lambda>i. if i div 1024 \<in> set (s # ss) then 0xFFFFFFFF else words (mem c) i)"
    unfolding c'(3) c1(3) by (auto simp: erase_words_def)
  with c1 c' show ?case by simp
qed

end

lemma unat_sector:
  fixes cs :: u32
  assumes "unat cs = 4096 * s" "s + k < 512"
  shows "unat (cs + 0x1000 * word_of_nat k) = 4096 * (s + k)"
proof -
  have "unat (0x1000 * word_of_nat k :: u32) = 4096 * k"
    using assms(2) by (subst unat_mult_lem [THEN iffD1]) (simp_all add: unat_of_nat)
  then show ?thesis using assms by (subst unat_add_small) simp_all
qed

definition copy_image :: "nat \<Rightarrow> u32 list \<Rightarrow> (nat \<Rightarrow> u32) \<Rightarrow> nat \<Rightarrow> u32" where
  "copy_image s ws W = (\<lambda>i. if i div 1024 \<in> {s, s + 1, s + 2, s + 3} then
      (if i = 1024 * s then sum_list ws
       else if 1024 * (s + 1) \<le> i \<and> i < 1024 * (s + 1) + length ws then ws ! (i - 1024 * (s + 1))
       else 0xFFFFFFFF)
     else W i)"

definition volume_image :: "nat \<Rightarrow> u32 \<Rightarrow> u32 \<Rightarrow> (nat \<Rightarrow> u32) \<Rightarrow> nat \<Rightarrow> u32" where
  "volume_image s v g W = (\<lambda>i. if i div 1024 \<in> {s, s + 1} then
      (if i = 1024 * s then v + g else if i = 1024 * (s + 1) then v
       else if i = 1024 * (s + 1) + 1 then g else 0xFFFFFFFF)
     else W i)"

lemma data_sectors:
  fixes i s :: nat
  assumes "1024 * (s + 1) \<le> i" "i < 1024 * (s + 1) + SPI_CODE_SIZE"
  shows "i div 1024 \<in> {s + 1, s + 2, s + 3}"
proof -
  from assms(1) obtain r where r: "i = 1024 * (s + 1) + r" using le_iff_add by blast
  with assms(2) have "r div 1024 \<le> 2" by (simp add: SPI_CODE_SIZE_eq)
  then have "r div 1024 \<in> {0, 1, 2}" by auto
  moreover have "i div 1024 = s + 1 + r div 1024"
    unfolding r by (simp add: div_mult_self4)
  ultimately show ?thesis by auto
qed

context nor_flash
begin

lemma store_copy_ok:
  assumes "ready c" "unat cs = 4096 * s" "s + 4 < 512" "length (db_words db) = SPI_CODE_SIZE"
  shows "\<exists>c'. store_copy F cs db c = Some c' \<and> ready c' \<and>
    words (mem c') = copy_image s (db_words db) (words (mem c))"
proof -
  let ?as = "cs # map (\<lambda>i. cs + 0x1000 + word_of_nat i * 0x1000) [0..<SECTOR_NUMBER]"
  have u: "unat (cs + 0x1000) = 4096 * (s + 1)" "unat (cs + 0x2000) = 4096 * (s + 2)"
    "unat (cs + 0x3000) = 4096 * (s + 3)"
    using unat_sector [OF assms(2), of 1] unat_sector [OF assms(2), of 2]
      unat_sector [OF assms(2), of 3] assms(3) by simp_all
  have as: "?as = [cs, cs + 0x1000, cs + 0x2000, cs + 0x3000]"
    by (simp add: SECTOR_NUMBER_def upt_rec)
  obtain c1 where c1: "erase_sectors F ?as c = Some c1" "ready c1"
    "words (mem c1) = (\<lambda>i. if i div 1024 \<in> {s, s + 1, s + 2, s + 3} then 0xFFFFFFFF else words (mem c) i)"
    using erase_list_ok [OF assms(1), of ?as "[s, s + 1, s + 2, s + 3]"] assms(2,3) u as by auto
  have er: "words (mem c1) i = 0xFFFFFFFF" if "1024 * (s + 1) \<le> i" "i < 1024 * (s + 1) + SPI_CODE_SIZE" for i
    using data_sectors [OF that] by (auto simp: c1(3))
  have b: "unat (cs + 0x1000) = 4 * (1024 * (s + 1))" using u(1) by simp
  obtain c2 off where c2: "store_tables F (cs + 0x1000) db (0, 0, c1) = Some (off, sum_list (db_words db), c2)"
    "ready c2" "words (mem c2) = put_words (1024 * (s + 1)) (db_words db) (words (mem c1))"
    using store_tables_ok [OF c1(2) b, of 0 db 0] er assms(3,4) by (auto simp: SPI_CODE_SIZE_eq)
  have i: "unat cs = 4 * (1024 * s)" "1024 * s < 524287" using assms(2,3) by simp_all
  have "words (mem c2) (1024 * s) = 0xFFFFFFFF"
    unfolding c2(3) by (simp add: put_words_other c1(3))
  then obtain c3 where c3: "write_word F (sum_list (db_words db)) cs c2 = Some c3" "ready c3"
    "words (mem c3) = (words (mem c2))(1024 * s := sum_list (db_words db))"
    using write_word_ok [OF c2(2) i] by blast
  obtain c4 where c4: "snd (read_word F cs c3) = c4" "ready c4" "mem c4 = mem c3"
    using read_word_ok [OF c3(2) i] by auto
  have "words (mem c4) = copy_image s (db_words db) (words (mem c))"
    unfolding c4(3) c3(3) c2(3)
  proof
    fix i
    show "((put_words (1024 * (s + 1)) (db_words db) (words (mem c1)))(1024 * s := sum_list (db_words db))) i
        = copy_image s (db_words db) (words (mem c)) i"
    proof (cases "1024 * (s + 1) \<le> i \<and> i < 1024 * (s + 1) + SPI_CODE_SIZE")
      case True
      then have "i div 1024 \<in> {s, s + 1, s + 2, s + 3}" using data_sectors [of s i] by auto
      with True assms(4) show ?thesis by (auto simp: copy_image_def put_words_def)
    next
      case False
      with assms(4) show ?thesis by (auto simp: copy_image_def put_words_def c1(3))
    qed
  qed
  with c1 c2 c3 c4 show ?thesis by (simp add: store_copy_def)
qed

lemma store_volume_copy_ok:
  assumes "ready c" "unat cs = 4096 * s" "s + 2 < 512"
  shows "\<exists>c'. store_volume_copy F cs db g c = Some c' \<and> ready c' \<and>
    words (mem c') = volume_image s (do_get_data db 1 8) g (words (mem c))"
proof -
  let ?v = "do_get_data db 1 8"
  have u: "unat (cs + 0x1000) = 4096 * (s + 1)"
    using unat_sector [OF assms(2), of 1] assms(3) by simp
  have a: "unat cs = 4 * (1024 * s)" "unat (cs + 0x1000) = 4 * (1024 * (s + 1))"
    "unat (cs + 0x1000 + 4) = 4 * (1024 * (s + 1) + 1)"
    using assms u by (simp_all add: unat_add_small)
  have lt: "1024 * s < 524287" "1024 * (s + 1) < 524287" "1024 * (s + 1) + 1 < 524287"
    using assms(3) by simp_all
  have d: "(1024 * (s + 1) + 1) div 1024 = s + 1" by (rule div_nat_eqI) simp_all
  obtain c1 where c1: "erase_sectors F [cs, cs + 0x1000] c = Some c1" "ready c1"
    "words (mem c1) = (\<lambda>i. if i div 1024 \<in> {s, s + 1} then 0xFFFFFFFF else words (mem c) i)"
    using erase_list_ok [OF assms(1), of "[cs, cs + 0x1000]" "[s, s + 1]"] assms(2,3) u by auto
  obtain c2 where c2: "write_word F ?v (cs + 0x1000) c1 = Some c2" "ready c2"
    "words (mem c2) = (words (mem c1))(1024 * (s + 1) := ?v)"
    using write_word_ok [OF c1(2) a(2) lt(2), of ?v] by (auto simp: c1(3))
  have "words (mem c2) (1024 * (s + 1) + 1) = 0xFFFFFFFF" using d by (simp add: c2(3) c1(3))
  then obtain c3 where c3: "write_word F g (cs + 0x1000 + 4) c2 = Some c3" "ready c3"
    "words (mem c3) = (words (mem c2))(1024 * (s + 1) + 1 := g)"
    using write_word_ok [OF c2(2) a(3) lt(3), of g] by auto
  have "words (mem c3) (1024 * s) = 0xFFFFFFFF" by (simp add: c3(3) c2(3) c1(3))
  then obtain c4 where c4: "write_word F (?v + g) cs c3 = Some c4" "ready c4"
    "words (mem c4) = (words (mem c3))(1024 * s := ?v + g)"
    using write_word_ok [OF c3(2) a(1) lt(1), of "?v + g"] by auto
  have "words (mem c4) = volume_image s ?v g (words (mem c))"
    unfolding c4(3) c3(3) c2(3) c1(3) volume_image_def using d by (auto simp: fun_eq_iff)
  with c1 c2 c3 c4 show ?thesis by (simp add: store_volume_copy_def Let_def)
qed

text \<open>The whole array after a store.\<close>

lemma store_ok:
  assumes "ready c" "length (db_words db) = SPI_CODE_SIZE"
  shows "\<exists>c'. store_w25q16 F db g c = Some c' \<and> ready c' \<and>
    words (mem c') = volume_image 18 (do_get_data db 1 8) g (volume_image 16 (do_get_data db 1 8) g
      (copy_image 4 (db_words db) (copy_image 0 (db_words db) (words (mem c)))))"
proof -
  have u: "unat SPI_CODE_BASE_ADDR = 4096 * 0"
    "unat (SPI_CODE_BASE_ADDR + 0x1000 + 0x1000 * word_of_nat SECTOR_NUMBER) = 4096 * 4"
    "unat VOLUME_INPUT_BASE_ADDR = 4096 * 16"
    "unat (VOLUME_INPUT_BASE_ADDR + 0x1000 + 0x1000) = 4096 * 18"
    by (simp_all add: layout)
  obtain c1 where c1: "store_copy F SPI_CODE_BASE_ADDR db c = Some c1" "ready c1"
    "words (mem c1) = copy_image 0 (db_words db) (words (mem c))"
    using store_copy_ok [OF assms(1) u(1) _ assms(2)] by auto
  obtain c2 where c2: "store_copy F (SPI_CODE_BASE_ADDR + 0x1000 + 0x1000 * word_of_nat SECTOR_NUMBER) db c1
      = Some c2" "ready c2" "words (mem c2) = copy_image 4 (db_words db) (words (mem c1))"
    using store_copy_ok [OF c1(2) u(2) _ assms(2)] by auto
  obtain c3 where c3: "store_volume_copy F VOLUME_INPUT_BASE_ADDR db g c2 = Some c3" "ready c3"
    "words (mem c3) = volume_image 16 (do_get_data db 1 8) g (words (mem c2))"
    using store_volume_copy_ok [OF c2(2) u(3)] by auto
  obtain c4 where c4: "store_volume_copy F (VOLUME_INPUT_BASE_ADDR + 0x1000 + 0x1000) db g c3 = Some c4"
    "ready c4" "words (mem c4) = volume_image 18 (do_get_data db 1 8) g (words (mem c3))"
    using store_volume_copy_ok [OF c3(2) u(4)] by auto
  from c1 c2 c3 c4 show ?thesis
    by (simp add: store_w25q16_def store_w25q16_volume_input_type_def)
qed

end

section \<open>Reading back\<close>

fun restore_list :: "u32 list \<Rightarrow> cmd_db \<Rightarrow> cmd_db option" where
  "restore_list [] db = Some db"
| "restore_list (w # ws) db = (case restore_value w db of None \<Rightarrow> None | Some db \<Rightarrow> restore_list ws db)"

lemma restore_list_append:
  "restore_list (us @ ws) db = (case restore_list us db of None \<Rightarrow> None | Some db \<Rightarrow> restore_list ws db)"
  by (induction us arbitrary: db) (simp_all split: option.splits)

lemma unat_word_addr:
  fixes base i :: u32
  assumes "unat base = 4 * b" "b + unat i < 524287"
  shows "unat (base + i * 4) = 4 * (b + unat i)"
proof -
  have "unat (i * 4) = unat i * 4" using assms(2) by (subst unat_mult_lem [THEN iffD1]) simp_all
  then show ?thesis using assms by (subst unat_add_small) simp_all
qed

lemma unat_succ: "unat (i :: u32) < 524287 \<Longrightarrow> unat (i + 1) = unat i + 1"
  by (subst unat_add_small) simp_all

fun word_list :: "(nat \<Rightarrow> u32) \<Rightarrow> nat \<Rightarrow> nat \<Rightarrow> u32 list" where
  "word_list W j 0 = []"
| "word_list W j (Suc n) = W j # word_list W (Suc j) n"

lemma word_list_cong: "(\<And>i. j \<le> i \<Longrightarrow> i < j + n \<Longrightarrow> W' i = W i) \<Longrightarrow> word_list W' j n = word_list W j n"
  by (induction n arbitrary: j) simp_all

lemma word_list_eq: "(\<And>k. k < length ws \<Longrightarrow> W (j + k) = ws ! k) \<Longrightarrow> word_list W j (length ws) = ws"
proof (induction ws arbitrary: j)
  case (Cons w ws)
  have "word_list W (Suc j) (length ws) = ws"
    using Cons.prems [of "Suc k" for k] by (intro Cons.IH) simp
  with Cons.prems [of 0] show ?case by simp
qed simp

context nor_flash
begin

lemma restore_loop_ok:
  assumes "ready c" "unat base = 4 * b" "b + unat i + n < 524287"
  shows "\<exists>c'. restore_loop F base n i (db, c) =
      map_option (\<lambda>db. (db, c')) (restore_list (word_list (words (mem c)) (b + unat i) n) db) \<and>
    ready c' \<and> mem c' = mem c"
  using assms
proof (induction n arbitrary: i db c)
  case 0
  then show ?case by auto
next
  case (Suc n)
  have a: "unat (base + i * 4) = 4 * (b + unat i)" "unat (i + 1) = unat i + 1"
    using Suc.prems(2,3) by (simp_all add: unat_word_addr unat_succ)
  obtain c1 where c1: "read_word F (base + i * 4) c = (words (mem c) (b + unat i), c1)" "ready c1"
    "mem c1 = mem c"
    using read_word_ok [OF Suc.prems(1) a(1)] Suc.prems(3) by auto
  show ?case
  proof (cases "restore_value (words (mem c) (b + unat i)) db")
    case None
    with c1 show ?thesis by (auto)
  next
    case (Some db1)
    obtain c' where "restore_loop F base n (i + 1) (db1, c1) = map_option (\<lambda>db. (db, c'))
        (restore_list (word_list (words (mem c)) (Suc (b + unat i)) n) db1)"
      "ready c'" "mem c' = mem c"
      using Suc.IH [OF c1(2) Suc.prems(2), of "i + 1" db1] Suc.prems(3) a(2) c1(3) by auto
    with c1 Some show ?thesis by (auto)
  qed
qed

lemma sum_loop_ok:
  assumes "ready c" "unat base = 4 * b" "b + unat i + n < 524287"
  shows "\<exists>c'. sum_loop F base n i (crc, c) =
      (crc + sum_list (word_list (words (mem c)) (b + unat i) n), c') \<and>
    ready c' \<and> mem c' = mem c"
  using assms
proof (induction n arbitrary: i crc c)
  case 0
  then show ?case by auto
next
  case (Suc n)
  have a: "unat (base + i * 4) = 4 * (b + unat i)" "unat (i + 1) = unat i + 1"
    using Suc.prems(2,3) by (simp_all add: unat_word_addr unat_succ)
  obtain c1 where c1: "read_word F (base + i * 4) c = (words (mem c) (b + unat i), c1)" "ready c1"
    "mem c1 = mem c"
    using read_word_ok [OF Suc.prems(1) a(1)] Suc.prems(3) by auto
  obtain c' where "sum_loop F base n (i + 1) (crc + words (mem c) (b + unat i), c1) =
      (crc + words (mem c) (b + unat i)
        + sum_list (word_list (words (mem c)) (Suc (b + unat i)) n), c')"
    "ready c'" "mem c' = mem c"
    using Suc.IH [OF c1(2) Suc.prems(2), of "i + 1" "crc + words (mem c) (b + unat i)"] Suc.prems(3) a(2) c1(3)
    by auto
  with c1 show ?case by (auto simp: add.assoc)
qed

lemma restore_first_ok:
  assumes "ready c" "unat base = 4 * b" "b + unat i + n < 524287"
  shows "\<exists>c'. restore_first F base n i (db, c) =
      (case dropWhile (\<lambda>w. w = 0xffffffff \<or> w = 0) (word_list (words (mem c)) (b + unat i) n) of
         [] \<Rightarrow> Some (False, db, c')
       | w # _ \<Rightarrow> map_option (\<lambda>db. (True, db, c')) (do_set_cmd_entry (SET_ENTRY_CMD (le_bytes w)) db)) \<and>
    ready c' \<and> mem c' = mem c"
  using assms
proof (induction n arbitrary: i c)
  case 0
  then show ?case by auto
next
  case (Suc n)
  have a: "unat (base + i * 4) = 4 * (b + unat i)" "unat (i + 1) = unat i + 1"
    using Suc.prems(2,3) by (simp_all add: unat_word_addr unat_succ)
  obtain c1 where c1: "read_word F (base + i * 4) c = (words (mem c) (b + unat i), c1)" "ready c1"
    "mem c1 = mem c"
    using read_word_ok [OF Suc.prems(1) a(1)] Suc.prems(3) by auto
  with Suc.IH [OF c1(2) Suc.prems(2), of "i + 1"] Suc.prems(3) a(2) show ?case
    by (auto)
qed

end

section \<open>Replaying stored words rebuilds the tables\<close>

abbreviation group_keys :: "u32 list" where
  "group_keys \<equiv> [1, 2, 3, 4, 5, 6, 7, 8, 11, 13, 14, 15]"

lemma decode_ones: "decode_cmd (le_bytes 0xffffffff)
    = Some \<lparr>op = 3, key = 15, mtype = 31, param1 = 31, param2 = 255, param3 = 255\<rparr>"
  by (simp add: decode_cmd_eq le_bytes_def)

lemma index_ones: "get_cmd_index 15 31 = CMD_DATA_INDEX_INVALID"
  by (simp add: get_cmd_index_def get_cmd_desc_s_def freq_div_cmd_desc_def c_consts)

lemma entry_not_blank:
  assumes "entry_ok k e"
  shows "cd_data e \<noteq> 0" "cd_data e \<noteq> 0xffffffff"
proof -
  have "decode_cmd (le_bytes 0) = None" by (simp add: decode_cmd_eq le_bytes_def)
  with assms show "cd_data e \<noteq> 0" by (auto simp: entry_ok_def)
  from assms show "cd_data e \<noteq> 0xffffffff" by (auto simp: entry_ok_def decode_ones index_ones)
qed

lemma do_add_cmd_row:
  assumes "map gt_key db = group_keys" "i < length db" "entry_ok (gt_key (db ! i)) e"
  shows "do_add_cmd (le_bytes (cd_data e)) db =
    (case table_add (cd_id e) (cd_data e) (gt_table (db ! i)) of
       None \<Rightarrow> Some (-1, db)
     | Some tb \<Rightarrow> Some (0, db[i := (db ! i)\<lparr>gt_table := tb\<rparr>]))"
proof -
  from assms(3) obtain m where m: "decode_cmd (le_bytes (cd_data e)) = Some m" "key m = gt_key (db ! i)"
    "cd_id e = get_cmd_id m" "get_cmd_index (key m) (mtype m) \<noteq> CMD_DATA_INDEX_INVALID"
    by (auto simp: entry_ok_def split: option.splits)
  have "get_table_name db (key m) = Some i"
    using get_table_name_key [OF assms(1)] assms(2) m(2) by simp
  with m get_cmd_id_nonneg [OF decode_cmd_in_range [OF m(1)]] encode_decode [OF m(1)] show ?thesis
    by (simp add: do_add_cmd_eq do_add_cmd_msg_def Let_def)
qed

lemma restore_entry:
  assumes "map gt_key db = group_keys" "i < length db" "entry_ok (gt_key (db ! i)) e"
    and "table_add (cd_id e) (cd_data e) (gt_table (db ! i)) = Some tb"
  shows "restore_value (cd_data e) db = Some (db[i := (db ! i)\<lparr>gt_table := tb\<rparr>])"
  using do_add_cmd_row [OF assms(1-3)] entry_not_blank [OF assms(3)] assms(4)
  by (simp add: restore_value_def do_set_cmd_entry_def)

lemma restore_used:
  assumes "map gt_key db = group_keys" "i < length db" "\<forall>e \<in> set es. entry_ok (gt_key (db ! i)) e"
    and "table.add_all (map (\<lambda>e. (cd_id e, cd_data e)) es) (gt_table (db ! i)) = Some tb"
  shows "restore_list (map cd_data es) db = Some (db[i := (db ! i)\<lparr>gt_table := tb\<rparr>])"
  using assms
proof (induction es arbitrary: db)
  case Nil
  then have "(db ! i)\<lparr>gt_table := tb\<rparr> = db ! i" by (cases "db ! i") simp
  then show ?case by simp
next
  case (Cons e es)
  from Cons.prems(4) obtain t where
    t: "table_add (cd_id e) (cd_data e) (gt_table (db ! i)) = Some t"
      "table.add_all (map (\<lambda>e. (cd_id e, cd_data e)) es) t = Some tb"
    by (auto split: option.splits)
  let ?db = "db[i := (db ! i)\<lparr>gt_table := t\<rparr>]"
  have r: "restore_value (cd_data e) db = Some ?db"
    using Cons.prems(1-3) t(1) by (intro restore_entry) auto
  have "map gt_key ?db = map gt_key db"
    using Cons.prems(2) by (auto simp: list_eq_iff_nth_eq nth_list_update)
  then have "restore_list (map cd_data es) ?db = Some (?db[i := (?db ! i)\<lparr>gt_table := tb\<rparr>])"
    using Cons.prems t(2) by (intro Cons.IH) simp_all
  with r Cons.prems(2) show ?case by simp
qed

lemma restore_zeros: "restore_list (replicate n 0) db = Some db"
  by (induction n) (simp_all add: restore_value_def)

lemma restore_table:
  assumes "map gt_key db = group_keys" "i < length db" "table_ok tb"
    and "\<forall>e \<in> set (used tb). entry_ok (gt_key (db ! i)) e"
    and "gt_table (db ! i) = replicate (length tb) zero_entry"
  shows "restore_list (map cd_data tb) db = Some (db[i := (db ! i)\<lparr>gt_table := tb\<rparr>])"
proof -
  have "map cd_data tb = map cd_data (used tb) @ replicate (length tb - length (used tb)) 0"
    using arg_cong [OF table_ok_split [OF assms(3)], of "map cd_data"]
    by (simp add: zero_entry_def)
  moreover have "restore_list (map cd_data (used tb)) db = Some (db[i := (db ! i)\<lparr>gt_table := tb\<rparr>])"
    using assms table_rebuild [OF assms(3)] by (intro restore_used) simp_all
  ultimately show ?thesis by (simp add: restore_list_append restore_zeros)
qed

definition zeroed :: "GroupAndTableStru \<Rightarrow> GroupAndTableStru" where
  "zeroed g = g\<lparr>gt_table := replicate (length (gt_table g)) zero_entry\<rparr>"

lemma restore_groups:
  assumes "map gt_key (ds @ gs) = group_keys"
    and "\<forall>g \<in> set gs. table_ok (gt_table g) \<and> (\<forall>e \<in> set (used (gt_table g)). entry_ok (gt_key g) e)"
  shows "restore_list (db_words gs) (ds @ map zeroed gs) = Some (ds @ gs)"
  using assms
proof (induction gs arbitrary: ds)
  case Nil
  then show ?case by (simp add: db_words_def)
next
  case (Cons g gs)
  let ?db = "ds @ zeroed g # map zeroed gs"
  have k: "gt_key (zeroed g) = gt_key g" for g by (simp add: zeroed_def)
  have "restore_list (map cd_data (gt_table g)) ?db
      = Some (?db[length ds := (?db ! length ds)\<lparr>gt_table := gt_table g\<rparr>])"
    using Cons.prems by (intro restore_table) (simp_all add: k comp_def zeroed_def)
  moreover have "(zeroed g)\<lparr>gt_table := gt_table g\<rparr> = g" by (simp add: zeroed_def)
  moreover have "restore_list (db_words gs) ((ds @ [g]) @ map zeroed gs) = Some ((ds @ [g]) @ gs)"
    using Cons.prems by (intro Cons.IH) simp_all
  ultimately show ?case
    by (simp add: db_words_def restore_list_append)
qed

lemma db_init_zeroed:
  assumes "db_ok db"
  shows "group_table_init = map zeroed db"
proof -
  have s: "group_sizes = map (\<lambda>g. (gt_key g, length (gt_table g))) db" using assms by (simp add: db_ok_def)
  have "zeroed g = \<lparr>gt_key = gt_key g, gt_table = replicate (length (gt_table g)) zero_entry\<rparr>" for g
    by (cases g) (simp add: zeroed_def)
  then show ?thesis unfolding group_table_init_def s by simp
qed

lemma db_rebuild: "db_ok db \<Longrightarrow> restore_list (db_words db) group_table_init = Some db"
  using restore_groups [of "[]" db] db_ok_keys [of db] db_init_zeroed [of db]
  by (simp add: db_ok_def)

lemma db_words_length:
  assumes "db_ok db"
  shows "length (db_words db) = SPI_CODE_SIZE"
proof -
  have "length (db_words db) = sum_list (map snd (map (\<lambda>g. (gt_key g, length (gt_table g))) db))"
    by (simp add: db_words_def length_concat comp_def)
  also have "map (\<lambda>g. (gt_key g, length (gt_table g))) db = group_sizes" using assms by (simp add: db_ok_def)
  also have "sum_list (map snd group_sizes) = SPI_CODE_SIZE"
    by (simp add: group_sizes_def SPI_CODE_SIZE_def)
  finally show ?thesis .
qed

lemma table_add_same: "table_find i tb = Some d \<Longrightarrow> table_add i d tb = Some tb"
  by (induction tb) (auto split: if_splits)

lemma do_set_same:
  assumes "db_ok db"
  shows "do_set_cmd_entry (SET_ENTRY_CMD (le_bytes (do_get_data db 1 8))) db = Some db"
proof -
  have ix: "get_cmd_index 1 8 \<noteq> CMD_DATA_INDEX_INVALID"
    by (simp add: get_cmd_index_def get_cmd_desc_s_def general_cmd_desc_def c_consts)
  let ?q = "zero_msg\<lparr>key := 1, mtype := 8\<rparr>"
  show ?thesis
  proof (cases "db_lookup db ?q")
    case None
    then have "do_get_data db 1 8 = 0xffffffff" by (simp add: do_get_data_lookup [OF ix])
    then show ?thesis
      by (simp add: do_set_cmd_entry_def do_add_cmd_eq decode_ones do_add_cmd_msg_invalid index_ones)
  next
    case (Some d)
    then have d: "do_get_data db 1 8 = d" by (simp add: do_get_data_lookup [OF ix])
    from Some obtain i where i: "get_table_name db 1 = Some i"
      "table_find (get_cmd_id ?q) (gt_table (db ! i)) = Some d"
      by (auto simp: db_lookup_def zero_msg_def split: option.splits)
    then have row: "i < length db" using get_table_name_key [OF db_ok_keys [OF assms]] by simp
    obtain e where e: "e \<in> set (used (gt_table (db ! i)))" "cd_id e = get_cmd_id ?q" "cd_data e = d"
      using map_of_SomeD [OF i(2) [unfolded table_find_used]] by auto
    have "entry_ok (gt_key (db ! i)) e" using db_ok_nth(2) [OF assms row] e(1) by blast
    from do_add_cmd_row [OF db_ok_keys [OF assms] row this] e table_add_same [OF i(2)]
    have "do_add_cmd (le_bytes d) db = Some (0, db[i := (db ! i)\<lparr>gt_table := gt_table (db ! i)\<rparr>])" by simp
    moreover have "(db ! i)\<lparr>gt_table := gt_table (db ! i)\<rparr> = db ! i" by simp
    ultimately show ?thesis by (simp add: do_set_cmd_entry_def d)
  qed
qed

context nor_flash
begin

lemma code_addrs:
  "unat SPI_CODE_BASE_ADDR = 4 * 0" "unat (SPI_CODE_BASE_ADDR + 0x1000) = 4 * 1024"
  "unat (SPI_CODE_BASE_ADDR + 0x1000 + 0x1000 * word_of_nat SECTOR_NUMBER) = 4 * 4096"
  "unat (SPI_CODE_BASE_ADDR + 0x1000 + 0x1000 * word_of_nat SECTOR_NUMBER + 0x1000) = 4 * 5120"
  "unat VOLUME_INPUT_BASE_ADDR = 4 * 16384" "unat (VOLUME_INPUT_BASE_ADDR + 0x1000) = 4 * 17408"
  "unat (VOLUME_INPUT_BASE_ADDR + 0x1000 + 4) = 4 * 17409"
  "unat (VOLUME_INPUT_BASE_ADDR + 0x1000 + 0x1000) = 4 * 18432"
  by (simp_all add: layout)

lemma read_checksums:
  assumes "ready c"
  obtains c1 c2 where "read_word F SPI_CODE_BASE_ADDR c = (words (mem c) 0, c1)"
    "read_word F (SPI_CODE_BASE_ADDR + 0x1000 + 0x1000 * word_of_nat SECTOR_NUMBER) c1 = (words (mem c) 4096, c2)"
    "ready c2" "mem c2 = mem c"
proof -
  obtain c1 where c1: "read_word F SPI_CODE_BASE_ADDR c = (words (mem c) 0, c1)" "ready c1" "mem c1 = mem c"
    using read_word_ok [OF assms code_addrs(1)] by auto
  obtain c2 where "read_word F (SPI_CODE_BASE_ADDR + 0x1000 + 0x1000 * word_of_nat SECTOR_NUMBER) c1
      = (words (mem c) 4096, c2)" "ready c2" "mem c2 = mem c"
    using read_word_ok [OF c1(2) code_addrs(3)] c1(3) by auto
  with c1 that show ?thesis by blast
qed

lemma read_code_equal:
  assumes "ready c" "words (mem c) 0 = words (mem c) 4096" "words (mem c) 0 \<noteq> 0xffffffff"
  shows "\<exists>c'. read_code_part F (db, c) = map_option (\<lambda>db. (db, c'))
      (restore_list (word_list (words (mem c)) 1024 SPI_CODE_SIZE) db) \<and> ready c' \<and> mem c' = mem c"
proof -
  obtain c1 c2 where r: "read_word F SPI_CODE_BASE_ADDR c = (words (mem c) 0, c1)"
    "read_word F (SPI_CODE_BASE_ADDR + 0x1000 + 0x1000 * word_of_nat SECTOR_NUMBER) c1 = (words (mem c) 4096, c2)"
    "ready c2" "mem c2 = mem c"
    using read_checksums [OF assms(1)] .
  from restore_loop_ok [OF r(3) code_addrs(2), of 0 SPI_CODE_SIZE db] r(4)
  obtain c' where "restore_loop F (SPI_CODE_BASE_ADDR + 0x1000) SPI_CODE_SIZE 0 (db, c2) =
      map_option (\<lambda>db. (db, c')) (restore_list (word_list (words (mem c)) 1024 SPI_CODE_SIZE) db)"
    "ready c'" "mem c' = mem c"
    by (auto simp: SPI_CODE_SIZE_eq)
  with r assms(2,3) show ?thesis by (auto simp: read_code_part_def Let_def)
qed

text \<open>Unequal checksums with copy 1 intact: the loop stops at its first command.\<close>

lemma read_code_fallback:
  assumes "ready c" "words (mem c) 0 \<noteq> words (mem c) 4096" "words (mem c) 0 \<noteq> 0xffffff"
    and "words (mem c) 0 = sum_list (word_list (words (mem c)) 1024 SPI_CODE_SIZE)"
    and "dropWhile (\<lambda>w. w = 0xffffffff \<or> w = 0) (word_list (words (mem c)) 1024 SPI_CODE_SIZE) = w # ws"
  shows "\<exists>c'. read_code_part F (db, c) = map_option (\<lambda>db. (db, c'))
      (do_set_cmd_entry (SET_ENTRY_CMD (le_bytes w)) db) \<and> ready c' \<and> mem c' = mem c"
proof -
  obtain c1 c2 where r: "read_word F SPI_CODE_BASE_ADDR c = (words (mem c) 0, c1)"
    "read_word F (SPI_CODE_BASE_ADDR + 0x1000 + 0x1000 * word_of_nat SECTOR_NUMBER) c1 = (words (mem c) 4096, c2)"
    "ready c2" "mem c2 = mem c"
    using read_checksums [OF assms(1)] .
  from sum_loop_ok [OF r(3) code_addrs(2), of 0 SPI_CODE_SIZE 0] r(4) assms(4)
  obtain c3 where c3: "sum_loop F (SPI_CODE_BASE_ADDR + 0x1000) SPI_CODE_SIZE 0 (0, c2) = (words (mem c) 0, c3)"
    "ready c3" "mem c3 = mem c"
    by (auto simp: SPI_CODE_SIZE_eq)
  from restore_first_ok [OF c3(2) code_addrs(2), of 0 SPI_CODE_SIZE db] c3(3) assms(5)
  obtain c4 where c4: "restore_first F (SPI_CODE_BASE_ADDR + 0x1000) SPI_CODE_SIZE 0 (db, c3) =
      map_option (\<lambda>db. (True, db, c4)) (do_set_cmd_entry (SET_ENTRY_CMD (le_bytes w)) db)"
    "ready c4" "mem c4 = mem c"
    by (auto simp: SPI_CODE_SIZE_eq)
  have "read_code_part F (db, c) = map_option (\<lambda>db. (db, c4)) (do_set_cmd_entry (SET_ENTRY_CMD (le_bytes w)) db)"
    using r c3 c4(1) assms(2,3)
    by (auto simp: read_code_part_def Let_def fallback_copy_def split: option.splits)
  with c4 show ?thesis by blast
qed

lemma restore_volume_ok:
  assumes "ready c" "words (mem c) 17408 = v" "words (mem c) 17409 = g"
  shows "\<exists>c'. restore_volume F (VOLUME_INPUT_BASE_ADDR + 0x1000) (db, c) =
     (case do_set_cmd_entry (SET_ENTRY_CMD (le_bytes v)) db of
        None \<Rightarrow> None
      | Some db \<Rightarrow> map_option (\<lambda>db. (db, c'))
          (do_set_cmd_entry (SET_ENTRY_CMD (le_bytes (clip_input g))) db)) \<and>
     ready c' \<and> mem c' = mem c"
proof -
  obtain c1 where c1: "read_word F (VOLUME_INPUT_BASE_ADDR + 0x1000) c = (v, c1)"
    "ready c1" "mem c1 = mem c"
    using read_word_ok [OF assms(1) code_addrs(6)] assms(2) by auto
  obtain c2 where c2: "read_word F (VOLUME_INPUT_BASE_ADDR + 0x1000 + 4) c1 = (g, c2)"
    "ready c2" "mem c2 = mem c"
    using read_word_ok [OF c1(2) code_addrs(7)] c1(3) assms(3) by auto
  from c1 c2 show ?thesis
    by (intro exI [of _ c2]) (simp add: restore_volume_def split: option.splits)
qed

lemma read_volume_ok:
  assumes "ready c" "words (mem c) 16384 = v + g" "words (mem c) 18432 = v + g"
    and "words (mem c) 17408 = v" "words (mem c) 17409 = g"
  shows "\<exists>c'. read_volume_part F (db, c) =
     (case do_set_cmd_entry (SET_ENTRY_CMD (le_bytes v)) db of
        None \<Rightarrow> None
      | Some db \<Rightarrow> map_option (\<lambda>db. (db, c'))
          (do_set_cmd_entry (SET_ENTRY_CMD (le_bytes (clip_input g))) db)) \<and>
     ready c' \<and> mem c' = mem c"
proof -
  obtain c1 where c1: "read_word F VOLUME_INPUT_BASE_ADDR c = (v + g, c1)" "ready c1" "mem c1 = mem c"
    using read_word_ok [OF assms(1) code_addrs(5)] assms(2) by auto
  obtain c2 where c2: "read_word F (VOLUME_INPUT_BASE_ADDR + 0x1000 + 0x1000) c1 = (v + g, c2)" "ready c2"
    "mem c2 = mem c"
    using read_word_ok [OF c1(2) code_addrs(8)] c1(3) assms(3) by auto
  have "word_list (words (mem c)) 17408 2 = [v, g]" using assms(4,5) by (simp add: numeral_2_eq_2)
  with sum_loop_ok [OF c2(2) code_addrs(6), of 0 2 0] c2(3)
  obtain c3 where c3: "sum_loop F (VOLUME_INPUT_BASE_ADDR + 0x1000) 2 0 (0, c2) = (v + g, c3)" "ready c3"
    "mem c3 = mem c"
    by auto
  show ?thesis
  proof (cases "v + g = 0xffffffff")
    case True
    from restore_volume_ok [OF c3(2), of v g db] c3 c1(1) c2(1) True assms(4,5) show ?thesis
      by (simp add: read_volume_part_def Let_def)
  next
    case False
    from restore_volume_ok [OF c2(2), of v g db] c2(3) c1(1) c2(1) False assms(4,5) show ?thesis
      by (simp add: read_volume_part_def Let_def)
  qed
qed

end

lemma image_words:
  fixes ws :: "u32 list" and v g :: u32 and W :: "nat \<Rightarrow> u32"
  assumes "length ws = SPI_CODE_SIZE"
  defines "W' \<equiv> volume_image 18 v g (volume_image 16 v g (copy_image 4 ws (copy_image 0 ws W)))"
  shows "W' 0 = sum_list ws" "W' 4096 = sum_list ws" "word_list W' 1024 SPI_CODE_SIZE = ws"
    "W' 16384 = v + g" "W' 18432 = v + g" "W' 17408 = v" "W' 17409 = g"
    "\<And>i. i div 1024 \<notin> {0..7} \<union> {16..19} \<Longrightarrow> W' i = W i"
proof -
  show "W' 0 = sum_list ws" "W' 4096 = sum_list ws" "W' 16384 = v + g" "W' 18432 = v + g"
    "W' 17408 = v" "W' 17409 = g"
    by (simp_all add: W'_def volume_image_def copy_image_def)
  have "W' (1024 + k) = ws ! k" if "k < length ws" for k
  proof -
    have "(1024 + k) div 1024 \<in> {1, 2, 3}"
      using data_sectors [of 0 "1024 + k"] that assms(1) by (simp add: numeral_2_eq_2)
    then have q: "(1024 + k) div 1024 \<notin> {18, 18 + 1}" "(1024 + k) div 1024 \<notin> {16, 16 + 1}"
      "(1024 + k) div 1024 \<notin> {4, 4 + 1, 4 + 2, 4 + 3}" "(1024 + k) div 1024 \<in> {0, 0 + 1, 0 + 2, 0 + 3}"
      by (elim insertE emptyE; simp)+
    have "W' (1024 + k) = copy_image 0 ws W (1024 + k)"
      unfolding W'_def volume_image_def copy_image_def [of 4] using q(1-3) by (simp only: if_False)
    also have "\<dots> = ws ! k"
      unfolding copy_image_def using q(4) that by (simp only: if_True) simp
    finally show ?thesis .
  qed
  from word_list_eq [of ws W' 1024, OF this] assms(1) show "word_list W' 1024 SPI_CODE_SIZE = ws" by simp
  fix i
  assume "i div 1024 \<notin> {0..7} \<union> {16..19 :: nat}"
  then have "i div 1024 \<notin> {18, 18 + 1}" "i div 1024 \<notin> {16, 16 + 1}"
    "i div 1024 \<notin> {4, 4 + 1, 4 + 2, 4 + 3}" "i div 1024 \<notin> {0, 0 + 1, 0 + 2, 0 + 3}" by auto
  then show "W' i = W i" unfolding W'_def volume_image_def copy_image_def by simp
qed

text \<open>What the flash holds after a store, and what reading back needs of it.\<close>

definition stored_image :: "cmd_db \<Rightarrow> u32 \<Rightarrow> (nat \<Rightarrow> u32) \<Rightarrow> bool" where
  "stored_image db g W \<longleftrightarrow>
     W 0 = sum_list (db_words db) \<and> W 4096 = sum_list (db_words db) \<and>
     word_list W 1024 SPI_CODE_SIZE = db_words db \<and>
     W 16384 = do_get_data db 1 8 + g \<and> W 18432 = do_get_data db 1 8 + g \<and>
     W 17408 = do_get_data db 1 8 \<and> W 17409 = g"

lemma stored_image_cong:
  assumes "\<And>i. i div 1024 \<noteq> 96 \<Longrightarrow> W' i = W i"
  shows "stored_image db g W' = stored_image db g W"
proof -
  have "word_list W' 1024 SPI_CODE_SIZE = word_list W 1024 SPI_CODE_SIZE"
    by (intro word_list_cong assms) (auto simp: SPI_CODE_SIZE_eq)
  then show ?thesis using assms by (simp add: stored_image_def)
qed

context nor_flash
begin

lemma read_image:
  assumes "ready c" "db_ok db" "sum_list (db_words db) \<noteq> 0xffffffff" "stored_image db g (words (mem c))"
    and "do_set_cmd_entry (SET_ENTRY_CMD (le_bytes (clip_input g))) db = Some db'"
  shows "\<exists>c'. read_w25q16 F (group_table_init, c) = Some (db', c') \<and> ready c'"
proof -
  note im = assms(4) [unfolded stored_image_def]
  obtain c2 where c2: "read_code_part F (group_table_init, c) = Some (db, c2)" "ready c2" "mem c2 = mem c"
    using read_code_equal [OF assms(1), of group_table_init] im assms(3) db_rebuild [OF assms(2)] by auto
  obtain c3 where "read_volume_part F (db, c2) = map_option (\<lambda>db. (db, c3))
      (do_set_cmd_entry (SET_ENTRY_CMD (le_bytes (clip_input g))) db)" "ready c3"
    using read_volume_ok [OF c2(2), of "do_get_data db 1 8" g db] im c2(3) do_set_same [OF assms(2)]
    by auto
  with c2(1) assms(5) show ?thesis by (simp add: read_w25q16_def)
qed

lemma store_image:
  assumes "ready c" "db_ok db"
  shows "\<exists>c1. store_w25q16 F db g c = Some c1 \<and> ready c1 \<and> stored_image db g (words (mem c1)) \<and>
    (\<forall>i. i div 1024 \<notin> {0..7} \<union> {16..19} \<longrightarrow> words (mem c1) i = words (mem c) i)"
proof -
  note len = db_words_length [OF assms(2)]
  obtain c1 where c1: "store_w25q16 F db g c = Some c1" "ready c1"
    and W: "words (mem c1) = volume_image 18 (do_get_data db 1 8) g (volume_image 16 (do_get_data db 1 8) g
      (copy_image 4 (db_words db) (copy_image 0 (db_words db) (words (mem c)))))"
    using store_ok [OF assms(1) len] by blast
  note im = image_words [OF len, where v = "do_get_data db 1 8" and g = g and W = "words (mem c)", folded W]
  from c1 im show ?thesis by (intro exI [of _ c1]) (simp add: stored_image_def)
qed

lemma store_then_read:
  assumes "ready c" "db_ok db" "sum_list (db_words db) \<noteq> 0xffffffff"
  shows "\<exists>c1 c2 db'. store_w25q16 F db g c = Some c1 \<and>
    (\<forall>i. i div 1024 \<notin> {0..7} \<union> {16..19} \<longrightarrow> words (mem c1) i = words (mem c) i) \<and>
    read_w25q16 F (group_table_init, c1) = Some (db', c2) \<and> ready c2 \<and>
    do_set_cmd_entry (SET_ENTRY_CMD (le_bytes (clip_input g))) db = Some db'"
proof -
  obtain db' where "do_set_cmd_entry (SET_ENTRY_CMD (le_bytes (clip_input g))) db = Some db'"
    using do_add_cmd_cases [OF assms(2), of "le_bytes (clip_input g)"] by (auto simp: do_set_cmd_entry_def)
  then show ?thesis
    using store_image [OF assms(1,2), of g] read_image [OF _ assms(2,3)] by blast
qed

lemma reboot_ok:
  assumes "ready c"
  defines "n \<equiv> (if words (mem c) 98304 \<in> {0xffffff, 0xffffffff} then 1 else words (mem c) 98304 + 1)"
  shows "\<exists>c'. read_reboot_times F c = Some (n, c') \<and> ready c' \<and> words (mem c') 98304 = n \<and>
    (\<forall>i. i div 1024 \<noteq> 96 \<longrightarrow> words (mem c') i = words (mem c) i)"
proof -
  have a: "unat REBOOT_TIMES_ADDR = 4 * 98304" "unat REBOOT_TIMES_ADDR = 4096 * 96"
    by (simp_all add: layout)
  obtain c1 where c1: "read_word F REBOOT_TIMES_ADDR c = (words (mem c) 98304, c1)" "ready c1" "mem c1 = mem c"
    using read_word_ok [OF assms(1) a(1)] by auto
  obtain c2 where c2: "fl_erase F REBOOT_TIMES_ADDR c1 = Some c2" "ready c2"
    "words (mem c2) = erase_words 96 (words (mem c))"
    using erase_words_ok [OF c1(2) a(2)] c1(3) by auto
  obtain c3 where c3: "write_word F n REBOOT_TIMES_ADDR c2 = Some c3" "ready c3"
    "words (mem c3) = (words (mem c2))(98304 := n)"
    using write_word_ok [OF c2(2) a(1), of n] c2(3) by (auto simp: erase_words_def)
  have "read_reboot_times F c = Some (n, c3)"
    using c1 c2(1) c3(1) by (auto simp: read_reboot_times_def Let_def n_def)
  moreover have "words (mem c3) i = words (mem c) i" if "i div 1024 \<noteq> 96" for i
    using that by (auto simp: c3(3) c2(3) erase_words_def)
  ultimately show ?thesis using c3(2,3) by auto
qed

lemma partial_store_read:
  assumes "ready c" "db_ok db" "words (mem c) 4096 \<noteq> sum_list (db_words db)"
    and "sum_list (db_words db) \<noteq> 0xffffff"
    and "dropWhile (\<lambda>w. w = 0xffffffff \<or> w = 0) (db_words db) = w # ws"
  shows "\<exists>c1 c2. store_copy F SPI_CODE_BASE_ADDR db c = Some c1 \<and>
    read_code_part F (group_table_init, c1)
      = map_option (\<lambda>db. (db, c2)) (do_set_cmd_entry (SET_ENTRY_CMD (le_bytes w)) group_table_init)"
proof -
  note len = db_words_length [OF assms(2)]
  have "unat SPI_CODE_BASE_ADDR = 4096 * 0" by (simp add: layout)
  from store_copy_ok [OF assms(1) this _ len] obtain c1 where
    c1: "store_copy F SPI_CODE_BASE_ADDR db c = Some c1" "ready c1"
      "words (mem c1) = copy_image 0 (db_words db) (words (mem c))" by auto
  have w0: "words (mem c1) 0 = sum_list (db_words db)" "words (mem c1) 4096 = words (mem c) 4096"
    by (simp_all add: c1(3) copy_image_def)
  have "words (mem c1) (1024 + k) = db_words db ! k" if "k < length (db_words db)" for k
    using data_sectors [of 0 "1024 + k"] that len by (auto simp: c1(3) copy_image_def)
  from word_list_eq [OF this] len have wl: "word_list (words (mem c1)) 1024 SPI_CODE_SIZE = db_words db" by simp
  have "\<exists>c'. read_code_part F (group_table_init, c1) = map_option (\<lambda>db. (db, c'))
      (do_set_cmd_entry (SET_ENTRY_CMD (le_bytes w)) group_table_init) \<and> ready c' \<and> mem c' = mem c1"
    using assms(3-5) w0 wl by (intro read_code_fallback [OF c1(2)]) simp_all
  with c1(1) show ?thesis by blast
qed

end

context w25q_chip
begin

lemma driver_contract: "nor_flash (spi_flash_ops p) ready mem"
  by unfold_locales

end

section \<open>Properties\<close>

text \<open>
  C3: saving and restarting gives the parameters back. On any chip that behaves as its data
  sheet says, storing tables in order and then reading into empty tables returns, and yields the
  stored tables with the saved input type (replaced by the AES input when it is out of range)
  applied on top; the sectors outside the two copies and the two volume records keep their
  contents. The hypothesis on the checksum is needed: the reader takes \<open>0xffffffff\<close> for a blank
  chip.
\<close>

theorem store_read_round_trip:
  assumes "w25q_chip p ready desel wel mem" "ready c" "db_ok db" "sum_list (db_words db) \<noteq> 0xffffffff"
  shows "\<exists>c1 c2 db'. store_w25q16 (spi_flash_ops p) db g c = Some c1 \<and>
    (\<forall>i. i div 1024 \<notin> {0..7} \<union> {16..19} \<longrightarrow> words (mem c1) i = words (mem c) i) \<and>
    read_w25q16 (spi_flash_ops p) (group_table_init, c1) = Some (db', c2) \<and> ready c2 \<and>
    do_set_cmd_entry (SET_ENTRY_CMD (le_bytes (clip_input g))) db = Some db'"
  using nor_flash.store_then_read [OF w25q_chip.driver_contract [OF assms(1)] assms(2-4)] .

lemma zero_db_words: "db_words group_table_init = replicate SPI_CODE_SIZE 0"
proof -
  have "set (db_words group_table_init) \<subseteq> {0}"
    by (auto simp: db_words_def group_table_init_def zero_entry_def)
  then have "db_words group_table_init = replicate (length (db_words group_table_init)) 0"
    by (intro replicate_eqI) auto
  then show ?thesis by (simp add: db_words_length [OF db_ok_init])
qed

lemma zero_db_sum: "sum_list (db_words group_table_init) = 0"
  by (simp add: zero_db_words sum_list_replicate)

theorem store_read_round_trip_witness:
  "\<exists>c1 c2 db'. store_w25q16 (spi_flash_ops w25q_port) group_table_init 0x2205 blank_chip = Some c1 \<and>
    (\<forall>i. i div 1024 \<notin> {0..7} \<union> {16..19} \<longrightarrow> words (cells c1) i = words (cells blank_chip) i) \<and>
    read_w25q16 (spi_flash_ops w25q_port) (group_table_init, c1) = Some (db', c2) \<and> chip_ready c2 \<and>
    do_set_cmd_entry (SET_ENTRY_CMD (le_bytes (clip_input 0x2205))) group_table_init = Some db'"
  by (rule store_read_round_trip [OF w25q_model blank_ready db_ok_init]) (simp add: zero_db_sum)

text \<open>
  The boot counter. Each call returns the stored counter plus one, or one on a blank sector,
  stores it, and touches no other sector.
\<close>

theorem reboot_counter:
  assumes "w25q_chip p ready desel wel mem" "ready c"
    and "n = (if words (mem c) 98304 \<in> {0xffffff, 0xffffffff} then 1 else words (mem c) 98304 + 1)"
  shows "\<exists>c'. read_reboot_times (spi_flash_ops p) c = Some (n, c') \<and> ready c' \<and>
    words (mem c') 98304 = n \<and> (\<forall>i. i div 1024 \<noteq> 96 \<longrightarrow> words (mem c') i = words (mem c) i)"
  using nor_flash.reboot_ok [OF w25q_chip.driver_contract [OF assms(1)] assms(2)]
  unfolding assms(3) .

theorem reboot_counter_witness:
  "\<exists>c'. read_reboot_times (spi_flash_ops w25q_port) blank_chip = Some (1, c') \<and> chip_ready c' \<and>
    words (cells c') 98304 = 1 \<and>
    (\<forall>i. i div 1024 \<noteq> 96 \<longrightarrow> words (cells c') i = words (cells blank_chip) i)"
  by (rule reboot_counter [OF w25q_model blank_ready])
    (simp add: words_bytes blank_chip_def le_word_ones)

text \<open>
  C26: a defect of the fallback. If power is lost after copy 1 was saved and before copy 2 was (so
  that the two checksums differ), copy 1 is complete and its checksum is right, but the next start
  restores only the first stored command, because the jump out of the restore loop stands inside
  the loop.
\<close>

theorem interrupted_store_restores_one:
  assumes "w25q_chip p ready desel wel mem" "ready c" "db_ok db"
    and "words (mem c) 4096 \<noteq> sum_list (db_words db)" "sum_list (db_words db) \<noteq> 0xffffff"
    and "dropWhile (\<lambda>w. w = 0xffffffff \<or> w = 0) (db_words db) = w # ws"
  shows "\<exists>c1 c2. store_copy (spi_flash_ops p) SPI_CODE_BASE_ADDR db c = Some c1 \<and>
    read_code_part (spi_flash_ops p) (group_table_init, c1)
      = map_option (\<lambda>db. (db, c2)) (do_set_cmd_entry (SET_ENTRY_CMD (le_bytes w)) group_table_init)"
  using nor_flash.partial_store_read [OF w25q_chip.driver_contract [OF assms(1)] assms(2-6)] .

text \<open>Tables with two commands: volume 48 and the SPDIF input.\<close>

definition two_cmds_db :: cmd_db where
  "two_cmds_db = group_table_init[0 := (group_table_init ! 0)\<lparr>gt_table :=
     [\<lparr>cd_id = 0x50000, cd_data = 0x300005\<rparr>, \<lparr>cd_id = 0x52000, cd_data = 0x2205\<rparr>]
       @ replicate (GENERAL_PARA_SIZE - 2) zero_entry\<rparr>]"

lemma two_cmds_ok: "db_ok two_cmds_db"
proof -
  have e: "entry_ok 1 \<lparr>cd_id = 0x50000, cd_data = 0x300005\<rparr>" "entry_ok 1 \<lparr>cd_id = 0x52000, cd_data = 0x2205\<rparr>"
    by (simp_all add: entry_ok_def decode_cmd_eq le_bytes_def get_cmd_id_def get_cmd_index_def
        get_cmd_desc_s_def general_cmd_desc_def c_consts)
  have g: "group_table_init ! 0 = \<lparr>gt_key = 1, gt_table = replicate GENERAL_PARA_SIZE zero_entry\<rparr>"
    by (simp add: group_table_init_def group_sizes_def)
  show ?thesis
    unfolding two_cmds_db_def
    by (rule db_ok_update [OF db_ok_init])
      (simp_all add: g e table_ok_Cons GENERAL_PARA_SIZE_def, simp add: group_table_init_def group_sizes_def)
qed

lemma two_cmds_words: "\<exists>n. db_words two_cmds_db = 0x300005 # 0x2205 # replicate n 0"
proof -
  let ?z = "concat (map (map cd_data \<circ> gt_table) (tl group_table_init))"
  have "set ?z \<subseteq> {0}" by (auto simp: group_table_init_def group_sizes_def zero_entry_def)
  then have z: "?z = replicate (length ?z) 0" by (intro replicate_eqI) auto
  have db: "two_cmds_db = \<lparr>gt_key = 1, gt_table =
     [\<lparr>cd_id = 0x50000, cd_data = 0x300005\<rparr>, \<lparr>cd_id = 0x52000, cd_data = 0x2205\<rparr>]
       @ replicate (GENERAL_PARA_SIZE - 2) zero_entry\<rparr> # tl group_table_init"
    by (simp add: two_cmds_db_def group_table_init_def group_sizes_def)
  have "db_words two_cmds_db = 0x300005 # 0x2205 # replicate (GENERAL_PARA_SIZE - 2) 0 @ ?z"
    unfolding db db_words_def by (simp add: zero_entry_def)
  then have "db_words two_cmds_db = 0x300005 # 0x2205 # replicate (GENERAL_PARA_SIZE - 2 + length ?z) 0"
    unfolding replicate_add using z by simp
  then show ?thesis by blast
qed

theorem interrupted_store_restores_one_witness:
  "\<exists>c1 c2. store_copy (spi_flash_ops w25q_port) SPI_CODE_BASE_ADDR two_cmds_db blank_chip = Some c1 \<and>
    read_code_part (spi_flash_ops w25q_port) (group_table_init, c1) = map_option (\<lambda>db. (db, c2))
      (do_set_cmd_entry (SET_ENTRY_CMD (le_bytes 0x300005)) group_table_init)"
proof -
  obtain n where n: "db_words two_cmds_db = 0x300005 # 0x2205 # replicate n 0"
    using two_cmds_words by blast
  have "sum_list (db_words two_cmds_db) = 0x30220A" by (simp add: n sum_list_replicate)
  moreover have "words (cells blank_chip) 4096 = 0xffffffff"
    by (simp add: words_bytes blank_chip_def le_word_ones)
  ultimately show ?thesis
    using interrupted_store_restores_one [OF w25q_model blank_ready two_cmds_ok,
        where w = "0x300005" and ws = "0x2205 # replicate n 0"] by (simp add: n)
qed

end
