(* ===== verification/Front_Panel.thy ===== *)
theory Front_Panel
  imports Flash_Store
begin

text \<open>
  The front panel of the STM32: key debouncing (\<open>drivers/key_input.c\<close>), the lamps
  (\<open>drivers/led.c\<close>), and of \<open>USER/application.c\<close> the key thread, the selection of the input,
  the display thread, the console command \<open>code_to_dsp\<close>, the idle timer that saves the settings
  and the run time clock. A thread is the step function of its loop body. The levels of the key
  pins are a parameter; each reading of a pin in the source is a reading of its own. Counters
  of type \<open>int\<close> that only count upwards are integers.
\<close>

section \<open>Data\<close>

definition AES_INPUT :: u32 where [c_consts]: "AES_INPUT = 0x2105"
definition SPDIF_INPUT :: u32 where [c_consts]: "SPDIF_INPUT = 0x2205"
definition COAX_INPUT :: u32 where [c_consts]: "COAX_INPUT = 0x2305"
definition DVD_INPUT :: u32 where [c_consts]: "DVD_INPUT = 0x2405"
definition AD_INPUT :: u32 where [c_consts]: "AD_INPUT = 0x2505"

record KEY_SPI =
  AD_input :: u8
  AES_input :: u8
  RCA_input :: u8
  MIC_input :: u8
  SPDIF_input :: u8
  COAX_input :: u8
  mute_select :: u8

record panel =
  g_i_key_press_time :: "int list"
  g_i_key_press_flag :: "int list"
  g_i_key_pressed :: "int list"
  g_i_key1_press_ok :: int
  g_i_key2_press_ok :: int
  g_i_have_key_pressed :: int
  g_i_key_led_handle_count :: u32
  g_input_type :: u32
  g_mute :: int
  i_mute :: int
  i_first_mute :: int
  g_key_spi :: KEY_SPI
  g_key_input_pressed_flag :: int
  g_led_init :: int
  led_inited :: int
  led_lit :: "bool list"

text \<open>The lamps are \<open>led1\<close> to \<open>led7\<close>, lit when their pin is low.\<close>

definition KEY_MAX_NUMBER :: nat where [c_consts]: "KEY_MAX_NUMBER = 2"

definition panel_init :: panel where
  "panel_init = \<lparr>g_i_key_press_time = [0, 0], g_i_key_press_flag = [0, 0], g_i_key_pressed = [0, 0],
     g_i_key1_press_ok = 0, g_i_key2_press_ok = 0, g_i_have_key_pressed = 0,
     g_i_key_led_handle_count = 0, g_input_type = 0, g_mute = 0, i_mute = 1, i_first_mute = 0,
     g_key_spi = \<lparr>AD_input = 0, AES_input = 0, RCA_input = 0, MIC_input = 0, SPDIF_input = 0,
       COAX_input = 0, mute_select = 0\<rparr>,
     g_key_input_pressed_flag = 0, g_led_init = 0, led_inited = 0, led_lit = replicate 7 False\<rparr>"

section \<open>Keys\<close>

text \<open>The level of each key pin, by key number.\<close>

type_synonym key_pins = "int \<Rightarrow> int"

definition rt_read_key_value :: "key_pins \<Rightarrow> int \<Rightarrow> int" where
  "rt_read_key_value pin n =
     (if n > int KEY_MAX_NUMBER then -1
      else if n = 1 then pin 1 else if n = 2 then pin 2 else -1)"

text \<open>The loop body for key \<open>i\<close>; \<open>p1\<close>, \<open>p2\<close>, \<open>p3\<close> are the levels at its three readings.\<close>

definition key_scan :: "key_pins \<times> key_pins \<times> key_pins \<Rightarrow> nat \<Rightarrow> panel \<Rightarrow> panel" where
  "key_scan ps i s =
     (case ps of (p1, p2, p3) \<Rightarrow>
      let k = int i + 1;
          s = (if rt_read_key_value p1 k = 0
               then s\<lparr>g_i_key_press_flag := (g_i_key_press_flag s)[i := 1]\<rparr> else s)
      in if g_i_key_press_flag s ! i \<noteq> 0 then
           let s = s\<lparr>g_i_key_press_time := (g_i_key_press_time s)[i := g_i_key_press_time s ! i + 1]\<rparr>;
               s = (if g_i_key_press_time s ! i \<ge> 5 \<and> rt_read_key_value p2 k = 0
                    then s\<lparr>g_i_key_pressed := (g_i_key_pressed s)[i := 1]\<rparr> else s)
           in if rt_read_key_value p3 k = 1
              then s\<lparr>g_i_key_press_flag := (g_i_key_press_flag s)[i := 0],
                     g_i_key_press_time := (g_i_key_press_time s)[i := 0],
                     g_i_key_pressed := (g_i_key_pressed s)[i := 0]\<rparr>
              else s
         else s)"

fun first_pressed :: "nat list \<Rightarrow> panel \<Rightarrow> int" where
  "first_pressed [] s = 0"
| "first_pressed (i # is) s = (if g_i_key_pressed s ! i = 1 then int i + 1 else first_pressed is s)"

definition rt_handle_key_input :: "key_pins \<times> key_pins \<times> key_pins \<Rightarrow> panel \<Rightarrow> int \<times> panel" where
  "rt_handle_key_input ps s =
     (let s = fold (key_scan ps) [0..<KEY_MAX_NUMBER] s in (first_pressed [0..<KEY_MAX_NUMBER] s, s))"

section \<open>Lamps\<close>

definition set_led :: "nat \<Rightarrow> bool \<Rightarrow> panel \<Rightarrow> panel" where
  "set_led n v s = s\<lparr>led_lit := (led_lit s)[n - 1 := v]\<rparr>"

definition rt_hw_led_init :: "panel \<Rightarrow> panel" where
  "rt_hw_led_init s =
     (if g_led_init s = 1 then s
      else fold (\<lambda>n. set_led n False) [1, 2, 3, 4, 5, 6, 7] (s\<lparr>g_led_init := 1\<rparr>))"

definition rt_hw_led_on :: "u32 \<Rightarrow> panel \<Rightarrow> panel" where
  "rt_hw_led_on n s =
     (if n = 0 then set_led 2 True s else if n = 1 then set_led 3 True s
      else if n = 2 then set_led 4 True s else if n = 3 then set_led 5 True s
      else if n = 4 then set_led 6 True s else if n = 5 then set_led 7 True s
      else if n = 6 then set_led 1 True s else s)"

definition rt_hw_led_off :: "u32 \<Rightarrow> panel \<Rightarrow> panel" where
  "rt_hw_led_off n s =
     (if n = 0 then set_led 2 False s else if n = 1 then set_led 3 False s
      else if n = 2 then set_led 4 False s else if n = 3 then set_led 5 False s
      else if n = 4 then set_led 6 False s else if n = 5 then set_led 7 False s
      else if n = 6 then set_led 1 False s else s)"

definition rt_hw_led_all_on :: "panel \<Rightarrow> panel" where
  "rt_hw_led_all_on s = rt_hw_led_on 5 (rt_hw_led_on 4 (rt_hw_led_on 3 (rt_hw_led_on 2
     (rt_hw_led_on 1 (rt_hw_led_on 0 s)))))"

text \<open>Lamp \<open>n\<close> on and the other five off, in the order of the source.\<close>

definition rt_hw_led_mutex :: "u32 \<Rightarrow> panel \<Rightarrow> panel" where
  "rt_hw_led_mutex n s =
     (if n \<le> 5 then fold (\<lambda>i. if i = n then rt_hw_led_on i else rt_hw_led_off i) [0, 1, 2, 3, 4, 5] s else s)"

definition led_set :: "u32 \<Rightarrow> u32 \<Rightarrow> panel \<Rightarrow> panel" where
  "led_set n v s =
     (let s = (if led_inited s = 0 then (rt_hw_led_init s)\<lparr>led_inited := 1\<rparr> else s)
      in if n = 0 \<or> n = 1 \<or> n = 5
         then if v = 0 then rt_hw_led_off n s else if v = 1 then rt_hw_led_on n s else s
         else s)"

section \<open>Input selection\<close>

definition no_input :: "KEY_SPI \<Rightarrow> KEY_SPI" where
  "no_input k = k\<lparr>AD_input := 0, AES_input := 0, RCA_input := 0, MIC_input := 0, SPDIF_input := 0,
     COAX_input := 0\<rparr>"

definition select_input_type :: "u32 \<Rightarrow> panel \<Rightarrow> panel" where
  "select_input_type t s =
     (let k = no_input (g_key_spi s)
      in if t = AD_INPUT then s\<lparr>g_key_spi := k\<lparr>AD_input := 1\<rparr>\<rparr>
         else if t = AES_INPUT then s\<lparr>g_key_spi := k\<lparr>AES_input := 1\<rparr>\<rparr>
         else if t = DVD_INPUT then s\<lparr>g_key_spi := k\<lparr>RCA_input := 1\<rparr>\<rparr>
         else if t = MIC_INPUT then s\<lparr>g_key_spi := k\<lparr>MIC_input := 1\<rparr>\<rparr>
         else if t = SPDIF_INPUT then s\<lparr>g_key_spi := k\<lparr>SPDIF_input := 1\<rparr>\<rparr>
         else if t = COAX_INPUT then s\<lparr>g_key_spi := k\<lparr>COAX_input := 1\<rparr>\<rparr>
         else s)"

text \<open>What the key thread does when key 1 is released, and when key 2 is.\<close>

definition key1_released :: "panel \<Rightarrow> panel" where
  "key1_released s =
     (let s = s\<lparr>g_i_key1_press_ok := 0, g_i_have_key_pressed := 0\<rparr>;
          c = g_i_key_led_handle_count s;
          c = (if c = MIC_INPUT then INIT_INPUT else c);
          c = c + push_bit 8 1;
          c = (if c = MIC_INPUT then INIT_INPUT else c);
          s = s\<lparr>g_i_key_led_handle_count := c, g_input_type := c\<rparr>;
          s = select_input_type c s
      in s\<lparr>g_key_input_pressed_flag := 1\<rparr>)"

definition key2_released :: "panel \<Rightarrow> panel" where
  "key2_released s =
     (let s = s\<lparr>g_i_key2_press_ok := 0, g_i_have_key_pressed := 0\<rparr>;
          m = (i_mute s + 1) mod 2
      in s\<lparr>i_mute := m, g_mute := m, g_key_spi := (g_key_spi s)\<lparr>mute_select := 1\<rparr>, i_first_mute := 1\<rparr>)"

text \<open>The part of the loop that follows the scan of the keys; \<open>p4\<close> are the levels it reads.\<close>

definition key_dispatch :: "key_pins \<Rightarrow> int \<Rightarrow> panel \<Rightarrow> panel" where
  "key_dispatch p4 key_input_number s =
     (if g_i_have_key_pressed s = 0 then
        if g_i_key1_press_ok s = 0 then
          let s = (if key_input_number = 1 then s\<lparr>g_i_key1_press_ok := 1, g_i_have_key_pressed := 1\<rparr> else s)
          in if key_input_number = 2 then s\<lparr>g_i_key2_press_ok := 1, g_i_have_key_pressed := 1\<rparr> else s
        else s
      else
        let s = (if g_i_key1_press_ok s = 1 then
                   let s = s\<lparr>g_i_key2_press_ok := 0\<rparr>
                   in if rt_read_key_value p4 1 = 1 then key1_released s else s
                 else s)
        in if g_i_key2_press_ok s = 1 then
             let s = s\<lparr>g_i_key1_press_ok := 0\<rparr>
             in if rt_read_key_value p4 2 = 1 then key2_released s else s
           else s)"

definition panel_lamps :: "panel \<Rightarrow> panel" where
  "panel_lamps s =
     (let s = rt_hw_led_mutex ((drop_bit 8 (g_i_key_led_handle_count s) AND 0xf) - 1) s
      in if i_first_mute s = 0 then led_set 5 0 s
         else if g_mute s = 1 then led_set 5 0 s else led_set 5 1 s)"

definition key_input_thread_entry ::
    "key_pins \<times> key_pins \<times> key_pins \<Rightarrow> key_pins \<Rightarrow> panel \<Rightarrow> panel" where
  "key_input_thread_entry ps p4 s =
     (let (n, s) = rt_handle_key_input ps s in panel_lamps (key_dispatch p4 n s))"

section \<open>Display and console\<close>

text \<open>
  One pass of the display thread: \<open>shown\<close> is \<open>g_i_lcd_show_value\<close>, and the result is the new
  value with the text written after clearing the display, if any.
\<close>

definition lcd_text :: "u32 \<Rightarrow> string option" where
  "lcd_text n =
     (if n = 0 then Some ''AES input'' else if n = 1 then Some ''SPDIF input''
      else if n = 2 then Some ''COAX input'' else if n = 3 then Some ''DVD input''
      else if n = 4 then Some ''AD input'' else if n = 5 then Some ''MIC input'' else None)"

definition lcd1602_thread_entry :: "u32 \<Rightarrow> panel \<Rightarrow> u32 \<times> string option" where
  "lcd1602_thread_entry shown s =
     (if shown \<noteq> g_i_key_led_handle_count s
      then (g_i_key_led_handle_count s, lcd_text ((drop_bit 8 (g_i_key_led_handle_count s) AND 0xf) - 1))
      else (shown, None))"

definition get_input_type :: "panel \<Rightarrow> string option" where
  "get_input_type s =
     (let c = g_i_key_led_handle_count s
      in if c = AD_INPUT then Some ''AD input'' else if c = AES_INPUT then Some ''AES input''
         else if c = DVD_INPUT then Some ''DVD input'' else if c = SPDIF_INPUT then Some ''SPDIF input''
         else if c = COAX_INPUT then Some ''COAX input'' else if c = MIC_INPUT then Some ''MIC input''
         else None)"

definition code_input :: "int \<Rightarrow> u32 option" where
  "code_input n =
     (if n = 1 then Some AES_INPUT else if n = 2 then Some SPDIF_INPUT else if n = 3 then Some COAX_INPUT
      else if n = 4 then Some DVD_INPUT else if n = 5 then Some AD_INPUT else if n = 6 then Some MIC_INPUT
      else None)"

definition code_to_dsp :: "'c spi_port \<Rightarrow> int \<Rightarrow> panel \<times> 'c \<Rightarrow> panel \<times> 'c" where
  "code_to_dsp p n sc =
     (case sc of (s, c) \<Rightarrow>
      case code_input n of
        None \<Rightarrow> (s, c)
      | Some t \<Rightarrow>
          let s = s\<lparr>g_i_key_led_handle_count := t, g_input_type := t\<rparr>;
              s = select_input_type (g_input_type s) s;
              s = s\<lparr>g_key_input_pressed_flag := 1\<rparr>
          in (s, SPI_DSP_SendBytes p (bytes_of (le_bytes (g_input_type s))) c))"

definition dsp_input :: "'c spi_port \<Rightarrow> 'c \<Rightarrow> 'c" where
  "dsp_input p c = SPI_DSP_SendBytes p (bytes_of (le_bytes 0x2006)) c"

section \<open>The idle timer\<close>

record idle_timer =
  i_count :: int
  i_input_event :: int
  i_type_count :: int
  i_time_count :: int
  g_i_store_flag :: int
  g_system_runtime :: u32

definition idle_init :: idle_timer where
  "idle_init = \<lparr>i_count = 0, i_input_event = 0, i_type_count = 0, i_time_count = 0, g_i_store_flag = 0,
     g_system_runtime = 0\<rparr>"

text \<open>
  One pass of the loop, without the watchdog. The tables \<open>db\<close> are only read. \<open>None\<close>: the flash never
  answers.
\<close>

definition idle_timer_thread_entry ::
    "'c spi_port \<Rightarrow> 'd flash_ops \<Rightarrow> cmd_db \<Rightarrow> idle_timer \<times> panel \<times> 'c \<times> 'd \<Rightarrow> (idle_timer \<times> panel \<times> 'c \<times> 'd) option" where
  "idle_timer_thread_entry p F db st =
     (case st of (t, s, c, d) \<Rightarrow>
      let (t, s) = (if g_key_input_pressed_flag s = 1
                    then (t\<lparr>i_input_event := 1\<rparr>, s\<lparr>g_key_input_pressed_flag := 0\<rparr>)
                    else if i_input_event t = 1
                    then (t\<lparr>i_count := i_count t + 1, i_type_count := i_type_count t + 1\<rparr>, s) else (t, s));
          (t, c) = (if i_type_count t = 1
                    then (t\<lparr>i_type_count := 0\<rparr>, SPI_DSP_SendBytes p (bytes_of (le_bytes (g_input_type s))) c)
                    else (t, c));
          td = (if i_count t \<ge> 2 * 4
                then let t = t\<lparr>i_input_event := 0, i_count := 0, g_i_store_flag := 1\<rparr>
                     in case store_w25q16_volume_input_type F db (g_input_type s) d of
                          None \<Rightarrow> None | Some d \<Rightarrow> Some (t, d)
                else Some (t, d))
      in case td of
           None \<Rightarrow> None
         | Some (t, d) \<Rightarrow>
             let t = t\<lparr>i_time_count := i_time_count t + 1\<rparr>;
                 t = (if i_time_count t \<ge> 4
                      then t\<lparr>i_time_count := 0, g_system_runtime := g_system_runtime t + 1\<rparr> else t)
             in Some (t, s, c, d))"

text \<open>The numbers printed by \<open>time\<close>: days, hours, minutes, seconds.\<close>

definition time_fields :: "u32 \<Rightarrow> u32 \<times> u32 \<times> u32 \<times> u32" where
  "time_fields runtime =
     (let i_day = runtime div 3600 div 24;
          i_hour = (runtime - i_day * 3600 * 24) div 3600;
          i_minute = (runtime - i_hour * 3600 - i_day * 3600 * 24) div 60;
          i_sec = runtime - i_day * 3600 * 24 - i_hour * 3600 - i_minute * 60
      in (i_day, i_hour, i_minute, i_sec))"

section \<open>Debouncing\<close>

text \<open>
  Key \<open>i\<close> has been low at the last \<open>n\<close> polls. The three readings of a poll agree here: the pin
  does not change while it is polled.
\<close>

definition key_run :: "nat \<Rightarrow> nat \<Rightarrow> panel \<Rightarrow> bool" where
  "key_run i n s \<longleftrightarrow> g_i_key_press_time s ! i = int n \<and> g_i_key_press_flag s ! i = (if n > 0 then 1 else 0) \<and>
     g_i_key_pressed s ! i = (if n \<ge> 5 then 1 else 0) \<and> length (g_i_key_press_time s) = 2 \<and>
     length (g_i_key_press_flag s) = 2 \<and> length (g_i_key_pressed s) = 2"

definition binary_pins :: "key_pins \<Rightarrow> bool" where
  "binary_pins p \<longleftrightarrow> p 1 \<in> {0, 1} \<and> p 2 \<in> {0, 1}"

lemma read_key: "i < 2 \<Longrightarrow> rt_read_key_value p (int i + 1) = p (int i + 1)"
  by (auto simp: rt_read_key_value_def c_consts less_2_cases_iff)

lemma binary_pinsD: "binary_pins p \<Longrightarrow> i < 2 \<Longrightarrow> p (int i + 1) = 0 \<or> p (int i + 1) = 1"
  by (auto simp: binary_pins_def less_2_cases_iff)

definition next_run :: "key_pins \<Rightarrow> nat \<Rightarrow> nat \<Rightarrow> nat" where
  "next_run p i n = (if p (int i + 1) = 0 then Suc n else 0)"

lemma key_scan_run:
  assumes "key_run i n s" "i < 2" "binary_pins p"
  shows "key_run i (next_run p i n) (key_scan (p, p, p) i s)"
  using assms binary_pinsD [OF assms(3,2)]
  by (auto simp: key_scan_def key_run_def next_run_def Let_def read_key)

lemma key_scan_other:
  "key_run j n s \<Longrightarrow> i \<noteq> j \<Longrightarrow> key_run j n (key_scan ps i s)"
  by (auto simp: key_scan_def key_run_def Let_def split: prod.split)

lemma two_keys: "[0..<KEY_MAX_NUMBER] = [0, 1]"
  by (simp add: c_consts upt_rec)

lemma key_input_run:
  assumes "key_run 0 m s" "key_run 1 n s" "binary_pins p"
  shows "key_run 0 (next_run p 0 m) (snd (rt_handle_key_input (p, p, p) s))"
    "key_run 1 (next_run p 1 n) (snd (rt_handle_key_input (p, p, p) s))"
    "fst (rt_handle_key_input (p, p, p) s) =
       (if 5 \<le> next_run p 0 m then 1 else if 5 \<le> next_run p 1 n then 2 else 0)"
proof -
  let ?s = "key_scan (p, p, p) 1 (key_scan (p, p, p) 0 s)"
  have a: "key_run 0 (next_run p 0 m) ?s"
    by (rule key_scan_other [OF key_scan_run [OF assms(1) _ assms(3)]]) simp_all
  have b: "key_run 1 (next_run p 1 n) ?s"
    by (rule key_scan_run [OF key_scan_other [OF assms(2)] _ assms(3)]) simp_all
  show "key_run 0 (next_run p 0 m) (snd (rt_handle_key_input (p, p, p) s))"
    "key_run 1 (next_run p 1 n) (snd (rt_handle_key_input (p, p, p) s))"
    using a b by (simp_all add: rt_handle_key_input_def two_keys Let_def)
  show "fst (rt_handle_key_input (p, p, p) s) =
       (if 5 \<le> next_run p 0 m then 1 else if 5 \<le> next_run p 1 n then 2 else 0)"
    using a b by (simp add: rt_handle_key_input_def two_keys Let_def key_run_def)
qed

text \<open>The number of polls at the end of a history at which key \<open>k\<close> was low.\<close>

definition low_run :: "int \<Rightarrow> key_pins list \<Rightarrow> nat" where
  "low_run k hs = length (takeWhile (\<lambda>p. p k = 0) (rev hs))"

lemma low_run_snoc: "low_run k (hs @ [p]) = (if p k = 0 then Suc (low_run k hs) else 0)"
  by (simp add: low_run_def)

definition polls :: "key_pins list \<Rightarrow> panel \<Rightarrow> panel" where
  "polls hs s = fold (\<lambda>p s. snd (rt_handle_key_input (p, p, p) s)) hs s"

lemma polls_run:
  assumes "key_run 0 0 s" "key_run 1 0 s" "\<forall>p \<in> set hs. binary_pins p"
  shows "key_run 0 (low_run 1 hs) (polls hs s) \<and> key_run 1 (low_run 2 hs) (polls hs s)"
  using assms(3)
proof (induction hs rule: rev_induct)
  case Nil
  then show ?case using assms(1,2) by (simp add: polls_def low_run_def)
next
  case (snoc p hs)
  then have "key_run 0 (low_run 1 hs) (polls hs s)" "key_run 1 (low_run 2 hs) (polls hs s)" "binary_pins p"
    by simp_all
  note step = key_input_run(1,2) [OF this]
  then show ?case by (simp add: polls_def low_run_snoc next_run_def)
qed

section \<open>Gestures\<close>

definition idle_keys :: "panel \<Rightarrow> bool" where
  "idle_keys s \<longleftrightarrow> key_run 0 0 s \<and> key_run 1 0 s \<and> g_i_key1_press_ok s = 0 \<and> g_i_key2_press_ok s = 0 \<and>
     g_i_have_key_pressed s = 0"

text \<open>The part of the panel that other threads read.\<close>

definition settings :: "panel \<Rightarrow> u32 \<times> u32 \<times> int \<times> int \<times> int \<times> KEY_SPI \<times> int" where
  "settings s = (g_i_key_led_handle_count s, g_input_type s, g_mute s, i_mute s, i_first_mute s, g_key_spi s,
     g_key_input_pressed_flag s)"

definition run_keys :: "key_pins list \<Rightarrow> panel \<Rightarrow> panel" where
  "run_keys ps s = fold (\<lambda>p. key_input_thread_entry (p, p, p) p) ps s"

lemma key_scan_settings: "settings (key_scan ps i s) = settings s \<and>
    g_i_key1_press_ok (key_scan ps i s) = g_i_key1_press_ok s \<and>
    g_i_key2_press_ok (key_scan ps i s) = g_i_key2_press_ok s \<and>
    g_i_have_key_pressed (key_scan ps i s) = g_i_have_key_pressed s"
  by (cases ps) (simp add: key_scan_def settings_def Let_def)

text \<open>The panel without its lamps.\<close>

definition core :: "panel \<Rightarrow> panel" where
  "core s = s\<lparr>led_lit := [], g_led_init := 0, led_inited := 0\<rparr>"

lemma core_eqs:
  assumes "core s = core t"
  shows "settings s = settings t" "key_run i n s = key_run i n t" "g_i_key1_press_ok s = g_i_key1_press_ok t"
    "g_i_key2_press_ok s = g_i_key2_press_ok t" "g_i_have_key_pressed s = g_i_have_key_pressed t"
  using assms by (cases s; cases t; simp add: core_def settings_def key_run_def)+

lemma core_led [simp]:
  "core (set_led n v s) = core s" "core (rt_hw_led_on k s) = core s" "core (rt_hw_led_off k s) = core s"
  by (simp_all add: core_def set_led_def rt_hw_led_on_def rt_hw_led_off_def)

lemma core_led_init [simp]: "core (rt_hw_led_init s) = core s"
proof -
  have "core (s\<lparr>g_led_init := 1\<rparr>) = core s" by (simp add: core_def)
  then show ?thesis by (simp add: rt_hw_led_init_def)
qed

lemma core_led_set [simp]: "core (led_set n v s) = core s"
proof -
  have "core ((rt_hw_led_init s)\<lparr>led_inited := 1\<rparr>) = core (rt_hw_led_init s)" by (simp add: core_def)
  then show ?thesis by (simp add: led_set_def Let_def)
qed

lemma core_lamps [simp]: "core (panel_lamps s) = core s"
  by (simp add: panel_lamps_def rt_hw_led_mutex_def Let_def)

lemma key_input_settings:
  "settings (snd (rt_handle_key_input ps s)) = settings s"
  "g_i_key1_press_ok (snd (rt_handle_key_input ps s)) = g_i_key1_press_ok s"
  "g_i_key2_press_ok (snd (rt_handle_key_input ps s)) = g_i_key2_press_ok s"
  "g_i_have_key_pressed (snd (rt_handle_key_input ps s)) = g_i_have_key_pressed s"
  by (simp_all add: rt_handle_key_input_def two_keys Let_def key_scan_settings)

lemma select_input_keys [simp]:
  "g_i_key_press_time (select_input_type t s) = g_i_key_press_time s"
  "g_i_key_press_flag (select_input_type t s) = g_i_key_press_flag s"
  "g_i_key_pressed (select_input_type t s) = g_i_key_pressed s"
  "g_i_key1_press_ok (select_input_type t s) = g_i_key1_press_ok s"
  "g_i_key2_press_ok (select_input_type t s) = g_i_key2_press_ok s"
  "g_i_have_key_pressed (select_input_type t s) = g_i_have_key_pressed s"
  by (simp_all add: select_input_type_def Let_def)

lemma dispatch_run [simp]: "key_run i n (key_dispatch p k s) = key_run i n s"
proof -
  have "key_run i n (key1_released t) = key_run i n t" "key_run i n (key2_released t) = key_run i n t" for t
    by (simp_all add: key1_released_def key2_released_def key_run_def Let_def)
  moreover have "key_run i n (t\<lparr>g_i_key1_press_ok := a\<rparr>) = key_run i n t"
    "key_run i n (t\<lparr>g_i_key2_press_ok := a\<rparr>) = key_run i n t"
    "key_run i n (t\<lparr>g_i_key1_press_ok := a, g_i_have_key_pressed := b\<rparr>) = key_run i n t"
    "key_run i n (t\<lparr>g_i_key2_press_ok := a, g_i_have_key_pressed := b\<rparr>) = key_run i n t" for t a b
    by (simp_all add: key_run_def)
  ultimately show ?thesis by (simp add: key_dispatch_def Let_def)
qed

lemma thread_run:
  assumes "key_run 0 m s" "key_run 1 n s" "binary_pins p"
  shows "key_run 0 (next_run p 0 m) (key_input_thread_entry (p, p, p) p s)"
    "key_run 1 (next_run p 1 n) (key_input_thread_entry (p, p, p) p s)"
  using key_input_run(1,2) [OF assms]
  by (simp_all add: key_input_thread_entry_def split_def Let_def core_eqs(2) [OF core_lamps])

text \<open>Only key \<open>k\<close> is down; no key is down.\<close>

definition press :: "int \<Rightarrow> key_pins" where
  "press k j = (if j = k then 0 else 1)"

definition no_press :: key_pins where
  "no_press j = 1"

lemma press_binary: "binary_pins (press k)" "binary_pins no_press"
  by (simp_all add: binary_pins_def press_def no_press_def)

lemma run_keys_simps [simp]:
  "run_keys [] s = s" "run_keys (ps @ [p]) s = key_input_thread_entry (p, p, p) p (run_keys ps s)"
  by (simp_all add: run_keys_def)

lemma thread_core:
  "core (key_input_thread_entry (p, p, p) p s) =
     core (key_dispatch p (fst (rt_handle_key_input (p, p, p) s)) (snd (rt_handle_key_input (p, p, p) s)))"
  by (simp add: key_input_thread_entry_def split_def Let_def)

lemmas thread_eqs = core_eqs [OF thread_core]

definition holding :: "int \<Rightarrow> panel \<Rightarrow> bool" where
  "holding k s \<longleftrightarrow> g_i_have_key_pressed s = (if k = 0 then 0 else 1) \<and> g_i_key1_press_ok s = (if k = 1 then 1 else 0) \<and>
     g_i_key2_press_ok s = (if k = 2 then 1 else 0)"

definition held :: "int \<Rightarrow> nat \<Rightarrow> panel \<Rightarrow> bool" where
  "held k n s \<longleftrightarrow> key_run 0 (if k = 1 then n else 0) s \<and> key_run 1 (if k = 2 then n else 0) s"

lemma held_input:
  assumes "held k n s" "k = 1 \<or> k = 2"
  shows "held k (Suc n) (key_input_thread_entry (press k, press k, press k) (press k) s)"
    "fst (rt_handle_key_input (press k, press k, press k) s) = (if 4 \<le> n then k else 0)"
proof -
  have r: "key_run 0 (if k = 1 then n else 0) s" "key_run 1 (if k = 2 then n else 0) s"
    using assms(1) by (simp_all add: held_def)
  have n0: "next_run (press k) 0 (if k = 1 then n else 0) = (if k = 1 then Suc n else 0)"
    by (simp add: next_run_def press_def)
  have n1: "next_run (press k) 1 (if k = 2 then n else 0) = (if k = 2 then Suc n else 0)"
    by (simp add: next_run_def press_def)
  show "held k (Suc n) (key_input_thread_entry (press k, press k, press k) (press k) s)"
    using thread_run [OF r press_binary(1) [of k]] unfolding n0 n1 held_def by simp
  show "fst (rt_handle_key_input (press k, press k, press k) s) = (if 4 \<le> n then k else 0)"
    using assms(2) key_input_run(3) [OF r press_binary(1) [of k]] unfolding n0 n1 by auto
qed

lemma hold_key:
  assumes "idle_keys s" "k = 1 \<or> k = 2"
  defines "t n \<equiv> run_keys (replicate n (press k)) s"
  shows "held k n (t n) \<and> holding (if 5 \<le> n then k else 0) (t n) \<and> settings (t n) = settings s"
proof (induction n)
  case 0
  then show ?case using assms(1) by (simp add: t_def idle_keys_def holding_def held_def)
next
  case (Suc n)
  let ?p = "(press k, press k, press k)"
  let ?u = "snd (rt_handle_key_input ?p (t n))" and ?k = "if 4 \<le> n then k else 0"
  have num: "fst (rt_handle_key_input ?p (t n)) = ?k" using Suc assms(2) by (intro held_input) simp_all
  have h: "holding (if 5 \<le> n then k else 0) ?u" using Suc by (simp add: holding_def key_input_settings)
  have d: "holding (if 5 \<le> Suc n then k else 0) (key_dispatch (press k) ?k ?u) \<and>
      settings (key_dispatch (press k) ?k ?u) = settings ?u"
    using h assms(2)
    by (auto simp: key_dispatch_def holding_def settings_def rt_read_key_value_def press_def c_consts Let_def
        split: if_splits)
  have app: "t (Suc n) = key_input_thread_entry ?p (press k) (t n)"
    by (simp only: t_def replicate_Suc replicate_append_same [symmetric] run_keys_simps)
  show ?case
    using held_input(1) [of k n "t n"] d Suc assms(2) unfolding app
    by (simp add: holding_def thread_eqs num key_input_settings)
qed

text \<open>The release: at the first poll that finds the key up its action is run, if it was held long enough.\<close>

definition key_action :: "int \<Rightarrow> panel \<Rightarrow> panel" where
  "key_action k s = (if k = 1 then key1_released s else key2_released s)"

definition next_input :: "u32 \<Rightarrow> u32" where
  "next_input c = (let c = (if c = MIC_INPUT then INIT_INPUT else c) + 0x100 in if c = MIC_INPUT then INIT_INPUT else c)"

definition select_spi :: "u32 \<Rightarrow> KEY_SPI \<Rightarrow> KEY_SPI" where
  "select_spi t k = g_key_spi (select_input_type t (panel_init\<lparr>g_key_spi := k\<rparr>))"

lemma select_input_spi: "select_input_type t s = s\<lparr>g_key_spi := select_spi t (g_key_spi s)\<rparr>"
  by (simp add: select_input_type_def select_spi_def Let_def)

lemma key1_released_eq:
  "key1_released s = (let c = next_input (g_i_key_led_handle_count s) in
     s\<lparr>g_i_key1_press_ok := 0, g_i_have_key_pressed := 0, g_i_key_led_handle_count := c, g_input_type := c,
       g_key_spi := select_spi c (g_key_spi s), g_key_input_pressed_flag := 1\<rparr>)"
  unfolding key1_released_def Let_def select_input_spi next_input_def by (simp add: push_bit_eq_mult)

lemma settings_action:
  "settings s = settings t \<Longrightarrow> settings (key_action k s) = settings (key_action k t)"
  by (simp add: key_action_def key1_released_eq key2_released_def settings_def Let_def)

lemma dispatch_idle: "holding 0 u \<Longrightarrow> key_dispatch p 0 u = u"
  by (simp add: key_dispatch_def holding_def)

lemma dispatch_release1: "holding 1 u \<Longrightarrow> key_dispatch no_press n u = key1_released (u\<lparr>g_i_key2_press_ok := 0\<rparr>)"
  by (simp add: key_dispatch_def holding_def rt_read_key_value_def no_press_def c_consts Let_def key1_released_eq)

lemma dispatch_release2: "holding 2 u \<Longrightarrow> key_dispatch no_press n u = key2_released (u\<lparr>g_i_key1_press_ok := 0\<rparr>)"
  by (simp add: key_dispatch_def holding_def rt_read_key_value_def no_press_def c_consts Let_def)

lemma released_holding:
  "holding 1 u \<Longrightarrow> holding 0 (key1_released (u\<lparr>g_i_key2_press_ok := 0\<rparr>))"
  "holding 2 u \<Longrightarrow> holding 0 (key2_released (u\<lparr>g_i_key1_press_ok := 0\<rparr>))"
  by (simp_all add: holding_def key1_released_eq key2_released_def Let_def)

lemma settings_ok_flags [simp]:
  "settings (u\<lparr>g_i_key2_press_ok := a\<rparr>) = settings u" "settings (u\<lparr>g_i_key1_press_ok := a\<rparr>) = settings u"
  by (simp_all add: settings_def)

lemma dispatch_up:
  assumes "holding (if b then k else 0) u" "k = 1 \<or> k = 2"
  shows "holding 0 (key_dispatch no_press 0 u) \<and>
    settings (key_dispatch no_press 0 u) = settings (if b then key_action k u else u)"
proof (cases b)
  case True
  have e: "settings (key_action k (u\<lparr>g_i_key2_press_ok := 0\<rparr>)) = settings (key_action k u)"
    "settings (key_action k (u\<lparr>g_i_key1_press_ok := 0\<rparr>)) = settings (key_action k u)"
    by (rule settings_action; simp)+
  from True assms e show ?thesis
    by (auto simp: dispatch_release1 dispatch_release2 released_holding key_action_def)
qed (use assms in \<open>simp add: dispatch_idle\<close>)

lemma gesture:
  assumes "idle_keys s" "k = 1 \<or> k = 2"
  shows "idle_keys (run_keys (replicate n (press k) @ [no_press]) s) \<and>
    settings (run_keys (replicate n (press k) @ [no_press]) s) = settings (if 5 \<le> n then key_action k s else s)"
proof -
  let ?t = "run_keys (replicate n (press k)) s" and ?p = "(no_press, no_press, no_press)"
  let ?u = "snd (rt_handle_key_input ?p ?t)"
  have t: "held k n ?t" "holding (if 5 \<le> n then k else 0) ?t" "settings ?t = settings s"
    using hold_key [OF assms, of n] by simp_all
  have r: "key_run 0 (if k = 1 then n else 0) ?t" "key_run 1 (if k = 2 then n else 0) ?t"
    using t(1) by (simp_all add: held_def)
  have z: "next_run no_press i m = 0" for i m by (simp add: next_run_def no_press_def)
  note run = thread_run [OF r press_binary(2), unfolded z]
  have num: "fst (rt_handle_key_input ?p ?t) = 0"
    using key_input_run(3) [OF r press_binary(2)] unfolding z by simp
  have h: "holding (if 5 \<le> n then k else 0) ?u" using t(2) by (simp add: holding_def key_input_settings)
  have d: "holding 0 (key_dispatch no_press 0 ?u) \<and>
      settings (key_dispatch no_press 0 ?u) = settings (if 5 \<le> n then key_action k ?u else ?u)"
    by (rule dispatch_up [OF h assms(2)])
  have "settings ?u = settings s" using t(3) by (simp add: key_input_settings)
  from settings_action [OF this, of k] this show ?thesis
    using run d by (simp add: idle_keys_def holding_def thread_eqs num)
qed

section \<open>The cycle of inputs\<close>

definition input_code :: "nat \<Rightarrow> u32" where
  "input_code i = INIT_INPUT + word_of_nat (256 * i)"

lemma less5: "i < 5 \<longleftrightarrow> i = 0 \<or> i = 1 \<or> i = 2 \<or> i = 3 \<or> i = 4" for i :: nat
  by auto

lemma next_input_code: "i < 5 \<Longrightarrow> next_input (input_code i) = input_code ((i + 1) mod 5)"
  by (auto simp: less5 next_input_def input_code_def c_consts Let_def)

definition gestures :: "(int \<times> nat) list \<Rightarrow> key_pins list" where
  "gestures gs = concat (map (\<lambda>(k, n). replicate n (press k) @ [no_press]) gs)"

definition presses :: "int \<Rightarrow> (int \<times> nat) list \<Rightarrow> nat" where
  "presses k gs = length (filter (\<lambda>(j, n). j = k \<and> 5 \<le> n) gs)"

lemma run_keys_append: "run_keys (as @ bs) s = run_keys bs (run_keys as s)"
  by (simp add: run_keys_def)

lemma settings_fields:
  assumes "settings s = settings t"
  shows "g_i_key_led_handle_count s = g_i_key_led_handle_count t" "g_input_type s = g_input_type t"
    "g_mute s = g_mute t" "i_mute s = i_mute t" "g_key_spi s = g_key_spi t"
  using assms by (simp_all add: settings_def)

lemma gestures_run:
  assumes "idle_keys s" "\<forall>(k, n) \<in> set gs. k = 1 \<or> k = 2" "g_i_key_led_handle_count s = input_code i" "i < 5"
  defines "t \<equiv> run_keys (gestures gs) s"
  shows "idle_keys t \<and> g_i_key_led_handle_count t = input_code ((i + presses 1 gs) mod 5) \<and>
    (i_mute s \<in> {0, 1} \<longrightarrow> i_mute t = (i_mute s + int (presses 2 gs)) mod 2)"
  using assms(1-4) unfolding t_def
proof (induction gs arbitrary: s i)
  case Nil
  then show ?case by (auto simp: gestures_def presses_def run_keys_def)
next
  case (Cons g gs)
  obtain k n where g: "g = (k, n)" "k = 1 \<or> k = 2" using Cons.prems(2) by (cases g) auto
  let ?u = "run_keys (replicate n (press k) @ [no_press]) s"
  have u: "idle_keys ?u" "settings ?u = settings (if 5 \<le> n then key_action k s else s)"
    using gesture [OF Cons.prems(1) g(2), of n] by simp_all
  define j where "j = (if 5 \<le> n \<and> k = 1 then (i + 1) mod 5 else i)"
  have j: "g_i_key_led_handle_count ?u = input_code j" "j < 5"
    using settings_fields(1) [OF u(2)] Cons.prems(3,4) g(2) next_input_code [OF Cons.prems(4)]
    by (auto simp: j_def key_action_def key1_released_eq key2_released_def Let_def)
  have m: "i_mute ?u = (if 5 \<le> n \<and> k = 2 then (i_mute s + 1) mod 2 else i_mute s)"
    using settings_fields(4) [OF u(2)] g(2) by (auto simp: key_action_def key1_released_eq key2_released_def Let_def)
  then have mb: "i_mute s \<in> {0, 1} \<Longrightarrow> i_mute ?u \<in> {0, 1}" by auto
  have rest: "\<forall>(k, n) \<in> set gs. k = 1 \<or> k = 2" using Cons.prems(2) by simp
  have app: "run_keys (gestures (g # gs)) s = run_keys (gestures gs) ?u"
    by (simp add: gestures_def g run_keys_def)
  note ih = Cons.IH [OF u(1) rest j]
  have c: "(j + presses 1 gs) mod 5 = (i + presses 1 (g # gs)) mod 5"
    by (auto simp: j_def g presses_def mod_simps)
  have "i_mute s \<in> {0, 1} \<Longrightarrow> (i_mute ?u + int (presses 2 gs)) mod 2 = (i_mute s + int (presses 2 (g # gs))) mod 2"
    unfolding m by (auto simp: g presses_def mod_simps add.commute)
  then show ?case unfolding app using ih mb unfolding c by auto
qed

section \<open>Passes of the idle timer\<close>

fun idle_passes :: "'c spi_port \<Rightarrow> 'd flash_ops \<Rightarrow> cmd_db \<Rightarrow> nat \<Rightarrow> idle_timer \<times> panel \<times> 'c \<times> 'd \<Rightarrow>
    (idle_timer \<times> panel \<times> 'c \<times> 'd) option" where
  "idle_passes p F db 0 st = Some st"
| "idle_passes p F db (Suc n) st =
     (case idle_passes p F db n st of None \<Rightarrow> None | Some st \<Rightarrow> idle_timer_thread_entry p F db st)"

definition send_type :: "'c spi_port \<Rightarrow> u32 \<Rightarrow> 'c \<Rightarrow> 'c" where
  "send_type p t c = SPI_DSP_SendBytes p (bytes_of (le_bytes t)) c"

definition pending :: "nat \<Rightarrow> idle_timer \<Rightarrow> bool" where
  "pending n t \<longleftrightarrow> i_input_event t = 1 \<and> i_count t = int n \<and> i_type_count t = 0"

lemma idle_first:
  assumes "g_key_input_pressed_flag s = 1" "i_count t = 0" "i_type_count t = 0"
  shows "\<exists>t'. idle_timer_thread_entry p F db (t, s, c, d) = Some (t', s\<lparr>g_key_input_pressed_flag := 0\<rparr>, c, d) \<and>
    pending 0 t'"
  using assms by (simp add: idle_timer_thread_entry_def pending_def Let_def)

lemma idle_quiet:
  assumes "g_key_input_pressed_flag s = 0" "pending n t" "n < 7"
  shows "\<exists>t'. idle_timer_thread_entry p F db (t, s, c, d) = Some (t', s, send_type p (g_input_type s) c, d) \<and>
    pending (Suc n) t'"
  using assms by (simp add: idle_timer_thread_entry_def pending_def send_type_def Let_def)

lemma idle_store:
  assumes "g_key_input_pressed_flag s = 0" "pending 7 t"
    "store_w25q16_volume_input_type F db (g_input_type s) d = Some d'"
  shows "\<exists>t'. idle_timer_thread_entry p F db (t, s, c, d) = Some (t', s, send_type p (g_input_type s) c, d') \<and>
    i_input_event t' = 0 \<and> i_count t' = 0 \<and> i_type_count t' = 0"
  using assms by (simp add: idle_timer_thread_entry_def pending_def send_type_def Let_def)

lemma idle_waiting:
  assumes "g_key_input_pressed_flag s = 1" "i_count t = 0" "i_type_count t = 0" "n \<le> 7"
  shows "\<exists>t'. idle_passes p F db (Suc n) (t, s, c, d) =
      Some (t', s\<lparr>g_key_input_pressed_flag := 0\<rparr>, (send_type p (g_input_type s) ^^ n) c, d) \<and> pending n t'"
  using assms(4)
proof (induction n)
  case 0
  then show ?case using idle_first [OF assms(1-3), of p F db c d] by simp
next
  case (Suc n)
  let ?s = "s\<lparr>g_key_input_pressed_flag := 0\<rparr>" and ?c = "(send_type p (g_input_type s) ^^ n) c"
  obtain t' where t': "idle_passes p F db (Suc n) (t, s, c, d) = Some (t', ?s, ?c, d)" "pending n t'"
    using Suc by auto
  have "n < 7" using Suc.prems by simp
  from idle_quiet [OF _ t'(2) this, of ?s p F db ?c d] show ?case
    using t'(1) by (simp del: idle_passes.simps(2) add: idle_passes.simps(2) [of _ _ _ "Suc n"])
qed

context nor_flash
begin

lemma volume_store_ok:
  assumes "ready c"
  shows "\<exists>c'. store_w25q16_volume_input_type F db g c = Some c' \<and> ready c' \<and>
    words (mem c') = volume_image 18 (do_get_data db 1 8) g (volume_image 16 (do_get_data db 1 8) g (words (mem c)))"
proof -
  have u: "unat VOLUME_INPUT_BASE_ADDR = 4096 * 16"
    "unat (VOLUME_INPUT_BASE_ADDR + 0x1000 + 0x1000) = 4096 * 18" by (simp_all add: layout)
  obtain c1 where c1: "store_volume_copy F VOLUME_INPUT_BASE_ADDR db g c = Some c1" "ready c1"
    "words (mem c1) = volume_image 16 (do_get_data db 1 8) g (words (mem c))"
    using store_volume_copy_ok [OF assms u(1)] by auto
  obtain c2 where c2: "store_volume_copy F (VOLUME_INPUT_BASE_ADDR + 0x1000 + 0x1000) db g c1 = Some c2"
    "ready c2" "words (mem c2) = volume_image 18 (do_get_data db 1 8) g (words (mem c1))"
    using store_volume_copy_ok [OF c1(2) u(2)] by auto
  from c1 c2 show ?thesis by (simp add: store_w25q16_volume_input_type_def)
qed

end

section \<open>Run time\<close>

lemma unat_sub_le: "unat b \<le> unat a \<Longrightarrow> unat (a - b) = unat a - unat b" for a b :: u32
  by (simp add: unat_sub word_le_nat_alt)

lemma unat_mult_small: "unat a * unat b < 4294967296 \<Longrightarrow> unat (a * b) = unat a * unat b" for a b :: u32
  by (simp add: unat_word_ariths)

lemma time_fields_nat:
  assumes "time_fields r = (d, h, m, s)"
  shows "unat d = unat r div 86400" "unat h = unat r mod 86400 div 3600"
    "unat m = unat r mod 3600 div 60" "unat s = unat r mod 60"
proof -
  define n where "n = unat r"
  have n32: "n < 4294967296" using unsigned_less [of r] by (simp add: n_def)
  define a b c where "a = d * 3600 * 24" and "b = h * 3600" and "c = m * 60"
  have f: "d = r div 3600 div 24" "h = (r - a) div 3600" "m = (r - b - a) div 60" "s = r - a - b - c"
    using assms unfolding a_def b_def c_def time_fields_def Let_def prod.inject by metis+
  show d: "unat d = unat r div 86400" by (simp add: f(1) unat_div div_mult2_eq [symmetric])
  have dn: "n div 86400 * 86400 \<le> n" by simp
  have "unat (d * 3600) = unat d * 3600" using d n32 by (subst unat_mult_small) (simp_all add: n_def [symmetric])
  then have d2: "unat a = n div 86400 * 86400" unfolding a_def
    using d n32 dn by (subst unat_mult_small) (simp_all add: n_def [symmetric])
  have r1: "unat (r - a) = n mod 86400"
    by (subst unat_sub_le) (simp_all add: d2 n_def [symmetric] minus_div_mult_eq_mod)
  show h: "unat h = unat r mod 86400 div 3600" unfolding f(2) by (simp add: unat_div r1 n_def)
  have hb: "n mod 86400 div 3600 * 3600 \<le> n mod 86400" by simp
  have h2: "unat b = n mod 86400 div 3600 * 3600"
    unfolding b_def using h by (subst unat_mult_small) (simp_all add: n_def [symmetric])
  have r2: "unat (r - a - b) = n mod 3600"
    using hb by (subst unat_sub_le) (simp_all add: r1 h2 minus_div_mult_eq_mod mod_mod_cancel)
  show m: "unat m = unat r mod 3600 div 60"
    unfolding f(3) using r2 by (simp add: unat_div n_def diff_right_commute)
  have m2: "unat c = n mod 3600 div 60 * 60"
    unfolding c_def using m by (subst unat_mult_small) (simp_all add: n_def [symmetric])
  have "n mod 3600 div 60 * 60 \<le> n mod 3600" by simp
  then show "unat s = unat r mod 60"
    unfolding f(4) by (subst unat_sub_le) (simp_all add: r2 m2 minus_div_mult_eq_mod mod_mod_cancel n_def)
qed

section \<open>Properties\<close>

text \<open>
  Debouncing. While the pins are stable during a poll, \<open>rt_handle_key_input\<close> reports key 1
  exactly when it has been down at the last five polls, otherwise key 2 when that has been
  down at the last five, otherwise none: shorter contact is never reported.
\<close>

theorem debounce:
  assumes "\<forall>q \<in> set (hs @ [p]). binary_pins q"
  shows "fst (rt_handle_key_input (p, p, p) (polls hs panel_init)) =
    (if 5 \<le> low_run 1 (hs @ [p]) then 1 else if 5 \<le> low_run 2 (hs @ [p]) then 2 else 0)"
proof -
  have "key_run 0 0 panel_init" "key_run 1 0 panel_init" by (simp_all add: key_run_def panel_init_def)
  from polls_run [OF this, of hs] assms
  have "key_run 0 (low_run 1 hs) (polls hs panel_init)" "key_run 1 (low_run 2 hs) (polls hs panel_init)" "binary_pins p"
    by simp_all
  from key_input_run(3) [OF this] show ?thesis by (simp add: next_run_def low_run_snoc)
qed

theorem debounce_witness:
  "fst (rt_handle_key_input (press 2, press 2, press 2) (polls (replicate 4 (press 2)) panel_init)) = 2"
  using debounce [of "replicate 4 (press 2)" "press 2"]
  by (simp add: press_binary low_run_def press_def)

text \<open>
  The two keys. After any sequence of presses, each of one key and each followed by its
  release, key 1 has moved the input along AES, SPDIF, COAX, DVD, AD and back once for every
  press of at least five polls, key 2 has toggled the mute state as often, and shorter presses
  did nothing.
\<close>

theorem key_gestures:
  assumes "idle_keys s" "\<forall>(k, n) \<in> set gs. k = 1 \<or> k = 2" "g_i_key_led_handle_count s = input_code i" "i < 5"
    "i_mute s \<in> {0, 1}"
  shows "idle_keys (run_keys (gestures gs) s) \<and>
    g_i_key_led_handle_count (run_keys (gestures gs) s) = input_code ((i + presses 1 gs) mod 5) \<and>
    i_mute (run_keys (gestures gs) s) = (i_mute s + int (presses 2 gs)) mod 2"
  using gestures_run [OF assms(1-4)] assms(5) by blast

theorem key_gestures_witness:
  "idle_keys (run_keys (gestures [(1, 7), (2, 5), (1, 3), (1, 6)]) (panel_init\<lparr>g_i_key_led_handle_count := INIT_INPUT\<rparr>)) \<and>
   g_i_key_led_handle_count (run_keys (gestures [(1, 7), (2, 5), (1, 3), (1, 6)])
     (panel_init\<lparr>g_i_key_led_handle_count := INIT_INPUT\<rparr>)) = COAX_INPUT \<and>
   i_mute (run_keys (gestures [(1, 7), (2, 5), (1, 3), (1, 6)])
     (panel_init\<lparr>g_i_key_led_handle_count := INIT_INPUT\<rparr>)) = 0"
  using key_gestures [of "panel_init\<lparr>g_i_key_led_handle_count := INIT_INPUT\<rparr>" "[(1, 7), (2, 5), (1, 3), (1, 6)]" 0]
  by (simp add: idle_keys_def key_run_def panel_init_def input_code_def presses_def c_consts)

text \<open>
  The lamps. Whatever they showed before, after a pass of the key thread's last part exactly
  the lamp of the selected input is lit among the five input lamps, and the mute lamp is lit
  exactly when key 2 was used and the sound is on.
\<close>

theorem lamps_show_state:
  assumes "g_led_init s = 1" "length (led_lit s) = 7" "g_i_key_led_handle_count s = input_code i" "i < 5"
  shows "led_lit (panel_lamps s) =
    led_lit s ! 0 # map (\<lambda>j. j = i) [0, 1, 2, 3, 4] @ [i_first_mute s \<noteq> 0 \<and> g_mute s \<noteq> 1]"
proof -
  obtain a b c d e f g where l: "led_lit s = [a, b, c, d, e, f, g]"
    using assms(2) by (auto simp: eval_nat_numeral length_Suc_conv)
  have n: "(drop_bit 8 (input_code i) AND 0xf) - 1 = (word_of_nat i :: u32)"
    using assms(4) by (auto simp: less5 input_code_def c_consts)
  have "i = 0 \<or> i = 1 \<or> i = 2 \<or> i = 3 \<or> i = 4" using assms(4) by auto
  then show ?thesis
    unfolding panel_lamps_def assms(3) n Let_def
    by (elim disjE) (simp_all add: l rt_hw_led_mutex_def rt_hw_led_on_def rt_hw_led_off_def led_set_def set_led_def
        rt_hw_led_init_def assms(1))
qed

theorem lamps_show_state_witness:
  "led_lit (panel_lamps (panel_init\<lparr>g_led_init := 1, g_i_key_led_handle_count := input_code 2\<rparr>)) =
     [False, False, False, True, False, False, False]"
  using lamps_show_state [of "panel_init\<lparr>g_led_init := 1, g_i_key_led_handle_count := input_code 2\<rparr>" 2]
  by (simp add: panel_init_def)

text \<open>
  Saving after a quiet time. After a key press the flash is left alone for eight passes of the
  idle timer; the ninth stores the volume and the selected input in both copies, once; the input
  type is sent to the DSP on each of the eight quiet passes.
\<close>

theorem idle_timer_stores_once:
  assumes "w25q_chip q ready desel wel mem" "ready d"
    "g_key_input_pressed_flag s = 1" "i_count t = 0" "i_type_count t = 0"
  shows "(\<forall>n \<le> 7. \<exists>t'. idle_passes p (spi_flash_ops q) db (Suc n) (t, s, c, d) =
      Some (t', s\<lparr>g_key_input_pressed_flag := 0\<rparr>, (send_type p (g_input_type s) ^^ n) c, d)) \<and>
    (\<exists>t' d'. idle_passes p (spi_flash_ops q) db 9 (t, s, c, d) =
      Some (t', s\<lparr>g_key_input_pressed_flag := 0\<rparr>, (send_type p (g_input_type s) ^^ 8) c, d') \<and>
      ready d' \<and> words (mem d') = volume_image 18 (do_get_data db 1 8) (g_input_type s)
        (volume_image 16 (do_get_data db 1 8) (g_input_type s) (words (mem d))) \<and>
      i_input_event t' = 0 \<and> i_count t' = 0 \<and> i_type_count t' = 0)"
proof -
  let ?s = "s\<lparr>g_key_input_pressed_flag := 0\<rparr>" and ?F = "spi_flash_ops q"
  obtain d' where d': "store_w25q16_volume_input_type ?F db (g_input_type s) d = Some d'" "ready d'"
    "words (mem d') = volume_image 18 (do_get_data db 1 8) (g_input_type s)
        (volume_image 16 (do_get_data db 1 8) (g_input_type s) (words (mem d)))"
    using nor_flash.volume_store_ok [OF w25q_chip.driver_contract [OF assms(1)] assms(2)] by blast
  obtain t7 where t7: "idle_passes p ?F db (Suc 7) (t, s, c, d) =
      Some (t7, ?s, (send_type p (g_input_type s) ^^ 7) c, d)" "pending 7 t7"
    using idle_waiting [OF assms(3-5), of 7 p ?F db c d] by auto
  have "Suc 8 = 9" "Suc 7 = (8 :: nat)" by simp_all
  note nine = idle_passes.simps(2) [of p ?F db 8, unfolded this(1)] t7(1) [unfolded this(2)]
  have c8: "(send_type p (g_input_type s) ^^ 8) c = send_type p (g_input_type s) ((send_type p (g_input_type s) ^^ 7) c)"
    by (simp only: \<open>Suc 7 = 8\<close> [symmetric] funpow.simps comp_apply)
  have "\<exists>t'. idle_passes p ?F db 9 (t, s, c, d) =
      Some (t', ?s, (send_type p (g_input_type s) ^^ 8) c, d') \<and>
      i_input_event t' = 0 \<and> i_count t' = 0 \<and> i_type_count t' = 0"
    using idle_store [OF _ t7(2), of ?s ?F db d d' p "(send_type p (g_input_type s) ^^ 7) c"] d'(1)
    unfolding nine c8 by simp
  then show ?thesis using d' idle_waiting [OF assms(3-5), of _ p ?F db c d] by blast
qed

theorem idle_timer_stores_once_witness:
  "\<exists>t' d'. idle_passes (trace_port (\<lambda>_. 0)) (spi_flash_ops w25q_port) group_table_init 9
      (idle_init, panel_init\<lparr>g_input_type := 0x2205, g_key_input_pressed_flag := 1\<rparr>, [], blank_chip) =
    Some (t', panel_init\<lparr>g_input_type := 0x2205\<rparr>, (send_type (trace_port (\<lambda>_. 0)) 0x2205 ^^ 8) [], d') \<and>
    chip_ready d' \<and> i_count t' = 0"
proof -
  let ?s = "panel_init\<lparr>g_input_type := 0x2205, g_key_input_pressed_flag := 1\<rparr>"
  have s: "?s\<lparr>g_key_input_pressed_flag := 0\<rparr> = panel_init\<lparr>g_input_type := 0x2205\<rparr>" "g_input_type ?s = 0x2205"
    by (simp_all add: panel_init_def)
  have i: "g_key_input_pressed_flag ?s = 1" "i_count idle_init = 0" "i_type_count idle_init = 0"
    by (simp_all add: idle_init_def)
  show ?thesis
    using idle_timer_stores_once [OF w25q_model blank_ready i, of "trace_port (\<lambda>_. 0)" group_table_init "[]"]
    unfolding s by blast
qed

text \<open>
  \<open>time\<close> prints the run time correctly: the four numbers it prints are the days, hours, minutes
  and seconds of the counter, for every value of the counter.
\<close>

theorem time_splits_runtime:
  assumes "time_fields r = (d, h, m, s)"
  shows "unat d * 86400 + unat h * 3600 + unat m * 60 + unat s = unat r \<and> unat h < 24 \<and> unat m < 60 \<and> unat s < 60"
proof -
  note f = time_fields_nat [OF assms]
  define n where "n = unat r"
  have "n mod 3600 = n mod 86400 mod 3600" "n mod 60 = n mod 3600 mod 60" by (simp_all add: mod_mod_cancel)
  then have "n div 86400 * 86400 + n mod 86400 div 3600 * 3600 + n mod 3600 div 60 * 60 + n mod 60 = n"
    by (metis div_mult_mod_eq add.assoc)
  moreover have "n mod 86400 div 3600 < 24" "n mod 3600 div 60 < 60" "n mod 60 < 60"
    by (simp_all add: less_mult_imp_div_less)
  ultimately show ?thesis by (simp add: f n_def)
qed

theorem time_splits_runtime_witness:
  "\<exists>d h m s. time_fields 100000 = (d, h, m, s) \<and> unat d * 86400 + unat h * 3600 + unat m * 60 + unat s = 100000"
proof -
  obtain d h m s where t: "time_fields 100000 = (d, h, m, s)" by (cases "time_fields 100000") auto
  show ?thesis using t time_splits_runtime [OF t] by simp
qed

end
