(* ===== verification/Net_Link.thy ===== *)
theory Net_Link
  imports Front_Panel
begin

text \<open>
  The STM32 between the PC and the DSP: the TCP side of \<open>USER/tcpserver.c\<close> (start-up, receiving,
  \<open>handle_net_data\<close>, \<open>tcp_send_instruction_to_dsp\<close>, \<open>send_instru_via_socket\<close>) and the thread of
  \<open>USER/application.c\<close> that owns the SPI link. The two share a single instruction word, a counting
  semaphore, the tables and the panel. The socket calls are the list of what was sent; the flash
  and the link are used through their drivers.
\<close>

section \<open>State\<close>

datatype stm_fault = Recv_Overrun | Flash_Silent | Encode_Failed

record ('c, 'd) stm =
  db :: cmd_db
  pan :: panel
  link :: 'c
  flash :: 'd
  g_i_instruction :: u32
  tcp_dsp_sem :: nat
  g_set_volume_to_dsp_flag :: int
  g_volume :: u32
  g_i_connected_flag :: int
  g_i_connected_id :: int
  sock_out :: "(int \<times> cmd4) list"

definition RECEIVE_DATA_LEN :: nat where [c_consts]: "RECEIVE_DATA_LEN = 1024"

text \<open>\<open>do_set_cmd_entry\<close> on the tables of the state.\<close>

definition set_entry_cmd :: "cmd4 \<Rightarrow> ('c, 'd) stm \<Rightarrow> stm_fault + ('c, 'd) stm" where
  "set_entry_cmd c s =
     (case do_set_cmd_entry (SET_ENTRY_CMD c) (db s) of None \<Rightarrow> Inl Encode_Failed | Some d \<Rightarrow> Inr (s\<lparr>db := d\<rparr>))"

definition send_word :: "'c spi_port \<Rightarrow> u32 \<Rightarrow> ('c, 'd) stm \<Rightarrow> ('c, 'd) stm" where
  "send_word p w s = s\<lparr>link := SPI_DSP_SendBytes p (bytes_of (le_bytes w)) (link s)\<rparr>"

section \<open>The TCP side\<close>

definition release_sem :: "('c, 'd) stm \<Rightarrow> ('c, 'd) stm" where
  "release_sem s = s\<lparr>tcp_dsp_sem := tcp_dsp_sem s + 1\<rparr>"

text \<open>One command of a packet: the PC opens, the PC closes, or a parameter.\<close>

definition handle_net_cmd :: "'d flash_ops \<Rightarrow> int \<Rightarrow> cmd4 \<Rightarrow> ('c, 'd) stm \<Rightarrow> stm_fault + ('c, 'd) stm" where
  "handle_net_cmd F i_connected c s =
     (if c = (0x06, 0x01, 0x00, 0x00) then
        Inr (s\<lparr>sock_out := sock_out s @ map (Pair i_connected) (send_data_to_pc (db s))\<rparr>)
      else if c = (0x06, 0x02, 0x00, 0x00) then
        let s = s\<lparr>g_set_volume_to_dsp_flag := 1\<rparr>
        in case store_w25q16 F (db s) (g_input_type (pan s)) (flash s) of
             None \<Rightarrow> Inl Flash_Silent | Some d \<Rightarrow> Inr (s\<lparr>flash := d\<rparr>)
      else bindE (set_entry_cmd c s) (\<lambda>s. Inr (release_sem (s\<lparr>g_i_instruction := be_word c\<rparr>))))"

text \<open>\<open>handle_net_data\<close>; the caller passes a multiple of four bytes.\<close>

fun handle_net_data :: "'d flash_ops \<Rightarrow> int \<Rightarrow> u8 list \<Rightarrow> ('c, 'd) stm \<Rightarrow> stm_fault + ('c, 'd) stm" where
  "handle_net_data F fd (b0 # b1 # b2 # b3 # bs) s =
     bindE (handle_net_cmd F fd (b0, b1, b2, b3) s) (handle_net_data F fd bs)"
| "handle_net_data F fd _ s = Inr s"

text \<open>
  The reply of \<open>recv\<close>, \<open>None\<close> when it is zero or negative: the connection is closed. Otherwise a zero is
  written behind the data and a packet of whole commands is handled.
\<close>

definition tcp_received :: "'d flash_ops \<Rightarrow> int \<Rightarrow> u8 list option \<Rightarrow> ('c, 'd) stm \<Rightarrow> stm_fault + ('c, 'd) stm" where
  "tcp_received F connected reply s =
     (case reply of
        None \<Rightarrow> Inr (s\<lparr>g_i_connected_flag := 0, g_i_connected_id := 0\<rparr>)
      | Some bs \<Rightarrow>
          if length bs \<ge> RECEIVE_DATA_LEN then Inl Recv_Overrun
          else if length bs mod 4 = 0 \<and> length bs \<noteq> 0 then handle_net_data F connected bs s
          else Inr s)"

definition tcp_accepted :: "int \<Rightarrow> ('c, 'd) stm \<Rightarrow> ('c, 'd) stm" where
  "tcp_accepted connected s = s\<lparr>g_i_connected_flag := 1, g_i_connected_id := connected\<rparr>"

definition send_instru_via_socket :: "int \<Rightarrow> u32 \<Rightarrow> ('c, 'd) stm \<Rightarrow> ('c, 'd) stm" where
  "send_instru_via_socket link_status v s =
     (if g_i_connected_flag s = 1 then
        if link_status = 1 then s\<lparr>sock_out := sock_out s @ [(g_i_connected_id s, le_bytes v)]\<rparr> else s
      else s)"

text \<open>The start of \<open>tcpserv\<close> after the sockets are open.\<close>

definition tcpserv_start :: "'c spi_port \<Rightarrow> 'd flash_ops \<Rightarrow> ('c, 'd) stm \<Rightarrow> stm_fault + ('c, 'd) stm" where
  "tcpserv_start p F s =
     (case read_reboot_times F (flash s) of
        None \<Rightarrow> Inl Flash_Silent
      | Some (n, d) \<Rightarrow>
          (case read_w25q16 F (db s, d) of
             None \<Rightarrow> Inl Flash_Silent
           | Some (t, d) \<Rightarrow>
               let s = s\<lparr>db := t, flash := d\<rparr>;
                   v = do_get_data (db s) 1 8;
                   s = s\<lparr>g_volume := (if v \<noteq> -1 then v else push_bit 16 (0x60 div 2) OR 0x00000005)\<rparr>;
                   v = do_get_data (db s) 1 9;
                   s = s\<lparr>pan := (pan s)\<lparr>g_input_type := (if v \<noteq> -1 then v else INIT_INPUT)\<rparr>\<rparr>;
                   s = s\<lparr>pan := (pan s)\<lparr>g_i_key_led_handle_count := g_input_type (pan s)\<rparr>\<rparr>
               in Inr (s\<lparr>link := send_data_to_dsp p (db s) (link s)\<rparr>)))"

section \<open>The SPI side\<close>

definition tcp_send_instruction_to_dsp :: "'c spi_port \<Rightarrow> ('c, 'd) stm \<Rightarrow> ('c, 'd) stm" where
  "tcp_send_instruction_to_dsp p s =
     (if 0x05260000 = g_i_instruction s then
        let (q, c) = code_to_dsp p 6 (pan s, link s) in s\<lparr>pan := q, link := c\<rparr>
      else send_word p (g_i_instruction s) s)"

definition Tranverse32 :: "u32 \<Rightarrow> u32" where
  "Tranverse32 x = drop_bit 24 (x AND 0xff000000) OR drop_bit 8 (x AND 0x00ff0000)
     OR push_bit 8 (x AND 0x0000ff00) OR push_bit 24 (x AND 0x000000ff)"

lemma Tranverse32_be: "Tranverse32 v = be_word (le_bytes v)"
proof (rule bit_word_eqI)
  fix n
  assume n: "n < LENGTH(32)"
  have m: "(0xff :: u32) = mask 8" "(0xff00 :: u32) = push_bit 8 (mask 8)" "(0xff0000 :: u32) = push_bit 16 (mask 8)"
    "(0xff000000 :: u32) = push_bit 24 (mask 8)" by (simp_all add: mask_eq_exp_minus_1)
  from n consider "n < 8" | "8 \<le> n" "n < 16" | "16 \<le> n" "n < 24" | "24 \<le> n" "n < 32"
    by fastforce
  then show "bit (Tranverse32 v) n = bit (be_word (le_bytes v)) n"
    unfolding Tranverse32_def m by cases (auto simp: be_word_def le_bytes_def bit_simps)
qed

text \<open>What the SPI thread sends once when it starts.\<close>

definition SPI_DSP_thread_start :: "'c spi_port \<Rightarrow> ('c, 'd) stm \<Rightarrow> ('c, 'd) stm" where
  "SPI_DSP_thread_start p s = send_word p (g_volume s) (send_word p (g_input_type (pan s)) s)"

text \<open>The parts of its loop: the semaphore, the mute key, the volume set by the PC, the report of the DSP.\<close>

definition spi_take :: "'c spi_port \<Rightarrow> ('c, 'd) stm \<Rightarrow> ('c, 'd) stm" where
  "spi_take p s =
     (if tcp_dsp_sem s > 0 then tcp_send_instruction_to_dsp p (s\<lparr>tcp_dsp_sem := tcp_dsp_sem s - 1\<rparr>) else s)"

definition spi_mute :: "'c spi_port \<Rightarrow> ('c, 'd) stm \<Rightarrow> ('c, 'd) stm" where
  "spi_mute p s =
     (if mute_select (g_key_spi (pan s)) = 1 then
        let s = s\<lparr>pan := (pan s)\<lparr>g_key_spi := (g_key_spi (pan s))\<lparr>mute_select := 0\<rparr>\<rparr>\<rparr>
        in send_word p (0x05E00000 OR push_bit 16 (word_of_int (g_mute (pan s)))) s
      else s)"

definition spi_volume :: "'c spi_port \<Rightarrow> ('c, 'd) stm \<Rightarrow> ('c, 'd) stm" where
  "spi_volume p s =
     (if g_set_volume_to_dsp_flag s = 1 then
        let s = s\<lparr>g_set_volume_to_dsp_flag := 0\<rparr>
        in send_word p (Tranverse32 (do_get_data (db s) 1 8)) s
      else s)"

definition spi_poll :: "'c spi_port \<Rightarrow> int \<Rightarrow> ('c, 'd) stm \<Rightarrow> stm_fault + ('c, 'd) stm" where
  "spi_poll p link_status s =
     (let (v, c) = SPI_DSP_ReadByte p (link s); s = s\<lparr>link := c\<rparr>
      in if v \<noteq> 0 \<and> v \<noteq> 0xffffffff then
           bindE (set_entry_cmd (le_bytes v) s) (\<lambda>s.
             let s = send_instru_via_socket link_status v s
             in Inr (s\<lparr>pan := (pan s)\<lparr>g_key_input_pressed_flag := 1\<rparr>\<rparr>))
         else Inr s)"

definition SPI_DSP_thread_entry :: "'c spi_port \<Rightarrow> int \<Rightarrow> ('c, 'd) stm \<Rightarrow> stm_fault + ('c, 'd) stm" where
  "SPI_DSP_thread_entry p link_status s = spi_poll p link_status (spi_volume p (spi_mute p (spi_take p s)))"


section \<open>Packets\<close>

text \<open>A command that is stored and forwarded: not one of the two session commands.\<close>

definition forwarded :: "cmd4 \<Rightarrow> bool" where
  "forwarded c \<longleftrightarrow> c \<noteq> (0x06, 0x01, 0x00, 0x00) \<and> c \<noteq> (0x06, 0x02, 0x00, 0x00)"

definition packet :: "cmd4 list \<Rightarrow> u8 list" where
  "packet cs = concat (map bytes_of cs)"

definition store_cmd :: "cmd4 \<Rightarrow> cmd_db \<Rightarrow> cmd_db" where
  "store_cmd c d = (case do_set_cmd_entry (SET_ENTRY_CMD c) d of None \<Rightarrow> d | Some d' \<Rightarrow> d')"

lemma length_packet [simp]: "length (packet cs) = 4 * length cs"
  by (induction cs) (simp_all add: packet_def)

lemma packet_simps [simp]: "packet [] = []" "packet (c # cs) = bytes_of c @ packet cs"
  by (simp_all add: packet_def)

lemma handle_net_data_packet:
  "handle_net_data F fd (packet (c # cs)) s = bindE (handle_net_cmd F fd c s) (handle_net_data F fd (packet cs))"
  by (cases c) (simp add: bytes_of_def)

fun commands :: "u8 list \<Rightarrow> cmd4 list" where
  "commands (b0 # b1 # b2 # b3 # bs) = (b0, b1, b2, b3) # commands bs"
| "commands _ = []"

lemma mod_4_add: "Suc (Suc (Suc (Suc n))) mod 4 = n mod 4"
  by presburger

lemma commands_packet: "length bs mod 4 = 0 \<Longrightarrow> packet (commands bs) = bs"
  by (induction bs rule: commands.induct) (simp_all add: bytes_of_def mod_4_add)

lemma set_entry_ok:
  assumes "db_ok (db s)"
  shows "set_entry_cmd c s = Inr (s\<lparr>db := store_cmd c (db s)\<rparr>)" "db_ok (store_cmd c (db s))"
  using do_add_cmd_cases [OF assms, of c]
  by (auto simp: set_entry_cmd_def store_cmd_def do_set_cmd_entry_def)

lemma net_forward:
  assumes "db_ok (db s)" "forwarded c"
  shows "handle_net_cmd F fd c s =
    Inr (s\<lparr>db := store_cmd c (db s), g_i_instruction := be_word c, tcp_dsp_sem := tcp_dsp_sem s + 1\<rparr>)"
  using assms(2) set_entry_ok(1) [OF assms(1), of c]
  by (simp add: handle_net_cmd_def forwarded_def release_sem_def)

lemma fold_store_ok: "db_ok d \<Longrightarrow> db_ok (fold store_cmd cs d)"
proof (induction cs arbitrary: d)
  case (Cons c cs)
  have "db_ok (store_cmd c d)"
    using do_add_cmd_cases [OF Cons.prems, of c] by (auto simp: store_cmd_def do_set_cmd_entry_def)
  with Cons.IH show ?case by simp
qed simp

lemma net_packet:
  assumes "db_ok (db s)" "list_all forwarded cs"
  shows "handle_net_data F fd (packet cs) s =
    Inr (s\<lparr>db := fold store_cmd cs (db s),
           g_i_instruction := (if cs = [] then g_i_instruction s else be_word (last cs)),
           tcp_dsp_sem := tcp_dsp_sem s + length cs\<rparr>)"
  using assms
proof (induction cs arbitrary: s)
  case (Cons c cs)
  let ?s = "s\<lparr>db := store_cmd c (db s), g_i_instruction := be_word c, tcp_dsp_sem := tcp_dsp_sem s + 1\<rparr>"
  have "db_ok (db ?s)" using set_entry_ok(2) [OF Cons.prems(1)] by simp
  note IH = Cons.IH [OF this]
  have c: "forwarded c" "list_all forwarded cs" using Cons.prems(2) by simp_all
  show ?case unfolding handle_net_data_packet net_forward [OF Cons.prems(1) c(1)] using IH [OF c(2)] by simp
qed simp


section \<open>The SPI thread on a recorded bus\<close>

text \<open>Nothing for the SPI thread to send but what the semaphore asks for.\<close>

definition spi_quiet :: "('c, 'd) stm \<Rightarrow> bool" where
  "spi_quiet s \<longleftrightarrow> mute_select (g_key_spi (pan s)) \<noteq> 1 \<and> g_set_volume_to_dsp_flag s \<noteq> 1"

abbreviation silent_port :: "spi_event list spi_port" where
  "silent_port \<equiv> trace_port (\<lambda>_. 0xff)"

definition poll_frame :: "spi_event list" where
  "poll_frame = frame [0xff, 0xff, 0xff, 0xff]"

definition word_frame :: "u32 \<Rightarrow> spi_event list" where
  "word_frame w = frame (bytes_of (le_bytes w))"

lemma split_word_frame [simp]:
  "split_frames None (word_frame w @ es) = bytes_of (le_bytes w) # split_frames None es"
  "split_frames None (poll_frame @ es) = [0xff, 0xff, 0xff, 0xff] # split_frames None es"
  by (simp_all add: word_frame_def poll_frame_def)

lemma received_Nil [simp]: "received_words [] = []"
  by (simp add: received_words_def)

lemma received_frames [simp]:
  "received_words (word_frame w @ es) = w # received_words es"
  "received_words (poll_frame @ es) = 0xffffffff # received_words es"
proof -
  have "le_word (0xff, 0xff, 0xff, 0xff) = 0xffffffff" by code_simp
  then show "received_words (poll_frame @ es) = 0xffffffff # received_words es"
    by (simp add: received_words_def lsb_first_word_def of_bytes_def)
qed (simp add: received_words_def lsb_first_word_def)

lemma poll_silent: "spi_poll silent_port ls s = Inr (s\<lparr>link := link s @ poll_frame\<rparr>)"
proof -
  have "be_word (0xff, 0xff, 0xff, 0xff) = 0xffffffff" by code_simp
  then show ?thesis by (simp add: spi_poll_def ReadByte_trace poll_frame_def)
qed

lemma pass_quiet:
  assumes "spi_quiet s" "tcp_dsp_sem s = 0"
  shows "SPI_DSP_thread_entry silent_port ls s = Inr (s\<lparr>link := link s @ poll_frame\<rparr>)"
  using assms
  by (simp add: SPI_DSP_thread_entry_def spi_quiet_def spi_take_def spi_mute_def spi_volume_def poll_silent)

lemma pass_send:
  assumes "spi_quiet s" "tcp_dsp_sem s = Suc n" "g_i_instruction s \<noteq> 0x05260000"
  shows "SPI_DSP_thread_entry silent_port ls s =
    Inr (s\<lparr>link := link s @ word_frame (g_i_instruction s) @ poll_frame, tcp_dsp_sem := n\<rparr>)"
  using assms
  by (simp add: SPI_DSP_thread_entry_def spi_quiet_def spi_take_def spi_mute_def spi_volume_def poll_silent
      tcp_send_instruction_to_dsp_def send_word_def word_frame_def)

fun spi_passes :: "'c spi_port \<Rightarrow> int \<Rightarrow> nat \<Rightarrow> ('c, 'd) stm \<Rightarrow> stm_fault + ('c, 'd) stm" where
  "spi_passes p ls 0 s = Inr s"
| "spi_passes p ls (Suc n) s = bindE (SPI_DSP_thread_entry p ls s) (spi_passes p ls n)"

lemma passes_send:
  assumes "spi_quiet s" "tcp_dsp_sem s = n" "g_i_instruction s \<noteq> 0x05260000"
  shows "spi_passes silent_port ls n s =
    Inr (s\<lparr>link := link s @ concat (replicate n (word_frame (g_i_instruction s) @ poll_frame)), tcp_dsp_sem := 0\<rparr>)"
  using assms
proof (induction n arbitrary: s)
  case (Suc n)
  let ?s = "s\<lparr>link := link s @ word_frame (g_i_instruction s) @ poll_frame, tcp_dsp_sem := n\<rparr>"
  have "spi_quiet ?s" "tcp_dsp_sem ?s = n" "g_i_instruction ?s \<noteq> 0x05260000"
    using Suc.prems by (simp_all add: spi_quiet_def)
  from Suc.IH [OF this] show ?case by (simp add: pass_send [OF Suc.prems])
qed simp

lemma received_replicate:
  "received_words (concat (replicate n (word_frame w @ poll_frame))) = concat (replicate n [w, 0xffffffff])"
  by (induction n) simp_all

text \<open>A packet of one command, followed by one pass of the SPI thread.\<close>

fun one_by_one :: "'c spi_port \<Rightarrow> 'd flash_ops \<Rightarrow> int \<Rightarrow> int \<Rightarrow> cmd4 list \<Rightarrow> ('c, 'd) stm \<Rightarrow> stm_fault + ('c, 'd) stm" where
  "one_by_one p F fd ls [] s = Inr s"
| "one_by_one p F fd ls (c # cs) s =
     bindE (tcp_received F fd (Some (packet [c])) s) (\<lambda>s.
       bindE (SPI_DSP_thread_entry p ls s) (one_by_one p F fd ls cs))"

lemma received_packet:
  assumes "db_ok (db s)" "list_all forwarded cs" "cs \<noteq> []" "length cs < 256"
  shows "tcp_received F fd (Some (packet cs)) s =
    Inr (s\<lparr>db := fold store_cmd cs (db s), g_i_instruction := be_word (last cs),
           tcp_dsp_sem := tcp_dsp_sem s + length cs\<rparr>)"
  using net_packet [OF assms(1,2), of F fd] assms(3,4) by (simp add: tcp_received_def c_consts)

text \<open>The command that selects the microphone is replaced by a panel action.\<close>

definition mic_cmd :: "cmd4 \<Rightarrow> bool" where
  "mic_cmd c \<longleftrightarrow> be_word c = 0x05260000"

lemma mute_kept: "mute_select (select_spi t k) = mute_select k"
  by (simp add: select_spi_def select_input_type_def Let_def no_input_def)

text \<open>The word that the SPI thread sends for a command.\<close>

definition sent_word :: "cmd4 \<Rightarrow> u32" where
  "sent_word c = (if mic_cmd c then MIC_INPUT else be_word c)"

lemma pass_mic:
  assumes "spi_quiet s" "tcp_dsp_sem s = Suc n" "g_i_instruction s = 0x05260000"
  shows "SPI_DSP_thread_entry silent_port ls s =
    Inr (s\<lparr>pan := (pan s)\<lparr>g_i_key_led_handle_count := MIC_INPUT, g_input_type := MIC_INPUT, g_key_spi := select_spi MIC_INPUT (g_key_spi (pan s)),
        g_key_input_pressed_flag := 1\<rparr>, link := link s @ word_frame MIC_INPUT @ poll_frame, tcp_dsp_sem := n\<rparr>)"
  using assms
  by (simp add: SPI_DSP_thread_entry_def spi_quiet_def spi_take_def spi_mute_def spi_volume_def poll_silent
      tcp_send_instruction_to_dsp_def code_to_dsp_def code_input_def Let_def select_input_spi mute_kept word_frame_def)

lemma one_by_one_run:
  fixes s :: "(spi_event list, 'd) stm"
  assumes "spi_quiet s" "tcp_dsp_sem s = 0" "db_ok (db s)" "list_all forwarded cs"
  shows "\<exists>s'. one_by_one silent_port F fd ls cs s = Inr s' \<and> db s' = fold store_cmd cs (db s) \<and> tcp_dsp_sem s' = 0 \<and>
    g_input_type (pan s') = (if list_ex mic_cmd cs then MIC_INPUT else g_input_type (pan s)) \<and>
    link s' = link s @ concat (map (\<lambda>c. word_frame (sent_word c) @ poll_frame) cs)"
  using assms
proof (induction cs arbitrary: s)
  case (Cons c cs)
  let ?s1 = "s\<lparr>db := store_cmd c (db s), g_i_instruction := be_word c, tcp_dsp_sem := 1\<rparr>"
  have 1: "tcp_received F fd (Some (packet [c])) s = Inr ?s1"
    using received_packet [of s "[c]" F fd] Cons.prems by simp
  have q: "spi_quiet ?s1" using Cons.prems(1) by (simp add: spi_quiet_def)
  obtain s2 where 2: "SPI_DSP_thread_entry silent_port ls ?s1 = Inr s2" and s2: "spi_quiet s2" "tcp_dsp_sem s2 = 0" "db s2 = store_cmd c (db s)"
    "g_input_type (pan s2) = (if mic_cmd c then MIC_INPUT else g_input_type (pan s))" "link s2 = link s @ word_frame (sent_word c) @ poll_frame"
  proof (cases "mic_cmd c")
    case True
    then show ?thesis using that pass_mic [OF q, of 0 ls] q by (simp add: mic_cmd_def spi_quiet_def mute_kept sent_word_def)
  next
    case False
    then show ?thesis using that pass_send [OF q, of 0 ls] q by (simp add: mic_cmd_def spi_quiet_def sent_word_def)
  qed
  have "db_ok (db s2)" using s2(3) set_entry_ok(2) [OF Cons.prems(3)] by simp
  from Cons.IH [OF s2(1,2) this] Cons.prems(4) 1 2 s2 show ?case by auto
qed simp

lemma received_one_by_one:
  "received_words (concat (map (\<lambda>c. word_frame (sent_word c) @ poll_frame) cs)) = concat (map (\<lambda>c. [sent_word c, 0xffffffff]) cs)"
  by (induction cs) simp_all

section \<open>The threads together\<close>

text \<open>
  One pass of one of the threads that share the state: the events of the TCP server, a pass of the
  SPI thread, of the key thread and of the idle timer. The scheduler of RT-Thread may order them
  in any way; the passes are taken as atomic.
\<close>

datatype stm_event =
    Accept int | Packet int "u8 list" | Closed int | Spi_Pass int
  | Key_Pass "key_pins \<times> key_pins \<times> key_pins" key_pins | Idle_Pass

definition stm_exec :: "'c spi_port \<Rightarrow> 'd flash_ops \<Rightarrow> stm_event \<Rightarrow> idle_timer \<times> ('c, 'd) stm
    \<Rightarrow> stm_fault + idle_timer \<times> ('c, 'd) stm" where
  "stm_exec p F ev ts =
     (case ts of (t, s) \<Rightarrow>
      case ev of
        Accept fd \<Rightarrow> Inr (t, tcp_accepted fd s)
      | Packet fd bs \<Rightarrow> map_sum id (Pair t) (tcp_received F fd (Some bs) s)
      | Closed fd \<Rightarrow> map_sum id (Pair t) (tcp_received F fd None s)
      | Spi_Pass ls \<Rightarrow> map_sum id (Pair t) (SPI_DSP_thread_entry p ls s)
      | Key_Pass ps p4 \<Rightarrow> Inr (t, s\<lparr>pan := key_input_thread_entry ps p4 (pan s)\<rparr>)
      | Idle_Pass \<Rightarrow>
          (case idle_timer_thread_entry p F (db s) (t, pan s, link s, flash s) of
             None \<Rightarrow> Inl Flash_Silent
           | Some (t, q, c, d) \<Rightarrow> Inr (t, s\<lparr>pan := q, link := c, flash := d\<rparr>)))"

fun stm_run :: "'c spi_port \<Rightarrow> 'd flash_ops \<Rightarrow> stm_event list \<Rightarrow> idle_timer \<times> ('c, 'd) stm
    \<Rightarrow> stm_fault + idle_timer \<times> ('c, 'd) stm" where
  "stm_run p F [] ts = Inr ts"
| "stm_run p F (ev # evs) ts = bindE (stm_exec p F ev ts) (stm_run p F evs)"

definition small_packet :: "stm_event \<Rightarrow> bool" where
  "small_packet ev = (case ev of Packet fd bs \<Rightarrow> length bs < RECEIVE_DATA_LEN | _ \<Rightarrow> True)"

definition stm_ok :: "('d \<Rightarrow> bool) \<Rightarrow> ('c, 'd) stm \<Rightarrow> bool" where
  "stm_ok ready s \<longleftrightarrow> db_ok (db s) \<and> ready (flash s) \<and> (g_i_connected_flag s \<noteq> 1 \<longrightarrow> g_i_connected_flag s = 0 \<and> g_i_connected_id s = 0)"

lemma stm_ok_cong [simp]:
  "stm_ok R (s\<lparr>pan := q\<rparr>) = stm_ok R s" "stm_ok R (s\<lparr>link := c\<rparr>) = stm_ok R s"
  "stm_ok R (s\<lparr>g_i_instruction := i\<rparr>) = stm_ok R s" "stm_ok R (s\<lparr>tcp_dsp_sem := n\<rparr>) = stm_ok R s"
  "stm_ok R (s\<lparr>g_set_volume_to_dsp_flag := f\<rparr>) = stm_ok R s" "stm_ok R (s\<lparr>sock_out := so\<rparr>) = stm_ok R s"
  by (simp_all add: stm_ok_def)

lemma stm_ok_db: "stm_ok R s \<Longrightarrow> db_ok (db s)"
  by (simp add: stm_ok_def)

lemma stm_ok_store: "stm_ok R s \<Longrightarrow> stm_ok R (s\<lparr>db := store_cmd c (db s)\<rparr>)"
  using set_entry_ok(2) [of s c] by (simp add: stm_ok_def)

lemma spi_parts_ok [simp]:
  "stm_ok R (spi_take p s) = stm_ok R s" "stm_ok R (spi_mute p s) = stm_ok R s" "stm_ok R (spi_volume p s) = stm_ok R s"
  by (simp_all add: spi_take_def spi_mute_def spi_volume_def tcp_send_instruction_to_dsp_def send_word_def Let_def
      split: prod.splits)

lemma poll_ok:
  assumes "stm_ok R s"
  shows "\<exists>s'. spi_poll p ls s = Inr s' \<and> stm_ok R s'"
proof -
  obtain v c where v: "SPI_DSP_ReadByte p (link s) = (v, c)" by force
  let ?s = "s\<lparr>link := c\<rparr>"
  have s: "stm_ok R ?s" using assms by simp
  show ?thesis
    using s stm_ok_store [OF s, of "le_bytes v"]
    by (simp add: spi_poll_def v set_entry_ok(1) [OF stm_ok_db [OF s]] send_instru_via_socket_def Let_def)
qed

context nor_flash
begin

lemma net_cmd_ok:
  fixes s :: "('l, 'c) stm"
  assumes "stm_ok ready s"
  shows "\<exists>s'. handle_net_cmd F fd c s = Inr s' \<and> stm_ok ready s'"
proof (cases "c = (0x06, 0x02, 0x00, 0x00)")
  case True
  have "db_ok (db s)" "ready (flash s)" using assms by (simp_all add: stm_ok_def)
  with store_ok [OF _ db_words_length] obtain d where
    "store_w25q16 F (db s) (g_input_type (pan s)) (flash s) = Some d" "ready d" by blast
  with assms show ?thesis by (simp add: handle_net_cmd_def True stm_ok_def)
next
  case False
  show ?thesis
  proof (cases "forwarded c")
    case True
    with assms stm_ok_store [OF assms, of c] show ?thesis
      by (simp add: net_forward [OF stm_ok_db [OF assms]])
  next
    case c: False
    with False have "c = (0x06, 0x01, 0x00, 0x00)" by (simp add: forwarded_def)
    with assms show ?thesis by (simp add: handle_net_cmd_def)
  qed
qed

lemma net_data_ok:
  fixes s :: "('l, 'c) stm"
  assumes "stm_ok ready s"
  shows "\<exists>s'. handle_net_data F fd (packet cs) s = Inr s' \<and> stm_ok ready s'"
  using assms
proof (induction cs arbitrary: s)
  case (Cons c cs)
  from net_cmd_ok [OF Cons.prems] obtain s' where "handle_net_cmd F fd c s = Inr s'" "stm_ok ready s'" by blast
  with Cons.IH show ?case unfolding handle_net_data_packet by simp
qed simp

lemma received_ok:
  fixes s :: "('l, 'c) stm"
  assumes "stm_ok ready s" "length bs < RECEIVE_DATA_LEN"
  shows "\<exists>s'. tcp_received F fd (Some bs) s = Inr s' \<and> stm_ok ready s'"
proof (cases "length bs mod 4 = 0 \<and> length bs \<noteq> 0")
  case True
  with net_data_ok [OF assms(1), of fd "commands bs"] assms(2) show ?thesis
    by (simp add: tcp_received_def commands_packet)
next
  case False
  with assms show ?thesis by (auto simp: tcp_received_def)
qed

lemma idle_ok:
  assumes "ready d"
  shows "\<exists>t' q' c' d'. idle_timer_thread_entry p F tb (t, q, c, d) = Some (t', q', c', d') \<and> ready d'"
proof -
  obtain d' where d': "store_w25q16_volume_input_type F tb (g_input_type q) d = Some d'" "ready d'"
    using volume_store_ok [OF assms] by blast
  then show ?thesis
    using assms by (simp add: idle_timer_thread_entry_def Let_def d' split: prod.splits)
qed

lemma exec_ok:
  fixes s :: "('l, 'c) stm"
  assumes "stm_ok ready s" "small_packet ev"
  shows "\<exists>t' s'. stm_exec p F ev (t, s) = Inr (t', s') \<and> stm_ok ready s'"
proof (cases ev)
  case (Packet fd bs)
  have "length bs < RECEIVE_DATA_LEN" using assms(2) by (simp add: small_packet_def Packet)
  from received_ok [OF assms(1) this, of fd] show ?thesis by (auto simp: stm_exec_def Packet)
next
  case (Spi_Pass ls)
  have "stm_ok ready (spi_volume p (spi_mute p (spi_take p s)))" using assms by simp
  from poll_ok [OF this, of p ls] show ?thesis by (auto simp: stm_exec_def SPI_DSP_thread_entry_def Spi_Pass)
next
  case Idle_Pass
  have "ready (flash s)" using assms by (simp add: stm_ok_def)
  from idle_ok [OF this, of p "db s" t "pan s" "link s"] assms show ?thesis
    by (auto simp: stm_exec_def Idle_Pass stm_ok_def)
qed (use assms in \<open>simp_all add: stm_exec_def tcp_received_def tcp_accepted_def stm_ok_def\<close>)

lemma run_ok:
  fixes s :: "('l, 'c) stm"
  assumes "stm_ok ready s" "list_all small_packet evs"
  shows "\<exists>t' s'. stm_run p F evs (t, s) = Inr (t', s') \<and> stm_ok ready s'"
  using assms
proof (induction evs arbitrary: t s)
  case (Cons ev evs)
  then have ev: "small_packet ev" "list_all small_packet evs" by simp_all
  from exec_ok [OF Cons.prems(1) ev(1)] obtain t' s' where "stm_exec p F ev (t, s) = Inr (t', s')" "stm_ok ready s'"
    by blast
  with Cons.IH [OF _ ev(2)] show ?case by simp
qed simp

end


section \<open>Storing and starting again\<close>

definition close_cmd :: cmd4 where "close_cmd = (0x06, 0x02, 0x00, 0x00)"

context nor_flash
begin

lemma start_restores:
  fixes s0 :: "('l, 'c) stm"
  assumes "ready (flash s0)" "db s0 = group_table_init" "db_ok d" "sum_list (db_words d) \<noteq> 0xffffffff"
    and "stored_image d g (words (mem (flash s0)))"
  shows "\<exists>s2. tcpserv_start p F s0 = Inr s2 \<and> ready (flash s2) \<and> db s2 = store_cmd (le_bytes (clip_input g)) d \<and>
    link s2 = send_data_to_dsp p (db s2) (link s0) \<and>
    g_volume s2 = (if do_get_data (db s2) 1 8 \<noteq> -1 then do_get_data (db s2) 1 8 else 0x00300005) \<and>
    g_input_type (pan s2) = (if do_get_data (db s2) 1 9 \<noteq> -1 then do_get_data (db s2) 1 9 else INIT_INPUT) \<and>
    g_i_connected_flag s2 = g_i_connected_flag s0 \<and> g_i_connected_id s2 = g_i_connected_id s0"
proof -
  from reboot_ok [OF assms(1)] obtain n c1 where c1: "read_reboot_times F (flash s0) = Some (n, c1)" "ready c1"
    "\<And>i. i div 1024 \<noteq> 96 \<Longrightarrow> words (mem c1) i = words (mem (flash s0)) i" by blast
  have im: "stored_image d g (words (mem c1))" using assms(5) by (simp add: stored_image_cong [OF c1(3)])
  let ?d = "store_cmd (le_bytes (clip_input g)) d"
  have "do_set_cmd_entry (SET_ENTRY_CMD (le_bytes (clip_input g))) d = Some ?d"
    using do_add_cmd_cases [OF assms(3), of "le_bytes (clip_input g)"]
    by (auto simp: store_cmd_def do_set_cmd_entry_def)
  from read_image [OF c1(2) assms(3,4) im this] obtain c2 where
    c2: "read_w25q16 F (group_table_init, c1) = Some (?d, c2)" "ready c2" by blast
  have "push_bit 16 (0x60 div 2) OR 0x00000005 = (0x00300005 :: u32)" by code_simp
  with c1(1) c2 assms(2) show ?thesis by (simp add: tcpserv_start_def Let_def)
qed

end

section \<open>Properties\<close>

text \<open>
  C2: the machine keeps running. From a state with tables in order and an idle flash chip, every
  sequence of connections, packets of fewer than 1024 bytes (any bytes), SPI passes with any replies
  of the DSP, key passes and idle timer passes runs to its end: no wait on the flash hangs, no command
  of a table is lost to the encoder, the tables stay well formed, and a socket id is only kept while
  the connection flag is set.
\<close>

theorem stm_run_safe:
  fixes s :: "('l, 'c) stm"
  assumes "w25q_chip q ready desel wel mem" "stm_ok ready s" "list_all small_packet evs"
  shows "\<exists>t' s'. stm_run p (spi_flash_ops q) evs (t, s) = Inr (t', s') \<and> stm_ok ready s'"
  using nor_flash.run_ok [OF w25q_chip.driver_contract [OF assms(1)] assms(2,3)] .

definition boot_stm :: "'d \<Rightarrow> (spi_event list, 'd) stm" where
  "boot_stm d = \<lparr>db = group_table_init, pan = panel_init, link = [], flash = d, g_i_instruction = 0, tcp_dsp_sem = 0,
     g_set_volume_to_dsp_flag = 0, g_volume = 0, g_i_connected_flag = 0, g_i_connected_id = 0, sock_out = []\<rparr>"

lemma boot_stm_ok: "stm_ok chip_ready (boot_stm blank_chip)"
  by (simp add: stm_ok_def boot_stm_def db_ok_init blank_ready)

theorem stm_run_safe_witness:
  "\<exists>t' s'. stm_run (trace_port (\<lambda>_. 0x21)) (spi_flash_ops w25q_port)
      [Accept 3, Packet 3 [0x05, 0x00, 0x30, 0x00, 0x06, 0x02, 0x00, 0x00], Packet 3 [1], Spi_Pass 1,
       Key_Pass (no_press, no_press, no_press) no_press, Idle_Pass, Closed 3] (idle_init, boot_stm blank_chip)
    = Inr (t', s') \<and> stm_ok chip_ready s'"
  by (rule stm_run_safe [OF w25q_model boot_stm_ok]) (simp add: small_packet_def RECEIVE_DATA_LEN_def)

text \<open>
  C20: commands that arrive one packet at a time, with a pass of the SPI thread after each packet. The commands are any but the two of the
  session (0x06010000 opens and 0x06020000 closes it), which the STM32 answers itself; no key mute and no volume of the PC is pending and the DSP has nothing to send. Then the DSP receives, for every command in
  order, one word, followed by the poll of the SPI thread, and nothing else: the big endian word of the command, or, for the command that selects the microphone, the
  word of the input as the panel selects it, which is then the selected input of the panel. The tables are the result of adding the commands in order, each of
  which \<open>do_add_cmd\<close> may refuse.
\<close>

theorem commands_delivered_in_order:
  fixes s :: "(spi_event list, 'd) stm"
  assumes "spi_quiet s" "tcp_dsp_sem s = 0" "db_ok (db s)" "list_all forwarded cs"
  shows "\<exists>s' t. one_by_one silent_port F fd ls cs s = Inr s' \<and> link s' = link s @ t \<and>
    received_words t = concat (map (\<lambda>c. [if mic_cmd c then MIC_INPUT else be_word c, 0xffffffff]) cs) \<and>
    db s' = fold store_cmd cs (db s) \<and> db_ok (db s') \<and> tcp_dsp_sem s' = 0 \<and>
    g_input_type (pan s') = (if list_ex mic_cmd cs then MIC_INPUT else g_input_type (pan s))"
  using one_by_one_run [OF assms, of F fd ls] received_one_by_one [of cs] fold_store_ok [OF assms(3), of cs]
  by (auto simp: sent_word_def)

lemma two_forwarded:
  "forwarded (0x05, 0x00, 0x30, 0x00)" "be_word (0x05, 0x00, 0x30, 0x00) = 0x05003000"
  "forwarded (0x05, 0xE1, 0x00, 0x00)" "be_word (0x05, 0xE1, 0x00, 0x00) = 0x05E10000"
  by code_simp+

lemma boot_quiet: "spi_quiet (boot_stm d)"
  by (simp add: spi_quiet_def boot_stm_def panel_init_def)

theorem commands_delivered_in_order_witness:
  "\<exists>s' t. one_by_one silent_port (spi_flash_ops w25q_port) 3 1 [(0x05, 0x00, 0x30, 0x00), (0x05, 0x26, 0x00, 0x00), (0x05, 0xE1, 0x00, 0x00)]
      (boot_stm blank_chip) = Inr s' \<and> link s' = t \<and>
    received_words t = [0x05003000, 0xffffffff, MIC_INPUT, 0xffffffff, 0x05E10000, 0xffffffff] \<and> g_input_type (pan s') = MIC_INPUT"
proof -
  have "forwarded (0x05, 0x26, 0x00, 0x00)" "be_word (0x05, 0x26, 0x00, 0x00) = 0x05260000" by code_simp+
  then show ?thesis
    using commands_delivered_in_order [OF boot_quiet [of blank_chip], of "[(0x05, 0x00, 0x30, 0x00), (0x05, 0x26, 0x00, 0x00), (0x05, 0xE1, 0x00, 0x00)]"
      "spi_flash_ops w25q_port" 3 1]
    by (auto simp: boot_stm_def db_ok_init mic_cmd_def two_forwarded)
qed

text \<open>
  Commands that arrive in one packet. \<open>handle_net_data\<close> stores all of them but keeps a single
  \<open>g_i_instruction\<close> beside the counting semaphore: when it handles a packet before the SPI thread
  runs, the DSP receives the last command once per command of the packet, and none of the others.
\<close>

theorem packet_repeats_last:
  fixes s :: "(spi_event list, 'd) stm"
  assumes "spi_quiet s" "tcp_dsp_sem s = 0" "db_ok (db s)" "list_all forwarded cs" "cs \<noteq> []" "length cs < 256"
    and "\<not> mic_cmd (last cs)"
  shows "\<exists>s1 s2 t. tcp_received F fd (Some (packet cs)) s = Inr s1 \<and> db s1 = fold store_cmd cs (db s) \<and>
    tcp_dsp_sem s1 = length cs \<and> spi_passes silent_port ls (length cs) s1 = Inr s2 \<and> tcp_dsp_sem s2 = 0 \<and>
    link s2 = link s @ t \<and> received_words t = concat (replicate (length cs) [be_word (last cs), 0xffffffff])"
proof -
  let ?s1 = "s\<lparr>db := fold store_cmd cs (db s), g_i_instruction := be_word (last cs), tcp_dsp_sem := length cs\<rparr>"
  have "tcp_received F fd (Some (packet cs)) s = Inr ?s1"
    using received_packet [OF assms(3-6), of F fd] assms(2) by simp
  moreover have "spi_quiet ?s1" "tcp_dsp_sem ?s1 = length cs" "g_i_instruction ?s1 \<noteq> 0x05260000"
    using assms(1,7) by (simp_all add: spi_quiet_def mic_cmd_def)
  note passes_send [OF this, of ls]
  ultimately show ?thesis using received_replicate [of "length cs" "be_word (last cs)"] by auto
qed

theorem packet_repeats_last_witness:
  "\<exists>s1 s2 t. tcp_received (spi_flash_ops w25q_port) 3 (Some [0x05, 0x00, 0x30, 0x00, 0x05, 0xE1, 0x00, 0x00]) (boot_stm blank_chip) = Inr s1 \<and>
    spi_passes silent_port 1 2 s1 = Inr s2 \<and> link s2 = t \<and>
    received_words t = [0x05E10000, 0xffffffff, 0x05E10000, 0xffffffff]"
proof -
  let ?cs = "[(0x05, 0x00, 0x30, 0x00), (0x05, 0xE1, 0x00, 0x00)] :: cmd4 list"
  have cs: "packet ?cs = [0x05, 0x00, 0x30, 0x00, 0x05, 0xE1, 0x00, 0x00]" "length ?cs = 2"
    by (simp_all add: bytes_of_def)
  have r: "concat (replicate 2 [x, y]) = [x, y, x, y]" for x y :: u32 by (simp add: numeral_2_eq_2)
  have h: "tcp_dsp_sem (boot_stm blank_chip) = 0" "db_ok (db (boot_stm blank_chip))" "list_all forwarded ?cs"
      "?cs \<noteq> []" "length ?cs < 256" "\<not> mic_cmd (last ?cs)" "link (boot_stm blank_chip) = []"
    by (simp_all add: boot_stm_def db_ok_init mic_cmd_def two_forwarded)
  show ?thesis
    using packet_repeats_last [OF boot_quiet h(1-6), of "spi_flash_ops w25q_port" 3 1]
    unfolding cs r h(7) by (auto simp: two_forwarded)
qed

text \<open>
  C7: power cycle. When the PC closes its session the parameters are stored; a later start of the
  machine with the same flash restores the tables (with the selected input clipped to the inputs
  the panel knows) and sends exactly these parameters to the DSP, followed by the end mark.
\<close>

theorem power_cycle:
  fixes s :: "('l, 'c) stm" and p :: "spi_event list spi_port"
  assumes "w25q_chip q ready desel wel mem" "stm_ok ready s" "sum_list (db_words (db s)) \<noteq> 0xffffffff"
    and "d = store_cmd (le_bytes (clip_input (g_input_type (pan s)))) (db s)"
  shows "\<exists>s1. tcp_received (spi_flash_ops q) fd (Some (packet [close_cmd])) s = Inr s1 \<and>
    g_set_volume_to_dsp_flag s1 = 1 \<and> db s1 = db s \<and>
    (\<exists>s2. tcpserv_start (trace_port r) (spi_flash_ops q) (boot_stm (flash s1)) = Inr s2 \<and> stm_ok ready s2 \<and> db s2 = d \<and>
      received_words (link s2) = map (\<lambda>e. be_word (le_bytes (cd_data e))) (all_used d) @ [0x34000000])"
proof -
  note nf = w25q_chip.driver_contract [OF assms(1)]
  have s: "db_ok (db s)" "ready (flash s)" using assms(2) by (simp_all add: stm_ok_def)
  obtain c where c: "store_w25q16 (spi_flash_ops q) (db s) (g_input_type (pan s)) (flash s) = Some c" "ready c"
    "stored_image (db s) (g_input_type (pan s)) (words (mem c))"
    using nor_flash.store_image [OF nf s(2,1)] by blast
  let ?s1 = "s\<lparr>g_set_volume_to_dsp_flag := 1, flash := c\<rparr>"
  have "handle_net_cmd (spi_flash_ops q) fd close_cmd s = Inr ?s1"
    using c(1) by (simp add: handle_net_cmd_def close_cmd_def Let_def)
  then have "tcp_received (spi_flash_ops q) fd (Some (packet [close_cmd])) s = Inr ?s1"
    using handle_net_data_packet [of "spi_flash_ops q" fd close_cmd "[]" s]
    by (simp add: tcp_received_def c_consts)
  moreover obtain s2 where "tcpserv_start (trace_port r) (spi_flash_ops q) (boot_stm c) = Inr s2"
    "ready (flash s2)" "db s2 = d" "link s2 = send_data_to_dsp (trace_port r) (db s2) []"
    "g_i_connected_flag s2 = 0" "g_i_connected_id s2 = 0"
    using nor_flash.start_restores [OF nf, of "boot_stm c" "db s" "g_input_type (pan s)" "trace_port r"] c(2,3) s(1) assms(3,4)
    by (auto simp: boot_stm_def)
  moreover have "db_ok d" using set_entry_ok(2) [OF s(1)] by (simp add: assms(4))
  ultimately show ?thesis by (auto simp: stm_ok_def received_words_dsp)
qed

theorem power_cycle_witness:
  "\<exists>s1. tcp_received (spi_flash_ops w25q_port) 3 (Some [0x06, 0x02, 0x00, 0x00]) (boot_stm blank_chip) = Inr s1 \<and>
    (\<exists>s2. tcpserv_start (trace_port (\<lambda>_. 0)) (spi_flash_ops w25q_port) (boot_stm (flash s1)) = Inr s2 \<and> stm_ok chip_ready s2)"
  using power_cycle [OF w25q_model boot_stm_ok, where d = "store_cmd (le_bytes (clip_input (g_input_type (pan (boot_stm blank_chip))))) (db (boot_stm blank_chip))"
      and fd = 3 and r = "\<lambda>_. 0"] zero_db_sum
  by (auto simp: boot_stm_def close_cmd_def bytes_of_def)

end
