(* ===== verification/Dsp_Loader.thy ===== *)
theory Dsp_Loader
  imports Flash_Store
begin

text \<open>
  The program of the DSP: \<open>USER/tftp.c\<close> fetches the loader file over TFTP into the serial flash
  (\<open>tftp_get\<close>) and streams it to the booting DSP (\<open>tftp_send_dsp\<close>), and \<open>USER/app_cmd.c\<close> holds the
  console commands that erase flash sectors. The sockets are the list of what \<open>lwip_recvfrom\<close>
  returns and the list of datagrams sent. The flash is used through its driver; the laws of the
  locale \<open>nor_flash\<close> are all the proofs need of it.
\<close>

section \<open>The TFTP client\<close>

definition TFTP_RRQ :: u8 where [c_consts]: "TFTP_RRQ = 1"
definition TFTP_ACK :: u8 where [c_consts]: "TFTP_ACK = 4"
definition TFTP_ADDR :: u32 where [c_consts, layout]: "TFTP_ADDR = 0x20000"
definition TFTP_DATA_ADDR :: u32 where [c_consts, layout]: "TFTP_DATA_ADDR = 0x21000"

record 'd tftp =
  tftp_buffer :: "u8 list"
  g_file_size :: u32
  g_file_start_addr :: u32
  dev :: 'd
  sent :: "u8 list list"

definition char_bytes :: "string \<Rightarrow> u8 list" where
  "char_bytes s = map (\<lambda>ch. word_of_nat (of_char ch)) s"

text \<open>The read request: opcode, file name, mode, each string with its zero.\<close>

definition tftp_request :: "string \<Rightarrow> u8 list" where
  "tftp_request filename = [0, TFTP_RRQ] @ char_bytes filename @ [0] @ char_bytes ''octet'' @ [0]"

text \<open>The bytes of a datagram replace the front of the buffer.\<close>

definition fill :: "u8 list \<Rightarrow> u8 list \<Rightarrow> u8 list" where
  "fill bs buf = bs @ drop (length bs) buf"

text \<open>
  The body of the loop for a datagram of length greater than zero: erase every eighth block, write
  \<open>length - 4\<close> bytes (the length is an unsigned 32 bit variable, the argument of the driver has 16
  bits), send the first four bytes back as an acknowledgement, count. \<open>None\<close>: the driver runs
  over the end of the buffer or waits for ever.
\<close>

definition tftp_block :: "'d flash_ops \<Rightarrow> nat \<Rightarrow> u8 list \<Rightarrow> 'd tftp \<Rightarrow> 'd tftp option" where
  "tftp_block F i_write_file bs s =
     (let len = (word_of_nat (length bs) :: u32);
          s = s\<lparr>tftp_buffer := fill bs (tftp_buffer s)\<rparr>;
          now_addr = g_file_start_addr s + 512 * word_of_nat i_write_file;
          erased = (if i_write_file mod 8 = 0 then fl_erase F now_addr (dev s) else Some (dev s))
      in case erased of
           None \<Rightarrow> None
         | Some d \<Rightarrow>
             (case fl_write F (drop 4 (tftp_buffer s)) now_addr (ucast (len - 4)) d of
                None \<Rightarrow> None
              | Some d \<Rightarrow>
                  let s = s\<lparr>dev := d, tftp_buffer := (tftp_buffer s)[0 := 0, 1 := TFTP_ACK]\<rparr>;
                      s = s\<lparr>sent := sent s @ [take 4 (tftp_buffer s)]\<rparr>
                  in Some (s\<lparr>g_file_size := g_file_size s + len - 4\<rparr>)))"

datatype tftp_end = Waiting | Failed | Finished

text \<open>
  The loop over what \<open>lwip_recvfrom\<close> returns (\<open>None\<close>: a negative length, an error or the time-out);
  a datagram shorter than 516 bytes is the last one.
\<close>

fun tftp_loop :: "'d flash_ops \<Rightarrow> nat \<Rightarrow> u8 list option list \<Rightarrow> 'd tftp \<Rightarrow> (tftp_end \<times> 'd tftp) option" where
  "tftp_loop F i [] s = Some (Waiting, s)"
| "tftp_loop F i (None # rs) s = Some (Failed, s)"
| "tftp_loop F i (Some bs # rs) s =
     (case (if bs \<noteq> [] then tftp_block F i bs s else Some s) of
        None \<Rightarrow> None
      | Some s \<Rightarrow> if length bs = 516 then tftp_loop F (Suc i) rs s else Some (Finished, s))"

text \<open>\<open>sock_fd\<close> is what \<open>socket\<close> returned.\<close>

definition tftp_get :: "'d flash_ops \<Rightarrow> int \<Rightarrow> u8 list option list \<Rightarrow> 'd tftp \<Rightarrow> (tftp_end \<times> 'd tftp) option" where
  "tftp_get F sock_fd rs s =
     (let s = s\<lparr>g_file_start_addr := TFTP_DATA_ADDR, g_file_size := 0\<rparr>
      in if sock_fd < 0 then Some (Failed, s)
         else
           let req = tftp_request ''DSP950_V02.ldr'';
               s = s\<lparr>tftp_buffer := fill req (tftp_buffer s), sent := sent s @ [req]\<rparr>
           in case tftp_loop F 0 rs s of
                None \<Rightarrow> None
              | Some (r, s) \<Rightarrow>
                  if r \<noteq> Finished then Some (r, s)
                  else
                    (case fl_erase F TFTP_ADDR (dev s) of
                       None \<Rightarrow> None
                     | Some d \<Rightarrow>
                         (case write_word F (g_file_size s) TFTP_ADDR d of
                            None \<Rightarrow> None
                          | Some d \<Rightarrow> Some (Finished, s\<lparr>dev := d\<rparr>))))"

section \<open>Loading the DSP\<close>

fun send_blocks :: "'c spi_port \<Rightarrow> 'd flash_ops \<Rightarrow> nat \<Rightarrow> nat \<Rightarrow> 'c \<times> 'd \<Rightarrow> 'c \<times> 'd" where
  "send_blocks p F 0 i cd = cd"
| "send_blocks p F (Suc n) i (c, d) =
     (let (buff, d) = fl_read F (TFTP_DATA_ADDR + word_of_nat i * 4) 4 d
      in send_blocks p F n (Suc i) (SPI_DSP_SendBytes_using_tftp p buff c, d))"

text \<open>\<open>i_size / 4\<close> is a signed division; a negative size sends nothing.\<close>

definition tftp_send_dsp :: "'c spi_port \<Rightarrow> 'd flash_ops \<Rightarrow> 'c \<times> 'd \<Rightarrow> 'c \<times> 'd" where
  "tftp_send_dsp p F cd =
     (case cd of (c, d) \<Rightarrow>
      let (i_size, d) = read_word F TFTP_ADDR d
      in if i_size = 0xffffffff \<or> i_size = 0 then (c, d)
         else send_blocks p F (nat (sint i_size div 4)) 0 (c, d))"

text \<open>
  \<open>flash_dump\<close>: the bytes it prints. The guard is on a signed length, the driver takes 16 bits:
  \<open>Inl\<close> when more bytes are read than the buffer holds.
\<close>

datatype dump_fault = Buffer_Overrun

definition flash_dump :: "'d flash_ops \<Rightarrow> u32 \<Rightarrow> int \<Rightarrow> 'd tftp \<Rightarrow> dump_fault + u8 list \<times> 'd tftp" where
  "flash_dump F startAddr i_len s =
     (if i_len > 512 then Inr ([], s)
      else if unat (word_of_int i_len :: u16) > 516 then Inl Buffer_Overrun
      else (case fl_read F startAddr (word_of_int i_len) (dev s) of (bs, d) \<Rightarrow>
              Inr (take (nat i_len) bs, s\<lparr>dev := d, tftp_buffer := fill bs (tftp_buffer s)\<rparr>)))"

section \<open>Console commands on the flash\<close>

definition c_sectors_name :: "string list" where
  "c_sectors_name = [''spi code'', ''volume'', ''dsp file'', ''reboot times'']"

text \<open>\<open>strncmp\<close> with the length of the sector name: a prefix test. The loop stops at index 3.\<close>

definition sector_index :: "string \<Rightarrow> nat" where
  "sector_index c_name =
     scan_from (\<lambda>i. take (length (c_sectors_name ! i)) c_name = c_sectors_name ! i) 0 3 3"

definition flash_erase_sec :: "'d flash_ops \<Rightarrow> string \<Rightarrow> 'd \<Rightarrow> 'd option" where
  "flash_erase_sec F c_name d =
     (let i = sector_index c_name;
          from = (\<lambda>base n. map (\<lambda>j. base + word_of_nat j * 0x1000) [0..<n])
      in erase_sectors F
           (if i = 0 then from SPI_CODE_BASE_ADDR (SECTOR_NUMBER * 2 + 2)
            else if i = 1 then from VOLUME_INPUT_BASE_ADDR (2 * 2)
            else if i = 2 then from TFTP_ADDR 2
            else if i = 3 then from REBOOT_TIMES_ADDR 1 else []) d)"

text \<open>\<open>flash_erase\<close>; the arguments are signed.\<close>

definition flash_erase :: "'d flash_ops \<Rightarrow> u32 \<Rightarrow> int \<Rightarrow> 'd \<Rightarrow> 'd option" where
  "flash_erase F i_start_addr i_sector_num d =
     (if i_sector_num > 0x8000000 then Some d
      else erase_sectors F (map (\<lambda>j. i_start_addr + word_of_nat j * 0x1000) [0..<nat i_sector_num]) d)"


section \<open>The image in the flash\<close>

text \<open>The effect of one block on the array; the image starts with sector 33.\<close>

definition put_block :: "nat \<Rightarrow> u8 list \<Rightarrow> (nat \<Rightarrow> u8) \<Rightarrow> nat \<Rightarrow> u8" where
  "put_block i b m = program_bytes (135168 + 512 * i) b (if i mod 8 = 0 then erase_sector (135168 + 512 * i) m else m)"

fun put_blocks :: "nat \<Rightarrow> u8 list list \<Rightarrow> (nat \<Rightarrow> u8) \<Rightarrow> nat \<Rightarrow> u8" where
  "put_blocks i [] m = m"
| "put_blocks i (b # bs) m = put_blocks (Suc i) bs (put_block i b m)"

text \<open>What follows block \<open>i\<close> in its sector is still erased.\<close>

definition rest_clear :: "nat \<Rightarrow> (nat \<Rightarrow> u8) \<Rightarrow> bool" where
  "rest_clear i m \<longleftrightarrow> (\<forall>x. 135168 + 512 * i \<le> x \<longrightarrow> x < 135168 + 4096 * ((i + 7) div 8) \<longrightarrow> m x = 0xFF)"

lemma block_position:
  fixes i :: nat
  obtains q r where "i = 8 * q + r" "r < 8" "(135168 + 512 * i) div 4096 = 33 + q" "(i + 8) div 8 = q + 1"
    "(i + 7) div 8 = (if r = 0 then q else q + 1)" "i mod 8 = r"
proof
  show "i = 8 * (i div 8) + i mod 8" "i mod 8 < 8" by simp_all
  have "(4096 * 33 + 512 * i) div 4096 = 33 + 512 * i div (512 * 8)" by simp
  then show "(135168 + 512 * i) div 4096 = 33 + i div 8" by simp
  show "(i + 8) div 8 = i div 8 + 1" "(i + 7) div 8 = (if i mod 8 = 0 then i div 8 else i div 8 + 1)" by presburger+
qed simp

lemma put_block_step:
  assumes "rest_clear i m" "length b \<le> 512"
  shows "\<And>k. k < length b \<Longrightarrow> put_block i b m (135168 + 512 * i + k) = b ! k"
    and "\<And>x. x < 135168 + 512 * i \<Longrightarrow> put_block i b m x = m x"
    and "\<And>x. 135168 + 4096 * ((i + 8) div 8) \<le> x \<Longrightarrow> put_block i b m x = m x"
    and "length b = 512 \<Longrightarrow> rest_clear (Suc i) (put_block i b m)"
proof -
  obtain q r where qr: "i = 8 * q + r" "r < 8" "(135168 + 512 * i) div 4096 = 33 + q" "(i + 8) div 8 = q + 1"
    "(i + 7) div 8 = (if r = 0 then q else q + 1)" "i mod 8 = r" by (rule block_position)
  let ?m = "if i mod 8 = 0 then erase_sector (135168 + 512 * i) m else m"
  have clear: "?m x = 0xFF" if "135168 + 512 * i \<le> x" "x < 135168 + 4096 * (q + 1)" for x
  proof -
    have "x div 4096 = 33 + q" using that qr(1,2) by (intro div_nat_eqI) simp_all
    then show ?thesis using that assms(1) qr by (auto simp: erase_sector_def rest_clear_def)
  qed
  have out: "?m x = m x" if "x < 135168 + 512 * i \<or> 135168 + 4096 * (q + 1) \<le> x" for x
  proof (cases "r = 0")
    case True
    then have "x div 4096 \<noteq> 33 + q" using that qr(1) by (auto simp: div_nat_eqI dest!: less_mult_imp_div_less)
    then show ?thesis using qr by (simp add: erase_sector_def)
  qed (simp add: qr)
  show "put_block i b m (135168 + 512 * i + k) = b ! k" if "k < length b" for k
  proof -
    have "135168 + 512 * i + k < 135168 + 4096 * (q + 1)" using that assms(2) qr(1,2) by simp
    with clear [of "135168 + 512 * i + k"] that show ?thesis by (simp add: put_block_def program_bytes_def)
  qed
  show "put_block i b m x = m x" if "x < 135168 + 512 * i" for x
    using that out [of x] unfolding put_block_def by (subst program_bytes_other) auto
  show "put_block i b m x = m x" if "135168 + 4096 * ((i + 8) div 8) \<le> x" for x
    using that out [of x] assms(2) qr(1,2,4) unfolding put_block_def by (subst program_bytes_other) auto
  show "rest_clear (Suc i) (put_block i b m)" if "length b = 512"
    unfolding rest_clear_def
  proof (intro allI impI)
    fix x
    assume x: "135168 + 512 * Suc i \<le> x" "x < 135168 + 4096 * ((Suc i + 7) div 8)"
    have "(Suc i + 7) div 8 = q + 1" using qr(4) by (simp add: add.commute)
    with x have "135168 + 512 * i \<le> x" "x < 135168 + 4096 * (q + 1)" by simp_all
    then have "?m x = 0xFF" by (rule clear)
    then show "put_block i b m x = 0xFF" using x that unfolding put_block_def by (subst program_bytes_other) simp_all
  qed
qed


lemma put_blocks_image:
  assumes "rest_clear i m" "list_all (\<lambda>b. length b = 512) bs" "length l \<le> 512"
  shows "(\<forall>k < 512 * length bs + length l. put_blocks i (bs @ [l]) m (135168 + 512 * i + k) = (concat bs @ l) ! k) \<and>
    (\<forall>x < 135168 + 512 * i. put_blocks i (bs @ [l]) m x = m x) \<and>
    (\<forall>x \<ge> 135168 + 4096 * ((i + length bs + 8) div 8). put_blocks i (bs @ [l]) m x = m x)"
  using assms
proof (induction bs arbitrary: i m)
  case Nil
  then show ?case using put_block_step [of i m l] by simp
next
  case (Cons b bs)
  let ?m = "put_block i b m" and ?f = "concat bs @ l"
  have b: "length b = 512" "list_all (\<lambda>b. length b = 512) bs" using Cons.prems(2) by simp_all
  note st = put_block_step [OF Cons.prems(1), of b] b(1)
  then have "rest_clear (Suc i) ?m" by simp
  note IH = Cons.IH [OF this b(2) Cons.prems(3)]
  have "put_blocks i ((b # bs) @ [l]) m (135168 + 512 * i + k) = (concat (b # bs) @ l) ! k"
    if "k < 512 * length (b # bs) + length l" for k
  proof (cases "k < 512")
    case True
    with IH have "put_blocks (Suc i) (bs @ [l]) ?m (135168 + 512 * i + k) = ?m (135168 + 512 * i + k)" by auto
    with st(1) [of k] True b(1) show ?thesis by (simp add: nth_append)
  next
    case False
    then obtain j where j: "k = 512 + j" using le_Suc_ex not_less by blast
    with that have "put_blocks (Suc i) (bs @ [l]) ?m (135168 + 512 * Suc i + j) = ?f ! j" using IH by auto
    with j b(1) show ?thesis by (simp add: nth_append add_ac)
  qed
  moreover have "put_blocks i ((b # bs) @ [l]) m x = m x" if "x < 135168 + 512 * i" for x
    using that IH st(2) [of x] b(1) by simp
  moreover have "put_blocks i ((b # bs) @ [l]) m x = m x"
    if "135168 + 4096 * ((i + length (b # bs) + 8) div 8) \<le> x" for x
  proof -
    have "(i + 8) div 8 \<le> (i + length (b # bs) + 8) div 8" by (rule div_le_mono) simp
    then have "135168 + 4096 * ((i + 8) div 8) \<le> x" using that by linarith
    with that IH st(3) [of x] b(1) show ?thesis by simp
  qed
  ultimately show ?case by blast
qed

lemma rest_clear_0: "rest_clear 0 m"
  by (simp add: rest_clear_def)

section \<open>The client on a flash chip\<close>

lemma fill_length: "length bs \<le> length buf \<Longrightarrow> length (fill bs buf) = length buf"
  by (simp add: fill_def)

text \<open>The datagram the client answers with: its opcode replaced, the block number kept.\<close>

definition ack_of :: "u8 list \<Rightarrow> u8 list" where
  "ack_of bs = 0 # TFTP_ACK # take 2 (drop 2 bs)"

lemma take4_ack: "4 \<le> length bs \<Longrightarrow> take 4 ((fill bs buf)[0 := 0, 1 := TFTP_ACK]) = ack_of bs"
  by (cases bs; cases "tl bs"; cases "tl (tl bs)"; cases "tl (tl (tl bs))")
    (auto simp: fill_def ack_of_def numeral_eq_Suc)

lemma request_length: "length (tftp_request ''DSP950_V02.ldr'') = 23"
  by (simp add: tftp_request_def char_bytes_def)

lemma payload_length: "list_all (\<lambda>bs. length bs = 516) ps \<Longrightarrow> length (concat (map (drop 4) ps)) = 512 * length ps"
  by (induction ps) simp_all

context nor_flash
begin

lemma tftp_block_ok:
  fixes s :: "'c tftp"
  assumes "ready (dev s)" "length (tftp_buffer s) = 516" "g_file_start_addr s = TFTP_DATA_ADDR"
    and "4 \<le> length bs" "length bs \<le> 516" "i < 3000"
  shows "\<exists>s'. tftp_block F i bs s = Some s' \<and> ready (dev s') \<and> length (tftp_buffer s') = 516 \<and>
    g_file_start_addr s' = TFTP_DATA_ADDR \<and> g_file_size s' = g_file_size s + word_of_nat (length bs - 4) \<and>
    mem (dev s') = put_block i (drop 4 bs) (mem (dev s)) \<and> sent s' = sent s @ [ack_of bs]"
proof -
  let ?a = "TFTP_DATA_ADDR + 512 * word_of_nat i :: u32"
  have a: "unat ?a = 135168 + 512 * i"
  proof -
    have "?a = word_of_nat (135168 + 512 * i)" by (simp add: layout)
    also have "unat \<dots> = 135168 + 512 * i" using assms(6) by (subst unat_of_nat_less) simp_all
    finally show ?thesis .
  qed
  have n: "(word_of_nat (length bs) :: u32) - 4 = word_of_nat (length bs - 4)" using assms(4) by (simp add: of_nat_diff)
  have u: "unat (ucast (word_of_nat (length bs - 4) :: u32) :: u16) = length bs - 4"
    using assms(5) by (simp add: unat_of_nat_less unsigned_ucast_eq take_bit_nat_eq_self_iff)
  have lt: "unat ?a < flash_size" using a assms(6) by (simp add: layout)
  define d0 where "d0 = (if i mod 8 = 0 then fl_erase F ?a (dev s) else Some (dev s))"
  obtain d1 where d1: "d0 = Some d1" "ready d1"
    "mem d1 = (if i mod 8 = 0 then erase_sector (135168 + 512 * i) (mem (dev s)) else mem (dev s))"
    using erase_ok [OF assms(1) lt] assms(1) by (cases "i mod 8 = 0") (auto simp: d0_def a)
  let ?buf = "fill bs (tftp_buffer s)"
  have len: "length ?buf = 516" using assms(2,5) by (simp add: fill_length)
  have "unat ?a + (length bs - 4) < flash_size" using a assms(5,6) by (simp add: layout)
  moreover have "length bs - 4 \<le> 512" using assms(5) by simp
  ultimately obtain d2 where d2: "fl_write F (drop 4 ?buf) ?a (ucast (word_of_nat (length bs - 4) :: u32)) d1 = Some d2" "ready d2"
    "mem d2 = program_bytes (135168 + 512 * i) (take (length bs - 4) (drop 4 ?buf)) (mem d1)"
    using write_ok [OF d1(2), of ?a "ucast (word_of_nat (length bs - 4) :: u32)" "drop 4 ?buf"] u a len by auto
  have "take (length bs - 4) (drop 4 ?buf) = drop 4 bs" using assms(4) by (simp add: fill_def)
  then have m: "mem d2 = put_block i (drop 4 bs) (mem (dev s))" by (simp add: d2(3) d1(3) put_block_def)
  have "tftp_block F i bs s = Some (s\<lparr>dev := d2, tftp_buffer := ?buf[0 := 0, 1 := TFTP_ACK],
      sent := sent s @ [ack_of bs], g_file_size := g_file_size s + word_of_nat (length bs) - 4\<rparr>)"
    using d1(1) d2(1) take4_ack [OF assms(4), of "tftp_buffer s"] assms(3)
    by (cases "i mod 8 = 0") (simp_all add: tftp_block_def Let_def n d0_def)
  then show ?thesis using d2(2) m len assms(3) n [symmetric] by (simp add: algebra_simps)
qed

lemma tftp_loop_blocks:
  fixes s :: "'c tftp"
  assumes "ready (dev s)" "length (tftp_buffer s) = 516" "g_file_start_addr s = TFTP_DATA_ADDR"
    and "list_all (\<lambda>bs. length bs = 516) ps" "i + length ps < 3000"
  shows "\<exists>s'. tftp_loop F i (map Some ps @ rs) s = tftp_loop F (i + length ps) rs s' \<and> ready (dev s') \<and>
    length (tftp_buffer s') = 516 \<and> g_file_start_addr s' = TFTP_DATA_ADDR \<and>
    g_file_size s' = g_file_size s + word_of_nat (512 * length ps) \<and>
    mem (dev s') = put_blocks i (map (drop 4) ps) (mem (dev s)) \<and> sent s' = sent s @ map ack_of ps"
  using assms
proof (induction ps arbitrary: i s)
  case (Cons b ps)
  have b: "length b = 516" "b \<noteq> []" "list_all (\<lambda>bs. length bs = 516) ps" "Suc i + length ps < 3000" "i < 3000"
    using Cons.prems(4,5) by auto
  obtain s1 where s1: "tftp_block F i b s = Some s1" "ready (dev s1)" "length (tftp_buffer s1) = 516"
    "g_file_start_addr s1 = TFTP_DATA_ADDR" "g_file_size s1 = g_file_size s + word_of_nat 512"
    "mem (dev s1) = put_block i (drop 4 b) (mem (dev s))" "sent s1 = sent s @ [ack_of b]"
    using tftp_block_ok [OF Cons.prems(1-3), of b i] b(1,5) by auto
  from Cons.IH [OF s1(2-4) b(3,4)] s1 b(1,2) show ?case by (auto simp: algebra_simps)
qed auto

lemma tftp_loop_done:
  fixes s :: "'c tftp"
  assumes "ready (dev s)" "length (tftp_buffer s) = 516" "g_file_start_addr s = TFTP_DATA_ADDR"
    and "list_all (\<lambda>bs. length bs = 516) ps" "4 \<le> length l" "length l < 516" "length ps < 2999"
  shows "\<exists>s'. tftp_loop F 0 (map Some ps @ [Some l]) s = Some (Finished, s') \<and> ready (dev s') \<and>
    length (tftp_buffer s') = 516 \<and> g_file_size s' = g_file_size s + word_of_nat (512 * length ps + length l - 4) \<and>
    mem (dev s') = put_blocks 0 (map (drop 4) ps @ [drop 4 l]) (mem (dev s)) \<and> sent s' = sent s @ map ack_of (ps @ [l])"
proof -
  have n: "0 + length ps < 3000" "length ps < 3000" using assms(7) by simp_all
  obtain s1 where s1: "tftp_loop F 0 (map Some ps @ [Some l]) s = tftp_loop F (length ps) [Some l] s1" "ready (dev s1)"
    "length (tftp_buffer s1) = 516" "g_file_start_addr s1 = TFTP_DATA_ADDR"
    "g_file_size s1 = g_file_size s + word_of_nat (512 * length ps)"
    "mem (dev s1) = put_blocks 0 (map (drop 4) ps) (mem (dev s))" "sent s1 = sent s @ map ack_of ps"
    using tftp_loop_blocks [OF assms(1-4) n(1), of "[Some l]"] by auto
  obtain s2 where s2: "tftp_block F (length ps) l s1 = Some s2" "ready (dev s2)" "length (tftp_buffer s2) = 516"
    "g_file_size s2 = g_file_size s1 + word_of_nat (length l - 4)"
    "mem (dev s2) = put_block (length ps) (drop 4 l) (mem (dev s1))" "sent s2 = sent s1 @ [ack_of l]"
    using tftp_block_ok [OF s1(2-4) assms(5) _ n(2)] assms(6) by auto
  have app: "put_blocks i (xs @ [y]) m = put_block (i + length xs) y (put_blocks i xs m)" for i xs y m
    by (induction xs arbitrary: i m) simp_all
  have "g_file_size s2 = g_file_size s + word_of_nat (512 * length ps + length l - 4)"
    using assms(5) by (simp add: s2(4) s1(5) of_nat_diff)
  then show ?thesis using s1(1,6,7) s2 assms(5,6) by (auto simp: app)
qed

lemma store_size_ok:
  assumes "ready d"
  shows "\<exists>d1 d2. fl_erase F TFTP_ADDR d = Some d1 \<and> write_word F n TFTP_ADDR d1 = Some d2 \<and> ready d2 \<and>
    map (mem d2) [131072..<131072 + 4] = bytes_of (le_bytes n) \<and>
    (\<forall>x. x div 4096 \<noteq> 32 \<longrightarrow> mem d2 x = mem d x)"
proof -
  have a: "unat TFTP_ADDR = 131072" "131072 < flash_size" by (simp_all add: layout)
  obtain d1 where d1: "fl_erase F TFTP_ADDR d = Some d1" "ready d1" "mem d1 = erase_sector 131072 (mem d)"
    using erase_ok [OF assms, of TFTP_ADDR] a by auto
  obtain d2 where d2: "write_word F n TFTP_ADDR d1 = Some d2" "ready d2"
    "mem d2 = program_bytes 131072 (bytes_of (le_bytes n)) (mem d1)"
    using write_ok [OF d1(2), of TFTP_ADDR 4 "bytes_of (le_bytes n)"] a by (auto simp: write_word_def layout)
  have s: "(131072 + i) div 4096 = 32" if "i < 4" for i :: nat using that by (intro div_nat_eqI) simp_all
  have "map (mem d2) [131072..<131072 + 4] = bytes_of (le_bytes n)"
    using program_erased [of "bytes_of (le_bytes n)" "mem d1" 131072] s by (simp add: d2(3) d1(3) erase_sector_def)
  moreover have "mem d2 x = mem d x" if "x div 4096 \<noteq> 32" for x
  proof -
    have "x < 131072 \<or> 131072 + 4 \<le> x" using that s [of "x - 131072"] by (cases "x < 131076") auto
    then show ?thesis using that by (simp add: d2(3) d1(3) program_bytes_other erase_sector_def)
  qed
  ultimately show ?thesis using d1(1) d2 by blast
qed

lemma tftp_get_ok:
  fixes s :: "'c tftp"
  assumes "ready (dev s)" "length (tftp_buffer s) = 516" "0 \<le> sock_fd"
    and "list_all (\<lambda>bs. length bs = 516) ps" "4 \<le> length l" "length l < 516" "length ps < 504"
    and "f = concat (map (drop 4) ps) @ drop 4 l"
  shows "\<exists>s'. tftp_get F sock_fd (map Some ps @ [Some l]) s = Some (Finished, s') \<and> ready (dev s') \<and>
    map (mem (dev s')) [135168..<135168 + length f] = f \<and>
    map (mem (dev s')) [131072..<131072 + 4] = bytes_of (le_bytes (word_of_nat (length f))) \<and>
    (\<forall>x. x < 131072 \<or> 135168 + 4096 * ((length ps + 8) div 8) \<le> x \<longrightarrow> mem (dev s') x = mem (dev s) x) \<and>
    sent s' = sent s @ tftp_request ''DSP950_V02.ldr'' # map ack_of (ps @ [l])"
proof -
  let ?req = "tftp_request ''DSP950_V02.ldr''"
  let ?s0 = "s\<lparr>g_file_start_addr := TFTP_DATA_ADDR, g_file_size := 0, tftp_buffer := fill ?req (tftp_buffer s),
    sent := sent s @ [?req]\<rparr>"
  have s0: "ready (dev ?s0)" "length (tftp_buffer ?s0) = 516" "g_file_start_addr ?s0 = TFTP_DATA_ADDR"
    using assms(1,2) by (simp_all add: fill_length request_length)
  have lens: "list_all (\<lambda>b. length b = 512) (map (drop 4) ps)" "length (drop 4 l) \<le> 512" "length ps < 2999"
    using assms(4-7) by (simp_all add: list_all_iff)
  have lf: "length f = 512 * length ps + length l - 4" using payload_length [OF assms(4)] assms(5,8) by simp
  obtain s1 where s1: "tftp_loop F 0 (map Some ps @ [Some l]) ?s0 = Some (Finished, s1)" "ready (dev s1)"
    "g_file_size s1 = word_of_nat (length f)" "mem (dev s1) = put_blocks 0 (map (drop 4) ps @ [drop 4 l]) (mem (dev s))"
    "sent s1 = sent s @ ?req # map ack_of (ps @ [l])"
    using tftp_loop_done [OF s0 assms(4-6) lens(3)] lf by auto
  note im = put_blocks_image [OF rest_clear_0 lens(1,2), of "mem (dev s)", folded s1(4)]
  obtain d1 d2 where d: "fl_erase F TFTP_ADDR (dev s1) = Some d1" "write_word F (word_of_nat (length f)) TFTP_ADDR d1 = Some d2"
    "ready d2" "map (mem d2) [131072..<131072 + 4] = bytes_of (le_bytes (word_of_nat (length f)))"
    "\<And>x. x div 4096 \<noteq> 32 \<Longrightarrow> mem d2 x = mem (dev s1) x"
    using store_size_ok [OF s1(2), of "word_of_nat (length f)"] by blast
  have "map (mem d2) [135168..<135168 + length f] = f"
  proof (rule nth_equalityI)
    fix k
    assume "k < length (map (mem d2) [135168..<135168 + length f])"
    then have k: "k < length f" by simp
    have "(135168 + k) div 4096 \<noteq> 32" using div_le_mono [of 135168 "135168 + k" 4096] by simp
    with d(5) im k lf assms(5) show "map (mem d2) [135168..<135168 + length f] ! k = f ! k" by (simp add: assms(8))
  qed simp
  moreover have "mem d2 x = mem (dev s) x" if "x < 131072 \<or> 135168 + 4096 * ((length ps + 8) div 8) \<le> x" for x
  proof -
    have "135168 \<le> x \<Longrightarrow> 33 \<le> x div 4096" using div_le_mono [of 135168 x 4096] by simp
    then have "x div 4096 \<noteq> 32" using that less_mult_imp_div_less [of x 32 4096] by auto
    with that d(5) [of x] im show ?thesis by auto
  qed
  moreover have "tftp_get F sock_fd (map Some ps @ [Some l]) s = Some (Finished, s1\<lparr>dev := d2\<rparr>)"
    using s1(1,3) d(1,2) assms(3) by (simp add: tftp_get_def Let_def)
  ultimately show ?thesis using d(3,4) s1(5) by (intro exI [of _ "s1\<lparr>dev := d2\<rparr>"]) simp
qed

lemma send_blocks_ok:
  assumes "ready d" "map (mem d) [135168..<135168 + length f] = f" "4 * (i + n) \<le> length f" "length f \<le> 258048"
  shows "\<exists>d'. send_blocks (trace_port r) F n i (t, d) =
      (t @ concat (map (\<lambda>j. frame (take 4 (drop (4 * j) f))) [i..<i + n]), d') \<and> ready d' \<and> mem d' = mem d"
  using assms
proof (induction n arbitrary: i t d)
  case (Suc n)
  let ?a = "TFTP_DATA_ADDR + word_of_nat i * 4 :: u32"
  have i: "4 * i + 4 \<le> length f" "4 * (Suc i + n) \<le> length f" using Suc.prems(3) by simp_all
  have "?a = word_of_nat (135168 + 4 * i)" by (simp add: layout mult.commute)
  then have a: "unat ?a = 135168 + 4 * i" using i(1) Suc.prems(4) by (simp only:) (rule unat_of_nat_less, simp)
  have lt: "unat ?a + unat (4 :: u16) \<le> flash_size" "unat ?a < flash_size"
    using i Suc.prems(4) unfolding a by (simp_all add: flash_size_def)
  have "map (mem d) [135168 + 4 * i..<135168 + 4 * i + 4] = take 4 (drop (4 * i) (map (mem d) [135168..<135168 + length f]))"
    using i(1) by (simp add: take_map drop_map)
  then have b: "map (mem d) [135168 + 4 * i..<135168 + 4 * i + 4] = take 4 (drop (4 * i) f)" unfolding Suc.prems(2) .
  obtain d1 where d1: "fl_read F ?a 4 d = (take 4 (drop (4 * i) f), d1)" "ready d1" "mem d1 = mem d"
    using read_ok [OF Suc.prems(1) lt] a b by auto
  have "map (mem d1) [135168..<135168 + length f] = f" using Suc.prems(2) d1(3) by simp
  from Suc.IH [OF d1(2) this i(2) Suc.prems(4), of "t @ frame (take 4 (drop (4 * i) f))"] d1
  show ?case by (simp add: SPI_DSP_SendBytes_using_tftp_def frame_def upt_conv_Cons del: upt_Suc)
qed simp

lemma send_dsp_ok:
  assumes "ready d" "map (mem d) [135168..<135168 + length f] = f" "f \<noteq> []" "length f \<le> 258048"
    and "map (mem d) [131072..<131072 + 4] = bytes_of (le_bytes (word_of_nat (length f)))"
  shows "\<exists>d'. tftp_send_dsp (trace_port r) F (t, d) =
      (t @ concat (map (\<lambda>j. frame (take 4 (drop (4 * j) f))) [0..<length f div 4]), d') \<and> ready d' \<and> mem d' = mem d"
proof -
  have a: "unat TFTP_ADDR = 131072" by (simp add: layout)
  let ?n = "word_of_nat (length f) :: u32"
  obtain d1 where d1: "read_word F TFTP_ADDR d = (?n, d1)" "ready d1" "mem d1 = mem d"
    using read_ok [OF assms(1), of TFTP_ADDR 4] assms(5) a by (auto simp: read_word_def layout)
  have u: "unat ?n = length f" using assms(4) by (simp add: unat_of_nat_less)
  have nz: "?n \<noteq> 0xffffffff" "?n \<noteq> 0"
    using u assms(3,4) by (auto simp: word_unat_eq_iff)
  have "sint ?n = int (length f)" using u assms(4) by (subst sint_eq_unat) simp_all
  then have "nat (sint ?n div 4) = length f div 4" by (simp add: nat_div_distrib)
  moreover have "map (mem d1) [135168..<135168 + length f] = f" "4 * (0 + length f div 4) \<le> length f"
    using assms(2) d1(3) by simp_all
  note send_blocks_ok [OF d1(2) this assms(4), of r t]
  ultimately show ?thesis using d1 nz by (auto simp: tftp_send_dsp_def)
qed

end


section \<open>Properties\<close>

text \<open>
  C25: update and boot of the DSP. For an image of up to 63 sectors the client writes the payloads of the datagrams it receives, in the order of arrival, behind one
  another from 0x21000 on, and their total length into the size word at 0x20000. Outside the sector of the size word and the sectors of the image, which are erased
  (one for eight blocks), no byte of the flash changes. The loader then sends exactly the stored bytes to the DSP in frames of four, but for a rest of up to three
  bytes, which is stored and not sent. With the datagrams of a TFTP server the image is the file; the client never looks at the opcode or the block number, so a
  repeated or an error datagram becomes part of the program.
\<close>

theorem dsp_update_round_trip:
  fixes s :: "'c tftp"
  assumes "w25q_chip q ready desel wel mem" "ready (dev s)" "length (tftp_buffer s) = 516" "0 \<le> sock_fd"
    and "list_all (\<lambda>bs. length bs = 516) ps" "4 \<le> length l" "length l < 516" "length ps < 504"
    and "f = concat (map (drop 4) ps) @ drop 4 l" "f \<noteq> []"
  shows "\<exists>s' d'. tftp_get (spi_flash_ops q) sock_fd (map Some ps @ [Some l]) s = Some (Finished, s') \<and>
    sent s' = sent s @ tftp_request ''DSP950_V02.ldr'' # map ack_of (ps @ [l]) \<and>
    map (mem (dev s')) [135168..<135168 + length f] = f \<and>
    map (mem (dev s')) [131072..<131072 + 4] = bytes_of (le_bytes (word_of_nat (length f))) \<and>
    (\<forall>x. x < 131072 \<or> 135168 + 4096 * ((length ps + 8) div 8) \<le> x \<longrightarrow> mem (dev s') x = mem (dev s) x) \<and>
    tftp_send_dsp (trace_port r) (spi_flash_ops q) (t, dev s') =
      (t @ concat (map (\<lambda>j. frame (take 4 (drop (4 * j) f))) [0..<length f div 4]), d') \<and> ready d'"
proof -
  note nf = w25q_chip.driver_contract [OF assms(1)]
  obtain s' where s': "tftp_get (spi_flash_ops q) sock_fd (map Some ps @ [Some l]) s = Some (Finished, s')" "ready (dev s')"
    "map (mem (dev s')) [135168..<135168 + length f] = f"
    "map (mem (dev s')) [131072..<131072 + 4] = bytes_of (le_bytes (word_of_nat (length f)))"
    "\<forall>x. x < 131072 \<or> 135168 + 4096 * ((length ps + 8) div 8) \<le> x \<longrightarrow> mem (dev s') x = mem (dev s) x"
    "sent s' = sent s @ tftp_request ''DSP950_V02.ldr'' # map ack_of (ps @ [l])"
    using nor_flash.tftp_get_ok [OF nf assms(2-9)] by blast
  have "length f \<le> 258048" using payload_length [OF assms(5)] assms(6-9) by simp
  with nor_flash.send_dsp_ok [OF nf s'(2,3) assms(10) _ s'(4)] obtain d' where
    "tftp_send_dsp (trace_port r) (spi_flash_ops q) (t, dev s') =
      (t @ concat (map (\<lambda>j. frame (take 4 (drop (4 * j) f))) [0..<length f div 4]), d')" "ready d'" by blast
  with s' show ?thesis by (intro exI [of _ s'] exI [of _ d'] conjI)
qed

definition client :: "'d \<Rightarrow> 'd tftp" where
  "client d = \<lparr>tftp_buffer = replicate 516 0, g_file_size = 0, g_file_start_addr = 0, dev = d, sent = []\<rparr>"

theorem dsp_update_round_trip_witness:
  "\<exists>s' d'. tftp_get (spi_flash_ops w25q_port) 3 [Some ([0, 3, 0, 1] @ replicate 512 7), Some [0, 3, 0, 2, 1, 2, 3, 4, 5]]
      (client blank_chip) = Some (Finished, s') \<and>
    sent s' = tftp_request ''DSP950_V02.ldr'' # [[0, 4, 0, 1], [0, 4, 0, 2]] \<and>
    tftp_send_dsp (trace_port (\<lambda>_. 0)) (spi_flash_ops w25q_port) ([], dev s') =
      (concat (map (\<lambda>j. frame (take 4 (drop (4 * j) (replicate 512 7 @ [1, 2, 3, 4, 5])))) [0..<129]), d')"
proof -
  let ?ps = "[[0, 3, 0, 1] @ replicate 512 7] :: u8 list list" and ?l = "[0, 3, 0, 2, 1, 2, 3, 4, 5] :: u8 list"
  have "map ack_of (?ps @ [?l]) = [[0, 4, 0, 1], [0, 4, 0, 2]]" by (simp add: ack_of_def c_consts numeral_2_eq_2)
  moreover have "replicate 512 7 @ [1, 2, 3, 4, 5] = concat (map (drop 4) ?ps) @ drop 4 ?l" by simp
  moreover have "length (replicate 512 (7 :: u8) @ [1, 2, 3, 4, 5]) div 4 = 129" by simp
  ultimately show ?thesis
    using dsp_update_round_trip [OF w25q_model, of "client blank_chip" 3 ?ps ?l "replicate 512 7 @ [1, 2, 3, 4, 5]" "\<lambda>_. 0" "[]"]
    by (auto simp: client_def blank_ready)
qed

text \<open>
  An update that fails. When a receive fails after some blocks, the first blocks of the old program
  are already overwritten while the size word still describes it: the next boot of the DSP sends
  a mixture of the two programs.
\<close>

theorem failed_update_keeps_size:
  fixes s :: "'c tftp"
  assumes "w25q_chip q ready desel wel mem" "ready (dev s)" "length (tftp_buffer s) = 516" "0 \<le> sock_fd"
    and "list_all (\<lambda>bs. length bs = 516) (ps @ [b])" "length ps < 503"
  shows "\<exists>s'. tftp_get (spi_flash_ops q) sock_fd (map Some (ps @ [b]) @ [None]) s = Some (Failed, s') \<and>
    words (mem (dev s')) 32768 = words (mem (dev s)) 32768 \<and>
    map (mem (dev s')) [135168..<135168 + 512 * (length ps + 1)] = concat (map (drop 4) (ps @ [b])) \<and>
    (\<forall>x \<ge> 135168 + 4096 * ((length ps + 8) div 8). mem (dev s') x = mem (dev s) x)"
proof -
  note nf = w25q_chip.driver_contract [OF assms(1)]
  let ?req = "tftp_request ''DSP950_V02.ldr''" and ?F = "spi_flash_ops q"
  let ?s0 = "s\<lparr>g_file_start_addr := TFTP_DATA_ADDR, g_file_size := 0, tftp_buffer := fill ?req (tftp_buffer s),
    sent := sent s @ [?req]\<rparr>"
  have s0: "ready (dev ?s0)" "length (tftp_buffer ?s0) = 516" "g_file_start_addr ?s0 = TFTP_DATA_ADDR"
    using assms(2,3) by (simp_all add: fill_length request_length)
  obtain s1 where s1: "tftp_loop ?F 0 (map Some (ps @ [b]) @ [None]) ?s0 = Some (Failed, s1)"
    "mem (dev s1) = put_blocks 0 (map (drop 4) ps @ [drop 4 b]) (mem (dev s))"
    using nor_flash.tftp_loop_blocks [OF nf s0 assms(5), of 0 "[None]"] assms(6) by auto
  have lens: "list_all (\<lambda>b. length b = 512) (map (drop 4) ps)" "length (drop 4 b) = 512"
    using assms(5) by (simp_all add: list_all_iff)
  note im = put_blocks_image [OF rest_clear_0 lens(1), of "drop 4 b" "mem (dev s)", folded s1(2)]
  have "map (mem (dev s1)) [135168..<135168 + 512 * (length ps + 1)] = concat (map (drop 4) (ps @ [b]))"
  proof (rule nth_equalityI)
    show "length (map (mem (dev s1)) [135168..<135168 + 512 * (length ps + 1)]) = length (concat (map (drop 4) (ps @ [b])))"
      using payload_length [of ps] assms(5) by simp
  qed (use im lens(2) in auto)
  moreover have "words (mem (dev s1)) 32768 = words (mem (dev s)) 32768" using im lens(2) by (intro words_cong) auto
  moreover have "tftp_get ?F sock_fd (map Some (ps @ [b]) @ [None]) s = Some (Failed, s1)"
    using s1(1) assms(4) by (simp add: tftp_get_def Let_def)
  ultimately show ?thesis using im lens(2) by auto
qed

theorem failed_update_keeps_size_witness:
  "\<exists>s'. tftp_get (spi_flash_ops w25q_port) 3 [Some ([0, 3, 0, 1] @ replicate 512 7), None] (client blank_chip) = Some (Failed, s') \<and>
    words (cells (dev s')) 32768 = words (cells blank_chip) 32768"
  using failed_update_keeps_size [OF w25q_model, of "client blank_chip" 3 "[]" "[0, 3, 0, 1] @ replicate 512 7"]
  by (auto simp: client_def blank_ready)

text \<open>
  \<open>flash_erase_sec\<close>. A name that begins with one of the first three sector names erases the area
  of that name; every other name, known or not, erases the sector of the boot counter.
\<close>

theorem erase_by_name:
  assumes "w25q_chip q ready desel wel mem" "ready d"
  shows "\<exists>d'. flash_erase_sec (spi_flash_ops q) c_name d = Some d' \<and> ready d' \<and>
    words (mem d') = (\<lambda>i. if i div 1024 \<in>
      (if take 8 c_name = ''spi code'' then {0..7} else if take 6 c_name = ''volume'' then {16..19}
       else if take 8 c_name = ''dsp file'' then {32, 33} else {96}) then 0xffffffff else words (mem d) i)"
proof -
  note nf = w25q_chip.driver_contract [OF assms(1)]
  have ix: "sector_index c_name = (if take 8 c_name = ''spi code'' then 0 else if take 6 c_name = ''volume'' then 1
      else if take 8 c_name = ''dsp file'' then 2 else 3)"
    by (simp add: sector_index_def c_sectors_name_def scan_from.simps numeral_eq_Suc)
  let ?from = "\<lambda>base n. map (\<lambda>j. base + word_of_nat j * 0x1000) [0..<n]"
  have "list_all2 (\<lambda>a s. unat a = 4096 * s \<and> s < 512) (?from SPI_CODE_BASE_ADDR (SECTOR_NUMBER * 2 + 2)) [0..<8]"
    "list_all2 (\<lambda>a s. unat a = 4096 * s \<and> s < 512) (?from VOLUME_INPUT_BASE_ADDR (2 * 2)) [16..<20]"
    "list_all2 (\<lambda>a s. unat a = 4096 * s \<and> s < 512) (?from TFTP_ADDR 2) [32..<34]"
    "list_all2 (\<lambda>a s. unat a = 4096 * s \<and> s < 512) (?from REBOOT_TIMES_ADDR 1) [96..<97]"
    by (simp_all add: layout upt_rec)
  note er = this [THEN nor_flash.erase_list_ok [OF nf assms(2)]]
  have sets: "set [0..<8] = {0..7 :: nat}" "set [16..<20] = {16..19 :: nat}" "set [32..<34] = {32, 33 :: nat}"
    "set [96..<97] = {96 :: nat}" by auto
  show ?thesis using er unfolding sets by (auto simp: flash_erase_sec_def ix Let_def)
qed

theorem erase_by_name_witness:
  "\<exists>d'. flash_erase_sec (spi_flash_ops w25q_port) ''volme'' blank_chip = Some d' \<and> chip_ready d' \<and>
    words (cells d') = (\<lambda>i. if i div 1024 \<in> {96} then 0xffffffff else words (cells blank_chip) i)"
  using erase_by_name [OF w25q_model blank_ready, of "''volme''"] by simp

end
