(* ===== verification/Dsp_State.thy ===== *)
theory Dsp_State
  imports Protocol Complex_Main
begin

text \<open>
  The parameter state of the DSP: the globals of \<open>Dsp_Signal.c\<close>, the structs of
  \<open>ADDS_21489_EzKit.h\<close>, the delay table of \<open>Spi_Code.c\<close> and the crossover tables of
  \<open>EQ.c\<close>. Floating point is abstract: \<open>'f\<close> is the type \<open>float\<close> and the record
  \<open>flt\<close> its operations, a parameter of every definition that computes with it (the DSP's
  compiler makes \<open>double\<close> the same type). An access outside a C array is the value
  \<open>Inl (OutOfBounds a)\<close> with the name of the array.
\<close>

section \<open>Faults and array accesses\<close>

datatype fault = OutOfBounds string

definition get_at :: "string \<Rightarrow> 'a list \<Rightarrow> u32 \<Rightarrow> fault + 'a" where
  "get_at nm xs i = (if unat i < length xs then Inr (xs ! unat i) else Inl (OutOfBounds nm))"

definition put_at :: "string \<Rightarrow> 'a list \<Rightarrow> u32 \<Rightarrow> 'a \<Rightarrow> fault + 'a list" where
  "put_at nm xs i v = (if unat i < length xs then Inr (xs[unat i := v]) else Inl (OutOfBounds nm))"

text \<open>\<open>a[i][j]\<close> of a matrix.\<close>

definition get_at2 :: "string \<Rightarrow> 'a list list \<Rightarrow> u32 \<Rightarrow> u32 \<Rightarrow> fault + 'a" where
  "get_at2 nm xss i j = bindE (get_at nm xss i) (\<lambda>xs. get_at nm xs j)"

definition put_at2 :: "string \<Rightarrow> 'a list list \<Rightarrow> u32 \<Rightarrow> u32 \<Rightarrow> 'a \<Rightarrow> fault + 'a list list" where
  "put_at2 nm xss i j v =
     bindE (get_at nm xss i) (\<lambda>xs. bindE (put_at nm xs j v) (\<lambda>xs. put_at nm xss i xs))"

lemma bindE_if: "bindE (if b then x else y) k = (if b then bindE x k else bindE y k)"
  by simp

definition matrix_ok :: "nat \<Rightarrow> nat \<Rightarrow> 'a list list \<Rightarrow> bool" where
  "matrix_ok m n xss \<longleftrightarrow> length xss = m \<and> (\<forall>xs \<in> set xss. length xs = n)"

lemma get_at_ok: "unat i < length xs \<Longrightarrow> get_at nm xs i = Inr (xs ! unat i)"
  by (simp add: get_at_def)

lemma put_at_ok: "unat i < length xs \<Longrightarrow> put_at nm xs i v = Inr (xs[unat i := v])"
  by (simp add: put_at_def)

lemma matrix_nth: "matrix_ok m n xss \<Longrightarrow> i < m \<Longrightarrow> length (xss ! i) = n"
  by (simp add: matrix_ok_def)

lemma matrix_update: "matrix_ok m n xss \<Longrightarrow> length xs = n \<Longrightarrow> matrix_ok m n (xss[i := xs])"
  using set_update_subset_insert [of xss i xs] by (auto simp: matrix_ok_def)

lemma put_at2_ok:
  "\<lbrakk>matrix_ok m n xss; unat i < m; unat j < n\<rbrakk> \<Longrightarrow>
     put_at2 nm xss i j v = Inr (xss[unat i := (xss ! unat i)[unat j := v]])"
  by (auto simp: put_at2_def get_at_def put_at_def matrix_ok_def)

lemma put_at2_matrix:
  "\<lbrakk>matrix_ok m n xss; unat i < m\<rbrakk> \<Longrightarrow> matrix_ok m n (xss[unat i := (xss ! unat i)[unat j := v]])"
  by (intro matrix_update) (auto simp: matrix_nth)

lemma get_at2_ok:
  "\<lbrakk>matrix_ok m n xss; unat i < m; unat j < n\<rbrakk> \<Longrightarrow> get_at2 nm xss i j = Inr (xss ! unat i ! unat j)"
  by (auto simp: get_at2_def get_at_def matrix_ok_def)

section \<open>Floating point\<close>

record 'f flt =
  of_uint :: "u32 \<Rightarrow> 'f"
  of_sint :: "int \<Rightarrow> 'f"
  lit :: "int \<Rightarrow> int \<Rightarrow> 'f"
  fadd :: "'f \<Rightarrow> 'f \<Rightarrow> 'f"
  fsub :: "'f \<Rightarrow> 'f \<Rightarrow> 'f"
  fmul :: "'f \<Rightarrow> 'f \<Rightarrow> 'f"
  fdiv :: "'f \<Rightarrow> 'f \<Rightarrow> 'f"
  powf :: "'f \<Rightarrow> 'f \<Rightarrow> 'f"
  fless :: "'f \<Rightarrow> 'f \<Rightarrow> bool"
  to_uint :: "'f \<Rightarrow> u32"

text \<open>
  \<open>lit F m e\<close> is the literal \<open>m\<close> times ten to the \<open>e\<close>. \<open>real_flt\<close> is arithmetic without
  rounding; conversion to \<open>unsigned\<close> truncates.
\<close>

definition real_flt :: "real flt" where
  "real_flt = \<lparr>of_uint = (\<lambda>w. real (unat w)), of_sint = real_of_int,
     lit = (\<lambda>m e. if 0 \<le> e then of_int m * 10 ^ nat e else of_int m / 10 ^ nat (- e)),
     fadd = (+), fsub = (-), fmul = (*), fdiv = (/), powf = (powr), fless = (<),
     to_uint = (\<lambda>x. word_of_int \<lfloor>x\<rfloor>)\<rparr>"

section \<open>The globals\<close>

record 'f dsp_general =
  SoundFieldX :: u32
  SoundFieldY :: u32
  SoundFieldZ :: u32
  SpeakerNumber :: u32
  SpeakerX :: "u32 list"
  SpeakerY :: "u32 list"
  SpeakerZ :: "u32 list"
  g_volume_count_value :: u32
  knobvolume :: 'f
  knobvolumegainvalue :: 'f
  InputXtype :: u32
  LastInputXtype :: u32
  FadeInTime :: 'f
  FadeInTimePerFrame :: 'f
  FadeOutTime :: 'f
  FadeOutTimePerFrame :: 'f
  SurroundType :: u32
  Matrix_ChtoOutch :: "u32 list list"
  MonitorOutState :: u32
  Mute :: u32
  FadeInFlag :: u32
  FadeInCoeff :: 'f
  FadeOutFlag :: u32
  FadeOutCoeff :: 'f

record InputParams =
  SamplingRate :: u32
  Decoder :: u32
  ChannelNumber :: u32
  PinAssignList :: "u32 list"
  InDelay :: u32
  PlaybackSF :: u32

record 'f OutputParams =
  FreqDivVal :: "u32 list list"
  ChannelGain :: "'f list"
  ChannelGain_Val :: "'f list"
  OutDelay :: "'f list"
  HighCutFreq :: "'f list"
  HighCutSlope :: "'f list"
  LowCutFreq :: "'f list"
  LowCutSlope :: "'f list"
  EQBandGain :: "'f list list"
  EQBandGain_Val :: "'f list list"

record 'f dsp_aux =
  plAlignmentenablevalue :: u32
  centersignalenablevalue :: u32
  invertenablevalue :: u32
  plfilterfrenquency :: u32
  AlignmentChannel :: u32
  SignalModeVal :: u32
  SystemState :: u32
  OutputVolume :: "'f list"
  DJsourceX :: u32
  DJsourceY :: u32
  DJsourceZ :: u32
  DJgain :: u32

text \<open>
  The tables of \<open>EQ.c\<close> that SPI commands change. The filter coefficients themselves are not
  state of this theory; each call that recomputes them is recorded.
\<close>

datatype 'f filter_call =
    SetLPF nat 'f       \<comment> \<open>\<open>set_EQ_LPF (1, filter_cf_LPF[i], f)\<close>\<close>
  | SetHPFdl nat 'f     \<comment> \<open>\<open>set_EQ_HPF_dl (1, filter_cf_HPF_dl[i], f)\<close>\<close>
  | DivLPF nat nat 'f   \<comment> \<open>\<open>set_EQ_LPF (0, filter_cf_frequencydivion[i] + k, f)\<close>\<close>
  | DivHPF nat nat 'f   \<comment> \<open>\<open>set_EQ_HPF (0, filter_cf_frequencydivion[i] + k, f)\<close>\<close>

record 'f dsp_eq =
  divisionbandnum_set :: "int list"
  fc_division :: "'f list list"
  outsignalchannel_book24m3 :: "int list list"
  filter_calls :: "'f filter_call list"

record 'f dsp =
  gen :: "'f dsp_general"
  inputparam :: "InputParams list"
  outputparam :: "'f OutputParams list"
  OutputYtype :: u32
  DSP23_OutputYtype :: u32
  aux :: "'f dsp_aux"
  Delaytime_samplenums :: "u32 list"
  eq :: "'f dsp_eq"
  g_init_done :: u32

definition NUM_SAMPLES :: int where [c_consts]: "NUM_SAMPLES = 256"
definition FFTSIZE :: u32 where [c_consts]: "FFTSIZE = 256"
definition DelayBufSIZE :: u32 where [c_consts]: "DelayBufSIZE = FFTSIZE * 20"
definition MAXROUTENUM :: nat where [c_consts]: "MAXROUTENUM = 16"
definition MAXCAHNNELNUM :: nat where [c_consts]: "MAXCAHNNELNUM = 16"
definition Channelnum_Max :: nat where [c_consts]: "Channelnum_Max = 24"
definition USE_VOLUME_STEP :: u32 where [c_consts]: "USE_VOLUME_STEP = 0x60"

section \<open>The invariant\<close>

text \<open>Array sizes are those of the declarations; values are in the ranges the handlers accept.\<close>

definition gen_ok :: "'f dsp_general \<Rightarrow> bool" where
  "gen_ok g \<longleftrightarrow> SoundFieldX g \<le> 10000 \<and> SoundFieldY g \<le> 5000 \<and> SoundFieldZ g \<le> 3000 \<and>
     SpeakerNumber g \<le> 24 \<and> length (SpeakerX g) = 24 \<and> length (SpeakerY g) = 24 \<and>
     length (SpeakerZ g) = 24 \<and> g_volume_count_value g \<le> 96 \<and> InputXtype g \<le> 7 \<and>
     LastInputXtype g \<le> 7 \<and> SurroundType g \<le> 5 \<and> matrix_ok 24 24 (Matrix_ChtoOutch g) \<and>
     MonitorOutState g \<le> 1 \<and> Mute g \<le> 1"

definition out_ok :: "'f OutputParams \<Rightarrow> bool" where
  "out_ok q \<longleftrightarrow> matrix_ok 30 3 (FreqDivVal q) \<and> length (ChannelGain q) = 30 \<and>
     length (ChannelGain_Val q) = 30 \<and> length (OutDelay q) = 30 \<and> length (HighCutFreq q) = 30 \<and>
     length (HighCutSlope q) = 30 \<and> length (LowCutFreq q) = 30 \<and> length (LowCutSlope q) = 30 \<and>
     matrix_ok 30 33 (EQBandGain q) \<and> matrix_ok 30 33 (EQBandGain_Val q)"

definition aux_ok :: "'f dsp_aux \<Rightarrow> bool" where
  "aux_ok x \<longleftrightarrow> plAlignmentenablevalue x \<le> 1 \<and> centersignalenablevalue x \<le> 1 \<and>
     invertenablevalue x \<le> 1 \<and> plfilterfrenquency x \<in> {0, 50, 100} \<and> AlignmentChannel x \<le> 30 \<and>
     SignalModeVal x \<le> 3 \<and> SystemState x \<le> 3 \<and> length (OutputVolume x) = 24"

definition eq_ok :: "'f dsp_eq \<Rightarrow> bool" where
  "eq_ok e \<longleftrightarrow> length (divisionbandnum_set e) = 16 \<and> matrix_ok 16 2 (fc_division e) \<and>
     matrix_ok 16 3 (outsignalchannel_book24m3 e)"

definition dsp_ok :: "'f dsp \<Rightarrow> bool" where
  "dsp_ok s \<longleftrightarrow> gen_ok (gen s) \<and> length (inputparam s) = 8 \<and> length (outputparam s) = 5 \<and>
     (\<forall>q \<in> set (outputparam s). out_ok q) \<and> OutputYtype s < 5 \<and> DSP23_OutputYtype s < 5 \<and>
     aux_ok (aux s) \<and> length (Delaytime_samplenums s) = MAXROUTENUM \<and> eq_ok (eq s)"

text \<open>The state at reset: C zeroes globals; \<open>EQ.c\<close> initialises its tables.\<close>

definition zero_input :: InputParams where
  "zero_input = \<lparr>SamplingRate = 0, Decoder = 0, ChannelNumber = 0, PinAssignList = replicate 8 0,
     InDelay = 0, PlaybackSF = 0\<rparr>"

definition zero_output :: "'f flt \<Rightarrow> 'f OutputParams" where
  "zero_output F = (let z = replicate 30 (lit F 0 0); zz = replicate 30 (replicate 33 (lit F 0 0)) in
     \<lparr>FreqDivVal = replicate 30 (replicate 3 0), ChannelGain = z, ChannelGain_Val = z, OutDelay = z,
      HighCutFreq = z, HighCutSlope = z, LowCutFreq = z, LowCutSlope = z, EQBandGain = zz,
      EQBandGain_Val = zz\<rparr>)"

text \<open>The initialiser in \<open>Channel_To_DA_Port.c\<close> has 14 rows; the last two are zero.\<close>

definition book_init :: "int list list" where
  "book_init = replicate 14 [-1, -1, -1] @ replicate 2 [0, 0, 0]"

definition dsp_reset :: "'f flt \<Rightarrow> 'f dsp" where
  "dsp_reset F =
     \<lparr>gen = \<lparr>SoundFieldX = 0, SoundFieldY = 0, SoundFieldZ = 0, SpeakerNumber = 0,
        SpeakerX = replicate 24 0, SpeakerY = replicate 24 0, SpeakerZ = replicate 24 0,
        g_volume_count_value = 0x30, knobvolume = lit F 0 0, knobvolumegainvalue = lit F 1 (-1),
        InputXtype = 0, LastInputXtype = 0, FadeInTime = lit F 0 0, FadeInTimePerFrame = lit F 0 0,
        FadeOutTime = lit F 0 0, FadeOutTimePerFrame = lit F 0 0, SurroundType = 0,
        Matrix_ChtoOutch = replicate 24 (replicate 24 0), MonitorOutState = 0, Mute = 0,
        FadeInFlag = 0, FadeInCoeff = lit F 0 0, FadeOutFlag = 0, FadeOutCoeff = lit F 0 0\<rparr>,
      inputparam = replicate 8 zero_input, outputparam = replicate 5 (zero_output F),
      OutputYtype = 0, DSP23_OutputYtype = 0,
      aux = \<lparr>plAlignmentenablevalue = 0, centersignalenablevalue = 0, invertenablevalue = 0,
        plfilterfrenquency = 0, AlignmentChannel = 0, SignalModeVal = 0, SystemState = 0,
        OutputVolume = replicate 24 (lit F 0 0), DJsourceX = 0, DJsourceY = 0, DJsourceZ = 0, DJgain = 0\<rparr>,
      Delaytime_samplenums = replicate 16 0,
      eq = \<lparr>divisionbandnum_set = replicate 16 1, fc_division = replicate 16 [lit F 300 0, lit F 2000 0],
        outsignalchannel_book24m3 = book_init, filter_calls = []\<rparr>,
      g_init_done = 0\<rparr>"

lemma matrix_replicate [simp]: "matrix_ok m n (replicate m (replicate n x))"
  by (simp add: matrix_ok_def)

lemma out_ok_zero: "out_ok (zero_output F)"
  by (simp add: out_ok_def zero_output_def Let_def)

lemma book_init_ok: "matrix_ok 16 3 book_init"
  by (auto simp: matrix_ok_def book_init_def)

lemma dsp_reset_ok: "dsp_ok (dsp_reset F)"
proof -
  have "matrix_ok 16 2 (replicate 16 [a, b])" for a b :: 'x by (simp add: matrix_ok_def)
  with book_init_ok show ?thesis
    by (simp add: dsp_ok_def dsp_reset_def gen_ok_def aux_ok_def eq_ok_def out_ok_zero c_consts)
qed

end
