(* ===== verification/Dsp_Params.thy ===== *)
theory Dsp_Params
  imports Dsp_State
begin

text \<open>
  The command handlers of the DSP, \<open>Spi_Code.c\<close>, their dispatch in \<open>SPI.c\<close>, the crossover
  update of \<open>EQ.c\<close> they call, and the volume knob interrupt of \<open>Volume.c\<close>. A handler
  takes the received word and the state, and returns its code with the new state, or the fault of
  an access outside an array. The printing of the debug build is left out.
\<close>

type_synonym 'f handler = "'f flt \<Rightarrow> u32 \<Rightarrow> 'f dsp \<Rightarrow> fault + int \<times> 'f dsp"

definition upd_gen :: "('f dsp_general \<Rightarrow> 'f dsp_general) \<Rightarrow> 'f dsp \<Rightarrow> 'f dsp" where
  "upd_gen h s = s\<lparr>gen := h (gen s)\<rparr>"

definition upd_aux :: "('f dsp_aux \<Rightarrow> 'f dsp_aux) \<Rightarrow> 'f dsp \<Rightarrow> 'f dsp" where
  "upd_aux h s = s\<lparr>aux := h (aux s)\<rparr>"

section \<open>Group 1: general parameters\<close>

definition instructiondecoder_SoundFieldX_Set :: "'f handler" where
  "instructiondecoder_SoundFieldX_Set F w s =
     (if getinstructiontype w \<noteq> 0 then Inr (1, s)
      else if getpara23_unsignedint w > 10000 then Inr (1, s)
      else Inr (0, upd_gen (\<lambda>g. g\<lparr>SoundFieldX := getpara23_unsignedint w\<rparr>) s))"

definition instructiondecoder_SoundFieldY_Set :: "'f handler" where
  "instructiondecoder_SoundFieldY_Set F w s =
     (if getinstructiontype w \<noteq> 0 then Inr (1, s)
      else if getpara23_unsignedint w > 5000 then Inr (1, s)
      else Inr (0, upd_gen (\<lambda>g. g\<lparr>SoundFieldY := getpara23_unsignedint w\<rparr>) s))"

definition instructiondecoder_SoundFieldZ_Set :: "'f handler" where
  "instructiondecoder_SoundFieldZ_Set F w s =
     (if getinstructiontype w \<noteq> 0 then Inr (1, s)
      else if getpara23_unsignedint w > 3000 then Inr (1, s)
      else Inr (0, upd_gen (\<lambda>g. g\<lparr>SoundFieldZ := getpara23_unsignedint w\<rparr>) s))"

definition instructiondecoder_SpeakerNumber_Set :: "'f handler" where
  "instructiondecoder_SpeakerNumber_Set F w s =
     (if getinstructiontype w \<noteq> 0 then Inr (1, s)
      else if getpara2_unsignedint w > 24 then Inr (1, s)
      else Inr (0, upd_gen (\<lambda>g. g\<lparr>SpeakerNumber := getpara2_unsignedint w\<rparr>) s))"

definition instructiondecoder_SpeakerX_Set :: "'f handler" where
  "instructiondecoder_SpeakerX_Set F w s =
     (if getinstructiontype w \<noteq> 0 then Inr (1, s)
      else if getpara1_unsignedint w > 24 then Inr (1, s)
      else if getpara23_unsignedint w > 10000 then Inr (1, s)
      else bindE (put_at ''SpeakerX'' (SpeakerX (gen s)) (getpara1_unsignedint w - 1) (getpara23_unsignedint w))
        (\<lambda>xs. Inr (0, upd_gen (\<lambda>g. g\<lparr>SpeakerX := xs\<rparr>) s)))"

definition instructiondecoder_SpeakerY_Set :: "'f handler" where
  "instructiondecoder_SpeakerY_Set F w s =
     (if getinstructiontype w \<noteq> 0 then Inr (1, s)
      else if getpara1_unsignedint w > 24 then Inr (1, s)
      else if getpara23_unsignedint w > 10000 then Inr (1, s)
      else bindE (put_at ''SpeakerY'' (SpeakerY (gen s)) (getpara1_unsignedint w - 1) (getpara23_unsignedint w))
        (\<lambda>xs. Inr (0, upd_gen (\<lambda>g. g\<lparr>SpeakerY := xs\<rparr>) s)))"

definition instructiondecoder_SpeakerZ_Set :: "'f handler" where
  "instructiondecoder_SpeakerZ_Set F w s =
     (if getinstructiontype w \<noteq> 0 then Inr (1, s)
      else if getpara1_unsignedint w > 24 then Inr (1, s)
      else if getpara23_unsignedint w > 10000 then Inr (1, s)
      else bindE (put_at ''SpeakerZ'' (SpeakerZ (gen s)) (getpara1_unsignedint w - 1) (getpara23_unsignedint w))
        (\<lambda>xs. Inr (0, upd_gen (\<lambda>g. g\<lparr>SpeakerZ := xs\<rparr>) s)))"

definition instructiondecoder_KnobVolume_Set :: "'f handler" where
  "instructiondecoder_KnobVolume_Set F w s =
     (if getinstructiontype w \<noteq> 0 then Inr (1, s)
      else if getpara2_unsignedint w > 96 then Inr (1, s)
      else
        let kv = fmul F (lit F 10 (-1)) (of_uint F (getpara2_unsignedint w))
        in Inr (0, upd_gen (\<lambda>g. g\<lparr>g_volume_count_value := getpara2_unsignedint w, knobvolume := kv,
             knobvolumegainvalue :=
               powf F (lit F 100 (-1)) (fdiv F (fsub F kv (of_sint F 90)) (of_sint F 20))\<rparr>) s))"

definition instructiondecoder_InputXtype_Set :: "'f handler" where
  "instructiondecoder_InputXtype_Set F w s =
     (if getinstructiontype w \<noteq> 0 then Inr (1, s)
      else if getpara1_unsignedint w > 7 \<or> getpara1_unsignedint w = 0 then Inr (1, s)
      else Inr (0, upd_gen (\<lambda>g. g\<lparr>InputXtype := getpara1_unsignedint w,
                                  LastInputXtype := getpara1_unsignedint w\<rparr>) s))"

text \<open>\<open>4.0e-4 * NUM_SAMPLES / SamplingRate / time\<close>\<close>

definition fade_per_frame :: "'f flt \<Rightarrow> u32 \<Rightarrow> 'f \<Rightarrow> 'f" where
  "fade_per_frame F rate t =
     fdiv F (fdiv F (fmul F (lit F 40 (-5)) (of_sint F NUM_SAMPLES)) (of_uint F rate)) t"

definition instructiondecoder_FadeInTime_Set :: "'f handler" where
  "instructiondecoder_FadeInTime_Set F w s =
     (if getinstructiontype w \<noteq> 0 then Inr (1, s)
      else if getpara1_unsignedint w > 10 \<or> getpara1_unsignedint w < 2 then Inr (1, s)
      else
        let t = fmul F (lit F 1 (-1)) (of_uint F (getpara1_unsignedint w))
        in bindE (get_at ''inputparam'' (inputparam s) (InputXtype (gen s)))
             (\<lambda>ip. Inr (0, upd_gen (\<lambda>g. g\<lparr>FadeInTime := t,
                FadeInTimePerFrame := fade_per_frame F (SamplingRate ip) t\<rparr>) s)))"

definition instructiondecoder_FadeOutTime_Set :: "'f handler" where
  "instructiondecoder_FadeOutTime_Set F w s =
     (if getinstructiontype w \<noteq> 0 then Inr (1, s)
      else if getpara1_unsignedint w > 10 \<or> getpara1_unsignedint w < 2 then Inr (1, s)
      else
        let t = fmul F (lit F 1 (-1)) (of_uint F (getpara1_unsignedint w))
        in bindE (get_at ''inputparam'' (inputparam s) (InputXtype (gen s)))
             (\<lambda>ip. Inr (0, upd_gen (\<lambda>g. g\<lparr>FadeOutTime := t,
                FadeOutTimePerFrame := fade_per_frame F (SamplingRate ip) t\<rparr>) s)))"

definition instructiondecoder_SurroundType_Set :: "'f handler" where
  "instructiondecoder_SurroundType_Set F w s =
     (if getinstructiontype w \<noteq> 0 then Inr (1, s)
      else if getpara1_unsignedint w > 5 then Inr (1, s)
      else Inr (0, upd_gen (\<lambda>g. g\<lparr>SurroundType := getpara1_unsignedint w\<rparr>) s))"

definition instructiondecoder_OutPinAssign_Set :: "'f handler" where
  "instructiondecoder_OutPinAssign_Set F w s =
     (if getinstructiontype w \<noteq> 0 then Inr (1, s)
      else if getpara1_unsignedint w > 24 \<or> getpara1_unsignedint w = 0 then Inr (1, s)
      else if getpara2_unsignedint w > 24 \<or> getpara2_unsignedint w = 0 then Inr (1, s)
      else bindE (put_at2 ''Matrix_ChtoOutch'' (Matrix_ChtoOutch (gen s)) (getpara1_unsignedint w - 1)
                    (getpara2_unsignedint w - 1) (getpara3_unsignedint w))
        (\<lambda>m. Inr (0, upd_gen (\<lambda>g. g\<lparr>Matrix_ChtoOutch := m\<rparr>) s)))"

definition instructiondecoder_MonitorOutState_Set :: "'f handler" where
  "instructiondecoder_MonitorOutState_Set F w s =
     (if getinstructiontype w \<noteq> 0 then Inr (1, s)
      else if getpara1_unsignedint w > 1 then Inr (1, s)
      else Inr (0, upd_gen (\<lambda>g. g\<lparr>MonitorOutState := getpara1_unsignedint w\<rparr>) s))"

definition instructiondecoder_Mute_Set :: "'f handler" where
  "instructiondecoder_Mute_Set F w s =
     (if getinstructiontype w \<noteq> 0 then Inr (1, s)
      else if getpara1_unsignedint w > 1 then Inr (1, s)
      else
        let s = upd_gen (\<lambda>g. g\<lparr>Mute := getpara1_unsignedint w\<rparr>) s
        in Inr (0, if Mute (gen s) = 1
                   then upd_gen (\<lambda>g. g\<lparr>FadeInFlag := 1, FadeInCoeff := of_sint F 0\<rparr>) s
                   else upd_gen (\<lambda>g. g\<lparr>FadeOutFlag := 1, FadeOutCoeff := of_sint F 1\<rparr>) s))"

section \<open>Groups 2 to 8: inputs\<close>

text \<open>Updates \<open>inputparam[i]\<close>.\<close>

definition upd_input :: "u32 \<Rightarrow> (InputParams \<Rightarrow> InputParams) \<Rightarrow> 'f dsp \<Rightarrow> fault + 'f dsp" where
  "upd_input i h s =
     bindE (get_at ''inputparam'' (inputparam s) i)
       (\<lambda>ip. bindE (put_at ''inputparam'' (inputparam s) i (h ip)) (\<lambda>ips. Inr (s\<lparr>inputparam := ips\<rparr>)))"

definition instructiondecoder_Input_SamplingRate_Set :: "'f handler" where
  "instructiondecoder_Input_SamplingRate_Set F w s =
     (if getinstructiontype w \<noteq> 0 then Inr (1, s)
      else
        let InputType = getinstructiongroup w - 1;
            p = getpara1_unsignedint w;
            rate = (if p = 1 then 44100 else if p = 2 then 48000 else if p = 3 then 88200
                    else if p = 4 then 96000 else 48000)
        in bindE (upd_input InputType (\<lambda>ip. ip\<lparr>SamplingRate := rate\<rparr>) s) (\<lambda>s. Inr (0, s)))"

definition instructiondecoder_Input_Decoder_Set :: "'f handler" where
  "instructiondecoder_Input_Decoder_Set F w s =
     (if getinstructiontype w \<noteq> 0 then Inr (1, s)
      else bindE (upd_input (getinstructiongroup w - 1) (\<lambda>ip. ip\<lparr>Decoder := getpara1_unsignedint w\<rparr>) s)
        (\<lambda>s. Inr (0, s)))"

definition instructiondecoder_Input_ChannelNumber_Set :: "'f handler" where
  "instructiondecoder_Input_ChannelNumber_Set F w s =
     (if getinstructiontype w \<noteq> 0 then Inr (1, s)
      else bindE (upd_input (getinstructiongroup w - 1) (\<lambda>ip. ip\<lparr>ChannelNumber := getpara1_unsignedint w\<rparr>) s)
        (\<lambda>s. Inr (0, s)))"

definition instructiondecoder_Input_PinAssign_Set :: "'f handler" where
  "instructiondecoder_Input_PinAssign_Set F w s = Inr (0, s)"

definition instructiondecoder_Input_TimeDelay_Set :: "'f handler" where
  "instructiondecoder_Input_TimeDelay_Set F w s = Inr (0, s)"

text \<open>Whatever the group, the field of \<open>inputparam[1]\<close> is written.\<close>

definition instructiondecoder_Input_PlaybackSF_Set :: "'f handler" where
  "instructiondecoder_Input_PlaybackSF_Set F w s =
     (if getinstructiontype w \<noteq> 0 then Inr (1, s)
      else if getpara1_unsignedint w > 24 then Inr (1, s)
      else bindE (upd_input 1 (\<lambda>ip. ip\<lparr>PlaybackSF := getpara1_unsignedint w\<rparr>) s) (\<lambda>s. Inr (0, s)))"

section \<open>Groups 9 to 12: outputs\<close>

definition instructiondecoder_Output_FreqDivision_Set :: "'f handler" where
  "instructiondecoder_Output_FreqDivision_Set F w s = Inr (0, s)"

text \<open>Runs \<open>h\<close> on \<open>outputparam[OutputYtype]\<close> and stores the result.\<close>

definition upd_output :: "('f OutputParams \<Rightarrow> fault + 'f OutputParams) \<Rightarrow> 'f dsp \<Rightarrow> fault + 'f dsp" where
  "upd_output h s =
     bindE (get_at ''outputparam'' (outputparam s) (OutputYtype s))
       (\<lambda>q. bindE (h q)
         (\<lambda>q. bindE (put_at ''outputparam'' (outputparam s) (OutputYtype s) q)
           (\<lambda>qs. Inr (s\<lparr>outputparam := qs\<rparr>))))"

definition instructiondecoder_Output_ChannelGain_Set :: "'f handler" where
  "instructiondecoder_Output_ChannelGain_Set F w s =
     (if getinstructiontype w \<noteq> 0 then Inr (1, s)
      else if getpara1_unsignedint w > 30 \<or> getpara1_unsignedint w = 0 then Inr (1, s)
      else
        let i = getpara1_unsignedint w - 1;
            gain = fdiv F (fmul F (lit F 10 (-1)) (of_sint F (sint (getpara2_signedint w)))) (of_sint F 10)
        in bindE (upd_output (\<lambda>q.
               bindE (put_at ''ChannelGain'' (ChannelGain q) i gain) (\<lambda>cg.
               bindE (put_at ''ChannelGain_Val'' (ChannelGain_Val q) i
                        (powf F (of_sint F 10) (fdiv F gain (lit F 200 (-1))))) (\<lambda>cv.
               Inr (q\<lparr>ChannelGain := cg, ChannelGain_Val := cv\<rparr>)))) s)
             (\<lambda>s. Inr (0, s)))"

text \<open>The delay is stored before the number of samples is checked.\<close>

definition instructiondecoder_Output_TimeDelay_Set :: "'f handler" where
  "instructiondecoder_Output_TimeDelay_Set F w s =
     (if getinstructiontype w \<noteq> 0 then Inr (1, s)
      else if getpara1_unsignedint w > 30 then Inr (1, s)
      else if getpara2_unsignedint w > 200 then Inr (1, s)
      else if getpara3_unsignedint w > 99 then Inr (1, s)
      else
        let i = getpara1_unsignedint w - 1;
            d = fadd F (of_uint F (getpara2_unsignedint w))
                  (fmul F (lit F 1 (-2)) (of_uint F (getpara3_unsignedint w)))
        in bindE (upd_output (\<lambda>q. bindE (put_at ''Delay'' (OutDelay q) i d)
                    (\<lambda>ds. Inr (q\<lparr>OutDelay := ds\<rparr>))) s) (\<lambda>s.
           bindE (get_at ''inputparam'' (inputparam s) (InputXtype (gen s))) (\<lambda>ip.
             let val = to_uint F (fdiv F (fmul F (of_uint F (SamplingRate ip)) d) (of_sint F 1000))
             in if val > DelayBufSIZE - FFTSIZE div 2 then Inr (1, s)
                else bindE (put_at ''Delaytime_samplenums'' (Delaytime_samplenums s) i val)
                  (\<lambda>ns. Inr (0, s\<lparr>Delaytime_samplenums := ns\<rparr>)))))"

text \<open>\<open>SPI_set_EQ_LPfilter\<close> and \<open>SPI_set_EQ_HPfilter\<close>: the coefficient arrays have 24 rows.\<close>

definition SPI_set_EQ_LPfilter :: "u32 \<Rightarrow> 'f dsp \<Rightarrow> fault + 'f dsp" where
  "SPI_set_EQ_LPfilter i s =
     (if unat i < Channelnum_Max then
        bindE (get_at ''outputparam'' (outputparam s) (OutputYtype s)) (\<lambda>q.
        bindE (get_at ''HighCutFreq'' (HighCutFreq q) i) (\<lambda>f.
          Inr (s\<lparr>eq := (eq s)\<lparr>filter_calls := filter_calls (eq s) @ [SetLPF (unat i) f]\<rparr>\<rparr>)))
      else Inl (OutOfBounds ''filter_cf_LPF''))"

definition SPI_set_EQ_HPfilter :: "u32 \<Rightarrow> 'f dsp \<Rightarrow> fault + 'f dsp" where
  "SPI_set_EQ_HPfilter i s =
     (if unat i < Channelnum_Max then
        bindE (get_at ''outputparam'' (outputparam s) (OutputYtype s)) (\<lambda>q.
        bindE (get_at ''LowCutFreq'' (LowCutFreq q) i) (\<lambda>f.
          Inr (s\<lparr>eq := (eq s)\<lparr>filter_calls := filter_calls (eq s) @ [SetHPFdl (unat i) f]\<rparr>\<rparr>)))
      else Inl (OutOfBounds ''filter_cf_HPF_dl''))"

definition val16 :: "u32 \<Rightarrow> u32" where
  "val16 w = push_bit 8 (getpara2_unsignedint w) + getpara3_unsignedint w"

definition instructiondecoder_Output_HighCutFreq_Set :: "'f handler" where
  "instructiondecoder_Output_HighCutFreq_Set F w s =
     (if getinstructiontype w \<noteq> 0 then Inr (1, s)
      else if getpara1_unsignedint w > 30 then Inr (1, s)
      else
        let i = getpara1_unsignedint w - 1; val = val16 w
        in if val > 20000 \<or> val < 20 then Inr (1, s)
           else
             bindE (get_at ''outputparam'' (outputparam s) (OutputYtype s)) (\<lambda>q.
             bindE (get_at ''LowCutFreq'' (LowCutFreq q) i) (\<lambda>lo.
               if fless F (of_uint F val) lo then Inr (1, s)
               else
                 bindE (upd_output (\<lambda>q. bindE (put_at ''HighCutFreq'' (HighCutFreq q) i (of_uint F val))
                          (\<lambda>xs. Inr (q\<lparr>HighCutFreq := xs\<rparr>))) s) (\<lambda>s.
                 bindE (SPI_set_EQ_LPfilter i s) (\<lambda>s. Inr (0, s))))))"

definition instructiondecoder_Output_LowCutFreq_Set :: "'f handler" where
  "instructiondecoder_Output_LowCutFreq_Set F w s =
     (if getinstructiontype w \<noteq> 0 then Inr (1, s)
      else if getpara1_unsignedint w > 30 then Inr (1, s)
      else
        let i = getpara1_unsignedint w - 1; val = val16 w
        in if val > 20000 \<or> val < 20 then Inr (1, s)
           else
             bindE (get_at ''outputparam'' (outputparam s) (OutputYtype s)) (\<lambda>q.
             bindE (get_at ''HighCutFreq'' (HighCutFreq q) i) (\<lambda>hi.
               if fless F hi (of_uint F val) then Inr (1, s)
               else
                 bindE (upd_output (\<lambda>q. bindE (put_at ''LowCutFreq'' (LowCutFreq q) i (of_uint F val))
                          (\<lambda>xs. Inr (q\<lparr>LowCutFreq := xs\<rparr>))) s) (\<lambda>s.
                 bindE (SPI_set_EQ_HPfilter i s) (\<lambda>s. Inr (0, s))))))"

definition instructiondecoder_Output_HighCutSlope_Set :: "'f handler" where
  "instructiondecoder_Output_HighCutSlope_Set F w s =
     (if getinstructiontype w \<noteq> 0 then Inr (1, s)
      else if getpara1_unsignedint w > 30 then Inr (1, s)
      else if getpara2_unsignedint w > 8 then Inr (1, s)
      else bindE (upd_output (\<lambda>q. bindE (put_at ''HighCutSlope'' (HighCutSlope q) (getpara1_unsignedint w - 1)
                                          (of_uint F (getpara2_unsignedint w)))
                    (\<lambda>xs. Inr (q\<lparr>HighCutSlope := xs\<rparr>))) s) (\<lambda>s. Inr (0, s)))"

definition instructiondecoder_Output_LowCutSlope_Set :: "'f handler" where
  "instructiondecoder_Output_LowCutSlope_Set F w s =
     (if getinstructiontype w \<noteq> 0 then Inr (1, s)
      else if getpara1_unsignedint w > 30 then Inr (1, s)
      else if getpara2_unsignedint w > 8 then Inr (1, s)
      else bindE (upd_output (\<lambda>q. bindE (put_at ''LowCutSlope'' (LowCutSlope q) (getpara1_unsignedint w - 1)
                                          (of_uint F (getpara2_unsignedint w)))
                    (\<lambda>xs. Inr (q\<lparr>LowCutSlope := xs\<rparr>))) s) (\<lambda>s. Inr (0, s)))"

text \<open>The loop \<open>for (i = 0; i < 31; i++)\<close> that flattens a channel: the first 31 bands.\<close>

fun clear_bands :: "'f flt \<Rightarrow> u32 \<Rightarrow> nat \<Rightarrow> nat \<Rightarrow> 'f OutputParams \<Rightarrow> fault + 'f OutputParams" where
  "clear_bands F ch 0 i q = Inr q"
| "clear_bands F ch (Suc n) i q =
     bindE (put_at2 ''EQBandGain'' (EQBandGain q) ch (word_of_nat i) (of_sint F 0)) (\<lambda>a.
     bindE (put_at2 ''EQBandGain_Val'' (EQBandGain_Val q) ch (word_of_nat i) (of_sint F 1)) (\<lambda>b.
       clear_bands F ch n (Suc i) (q\<lparr>EQBandGain := a, EQBandGain_Val := b\<rparr>)))"

text \<open>C division truncates towards zero.\<close>

definition tdiv :: "int \<Rightarrow> int \<Rightarrow> int" where
  "tdiv a b = sgn a * sgn b * (\<bar>a\<bar> div \<bar>b\<bar>)"

definition instructiondecoder_Output_EQBandGain_Set :: "'f handler" where
  "instructiondecoder_Output_EQBandGain_Set F w s =
     (if getinstructiontype w \<noteq> 0 then Inr (1, s)
      else if getpara1_unsignedint w > 30 then Inr (1, s)
      else if getpara2_unsignedint w > 31 then Inr (1, s)
      else if sint (getpara3_signedint w) > 120 \<or> sint (getpara3_signedint w) < -120 then Inr (1, s)
      else
        let ch = getpara1_unsignedint w - 1; bandz = getpara2_unsignedint w
        in if getpara2_unsignedint w = 0 \<and> getpara3_unsignedint w = 0
           then bindE (upd_output (clear_bands F ch 31 0) s) (\<lambda>s. Inr (0, s))
           else
             bindE (upd_output (\<lambda>q.
               bindE (put_at2 ''EQBandGain'' (EQBandGain q) ch (bandz - 1)
                        (of_sint F (tdiv (sint (getpara3_signedint w)) 10))) (\<lambda>a.
               bindE (put_at2 ''EQBandGain_Val'' (EQBandGain_Val q) ch (bandz - 1)
                        (powf F (of_sint F 10)
                           (fdiv F (of_sint F (sint (getpara3_signedint w))) (lit F 200 (-1))))) (\<lambda>b.
               Inr (q\<lparr>EQBandGain := a, EQBandGain_Val := b\<rparr>)))) s)
             (\<lambda>s. Inr (0, s)))"

section \<open>Group 13: auxiliary parameters\<close>

definition instructiondecoder_SPLreferencevalue_Set :: "'f handler" where
  "instructiondecoder_SPLreferencevalue_Set F w s = Inr (0, s)"

definition instructiondecoder_SPLalignmentvalue_Set :: "'f handler" where
  "instructiondecoder_SPLalignmentvalue_Set F w s = Inr (0, s)"

definition instructiondecoder_CutLevel_Set :: "'f handler" where
  "instructiondecoder_CutLevel_Set F w s = Inr (0, s)"

definition instructiondecoder_PL_Alignment_Enable_Set :: "'f handler" where
  "instructiondecoder_PL_Alignment_Enable_Set F w s =
     (if getinstructiontype w \<noteq> 0 then Inr (1, s)
      else if getpara1_unsignedint w > 1 then Inr (1, s)
      else Inr (0, upd_aux (\<lambda>x. x\<lparr>plAlignmentenablevalue := getpara1_unsignedint w\<rparr>) s))"

definition instructiondecoder_CenterSignal_Enable_Set :: "'f handler" where
  "instructiondecoder_CenterSignal_Enable_Set F w s =
     (if getinstructiontype w \<noteq> 0 then Inr (1, s)
      else if getpara1_unsignedint w > 1 then Inr (1, s)
      else Inr (0, upd_aux (\<lambda>x. x\<lparr>centersignalenablevalue := getpara1_unsignedint w\<rparr>) s))"

definition instructiondecoder_Invert_Enable_Set :: "'f handler" where
  "instructiondecoder_Invert_Enable_Set F w s =
     (if getinstructiontype w \<noteq> 0 then Inr (1, s)
      else if getpara1_unsignedint w > 1 then Inr (1, s)
      else Inr (0, upd_aux (\<lambda>x. x\<lparr>invertenablevalue := getpara1_unsignedint w\<rparr>) s))"

definition instructiondecoder_PLfilter_Set :: "'f handler" where
  "instructiondecoder_PLfilter_Set F w s =
     (if getinstructiontype w \<noteq> 0 then Inr (1, s)
      else if getpara1_unsignedint w > 1 then Inr (1, s)
      else Inr (0, upd_aux (\<lambda>x. x\<lparr>plfilterfrenquency := (if getpara1_unsignedint w = 0 then 50 else 100)\<rparr>) s))"

definition instructiondecoder_AlignmentChannel_Set :: "'f handler" where
  "instructiondecoder_AlignmentChannel_Set F w s =
     (if getinstructiontype w \<noteq> 0 then Inr (1, s)
      else if getpara1_unsignedint w > 30 then Inr (1, s)
      else Inr (0, upd_aux (\<lambda>x. x\<lparr>AlignmentChannel := getpara1_unsignedint w\<rparr>) s))"

definition instructiondecoder_SignalModeVal_Set :: "'f handler" where
  "instructiondecoder_SignalModeVal_Set F w s =
     (if getinstructiontype w \<noteq> 0 then Inr (1, s)
      else if getpara1_unsignedint w > 3 then Inr (1, s)
      else Inr (0, upd_aux (\<lambda>x. x\<lparr>SignalModeVal := getpara1_unsignedint w\<rparr>) s))"

definition instructiondecoder_SystemState_Set :: "'f handler" where
  "instructiondecoder_SystemState_Set F w s =
     (if getinstructiontype w \<noteq> 0 then Inr (1, s)
      else if getpara1_unsignedint w > 3 \<or> getpara1_unsignedint w = 0 then Inr (1, s)
      else
        let s = upd_aux (\<lambda>x. x\<lparr>SystemState := getpara1_unsignedint w\<rparr>) s
        in Inr (0, if SystemState (aux s) = 2
                   then upd_gen (\<lambda>g. g\<lparr>LastInputXtype := InputXtype g, InputXtype := 6\<rparr>) s
                   else upd_gen (\<lambda>g. g\<lparr>InputXtype := LastInputXtype g\<rparr>) s))"

definition instructiondecoder_OutputVolume_Set :: "'f handler" where
  "instructiondecoder_OutputVolume_Set F w s =
     (if getinstructiontype w \<noteq> 0 then Inr (1, s)
      else if getpara1_unsignedint w > 24 \<or> getpara1_unsignedint w = 0 then Inr (1, s)
      else if getpara2_unsignedint w > 140 then Inr (1, s)
      else bindE (put_at ''OutputVolume'' (OutputVolume (aux s)) (getpara1_unsignedint w - 1)
                    (of_uint F (getpara2_unsignedint w)))
        (\<lambda>xs. Inr (0, upd_aux (\<lambda>x. x\<lparr>OutputVolume := xs\<rparr>) s)))"

definition instructiondecoder_MicinBandeng_Set :: "'f handler" where
  "instructiondecoder_MicinBandeng_Set F w s = Inr (0, s)"

definition instructiondecoder_InputVolume_Set :: "'f handler" where
  "instructiondecoder_InputVolume_Set F w s = Inr (0, s)"

section \<open>Group 14: DJ source\<close>

definition instructiondecoder_DJsourceXY_Set :: "'f handler" where
  "instructiondecoder_DJsourceXY_Set F w s =
     (if getinstructiontype w \<noteq> 0 then Inr (1, s)
      else Inr (0, upd_aux (\<lambda>x. x\<lparr>DJsourceX := getpara2_unsignedint w, DJsourceY := getpara3_unsignedint w\<rparr>) s))"

definition instructiondecoder_DJsourceZ_Set :: "'f handler" where
  "instructiondecoder_DJsourceZ_Set F w s =
     (if getinstructiontype w \<noteq> 0 then Inr (1, s)
      else Inr (0, upd_aux (\<lambda>x. x\<lparr>DJsourceZ := getpara1_unsignedint w\<rparr>) s))"

definition instructiondecoder_DJgain_Set :: "'f handler" where
  "instructiondecoder_DJgain_Set F w s =
     (if getinstructiontype w \<noteq> 0 then Inr (1, s)
      else Inr (0, upd_aux (\<lambda>x. x\<lparr>DJgain := getpara1_unsignedint w\<rparr>) s))"

section \<open>Group 15: crossover\<close>

definition sim_frequencydivision_setdivisionpointnum ::
    "'f flt \<Rightarrow> u32 \<Rightarrow> u32 \<Rightarrow> 'f dsp \<Rightarrow> fault + 'f dsp" where
  "sim_frequencydivision_setdivisionpointnum F ch pointnum s =
     bindE (put_at ''divisionbandnum_set'' (divisionbandnum_set (eq s)) ch (sint pointnum)) (\<lambda>bn.
     bindE (if sint pointnum < 3
            then put_at2 ''outsignalchannel_book24m3'' (outsignalchannel_book24m3 (eq s)) ch 2 (-1)
            else Inr (outsignalchannel_book24m3 (eq s))) (\<lambda>bk.
     bindE (if sint pointnum < 2 then put_at2 ''outsignalchannel_book24m3'' bk ch 1 (-1) else Inr bk) (\<lambda>bk.
     bindE (if sint pointnum < 1 then put_at2 ''outsignalchannel_book24m3'' bk ch 0 (-1) else Inr bk) (\<lambda>bk.
     bindE (get_at ''outputparam'' (outputparam s) (DSP23_OutputYtype s)) (\<lambda>q.
     bindE (get_at2 ''FreqDivVal'' (FreqDivVal q) ch 1) (\<lambda>f0.
     bindE (get_at2 ''FreqDivVal'' (FreqDivVal q) ch 2) (\<lambda>f1.
     bindE (put_at2 ''fc_division'' (fc_division (eq s)) ch 0 (of_uint F f0)) (\<lambda>fc.
     bindE (put_at2 ''fc_division'' fc ch 1 (of_uint F f1)) (\<lambda>fc.
       let r = 3 * unat ch;
           calls = (if pointnum = 2 then [DivLPF r 0 (of_uint F f0), DivHPF (r + 1) 0 (of_uint F f0)]
                    else if pointnum = 3 then
                      [DivLPF r 0 (of_uint F f0), DivHPF (r + 1) 0 (of_uint F f0),
                       DivLPF (r + 1) 5 (of_uint F f1), DivHPF (r + 2) 0 (of_uint F f1)]
                    else [])
       in Inr (s\<lparr>eq := \<lparr>divisionbandnum_set = bn, fc_division = fc, outsignalchannel_book24m3 = bk,
                         filter_calls = filter_calls (eq s) @ calls\<rparr>\<rparr>))))))))))"

definition freq_div_complete :: "u32 \<Rightarrow> u32 \<Rightarrow> u32 \<Rightarrow> bool" where
  "freq_div_complete v0 v1 v2 \<longleftrightarrow>
     v0 = 1 \<or> v0 = 2 \<and> 20 \<le> v1 \<and> v1 \<le> 20000 \<or>
     v0 = 3 \<and> 20 \<le> v1 \<and> v1 \<le> 20000 \<and> 20 \<le> v2 \<and> v2 \<le> 20000"

definition instructiondecoder_FreqDiv_Set :: "'f handler" where
  "instructiondecoder_FreqDiv_Set F w s =
     (let row = getinstructionindexingroup w
      in if sint row > int MAXCAHNNELNUM then Inr (-1, s)
         else
           let col = getpara1_unsignedint w; val = val16 w
           in bindE
                (if sint col \<le> 3
                 then upd_output (\<lambda>q. bindE (put_at2 ''FreqDivVal'' (FreqDivVal q) (row - 1) (col - 1) val)
                                       (\<lambda>m. Inr (q\<lparr>FreqDivVal := m\<rparr>))) s
                 else bindE (put_at2 ''outsignalchannel_book24m3'' (outsignalchannel_book24m3 (eq s))
                               (row - 1) (col - 4) (sint val - 1))
                        (\<lambda>bk. Inr (s\<lparr>eq := (eq s)\<lparr>outsignalchannel_book24m3 := bk\<rparr>\<rparr>)))
                (\<lambda>s.
              bindE (get_at ''outputparam'' (outputparam s) (OutputYtype s)) (\<lambda>q.
              bindE (get_at2 ''FreqDivVal'' (FreqDivVal q) (row - 1) 0) (\<lambda>v0.
              bindE (get_at2 ''FreqDivVal'' (FreqDivVal q) (row - 1) 1) (\<lambda>v1.
              bindE (get_at2 ''FreqDivVal'' (FreqDivVal q) (row - 1) 2) (\<lambda>v2.
                if freq_div_complete v0 v1 v2
                then bindE (sim_frequencydivision_setdivisionpointnum F (row - 1) v0 s) (\<lambda>s. Inr (0, s))
                else Inr (0, s)))))))"

section \<open>Dispatch\<close>

text \<open>The table \<open>instructiondecoder\<close>: 7 rows of 17 entries, \<open>None\<close> for \<open>NULL\<close>.\<close>

definition pad17 :: "'a option list \<Rightarrow> 'a option list" where
  "pad17 xs = xs @ replicate (17 - length xs) None"

definition instructiondecoder :: "'f handler option list list" where
  "instructiondecoder = map pad17
     [[None],
      [None,
       Some instructiondecoder_SoundFieldX_Set, Some instructiondecoder_SoundFieldY_Set,
       Some instructiondecoder_SoundFieldZ_Set, Some instructiondecoder_SpeakerNumber_Set,
       Some instructiondecoder_SpeakerX_Set, Some instructiondecoder_SpeakerY_Set,
       Some instructiondecoder_SpeakerZ_Set, Some instructiondecoder_KnobVolume_Set,
       Some instructiondecoder_InputXtype_Set, Some instructiondecoder_FadeInTime_Set,
       Some instructiondecoder_FadeOutTime_Set, Some instructiondecoder_SurroundType_Set,
       Some instructiondecoder_OutPinAssign_Set, Some instructiondecoder_MonitorOutState_Set,
       Some instructiondecoder_Mute_Set, None],
      [None,
       Some instructiondecoder_Input_SamplingRate_Set, Some instructiondecoder_Input_Decoder_Set,
       Some instructiondecoder_Input_ChannelNumber_Set, Some instructiondecoder_Input_PinAssign_Set,
       Some instructiondecoder_Input_TimeDelay_Set, Some instructiondecoder_Input_PlaybackSF_Set],
      [None,
       Some instructiondecoder_Output_FreqDivision_Set, Some instructiondecoder_Output_ChannelGain_Set,
       Some instructiondecoder_Output_TimeDelay_Set, Some instructiondecoder_Output_HighCutFreq_Set,
       Some instructiondecoder_Output_LowCutFreq_Set, Some instructiondecoder_Output_HighCutSlope_Set,
       Some instructiondecoder_Output_LowCutSlope_Set, Some instructiondecoder_Output_EQBandGain_Set],
      [None,
       Some instructiondecoder_SPLreferencevalue_Set, Some instructiondecoder_SPLalignmentvalue_Set,
       Some instructiondecoder_CutLevel_Set, Some instructiondecoder_PL_Alignment_Enable_Set,
       Some instructiondecoder_CenterSignal_Enable_Set, Some instructiondecoder_Invert_Enable_Set,
       Some instructiondecoder_PLfilter_Set, None, Some instructiondecoder_AlignmentChannel_Set,
       Some instructiondecoder_SignalModeVal_Set, Some instructiondecoder_SystemState_Set, None,
       Some instructiondecoder_OutputVolume_Set, None, Some instructiondecoder_MicinBandeng_Set,
       Some instructiondecoder_InputVolume_Set],
      [Some instructiondecoder_DJsourceXY_Set, Some instructiondecoder_DJsourceZ_Set,
       Some instructiondecoder_DJgain_Set],
      [Some instructiondecoder_FreqDiv_Set]]"

text \<open>The row of the table a group selects.\<close>

definition decoder_row :: "u32 \<Rightarrow> nat" where
  "decoder_row g = (if g = 1 then 1 else if g \<le> 8 then 2 else if g \<le> 12 then 3
     else if g \<le> 13 then 4 else if g \<le> 14 then 5 else 6)"

definition select_handler :: "u32 \<Rightarrow> 'f handler option" where
  "select_handler w =
     (let g = getinstructiongroup w; ix = getinstructionindexingroup w
      in if decoder_row g = 6 then instructiondecoder ! 6 ! 0
         else if ix < 16 then instructiondecoder ! decoder_row g ! unat ix else None)"

text \<open>\<open>handle_spi_raw_data\<close>: the code of the handler is dropped.\<close>

definition handle_spi_raw_data :: "'f flt \<Rightarrow> u32 \<Rightarrow> 'f dsp \<Rightarrow> fault + 'f dsp" where
  "handle_spi_raw_data F w s =
     (if w = 0 \<or> w = 0x34000001 then Inr s
      else
        let s = (if w = 0x34000000 then s\<lparr>g_init_done := 1\<rparr> else s)
        in case select_handler w of None \<Rightarrow> Inr s | Some h \<Rightarrow> bindE (h F w s) (\<lambda>(r, s). Inr s))"

text \<open>
  The interrupt \<open>SPIH_ISR\<close> latches the received word and sets a flag; \<open>handle_spi_code\<close>, called
  from the main loop, tests the latched word and then reads the receive register again
  (\<open>rxspi\<close>).
\<close>

record spi_rx =
  g_SPI_Interrupt_Flag :: u32
  g_GetRXSPI :: u32
  g_spi_data :: u32

definition SPIH_ISR :: "u32 \<Rightarrow> spi_rx \<Rightarrow> spi_rx" where
  "SPIH_ISR rxspi r = r\<lparr>g_SPI_Interrupt_Flag := 1, g_GetRXSPI := rxspi\<rparr>"

definition handle_spi_code :: "'f flt \<Rightarrow> u32 \<Rightarrow> spi_rx \<times> 'f dsp \<Rightarrow> fault + spi_rx \<times> 'f dsp" where
  "handle_spi_code F rxspi rs =
     (case rs of (r, s) \<Rightarrow>
      if g_SPI_Interrupt_Flag r = 1 then
        let r = r\<lparr>g_SPI_Interrupt_Flag := 0\<rparr>
        in if g_GetRXSPI r \<noteq> 0 \<and> g_GetRXSPI r \<noteq> 0xffffffff then
             let r = r\<lparr>g_spi_data := rxspi\<rparr>
             in bindE (handle_spi_raw_data F (g_spi_data r) s) (\<lambda>s. Inr (r, s))
           else Inr (r, s)
      else Inr (r, s))"

section \<open>The volume knob\<close>

text \<open>
  \<open>knobvolume_SIGIRQ2\<close>: \<open>flg2\<close> and \<open>flg3\<close> tell whether the flag pins read low; the second
  component is the word written to the transmit register.
\<close>

definition knobvolume_SIGIRQ2 :: "'f flt \<Rightarrow> bool \<Rightarrow> bool \<Rightarrow> 'f dsp \<Rightarrow> 'f dsp \<times> u32" where
  "knobvolume_SIGIRQ2 F flg2_low flg3_low s =
     (let v = g_volume_count_value (gen s);
          v = (if flg3_low then
                 if flg2_low then
                   let v = v + 1 in if sint v \<ge> sint USE_VOLUME_STEP then USE_VOLUME_STEP else v
                 else v
               else if flg2_low then let v = v - 1 in if sint v \<le> 0 then 0 else v else v);
          kv = fmul F (lit F 10 (-1)) (of_sint F (sint v));
          gain = powf F (lit F 100 (-1)) (fdiv F (fsub F kv (of_uint F USE_VOLUME_STEP)) (of_sint F 20));
          up = push_bit 30 0 OR push_bit 26 1 OR push_bit 21 8 OR push_bit 16 0 OR push_bit 8 v OR push_bit 0 0
      in (upd_gen (\<lambda>g. g\<lparr>g_volume_count_value := v, knobvolume := kv, knobvolumegainvalue := gain\<rparr>) s, up))"

end
