(* ===== verification/Equalizer.thy ===== *)
theory Equalizer
  imports Dsp_Params
begin

text \<open>
  The filters of \<open>EQ.c\<close>: the design of the second order sections (high and low pass, shelves, peak), the
  coefficient memory with the functions that fill it (\<open>sim_31band_EQ\<close> and the parameter versions), and the
  processing of sample blocks. The run-time library's \<open>biquad\<close> is a parameter of the processing
  functions; the locale \<open>biquad_lib\<close> states what the code relies on. Exact statements about frequency
  responses are made for arithmetic without rounding, \<open>real_dspflt\<close>.
\<close>

section \<open>Arithmetic\<close>

record 'f dspflt = "'f flt" +
  fneg :: "'f \<Rightarrow> 'f"
  ftan :: "'f \<Rightarrow> 'f"
  fsqrt :: "'f \<Rightarrow> 'f"
  to_int :: "'f \<Rightarrow> int"
  fle :: "'f \<Rightarrow> 'f \<Rightarrow> bool"

definition real_dspflt :: "real dspflt" where
  "real_dspflt = flt.extend real_flt
     (dspflt.fields uminus tan sqrt (\<lambda>x. if x < 0 then - \<lfloor>- x\<rfloor> else \<lfloor>x\<rfloor>) (\<le>))"

lemma real_dspflt_simps:
  "of_uint real_dspflt w = real (unat w)" "of_sint real_dspflt i = real_of_int i"
  "lit real_dspflt m e = (if 0 \<le> e then of_int m * 10 ^ nat e else of_int m / 10 ^ nat (- e))"
  "fadd real_dspflt x y = x + y" "fsub real_dspflt x y = x - y" "fmul real_dspflt x y = x * y"
  "fdiv real_dspflt x y = x / y" "powf real_dspflt x y = x powr y" "fless real_dspflt x y \<longleftrightarrow> x < y"
  "fneg real_dspflt x = - x" "ftan real_dspflt x = tan x" "fsqrt real_dspflt x = sqrt x"
  "to_int real_dspflt x = (if x < 0 then - \<lfloor>- x\<rfloor> else \<lfloor>x\<rfloor>)" "fle real_dspflt x y \<longleftrightarrow> x \<le> y"
  by (simp_all add: real_dspflt_def real_flt_def dspflt.defs flt.defs)

text \<open>Array accesses with the \<open>int\<close> indices of this file, and a write of five coefficients through a pointer.\<close>

definition iget :: "string \<Rightarrow> 'a list \<Rightarrow> int \<Rightarrow> fault + 'a" where
  "iget nm xs i = (if 0 \<le> i \<and> i < int (length xs) then Inr (xs ! nat i) else Inl (OutOfBounds nm))"

definition iput :: "string \<Rightarrow> 'a list \<Rightarrow> int \<Rightarrow> 'a \<Rightarrow> fault + 'a list" where
  "iput nm xs i v = (if 0 \<le> i \<and> i < int (length xs) then Inr (xs[nat i := v]) else Inl (OutOfBounds nm))"

definition overlay :: "'a list \<Rightarrow> nat \<Rightarrow> 'a list \<Rightarrow> 'a list" where
  "overlay xs n ys = take n xs @ ys @ drop (n + length ys) xs"

definition put_cf :: "string \<Rightarrow> 'a list list \<Rightarrow> int \<Rightarrow> nat \<Rightarrow> 'a list \<Rightarrow> fault + 'a list list" where
  "put_cf nm rows i off cs =
     bindE (iget nm rows i) (\<lambda>row.
       if off + length cs \<le> length row then iput nm rows i (overlay row off cs) else Inl (OutOfBounds nm))"

section \<open>Filter design\<close>

definition fs :: "('f, 'z) dspflt_scheme \<Rightarrow> 'f" where
  "fs F = of_sint F 48000"

definition PI :: "('f, 'z) dspflt_scheme \<Rightarrow> 'f" where
  "PI F = lit F 314159265358979323846 (-20)"

definition inverseq_HPF :: "('f, 'z) dspflt_scheme \<Rightarrow> 'f" where
  "inverseq_HPF F = lit F 14142135 (-7)"

text \<open>\<open>k = tan(Wc / (fs * 2))\<close> with \<open>Wc = 2 * PI * fc\<close>, the first two statements of every design function.\<close>

definition warp :: "('f, 'z) dspflt_scheme \<Rightarrow> 'f \<Rightarrow> 'f" where
  "warp F fc =
     (let Wc = fmul F (fmul F (of_sint F 2) (PI F)) fc
      in ftan F (fdiv F Wc (fmul F (fs F) (of_sint F 2))))"

definition set_EQ_High_Shelf :: "('f, 'z) dspflt_scheme \<Rightarrow> 'f \<Rightarrow> 'f \<Rightarrow> 'f \<Rightarrow> 'f list" where
  "set_EQ_High_Shelf F fc gain q =
     (let iq = fdiv F (of_sint F 1) q; k = warp F fc; one = of_sint F 1; two = of_sint F 2
      in if fless F (of_sint F 0) gain then
           let V0 = powf F (of_sint F 10) (fdiv F gain (of_sint F 20));
               den = fadd F one (fmul F (fadd F iq k) k)
           in [fdiv F (fneg F (fadd F one (fmul F (fadd F (fneg F iq) k) k))) den,
               fdiv F (fmul F (of_sint F (-2)) (fsub F (fmul F k k) one)) den,
               fdiv F (fadd F V0 (fmul F k (fadd F (fmul F (fneg F (fsqrt F V0)) iq) k))) den,
               fdiv F (fmul F two (fsub F (fmul F k k) V0)) den,
               fdiv F (fadd F V0 (fmul F k (fadd F (fmul F (fsqrt F V0) iq) k))) den]
         else
           let V0 = powf F (of_sint F 10) (fdiv F (fneg F gain) (of_sint F 20));
               r = fmul F (fdiv F (lit F 10 (-1)) (fsqrt F V0)) iq;
               r' = fmul F (fdiv F (lit F (-10) (-1)) (fsqrt F V0)) iq;
               den = fadd F one (fmul F (fadd F r (fdiv F k V0)) k);
               den' = fadd F V0 (fmul F (fadd F (fmul F (fsqrt F V0) iq) k) k)
           in [fdiv F (fneg F (fadd F one (fmul F (fadd F r' (fdiv F k V0)) k))) den,
               fdiv F (fmul F (of_sint F (-2)) (fsub F (fdiv F (fmul F k k) V0) one)) den,
               fdiv F (fadd F one (fmul F (fadd F (fneg F iq) k) k)) den',
               fdiv F (fmul F two (fsub F (fmul F k k) one)) den',
               fdiv F (fadd F one (fmul F (fadd F iq k) k)) den'])"

definition set_EQ_Low_Shelf :: "('f, 'z) dspflt_scheme \<Rightarrow> 'f \<Rightarrow> 'f \<Rightarrow> 'f \<Rightarrow> 'f list" where
  "set_EQ_Low_Shelf F fc gain q =
     (let iq = fdiv F (of_sint F 1) q; k = warp F fc; one = of_sint F 1; two = of_sint F 2
      in if fless F (of_sint F 0) gain then
           let V0 = powf F (of_sint F 10) (fdiv F gain (of_sint F 20));
               den = fadd F one (fmul F (fadd F iq k) k)
           in [fdiv F (fneg F (fadd F one (fmul F (fadd F (fneg F iq) k) k))) den,
               fdiv F (fmul F (of_sint F (-2)) (fsub F (fmul F k k) one)) den,
               fdiv F (fadd F one (fmul F k (fadd F (fmul F (fneg F (fsqrt F V0)) iq) (fmul F k V0)))) den,
               fdiv F (fmul F two (fsub F (fmul F (fmul F k k) V0) one)) den,
               fdiv F (fadd F one (fmul F k (fadd F (fmul F (fsqrt F V0) iq) (fmul F k V0)))) den]
         else
           let V0 = powf F (of_sint F 10) (fdiv F (fneg F gain) (of_sint F 20));
               den = fadd F one (fmul F (fadd F (fmul F (fsqrt F V0) iq) (fmul F V0 k)) k)
           in [fdiv F (fneg F (fadd F one (fmul F (fadd F (fmul F (fneg F (fsqrt F V0)) iq) (fmul F k V0)) k))) den,
               fdiv F (fmul F (of_sint F (-2)) (fsub F (fmul F (fmul F k k) V0) one)) den,
               fdiv F (fadd F one (fmul F (fadd F (fneg F iq) k) k)) den,
               fdiv F (fmul F two (fsub F (fmul F k k) one)) den,
               fdiv F (fadd F one (fmul F (fadd F iq k) k)) den])"

definition set_EQ_Peak :: "('f, 'z) dspflt_scheme \<Rightarrow> 'f \<Rightarrow> 'f \<Rightarrow> 'f \<Rightarrow> 'f list" where
  "set_EQ_Peak F fc gain q =
     (let iq = fdiv F (of_sint F 1) q; k = warp F fc; one = of_sint F 1; two = of_sint F 2
      in if fless F (of_sint F 0) gain then
           let V0 = powf F (of_sint F 10) (fdiv F gain (of_sint F 20));
               den = fadd F one (fmul F (fadd F iq k) k)
           in [fdiv F (fneg F (fadd F one (fmul F (fadd F (fneg F iq) k) k))) den,
               fdiv F (fmul F (of_sint F (-2)) (fsub F (fmul F k k) one)) den,
               fdiv F (fadd F one (fmul F k (fadd F (fmul F (fneg F V0) iq) k))) den,
               fdiv F (fmul F two (fsub F (fmul F k k) one)) den,
               fdiv F (fadd F one (fmul F k (fadd F (fmul F V0 iq) k))) den]
         else
           let V0 = powf F (of_sint F 10) (fdiv F (fneg F gain) (of_sint F 20));
               den = fadd F one (fmul F (fadd F (fmul F V0 iq) k) k)
           in [fdiv F (fneg F (fadd F one (fmul F (fadd F (fmul F (fneg F V0) iq) k) k))) den,
               fdiv F (fmul F (of_sint F (-2)) (fsub F (fmul F k k) one)) den,
               fdiv F (fadd F one (fmul F (fadd F (fneg F iq) k) k)) den,
               fdiv F (fmul F two (fsub F (fmul F k k) one)) den,
               fdiv F (fadd F one (fmul F (fadd F iq k) k)) den])"

text \<open>\<open>set_EQ_HPF\<close> and \<open>set_EQ_HPF_dl\<close> differ in the type of their locals only.\<close>

definition set_EQ_HPF :: "('f, 'z) dspflt_scheme \<Rightarrow> 'f \<Rightarrow> 'f list" where
  "set_EQ_HPF F fc =
     (let iq = inverseq_HPF F; k = warp F fc; one = of_sint F 1;
          den = fadd F one (fmul F (fadd F iq k) k);
          factor = fdiv F one den
      in [fmul F (fneg F (fadd F one (fmul F (fadd F (fneg F iq) k) k))) factor,
          fmul F (fmul F (of_sint F (-2)) (fsub F (fmul F k k) one)) factor,
          fmul F one factor,
          fmul F (of_sint F (-2)) factor,
          fmul F one factor])"

definition set_EQ_HPF_dl :: "('f, 'z) dspflt_scheme \<Rightarrow> 'f \<Rightarrow> 'f list" where
  "set_EQ_HPF_dl F fc =
     (let iq = inverseq_HPF F; k = warp F fc; one = of_sint F 1;
          den = fadd F one (fmul F (fadd F iq k) k);
          factor = fdiv F one den
      in [fmul F (fneg F (fadd F one (fmul F (fadd F (fneg F iq) k) k))) factor,
          fmul F (fmul F (of_sint F (-2)) (fsub F (fmul F k k) one)) factor,
          fmul F one factor,
          fmul F (of_sint F (-2)) factor,
          fmul F one factor])"

definition set_EQ_LPF :: "('f, 'z) dspflt_scheme \<Rightarrow> 'f \<Rightarrow> 'f list" where
  "set_EQ_LPF F fc =
     (let iq = inverseq_HPF F; k = warp F fc; one = of_sint F 1;
          den = fadd F one (fmul F (fadd F iq k) k);
          factor = fdiv F one den
      in [fmul F (fneg F (fadd F one (fmul F (fadd F (fneg F iq) k) k))) factor,
          fmul F (fmul F (of_sint F (-2)) (fsub F (fmul F k k) one)) factor,
          fdiv F (fmul F k k) den,
          fdiv F (fmul F (of_sint F 2) (fmul F k k)) den,
          fdiv F (fmul F k k) den])"

section \<open>Frequency responses\<close>

text \<open>
  The library stores \<open>-A2, -A1, B2, B1, B0\<close>: the section is \<open>(B0 z\<^sup>2 + B1 z + B2) / (z\<^sup>2 + A1 z + A2)\<close>.
\<close>

definition numer :: "real list \<Rightarrow> complex \<Rightarrow> complex" where
  "numer cs z = of_real (cs ! 4) * z\<^sup>2 + of_real (cs ! 3) * z + of_real (cs ! 2)"

definition denom :: "real list \<Rightarrow> complex \<Rightarrow> complex" where
  "denom cs z = z\<^sup>2 - of_real (cs ! 1) * z - of_real (cs ! 0)"

definition response :: "real list \<Rightarrow> complex \<Rightarrow> complex" where
  "response cs z = numer cs z / denom cs z"

text \<open>The point of the unit circle that belongs to a frequency in Hertz, with the constant of the code.\<close>

definition freq_point :: "real \<Rightarrow> complex" where
  "freq_point f = cis (2 * PI real_dspflt * f / 48000)"

definition stable :: "real list \<Rightarrow> bool" where
  "stable cs \<longleftrightarrow> (\<forall>z. denom cs z = 0 \<longrightarrow> cmod z < 1)"

text \<open>Bounds of the circle number, from the series of the arc tangent.\<close>

lemma arctan_bounds:
  assumes "0 \<le> (x :: real)"
  shows "x - x ^ 3 / 3 + x ^ 5 / 5 - x ^ 7 / 7 \<le> arctan x" "arctan x \<le> x - x ^ 3 / 3 + x ^ 5 / 5"
proof -
  have s: "0 < 1 + t\<^sup>2" for t :: real by (simp add: add_pos_nonneg)
  have "(\<lambda>t. arctan t - (t - t ^ 3 / 3 + t ^ 5 / 5 - t ^ 7 / 7)) 0 \<le> (\<lambda>t. arctan t - (t - t ^ 3 / 3 + t ^ 5 / 5 - t ^ 7 / 7)) x"
  proof (rule DERIV_nonneg_imp_nondecreasing [OF assms], intro exI conjI)
    fix t :: real
    show "((\<lambda>t. arctan t - (t - t ^ 3 / 3 + t ^ 5 / 5 - t ^ 7 / 7)) has_real_derivative inverse (1 + t\<^sup>2) - (1 - t ^ 2 + t ^ 4 - t ^ 6)) (at t)"
      by (auto intro!: derivative_eq_intros)
    have "inverse (1 + t\<^sup>2) - (1 - t ^ 2 + t ^ 4 - t ^ 6) = t ^ 8 / (1 + t\<^sup>2)"
      using s [of t] by (simp add: field_simps power_numeral_reduce)
    then show "0 \<le> inverse (1 + t\<^sup>2) - (1 - t ^ 2 + t ^ 4 - t ^ 6)" using s [of t] by simp
  qed
  then show "x - x ^ 3 / 3 + x ^ 5 / 5 - x ^ 7 / 7 \<le> arctan x" by simp
  have "(\<lambda>t. t - t ^ 3 / 3 + t ^ 5 / 5 - arctan t) 0 \<le> (\<lambda>t. t - t ^ 3 / 3 + t ^ 5 / 5 - arctan t) x"
  proof (rule DERIV_nonneg_imp_nondecreasing [OF assms], intro exI conjI)
    fix t :: real
    show "((\<lambda>t. t - t ^ 3 / 3 + t ^ 5 / 5 - arctan t) has_real_derivative (1 - t ^ 2 + t ^ 4) - inverse (1 + t\<^sup>2)) (at t)"
      by (auto intro!: derivative_eq_intros)
    have "(1 - t ^ 2 + t ^ 4) - inverse (1 + t\<^sup>2) = t ^ 6 / (1 + t\<^sup>2)"
      using s [of t] by (simp add: field_simps power_numeral_reduce)
    then show "0 \<le> (1 - t ^ 2 + t ^ 4) - inverse (1 + t\<^sup>2)" using s [of t] by simp
  qed
  then show "arctan x \<le> x - x ^ 3 / 3 + x ^ 5 / 5" by simp
qed

lemma pi_bounds: "314155 / 100000 < pi" "pi < 31417 / 10000"
  using machin arctan_bounds [of "1 / 5"] arctan_bounds [of "1 / 239"] by (simp_all add: field_simps)

lemma warp_real: "warp real_dspflt fc = tan (PI real_dspflt * fc / 48000)"
  by (simp add: warp_def Let_def real_dspflt_simps fs_def mult.commute)

text \<open>Up to 23999 Hz the argument of the tangent stays below a right angle, from 24001 Hz to 47999 Hz it is above.\<close>

lemma angle_range:
  assumes "0 < fc" "fc \<le> 23999"
  shows "0 < PI real_dspflt * fc / 48000" "PI real_dspflt * fc / 48000 < pi / 2"
  using assms pi_bounds by (simp_all add: PI_def real_dspflt_simps)

lemma warp_pos: "0 < fc \<Longrightarrow> fc \<le> 23999 \<Longrightarrow> 0 < warp real_dspflt fc"
  unfolding warp_real using angle_range by (intro tan_gt_zero)

lemma warp_neg: "24001 \<le> fc \<Longrightarrow> fc \<le> 47999 \<Longrightarrow> warp real_dspflt fc < 0"
proof -
  assume fc: "24001 \<le> fc" "fc \<le> 47999"
  let ?x = "PI real_dspflt * fc / 48000"
  have "pi / 2 < ?x" "?x < pi" using pi_bounds fc by (simp_all add: PI_def real_dspflt_simps)
  moreover from this have "0 < pi - ?x" "pi - ?x < pi / 2" by linarith+
  ultimately have "0 < cos (pi - ?x)" "0 < sin ?x" by (intro cos_gt_zero sin_gt_zero; linarith)+
  then show "warp real_dspflt fc < 0" unfolding warp_real tan_def by (simp add: divide_pos_neg)
qed

text \<open>
  The reference: the analogue prototype \<open>(n2 s\<^sup>2 + n1 s + n0) / (d2 s\<^sup>2 + d1 s + d0)\<close> under the bilinear
  transform \<open>s = (z - 1) / (k (z + 1))\<close>.
\<close>

definition bilinear :: "real \<Rightarrow> real \<times> real \<times> real \<Rightarrow> real \<times> real \<times> real \<Rightarrow> real list" where
  "bilinear k n d = (case n of (n2, n1, n0) \<Rightarrow> case d of (d2, d1, d0) \<Rightarrow>
     let D = d2 + d1 * k + d0 * k\<^sup>2
     in [- (d2 - d1 * k + d0 * k\<^sup>2) / D, - 2 * (d0 * k\<^sup>2 - d2) / D,
         (n2 - n1 * k + n0 * k\<^sup>2) / D, 2 * (n0 * k\<^sup>2 - n2) / D, (n2 + n1 * k + n0 * k\<^sup>2) / D])"

definition prototype :: "real \<times> real \<times> real \<Rightarrow> complex \<Rightarrow> complex" where
  "prototype n s = (case n of (n2, n1, n0) \<Rightarrow> of_real n2 * s\<^sup>2 + of_real n1 * s + of_real n0)"

lemma bilinear_list:
  "D = d2 + d1 * k + d0 * k\<^sup>2 \<Longrightarrow> bilinear k (n2, n1, n0) (d2, d1, d0) =
     [- (d2 - d1 * k + d0 * k\<^sup>2) / D, - 2 * (d0 * k\<^sup>2 - d2) / D,
      (n2 - n1 * k + n0 * k\<^sup>2) / D, 2 * (n0 * k\<^sup>2 - n2) / D, (n2 + n1 * k + n0 * k\<^sup>2) / D]"
  by (simp add: bilinear_def Let_def)

lemma scaled_quadratic:
  fixes D :: real
  assumes "D \<noteq> 0"
  shows "of_real D * (of_real (a / D) * z\<^sup>2 + of_real (b / D) * z + of_real (c / D)) =
    complex_of_real a * z\<^sup>2 + of_real b * z + of_real c"
  using assms by (simp add: distrib_left)

lemma bilinear_numer:
  assumes "D = d2 + d1 * k + d0 * k\<^sup>2" "D \<noteq> 0"
  shows "of_real D * numer (bilinear k (n2, n1, n0) (d2, d1, d0)) z =
      of_real n2 * (z - 1)\<^sup>2 + of_real n1 * of_real k * (z - 1) * (z + 1) + of_real n0 * (of_real k)\<^sup>2 * (z + 1)\<^sup>2"
  unfolding bilinear_list [OF assms(1)] numer_def
  using scaled_quadratic [OF assms(2), of "n2 + n1 * k + n0 * k\<^sup>2" z "2 * (n0 * k\<^sup>2 - n2)" "n2 - n1 * k + n0 * k\<^sup>2"]
  by (simp add: power2_eq_square algebra_simps del: of_real_divide)

lemma denom_bilinear:
  assumes "D = d2 + d1 * k + d0 * k\<^sup>2"
  shows "denom (bilinear k (n2, n1, n0) (d2, d1, d0)) z =
    z\<^sup>2 + of_real (2 * (d0 * k\<^sup>2 - d2) / D) * z + of_real ((d2 - d1 * k + d0 * k\<^sup>2) / D)"
proof -
  have m: "- x / D = - (x / D)" "- 2 * x / D = - (2 * x / D)" for x by simp_all
  show ?thesis
    unfolding bilinear_list [OF assms] denom_def m by (simp del: of_real_divide of_real_mult of_real_diff of_real_add)
qed

lemma bilinear_denom:
  assumes "D = d2 + d1 * k + d0 * k\<^sup>2" "D \<noteq> 0"
  shows "of_real D * denom (bilinear k (n2, n1, n0) (d2, d1, d0)) z =
      of_real d2 * (z - 1)\<^sup>2 + of_real d1 * of_real k * (z - 1) * (z + 1) + of_real d0 * (of_real k)\<^sup>2 * (z + 1)\<^sup>2"
  using scaled_quadratic [OF assms(2), of D z "2 * (d0 * k\<^sup>2 - d2)" "d2 - d1 * k + d0 * k\<^sup>2"] assms(2)
  unfolding denom_bilinear [OF assms(1)]
  by (simp add: power2_eq_square algebra_simps del: of_real_divide) (simp add: assms(1) power2_eq_square algebra_simps)

lemma bilinear_response:
  assumes "0 < k" "d2 + d1 * k + d0 * k\<^sup>2 \<noteq> 0"
  shows "response (bilinear k (n2, n1, n0) (d2, d1, d0)) 1 = of_real (n0 / d0)"
    and "response (bilinear k (n2, n1, n0) (d2, d1, d0)) (-1) = of_real (n2 / d2)"
    and "of_real k * s \<noteq> 1 \<Longrightarrow> response (bilinear k (n2, n1, n0) (d2, d1, d0)) ((1 + of_real k * s) / (1 - of_real k * s)) =
      prototype (n2, n1, n0) s / prototype (d2, d1, d0) s"
proof -
  obtain D where D: "D = d2 + d1 * k + d0 * k\<^sup>2" "D \<noteq> 0" using assms(2) by blast
  let ?cs = "bilinear k (n2, n1, n0) (d2, d1, d0)"
  have r: "response ?cs z = (of_real D * numer ?cs z) / (of_real D * denom ?cs z)" for z
    using D(2) by (simp add: response_def)
  note r = r [unfolded bilinear_numer [OF D] bilinear_denom [OF D]]
  show "response ?cs 1 = of_real (n0 / d0)" "response ?cs (-1) = of_real (n2 / d2)"
    unfolding r using assms(1) by (simp_all add: power2_eq_square)
  assume s: "of_real k * s \<noteq> 1"
  let ?z = "(1 + of_real k * s) / (1 - of_real k * s)"
  obtain u where u: "u = 1 / (1 - of_real k * s)" "u \<noteq> 0" using s by simp
  have "?z - 1 = 2 * of_real k * s * u" "?z + 1 = 2 * u" using s by (simp_all add: u(1) field_simps)
  then have "of_real a * (?z - 1)\<^sup>2 + of_real b * of_real k * (?z - 1) * (?z + 1) + of_real c * (of_real k)\<^sup>2 * (?z + 1)\<^sup>2 =
      (4 * (of_real k)\<^sup>2 * u\<^sup>2) * prototype (a, b, c) s" for a b c
    by (simp only:) (simp add: prototype_def power2_eq_square algebra_simps)
  moreover have "4 * (complex_of_real k)\<^sup>2 * u\<^sup>2 \<noteq> 0" using assms(1) u(2) by simp
  ultimately show "response ?cs ?z = prototype (n2, n1, n0) s / prototype (d2, d1, d0) s" unfolding r by simp
qed

text \<open>The poles of a quadratic with real coefficients inside the stability triangle.\<close>

lemma stability_triangle:
  fixes z :: complex
  assumes "z\<^sup>2 + of_real a * z + of_real b = 0" "b < 1" "0 < 1 + a + b" "0 < 1 - a + b"
  shows "cmod z < 1"
proof -
  obtain x y where z: "z = Complex x y" by (cases z)
  have re: "x\<^sup>2 - y\<^sup>2 + a * x + b = 0" and im: "2 * x * y + a * y = 0"
    using assms(1) by (auto simp: z complex_eq_iff power2_eq_square Re_power2 Im_power2)
  show ?thesis
  proof (cases "y = 0")
    case True
    with re have r: "x\<^sup>2 + a * x + b = 0" by simp
    have "\<not> 1 \<le> x"
    proof
      assume "1 \<le> x"
      with assms have "0 \<le> (x - 1) * (x + 1 + a)" by (intro mult_nonneg_nonneg) auto
      with r assms show False by (simp add: algebra_simps power2_eq_square)
    qed
    moreover have "\<not> x \<le> -1"
    proof
      assume "x \<le> -1"
      with assms have "0 \<le> (x + 1) * (x - 1 + a)" by (intro mult_nonpos_nonpos) auto
      with r assms show False by (simp add: algebra_simps power2_eq_square)
    qed
    ultimately show ?thesis using True by (simp add: z cmod_def)
  next
    case False
    have "(2 * x + a) * y = 0" using im by (simp add: algebra_simps)
    with False have "a = - 2 * x" by simp
    with re have "x\<^sup>2 + y\<^sup>2 = b" by (simp add: power2_eq_square)
    with assms(2) show ?thesis by (simp add: z cmod_def)
  qed
qed

lemma bilinear_stable:
  assumes "0 < k" "0 < d2" "0 < d1" "0 < d0"
  shows "stable (bilinear k n (d2, d1, d0))"
proof (unfold stable_def, intro allI impI)
  fix z :: complex
  obtain D where D: "D = d2 + d1 * k + d0 * k\<^sup>2" "0 < D" using assms by (simp add: add_pos_pos)
  let ?a = "2 * (d0 * k\<^sup>2 - d2) / D" and ?b = "(d2 - d1 * k + d0 * k\<^sup>2) / D"
  have "1 = D / D" using D(2) by simp
  then have "1 + ?a + ?b = (D + 2 * (d0 * k\<^sup>2 - d2) + (d2 - d1 * k + d0 * k\<^sup>2)) / D"
    "1 - ?a + ?b = (D - 2 * (d0 * k\<^sup>2 - d2) + (d2 - d1 * k + d0 * k\<^sup>2)) / D"
    by (simp_all only: add_divide_distrib diff_divide_distrib)
  then have "1 + ?a + ?b = 4 * (d0 * k\<^sup>2) / D" "1 - ?a + ?b = 4 * d2 / D" by (simp_all add: D(1))
  moreover have "0 < 4 * (d0 * k\<^sup>2) / D" "0 < 4 * d2 / D" using D(2) assms by simp_all
  moreover have "?b < 1" using D assms by (simp add: divide_less_eq)
  moreover assume "denom (bilinear k n (d2, d1, d0)) z = 0"
  then have "z\<^sup>2 + of_real ?a * z + of_real ?b = 0"
    by (cases n) (simp only: denom_bilinear [OF D(1)])
  ultimately show "cmod z < 1" by (intro stability_triangle [of z ?a ?b]) simp_all
qed

lemma quadratic_pole:
  fixes a b :: real
  assumes "1 \<le> b"
  obtains z where "z\<^sup>2 + of_real a * z + of_real b = 0" "1 \<le> cmod z"
proof -
  obtain s where s: "s\<^sup>2 = complex_of_real (a\<^sup>2 - 4 * b)" using power2_csqrt by blast
  let ?u = "(- of_real a + s) / 2" and ?v = "(- of_real a - s) / 2"
  have root: "((- of_real a + t) / 2)\<^sup>2 + of_real a * ((- of_real a + t) / 2) + of_real b = 0" if "t\<^sup>2 = complex_of_real (a\<^sup>2 - 4 * b)" for t
    using that by (simp add: power2_eq_square field_simps) algebra
  from root [of s] root [of "- s"] s have r: "?u\<^sup>2 + of_real a * ?u + of_real b = 0" "?v\<^sup>2 + of_real a * ?v + of_real b = 0" by simp_all
  have "?u * ?v = of_real b" using s by (simp add: power2_eq_square field_simps)
  then have "cmod ?u * cmod ?v = b" using assms by (metis norm_mult norm_of_real abs_of_nonneg order_trans zero_le_one)
  then have "1 \<le> cmod ?u \<or> 1 \<le> cmod ?v" using assms mult_strict_mono [of "cmod ?u" 1 "cmod ?v" 1] norm_ge_zero [of ?v] by (metis mult_1 not_le zero_less_one)
  then show ?thesis using r that by blast
qed

lemma bilinear_unstable:
  assumes "k \<le> 0" "0 \<le> d1" "0 < d2 + d1 * k + d0 * k\<^sup>2"
  shows "\<not> stable (bilinear k n (d2, d1, d0))"
proof
  obtain D where D: "D = d2 + d1 * k + d0 * k\<^sup>2" "0 < D" using assms(3) by simp
  have "d1 * k \<le> 0" using assms(1,2) by (simp add: mult_nonneg_nonpos)
  then have "1 \<le> (d2 - d1 * k + d0 * k\<^sup>2) / D" using D by (simp add: le_divide_eq)
  from quadratic_pole [OF this, of "2 * (d0 * k\<^sup>2 - d2) / D"] obtain z where z:
    "z\<^sup>2 + of_real (2 * (d0 * k\<^sup>2 - d2) / D) * z + of_real ((d2 - d1 * k + d0 * k\<^sup>2) / D) = 0" "1 \<le> cmod z" .
  have "denom (bilinear k n (d2, d1, d0)) z = 0" by (cases n) (simp only: denom_bilinear [OF D(1)] z(1))
  moreover assume "stable (bilinear k n (d2, d1, d0))"
  ultimately show False using z(2) unfolding stable_def by (meson not_le)
qed

lemma freq_point_warp:
  assumes "0 < fc" "fc \<le> 23999"
  shows "freq_point fc = (1 + of_real (warp real_dspflt fc) * \<i>) / (1 - of_real (warp real_dspflt fc) * \<i>)"
    and "of_real (warp real_dspflt fc) * \<i> \<noteq> 1"
proof -
  let ?t = "PI real_dspflt * fc / 48000"
  have c: "cos ?t \<noteq> 0" using angle_range [OF assms] cos_gt_zero [of ?t] by simp
  then have e: "cis ?t = of_real (cos ?t) * (1 + of_real (tan ?t) * \<i>)" "cis (- ?t) = of_real (cos ?t) * (1 - of_real (tan ?t) * \<i>)"
    by (simp_all add: complex_eq_iff tan_def)
  have "2 * PI real_dspflt * fc / 48000 = ?t - (- ?t)" by simp
  then have "freq_point fc = cis ?t / cis (- ?t)" by (simp only: freq_point_def cis_divide)
  then show "freq_point fc = (1 + of_real (warp real_dspflt fc) * \<i>) / (1 - of_real (warp real_dspflt fc) * \<i>)"
    unfolding e warp_real using c by simp
  show "of_real (warp real_dspflt fc) * \<i> \<noteq> 1" by (simp add: complex_eq_iff)
qed

text \<open>The gain in decibel as a factor.\<close>

definition db_gain :: "real \<Rightarrow> real" where
  "db_gain g = 10 powr (g / 20)"

lemma db_gain_pos [simp]: "0 < db_gain g" "db_gain g \<noteq> 0"
  by (simp_all add: db_gain_def)

lemma db_gain_minus: "db_gain (- g) = 1 / db_gain g"
  by (simp add: db_gain_def powr_minus_divide)

lemma one_plus_pos: "0 < (a::real) \<Longrightarrow> 0 < b \<Longrightarrow> 1 + a + b \<noteq> 0"
  by auto

text \<open>Each design function is the bilinear transform of its prototype.\<close>

lemma Peak_bilinear:
  "set_EQ_Peak real_dspflt fc g q = (if 0 < g then bilinear (warp real_dspflt fc) (1, db_gain g / q, 1) (1, 1 / q, 1)
     else bilinear (warp real_dspflt fc) (1, 1 / q, 1) (1, db_gain (- g) / q, 1))"
  by (simp add: set_EQ_Peak_def Let_def bilinear_def real_dspflt_simps db_gain_def power2_eq_square algebra_simps)

lemma Low_Shelf_bilinear:
  "set_EQ_Low_Shelf real_dspflt fc g q =
     (if 0 < g then bilinear (warp real_dspflt fc) (1, sqrt (db_gain g) / q, db_gain g) (1, 1 / q, 1)
      else bilinear (warp real_dspflt fc) (1, 1 / q, 1) (1, sqrt (db_gain (- g)) / q, db_gain (- g)))"
  by (simp add: set_EQ_Low_Shelf_def Let_def bilinear_def real_dspflt_simps db_gain_def power2_eq_square algebra_simps)

lemma High_Shelf_bilinear:
  "set_EQ_High_Shelf real_dspflt fc g q =
     (if 0 < g then bilinear (warp real_dspflt fc) (db_gain g, sqrt (db_gain g) / q, 1) (1, 1 / q, 1)
      else bilinear (warp real_dspflt fc) (1, 1 / q, 1) (db_gain (- g), sqrt (db_gain (- g)) / q, 1))"
proof (cases "0 < g")
  case True
  then show ?thesis
    by (simp add: set_EQ_High_Shelf_def Let_def bilinear_def real_dspflt_simps db_gain_def power2_eq_square algebra_simps)
next
  case False
  let ?k = "warp real_dspflt fc" and ?V = "db_gain (- g)" and ?i = "1 / q"
  have "1 / sqrt ?V = sqrt ?V / ?V" by (simp add: sqrt_divide_self_eq inverse_eq_divide less_imp_le)
  then have r: "1 + (1 / sqrt ?V * ?i + ?k / ?V) * ?k = (?V + sqrt ?V * ?i * ?k + ?k\<^sup>2) / ?V"
    "1 + (- 1 / sqrt ?V * ?i + ?k / ?V) * ?k = (?V - sqrt ?V * ?i * ?k + ?k\<^sup>2) / ?V"
    "?k * ?k / ?V - 1 = (?k\<^sup>2 - ?V) / ?V"
    by (simp_all add: power2_eq_square add_divide_distrib diff_divide_distrib algebra_simps)
  have c: "- (x / ?V) / (y / ?V) = - x / y" "- 2 * (x / ?V) / (y / ?V) = - 2 * x / y" for x y by simp_all
  have "set_EQ_High_Shelf real_dspflt fc g q =
      [- (1 + (- 1 / sqrt ?V * ?i + ?k / ?V) * ?k) / (1 + (1 / sqrt ?V * ?i + ?k / ?V) * ?k),
       - 2 * (?k * ?k / ?V - 1) / (1 + (1 / sqrt ?V * ?i + ?k / ?V) * ?k),
       (1 + (- ?i + ?k) * ?k) / (?V + (sqrt ?V * ?i + ?k) * ?k), 2 * (?k * ?k - 1) / (?V + (sqrt ?V * ?i + ?k) * ?k),
       (1 + (?i + ?k) * ?k) / (?V + (sqrt ?V * ?i + ?k) * ?k)]"
    using False by (simp add: set_EQ_High_Shelf_def Let_def real_dspflt_simps db_gain_def mult.commute)
  also have "\<dots> = bilinear ?k (1, ?i, 1) (?V, sqrt ?V * ?i, 1)"
    unfolding r c bilinear_list [OF refl] by (simp add: power2_eq_square algebra_simps)
  finally show ?thesis using False by simp
qed

lemma HPF_bilinear:
  "set_EQ_HPF real_dspflt fc = bilinear (warp real_dspflt fc) (1, 0, 0) (1, inverseq_HPF real_dspflt, 1)"
  "set_EQ_HPF_dl real_dspflt fc = bilinear (warp real_dspflt fc) (1, 0, 0) (1, inverseq_HPF real_dspflt, 1)"
  "set_EQ_LPF real_dspflt fc = bilinear (warp real_dspflt fc) (0, 0, 1) (1, inverseq_HPF real_dspflt, 1)"
  by (simp_all add: set_EQ_HPF_def set_EQ_HPF_dl_def set_EQ_LPF_def Let_def bilinear_def real_dspflt_simps
      power2_eq_square add_divide_distrib diff_divide_distrib algebra_simps)

lemma prototype_i: "prototype (a, b, c) \<i> = of_real (c - a) + of_real b * \<i>"
  by (simp add: prototype_def)

lemma inverseq_pos: "0 < inverseq_HPF real_dspflt"
  by (simp add: inverseq_HPF_def real_dspflt_simps)

lemma crossover_unstable:
  assumes "fc = 0 \<or> 24001 \<le> fc \<and> fc \<le> 47999"
  shows "\<not> stable (set_EQ_LPF real_dspflt fc)" "\<not> stable (set_EQ_HPF real_dspflt fc)" "\<not> stable (set_EQ_HPF_dl real_dspflt fc)"
proof -
  let ?k = "warp real_dspflt fc" and ?i = "inverseq_HPF real_dspflt"
  have k: "?k \<le> 0" using assms warp_neg [of fc] by (auto simp: warp_real)
  have i: "0 < ?i" "?i < 2" by (simp_all add: inverseq_HPF_def real_dspflt_simps)
  have "0 \<le> (1 + ?k)\<^sup>2" by simp
  then have "0 \<le> 1 + 2 * ?k + ?k\<^sup>2" by (simp add: power2_eq_square algebra_simps)
  moreover have "2 * ?k < ?i * ?k \<or> ?k = 0" using k i by (auto simp: mult_less_cancel_right)
  ultimately have "0 < 1 + ?i * ?k + 1 * ?k\<^sup>2" by auto
  from bilinear_unstable [OF k _ this] i
  show "\<not> stable (set_EQ_LPF real_dspflt fc)" "\<not> stable (set_EQ_HPF real_dspflt fc)" "\<not> stable (set_EQ_HPF_dl real_dspflt fc)"
    by (simp_all add: HPF_bilinear)
qed

lemma bilinear_center:
  assumes "0 < fc" "fc \<le> 23999" "0 < d2" "0 < d1" "0 < d0"
  shows "response (bilinear (warp real_dspflt fc) (n2, n1, n0) (d2, d1, d0)) (freq_point fc) =
      (of_real (n0 - n2) + of_real n1 * \<i>) / (of_real (d0 - d2) + of_real d1 * \<i>)"
    and "response (bilinear (warp real_dspflt fc) (n2, n1, n0) (d2, d1, d0)) 1 = of_real (n0 / d0)"
    and "response (bilinear (warp real_dspflt fc) (n2, n1, n0) (d2, d1, d0)) (-1) = of_real (n2 / d2)"
proof -
  let ?k = "warp real_dspflt fc"
  have k: "0 < ?k" using assms by (intro warp_pos)
  then have D: "d2 + d1 * ?k + d0 * ?k\<^sup>2 \<noteq> 0"
    using assms by (intro less_imp_neq [symmetric] add_pos_pos mult_pos_pos) auto
  note b = bilinear_response [OF k D]
  show "response (bilinear ?k (n2, n1, n0) (d2, d1, d0)) 1 = of_real (n0 / d0)"
    "response (bilinear ?k (n2, n1, n0) (d2, d1, d0)) (-1) = of_real (n2 / d2)" by (rule b)+
  show "response (bilinear ?k (n2, n1, n0) (d2, d1, d0)) (freq_point fc) =
      (of_real (n0 - n2) + of_real n1 * \<i>) / (of_real (d0 - d2) + of_real d1 * \<i>)"
    unfolding freq_point_warp(1) [OF assms(1,2)] b(3) [OF freq_point_warp(2) [OF assms(1,2)]] prototype_i ..
qed

text \<open>
  C32: the bands of the equalizer. The gain of a peak section is 0 dB at both ends of the spectrum and exactly
  the gain that was set at the centre frequency; the low shelf has the gain that was set at frequency 0 and
  0 dB at half the sampling rate, the high shelf the other way round. This holds for boost and cut, for centre frequencies up
  to 23999 Hz and with exact arithmetic.
\<close>

theorem eq_band_gains:
  assumes "0 < fc" "fc \<le> 23999" "0 < q"
  shows "response (set_EQ_Peak real_dspflt fc g q) (freq_point fc) = of_real (db_gain g) \<and>
    response (set_EQ_Peak real_dspflt fc g q) 1 = 1 \<and> response (set_EQ_Peak real_dspflt fc g q) (-1) = 1 \<and>
    response (set_EQ_Low_Shelf real_dspflt fc g q) 1 = of_real (db_gain g) \<and>
    response (set_EQ_Low_Shelf real_dspflt fc g q) (-1) = 1 \<and>
    response (set_EQ_High_Shelf real_dspflt fc g q) 1 = 1 \<and>
    response (set_EQ_High_Shelf real_dspflt fc g q) (-1) = of_real (db_gain g)"
proof -
  have "0 < 1 / q" "0 < db_gain (- g) / q" "0 < sqrt (db_gain (- g)) / q" using assms(3) by simp_all
  then show ?thesis
    using assms(3)
    by (simp add: Peak_bilinear Low_Shelf_bilinear High_Shelf_bilinear bilinear_center [OF assms(1,2)] db_gain_minus)
      (simp add: complex_eq_iff)
qed

theorem eq_band_gains_witness:
  "response (set_EQ_Peak real_dspflt 1000 6 (4318473 / 1000000)) (freq_point 1000) = of_real (10 powr (6 / 20))"
  using eq_band_gains [of 1000 "4318473 / 1000000" 6] by (simp add: db_gain_def)

text \<open>
  C33: the crossover filters. The low pass has gain 1 at frequency 0 and 0 at half the sampling rate, the high
  pass the other way round. At the crossover frequency the two have the same amplitude, the reciprocal
  of \<open>inverseq_HPF\<close> (3 dB below 1), and opposite phase, so that the sum of the two bands has a zero there. The
  frequency is at most 23999 Hz.
\<close>

theorem crossover_response:
  assumes "0 < fc" "fc \<le> 23999"
  shows "response (set_EQ_LPF real_dspflt fc) 1 = 1 \<and> response (set_EQ_LPF real_dspflt fc) (-1) = 0 \<and>
    response (set_EQ_HPF real_dspflt fc) 1 = 0 \<and> response (set_EQ_HPF real_dspflt fc) (-1) = 1 \<and>
    cmod (response (set_EQ_LPF real_dspflt fc) (freq_point fc)) = 1 / inverseq_HPF real_dspflt \<and>
    response (set_EQ_HPF real_dspflt fc) (freq_point fc) + response (set_EQ_LPF real_dspflt fc) (freq_point fc) = 0 \<and>
    set_EQ_HPF_dl real_dspflt fc = set_EQ_HPF real_dspflt fc"
  using inverseq_pos
  by (simp add: HPF_bilinear bilinear_center [OF assms] norm_divide norm_mult)

theorem crossover_response_witness:
  "response (set_EQ_HPF real_dspflt 300) (freq_point 300) + response (set_EQ_LPF real_dspflt 300) (freq_point 300) = 0"
  using crossover_response [of 300] by simp

text \<open>
  C34: stability. For every cut-off or centre frequency above 0 and up to 23999 Hz, every gain and every positive quality factor, all poles of all sections lie inside
  the unit circle. The command that sets a crossover frequency stores any 16 bit value and the filters are designed from it unchecked: at 0 Hz and from 24001 Hz to
  47999 Hz each of the crossover filters has a pole on or outside the unit circle.
\<close>

theorem filters_stable:
  "(0 < fc \<and> fc \<le> 23999 \<and> 0 < q \<longrightarrow>
      stable (set_EQ_Peak real_dspflt fc g q) \<and> stable (set_EQ_Low_Shelf real_dspflt fc g q) \<and>
      stable (set_EQ_High_Shelf real_dspflt fc g q) \<and> stable (set_EQ_LPF real_dspflt fc) \<and>
      stable (set_EQ_HPF real_dspflt fc) \<and> stable (set_EQ_HPF_dl real_dspflt fc)) \<and>
   (fc = 0 \<or> 24001 \<le> fc \<and> fc \<le> 47999 \<longrightarrow>
      \<not> stable (set_EQ_LPF real_dspflt fc) \<and> \<not> stable (set_EQ_HPF real_dspflt fc) \<and> \<not> stable (set_EQ_HPF_dl real_dspflt fc))"
proof -
  have "0 < 1 / q" "0 < db_gain (- g) / q" "0 < sqrt (db_gain (- g)) / q" if "0 < q" using that by simp_all
  then show ?thesis
    using inverseq_pos warp_pos [of fc] crossover_unstable [of fc]
    by (simp add: Peak_bilinear Low_Shelf_bilinear High_Shelf_bilinear HPF_bilinear bilinear_stable)
qed

theorem filters_stable_witness:
  "stable (set_EQ_High_Shelf real_dspflt 23000 (-12) (1414 / 1000)) \<and> stable (set_EQ_LPF real_dspflt 23000) \<and>
   \<not> stable (set_EQ_LPF real_dspflt 30000)"
  using filters_stable [of 23000 "1414 / 1000" "-12"] filters_stable [of 30000 1 0] by simp

end
