(* ===== verification/Dsp_Safety.thy ===== *)
theory Dsp_Safety
  imports Dsp_Params
begin

text \<open>
  The parameter state of the DSP stays well formed: for which commands the handlers of
  \<open>Spi_Code.c\<close> stay inside their arrays, and that every command that does keeps the invariant
  \<open>dsp_ok\<close>. The proofs compute weakest preconditions of the fault monad (\<open>sumP\<close>).
\<close>

section \<open>Weakest preconditions\<close>

definition sumP :: "('a \<Rightarrow> bool) \<Rightarrow> 'e + 'a \<Rightarrow> bool" where
  "sumP P m = (case m of Inl e \<Rightarrow> False | Inr x \<Rightarrow> P x)"

named_theorems wp "weakest precondition rules of the fault monad"

lemma sumP_Inr [wp, simp]: "sumP P (Inr x) = P x"
  by (simp add: sumP_def)

lemma sumP_Inl [wp, simp]: "\<not> sumP P (Inl e)"
  by (simp add: sumP_def)

lemma sumP_bind [wp]: "sumP P (bindE m k) = sumP (\<lambda>x. sumP P (k x)) m"
  by (cases m) simp_all

lemma sumP_if [wp]: "sumP P (if b then m else n) = (if b then sumP P m else sumP P n)"
  by simp

lemma sumP_put_at [wp]: "sumP P (put_at nm xs i v) \<longleftrightarrow> unat i < length xs \<and> P (xs[unat i := v])"
  by (simp add: put_at_def)

lemma sumP_get_at [wp]: "sumP P (get_at nm xs i) \<longleftrightarrow> unat i < length xs \<and> P (xs ! unat i)"
  by (simp add: get_at_def)

lemma sumP_put_at2:
  "\<lbrakk>matrix_ok m n xss; unat i < m; unat j < n\<rbrakk> \<Longrightarrow>
     sumP P (put_at2 nm xss i j v) = P (xss[unat i := (xss ! unat i)[unat j := v]])"
  by (simp add: put_at2_ok)

lemma sumP_get_at2:
  "\<lbrakk>matrix_ok m n xss; unat i < m; unat j < n\<rbrakk> \<Longrightarrow> sumP P (get_at2 nm xss i j) = P (xss ! unat i ! unat j)"
  by (simp add: get_at2_ok)

lemma sumP_mono: "sumP P m \<Longrightarrow> (\<And>x. P x \<Longrightarrow> Q x) \<Longrightarrow> sumP Q m"
  by (cases m) simp_all

lemma sumP_ex: "sumP P m \<longleftrightarrow> (\<exists>x. m = Inr x \<and> P x)"
  by (cases m) simp_all

section \<open>Numbers\<close>

lemma unat_pred: "p \<noteq> 0 \<Longrightarrow> unat (p - 1) = unat p - 1" for p :: u32
  by (simp add: unat_minus_one)

lemma pred_less:
  fixes p :: u32
  assumes "p \<noteq> 0" "\<not> n < p" "unat n \<le> m"
  shows "unat (p - 1) < m"
proof -
  have "0 < unat p" using assms(1) by (simp add: unat_gt_0)
  moreover have "unat p \<le> unat n" using assms(2) by (simp add: word_le_nat_alt not_less)
  ultimately show ?thesis using assms(3) by (simp add: unat_pred [OF assms(1)])
qed

lemma para_bounds:
  "unat (getinstructiongroup w) < 16" "unat (getinstructionindexingroup w) < 32"
  "unat (getpara1_unsignedint w) < 32" "unat (getpara2_unsignedint w) < 256"
  "unat (getpara3_unsignedint w) < 256"
  using dsp_decode_in_range [of w] by (simp_all add: dsp_in_range_def dsp_decode_def)

section \<open>Lifting of the invariant\<close>

lemma upd_sel [simp]:
  "gen (upd_gen h s) = h (gen s)" "aux (upd_gen h s) = aux s"
  "gen (upd_aux k s) = gen s" "aux (upd_aux k s) = k (aux s)"
  "upd_gen h (upd_gen h' s) = upd_gen (\<lambda>g. h (h' g)) s"
  by (simp_all add: upd_gen_def upd_aux_def)

lemma upd_gen_ok: "\<lbrakk>dsp_ok s; gen_ok (h (gen s))\<rbrakk> \<Longrightarrow> dsp_ok (upd_gen h s)"
  by (simp add: dsp_ok_def upd_gen_def)

lemma upd_aux_ok: "\<lbrakk>dsp_ok s; aux_ok (h (aux s))\<rbrakk> \<Longrightarrow> dsp_ok (upd_aux h s)"
  by (simp add: dsp_ok_def upd_aux_def)

lemma dsp_ok_parts:
  assumes "dsp_ok s"
  shows "gen_ok (gen s)" "aux_ok (aux s)" "eq_ok (eq s)" "length (inputparam s) = 8"
    "length (outputparam s) = 5" "unat (OutputYtype s) < 5" "unat (DSP23_OutputYtype s) < 5"
    "unat (InputXtype (gen s)) < 8" "length (Delaytime_samplenums s) = 16"
    "i < 5 \<Longrightarrow> out_ok (outputparam s ! i)"
  using assms by (auto simp: dsp_ok_def gen_ok_def word_less_nat_alt word_le_nat_alt c_consts)

lemma upd_output_wp:
  assumes "dsp_ok s" "\<And>q. out_ok q \<Longrightarrow> sumP out_ok (h q)"
  shows "sumP (\<lambda>s'. dsp_ok s' \<and> (\<exists>qs. s' = s\<lparr>outputparam := qs\<rparr>)) (upd_output h s)"
proof -
  note d = dsp_ok_parts [OF assms(1)]
  let ?i = "unat (OutputYtype s)"
  obtain q where q: "h (outputparam s ! ?i) = Inr q" "out_ok q"
    using assms(2) [OF d(10) [OF d(6)]] by (auto simp: sumP_ex)
  have "set ((outputparam s)[?i := q]) \<subseteq> insert q (set (outputparam s))"
    by (rule set_update_subset_insert)
  then have "dsp_ok (s\<lparr>outputparam := (outputparam s)[?i := q]\<rparr>)"
    using assms(1) q(2) by (auto simp: dsp_ok_def)
  then show ?thesis using d(5,6) q(1) by (auto simp: upd_output_def wp)
qed

lemma upd_output_ok:
  "\<lbrakk>dsp_ok s; \<And>q. out_ok q \<Longrightarrow> sumP out_ok (h q)\<rbrakk> \<Longrightarrow> sumP dsp_ok (upd_output h s)"
  by (rule sumP_mono [OF upd_output_wp]) auto

lemma upd_input_ok: "\<lbrakk>dsp_ok s; unat i < 8\<rbrakk> \<Longrightarrow> sumP dsp_ok (upd_input i h s)"
  using dsp_ok_parts(4) [of s] by (auto simp: upd_input_def wp dsp_ok_def)

text \<open>\<open>safe_handler h pre\<close>: on commands with \<open>pre\<close> the handler returns and keeps the invariant.\<close>

definition safe_handler :: "'f handler \<Rightarrow> (u32 \<Rightarrow> bool) \<Rightarrow> bool" where
  "safe_handler h pre \<longleftrightarrow> (\<forall>F w s. dsp_ok s \<longrightarrow> pre w \<longrightarrow> sumP (\<lambda>(r, s'). dsp_ok s') (h F w s))"

lemma safe_handlerI:
  "(\<And>F w s. dsp_ok s \<Longrightarrow> pre w \<Longrightarrow> sumP (\<lambda>(r, s'). dsp_ok s') (h F w s)) \<Longrightarrow> safe_handler h pre"
  by (simp add: safe_handler_def)

section \<open>The handlers\<close>

lemmas gen_handlers = instructiondecoder_SoundFieldX_Set_def instructiondecoder_SoundFieldY_Set_def
  instructiondecoder_SoundFieldZ_Set_def instructiondecoder_SpeakerNumber_Set_def
  instructiondecoder_KnobVolume_Set_def instructiondecoder_InputXtype_Set_def
  instructiondecoder_FadeInTime_Set_def instructiondecoder_FadeOutTime_Set_def
  instructiondecoder_SurroundType_Set_def instructiondecoder_MonitorOutState_Set_def
  instructiondecoder_Mute_Set_def

lemma gen_handlers_safe:
  "safe_handler instructiondecoder_SoundFieldX_Set (\<lambda>w. True)"
  "safe_handler instructiondecoder_SoundFieldY_Set (\<lambda>w. True)"
  "safe_handler instructiondecoder_SoundFieldZ_Set (\<lambda>w. True)"
  "safe_handler instructiondecoder_SpeakerNumber_Set (\<lambda>w. True)"
  "safe_handler instructiondecoder_KnobVolume_Set (\<lambda>w. True)"
  "safe_handler instructiondecoder_InputXtype_Set (\<lambda>w. True)"
  "safe_handler instructiondecoder_FadeInTime_Set (\<lambda>w. True)"
  "safe_handler instructiondecoder_FadeOutTime_Set (\<lambda>w. True)"
  "safe_handler instructiondecoder_SurroundType_Set (\<lambda>w. True)"
  "safe_handler instructiondecoder_MonitorOutState_Set (\<lambda>w. True)"
  "safe_handler instructiondecoder_Mute_Set (\<lambda>w. True)"
  by (rule safe_handlerI, frule dsp_ok_parts(1), frule dsp_ok_parts(4), frule dsp_ok_parts(8),
      auto simp: gen_handlers wp not_less Let_def gen_ok_def intro!: upd_gen_ok)+

lemma speaker_handlers_safe:
  "safe_handler instructiondecoder_SpeakerX_Set (\<lambda>w. getpara1_unsignedint w \<noteq> 0)"
  "safe_handler instructiondecoder_SpeakerY_Set (\<lambda>w. getpara1_unsignedint w \<noteq> 0)"
  "safe_handler instructiondecoder_SpeakerZ_Set (\<lambda>w. getpara1_unsignedint w \<noteq> 0)"
  unfolding instructiondecoder_SpeakerX_Set_def instructiondecoder_SpeakerY_Set_def
    instructiondecoder_SpeakerZ_Set_def
  by (rule safe_handlerI, frule dsp_ok_parts(1),
      auto simp: wp gen_ok_def pred_less intro!: upd_gen_ok)+

lemma OutPinAssign_safe: "safe_handler instructiondecoder_OutPinAssign_Set (\<lambda>w. True)"
proof (rule safe_handlerI)
  fix F w and s :: "'a dsp"
  assume s: "dsp_ok s"
  then have g: "gen_ok (gen s)" by (rule dsp_ok_parts)
  then have m: "matrix_ok 24 24 (Matrix_ChtoOutch (gen s))" by (simp add: gen_ok_def)
  show "sumP (\<lambda>(r, s'). dsp_ok s') (instructiondecoder_OutPinAssign_Set F w s)"
    using s g by (auto simp: instructiondecoder_OutPinAssign_Set_def wp sumP_put_at2 [OF m] pred_less
        gen_ok_def put_at2_matrix [OF m] intro!: upd_gen_ok)
qed

text \<open>Inputs: group 0 is dispatched to these handlers too, and its index is \<open>-1\<close>.\<close>

definition input_group :: "u32 \<Rightarrow> bool" where
  "input_group w \<longleftrightarrow> 1 \<le> getinstructiongroup w \<and> getinstructiongroup w \<le> 8"

lemma input_group_index: "input_group w \<Longrightarrow> unat (getinstructiongroup w - 1) < 8"
  by (rule pred_less [where n = 8]) (auto simp: input_group_def)

lemma bind_return_ok: "sumP dsp_ok m \<Longrightarrow> sumP (\<lambda>(r, s'). dsp_ok s') (bindE m (\<lambda>s. Inr (c, s)))"
  by (simp add: wp)

lemma input_handlers_safe:
  "safe_handler instructiondecoder_Input_SamplingRate_Set input_group"
  "safe_handler instructiondecoder_Input_Decoder_Set input_group"
  "safe_handler instructiondecoder_Input_ChannelNumber_Set input_group"
  "safe_handler instructiondecoder_Input_PlaybackSF_Set (\<lambda>w. True)"
  unfolding instructiondecoder_Input_SamplingRate_Set_def instructiondecoder_Input_Decoder_Set_def
    instructiondecoder_Input_ChannelNumber_Set_def instructiondecoder_Input_PlaybackSF_Set_def Let_def
  by (rule safe_handlerI, auto intro!: bind_return_ok upd_input_ok input_group_index)+

lemma idle_handlers_safe:
  "safe_handler instructiondecoder_Input_PinAssign_Set (\<lambda>w. True)"
  "safe_handler instructiondecoder_Input_TimeDelay_Set (\<lambda>w. True)"
  "safe_handler instructiondecoder_Output_FreqDivision_Set (\<lambda>w. True)"
  "safe_handler instructiondecoder_SPLreferencevalue_Set (\<lambda>w. True)"
  "safe_handler instructiondecoder_SPLalignmentvalue_Set (\<lambda>w. True)"
  "safe_handler instructiondecoder_CutLevel_Set (\<lambda>w. True)"
  "safe_handler instructiondecoder_MicinBandeng_Set (\<lambda>w. True)"
  "safe_handler instructiondecoder_InputVolume_Set (\<lambda>w. True)"
  by (simp_all add: safe_handler_def instructiondecoder_Input_PinAssign_Set_def
      instructiondecoder_Input_TimeDelay_Set_def instructiondecoder_Output_FreqDivision_Set_def
      instructiondecoder_SPLreferencevalue_Set_def instructiondecoder_SPLalignmentvalue_Set_def
      instructiondecoder_CutLevel_Set_def instructiondecoder_MicinBandeng_Set_def
      instructiondecoder_InputVolume_Set_def)

lemma aux_handlers_safe:
  "safe_handler instructiondecoder_PL_Alignment_Enable_Set (\<lambda>w. True)"
  "safe_handler instructiondecoder_CenterSignal_Enable_Set (\<lambda>w. True)"
  "safe_handler instructiondecoder_Invert_Enable_Set (\<lambda>w. True)"
  "safe_handler instructiondecoder_PLfilter_Set (\<lambda>w. True)"
  "safe_handler instructiondecoder_AlignmentChannel_Set (\<lambda>w. True)"
  "safe_handler instructiondecoder_SignalModeVal_Set (\<lambda>w. True)"
  "safe_handler instructiondecoder_OutputVolume_Set (\<lambda>w. True)"
  "safe_handler instructiondecoder_DJsourceXY_Set (\<lambda>w. True)"
  "safe_handler instructiondecoder_DJsourceZ_Set (\<lambda>w. True)"
  "safe_handler instructiondecoder_DJgain_Set (\<lambda>w. True)"
  unfolding instructiondecoder_PL_Alignment_Enable_Set_def instructiondecoder_CenterSignal_Enable_Set_def
    instructiondecoder_Invert_Enable_Set_def instructiondecoder_PLfilter_Set_def
    instructiondecoder_AlignmentChannel_Set_def instructiondecoder_SignalModeVal_Set_def
    instructiondecoder_OutputVolume_Set_def instructiondecoder_DJsourceXY_Set_def
    instructiondecoder_DJsourceZ_Set_def instructiondecoder_DJgain_Set_def
  by (rule safe_handlerI, frule dsp_ok_parts(2),
      auto simp: wp aux_ok_def pred_less not_less intro!: upd_aux_ok)+

lemma SystemState_safe: "safe_handler instructiondecoder_SystemState_Set (\<lambda>w. True)"
proof (rule safe_handlerI)
  fix F w and s :: "'a dsp"
  assume s: "dsp_ok s"
  let ?s = "upd_aux (\<lambda>x. x\<lparr>SystemState := getpara1_unsignedint w\<rparr>) s"
  have "dsp_ok ?s" if "getpara1_unsignedint w \<le> 3"
    using that dsp_ok_parts(2) [OF s] by (intro upd_aux_ok [OF s]) (simp add: aux_ok_def)
  then show "sumP (\<lambda>(r, s'). dsp_ok s') (instructiondecoder_SystemState_Set F w s)"
    using s dsp_ok_parts(1) [OF s]
    by (auto simp: instructiondecoder_SystemState_Set_def Let_def not_less gen_ok_def intro!: upd_gen_ok)
qed

section \<open>Output channels\<close>

lemma chan_less:
  "\<lbrakk>p \<noteq> 0; p \<le> n; unat n \<le> m\<rbrakk> \<Longrightarrow> unat (p - 1) < m" for p n :: u32
  by (rule pred_less) auto

lemma out_handlers_safe:
  "safe_handler instructiondecoder_Output_ChannelGain_Set (\<lambda>w. True)"
  "safe_handler instructiondecoder_Output_HighCutSlope_Set (\<lambda>w. getpara1_unsignedint w \<noteq> 0)"
  "safe_handler instructiondecoder_Output_LowCutSlope_Set (\<lambda>w. getpara1_unsignedint w \<noteq> 0)"
  unfolding instructiondecoder_Output_ChannelGain_Set_def Let_def
    instructiondecoder_Output_HighCutSlope_Set_def instructiondecoder_Output_LowCutSlope_Set_def
  by (rule safe_handlerI,
      auto simp: wp out_ok_def pred_less not_less intro!: bind_return_ok upd_output_ok chan_less)+

lemma TimeDelay_safe:
  "safe_handler instructiondecoder_Output_TimeDelay_Set
     (\<lambda>w. getpara1_unsignedint w \<noteq> 0 \<and> getpara1_unsignedint w \<le> 16)"
proof (rule safe_handlerI)
  fix F w and s :: "'a dsp"
  assume s: "dsp_ok s" and c: "getpara1_unsignedint w \<noteq> 0 \<and> getpara1_unsignedint w \<le> 16"
  let ?i = "getpara1_unsignedint w - 1"
  have i: "unat ?i < 16" using c by (intro chan_less) auto
  have step: "sumP (\<lambda>s'. dsp_ok s' \<and> (\<exists>qs. s' = s\<lparr>outputparam := qs\<rparr>))
      (upd_output (\<lambda>q. bindE (put_at ''Delay'' (OutDelay q) ?i d) (\<lambda>ds. Inr (q\<lparr>OutDelay := ds\<rparr>))) s)" for d
    using i by (intro upd_output_wp [OF s]) (auto simp: wp out_ok_def)
  have fin: "dsp_ok (s\<lparr>outputparam := qs\<rparr>) \<Longrightarrow>
      dsp_ok (s\<lparr>outputparam := qs, Delaytime_samplenums := (Delaytime_samplenums s)[j := v]\<rparr>)" for qs j v
    by (simp add: dsp_ok_def)
  show "sumP (\<lambda>(r, s'). dsp_ok s') (instructiondecoder_Output_TimeDelay_Set F w s)"
    unfolding instructiondecoder_Output_TimeDelay_Set_def Let_def sumP_if sumP_bind
    using s i by (auto intro!: sumP_mono [OF step] simp: wp dsp_ok_parts fin)
qed

lemma filter_call_ok:
  "dsp_ok s \<Longrightarrow> dsp_ok (s\<lparr>eq := (eq s)\<lparr>filter_calls := c\<rparr>\<rparr>)"
  by (simp add: dsp_ok_def eq_ok_def)

lemma SPI_set_EQ_filter_ok:
  assumes "dsp_ok s" "unat i < 24"
  shows "sumP dsp_ok (SPI_set_EQ_LPfilter i s)" "sumP dsp_ok (SPI_set_EQ_HPfilter i s)"
proof -
  note d = dsp_ok_parts [OF assms(1)]
  have "out_ok (outputparam s ! unat (OutputYtype s))" using d(6,10) by simp
  then show "sumP dsp_ok (SPI_set_EQ_LPfilter i s)" "sumP dsp_ok (SPI_set_EQ_HPfilter i s)"
    using assms d by (simp_all add: SPI_set_EQ_LPfilter_def SPI_set_EQ_HPfilter_def wp c_consts out_ok_def filter_call_ok)
qed

lemma CutFreq_step:
  fixes s :: "'f dsp"
  assumes s: "dsp_ok s" and c: "getpara1_unsignedint w \<noteq> 0 \<and> getpara1_unsignedint w \<le> 24"
  shows "sumP (\<lambda>(r, s'). dsp_ok s') (instructiondecoder_Output_HighCutFreq_Set F w s)"
    "sumP (\<lambda>(r, s'). dsp_ok s') (instructiondecoder_Output_LowCutFreq_Set F w s)"
proof -
  let ?i = "getpara1_unsignedint w - 1"
  have i: "unat ?i < 24" using c by (intro chan_less) auto
  have q: "out_ok (outputparam s ! unat (OutputYtype s))" using dsp_ok_parts [OF s] by simp
  have hi: "sumP dsp_ok (upd_output (\<lambda>q. bindE (put_at ''HighCutFreq'' (HighCutFreq q) ?i v)
      (\<lambda>xs. Inr (q\<lparr>HighCutFreq := xs\<rparr>))) s)" for v
    using i by (intro upd_output_ok [OF s]) (auto simp: wp out_ok_def)
  have lo: "sumP dsp_ok (upd_output (\<lambda>q. bindE (put_at ''LowCutFreq'' (LowCutFreq q) ?i v)
      (\<lambda>xs. Inr (q\<lparr>LowCutFreq := xs\<rparr>))) s)" for v
    using i by (intro upd_output_ok [OF s]) (auto simp: wp out_ok_def)
  note rules = sumP_mono [OF hi] sumP_mono [OF lo] sumP_mono [OF SPI_set_EQ_filter_ok(1)]
    sumP_mono [OF SPI_set_EQ_filter_ok(2)]
  show "sumP (\<lambda>(r, s'). dsp_ok s') (instructiondecoder_Output_HighCutFreq_Set F w s)"
    unfolding instructiondecoder_Output_HighCutFreq_Set_def Let_def sumP_if sumP_bind
    using s q i dsp_ok_parts [OF s] by (auto intro!: rules simp: wp out_ok_def)
  show "sumP (\<lambda>(r, s'). dsp_ok s') (instructiondecoder_Output_LowCutFreq_Set F w s)"
    unfolding instructiondecoder_Output_LowCutFreq_Set_def Let_def sumP_if sumP_bind
    using s q i dsp_ok_parts [OF s] by (auto intro!: rules simp: wp out_ok_def)
qed

lemma CutFreq_safe:
  "safe_handler instructiondecoder_Output_HighCutFreq_Set
     (\<lambda>w. getpara1_unsignedint w \<noteq> 0 \<and> getpara1_unsignedint w \<le> 24)"
  "safe_handler instructiondecoder_Output_LowCutFreq_Set
     (\<lambda>w. getpara1_unsignedint w \<noteq> 0 \<and> getpara1_unsignedint w \<le> 24)"
  by (rule safe_handlerI, rule CutFreq_step, assumption+)+

lemma set_band_ok:
  assumes "out_ok q" "unat ch < 30" "unat i < 33"
  shows "bindE (put_at2 ''EQBandGain'' (EQBandGain q) ch i u) (\<lambda>a.
           bindE (put_at2 ''EQBandGain_Val'' (EQBandGain_Val q) ch i v) (\<lambda>b. k a b)) =
         k ((EQBandGain q)[unat ch := (EQBandGain q ! unat ch)[unat i := u]])
           ((EQBandGain_Val q)[unat ch := (EQBandGain_Val q ! unat ch)[unat i := v]])"
    "out_ok (q\<lparr>EQBandGain := (EQBandGain q)[unat ch := (EQBandGain q ! unat ch)[unat i := u]],
       EQBandGain_Val := (EQBandGain_Val q)[unat ch := (EQBandGain_Val q ! unat ch)[unat i := v]]\<rparr>)"
proof -
  have m: "matrix_ok 30 33 (EQBandGain q)" "matrix_ok 30 33 (EQBandGain_Val q)"
    using assms(1) by (simp_all add: out_ok_def)
  note put = put_at2_ok [OF m(1) assms(2,3)] put_at2_ok [OF m(2) assms(2,3)]
  note mat = put_at2_matrix [OF m(1) assms(2)] put_at2_matrix [OF m(2) assms(2)]
  show "bindE (put_at2 ''EQBandGain'' (EQBandGain q) ch i u) (\<lambda>a.
           bindE (put_at2 ''EQBandGain_Val'' (EQBandGain_Val q) ch i v) (\<lambda>b. k a b)) =
         k ((EQBandGain q)[unat ch := (EQBandGain q ! unat ch)[unat i := u]])
           ((EQBandGain_Val q)[unat ch := (EQBandGain_Val q ! unat ch)[unat i := v]])"
    by (simp add: put)
  show "out_ok (q\<lparr>EQBandGain := (EQBandGain q)[unat ch := (EQBandGain q ! unat ch)[unat i := u]],
       EQBandGain_Val := (EQBandGain_Val q)[unat ch := (EQBandGain_Val q ! unat ch)[unat i := v]]\<rparr>)"
    using assms(1) unfolding out_ok_def by (simp add: mat [of i])
qed

lemma clear_bands_ok:
  "\<lbrakk>out_ok q; unat ch < 30; i + n \<le> 33\<rbrakk> \<Longrightarrow> sumP out_ok (clear_bands F ch n i q)"
proof (induction n arbitrary: i q)
  case (Suc n)
  have "unat (word_of_nat i :: u32) = i" using Suc.prems(3) by (simp add: unat_of_nat)
  then have j: "unat (word_of_nat i :: u32) < 33" using Suc.prems(3) by simp
  show ?case
    unfolding clear_bands.simps set_band_ok(1) [OF Suc.prems(1,2) j]
    using Suc.prems by (intro Suc.IH set_band_ok(2) j) auto
qed simp

lemma EQBandGain_safe:
  "safe_handler instructiondecoder_Output_EQBandGain_Set
     (\<lambda>w. getpara1_unsignedint w \<noteq> 0 \<and> (getpara2_unsignedint w = 0 \<longrightarrow> getpara3_unsignedint w = 0))"
proof (rule safe_handlerI)
  fix F w and s :: "'a dsp"
  assume s: "dsp_ok s" and c: "getpara1_unsignedint w \<noteq> 0 \<and> (getpara2_unsignedint w = 0 \<longrightarrow> getpara3_unsignedint w = 0)"
  let ?ch = "getpara1_unsignedint w - 1" and ?b = "getpara2_unsignedint w - 1"
  have ch: "unat ?ch < 30" if "\<not> 30 < getpara1_unsignedint w"
    using c that by (intro chan_less) (auto simp: not_less)
  have b: "unat ?b < 33" if "\<not> 31 < getpara2_unsignedint w" "getpara2_unsignedint w \<noteq> 0"
    using that by (intro chan_less) (auto simp: not_less)
  show "sumP (\<lambda>(r, s'). dsp_ok s') (instructiondecoder_Output_EQBandGain_Set F w s)"
    unfolding instructiondecoder_Output_EQBandGain_Set_def Let_def
    using s c ch b by (auto intro!: bind_return_ok upd_output_ok clear_bands_ok simp: set_band_ok)
qed

section \<open>The crossover\<close>

lemma sint_below_256: "unat (w :: u32) < 256 \<Longrightarrow> sint w = int (unat w)"
  by (rule sint_eq_unat) simp

lemma put_book_wp:
  assumes "matrix_ok 16 3 bk" "unat ch < 16" "unat j < 3"
  shows "sumP (matrix_ok 16 3) (put_at2 nm bk ch j v)"
  using put_at2_matrix [OF assms(1,2)] by (simp add: sumP_put_at2 [OF assms])

lemma setdivisionpointnum_safe:
  assumes s: "dsp_ok s" and ch: "unat ch < 16"
  shows "sumP dsp_ok (sim_frequencydivision_setdivisionpointnum F ch n s)"
proof -
  note d = dsp_ok_parts [OF s]
  let ?q = "outputparam s ! unat (DSP23_OutputYtype s)"
  have q: "matrix_ok 30 3 (FreqDivVal ?q)" using d(10) [OF d(7)] by (simp add: out_ok_def)
  have e: "length (divisionbandnum_set (eq s)) = 16" "matrix_ok 16 2 (fc_division (eq s))"
    "matrix_ok 16 3 (outsignalchannel_book24m3 (eq s))" using d(3) by (simp_all add: eq_ok_def)
  have book: "sumP (matrix_ok 16 3) (if b then put_at2 ''outsignalchannel_book24m3'' bk ch j v else Inr bk)"
    if "matrix_ok 16 3 bk" "unat j < 3" for b bk j v using that ch by (simp add: put_book_wp)
  have fc: "matrix_ok 16 2 xs \<Longrightarrow> unat j < 2 \<Longrightarrow> sumP (matrix_ok 16 2) (put_at2 ''fc_division'' xs ch j v)" for xs j v
    using ch by (simp add: sumP_put_at2 put_at2_matrix)
  have fin: "dsp_ok (s\<lparr>eq := \<lparr>divisionbandnum_set = bn, fc_division = fc, outsignalchannel_book24m3 = bk,
      filter_calls = c\<rparr>\<rparr>)"
    if "length bn = 16" "matrix_ok 16 2 fc" "matrix_ok 16 3 bk" for bn fc bk c
    using s that by (simp add: dsp_ok_def eq_ok_def)
  show ?thesis
    unfolding sim_frequencydivision_setdivisionpointnum_def sumP_bind Let_def sumP_put_at sumP_get_at
      sumP_Inr
    using ch d(5,7) e q
    by (intro conjI sumP_mono [OF book] sumP_mono [OF fc] fin)
      (simp_all add: sumP_get_at2 [OF q] sumP_mono [OF fc] fin)
qed

text \<open>
  \<open>FreqDiv_Set\<close> accepts every column number; the tables have 3 columns each, numbered from 1 and
  from 4.
\<close>

definition freq_div_safe :: "u32 \<Rightarrow> bool" where
  "freq_div_safe w \<longleftrightarrow> 16 < getinstructionindexingroup w \<or>
     getinstructionindexingroup w \<noteq> 0 \<and> getpara1_unsignedint w \<noteq> 0 \<and> getpara1_unsignedint w \<le> 6"

lemma freq_div_point_ok:
  assumes s: "dsp_ok s" and r: "unat r < 30" and c: "unat c < 3"
  shows "sumP dsp_ok (upd_output (\<lambda>q. bindE (put_at2 ''FreqDivVal'' (FreqDivVal q) r c v)
           (\<lambda>m. Inr (q\<lparr>FreqDivVal := m\<rparr>))) s)"
proof (rule upd_output_ok [OF s])
  fix q :: "'a OutputParams"
  assume q: "out_ok q"
  then have m: "matrix_ok 30 3 (FreqDivVal q)" by (simp add: out_ok_def)
  show "sumP out_ok (bindE (put_at2 ''FreqDivVal'' (FreqDivVal q) r c v) (\<lambda>m. Inr (q\<lparr>FreqDivVal := m\<rparr>)))"
    using q r c put_at2_matrix [OF m, of r c v] by (simp add: wp sumP_put_at2 [OF m] out_ok_def)
qed

lemma freq_div_book_ok:
  assumes "dsp_ok s" "unat r < 16" "unat c < 3"
  shows "sumP dsp_ok (bindE (put_at2 ''outsignalchannel_book24m3'' (outsignalchannel_book24m3 (eq s)) r c v)
           (\<lambda>bk. Inr (s\<lparr>eq := (eq s)\<lparr>outsignalchannel_book24m3 := bk\<rparr>\<rparr>)))"
  unfolding sumP_bind using assms
  by (intro sumP_mono [OF put_book_wp]) (auto simp: dsp_ok_def eq_ok_def)

lemma freq_div_apply_ok:
  assumes s: "dsp_ok s" and r: "unat r < 16"
  shows "sumP (\<lambda>(r, s'). dsp_ok s')
     (bindE (get_at ''outputparam'' (outputparam s) (OutputYtype s)) (\<lambda>q.
      bindE (get_at2 ''FreqDivVal'' (FreqDivVal q) r 0) (\<lambda>v0.
      bindE (get_at2 ''FreqDivVal'' (FreqDivVal q) r 1) (\<lambda>v1.
      bindE (get_at2 ''FreqDivVal'' (FreqDivVal q) r 2) (\<lambda>v2.
        if freq_div_complete v0 v1 v2
        then bindE (sim_frequencydivision_setdivisionpointnum F r v0 s) (\<lambda>s. Inr (0, s))
        else Inr (0, s))))))"
proof -
  note d = dsp_ok_parts [OF s]
  have m: "matrix_ok 30 3 (FreqDivVal (outputparam s ! unat (OutputYtype s)))"
    using d(10) [OF d(6)] by (simp add: out_ok_def)
  show ?thesis
    using s d(5,6) r setdivisionpointnum_safe [OF s r] by (simp add: wp sumP_get_at2 [OF m])
qed

lemma FreqDiv_safe: "safe_handler instructiondecoder_FreqDiv_Set freq_div_safe"
proof (rule safe_handlerI)
  fix F w and s :: "'a dsp"
  assume s: "dsp_ok s" and w: "freq_div_safe w"
  let ?row = "getinstructionindexingroup w" and ?col = "getpara1_unsignedint w"
  have "unat ?row < 256" "unat ?col < 256" using para_bounds(2,3) [of w] by linarith+
  note ints = sint_below_256 [OF this(1)] sint_below_256 [OF this(2)]
  show "sumP (\<lambda>(r, s'). dsp_ok s') (instructiondecoder_FreqDiv_Set F w s)"
  proof (cases "16 < ?row")
    case True
    then have "16 < unat ?row" by (simp add: word_less_nat_alt)
    then have "int MAXCAHNNELNUM < sint ?row" by (simp only: ints c_consts of_nat_less_iff)
    then show ?thesis using s by (simp add: instructiondecoder_FreqDiv_Set_def Let_def)
  next
    case False
    with w have c: "?row \<noteq> 0" "?row \<le> 16" "?col \<noteq> 0" "?col \<le> 6" by (auto simp: freq_div_safe_def not_less)
    have row: "unat (?row - 1) < 16" using c by (intro chan_less) auto
    have "unat ?row \<le> 16" using c(2) by (simp add: word_le_nat_alt)
    then have nrow: "\<not> int MAXCAHNNELNUM < sint ?row" by (simp only: ints c_consts of_nat_less_iff)
    have ucol: "unat ?col \<le> 6" "0 < unat ?col" using c by (simp_all add: word_le_nat_alt unat_gt_0)
    have three: "sint ?col \<le> 3 \<longleftrightarrow> unat ?col \<le> 3"
      using of_nat_le_iff [of "unat ?col" 3, where 'a = int] unfolding ints by simp
    have col3: "unat (?col - 1) < 3" if "unat ?col \<le> 3" using that c(3) ucol by (simp add: unat_pred)
    have col4: "unat (?col - 4) < 3" if "\<not> unat ?col \<le> 3"
      using that ucol by (simp add: unat_sub word_le_nat_alt)
    show ?thesis
      unfolding instructiondecoder_FreqDiv_Set_def Let_def sumP_bind [of _ "if _ then _ else _"]
        if_not_P [OF nrow] three
      using s row
      by (auto intro!: sumP_mono [OF freq_div_point_ok] sumP_mono [OF freq_div_book_ok] freq_div_apply_ok col3 col4)
  qed
qed

section \<open>Dispatch\<close>

text \<open>What the handler in row \<open>r\<close>, column \<open>n\<close> of the table needs of the word.\<close>

definition slot_safe :: "nat \<Rightarrow> nat \<Rightarrow> u32 \<Rightarrow> bool" where
  "slot_safe r n w =
     (if r = 1 then n \<in> {5, 6, 7} \<longrightarrow> getpara1_unsignedint w \<noteq> 0
      else if r = 2 then n \<in> {1, 2, 3} \<longrightarrow> input_group w
      else if r = 3 then
        if n = 3 then getpara1_unsignedint w \<noteq> 0 \<and> getpara1_unsignedint w \<le> 16
        else if n \<in> {4, 5} then getpara1_unsignedint w \<noteq> 0 \<and> getpara1_unsignedint w \<le> 24
        else if n \<in> {6, 7} then getpara1_unsignedint w \<noteq> 0
        else n = 8 \<longrightarrow> getpara1_unsignedint w \<noteq> 0 \<and> (getpara2_unsignedint w = 0 \<longrightarrow> getpara3_unsignedint w = 0)
      else r = 6 \<longrightarrow> freq_div_safe w)"

definition safe_word :: "u32 \<Rightarrow> bool" where
  "safe_word w = slot_safe (decoder_row (getinstructiongroup w)) (unat (getinstructionindexingroup w)) w"

lemmas handlers_safe = gen_handlers_safe speaker_handlers_safe OutPinAssign_safe input_handlers_safe
  idle_handlers_safe aux_handlers_safe SystemState_safe out_handlers_safe TimeDelay_safe CutFreq_safe
  EQBandGain_safe FreqDiv_safe

lemma safe_handler_weaken: "safe_handler h (\<lambda>w. True) \<Longrightarrow> safe_handler h pre"
  by (simp add: safe_handler_def)

definition row_safe :: "nat \<Rightarrow> nat \<Rightarrow> 'f handler option list \<Rightarrow> bool" where
  "row_safe r k xs \<longleftrightarrow> (\<forall>n < length xs. \<forall>h. xs ! n = Some h \<longrightarrow> safe_handler h (slot_safe r (k + n)))"

lemma row_safe_Nil: "row_safe r k []"
  by (simp add: row_safe_def)

lemma row_safe_None: "row_safe r (Suc k) xs \<Longrightarrow> row_safe r k (None # xs)"
  by (auto simp: row_safe_def nth_Cons split: nat.splits)

lemma row_safe_Some:
  "safe_handler h (slot_safe r k) \<Longrightarrow> row_safe r (Suc k) xs \<Longrightarrow> row_safe r k (Some h # xs)"
  by (auto simp: row_safe_def nth_Cons split: nat.splits)

lemma row_safe_pad17: "row_safe r k xs \<Longrightarrow> row_safe r k (pad17 xs)"
  by (auto simp: row_safe_def pad17_def nth_append)

definition table_safe :: "nat \<Rightarrow> 'f handler option list list \<Rightarrow> bool" where
  "table_safe k t \<longleftrightarrow> (\<forall>r < length t. row_safe (k + r) 0 (t ! r))"

lemma table_safe_Nil: "table_safe k []"
  by (simp add: table_safe_def)

lemma table_safe_Cons: "row_safe k 0 row \<Longrightarrow> table_safe (Suc k) t \<Longrightarrow> table_safe k (row # t)"
  by (auto simp: table_safe_def nth_Cons split: nat.splits)

lemmas table_safe_rules = table_safe_Cons table_safe_Nil row_safe_pad17 row_safe_Some row_safe_None
  row_safe_Nil

lemma instructiondecoder_safe: "table_safe 0 instructiondecoder"
  unfolding instructiondecoder_def list.map
  by (intro table_safe_rules)
    (simp_all add: slot_safe_def [abs_def] numeral_eq_Suc handlers_safe [unfolded numeral_eq_Suc])

lemma table_rows:
  "length (instructiondecoder :: 'f handler option list list) = 7"
  "r < 7 \<Longrightarrow> length ((instructiondecoder :: 'f handler option list list) ! r) = 17"
proof -
  show l: "length (instructiondecoder :: 'f handler option list list) = 7" by (simp add: instructiondecoder_def)
  have "\<forall>row \<in> set (instructiondecoder :: 'f handler option list list). length row = 17"
    by (simp add: instructiondecoder_def pad17_def)
  then show "r < 7 \<Longrightarrow> length ((instructiondecoder :: 'f handler option list list) ! r) = 17"
    by (simp add: l)
qed

lemma select_handler_safe:
  fixes s :: "'f dsp"
  assumes "select_handler w = Some h" "safe_word w" "dsp_ok s"
  shows "sumP (\<lambda>(r, s'). dsp_ok s') (h F w s)"
proof -
  let ?r = "decoder_row (getinstructiongroup w)" and ?n = "unat (getinstructionindexingroup w)"
  define n where "n = (if ?r = 6 then 0 else ?n)"
  have r: "?r < 7" by (simp add: decoder_row_def)
  have n: "n < 17" and h: "instructiondecoder ! ?r ! n = Some h"
    using assms(1) by (auto simp: select_handler_def Let_def n_def word_less_nat_alt split: if_splits)
  have "safe_handler h (slot_safe ?r n)"
    using instructiondecoder_safe [where ?'a = 'f] r n h by (simp add: table_safe_def row_safe_def table_rows)
  moreover have "slot_safe ?r n w" using assms(2) by (auto simp: safe_word_def n_def slot_safe_def)
  ultimately show ?thesis using assms(3) by (simp add: safe_handler_def)
qed

lemma raw_data_ok:
  fixes s :: "'f dsp"
  assumes "dsp_ok s" "safe_word w"
  shows "sumP dsp_ok (handle_spi_raw_data F w s)"
proof -
  define s1 where "s1 = (if w = 0x34000000 then s\<lparr>g_init_done := 1\<rparr> else s)"
  have s1: "dsp_ok s1" using assms(1) by (simp add: s1_def dsp_ok_def)
  show ?thesis
  proof (cases "select_handler w :: 'f handler option")
    case (Some h)
    then show ?thesis using select_handler_safe [OF Some assms(2) s1, of F] assms(1)
      by (auto simp: handle_spi_raw_data_def s1_def [symmetric] sumP_bind Let_def split_def)
  qed (use assms(1) s1 in \<open>simp add: handle_spi_raw_data_def s1_def [symmetric]\<close>)
qed

end
