(* ===== verification/Dsp_Behaviour.thy ===== *)
theory Dsp_Behaviour
  imports Dsp_Safety
begin

text \<open>
  What the parameter commands do: the delivery of words from the SPI interrupt to the handlers, the
  states the DSP reaches from reset, refused commands, faults, the end mark, the volume knob, the
  system state, the equaliser and the crossover.
\<close>

section \<open>Runs\<close>

text \<open>
  The DSP alternates between interrupts and its main loop. \<open>RxWord w\<close> is the SPI interrupt with
  \<open>w\<close> in the receive register; \<open>MainLoop w\<close> is a pass of the main loop that finds \<open>w\<close> in that
  register; \<open>Knob\<close> is the interrupt of the volume knob.
\<close>

datatype dsp_event = RxWord u32 | MainLoop u32 | Knob bool bool

type_synonym 'f dsp_sys = "spi_rx \<times> 'f dsp"

definition dsp_event_step :: "'f flt \<Rightarrow> dsp_event \<Rightarrow> 'f dsp_sys \<Rightarrow> fault + 'f dsp_sys" where
  "dsp_event_step F e rs =
     (case e of RxWord w \<Rightarrow> Inr (SPIH_ISR w (fst rs), snd rs)
      | MainLoop w \<Rightarrow> handle_spi_code F w rs
      | Knob a b \<Rightarrow> Inr (fst rs, fst (knobvolume_SIGIRQ2 F a b (snd rs))))"

fun dsp_run :: "'f flt \<Rightarrow> dsp_event list \<Rightarrow> 'f dsp_sys \<Rightarrow> fault + 'f dsp_sys" where
  "dsp_run F [] rs = Inr rs"
| "dsp_run F (e # es) rs = bindE (dsp_event_step F e rs) (dsp_run F es)"

text \<open>The handlers on a sequence of words.\<close>

fun handle_words :: "'f flt \<Rightarrow> u32 list \<Rightarrow> 'f dsp \<Rightarrow> fault + 'f dsp" where
  "handle_words F [] s = Inr s"
| "handle_words F (w # ws) s = bindE (handle_spi_raw_data F w s) (handle_words F ws)"

definition rx_reset :: spi_rx where
  "rx_reset = \<lparr>g_SPI_Interrupt_Flag = 0, g_GetRXSPI = 0, g_spi_data = 0\<rparr>"

text \<open>States reached from reset by events whose words name channels in range.\<close>

definition safe_event :: "dsp_event \<Rightarrow> bool" where
  "safe_event e = (case e of MainLoop w \<Rightarrow> safe_word w | _ \<Rightarrow> True)"

inductive dsp_reach :: "'f flt \<Rightarrow> 'f dsp_sys \<Rightarrow> bool" for F where
  dsp_boot: "dsp_reach F (rx_reset, dsp_reset F)"
| dsp_event: "\<lbrakk>dsp_reach F rs; safe_event e; dsp_event_step F e rs = Inr rs'\<rbrakk> \<Longrightarrow> dsp_reach F rs'"

lemma handle_words_append:
  "handle_words F (us @ ws) s = bindE (handle_words F us s) (handle_words F ws)"
proof (induction us arbitrary: s)
  case (Cons u us)
  then show ?case by (cases "handle_spi_raw_data F u s") simp_all
qed simp

lemma handle_words_safe:
  "\<lbrakk>dsp_ok s; list_all safe_word ws\<rbrakk> \<Longrightarrow> sumP dsp_ok (handle_words F ws s)"
proof (induction ws arbitrary: s)
  case (Cons w ws)
  then obtain s' where "handle_spi_raw_data F w s = Inr s'" "dsp_ok s'"
    using raw_data_ok [of s w F] by (auto simp: sumP_ex)
  with Cons show ?case by simp
qed simp

section \<open>Delivery\<close>

lemma run_delivers:
  "map_sum id snd (dsp_run F (concat (map (\<lambda>w. [RxWord w, MainLoop w]) ws)) (r, s)) =
     handle_words F (filter (\<lambda>w. w \<noteq> 0 \<and> w \<noteq> 0xffffffff) ws) s"
proof (induction ws arbitrary: r s)
  case (Cons w ws)
  show ?case
  proof (cases "w \<noteq> 0 \<and> w \<noteq> 0xffffffff")
    case True
    then show ?thesis
      using Cons by (cases "handle_spi_raw_data F w s")
        (simp_all add: dsp_event_step_def SPIH_ISR_def handle_spi_code_def Let_def)
  next
    case False
    then show ?thesis
      using Cons by (auto simp: dsp_event_step_def SPIH_ISR_def handle_spi_code_def Let_def)
  qed
qed simp

section \<open>The volume knob\<close>

definition knob_next :: "bool \<Rightarrow> bool \<Rightarrow> nat \<Rightarrow> nat" where
  "knob_next flg2_low flg3_low v =
     (if \<not> flg2_low then v else if flg3_low then min 96 (v + 1) else v - 1)"

lemma volume_up:
  fixes v :: u32
  assumes "unat v \<le> 96"
  shows "(if sint USE_VOLUME_STEP \<le> sint (v + 1) then USE_VOLUME_STEP else v + 1) = word_of_nat (min 96 (unat v + 1))"
proof -
  have u: "unat (v + 1) = unat v + 1" using assms by (simp add: unat_word_ariths)
  have i: "sint (v + 1) = int (unat (v + 1))" using assms u by (intro sint_below_256) simp
  have c: "sint USE_VOLUME_STEP = int 96" by (simp add: c_consts)
  have le: "sint USE_VOLUME_STEP \<le> sint (v + 1) \<longleftrightarrow> 96 \<le> unat v + 1"
    unfolding i c u by (rule of_nat_le_iff)
  have w: "word_of_nat (unat v + 1) = v + 1" by simp
  show ?thesis
  proof (cases "96 \<le> unat v + 1")
    case True
    then have "min 96 (unat v + 1) = 96" by simp
    then show ?thesis using True unfolding le by (simp add: c_consts)
  next
    case False
    then have "min 96 (unat v + 1) = unat v + 1" by simp
    with False show ?thesis unfolding le by (simp only: w if_False)
  qed
qed

lemma volume_down:
  fixes v :: u32
  assumes "unat v \<le> 96"
  shows "(if sint (v - 1) \<le> 0 then 0 else v - 1) = (word_of_nat (unat v - 1) :: u32)"
proof (cases "v = 0")
  case False
  then have u: "unat (v - 1) = unat v - 1" by (rule unat_pred)
  have "sint (v - 1) = int (unat (v - 1))" using assms u by (intro sint_below_256) simp
  moreover have "word_of_nat (unat (v - 1)) = v - 1" by simp
  ultimately show ?thesis unfolding u [symmetric] by (cases "unat (v - 1)") (auto simp: unat_eq_0)
qed simp

lemma knob_volume_state:
  assumes "dsp_ok s"
  shows "g_volume_count_value (gen (fst (knobvolume_SIGIRQ2 F a b s))) =
           word_of_nat (knob_next a b (unat (g_volume_count_value (gen s))))"
    "dsp_ok (fst (knobvolume_SIGIRQ2 F a b s))"
proof -
  let ?v = "g_volume_count_value (gen s)"
  have v: "unat ?v \<le> 96" using dsp_ok_parts(1) [OF assms] by (simp add: gen_ok_def word_le_nat_alt)
  show n: "g_volume_count_value (gen (fst (knobvolume_SIGIRQ2 F a b s))) = word_of_nat (knob_next a b (unat ?v))"
    using volume_up [OF v] volume_down [OF v]
    by (simp add: knobvolume_SIGIRQ2_def Let_def knob_next_def)
  have "knob_next a b (unat ?v) \<le> 96" using v by (auto simp: knob_next_def)
  then have "g_volume_count_value (gen (fst (knobvolume_SIGIRQ2 F a b s))) \<le> 96"
    unfolding n by (simp add: word_le_nat_alt unat_of_nat)
  then show "dsp_ok (fst (knobvolume_SIGIRQ2 F a b s))"
    using assms dsp_ok_parts(1) [OF assms] unfolding knobvolume_SIGIRQ2_def Let_def fst_conv
    by (intro upd_gen_ok) (simp_all add: gen_ok_def)
qed

lemma dsp_event_step_ok:
  assumes "dsp_ok (snd rs)" "safe_event e"
  shows "sumP (\<lambda>rs'. dsp_ok (snd rs')) (dsp_event_step F e rs)"
proof (cases e)
  case (MainLoop w)
  with assms(2) have "safe_word w" by (simp add: safe_event_def)
  with assms(1) show ?thesis
    using raw_data_ok [of "snd rs" w F]
    by (auto simp: MainLoop dsp_event_step_def handle_spi_code_def Let_def sumP_bind split: prod.split)
qed (use assms(1) in \<open>simp_all add: dsp_event_step_def knob_volume_state\<close>)

inductive_cases dsp_reachE: "dsp_reach F rs"

lemma dsp_reach_ok: "dsp_reach F rs \<Longrightarrow> dsp_ok (snd rs)"
proof (induction rule: dsp_reach.induct)
  case (dsp_event rs e rs')
  then show ?case using dsp_event_step_ok [of rs e F] by simp
qed (simp add: dsp_reset_ok)

section \<open>The handlers keep \<open>g_init_done\<close>\<close>

lemma upd_init [simp]:
  "g_init_done (upd_gen h s) = g_init_done s" "g_init_done (upd_aux k s) = g_init_done s"
  by (simp_all add: upd_gen_def upd_aux_def)

definition keeps_init :: "'f handler \<Rightarrow> bool" where
  "keeps_init h \<longleftrightarrow> (\<forall>F w s r s'. h F w s = Inr (r, s') \<longrightarrow> g_init_done s' = g_init_done s)"

lemma keeps_initI: "(\<And>F w s r s'. h F w s = Inr (r, s') \<Longrightarrow> g_init_done s' = g_init_done s) \<Longrightarrow> keeps_init h"
  by (simp add: keeps_init_def)

lemma bindE_Inr: "bindE m k = Inr y \<longleftrightarrow> (\<exists>x. m = Inr x \<and> k x = Inr y)"
  by (cases m) simp_all

lemma upd_output_init: "upd_output h s = Inr s' \<Longrightarrow> g_init_done s' = g_init_done s"
  by (auto simp: upd_output_def bindE_Inr)

lemma upd_input_init: "upd_input i h s = Inr s' \<Longrightarrow> g_init_done s' = g_init_done s"
  by (auto simp: upd_input_def bindE_Inr)

lemma filter_init:
  "SPI_set_EQ_LPfilter i s = Inr s' \<Longrightarrow> g_init_done s' = g_init_done s"
  "SPI_set_EQ_HPfilter i s = Inr s' \<Longrightarrow> g_init_done s' = g_init_done s"
  by (auto simp: SPI_set_EQ_LPfilter_def SPI_set_EQ_HPfilter_def bindE_Inr split: if_splits)

lemma division_init:
  "sim_frequencydivision_setdivisionpointnum F ch n s = Inr s' \<Longrightarrow> g_init_done s' = g_init_done s"
  by (auto simp: sim_frequencydivision_setdivisionpointnum_def bindE_Inr Let_def)

lemmas init_frame = upd_output_init upd_input_init filter_init division_init

lemmas all_handlers = gen_handlers instructiondecoder_SpeakerX_Set_def instructiondecoder_SpeakerY_Set_def
  instructiondecoder_SpeakerZ_Set_def instructiondecoder_OutPinAssign_Set_def
  instructiondecoder_Input_SamplingRate_Set_def instructiondecoder_Input_Decoder_Set_def
  instructiondecoder_Input_ChannelNumber_Set_def instructiondecoder_Input_PinAssign_Set_def
  instructiondecoder_Input_TimeDelay_Set_def instructiondecoder_Input_PlaybackSF_Set_def
  instructiondecoder_Output_FreqDivision_Set_def instructiondecoder_Output_ChannelGain_Set_def
  instructiondecoder_Output_TimeDelay_Set_def instructiondecoder_Output_HighCutFreq_Set_def
  instructiondecoder_Output_LowCutFreq_Set_def instructiondecoder_Output_HighCutSlope_Set_def
  instructiondecoder_Output_LowCutSlope_Set_def instructiondecoder_Output_EQBandGain_Set_def
  instructiondecoder_SPLreferencevalue_Set_def instructiondecoder_SPLalignmentvalue_Set_def
  instructiondecoder_CutLevel_Set_def instructiondecoder_PL_Alignment_Enable_Set_def
  instructiondecoder_CenterSignal_Enable_Set_def instructiondecoder_Invert_Enable_Set_def
  instructiondecoder_PLfilter_Set_def instructiondecoder_AlignmentChannel_Set_def
  instructiondecoder_SignalModeVal_Set_def instructiondecoder_SystemState_Set_def
  instructiondecoder_OutputVolume_Set_def instructiondecoder_MicinBandeng_Set_def
  instructiondecoder_InputVolume_Set_def instructiondecoder_DJsourceXY_Set_def
  instructiondecoder_DJsourceZ_Set_def instructiondecoder_DJgain_Set_def instructiondecoder_FreqDiv_Set_def

lemma all_rows_keep_init:
  "\<forall>row \<in> set instructiondecoder. \<forall>h. Some h \<in> set row \<longrightarrow> keeps_init h"
  unfolding instructiondecoder_def pad17_def
  by (auto intro!: keeps_initI simp: all_handlers bindE_Inr Let_def split: if_splits dest!: init_frame)

lemma select_handler_mem:
  assumes "select_handler w = Some (h :: 'f handler)"
  shows "\<exists>row \<in> set (instructiondecoder :: 'f handler option list list). Some h \<in> set row"
proof -
  let ?r = "decoder_row (getinstructiongroup w)"
  have "?r < 7" by (simp add: decoder_row_def)
  then have row: "instructiondecoder ! ?r \<in> set (instructiondecoder :: 'f handler option list list)"
    by (simp add: table_rows)
  define n where "n = (if ?r = 6 then 0 else unat (getinstructionindexingroup w))"
  have "n < 17" "instructiondecoder ! ?r ! n = Some h"
    using assms by (auto simp: select_handler_def Let_def n_def word_less_nat_alt split: if_splits)
  with \<open>?r < 7\<close> have "Some h \<in> set (instructiondecoder ! ?r)" by (metis nth_mem table_rows(2))
  with row show ?thesis by blast
qed

lemma raw_data_init:
  assumes "handle_spi_raw_data F w s = Inr s'"
  shows "g_init_done s' = (if w = 0x34000000 then 1 else g_init_done s)"
proof (cases "select_handler w :: 'a handler option")
  case (Some h)
  then have "keeps_init h" using select_handler_mem all_rows_keep_init by blast
  with assms Some show ?thesis
    by (auto simp: handle_spi_raw_data_def Let_def bindE_Inr keeps_init_def split: if_splits)
qed (use assms in \<open>auto simp: handle_spi_raw_data_def Let_def split: if_splits\<close>)

lemma handle_words_init:
  "handle_words F ws s = Inr s' \<Longrightarrow> g_init_done s' = (if 0x34000000 \<in> set ws then 1 else g_init_done s)"
proof (induction ws arbitrary: s)
  case (Cons w ws)
  then show ?case by (auto simp: bindE_Inr raw_data_init)
qed simp

section \<open>Selection\<close>

lemma select_slot:
  assumes "getinstructiongroup w = g" "getinstructionindexingroup w = i" "i < 16" "decoder_row g \<noteq> 6"
  shows "select_handler w = instructiondecoder ! decoder_row g ! unat i"
  using assms by (simp add: select_handler_def Let_def)

lemma table_slots:
  "instructiondecoder ! Suc 0 ! 5 = Some instructiondecoder_SpeakerX_Set"
  "instructiondecoder ! Suc 0 ! 8 = Some instructiondecoder_KnobVolume_Set"
  "instructiondecoder ! 3 ! 3 = Some instructiondecoder_Output_TimeDelay_Set"
  "instructiondecoder ! 3 ! 8 = Some instructiondecoder_Output_EQBandGain_Set"
  "instructiondecoder ! 4 ! 11 = Some instructiondecoder_SystemState_Set"
  "instructiondecoder ! 6 ! 0 = Some instructiondecoder_FreqDiv_Set"
  by (simp_all add: instructiondecoder_def pad17_def)

text \<open>A word that is neither idle nor a mark is the call of the handler of its slot.\<close>

lemma raw_data_call:
  assumes "select_handler w = Some h" "getinstructiongroup w \<noteq> 13 \<or> getinstructionindexingroup w \<noteq> 0"
    "w \<noteq> 0"
  shows "handle_spi_raw_data F w s = bindE (h F w s) (\<lambda>(r, s). Inr s)"
proof -
  have "getinstructiongroup 0x34000000 = 13" "getinstructionindexingroup 0x34000000 = 0"
    "getinstructiongroup 0x34000001 = 13" "getinstructionindexingroup 0x34000001 = 0" by code_simp+
  then have "w \<noteq> 0x34000000" "w \<noteq> 0x34000001" using assms(2) by auto
  then show ?thesis using assms(1,3) by (simp add: handle_spi_raw_data_def)
qed

section \<open>Refused commands\<close>

definition refuses_cleanly :: "'f handler \<Rightarrow> bool" where
  "refuses_cleanly h \<longleftrightarrow> (\<forall>F w s r s'. h F w s = Inr (r, s') \<longrightarrow> r \<noteq> 0 \<longrightarrow> s' = s)"

lemma refuses_cleanlyI:
  "(\<And>F w s r s'. h F w s = Inr (r, s') \<Longrightarrow> r \<noteq> 0 \<Longrightarrow> s' = s) \<Longrightarrow> refuses_cleanly h"
  by (simp add: refuses_cleanly_def)

lemma refusals_clean:
  "\<forall>row \<in> set (instructiondecoder :: 'f handler option list list). \<forall>h. Some h \<in> set row \<longrightarrow>
     h = instructiondecoder_Output_TimeDelay_Set \<or> refuses_cleanly h"
  unfolding instructiondecoder_def pad17_def
  by (auto intro!: refuses_cleanlyI simp: all_handlers bindE_Inr Let_def split: if_splits)

lemma delay_refusal:
  "\<lbrakk>instructiondecoder_Output_TimeDelay_Set F w s = Inr (r, s'); r \<noteq> 0\<rbrakk> \<Longrightarrow> s' = s\<lparr>outputparam := outputparam s'\<rparr>"
  by (auto simp: instructiondecoder_Output_TimeDelay_Set_def bindE_Inr Let_def upd_output_def
      split: if_splits)

section \<open>The knob's report\<close>

definition knob_msg :: "u32 \<Rightarrow> CmdMsgStru" where
  "knob_msg v = \<lparr>op = 0, key = 1, mtype = 8, param1 = 0, param2 = v, param3 = 0\<rparr>"

lemma knob_word:
  "push_bit 30 0 OR push_bit 26 1 OR push_bit 21 8 OR push_bit 16 0 OR push_bit 8 v OR push_bit 0 0
     = dsp_encode (knob_msg v)" if "unat v \<le> 96" for v :: u32
proof -
  have "take_bit 8 v = v" using that by (intro take_bit_u32_self) auto
  then have "v AND 255 = v" by (simp add: and_take_bit)
  then show ?thesis by (simp add: dsp_encode_def instruction_encoder_def knob_msg_def)
qed

lemma knob_msg_fields:
  assumes "unat v \<le> 96"
  shows "dsp_decode (dsp_encode (knob_msg v)) = knob_msg v"
  using assms by (intro dsp_decode_encode) (simp add: dsp_in_range_def knob_msg_def)

lemma knob_next_le: "v \<le> 96 \<Longrightarrow> knob_next a b v \<le> 96"
  by (auto simp: knob_next_def)

lemma knob_report:
  assumes "dsp_ok s"
  obtains v s' where "knobvolume_SIGIRQ2 F a b s = (s', dsp_encode (knob_msg v))" "unat v \<le> 96"
    "unat v = knob_next a b (unat (g_volume_count_value (gen s)))" "g_volume_count_value (gen s') = v"
    "knobvolumegainvalue (gen s') = powf F (lit F 100 (-1))
       (fdiv F (fsub F (fmul F (lit F 10 (-1)) (of_sint F (sint v))) (of_uint F USE_VOLUME_STEP)) (of_sint F 20))"
proof -
  define v where "v = g_volume_count_value (gen (fst (knobvolume_SIGIRQ2 F a b s)))"
  have le: "unat (g_volume_count_value (gen s)) \<le> 96"
    using dsp_ok_parts(1) [OF assms] by (simp add: gen_ok_def word_le_nat_alt)
  have v: "v = word_of_nat (knob_next a b (unat (g_volume_count_value (gen s))))"
    unfolding v_def by (rule knob_volume_state [OF assms])
  have n: "unat v = knob_next a b (unat (g_volume_count_value (gen s)))"
    unfolding v using knob_next_le [OF le, of a b] by (simp add: unat_of_nat)
  then have v96: "unat v \<le> 96" using knob_next_le [OF le] by simp
  have "snd (knobvolume_SIGIRQ2 F a b s) =
      push_bit 30 0 OR push_bit 26 1 OR push_bit 21 8 OR push_bit 16 0 OR push_bit 8 v OR push_bit 0 0"
    unfolding v_def by (simp add: knobvolume_SIGIRQ2_def Let_def)
  then have "snd (knobvolume_SIGIRQ2 F a b s) = dsp_encode (knob_msg v)" unfolding knob_word [OF v96] .
  moreover have "knobvolumegainvalue (gen (fst (knobvolume_SIGIRQ2 F a b s))) = powf F (lit F 100 (-1))
       (fdiv F (fsub F (fmul F (lit F 10 (-1)) (of_sint F (sint v))) (of_uint F USE_VOLUME_STEP)) (of_sint F 20))"
    unfolding v_def by (simp add: knobvolume_SIGIRQ2_def Let_def)
  ultimately show ?thesis using that n v96 v_def by (metis prod.collapse)
qed

lemma knob_command:
  assumes "unat v \<le> 96"
  shows "handle_spi_raw_data F (dsp_encode (knob_msg v)) s = Inr (upd_gen (\<lambda>g. g\<lparr>g_volume_count_value := v,
     knobvolume := fmul F (lit F 10 (-1)) (of_uint F v), knobvolumegainvalue := powf F (lit F 100 (-1))
       (fdiv F (fsub F (fmul F (lit F 10 (-1)) (of_uint F v)) (of_sint F 90)) (of_sint F 20))\<rparr>) s)"
proof -
  let ?w = "dsp_encode (knob_msg v)"
  have w: "getinstructiontype ?w = 0" "getinstructiongroup ?w = 1" "getinstructionindexingroup ?w = 8"
    "getpara2_unsignedint ?w = v"
    using knob_msg_fields [OF assms] by (simp_all add: dsp_decode_def knob_msg_def)
  have nz: "?w \<noteq> 0" using w(2) by (auto simp: getters_take_bit)
  have h: "select_handler ?w = Some (instructiondecoder_KnobVolume_Set :: 'a handler)"
    by (subst select_slot [OF w(2,3)]) (simp_all add: decoder_row_def table_slots)
  have "\<not> 96 < v" using assms by (simp add: word_less_nat_alt)
  then show ?thesis
    by (simp add: raw_data_call [OF h _ nz] w instructiondecoder_KnobVolume_Set_def Let_def)
qed

section \<open>System state\<close>

definition sys_msg :: "u32 \<Rightarrow> CmdMsgStru" where
  "sys_msg x = \<lparr>op = 0, key = 13, mtype = 11, param1 = x, param2 = 0, param3 = 0\<rparr>"

lemma sys_command:
  assumes "unat x \<in> {1, 2, 3}"
  shows "handle_spi_raw_data F (dsp_encode (sys_msg x)) s =
     Inr (upd_gen (if x = 2 then (\<lambda>g. g\<lparr>LastInputXtype := InputXtype g, InputXtype := 6\<rparr>)
                   else (\<lambda>g. g\<lparr>InputXtype := LastInputXtype g\<rparr>))
            (upd_aux (\<lambda>a. a\<lparr>SystemState := x\<rparr>) s))"
proof -
  let ?w = "dsp_encode (sys_msg x)"
  have "dsp_decode ?w = sys_msg x"
    using assms by (intro dsp_decode_encode) (auto simp: dsp_in_range_def sys_msg_def)
  then have w: "getinstructiontype ?w = 0" "getinstructiongroup ?w = 13" "getinstructionindexingroup ?w = 11"
    "getpara1_unsignedint ?w = x" by (simp_all add: dsp_decode_def sys_msg_def)
  have nz: "?w \<noteq> 0" using w(2) by (auto simp: getters_take_bit)
  have h: "select_handler ?w = Some (instructiondecoder_SystemState_Set :: 'a handler)"
    by (subst select_slot [OF w(2,3)]) (simp_all add: decoder_row_def table_slots)
  have "\<not> 3 < x" "x \<noteq> 0" using assms by (auto simp: word_less_nat_alt)
  then show ?thesis
    by (simp add: raw_data_call [OF h _ nz] w instructiondecoder_SystemState_Set_def Let_def)
qed

lemma standby_repeated:
  "\<exists>s'. handle_words F (replicate (Suc k) (dsp_encode (sys_msg 2))) s = Inr s' \<and> InputXtype (gen s') = 6 \<and>
     LastInputXtype (gen s') = (if k = 0 then InputXtype (gen s) else 6)"
proof (induction k arbitrary: s)
  case (Suc k)
  let ?s = "upd_gen (\<lambda>g. g\<lparr>LastInputXtype := InputXtype g, InputXtype := 6\<rparr>) (upd_aux (\<lambda>a. a\<lparr>SystemState := 2\<rparr>) s)"
  show ?case using Suc [of ?s] by (simp add: sys_command cong: if_cong)
qed (simp add: sys_command)

section \<open>The equaliser\<close>

definition set_row :: "'a list list \<Rightarrow> nat \<Rightarrow> nat \<Rightarrow> nat \<Rightarrow> 'a \<Rightarrow> 'a list list" where
  "set_row xss r i n v = xss[r := take i (xss ! r) @ replicate n v @ drop (i + n) (xss ! r)]"

lemma set_row_step:
  assumes "matrix_ok a b xss" "r < a" "i + Suc n \<le> b"
  shows "set_row (xss[r := (xss ! r)[i := v]]) r (Suc i) n v = set_row xss r i (Suc n) v"
proof -
  have "i < length (xss ! r)" "r < length xss" using assms by (simp_all add: matrix_ok_def)
  then show ?thesis by (simp add: set_row_def take_Suc_conv_app_nth)
qed

lemma set_row_0: "set_row xss r i 0 v = xss"
  by (simp add: set_row_def)

lemma clear_bands_eq:
  assumes "out_ok q" "unat ch < 30" "i + n \<le> 33"
  shows "clear_bands F ch n i q =
    Inr (q\<lparr>EQBandGain := set_row (EQBandGain q) (unat ch) i n (of_sint F 0),
          EQBandGain_Val := set_row (EQBandGain_Val q) (unat ch) i n (of_sint F 1)\<rparr>)"
  using assms
proof (induction n arbitrary: i q)
  case (Suc n)
  have i: "unat (word_of_nat i :: u32) = i" using Suc.prems(3) by (simp add: unat_of_nat)
  then have j: "unat (word_of_nat i :: u32) < 33" using Suc.prems(3) by simp
  have m: "matrix_ok 30 33 (EQBandGain q)" "matrix_ok 30 33 (EQBandGain_Val q)"
    using Suc.prems(1) by (simp_all add: out_ok_def)
  note step = set_row_step [OF m(1) Suc.prems(2,3)] set_row_step [OF m(2) Suc.prems(2,3)]
  note ok = set_band_ok(2) [OF Suc.prems(1,2) j, where u = "of_sint F 0" and v = "of_sint F 1", unfolded i]
  show ?case
    unfolding clear_bands.simps set_band_ok(1) [OF Suc.prems(1,2) j] i
    using Suc.IH [OF ok Suc.prems(2), of "Suc i"] Suc.prems(3) by (simp add: step)
qed (simp add: set_row_0)

section \<open>The crossover\<close>

definition division_calls :: "'f flt \<Rightarrow> nat \<Rightarrow> u32 \<Rightarrow> u32 \<Rightarrow> u32 \<Rightarrow> 'f filter_call list" where
  "division_calls F ch n f0 f1 =
     (if n = 2 then [DivLPF (3 * ch) 0 (of_uint F f0), DivHPF (3 * ch + 1) 0 (of_uint F f0)]
      else if n = 3 then
        [DivLPF (3 * ch) 0 (of_uint F f0), DivHPF (3 * ch + 1) 0 (of_uint F f0),
         DivLPF (3 * ch + 1) 5 (of_uint F f1), DivHPF (3 * ch + 2) 0 (of_uint F f1)]
      else [])"

definition set_division :: "'f flt \<Rightarrow> nat \<Rightarrow> u32 \<Rightarrow> u32 \<Rightarrow> u32 \<Rightarrow> 'f dsp_eq \<Rightarrow> 'f dsp_eq" where
  "set_division F ch n f0 f1 e =
     \<lparr>divisionbandnum_set = (divisionbandnum_set e)[ch := int (unat n)],
      fc_division = (fc_division e)[ch := [of_uint F f0, of_uint F f1]],
      outsignalchannel_book24m3 = (outsignalchannel_book24m3 e)
        [ch := take (unat n) (outsignalchannel_book24m3 e ! ch) @ replicate (3 - unat n) (-1)],
      filter_calls = filter_calls e @ division_calls F ch n f0 f1\<rparr>"

lemma len2: "length xs = 2 \<Longrightarrow> \<exists>a b. xs = [a, b]"
  by (auto simp: numeral_2_eq_2 length_Suc_conv)

lemma len3: "length xs = 3 \<Longrightarrow> \<exists>a b c. xs = [a, b, c]"
  by (auto simp: numeral_3_eq_3 length_Suc_conv)

lemma setdivisionpointnum_eq:
  assumes s: "dsp_ok s" and ch: "unat ch < 16" and n: "n \<in> {1, 2, 3}"
    and q: "q = outputparam s ! unat (DSP23_OutputYtype s)"
  shows "sim_frequencydivision_setdivisionpointnum F ch n s =
     Inr (s\<lparr>eq := set_division F (unat ch) n (FreqDivVal q ! unat ch ! 1) (FreqDivVal q ! unat ch ! 2) (eq s)\<rparr>)"
proof -
  note d = dsp_ok_parts [OF s]
  have fd: "matrix_ok 30 3 (FreqDivVal q)" using d(10) [OF d(7)] by (simp add: out_ok_def q)
  have e: "length (divisionbandnum_set (eq s)) = 16" "matrix_ok 16 2 (fc_division (eq s))"
    "matrix_ok 16 3 (outsignalchannel_book24m3 (eq s))" using d(3) by (simp_all add: eq_ok_def)
  obtain x y where fc: "fc_division (eq s) ! unat ch = [x, y]" using len2 [OF matrix_nth [OF e(2) ch]] by blast
  obtain a b c where bk: "outsignalchannel_book24m3 (eq s) ! unat ch = [a, b, c]"
    using len3 [OF matrix_nth [OF e(3) ch]] by blast
  have l: "length (fc_division (eq s)) = 16" "length (outsignalchannel_book24m3 (eq s)) = 16"
    "length (FreqDivVal q) = 30" "length (FreqDivVal q ! unat ch) = 3"
    using e fd ch by (simp_all add: matrix_ok_def)
  have id: "(outsignalchannel_book24m3 (eq s))[unat ch := [a, b, c]] = outsignalchannel_book24m3 (eq s)"
    unfolding bk [symmetric] by (rule list_update_id)
  have rep: "replicate 2 x = [x, x]" for x :: int by (simp add: numeral_2_eq_2)
  have ch30: "unat ch < 30" using ch by simp
  note eval = id rep ch30 ch d(5,7) e(1) l fc bk q [symmetric] sim_frequencydivision_setdivisionpointnum_def put_at_def
    get_at_def put_at2_def get_at2_def set_division_def division_calls_def Let_def
  from n consider "n = 1" | "n = 2" | "n = 3" by auto
  then show ?thesis by cases (simp_all add: eval)
qed

definition fd_msg :: "u32 \<Rightarrow> u32 \<Rightarrow> u32 \<Rightarrow> CmdMsgStru" where
  "fd_msg row col v = \<lparr>op = 0, key = 15, mtype = row, param1 = col, param2 = drop_bit 8 v, param3 = take_bit 8 v\<rparr>"

lemma fd_fields:
  assumes "unat row < 32" "unat col < 32" "unat v < 65536"
  defines "w \<equiv> dsp_encode (fd_msg row col v)"
  shows "getinstructiongroup w = 15" "getinstructionindexingroup w = row" "getpara1_unsignedint w = col" "val16 w = v"
proof -
  have "unat (drop_bit 8 v) < 256" using assms(3) unfolding unat_drop_bit_eq by (simp add: drop_bit_nat_def)
  moreover have "unat (take_bit 8 v) < 256" using unat_take_bit_u32 [of 8 v] by simp
  ultimately have f: "dsp_decode w = fd_msg row col v"
    unfolding w_def using assms(1,2) by (intro dsp_decode_encode) (simp add: dsp_in_range_def fd_msg_def)
  then show "getinstructiongroup w = 15" "getinstructionindexingroup w = row" "getpara1_unsignedint w = col"
    by (simp_all add: dsp_decode_def fd_msg_def)
  have "getpara2_unsignedint w = drop_bit 8 v" "getpara3_unsignedint w = take_bit 8 v"
    using f by (simp_all add: dsp_decode_def fd_msg_def)
  then show "val16 w = v" by (simp add: val16_def bits_ident)
qed

text \<open>The state with a frequency point stored.\<close>

definition put_point :: "nat \<Rightarrow> nat \<Rightarrow> u32 \<Rightarrow> 'f dsp \<Rightarrow> 'f dsp" where
  "put_point ch j v s = (let y = unat (OutputYtype s); q = outputparam s ! y in
     s\<lparr>outputparam := (outputparam s)[y := q\<lparr>FreqDivVal :=
        (FreqDivVal q)[ch := (FreqDivVal q ! ch)[j := v]]\<rparr>]\<rparr>)"

definition points :: "nat \<Rightarrow> 'f dsp \<Rightarrow> u32 list" where
  "points ch s = FreqDivVal (outputparam s ! unat (OutputYtype s)) ! ch"

lemma put_point_ok:
  assumes "dsp_ok s" "ch < 30"
  shows "dsp_ok (put_point ch j v s)"
proof -
  let ?y = "unat (OutputYtype s)" and ?q = "outputparam s ! unat (OutputYtype s)"
  have q: "out_ok ?q" using dsp_ok_parts(6,10) [OF assms(1)] by simp
  have "matrix_ok 30 3 ((FreqDivVal ?q)[ch := (FreqDivVal ?q ! ch)[j := v]])"
    using q assms(2) matrix_nth [of 30 3 "FreqDivVal ?q" ch] by (simp add: out_ok_def matrix_update)
  with q have "out_ok (?q\<lparr>FreqDivVal := (FreqDivVal ?q)[ch := (FreqDivVal ?q ! ch)[j := v]]\<rparr>)"
    by (simp add: out_ok_def)
  with assms(1) show ?thesis
    using set_update_subset_insert [of "outputparam s" ?y] by (fastforce simp: dsp_ok_def put_point_def Let_def)
qed

lemma points_put:
  assumes "dsp_ok s" "ch < 30"
  shows "points ch (put_point ch j v s) = (points ch s)[j := v]"
proof -
  have "length (FreqDivVal (outputparam s ! unat (OutputYtype s))) = 30"
    using dsp_ok_parts(6,10) [OF assms(1)] by (simp add: out_ok_def matrix_ok_def)
  then show ?thesis
    using assms(2) dsp_ok_parts(5,6) [OF assms(1)] by (simp add: points_def put_point_def Let_def)
qed

lemma points_len: "\<lbrakk>dsp_ok s; ch < 30\<rbrakk> \<Longrightarrow> length (points ch s) = 3"
  using dsp_ok_parts(6,10) [of s] by (simp add: points_def out_ok_def matrix_ok_def)

lemma freq_div_eval:
  assumes s: "dsp_ok s" and row: "getinstructionindexingroup w \<noteq> 0" "getinstructionindexingroup w \<le> 16"
    and col: "getpara1_unsignedint w \<noteq> 0" "getpara1_unsignedint w \<le> 3"
  defines "r \<equiv> getinstructionindexingroup w - 1" and "j \<equiv> unat (getpara1_unsignedint w) - 1"
  defines "s1 \<equiv> put_point (unat r) j (val16 w) s"
  shows "instructiondecoder_FreqDiv_Set F w s =
    (let p = points (unat r) s1 in
     if freq_div_complete (p ! 0) (p ! 1) (p ! 2)
     then bindE (sim_frequencydivision_setdivisionpointnum F r (p ! 0) s1) (\<lambda>s. Inr (0, s)) else Inr (0, s1))"
proof -
  note d = dsp_ok_parts [OF s]
  let ?row = "getinstructionindexingroup w" and ?col = "getpara1_unsignedint w"
  have "unat ?row < 256" "unat ?col < 256" using para_bounds(2,3) [of w] by linarith+
  note ints = sint_below_256 [OF this(1)] sint_below_256 [OF this(2)]
  have "unat ?row \<le> 16" using row(2) by (simp add: word_le_nat_alt)
  then have nrow: "\<not> int MAXCAHNNELNUM < sint ?row" by (simp only: ints c_consts of_nat_less_iff)
  have "unat ?col \<le> 3" using col(2) by (simp add: word_le_nat_alt)
  then have ncol: "sint ?col \<le> 3" using of_nat_le_iff [of "unat ?col" 3, where 'a = int] unfolding ints by simp
  have r: "unat r < 16" unfolding r_def using row by (intro chan_less) auto
  have j: "unat (?col - 1) = j" "j < 3" unfolding j_def using col(1) \<open>unat ?col \<le> 3\<close>
    by (auto simp: unat_pred unat_gt_0 less_eq_Suc_le)
  have m: "matrix_ok 30 3 (FreqDivVal (outputparam s ! unat (OutputYtype s)))"
    using d(10) [OF d(6)] by (simp add: out_ok_def)
  have put: "upd_output (\<lambda>q. bindE (put_at2 ''FreqDivVal'' (FreqDivVal q) r (?col - 1) (val16 w))
      (\<lambda>m. Inr (q\<lparr>FreqDivVal := m\<rparr>))) s = Inr s1"
    using r j d(5,6) put_at2_ok [OF m, of r "?col - 1"]
    by (simp add: upd_output_def get_at_def put_at_def s1_def put_point_def Let_def)
  have s1: "dsp_ok s1" unfolding s1_def using r by (intro put_point_ok [OF s]) simp
  have m1: "matrix_ok 30 3 (FreqDivVal (outputparam s1 ! unat (OutputYtype s1)))"
    using dsp_ok_parts(6,10) [OF s1] by (simp add: out_ok_def)
  note get = get_at2_ok [OF m1, of r]
  show ?thesis
    using nrow ncol r dsp_ok_parts(5,6) [OF s1]
    by (simp add: instructiondecoder_FreqDiv_Set_def Let_def r_def [symmetric] put get get_at_ok points_def)
qed

lemma complete_bands: "freq_div_complete n f0 f1 \<Longrightarrow> n \<in> {1, 2, 3}"
  by (auto simp: freq_div_complete_def)

text \<open>One crossover command, with the two output types equal as they are at reset.\<close>

lemma fd_step:
  assumes s: "dsp_ok s" "DSP23_OutputYtype s = OutputYtype s"
    and u: "unat row = Suc ch" "unat col = Suc j" and ch: "ch < 16" and j: "j < 3" and v: "unat v < 65536"
  defines "s1 \<equiv> put_point ch j v s"
  shows "handle_spi_raw_data F (dsp_encode (fd_msg row col v)) s =
    (let p = points ch s1 in
     Inr (if freq_div_complete (p ! 0) (p ! 1) (p ! 2)
          then s1\<lparr>eq := set_division F ch (p ! 0) (p ! 1) (p ! 2) (eq s1)\<rparr> else s1))"
proof -
  let ?w = "dsp_encode (fd_msg row col v)"
  have "unat row < 32" "unat col < 32" using u ch j by simp_all
  note w = fd_fields [OF this v]
  have nz: "?w \<noteq> 0" using w(1) by (auto simp: getters_take_bit)
  have h: "select_handler ?w = Some (instructiondecoder_FreqDiv_Set :: 'a handler)"
    by (simp add: select_handler_def w Let_def decoder_row_def table_slots)
  have rc: "row \<noteq> 0" "row \<le> 16" "col \<noteq> 0" "col \<le> 3"
    using ch j u by (auto simp: word_le_nat_alt)
  have r1: "unat (row - 1) = ch" using u(1) unat_pred [OF rc(1)] by simp
  have s1: "dsp_ok s1" unfolding s1_def using ch by (intro put_point_ok [OF s(1)]) simp
  have y: "DSP23_OutputYtype s1 = OutputYtype s1" using s(2) by (simp add: s1_def put_point_def Let_def)
  have "unat (row - 1) < 16" using ch r1 by simp
  note sim = setdivisionpointnum_eq [OF s1 this complete_bands refl, unfolded y r1]
  have "instructiondecoder_FreqDiv_Set F ?w s = (let p = points ch s1 in
     if freq_div_complete (p ! 0) (p ! 1) (p ! 2)
     then bindE (sim_frequencydivision_setdivisionpointnum F (row - 1) (p ! 0) s1) (\<lambda>s. Inr (0, s)) else Inr (0, s1))"
    using freq_div_eval [OF s(1), of ?w F] rc unfolding w u r1 s1_def diff_Suc_1 by simp
  then show ?thesis
    by (simp add: raw_data_call [OF h _ nz] w sim points_def [symmetric] Let_def)
qed

lemma fd_first:
  assumes s: "dsp_ok s" "DSP23_OutputYtype s = OutputYtype s" and u: "unat row = Suc ch" and ch: "ch < 16"
  shows "\<exists>t. handle_spi_raw_data F (dsp_encode (fd_msg row 1 2)) s = Inr t \<and> dsp_ok t \<and>
    DSP23_OutputYtype t = OutputYtype t \<and> points ch t ! 0 = 2"
proof -
  let ?s1 = "put_point ch 0 2 s"
  have c30: "ch < 30" using ch by simp
  have p: "points ch ?s1 ! 0 = 2" using points_put [OF s(1) c30] points_len [OF s(1) c30] by simp
  have s1: "dsp_ok ?s1" by (rule put_point_ok [OF s(1) c30])
  have y: "DSP23_OutputYtype ?s1 = OutputYtype ?s1" using s(2) by (simp add: put_point_def Let_def)
  have e: "dsp_ok (?s1\<lparr>eq := set_division F ch 2 a b (eq ?s1)\<rparr>)" for a b
  proof -
    have "eq_ok (eq ?s1)" by (rule dsp_ok_parts [OF s1])
    then have "eq_ok (set_division F ch 2 a b (eq ?s1))"
      using ch matrix_nth [OF _ ch, of 3 "outsignalchannel_book24m3 (eq ?s1)"]
      by (simp add: eq_ok_def set_division_def matrix_update)
    with s1 show ?thesis by (simp add: dsp_ok_def)
  qed
  have "points ch (?s1\<lparr>eq := e'\<rparr>) = points ch ?s1" for e' by (simp add: points_def)
  then show ?thesis
    using fd_step [OF s u _ ch, of 1 0 2 F] p s1 y e by (simp add: Let_def)
qed

section \<open>Words with a zero index\<close>

lemma fault_words:
  "getinstructiontype 0x04A00000 = 0" "getinstructiongroup 0x04A00000 = 1"
  "getinstructionindexingroup 0x04A00000 = 5" "getpara1_unsignedint 0x04A00000 = 0"
  "getpara23_unsignedint 0x04A00000 = 0"
  "getinstructiontype 0x24C00000 = 0" "getinstructiongroup 0x24C00000 = 9"
  "getinstructionindexingroup 0x24C00000 = 6" "getpara1_unsignedint 0x24C00000 = 0"
  "getpara2_unsignedint 0x24C00000 = 0"
  "getinstructiontype 0x2501000A = 0" "getinstructiongroup 0x2501000A = 9"
  "getinstructionindexingroup 0x2501000A = 8" "getpara1_unsignedint 0x2501000A = 1"
  "getpara2_unsignedint 0x2501000A = 0" "getpara3_unsignedint 0x2501000A = 10"
  "sint (getpara3_signedint 0x2501000A) = 10"
  "getinstructiontype 0x00210000 = 0" "getinstructiongroup 0x00210000 = 0"
  "getinstructionindexingroup 0x00210000 = 1" "getpara1_unsignedint 0x00210000 = 1"
  "getinstructiongroup 0x3C200000 = 15" "getinstructionindexingroup 0x3C200000 = 1"
  "getpara1_unsignedint 0x3C200000 = 0" "val16 0x3C200000 = 0"
  by code_simp+

lemma unat_minus_one_u32: "unat (- 1 :: u32) = 4294967295"
  by (simp add: unsigned_minus_1_eq_mask mask_eq_exp_minus_1)

section \<open>Properties\<close>

text \<open>
  C6: a command that names a channel in range is executed without leaving an array, whatever the
  state, and keeps the invariant of the parameter state.
\<close>

theorem handle_spi_raw_data_safe:
  assumes "dsp_ok s" "safe_word w"
  shows "\<exists>s'. handle_spi_raw_data F w s = Inr s' \<and> dsp_ok s'"
  using raw_data_ok [OF assms] by (simp add: sumP_ex)

theorem handle_spi_raw_data_safe_witness:
  "\<exists>s'. handle_spi_raw_data real_flt 0x24410000 (dsp_reset real_flt) = Inr s' \<and> dsp_ok s'"
  by (rule handle_spi_raw_data_safe [OF dsp_reset_ok]) code_simp

text \<open>
  C5: in every state the DSP reaches from reset under interrupts, main loop passes and turns of the
  knob, with words that name channels in range, the parameter state is well formed, the volume is at
  most 96 and no event faults.
\<close>

theorem dsp_reach_invariant:
  assumes "dsp_reach F rs"
  shows "dsp_ok (snd rs) \<and> g_volume_count_value (gen (snd rs)) \<le> 96 \<and>
    (\<forall>e. safe_event e \<longrightarrow> (\<exists>rs'. dsp_event_step F e rs = Inr rs' \<and> dsp_reach F rs'))"
proof -
  have ok: "dsp_ok (snd rs)" by (rule dsp_reach_ok [OF assms])
  moreover have "\<exists>rs'. dsp_event_step F e rs = Inr rs' \<and> dsp_reach F rs'" if "safe_event e" for e
    using dsp_event_step_ok [OF ok that, of F] dsp_event [OF assms that] by (auto simp: sumP_ex)
  ultimately show ?thesis by (simp add: dsp_ok_def gen_ok_def)
qed

theorem dsp_reach_invariant_witness:
  "dsp_ok (dsp_reset real_flt) \<and> g_volume_count_value (gen (dsp_reset real_flt)) \<le> 96 \<and>
    (\<exists>rs'. dsp_event_step real_flt (RxWord 0x05003000) (rx_reset, dsp_reset real_flt) = Inr rs' \<and> dsp_reach real_flt rs')"
proof -
  have "safe_event (RxWord 0x05003000)" by code_simp
  then show ?thesis using dsp_reach_invariant [OF dsp_boot [of real_flt]] by auto
qed

text \<open>
  Delivery. When the main loop runs between two words and the receive register still holds the
  word it was interrupted for, the handlers see exactly the words that arrived, in order (the words
  0 and \<open>0xffffffff\<close>, an idle line, are dropped).
\<close>

theorem spi_words_delivered:
  "map_sum id snd (dsp_run F (concat (map (\<lambda>w. [RxWord w, MainLoop w]) ws)) (r, s)) =
     handle_words F (filter (\<lambda>w. w \<noteq> 0 \<and> w \<noteq> 0xffffffff) ws) s"
  by (rule run_delivers)

text \<open>The receiver holds one word: of two that arrive before the main loop runs the first is lost.\<close>

lemma spi_overrun_loses_word:
  "dsp_run F (RxWord v # RxWord w # es) rs = dsp_run F (RxWord w # es) rs"
  by (simp add: dsp_event_step_def SPIH_ISR_def)

text \<open>
  The start-up handshake. A word sets \<open>g_init_done\<close> exactly when it is the end mark
  \<open>0x34000000\<close>; no command clears it.
\<close>

theorem init_done_iff_end_mark:
  assumes "handle_words F ws s = Inr s'"
  shows "g_init_done s' = (if 0x34000000 \<in> set ws then 1 else g_init_done s)"
  by (rule handle_words_init [OF assms])

theorem init_done_iff_end_mark_witness:
  "\<exists>s'. handle_words real_flt [0x34000000] (dsp_reset real_flt) = Inr s' \<and> g_init_done s' = 1"
proof -
  have mark: "list_all safe_word [0x34000000]" by code_simp
  obtain s' where s': "handle_words real_flt [0x34000000] (dsp_reset real_flt) = Inr s'"
    using handle_words_safe [OF dsp_reset_ok mark] unfolding sumP_ex by blast
  show ?thesis using init_done_iff_end_mark [OF s'] s' by simp
qed

text \<open>
  A refused command (a handler that returns a code other than 0) changes nothing, with one
  exception: group 9 to 12, index 3, where only \<open>outputparam\<close> may differ.
\<close>

theorem refused_command_keeps_state:
  assumes "select_handler w = Some h" "h F w s = Inr (r, s')" "r \<noteq> 0"
  shows "s' = s \<or> h = instructiondecoder_Output_TimeDelay_Set \<and> s' = s\<lparr>outputparam := outputparam s'\<rparr>"
  using select_handler_mem [OF assms(1)] refusals_clean assms(2,3) delay_refusal
  unfolding refuses_cleanly_def by metis

lemma delay_refused_but_stored:
  "instructiondecoder_Output_TimeDelay_Set real_flt (dsp_encode \<lparr>op = 0, key = 9, mtype = 3, param1 = 1, param2 = 200, param3 = 0\<rparr>)
     ((dsp_reset real_flt)\<lparr>inputparam := replicate 8 (zero_input\<lparr>SamplingRate := 48000\<rparr>)\<rparr>)
   = Inr (1, (dsp_reset real_flt)\<lparr>inputparam := replicate 8 (zero_input\<lparr>SamplingRate := 48000\<rparr>),
       outputparam := (replicate 5 (zero_output real_flt))
         [0 := (zero_output real_flt)\<lparr>OutDelay := (OutDelay (zero_output real_flt))[0 := 200]\<rparr>]\<rparr>)"
proof -
  let ?w = "dsp_encode \<lparr>op = 0, key = 9, mtype = 3, param1 = 1, param2 = 200, param3 = 0\<rparr>"
  have w: "getinstructiontype ?w = 0" "getpara1_unsignedint ?w = 1" "getpara2_unsignedint ?w = 200"
    "getpara3_unsignedint ?w = 0" by code_simp+
  show ?thesis
    by (simp add: instructiondecoder_Output_TimeDelay_Set_def w Let_def upd_output_def get_at_def put_at_def
        dsp_reset_def zero_output_def zero_input_def real_flt_def c_consts)
qed

theorem refused_command_keeps_state_witness:
  "\<exists>s'. instructiondecoder_KnobVolume_Set real_flt (dsp_encode (knob_msg 97)) (dsp_reset real_flt) = Inr (1, s') \<and>
     (s' = dsp_reset real_flt \<or>
      (instructiondecoder_KnobVolume_Set :: real handler) = instructiondecoder_Output_TimeDelay_Set \<and>
      s' = (dsp_reset real_flt)\<lparr>outputparam := outputparam s'\<rparr>)"
proof -
  let ?w = "dsp_encode (knob_msg 97)"
  have w: "getinstructiontype ?w = 0" "getinstructiongroup ?w = 1" "getinstructionindexingroup ?w = 8"
    "getpara2_unsignedint ?w = 97" by code_simp+
  have h: "select_handler ?w = Some (instructiondecoder_KnobVolume_Set :: real handler)"
    by (subst select_slot [OF w(2,3)]) (simp_all add: decoder_row_def table_slots)
  have r: "instructiondecoder_KnobVolume_Set real_flt ?w (dsp_reset real_flt) = Inr (1, dsp_reset real_flt)"
    by (simp add: instructiondecoder_KnobVolume_Set_def w)
  show ?thesis using r refused_command_keeps_state [OF h r] by simp
qed

text \<open>
  The volume knob. A turn changes the volume by one step within 0 to 96; the word the DSP
  reports to the STM32 is the command \<open>KnobVolume\<close> with the new volume, and executing that
  command, when it is sent back, sets the same volume.
\<close>

theorem knob_volume_round_trip:
  assumes "dsp_ok s"
  shows "\<exists>v s' t'. knobvolume_SIGIRQ2 F flg2_low flg3_low s = (s', dsp_encode (knob_msg v)) \<and>
    unat v = knob_next flg2_low flg3_low (unat (g_volume_count_value (gen s))) \<and>
    g_volume_count_value (gen s') = v \<and> dsp_decode (dsp_encode (knob_msg v)) = knob_msg v \<and>
    handle_spi_raw_data F (dsp_encode (knob_msg v)) t = Inr t' \<and> g_volume_count_value (gen t') = v"
proof -
  obtain v s' where "knobvolume_SIGIRQ2 F flg2_low flg3_low s = (s', dsp_encode (knob_msg v))" and v: "unat v \<le> 96"
    and "unat v = knob_next flg2_low flg3_low (unat (g_volume_count_value (gen s)))"
    and "g_volume_count_value (gen s') = v"
    by (rule knob_report [OF assms])
  moreover have "\<exists>t'. handle_spi_raw_data F (dsp_encode (knob_msg v)) t = Inr t' \<and> g_volume_count_value (gen t') = v"
    unfolding knob_command [OF v] by simp
  ultimately show ?thesis using knob_msg_fields [OF v] by blast
qed

theorem knob_volume_round_trip_witness:
  "\<exists>v s' t'. knobvolume_SIGIRQ2 real_flt True True (dsp_reset real_flt) = (s', dsp_encode (knob_msg v)) \<and>
    unat v = knob_next True True (unat (g_volume_count_value (gen (dsp_reset real_flt)))) \<and>
    g_volume_count_value (gen s') = v \<and> dsp_decode (dsp_encode (knob_msg v)) = knob_msg v \<and>
    handle_spi_raw_data real_flt (dsp_encode (knob_msg v)) (dsp_reset real_flt) = Inr t' \<and>
    g_volume_count_value (gen t') = v"
  by (rule knob_volume_round_trip [OF dsp_reset_ok])

text \<open>
  The two ways to set the volume differ in the gain, computed without rounding: the knob takes
  96 as full volume and the command 90, so that sending the knob's own report back to the DSP
  multiplies its gain by ten to the 6/20 (6 dB).
\<close>

theorem knob_gain_after_echo:
  assumes "dsp_ok s" "knobvolume_SIGIRQ2 real_flt flg2_low flg3_low s = (s', w)"
  shows "\<exists>t. handle_spi_raw_data real_flt w s' = Inr t \<and>
    knobvolumegainvalue (gen t) = knobvolumegainvalue (gen s') * 10 powr (6 / 20)"
proof -
  obtain v s1 where r: "knobvolume_SIGIRQ2 real_flt flg2_low flg3_low s = (s1, dsp_encode (knob_msg v))"
    and v: "unat v \<le> 96" and g: "knobvolumegainvalue (gen s1) = powf real_flt (lit real_flt 100 (-1))
       (fdiv real_flt (fsub real_flt (fmul real_flt (lit real_flt 10 (-1)) (of_sint real_flt (sint v)))
         (of_uint real_flt USE_VOLUME_STEP)) (of_sint real_flt 20))"
    by (rule knob_report [OF assms(1)])
  have [simp]: "s1 = s'" "w = dsp_encode (knob_msg v)" using r assms(2) by simp_all
  have sv: "sint v = int (unat v)" using v by (intro sint_below_256) simp
  have e: "(x - 90) / 20 = (x - 96) / 20 + 6 / 20" for x :: real by (simp add: field_simps)
  have "knobvolumegainvalue (gen s') = 10 powr ((real (unat v) - 96) / 20)"
    using g unfolding sv by (simp add: real_flt_def c_consts)
  moreover have "\<exists>t. handle_spi_raw_data real_flt w s' = Inr t \<and>
      knobvolumegainvalue (gen t) = 10 powr ((real (unat v) - 90) / 20)"
    by (simp add: knob_command [OF v] real_flt_def)
  ultimately show ?thesis unfolding e powr_add by simp
qed

theorem knob_gain_after_echo_witness:
  "\<exists>t. handle_spi_raw_data real_flt (snd (knobvolume_SIGIRQ2 real_flt True True (dsp_reset real_flt)))
      (fst (knobvolume_SIGIRQ2 real_flt True True (dsp_reset real_flt))) = Inr t \<and>
    knobvolumegainvalue (gen t) =
      knobvolumegainvalue (gen (fst (knobvolume_SIGIRQ2 real_flt True True (dsp_reset real_flt)))) * 10 powr (6 / 20)"
  by (rule knob_gain_after_echo [OF dsp_reset_ok prod.collapse [symmetric]])

text \<open>
  Standby. The first \<open>SystemState 2\<close> saves the selected input and selects input 6; leaving
  standby selects the saved input again. Repeated, the command saves input 6 over it, so the user's
  input is restored exactly when standby was commanded once.
\<close>

theorem standby_restores_input:
  assumes "unat x \<in> {1, 3}"
  shows "\<exists>s'. handle_words F (replicate (Suc k) (dsp_encode (sys_msg 2)) @ [dsp_encode (sys_msg x)]) s = Inr s' \<and>
    SystemState (aux s') = x \<and> InputXtype (gen s') = (if k = 0 then InputXtype (gen s) else 6)"
proof -
  have x: "unat x \<in> {1, 2, 3}" "x \<noteq> 2" using assms by auto
  obtain s1 where s1: "handle_words F (replicate (Suc k) (dsp_encode (sys_msg 2))) s = Inr s1"
    "LastInputXtype (gen s1) = (if k = 0 then InputXtype (gen s) else 6)"
    using standby_repeated [of F k s] by blast
  show ?thesis unfolding handle_words_append s1(1) using s1(2) x by (simp add: sys_command)
qed

theorem standby_restores_input_witness:
  "\<exists>s'. handle_words real_flt (replicate (Suc 0) (dsp_encode (sys_msg 2)) @ [dsp_encode (sys_msg 1)])
      (upd_gen (\<lambda>g. g\<lparr>InputXtype := 3\<rparr>) (dsp_reset real_flt)) = Inr s' \<and>
    SystemState (aux s') = 1 \<and> InputXtype (gen s') = 3"
  using standby_restores_input [of 1 real_flt 0 "upd_gen (\<lambda>g. g\<lparr>InputXtype := 3\<rparr>) (dsp_reset real_flt)"]
  by simp

text \<open>
  \<open>EQBandGain\<close> with band 0 and gain 0 flattens a channel: the first 31 gains are 0 and their
  factors 1; the two spare bands, the other channels and everything else are as before.
\<close>

theorem eq_flatten:
  assumes "dsp_ok s" "getinstructiontype w = 0" "1 \<le> getpara1_unsignedint w" "getpara1_unsignedint w \<le> 30"
    "getpara2_unsignedint w = 0" "getpara3_unsignedint w = 0"
  shows "instructiondecoder_Output_EQBandGain_Set F w s =
    (let y = unat (OutputYtype s); q = outputparam s ! y; ch = unat (getpara1_unsignedint w) - 1
     in Inr (0, s\<lparr>outputparam := (outputparam s)[y := q\<lparr>
          EQBandGain := (EQBandGain q)[ch := replicate 31 (of_sint F 0) @ drop 31 (EQBandGain q ! ch)],
          EQBandGain_Val := (EQBandGain_Val q)[ch := replicate 31 (of_sint F 1) @ drop 31 (EQBandGain_Val q ! ch)]\<rparr>]\<rparr>))"
proof -
  note d = dsp_ok_parts [OF assms(1)]
  have p: "getpara1_unsignedint w \<noteq> 0" using assms(3) by auto
  have ch: "unat (getpara1_unsignedint w - 1) < 30" using p assms(4) by (intro chan_less) auto
  have u: "unat (getpara1_unsignedint w - 1) = unat (getpara1_unsignedint w) - 1" by (rule unat_pred [OF p])
  have s3: "sint (getpara3_signedint w) = 0" using assms(6) by (simp add: getpara_signed)
  note cb = clear_bands_eq [OF d(10) [OF d(6)] ch, of 0 31 F]
  show ?thesis
    using assms(2,4,5,6) d(5,6) s3 cb
    by (simp add: instructiondecoder_Output_EQBandGain_Set_def Let_def upd_output_def get_at_def put_at_def
        set_row_def u not_less)
qed

theorem eq_flatten_witness:
  "\<exists>s'. instructiondecoder_Output_EQBandGain_Set real_flt 0x25010000 (dsp_reset real_flt) = Inr (0, s') \<and>
     take 31 (EQBandGain_Val (outputparam s' ! 0) ! 0) = replicate 31 1"
proof -
  have p1: "getpara1_unsignedint 0x25010000 = 1" by code_simp
  have w: "getinstructiontype 0x25010000 = 0" "getpara2_unsignedint 0x25010000 = 0"
    "getpara3_unsignedint 0x25010000 = 0" by code_simp+
  show ?thesis
    using eq_flatten [OF dsp_reset_ok [of real_flt], of "0x25010000" real_flt] p1 w
    by (simp add: Let_def dsp_reset_def zero_output_def real_flt_def)
qed

text \<open>
  Two crossover commands, the number of bands 2 and the frequency \<open>f\<close>, divide a channel at
  \<open>f\<close> whatever was set before: the channel has two bands, its first division frequency is \<open>f\<close>, its
  third output is unassigned, and the last filters recomputed are the low pass of band 0 and the
  high pass of band 1, both at \<open>f\<close>.
\<close>

theorem two_way_crossover:
  assumes s: "dsp_ok s" "DSP23_OutputYtype s = OutputYtype s" and row: "1 \<le> unat row" "unat row \<le> 16"
    and f: "20 \<le> f" "f \<le> 20000"
  shows "\<exists>s' c. handle_words F [dsp_encode (fd_msg row 1 2), dsp_encode (fd_msg row 2 f)] s = Inr s' \<and>
    divisionbandnum_set (eq s') ! (unat row - 1) = 2 \<and>
    fc_division (eq s') ! (unat row - 1) ! 0 = of_uint F f \<and>
    outsignalchannel_book24m3 (eq s') ! (unat row - 1) ! 2 = -1 \<and>
    filter_calls (eq s') = c @ [DivLPF (3 * (unat row - 1)) 0 (of_uint F f),
                                DivHPF (3 * (unat row - 1) + 1) 0 (of_uint F f)]"
proof -
  define ch where "ch = unat row - 1"
  have ch: "ch < 16" "ch < 30" and u: "unat row = Suc ch" using row by (simp_all add: ch_def)
  have f16: "unat f < 65536" using f(2) by (simp add: word_le_nat_alt)
  obtain t where t: "handle_spi_raw_data F (dsp_encode (fd_msg row 1 2)) s = Inr t" "dsp_ok t"
    "DSP23_OutputYtype t = OutputYtype t" "points ch t ! 0 = 2"
    using fd_first [OF s u ch(1), of F] by blast
  have pl: "length (points ch t) = 3" by (rule points_len [OF t(2) ch(2)])
  define t1 where "t1 = put_point ch 1 f t"
  have p: "points ch t1 = (points ch t)[1 := f]" unfolding t1_def by (rule points_put [OF t(2) ch(2)])
  then have "freq_div_complete (points ch t1 ! 0) (points ch t1 ! 1) (points ch t1 ! 2)"
    using f t(4) pl by (simp add: freq_div_complete_def)
  then have fin: "handle_spi_raw_data F (dsp_encode (fd_msg row 2 f)) t =
      Inr (t1\<lparr>eq := set_division F ch 2 f (points ch t ! 2) (eq t1)\<rparr>)"
    using fd_step [OF t(2,3) u _ ch(1), of 2 1 f F] f16 p pl t(4) unfolding t1_def [symmetric]
    by (simp add: Let_def)
  have "dsp_ok t1" unfolding t1_def by (rule put_point_ok [OF t(2) ch(2)])
  then have "eq_ok (eq t1)" by (rule dsp_ok_parts)
  then have len: "length (divisionbandnum_set (eq t1)) = 16" "length (fc_division (eq t1)) = 16"
    "length (outsignalchannel_book24m3 (eq t1)) = 16" "length (outsignalchannel_book24m3 (eq t1) ! ch) = 3"
    using ch by (simp_all add: eq_ok_def matrix_ok_def)
  show ?thesis
    using ch len unfolding handle_words.simps t(1) bindE_simps fin ch_def [symmetric]
    by (simp add: set_division_def division_calls_def nth_append)
qed

theorem two_way_crossover_witness:
  "\<exists>s' c. handle_words real_flt [dsp_encode (fd_msg 1 1 2), dsp_encode (fd_msg 1 2 300)] (dsp_reset real_flt) = Inr s' \<and>
    divisionbandnum_set (eq s') ! 0 = 2 \<and> fc_division (eq s') ! 0 ! 0 = 300 \<and>
    outsignalchannel_book24m3 (eq s') ! 0 ! 2 = -1 \<and>
    filter_calls (eq s') = c @ [DivLPF 0 0 300, DivHPF 1 0 300]"
proof -
  have "DSP23_OutputYtype (dsp_reset real_flt) = OutputYtype (dsp_reset real_flt)" by (simp add: dsp_reset_def)
  from two_way_crossover [OF dsp_reset_ok this, of 1 300 real_flt] show ?thesis by (simp add: real_flt_def)
qed

text \<open>
  C28: channel numbers count from 1 and zero is not rejected. In every state these commands, which
  the protocol lets through, address an array at -1: speaker position of channel 0, filter slope
  of channel 0, a gain for band 0, the sampling rate of input group 0 and column 0 of a crossover.
\<close>

theorem index_zero_faults:
  assumes "dsp_ok s"
  shows "handle_spi_raw_data F 0x04A00000 s = Inl (OutOfBounds ''SpeakerX'') \<and>
    handle_spi_raw_data F 0x24C00000 s = Inl (OutOfBounds ''HighCutSlope'') \<and>
    handle_spi_raw_data F 0x2501000A s = Inl (OutOfBounds ''EQBandGain'') \<and>
    handle_spi_raw_data F 0x00210000 s = Inl (OutOfBounds ''inputparam'') \<and>
    handle_spi_raw_data F 0x3C200000 s = Inl (OutOfBounds ''FreqDivVal'')"
proof -
  note d = dsp_ok_parts [OF assms]
  have q: "out_ok (outputparam s ! unat (OutputYtype s))" using d(6,10) by simp
  have "select_handler 0x04A00000 = Some (instructiondecoder_SpeakerX_Set :: 'a handler)"
    "select_handler 0x24C00000 = Some (instructiondecoder_Output_HighCutSlope_Set :: 'a handler)"
    "select_handler 0x2501000A = Some (instructiondecoder_Output_EQBandGain_Set :: 'a handler)"
    "select_handler 0x00210000 = Some (instructiondecoder_Input_SamplingRate_Set :: 'a handler)"
    "select_handler 0x3C200000 = Some (instructiondecoder_FreqDiv_Set :: 'a handler)"
    by (simp_all add: select_handler_def fault_words Let_def decoder_row_def instructiondecoder_def pad17_def)
  note raw = this [THEN raw_data_call, simplified fault_words, simplified]
  have "handle_spi_raw_data F 0x04A00000 s = Inl (OutOfBounds ''SpeakerX'')"
    using d(1) by (simp add: raw unat_minus_one_u32 instructiondecoder_SpeakerX_Set_def fault_words put_at_def gen_ok_def)
  moreover have "handle_spi_raw_data F 0x24C00000 s = Inl (OutOfBounds ''HighCutSlope'')"
    using d(5,6) q by (simp add: raw unat_minus_one_u32 instructiondecoder_Output_HighCutSlope_Set_def fault_words upd_output_def
        get_at_def put_at_def out_ok_def)
  moreover have "handle_spi_raw_data F 0x2501000A s = Inl (OutOfBounds ''EQBandGain'')"
    using d(5,6) q by (simp add: raw unat_minus_one_u32 instructiondecoder_Output_EQBandGain_Set_def fault_words upd_output_def
        get_at_def put_at_def put_at2_def out_ok_def matrix_ok_def Let_def)
  moreover have "handle_spi_raw_data F 0x00210000 s = Inl (OutOfBounds ''inputparam'')"
    using d(4) by (simp add: raw unat_minus_one_u32 instructiondecoder_Input_SamplingRate_Set_def fault_words upd_input_def
        get_at_def Let_def)
  moreover have "handle_spi_raw_data F 0x3C200000 s = Inl (OutOfBounds ''FreqDivVal'')"
    using d(5,6) q by (simp add: raw unat_minus_one_u32 instructiondecoder_FreqDiv_Set_def fault_words upd_output_def c_consts
        get_at_def put_at_def put_at2_def out_ok_def matrix_ok_def Let_def)
  ultimately show ?thesis by blast
qed

theorem index_zero_faults_witness:
  "handle_spi_raw_data real_flt 0x04A00000 (dsp_reset real_flt) = Inl (OutOfBounds ''SpeakerX'')"
  using index_zero_faults [OF dsp_reset_ok] by blast

end
