(* ===== verification/Filter_Bank.thy ===== *)
theory Filter_Bank
  imports Equalizer Dsp_Behaviour
begin

text \<open>
  The coefficient and state memory of the filters of \<open>EQ.c\<close>, the functions that fill it from the constants or from
  the parameters, and the filters applied to blocks of samples.
\<close>

section \<open>Memory\<close>

definition Band_count_GEQ :: nat where [c_consts]: "Band_count_GEQ = 31"
definition MAX_FREQUNCYDIVISION_BANDNUM :: nat where [c_consts]: "MAX_FREQUNCYDIVISION_BANDNUM = 3"
definition OUTPUT_CHANNELS :: nat where [c_consts]: "OUTPUT_CHANNELS = 14"
definition CHANNEL_OUTPUT_NUMBER :: nat where [c_consts]: "CHANNEL_OUTPUT_NUMBER = 14"

record 'f eq_mem =
  filter_cf_frequencydivion :: "'f list list"
  filter_state_frequencydivion :: "'f list list"
  fc_EQ_GEQ :: "'f list"
  gain_EQ_GEQ :: "'f list"
  q_EQ_GEQ :: "'f list"
  filter_cf_31b :: "'f list list"
  filter_state_31b :: "'f list list"
  filter_state_HPF :: "'f list list"
  filter_cf_HPF :: "'f list list"
  filter_state_LPF :: "'f list list"
  filter_cf_LPF :: "'f list list"
  filter_state_HPF_dl :: "'f list list"
  filter_cf_HPF_dl :: "'f list list"

definition eq_mem_reset :: "('f, 'z) dspflt_scheme \<Rightarrow> 'f eq_mem" where
  "eq_mem_reset F = (let z = lit F 0 0; five = replicate 24 (replicate 5 z); geq = replicate 24 (replicate 155 z) in
     \<lparr>filter_cf_frequencydivion = replicate 72 (replicate 10 z), filter_state_frequencydivion = replicate 72 (replicate 5 z),
      fc_EQ_GEQ = replicate 31 z, gain_EQ_GEQ = replicate 31 z, q_EQ_GEQ = replicate 31 z,
      filter_cf_31b = geq, filter_state_31b = geq, filter_state_HPF = five, filter_cf_HPF = five,
      filter_state_LPF = five, filter_cf_LPF = five, filter_state_HPF_dl = five, filter_cf_HPF_dl = five\<rparr>)"

definition eq_mem_ok :: "'f eq_mem \<Rightarrow> bool" where
  "eq_mem_ok m \<longleftrightarrow> matrix_ok 72 10 (filter_cf_frequencydivion m) \<and> matrix_ok 72 5 (filter_state_frequencydivion m) \<and>
     length (fc_EQ_GEQ m) = 31 \<and> length (gain_EQ_GEQ m) = 31 \<and> length (q_EQ_GEQ m) = 31 \<and>
     matrix_ok 24 155 (filter_cf_31b m) \<and> matrix_ok 24 155 (filter_state_31b m) \<and>
     matrix_ok 24 5 (filter_state_HPF m) \<and> matrix_ok 24 5 (filter_cf_HPF m) \<and>
     matrix_ok 24 5 (filter_state_LPF m) \<and> matrix_ok 24 5 (filter_cf_LPF m) \<and>
     matrix_ok 24 5 (filter_state_HPF_dl m) \<and> matrix_ok 24 5 (filter_cf_HPF_dl m)"

definition fc_HPF :: "('f, 'z) dspflt_scheme \<Rightarrow> 'f" where "fc_HPF F = lit F 120 0"
definition fc_LFE_HPF :: "('f, 'z) dspflt_scheme \<Rightarrow> 'f" where "fc_LFE_HPF F = lit F 20 0"
definition fc_LPF :: "('f, 'z) dspflt_scheme \<Rightarrow> 'f" where "fc_LPF F = lit F 20000 0"

definition GEQ31band_fc :: "('f, 'z) dspflt_scheme \<Rightarrow> 'f list" where
  "GEQ31band_fc F = [lit F 20 0, lit F 25 0, lit F 315 (-1), lit F 40 0, lit F 50 0, lit F 63 0, lit F 80 0, lit F 100 0,
     lit F 125 0, lit F 160 0, lit F 200 0, lit F 250 0, lit F 315 0, lit F 400 0, lit F 500 0, lit F 630 0, lit F 800 0,
     lit F 1000 0, lit F 1250 0, lit F 1600 0, lit F 2000 0, lit F 2500 0, lit F 3150 0, lit F 4000 0, lit F 5000 0,
     lit F 6300 0, lit F 8000 0, lit F 10000 0, lit F 12500 0, lit F 16000 0, lit F 20000 0]"

definition GEQ31band_gain :: "('f, 'z) dspflt_scheme \<Rightarrow> 'f list" where
  "GEQ31band_gain F = replicate 31 (lit F 0 0)"

definition GEQ31band_q :: "('f, 'z) dspflt_scheme \<Rightarrow> 'f list" where
  "GEQ31band_q F = lit F 1414 (-3) # replicate 29 (lit F 4318473 (-6)) @ [lit F 1414 (-3)]"

definition zero_filterstate :: "('f, 'z) dspflt_scheme \<Rightarrow> 'f eq_mem \<Rightarrow> 'f eq_mem" where
  "zero_filterstate F m = (let z = lit F 0 0; five = replicate 24 (replicate 5 z) in
     m\<lparr>filter_state_31b := replicate 24 (replicate 155 z), filter_state_HPF := five, filter_state_LPF := five,
       filter_state_HPF_dl := five\<rparr>)"

section \<open>Filling the coefficients\<close>

fun foldE :: "('a \<Rightarrow> 's \<Rightarrow> 'e + 's) \<Rightarrow> 'a list \<Rightarrow> 's \<Rightarrow> 'e + 's" where
  "foldE f [] s = Inr s"
| "foldE f (x # xs) s = bindE (f x s) (foldE f xs)"

definition put_HPF_dl :: "('f, 'z) dspflt_scheme \<Rightarrow> int \<Rightarrow> 'f \<Rightarrow> 'f eq_mem \<Rightarrow> fault + 'f eq_mem" where
  "put_HPF_dl F i f m = bindE (put_cf ''filter_cf_HPF_dl'' (filter_cf_HPF_dl m) i 0 (set_EQ_HPF_dl F f))
     (\<lambda>c. Inr (m\<lparr>filter_cf_HPF_dl := c\<rparr>))"

definition put_LPF :: "('f, 'z) dspflt_scheme \<Rightarrow> int \<Rightarrow> 'f \<Rightarrow> 'f eq_mem \<Rightarrow> fault + 'f eq_mem" where
  "put_LPF F i f m = bindE (put_cf ''filter_cf_LPF'' (filter_cf_LPF m) i 0 (set_EQ_LPF F f))
     (\<lambda>c. Inr (m\<lparr>filter_cf_LPF := c\<rparr>))"

definition put_div :: "int \<Rightarrow> nat \<Rightarrow> 'f list \<Rightarrow> 'f eq_mem \<Rightarrow> fault + 'f eq_mem" where
  "put_div i off cs m = bindE (put_cf ''filter_cf_frequencydivion'' (filter_cf_frequencydivion m) i off cs)
     (\<lambda>c. Inr (m\<lparr>filter_cf_frequencydivion := c\<rparr>))"

text \<open>
  The block that the code repeats for every band: copy the constants of band \<open>b\<close> (counted from 1) and
  compute its section for channel \<open>ch\<close> with one of the three designs.
\<close>

definition set_band :: "('f, 'z) dspflt_scheme \<Rightarrow> ('f \<Rightarrow> 'f \<Rightarrow> 'f \<Rightarrow> 'f list) \<Rightarrow> nat \<Rightarrow> int \<Rightarrow> 'f \<Rightarrow>
    'f eq_mem \<Rightarrow> fault + 'f eq_mem" where
  "set_band F design b ch gain m =
     (let m = m\<lparr>fc_EQ_GEQ := (fc_EQ_GEQ m)[b - 1 := GEQ31band_fc F ! (b - 1)],
                gain_EQ_GEQ := (gain_EQ_GEQ m)[b - 1 := GEQ31band_gain F ! (b - 1)],
                q_EQ_GEQ := (q_EQ_GEQ m)[b - 1 := GEQ31band_q F ! (b - 1)]\<rparr>
      in bindE (put_cf ''filter_cf_31b'' (filter_cf_31b m) ch ((b - 1) * 5)
                 (design (fc_EQ_GEQ m ! (b - 1)) gain (q_EQ_GEQ m ! (b - 1))))
           (\<lambda>c. Inr (m\<lparr>filter_cf_31b := c\<rparr>)))"

definition sim_31band_channel :: "('f, 'z) dspflt_scheme \<Rightarrow> nat \<Rightarrow> 'f eq_mem \<Rightarrow> fault + 'f eq_mem" where
  "sim_31band_channel F ch m =
     bindE (put_HPF_dl F (int ch) (fc_HPF F) m) (\<lambda>m.
     bindE (put_LPF F (int ch) (fc_LPF F) m) (\<lambda>m.
     bindE (if ch = 3 then bindE (put_LPF F (int ch) (fc_HPF F) m) (put_HPF_dl F (int ch) (fc_LFE_HPF F))
            else Inr m) (\<lambda>m.
     bindE (set_band F (set_EQ_Low_Shelf F) 1 (int ch) (GEQ31band_gain F ! (1 - 1)) m) (\<lambda>m.
     bindE (foldE (\<lambda>b. set_band F (set_EQ_Peak F) b (int ch) (GEQ31band_gain F ! (b - 1))) [2..<31] m) (\<lambda>m.
       set_band F (set_EQ_High_Shelf F) 31 (int ch) (GEQ31band_gain F ! (31 - 1)) m)))))"

definition sim_31band_EQ :: "('f, 'z) dspflt_scheme \<Rightarrow> 'f eq_mem \<Rightarrow> fault + 'f eq_mem" where
  "sim_31band_EQ F = foldE (sim_31band_channel F) [0..<24]"

text \<open>The gain of a band of a channel: its own and that of all channels (row 29).\<close>

definition eq_gain :: "('f, 'z) dspflt_scheme \<Rightarrow> 'f dsp \<Rightarrow> nat \<Rightarrow> nat \<Rightarrow> fault + 'f" where
  "eq_gain F d ch b =
     bindE (get_at ''outputparam'' (outputparam d) (DSP23_OutputYtype d)) (\<lambda>q.
     bindE (get_at2 ''EQBandGain'' (EQBandGain q) (of_nat ch) (of_nat (b - 1))) (\<lambda>x.
     bindE (get_at2 ''EQBandGain'' (EQBandGain q) 29 (of_nat (b - 1))) (\<lambda>y. Inr (fadd F x y))))"

definition param_channel :: "('f, 'z) dspflt_scheme \<Rightarrow> 'f dsp \<Rightarrow> nat \<Rightarrow> 'f eq_mem \<Rightarrow> fault + 'f eq_mem" where
  "param_channel F d ch m =
     bindE (eq_gain F d ch 1) (\<lambda>g.
     bindE (get_at ''outputparam'' (outputparam d) (OutputYtype d)) (\<lambda>q.
     bindE (get_at ''LowCutFreq'' (LowCutFreq q) (of_nat ch)) (\<lambda>lo.
     bindE (put_HPF_dl F (int ch) lo m) (\<lambda>m.
     bindE (get_at ''HighCutFreq'' (HighCutFreq q) (of_nat ch)) (\<lambda>hi.
     bindE (put_LPF F (int ch) hi m) (\<lambda>m.
     bindE (set_band F (set_EQ_Low_Shelf F) 1 (int ch) g m) (\<lambda>m.
     bindE (foldE (\<lambda>b m. bindE (eq_gain F d ch b) (\<lambda>g. set_band F (set_EQ_Peak F) b (int ch) g m)) [2..<31] m) (\<lambda>m.
     bindE (eq_gain F d ch 31) (\<lambda>g.
       set_band F (set_EQ_High_Shelf F) 31 (int ch) g m)))))))))"

definition sim_31band_EQ_outputparamset :: "('f, 'z) dspflt_scheme \<Rightarrow> 'f dsp \<Rightarrow> 'f eq_mem \<Rightarrow> fault + 'f eq_mem" where
  "sim_31band_EQ_outputparamset F d = foldE (param_channel F d) [0..<CHANNEL_OUTPUT_NUMBER]"

definition sim_31band_EQ_setgaintofilters ::
    "('f, 'z) dspflt_scheme \<Rightarrow> int \<Rightarrow> int \<Rightarrow> 'f \<Rightarrow> 'f eq_mem \<Rightarrow> fault + 'f eq_mem" where
  "sim_31band_EQ_setgaintofilters F b ch gain m =
     bindE (if b = 1 then set_band F (set_EQ_Low_Shelf F) (nat b) ch gain m else Inr m) (\<lambda>m.
     bindE (if 1 < b \<and> b < int Band_count_GEQ then set_band F (set_EQ_Peak F) (nat b) ch gain m else Inr m) (\<lambda>m.
       if b = int Band_count_GEQ then set_band F (set_EQ_High_Shelf F) (nat b) ch gain m else Inr m))"

text \<open>The filters that \<open>SPI\<close> commands ask for; the command handlers record these calls.\<close>

fun filter_call_run :: "('f, 'z) dspflt_scheme \<Rightarrow> 'f filter_call \<Rightarrow> 'f eq_mem \<Rightarrow> fault + 'f eq_mem" where
  "filter_call_run F (SetLPF i f) m = put_LPF F (int i) f m"
| "filter_call_run F (SetHPFdl i f) m = put_HPF_dl F (int i) f m"
| "filter_call_run F (DivLPF i off f) m = put_div (int i) off (set_EQ_LPF F f) m"
| "filter_call_run F (DivHPF i off f) m = put_div (int i) off (set_EQ_HPF F f) m"

text \<open>One round of \<open>init_divisionfilter\<close>; its loop runs to 24 over tables of 16 channels.\<close>

definition division_filter :: "('f, 'z) dspflt_scheme \<Rightarrow> 'f dsp_eq \<Rightarrow> nat \<Rightarrow> 'f eq_mem \<Rightarrow> fault + 'f eq_mem" where
  "division_filter F e i m =
     bindE (iget ''divisionbandnum_set'' (divisionbandnum_set e) (int i)) (\<lambda>n.
       if n = 2 then
         bindE (iget ''fc_division'' (fc_division e) (int i)) (\<lambda>fc.
         bindE (iget ''fc_division'' fc 0) (\<lambda>f.
           foldE (filter_call_run F) [DivLPF (3 * i) 0 f, DivHPF (3 * i + 1) 0 f] m))
       else if n = 3 then
         bindE (iget ''fc_division'' (fc_division e) (int i)) (\<lambda>fc.
         bindE (iget ''fc_division'' fc 0) (\<lambda>f.
         bindE (iget ''fc_division'' fc 1) (\<lambda>f'.
           foldE (filter_call_run F) [DivLPF (3 * i) 0 f, DivHPF (3 * i + 1) 0 f, DivLPF (3 * i + 1) 5 f',
             DivHPF (3 * i + 2) 0 f'] m)))
       else Inr m)"

definition init_divisionfilter :: "('f, 'z) dspflt_scheme \<Rightarrow> 'f dsp_eq \<Rightarrow> 'f eq_mem \<Rightarrow> fault + 'f eq_mem" where
  "init_divisionfilter F e = foldE (division_filter F e) [0..<24]"

section \<open>Filtering a block\<close>

text \<open>One sample of \<open>filter_process_HPF_block_dl\<close>: coefficients \<open>cf\<close>, state \<open>st\<close> (two outputs, two inputs, one cell unused).\<close>

definition hpf_dl_sample :: "('f, 'z) dspflt_scheme \<Rightarrow> 'f list \<Rightarrow> 'f list \<Rightarrow> 'f \<Rightarrow> 'f \<times> 'f list" where
  "hpf_dl_sample F cf st xin =
     (let yout = fmul F xin (cf ! 4);
          yout = foldl (\<lambda>y j. fadd F y (fmul F (st ! j) (cf ! j))) yout [0, 1, 2, 3];
          st = st[2 := st ! 3];
          st = st[3 := xin];
          st = st[0 := st ! 1];
          st = st[1 := yout]
      in (yout, st))"

fun hpf_dl_loop :: "('f, 'z) dspflt_scheme \<Rightarrow> 'f list \<Rightarrow> 'f list \<Rightarrow> 'f list \<Rightarrow> 'f list \<times> 'f list" where
  "hpf_dl_loop F cf [] st = ([], st)"
| "hpf_dl_loop F cf (x # xs) st =
     (let (y, st) = hpf_dl_sample F cf st x; (ys, st) = hpf_dl_loop F cf xs st in (y # ys, st))"

definition filter_process_HPF_block_dl ::
    "('f, 'z) dspflt_scheme \<Rightarrow> int \<Rightarrow> 'f list \<Rightarrow> 'f eq_mem \<Rightarrow> fault + 'f list \<times> 'f eq_mem" where
  "filter_process_HPF_block_dl F ch xs m =
     (if length xs < 1 then Inr (xs, m)
      else
        bindE (iget ''filter_cf_HPF_dl'' (filter_cf_HPF_dl m) ch) (\<lambda>cf.
        bindE (iget ''filter_state_HPF_dl'' (filter_state_HPF_dl m) ch) (\<lambda>st.
          let (ys, st) = hpf_dl_loop F cf xs st
          in bindE (iput ''filter_state_HPF_dl'' (filter_state_HPF_dl m) ch st) (\<lambda>sts.
               Inr (ys, m\<lparr>filter_state_HPF_dl := sts\<rparr>)))))"

text \<open>
  \<open>biquad (in, out, coeffs, state, samples, sections)\<close> of the run-time library: from \<open>5 * sections\<close> coefficients,
  \<open>2 * sections + 1\<close> words of state and the samples to the output and the new state.
\<close>

type_synonym 'f biquad = "'f list \<Rightarrow> 'f list \<Rightarrow> nat \<Rightarrow> 'f list \<Rightarrow> 'f list \<times> 'f list"

text \<open>A call with pointers to element \<open>off\<close> of a row of coefficients and of a row of states.\<close>

definition biquad_at :: "'f biquad \<Rightarrow> string \<Rightarrow> 'f list list \<Rightarrow> 'f list list \<Rightarrow> int \<Rightarrow> nat \<Rightarrow> nat \<Rightarrow> 'f list \<Rightarrow>
    fault + 'f list \<times> 'f list list" where
  "biquad_at bq nm cfs sts i off sections xs =
     bindE (iget nm cfs i) (\<lambda>cf.
     bindE (iget nm sts i) (\<lambda>st.
       if off + 5 * sections \<le> length cf \<and> off + 2 * sections + 1 \<le> length st then
         let (ys, s) = bq (take (5 * sections) (drop off cf)) (take (2 * sections + 1) (drop off st)) sections xs
         in bindE (iput nm sts i (overlay st off s)) (\<lambda>sts. Inr (ys, sts))
       else Inl (OutOfBounds nm)))"

definition filter_process_HPF_block :: "'f biquad \<Rightarrow> int \<Rightarrow> 'f list \<Rightarrow> 'f eq_mem \<Rightarrow> fault + 'f list \<times> 'f eq_mem" where
  "filter_process_HPF_block bq ch xs m =
     (if length xs < 1 then Inr (xs, m)
      else bindE (biquad_at bq ''filter_cf_HPF'' (filter_cf_HPF m) (filter_state_HPF m) ch 0 1 xs) (\<lambda>(ys, sts).
             Inr (ys, m\<lparr>filter_state_HPF := sts\<rparr>)))"

definition filter_process_LPF_block :: "'f biquad \<Rightarrow> int \<Rightarrow> 'f list \<Rightarrow> 'f eq_mem \<Rightarrow> fault + 'f list \<times> 'f eq_mem" where
  "filter_process_LPF_block bq ch xs m =
     (if length xs < 1 then Inr (xs, m)
      else bindE (biquad_at bq ''filter_cf_LPF'' (filter_cf_LPF m) (filter_state_LPF m) ch 0 1 xs) (\<lambda>(ys, sts).
             Inr (ys, m\<lparr>filter_state_LPF := sts\<rparr>)))"

definition filter_process_GEQ_block :: "'f biquad \<Rightarrow> int \<Rightarrow> 'f list \<Rightarrow> 'f eq_mem \<Rightarrow> fault + 'f list \<times> 'f eq_mem" where
  "filter_process_GEQ_block bq ch xs m =
     (if length xs < 1 then Inr (xs, m)
      else bindE (biquad_at bq ''filter_cf_31b'' (filter_cf_31b m) (filter_state_31b m) ch (5 * 2) (Band_count_GEQ - 2) xs)
             (\<lambda>(ys, sts). Inr (ys, m\<lparr>filter_state_31b := sts\<rparr>)))"

text \<open>
  \<open>frequencydivision_channel\<close>; \<open>buf\<close> is what the output buffer held. A band index that the number of bands does not
  have leaves the buffer as it was.
\<close>

definition division_biquad :: "'f biquad \<Rightarrow> int \<Rightarrow> nat \<Rightarrow> 'f list \<Rightarrow> 'f eq_mem \<Rightarrow> fault + 'f list \<times> 'f eq_mem" where
  "division_biquad bq i sections xs m =
     bindE (biquad_at bq ''filter_cf_frequencydivion'' (filter_cf_frequencydivion m) (filter_state_frequencydivion m) i 0
              sections xs)
       (\<lambda>(ys, sts). Inr (ys, m\<lparr>filter_state_frequencydivion := sts\<rparr>))"

definition frequencydivision_channel :: "('f, 'z) dspflt_scheme \<Rightarrow> 'f biquad \<Rightarrow> int list \<Rightarrow> int \<Rightarrow> int \<Rightarrow> 'f list \<Rightarrow>
    'f list \<Rightarrow> 'f eq_mem \<Rightarrow> fault + 'f list \<times> 'f eq_mem" where
  "frequencydivision_channel F bq bandnums ch band xs buf m =
     bindE (iget ''divisionbandnum_set'' bandnums ch) (\<lambda>n.
       if n = 2 then
         (if band = 0 then division_biquad bq (ch * 3 + 0) 1 xs m
          else if band = 1 then division_biquad bq (ch * 3 + 1) 1 xs m
          else Inr (buf, m))
       else if n = 3 then
         (if band = 0 then division_biquad bq (ch * 3 + 0) 1 xs m
          else if band = 1 then division_biquad bq (ch * 3 + 1) 2 xs m
          else if band = 2 then division_biquad bq (ch * 3 + 2) 1 xs m
          else Inr (buf, m))
       else if band = 0 then Inr (xs, m)
       else Inr (map (\<lambda>_. lit F 0 0) xs, m))"

section \<open>Lemmas on the memory\<close>

lemma foldE_append: "foldE f (xs @ ys) s = bindE (foldE f xs s) (foldE f ys)"
  by (induction xs arbitrary: s) (simp_all add: bindE_def split: sum.split)

lemma foldE_cong: "(\<And>x. x \<in> set xs \<Longrightarrow> f x = g x) \<Longrightarrow> foldE f xs = foldE g xs"
proof (induction xs)
  case (Cons a xs)
  then have "foldE f xs = foldE g xs" "f a = g a" by simp_all
  then show ?case by (intro ext) simp
qed (simp add: fun_eq_iff)

lemma bindE_assoc: "bindE (bindE x f) g = bindE x (\<lambda>y. bindE (f y) g)"
  by (cases x) simp_all

lemma bindE_return [simp]: "bindE x Inr = x"
  by (cases x) simp_all

lemma foldE_single [simp]: "foldE f [x] = f x"
proof
  show "foldE f [x] s = f x s" for s by (cases "f x s") simp_all
qed

lemma iget_ok: "0 \<le> i \<Longrightarrow> i < int (length xs) \<Longrightarrow> iget nm xs i = Inr (xs ! nat i)"
  by (simp add: iget_def)

lemma iput_ok: "0 \<le> i \<Longrightarrow> i < int (length xs) \<Longrightarrow> iput nm xs i v = Inr (xs[nat i := v])"
  by (simp add: iput_def)

lemma length_overlay [simp]: "n + length ys \<le> length xs \<Longrightarrow> length (overlay xs n ys) = length xs"
  by (simp add: overlay_def)

lemma overlay_all [simp]: "length ys = length xs \<Longrightarrow> overlay xs 0 ys = ys"
  by (simp add: overlay_def)

lemma put_cf_ok:
  assumes "matrix_ok m n rows" "i < m" "off + length cs \<le> n"
  shows "put_cf nm rows (int i) off cs = Inr (rows[i := overlay (rows ! i) off cs])"
  using assms matrix_nth [OF assms(1,2)] by (auto simp: put_cf_def iget_def iput_def matrix_ok_def)

lemma overlay_matrix:
  assumes "matrix_ok m n rows" "i < m" "off + length cs \<le> n"
  shows "matrix_ok m n (rows[i := overlay (rows ! i) off cs])"
  using assms matrix_nth [OF assms(1,2)] by (intro matrix_update) auto

lemma length_designs [simp]:
  "length (set_EQ_Low_Shelf F fc g q) = 5" "length (set_EQ_High_Shelf F fc g q) = 5" "length (set_EQ_Peak F fc g q) = 5"
  "length (set_EQ_HPF F fc) = 5" "length (set_EQ_HPF_dl F fc) = 5" "length (set_EQ_LPF F fc) = 5"
  by (simp_all add: set_EQ_Low_Shelf_def set_EQ_High_Shelf_def set_EQ_Peak_def set_EQ_HPF_def set_EQ_HPF_dl_def
      set_EQ_LPF_def Let_def)

lemma length_bands [simp]:
  "length (GEQ31band_fc F) = 31" "length (GEQ31band_gain F) = 31" "length (GEQ31band_q F) = 31"
  by (simp_all add: GEQ31band_fc_def GEQ31band_gain_def GEQ31band_q_def)

text \<open>The section of band \<open>b\<close> with gain \<open>g\<close>, and the coefficients of a whole channel.\<close>

definition band_design :: "('f, 'z) dspflt_scheme \<Rightarrow> nat \<Rightarrow> ('f \<Rightarrow> 'f \<Rightarrow> 'f \<Rightarrow> 'f list)" where
  "band_design F b = (if b = 1 then set_EQ_Low_Shelf F else if b < 31 then set_EQ_Peak F else set_EQ_High_Shelf F)"

definition band_cf :: "('f, 'z) dspflt_scheme \<Rightarrow> nat \<Rightarrow> 'f \<Rightarrow> 'f list" where
  "band_cf F b g = band_design F b (GEQ31band_fc F ! (b - 1)) g (GEQ31band_q F ! (b - 1))"

definition bank :: "('f, 'z) dspflt_scheme \<Rightarrow> (nat \<Rightarrow> 'f) \<Rightarrow> nat \<Rightarrow> 'f list" where
  "bank F g n = concat (map (\<lambda>b. band_cf F b (g b)) [1..<Suc n])"

lemma length_band_cf [simp]: "length (band_cf F b g) = 5"
  by (simp add: band_cf_def band_design_def)

lemma length_bank [simp]: "length (bank F g n) = 5 * n"
  by (induction n) (simp_all add: bank_def)

lemma bank_Suc: "bank F g (Suc n) = bank F g n @ band_cf F (Suc n) (g (Suc n))"
  by (simp add: bank_def)

definition copy_consts :: "('f, 'z) dspflt_scheme \<Rightarrow> nat \<Rightarrow> 'f eq_mem \<Rightarrow> 'f eq_mem" where
  "copy_consts F n m = m\<lparr>fc_EQ_GEQ := take n (GEQ31band_fc F) @ drop n (fc_EQ_GEQ m),
     gain_EQ_GEQ := take n (GEQ31band_gain F) @ drop n (gain_EQ_GEQ m),
     q_EQ_GEQ := take n (GEQ31band_q F) @ drop n (q_EQ_GEQ m)\<rparr>"

definition fill_bands :: "('f, 'z) dspflt_scheme \<Rightarrow> (nat \<Rightarrow> 'f) \<Rightarrow> nat \<Rightarrow> nat \<Rightarrow> 'f eq_mem \<Rightarrow> 'f eq_mem" where
  "fill_bands F g ch n m = (copy_consts F n m)\<lparr>filter_cf_31b :=
     (filter_cf_31b m)[ch := bank F g n @ drop (5 * n) (filter_cf_31b m ! ch)]\<rparr>"

lemma take_drop_update:
  assumes "n < length xs" "length ys = length xs"
  shows "(take n xs @ drop n ys)[n := xs ! n] = take (Suc n) xs @ drop (Suc n) ys"
proof -
  have "drop n ys = ys ! n # drop (Suc n) ys" using assms by (simp add: Cons_nth_drop_Suc)
  then show ?thesis using assms by (simp add: list_update_append take_Suc_conv_app_nth)
qed

lemma fill_band:
  assumes m: "eq_mem_ok m" and "ch < 24" "n < 31"
  shows "set_band F (band_design F (Suc n)) (Suc n) (int ch) (g (Suc n)) (fill_bands F g ch n m) =
    Inr (fill_bands F g ch (Suc n) m)"
proof -
  let ?row = "bank F g n @ drop (5 * n) (filter_cf_31b m ! ch)"
  have len: "length (fc_EQ_GEQ m) = 31" "length (gain_EQ_GEQ m) = 31" "length (q_EQ_GEQ m) = 31"
    and rows: "matrix_ok 24 155 (filter_cf_31b m)" using m by (simp_all add: eq_mem_ok_def)
  then have row: "length (filter_cf_31b m ! ch) = 155" "length (filter_cf_31b m) = 24"
    using assms(2) by (simp_all add: matrix_nth matrix_ok_def)
  have "matrix_ok 24 155 ((filter_cf_31b m)[ch := ?row])" using row assms(3) by (intro matrix_update [OF rows]) simp
  from put_cf_ok [OF this, of ch "n * 5" "band_cf F (Suc n) (g (Suc n))"]
  have p: "put_cf nm ((filter_cf_31b m)[ch := ?row]) (int ch) (n * 5) (band_cf F (Suc n) (g (Suc n))) =
      Inr ((filter_cf_31b m)[ch := overlay ?row (n * 5) (band_cf F (Suc n) (g (Suc n)))])" for nm
    using assms(2,3) row by (simp add: put_cf_def iget_def iput_def)
  have "overlay ?row (n * 5) (band_cf F (Suc n) (g (Suc n))) = bank F g (Suc n) @ drop (5 * Suc n) (filter_cf_31b m ! ch)"
    by (simp add: overlay_def bank_Suc mult.commute [of n])
  with p len assms(3) show ?thesis
    by (simp add: set_band_def fill_bands_def copy_consts_def Let_def take_drop_update band_cf_def nth_append)
qed

lemma fill_bands_0: "eq_mem_ok m \<Longrightarrow> ch < 24 \<Longrightarrow> fill_bands F g ch 0 m = m"
  by (simp add: fill_bands_def copy_consts_def bank_def)

lemma fill_loop:
  assumes "eq_mem_ok m" "ch < 24" "n \<le> 31"
  shows "foldE (\<lambda>b. set_band F (band_design F b) b (int ch) (g b)) [1..<Suc n] m = Inr (fill_bands F g ch n m)"
  using assms(3)
proof (induction n)
  case 0
  show ?case by (simp add: fill_bands_0 [OF assms(1,2)])
next
  case (Suc n)
  then show ?case using fill_band [OF assms(1,2), of n F g] by (simp add: foldE_append)
qed

text \<open>The code treats the first and the last band on their own.\<close>

lemma fill_channel:
  assumes "eq_mem_ok m" "ch < 24"
  shows "bindE (set_band F (set_EQ_Low_Shelf F) 1 (int ch) (g 1) m) (\<lambda>m.
    bindE (foldE (\<lambda>b. set_band F (set_EQ_Peak F) b (int ch) (g b)) [2..<31] m) (\<lambda>m.
      set_band F (set_EQ_High_Shelf F) 31 (int ch) (g 31) m)) = Inr (fill_bands F g ch 31 m)"
proof -
  obtain ps where ps: "ps = [2..<31]" by blast
  have "foldE (\<lambda>b. set_band F (band_design F b) b (int ch) (g b)) ps =
      foldE (\<lambda>b. set_band F (set_EQ_Peak F) b (int ch) (g b)) ps"
    unfolding ps by (intro foldE_cong) (auto simp: band_design_def simp del: upt_rec_numeral)
  moreover have "foldE f (ps @ [31]) = (\<lambda>m. bindE (foldE f ps m) (\<lambda>m. f 31 m))" for f :: "nat \<Rightarrow> 'a eq_mem \<Rightarrow> fault + 'a eq_mem"
    by (simp add: fun_eq_iff foldE_append)
  moreover have "[1..<Suc 31] = 1 # ps @ [31]" by (simp add: ps upt_rec)
  ultimately show ?thesis
    using fill_loop [OF assms order_refl, of F g] by (simp add: band_design_def ps [symmetric] del: upt_rec_numeral)
qed

lemma fill_bands_ok:
  assumes "eq_mem_ok m" "ch < 24" "n \<le> 31"
  shows "eq_mem_ok (fill_bands F g ch n m)"
  using assms matrix_nth [of 24 155 "filter_cf_31b m" ch]
  by (auto simp: eq_mem_ok_def fill_bands_def copy_consts_def intro!: matrix_update)

text \<open>One channel: high pass at \<open>lo\<close>, low pass at \<open>hi\<close> and 31 bands.\<close>

definition fill_eq :: "('f, 'z) dspflt_scheme \<Rightarrow> (nat \<Rightarrow> nat \<Rightarrow> 'f) \<Rightarrow> (nat \<Rightarrow> 'f) \<Rightarrow> (nat \<Rightarrow> 'f) \<Rightarrow> nat \<Rightarrow> 'f eq_mem \<Rightarrow> 'f eq_mem" where
  "fill_eq F g lo hi n m = (if n = 0 then m else copy_consts F 31 m)\<lparr>
     filter_cf_HPF_dl := map (\<lambda>ch. if ch < n then set_EQ_HPF_dl F (lo ch) else filter_cf_HPF_dl m ! ch) [0..<24],
     filter_cf_LPF := map (\<lambda>ch. if ch < n then set_EQ_LPF F (hi ch) else filter_cf_LPF m ! ch) [0..<24],
     filter_cf_31b := map (\<lambda>ch. if ch < n then bank F (g ch) 31 else filter_cf_31b m ! ch) [0..<24]\<rparr>"

lemma put_filter_rows:
  assumes "ch < 24"
  shows "matrix_ok 24 5 (filter_cf_HPF_dl m) \<Longrightarrow>
      put_HPF_dl F (int ch) f m = Inr (m\<lparr>filter_cf_HPF_dl := (filter_cf_HPF_dl m)[ch := set_EQ_HPF_dl F f]\<rparr>)"
    "matrix_ok 24 5 (filter_cf_LPF m) \<Longrightarrow>
      put_LPF F (int ch) f m = Inr (m\<lparr>filter_cf_LPF := (filter_cf_LPF m)[ch := set_EQ_LPF F f]\<rparr>)"
  using assms matrix_nth [of 24 5 "filter_cf_HPF_dl m" ch] matrix_nth [of 24 5 "filter_cf_LPF m" ch]
  by (simp_all add: put_HPF_dl_def put_LPF_def put_cf_ok)

lemma put_filters:
  assumes "eq_mem_ok m" "ch < 24"
  shows "put_HPF_dl F (int ch) f m = Inr (m\<lparr>filter_cf_HPF_dl := (filter_cf_HPF_dl m)[ch := set_EQ_HPF_dl F f]\<rparr>)"
    "eq_mem_ok (m\<lparr>filter_cf_HPF_dl := (filter_cf_HPF_dl m)[ch := set_EQ_HPF_dl F f]\<rparr>)"
    "put_LPF F (int ch) f m = Inr (m\<lparr>filter_cf_LPF := (filter_cf_LPF m)[ch := set_EQ_LPF F f]\<rparr>)"
    "eq_mem_ok (m\<lparr>filter_cf_LPF := (filter_cf_LPF m)[ch := set_EQ_LPF F f]\<rparr>)"
  using assms by (simp_all add: put_filter_rows eq_mem_ok_def matrix_update)

lemma put_filters_twice:
  assumes "eq_mem_ok m" "ch < 24"
  shows "bindE (put_HPF_dl F (int ch) a m) (\<lambda>m. bindE (put_LPF F (int ch) b m) (\<lambda>m.
      bindE (bindE (put_LPF F (int ch) b' m) (put_HPF_dl F (int ch) a')) k)) =
    bindE (put_HPF_dl F (int ch) a' m) (\<lambda>m. bindE (put_LPF F (int ch) b' m) k)"
  using assms by (cases m) (simp add: put_filter_rows eq_mem_ok_def matrix_update)

lemma map_upt_update:
  assumes "n < k"
  shows "(map (\<lambda>i. if i < n then f i else g i) [0..<k])[n := f n] = map (\<lambda>i. if i < Suc n then f i else g i) [0..<k]"
  using assms by (intro nth_equalityI) (auto simp: nth_list_update less_Suc_eq)

lemma fill_eq_step:
  assumes "eq_mem_ok m" "n < 24"
  shows "fill_bands F (g n) n 31 ((fill_eq F g lo hi n m)\<lparr>
      filter_cf_HPF_dl := (filter_cf_HPF_dl (fill_eq F g lo hi n m))[n := set_EQ_HPF_dl F (lo n)],
      filter_cf_LPF := (filter_cf_LPF (fill_eq F g lo hi n m))[n := set_EQ_LPF F (hi n)]\<rparr>) = fill_eq F g lo hi (Suc n) m"
proof -
  have "length (filter_cf_31b m ! n) = 155" using assms matrix_nth [of 24 155 "filter_cf_31b m" n] by (simp add: eq_mem_ok_def)
  moreover have "length (fc_EQ_GEQ m) = 31" "length (gain_EQ_GEQ m) = 31" "length (q_EQ_GEQ m) = 31"
    using assms by (simp_all add: eq_mem_ok_def)
  ultimately show ?thesis
    using assms(2) map_upt_update [OF assms(2), of "\<lambda>i. bank F (g i) 31" "\<lambda>i. filter_cf_31b m ! i"]
      map_upt_update [OF assms(2), of "\<lambda>i. set_EQ_HPF_dl F (lo i)" "\<lambda>i. filter_cf_HPF_dl m ! i"]
      map_upt_update [OF assms(2), of "\<lambda>i. set_EQ_LPF F (hi i)" "\<lambda>i. filter_cf_LPF m ! i"]
    by (simp add: fill_bands_def fill_eq_def copy_consts_def)
qed

lemma matrix_map: "(\<And>i. i < m \<Longrightarrow> length (f i) = n) \<Longrightarrow> matrix_ok m n (map f [0..<m])"
  by (auto simp: matrix_ok_def)

lemma fill_eq_ok:
  assumes "eq_mem_ok m" "n \<le> 24"
  shows "eq_mem_ok (fill_eq F g lo hi n m)"
  using assms by (auto simp: eq_mem_ok_def fill_eq_def copy_consts_def matrix_nth intro!: matrix_map)

lemma fill_eq_0: "eq_mem_ok m \<Longrightarrow> fill_eq F g lo hi 0 m = m"
proof -
  assume m: "eq_mem_ok m"
  then have "length (filter_cf_HPF_dl m) = 24" "length (filter_cf_LPF m) = 24" "length (filter_cf_31b m) = 24"
    by (simp_all add: eq_mem_ok_def matrix_ok_def)
  then have "map ((!) (filter_cf_HPF_dl m)) [0..<24] = filter_cf_HPF_dl m" "map ((!) (filter_cf_LPF m)) [0..<24] = filter_cf_LPF m"
    "map ((!) (filter_cf_31b m)) [0..<24] = filter_cf_31b m" by (metis map_nth)+
  then show ?thesis by (simp add: fill_eq_def)
qed

lemma fill_eq_channel:
  assumes "eq_mem_ok m" "n < 24"
  shows "bindE (put_HPF_dl F (int n) (lo n) (fill_eq F g lo hi n m)) (\<lambda>m.
    bindE (put_LPF F (int n) (hi n) m) (\<lambda>m.
    bindE (set_band F (set_EQ_Low_Shelf F) 1 (int n) (g n 1) m) (\<lambda>m.
    bindE (foldE (\<lambda>b. set_band F (set_EQ_Peak F) b (int n) (g n b)) [2..<31] m) (\<lambda>m.
      set_band F (set_EQ_High_Shelf F) 31 (int n) (g n 31) m)))) = Inr (fill_eq F g lo hi (Suc n) m)"
proof -
  let ?m = "fill_eq F g lo hi n m"
  have m: "eq_mem_ok ?m" using assms by (intro fill_eq_ok) simp_all
  note h = put_filters [OF m assms(2)]
  note l = put_filters(3,4) [OF h(2) assms(2)]
  show ?thesis
    unfolding h(1) bindE_simps l(1) fill_channel [OF l(2) assms(2)]
    using fill_eq_step [OF assms, of F g lo hi] by simp
qed

text \<open>
  What the start-up and the parameter version leave in the memory. Channel 3 (the subwoofer) has its
  high pass at 20 Hz and its low pass at 120 Hz at start.
\<close>

definition start_lo :: "('f, 'z) dspflt_scheme \<Rightarrow> nat \<Rightarrow> 'f" where
  "start_lo F ch = (if ch = 3 then fc_LFE_HPF F else fc_HPF F)"

definition start_hi :: "('f, 'z) dspflt_scheme \<Rightarrow> nat \<Rightarrow> 'f" where
  "start_hi F ch = (if ch = 3 then fc_HPF F else fc_LPF F)"

lemma sim_31band_channel_fill:
  assumes "eq_mem_ok m" "n < 24"
  shows "sim_31band_channel F n (fill_eq F (\<lambda>_ b. GEQ31band_gain F ! (b - 1)) (start_lo F) (start_hi F) n m) =
    Inr (fill_eq F (\<lambda>_ b. GEQ31band_gain F ! (b - 1)) (start_lo F) (start_hi F) (Suc n) m)"
proof -
  let ?m = "fill_eq F (\<lambda>_ b. GEQ31band_gain F ! (b - 1)) (start_lo F) (start_hi F) n m"
  have ok: "eq_mem_ok ?m" using assms by (auto intro: fill_eq_ok)
  have c: "bindE (put_HPF_dl F (int n) (fc_HPF F) ?m) (\<lambda>m.
     bindE (put_LPF F (int n) (fc_LPF F) m) (\<lambda>m.
     bindE (if n = 3 then bindE (put_LPF F (int n) (fc_HPF F) m) (put_HPF_dl F (int n) (fc_LFE_HPF F))
            else Inr m) k)) =
    bindE (put_HPF_dl F (int n) (start_lo F n) ?m) (\<lambda>m. bindE (put_LPF F (int n) (start_hi F n) m) k)" for k
    using put_filters_twice [OF ok assms(2), of F "fc_HPF F" "fc_LPF F" "fc_HPF F" "fc_LFE_HPF F" k]
    by (cases "n = 3") (simp_all add: start_lo_def start_hi_def)
  show ?thesis unfolding sim_31band_channel_def c by (rule fill_eq_channel [OF assms])
qed

lemma fill_eq_loop:
  assumes "eq_mem_ok m" "n \<le> 24"
    and "\<And>i. i < n \<Longrightarrow> f i (fill_eq F g lo hi i m) = Inr (fill_eq F g lo hi (Suc i) m)"
  shows "foldE f [0..<n] m = Inr (fill_eq F g lo hi n m)"
  using assms(2,3)
proof (induction n)
  case (Suc n)
  then show ?case by (simp add: foldE_append)
qed (simp add: fill_eq_0 [OF assms(1)])

lemma sim_31band_EQ_fill:
  assumes "eq_mem_ok m"
  shows "sim_31band_EQ F m = Inr (fill_eq F (\<lambda>_ b. GEQ31band_gain F ! (b - 1)) (start_lo F) (start_hi F) 24 m)"
  unfolding sim_31band_EQ_def by (intro fill_eq_loop sim_31band_channel_fill assms) simp_all

text \<open>The gains and frequencies of the parameters.\<close>

definition out_params :: "'f dsp \<Rightarrow> 'f OutputParams" where
  "out_params d = outputparam d ! unat (DSP23_OutputYtype d)"

definition total_gain :: "('f, 'z) dspflt_scheme \<Rightarrow> 'f dsp \<Rightarrow> nat \<Rightarrow> nat \<Rightarrow> 'f" where
  "total_gain F d ch b = fadd F (EQBandGain (out_params d) ! ch ! (b - 1)) (EQBandGain (out_params d) ! 29 ! (b - 1))"

definition low_cut :: "'f dsp \<Rightarrow> nat \<Rightarrow> 'f" where
  "low_cut d ch = LowCutFreq (outputparam d ! unat (OutputYtype d)) ! ch"

definition high_cut :: "'f dsp \<Rightarrow> nat \<Rightarrow> 'f" where
  "high_cut d ch = HighCutFreq (outputparam d ! unat (OutputYtype d)) ! ch"

lemma unat_u32_small: "n < 100 \<Longrightarrow> unat (of_nat n :: u32) = n"
  by (intro unat_of_nat_less) simp

lemma dsp_outputs:
  assumes "dsp_ok d"
  shows "unat (DSP23_OutputYtype d) < length (outputparam d)" "unat (OutputYtype d) < length (outputparam d)"
    "out_ok (out_params d)" "out_ok (outputparam d ! unat (OutputYtype d))"
  using assms by (auto simp: dsp_ok_def out_params_def word_less_nat_alt)

lemma eq_gain_ok:
  assumes "dsp_ok d" "ch < 30" "1 \<le> b" "b \<le> 31"
  shows "eq_gain F d ch b = Inr (total_gain F d ch b)"
proof -
  note d = dsp_outputs [OF assms(1)]
  have "matrix_ok 30 33 (EQBandGain (out_params d))" using d(3) by (simp add: out_ok_def)
  note g = get_at2_ok [OF this]
  have "unat (of_nat ch :: u32) = ch" by (rule unat_u32_small) (use assms in simp)
  moreover have "unat (of_nat (b - 1) :: u32) = b - 1" by (rule unat_u32_small) (use assms in simp)
  ultimately show ?thesis
    using d(1) g [of "of_nat ch" "of_nat (b - 1)"] g [of 29 "of_nat (b - 1)"] assms
    by (simp add: eq_gain_def get_at_ok out_params_def [symmetric] total_gain_def)
qed

lemma param_channel_fill:
  assumes "dsp_ok d" "eq_mem_ok m" "n < 24"
  shows "param_channel F d n (fill_eq F (total_gain F d) (low_cut d) (high_cut d) n m) =
    Inr (fill_eq F (total_gain F d) (low_cut d) (high_cut d) (Suc n) m)"
proof -
  note d = dsp_outputs [OF assms(1)]
  have cuts: "get_at nm (LowCutFreq (outputparam d ! unat (OutputYtype d))) (of_nat n) = Inr (low_cut d n)"
    "get_at nm (HighCutFreq (outputparam d ! unat (OutputYtype d))) (of_nat n) = Inr (high_cut d n)" for nm
    using d(4) assms(3) by (simp_all add: get_at_ok unat_u32_small low_cut_def high_cut_def out_ok_def)
  have "foldE (\<lambda>b m. bindE (eq_gain F d n b) (\<lambda>g. set_band F (set_EQ_Peak F) b (int n) g m)) [2..<31] =
      foldE (\<lambda>b. set_band F (set_EQ_Peak F) b (int n) (total_gain F d n b)) [2..<31]"
    using assms by (intro foldE_cong) (auto simp: eq_gain_ok simp del: upt_rec_numeral)
  moreover have "eq_gain F d n 1 = Inr (total_gain F d n 1)" "eq_gain F d n 31 = Inr (total_gain F d n 31)"
    using assms by (intro eq_gain_ok; simp)+
  ultimately have "param_channel F d n m' =
    bindE (put_HPF_dl F (int n) (low_cut d n) m') (\<lambda>m.
    bindE (put_LPF F (int n) (high_cut d n) m) (\<lambda>m.
    bindE (set_band F (set_EQ_Low_Shelf F) 1 (int n) (total_gain F d n 1) m) (\<lambda>m.
    bindE (foldE (\<lambda>b. set_band F (set_EQ_Peak F) b (int n) (total_gain F d n b)) [2..<31] m) (\<lambda>m.
      set_band F (set_EQ_High_Shelf F) 31 (int n) (total_gain F d n 31) m))))" for m'
    unfolding param_channel_def by (simp only: get_at_ok [OF d(2)] cuts bindE_simps)
  then show ?thesis using fill_eq_channel [OF assms(2,3)] by simp
qed

lemma outputparamset_fill:
  assumes "dsp_ok d" "eq_mem_ok m"
  shows "sim_31band_EQ_outputparamset F d m = Inr (fill_eq F (total_gain F d) (low_cut d) (high_cut d) 14 m)"
  unfolding sim_31band_EQ_outputparamset_def CHANNEL_OUTPUT_NUMBER_def
  by (intro fill_eq_loop param_channel_fill assms) simp_all

lemma bank_overlay:
  assumes "1 \<le> b" "b \<le> n"
  shows "overlay (bank F g n) ((b - 1) * 5) (band_cf F b x) = bank F (g(b := x)) n"
  using assms(2)
proof (induction n)
  case 0
  then show ?case using assms(1) by simp
next
  case (Suc n)
  show ?case
  proof (cases "b = Suc n")
    case True
    have "bank F (g(b := x)) n = bank F g n" unfolding bank_def using True by (intro arg_cong [where f = concat] map_cong) auto
    with True show ?thesis by (simp add: bank_Suc overlay_def mult.commute fun_upd_def)
  next
    case False
    with Suc have "overlay (bank F g n) ((b - 1) * 5) (band_cf F b x) = bank F (g(b := x)) n" "b \<le> n" by (simp_all del: fun_upd_apply)
    with False assms(1) show ?thesis by (simp add: bank_Suc overlay_def fun_upd_def)
  qed
qed

lemma set_band_fill:
  assumes "eq_mem_ok m" "ch < n" "n \<le> 24" "1 \<le> b" "b \<le> 31"
  shows "set_band F (band_design F b) b (int ch) x (fill_eq F g lo hi n m) =
    Inr (fill_eq F (\<lambda>i. if i = ch then (g ch)(b := x) else g i) lo hi n m)"
proof -
  let ?m = "fill_eq F g lo hi n m"
  have ok: "eq_mem_ok ?m" using assms by (intro fill_eq_ok)
  then have rows: "matrix_ok 24 155 (filter_cf_31b ?m)" by (simp add: eq_mem_ok_def)
  have row: "filter_cf_31b ?m ! ch = bank F (g ch) 31" using assms by (simp add: fill_eq_def)
  have c: "fc_EQ_GEQ ?m = GEQ31band_fc F" "gain_EQ_GEQ ?m = GEQ31band_gain F" "q_EQ_GEQ ?m = GEQ31band_q F"
    using assms by (simp_all add: fill_eq_def copy_consts_def eq_mem_ok_def)
  have "put_cf nm (filter_cf_31b ?m) (int ch) ((b - 1) * 5) (band_cf F b x) =
      Inr ((filter_cf_31b ?m)[ch := bank F ((g ch)(b := x)) 31])" for nm
    using assms put_cf_ok [OF rows, of ch "(b - 1) * 5" "band_cf F b x"] bank_overlay [OF assms(4,5), of F "g ch" x] row by simp
  moreover have "(filter_cf_31b ?m)[ch := bank F ((g ch)(b := x)) 31] =
      map (\<lambda>i. if i < n then bank F (if i = ch then (g ch)(b := x) else g i) 31 else filter_cf_31b m ! i) [0..<24]"
    using assms by (intro nth_equalityI) (auto simp: fill_eq_def nth_list_update)
  moreover have "?m\<lparr>fc_EQ_GEQ := GEQ31band_fc F, gain_EQ_GEQ := GEQ31band_gain F, q_EQ_GEQ := GEQ31band_q F\<rparr> = ?m"
    using c by (metis eq_mem.surjective eq_mem.update_convs(3,4,5))
  ultimately show ?thesis
    using assms c by (simp add: set_band_def Let_def band_cf_def) (simp add: fill_eq_def)
qed

lemma setgain_band:
  assumes "1 \<le> b" "b \<le> 31"
  shows "sim_31band_EQ_setgaintofilters F (int b) ch x m = set_band F (band_design F b) b ch x m"
proof -
  consider "b = 1" | "1 < b" "b < 31" | "b = 31" using assms by linarith
  then show ?thesis
    by cases (auto simp: sim_31band_EQ_setgaintofilters_def band_design_def Band_count_GEQ_def)
qed

section \<open>Properties of the coefficient memory\<close>

text \<open>A new gain for one band of one channel, as the command for it stores it.\<close>

definition store_band_gain :: "nat \<Rightarrow> nat \<Rightarrow> 'f \<Rightarrow> 'f dsp \<Rightarrow> 'f dsp" where
  "store_band_gain ch b x d = d\<lparr>outputparam := (outputparam d)[unat (DSP23_OutputYtype d) :=
     (out_params d)\<lparr>EQBandGain := (EQBandGain (out_params d))[ch := (EQBandGain (out_params d) ! ch)[b - 1 := x]]\<rparr>]\<rparr>"

lemma store_band_gain_ok:
  assumes "dsp_ok d" "ch < 30"
  shows "dsp_ok (store_band_gain ch b x d)"
proof -
  note d = dsp_outputs [OF assms(1)]
  have "out_ok ((out_params d)\<lparr>EQBandGain := (EQBandGain (out_params d))[ch := (EQBandGain (out_params d) ! ch)[b - 1 := x]]\<rparr>)"
    using d(3) assms(2) matrix_nth [of 30 33 "EQBandGain (out_params d)" ch]
    by (auto simp: out_ok_def intro: matrix_update)
  with assms(1) show ?thesis by (auto simp: dsp_ok_def store_band_gain_def dest!: subsetD [OF set_update_subset_insert])
qed

lemma store_band_gain_cuts:
  assumes "dsp_ok d"
  shows "low_cut (store_band_gain ch b x d) = low_cut d" "high_cut (store_band_gain ch b x d) = high_cut d"
  using dsp_outputs [OF assms]
  by (auto simp: fun_eq_iff low_cut_def high_cut_def store_band_gain_def out_params_def nth_list_update)

lemma store_band_gain_total:
  assumes "dsp_ok d" "ch < 14" "1 \<le> b" "b \<le> 31" "1 \<le> j"
  shows "total_gain F (store_band_gain ch b x d) i j =
    (if i = ch \<and> j = b then fadd F x (EQBandGain (out_params d) ! 29 ! (b - 1)) else total_gain F d i j)"
proof -
  note d = dsp_outputs [OF assms(1)]
  have "length (EQBandGain (out_params d)) = 30" "length (EQBandGain (out_params d) ! ch) = 33"
    using d(3) assms(2) matrix_nth [of 30 33 "EQBandGain (out_params d)" ch] by (auto simp: out_ok_def matrix_ok_def)
  moreover have "out_params (store_band_gain ch b x d) =
      (out_params d)\<lparr>EQBandGain := (EQBandGain (out_params d))[ch := (EQBandGain (out_params d) ! ch)[b - 1 := x]]\<rparr>"
    using d(1) by (simp add: out_params_def store_band_gain_def)
  ultimately show ?thesis using assms(2-5) by (auto simp: total_gain_def nth_list_update)
qed

lemma fill_eq_cong:
  assumes "\<And>i j. i < n \<Longrightarrow> 1 \<le> j \<Longrightarrow> g i j = h i j"
  shows "fill_eq F g lo hi n m = fill_eq F h lo hi n m"
proof -
  have "bank F (g i) 31 = bank F (h i) 31" if "i < n" for i
    unfolding bank_def using assms [OF that] by (intro arg_cong [where f = concat] map_cong) auto
  then show ?thesis unfolding fill_eq_def by (simp cong: if_cong)
qed

text \<open>
  C35: the incremental update of the equalizer agrees with the full one. Recomputing one band of one channel with
  \<open>sim_31band_EQ_setgaintofilters\<close> gives the same memory as storing the gain and recomputing all filters
  with \<open>sim_31band_EQ_outputparamset\<close>.
\<close>

theorem eq_update_incremental:
  assumes "dsp_ok d" "eq_mem_ok m" "ch < 14" "1 \<le> b" "b \<le> 31"
  shows "\<exists>m1 m2. sim_31band_EQ_outputparamset F d m = Inr m1 \<and>
    sim_31band_EQ_setgaintofilters F (int b) (int ch) (fadd F x (EQBandGain (out_params d) ! 29 ! (b - 1))) m1 = Inr m2 \<and>
    sim_31band_EQ_outputparamset F (store_band_gain ch b x d) m = Inr m2"
proof -
  have ok: "dsp_ok (store_band_gain ch b x d)" using assms by (intro store_band_gain_ok) simp_all
  let ?g = "\<lambda>i. if i = ch then (total_gain F d ch)(b := fadd F x (EQBandGain (out_params d) ! 29 ! (b - 1))) else total_gain F d i"
  have "fill_eq F (total_gain F (store_band_gain ch b x d)) (low_cut d) (high_cut d) 14 m =
      fill_eq F ?g (low_cut d) (high_cut d) 14 m"
    by (intro fill_eq_cong) (simp add: store_band_gain_total [OF assms(1,3-5)])
  with set_band_fill [OF assms(2,3) _ assms(4,5), of F "fadd F x (EQBandGain (out_params d) ! 29 ! (b - 1))"
      "total_gain F d" "low_cut d" "high_cut d"] show ?thesis
    by (simp add: outputparamset_fill [OF assms(1,2)] outputparamset_fill [OF ok assms(2)] setgain_band [OF assms(4,5)]
        store_band_gain_cuts [OF assms(1)])
qed

lemma eq_mem_reset_ok: "eq_mem_ok (eq_mem_reset F)"
  by (simp add: eq_mem_ok_def eq_mem_reset_def Let_def)

theorem eq_update_incremental_witness:
  "\<exists>m1 m2. sim_31band_EQ_outputparamset real_dspflt (dsp_reset real_flt) (eq_mem_reset real_dspflt) = Inr m1 \<and>
    sim_31band_EQ_outputparamset real_dspflt (store_band_gain 2 18 6 (dsp_reset real_flt)) (eq_mem_reset real_dspflt) = Inr m2 \<and>
    sim_31band_EQ_setgaintofilters real_dspflt 18 2
      (fadd real_dspflt 6 (EQBandGain (out_params (dsp_reset real_flt)) ! 29 ! 17)) m1 = Inr m2"
  using eq_update_incremental [OF dsp_reset_ok [of real_flt] eq_mem_reset_ok [of real_dspflt], of 2 18 real_dspflt 6] by auto

lemma put_div_ok:
  assumes "eq_mem_ok m" "i < 72" "off + length cs \<le> 10"
  shows "put_div (int i) off cs m = Inr (m\<lparr>filter_cf_frequencydivion :=
      (filter_cf_frequencydivion m)[i := overlay (filter_cf_frequencydivion m ! i) off cs]\<rparr>)"
    "eq_mem_ok (m\<lparr>filter_cf_frequencydivion := (filter_cf_frequencydivion m)[i := overlay (filter_cf_frequencydivion m ! i) off cs]\<rparr>)"
proof -
  have r: "matrix_ok 72 10 (filter_cf_frequencydivion m)" using assms(1) by (simp add: eq_mem_ok_def)
  show "put_div (int i) off cs m = Inr (m\<lparr>filter_cf_frequencydivion :=
      (filter_cf_frequencydivion m)[i := overlay (filter_cf_frequencydivion m ! i) off cs]\<rparr>)"
    using put_cf_ok [OF r assms(2,3)] by (simp add: put_div_def)
  show "eq_mem_ok (m\<lparr>filter_cf_frequencydivion := (filter_cf_frequencydivion m)[i := overlay (filter_cf_frequencydivion m ! i) off cs]\<rparr>)"
    using assms(1) overlay_matrix [OF r assms(2,3)] by (simp add: eq_mem_ok_def)
qed

lemma div_call_ok:
  assumes "eq_mem_ok m" "i < 72" "off \<le> 5"
  shows "\<exists>m'. filter_call_run F (DivLPF i off f) m = Inr m' \<and> eq_mem_ok m'"
    "\<exists>m'. filter_call_run F (DivHPF i off f) m = Inr m' \<and> eq_mem_ok m'"
  using put_div_ok [OF assms(1,2), of off "set_EQ_LPF F f"] put_div_ok [OF assms(1,2), of off "set_EQ_HPF F f"] assms(3)
  by simp_all

lemma foldE_invariant:
  assumes "P s" "\<And>x s. x \<in> set xs \<Longrightarrow> P s \<Longrightarrow> \<exists>s'. f x s = Inr s' \<and> P s'"
  shows "\<exists>s'. foldE f xs s = Inr s' \<and> P s'"
  using assms
proof (induction xs arbitrary: s)
  case (Cons x xs)
  obtain s' where "f x s = Inr s'" "P s'" using Cons.prems(2) [of x s] Cons.prems(1) by auto
  moreover have "\<exists>s''. foldE f xs s' = Inr s'' \<and> P s''" using Cons.prems(2) \<open>P s'\<close> by (intro Cons.IH) auto
  ultimately show ?case by auto
qed simp

lemma division_filter_ok:
  assumes "eq_ok e" "eq_mem_ok m" "i < 16"
  shows "\<exists>m'. division_filter F e i m = Inr m' \<and> eq_mem_ok m'"
proof -
  have len: "length (divisionbandnum_set e) = 16" "length (fc_division e) = 16" "length (fc_division e ! i) = 2"
    using assms(1,3) matrix_nth [of 16 2 "fc_division e" i] by (auto simp: eq_ok_def matrix_ok_def)
  have calls: "\<exists>m'. foldE (filter_call_run F) cs m = Inr m' \<and> eq_mem_ok m'"
    if "\<forall>c \<in> set cs. \<exists>j off f. j < 72 \<and> off \<le> 5 \<and> (c = DivLPF j off f \<or> c = DivHPF j off f)" for cs
    using assms(2) that by (intro foldE_invariant [where P = eq_mem_ok]) (auto intro!: div_call_ok dest!: bspec)
  show ?thesis
    using len assms(2,3)
    by (auto simp: division_filter_def iget_ok simp del: foldE.simps foldE_single filter_call_run.simps intro!: calls)
qed

text \<open>
  \<open>init_divisionfilter\<close> runs over 24 channels although the tables have 16: in every state it succeeds for the 16
  channels and then reads behind \<open>divisionbandnum_set\<close>.
\<close>

theorem init_divisionfilter_overrun:
  assumes "eq_ok e" "eq_mem_ok m"
  shows "(\<exists>m'. foldE (division_filter F e) [0..<16] m = Inr m' \<and> eq_mem_ok m') \<and>
    init_divisionfilter F e m = Inl (OutOfBounds ''divisionbandnum_set'')"
proof -
  have l: "length (divisionbandnum_set e) = 16" using assms(1) by (simp add: eq_ok_def)
  have "\<exists>m'. foldE (division_filter F e) [0..<16] m = Inr m' \<and> eq_mem_ok m'"
    by (rule foldE_invariant [where P = eq_mem_ok, OF assms(2)])
      (use division_filter_ok [OF assms(1)] in \<open>auto simp del: upt_rec_numeral\<close>)
  then obtain m' where m': "foldE (division_filter F e) [0..<16] m = Inr m'" "eq_mem_ok m'" by blast
  have "[0..<24] = [0..<16] @ 16 # [17..<24]" by (simp add: upt_rec)
  then have "init_divisionfilter F e m = bindE (foldE (division_filter F e) [0..<16] m) (foldE (division_filter F e) (16 # [17..<24]))"
    unfolding init_divisionfilter_def by (simp only: foldE_append)
  then have "init_divisionfilter F e m = foldE (division_filter F e) (16 # [17..<24]) m'" by (simp only: m' bindE_simps)
  with m' l show ?thesis by (simp add: division_filter_def iget_def del: upt_rec_numeral)
qed

theorem init_divisionfilter_overrun_witness:
  "init_divisionfilter real_dspflt (eq (dsp_reset real_flt)) (eq_mem_reset real_dspflt) = Inl (OutOfBounds ''divisionbandnum_set'')"
proof -
  have "eq_ok (eq (dsp_reset real_flt))" using dsp_reset_ok [of real_flt] by (simp add: dsp_ok_def)
  from init_divisionfilter_overrun [OF this eq_mem_reset_ok] show ?thesis by blast
qed

end
