(* ===== verification/Filter_Stream.thy ===== *)
theory Filter_Stream
  imports Filter_Bank
begin

text \<open>
  The filters of \<open>EQ.c\<close> on a stream of blocks. A second order section is specified by its difference equation; a
  cascade feeds each section with the output of the one before. The locale \<open>biquad_lib\<close> is what the
  documentation of the run-time library says of \<open>biquad\<close>: a cascade with memory between the calls.
\<close>

section \<open>Reference\<close>

text \<open>The state is \<open>(y2, y1, x2, x1)\<close>, the two outputs and the two inputs before.\<close>

fun sect :: "real list \<Rightarrow> real \<times> real \<times> real \<times> real \<Rightarrow> real list \<Rightarrow> real list \<times> (real \<times> real \<times> real \<times> real)" where
  "sect cs s [] = ([], s)"
| "sect cs (y2, y1, x2, x1) (x # xs) =
     (let y = cs ! 4 * x + cs ! 3 * x1 + cs ! 2 * x2 + cs ! 1 * y1 + cs ! 0 * y2;
          r = sect cs (y1, y, x1, x) xs
      in (y # fst r, snd r))"

definition sect_out :: "real list \<Rightarrow> real list \<Rightarrow> real list" where
  "sect_out cs xs = fst (sect cs (0, 0, 0, 0) xs)"

fun cascade :: "nat \<Rightarrow> real list \<Rightarrow> real list \<Rightarrow> real list" where
  "cascade 0 cs xs = xs"
| "cascade (Suc n) cs xs = cascade n (drop 5 cs) (sect_out (take 5 cs) xs)"

lemma sect_append:
  "sect cs s (xs @ ys) = (let r = sect cs s xs; t = sect cs (snd r) ys in (fst r @ fst t, snd t))"
  by (induction cs s xs rule: sect.induct) (simp_all add: Let_def)

lemma length_sect [simp]: "length (fst (sect cs s xs)) = length xs"
  by (induction cs s xs rule: sect.induct) (simp_all add: Let_def)

lemma length_sect_out [simp]: "length (sect_out cs xs) = length xs"
  by (simp add: sect_out_def)

lemma sect_out_append: "\<exists>zs. sect_out cs (xs @ ys) = sect_out cs xs @ zs"
  by (simp add: sect_out_def sect_append Let_def)

lemma length_cascade [simp]: "length (cascade n cs xs) = length xs"
  by (induction n cs xs rule: cascade.induct) simp_all

lemma cascade_append: "\<exists>zs. cascade n cs (xs @ ys) = cascade n cs xs @ zs"
proof (induction n arbitrary: cs xs ys)
  case (Suc n)
  obtain zs where "sect_out (take 5 cs) (xs @ ys) = sect_out (take 5 cs) xs @ zs" using sect_out_append by blast
  with Suc show ?case by simp
qed simp

text \<open>Filters are causal.\<close>

lemma cascade_causal: "take (length xs) (cascade n cs (xs @ ys)) = cascade n cs xs"
proof -
  obtain zs where "cascade n cs (xs @ ys) = cascade n cs xs @ zs" using cascade_append by blast
  then show ?thesis by simp
qed

lemma sect_equation:
  assumes "n < length xs"
  shows "let X = x2 # x1 # xs; Y = y2 # y1 # fst (sect cs (y2, y1, x2, x1) xs) in
    Y ! (n + 2) = cs ! 4 * X ! (n + 2) + cs ! 3 * X ! (n + 1) + cs ! 2 * X ! n + cs ! 1 * Y ! (n + 1) + cs ! 0 * Y ! n"
  using assms
proof (induction xs arbitrary: n y2 y1 x2 x1)
  case (Cons x xs)
  let ?y = "cs ! 4 * x + cs ! 3 * x1 + cs ! 2 * x2 + cs ! 1 * y1 + cs ! 0 * y2"
  have f: "fst (sect cs (y2, y1, x2, x1) (x # xs)) = ?y # fst (sect cs (y1, ?y, x1, x) xs)"
    by (simp add: Let_def)
  show ?case
  proof (cases n)
    case 0
    then show ?thesis unfolding f by simp
  next
    case (Suc k)
    with Cons.IH [of k x1 x y1 ?y] Cons.prems show ?thesis unfolding f by (simp add: Let_def)
  qed
qed simp

text \<open>A section whose numerator is its denominator passes the signal.\<close>

lemma sect_transparent:
  assumes "cs ! 4 = 1" "cs ! 3 = - (cs ! 1)" "cs ! 2 = - (cs ! 0)"
  shows "fst (sect cs (a, b, a, b) xs) = xs"
  using assms by (induction xs arbitrary: a b) (simp_all add: Let_def)

lemma cascade_transparent:
  assumes "length cs = 5 * n"
    and "\<And>i. i < n \<Longrightarrow> cs ! (5 * i + 4) = 1 \<and> cs ! (5 * i + 3) = - (cs ! (5 * i + 1)) \<and> cs ! (5 * i + 2) = - (cs ! (5 * i))"
  shows "cascade n cs xs = xs"
  using assms
proof (induction n arbitrary: cs)
  case (Suc n)
  have "sect_out (take 5 cs) xs = xs"
    unfolding sect_out_def using Suc.prems(2) [of 0] by (intro sect_transparent) (simp_all add: numeral_2_eq_2)
  moreover have "cascade n (drop 5 cs) xs = xs"
  proof (rule Suc.IH)
    fix i assume "i < n"
    then show "drop 5 cs ! (5 * i + 4) = 1 \<and> drop 5 cs ! (5 * i + 3) = - (drop 5 cs ! (5 * i + 1)) \<and>
        drop 5 cs ! (5 * i + 2) = - (drop 5 cs ! (5 * i))"
      using Suc.prems(1) Suc.prems(2) [of "Suc i"] by (simp add: add.assoc [symmetric] add.commute [of 5])
  qed (use Suc.prems(1) in simp)
  ultimately show ?case by simp
qed simp

section \<open>Streams of blocks\<close>

fun stream :: "('x \<Rightarrow> 's \<Rightarrow> 'e + 'y \<times> 's) \<Rightarrow> 'x list \<Rightarrow> 's \<Rightarrow> 'e + 'y list \<times> 's" where
  "stream f [] s = Inr ([], s)"
| "stream f (x # xs) s = bindE (f x s) (\<lambda>(y, s). bindE (stream f xs s) (\<lambda>(ys, s). Inr (y # ys, s)))"

text \<open>
  \<open>I h s\<close>: the state \<open>s\<close> has seen the samples \<open>h\<close>. A block function that continues a causal map on whole signals gives
  the same signal however it is cut into blocks.
\<close>

lemma stream_causal_blocks:
  fixes f :: "'a list \<Rightarrow> 's \<Rightarrow> 'e + 'b list \<times> 's"
  assumes "I h s" "list_all P xss"
    and "\<And>h x s. I h s \<Longrightarrow> P x \<Longrightarrow> \<exists>s'. f x s = Inr (drop (length h) (G (h @ x)), s') \<and> I (h @ x) s'"
    and "\<And>x y. take (length x) (G (x @ y)) = G x" "\<And>x. length (G x) = length x"
  shows "\<exists>yss s'. stream f xss s = Inr (yss, s') \<and> concat yss = drop (length h) (G (h @ concat xss)) \<and>
    map length yss = map length xss \<and> I (h @ concat xss) s'"
  using assms(1,2)
proof (induction xss arbitrary: h s)
  case Nil
  then show ?case using assms(5) by simp
next
  case (Cons x xss)
  obtain s1 where s1: "f x s = Inr (drop (length h) (G (h @ x)), s1)" "I (h @ x) s1"
    using assms(3) [OF Cons.prems(1), of x] Cons.prems(2) by auto
  from Cons.IH [OF s1(2)] Cons.prems(2) obtain yss s' where t: "stream f xss s1 = Inr (yss, s')"
    "concat yss = drop (length (h @ x)) (G ((h @ x) @ concat xss))" "map length yss = map length xss"
    "I ((h @ x) @ concat xss) s'" by auto
  let ?G = "G (h @ x @ concat xss)"
  have "G (h @ x) = take (length (h @ x)) ?G" using assms(4) [of "h @ x" "concat xss"] by simp
  then have "drop (length h) (G (h @ x)) @ concat yss = drop (length h) (take (length (h @ x)) ?G) @ drop (length (h @ x)) ?G"
    by (simp add: t(2))
  also have "\<dots> = take (length x) (drop (length h) ?G) @ drop (length x) (drop (length h) ?G)"
    by (simp add: drop_take add.commute)
  also have "\<dots> = drop (length h) ?G" by (rule append_take_drop_id)
  finally show ?case using s1 t assms(5) by simp
qed

lemma stream_causal:
  fixes f :: "'a list \<Rightarrow> 's \<Rightarrow> 'e + 'b list \<times> 's"
  assumes "I h s"
    and "\<And>h x s. I h s \<Longrightarrow> \<exists>s'. f x s = Inr (drop (length h) (G (h @ x)), s') \<and> I (h @ x) s'"
    and "\<And>x y. take (length x) (G (x @ y)) = G x" "\<And>x. length (G x) = length x"
  shows "\<exists>yss s'. stream f xss s = Inr (yss, s') \<and> concat yss = drop (length h) (G (h @ concat xss)) \<and>
    map length yss = map length xss \<and> I (h @ concat xss) s'"
  by (rule stream_causal_blocks [where I = I and P = "\<lambda>_. True", OF assms(1) _ assms(2-4)]) (simp_all add: list_all_iff)

section \<open>The high pass of the code\<close>

text \<open>\<open>filter_process_HPF_block_dl\<close> keeps the state of the reference in four of its five cells.\<close>

definition dl_cells :: "real \<times> real \<times> real \<times> real \<Rightarrow> real \<Rightarrow> real list" where
  "dl_cells s u = (case s of (y2, y1, x2, x1) \<Rightarrow> [y2, y1, x2, x1, u])"

lemma hpf_dl_loop_sect:
  "hpf_dl_loop real_dspflt cs xs (dl_cells s u) = (fst (sect cs s xs), dl_cells (snd (sect cs s xs)) u)"
proof (induction cs s xs rule: sect.induct)
  case (2 cs y2 y1 x2 x1 x xs)
  let ?y = "cs ! 4 * x + cs ! 3 * x1 + cs ! 2 * x2 + cs ! 1 * y1 + cs ! 0 * y2"
  have "hpf_dl_sample real_dspflt cs (dl_cells (y2, y1, x2, x1) u) x = (?y, dl_cells (y1, ?y, x1, x) u)"
    by (simp add: hpf_dl_sample_def dl_cells_def real_dspflt_simps Let_def algebra_simps)
  with 2 show ?case by (simp add: Let_def)
qed simp

lemma sect_out_continue: "drop (length h) (sect_out cs (h @ x)) = fst (sect cs (snd (sect cs (0, 0, 0, 0) h)) x)"
  by (simp add: sect_out_def sect_append Let_def)

definition hpf_seen :: "nat \<Rightarrow> real list \<Rightarrow> real list \<Rightarrow> real eq_mem \<Rightarrow> bool" where
  "hpf_seen ch cf h m \<longleftrightarrow> length (filter_cf_HPF_dl m) = 24 \<and> length (filter_state_HPF_dl m) = 24 \<and> filter_cf_HPF_dl m ! ch = cf \<and>
     filter_state_HPF_dl m ! ch = dl_cells (snd (sect cf (0, 0, 0, 0) h)) 0"

lemma hpf_block:
  assumes "hpf_seen ch cf h m" "ch < 24"
  shows "\<exists>m'. filter_process_HPF_block_dl real_dspflt (int ch) x m = Inr (drop (length h) (sect_out cf (h @ x)), m') \<and>
    hpf_seen ch cf (h @ x) m'"
proof (cases "length x < 1")
  case True
  with assms show ?thesis by (simp add: filter_process_HPF_block_dl_def hpf_seen_def)
next
  case False
  with assms show ?thesis
    by (simp add: filter_process_HPF_block_dl_def hpf_seen_def iget_ok iput_ok hpf_dl_loop_sect sect_out_continue
        sect_append Let_def)
qed

lemma sect_out_causal: "take (length x) (sect_out cs (x @ y)) = sect_out cs x"
  using sect_out_append [of cs x y] by auto

text \<open>All cells of a channel are 0, as after start-up or \<open>zero_filterstate\<close>.\<close>

lemma hpf_stream_sect:
  assumes "eq_mem_ok m" "ch < 24" "filter_state_HPF_dl m ! ch = replicate 5 0"
  shows "\<exists>yss m'. stream (filter_process_HPF_block_dl real_dspflt (int ch)) xss m = Inr (yss, m') \<and>
    concat yss = sect_out (filter_cf_HPF_dl m ! ch) (concat xss) \<and> map length yss = map length xss"
proof -
  have "hpf_seen ch (filter_cf_HPF_dl m ! ch) [] m"
    using assms by (simp add: hpf_seen_def dl_cells_def eq_mem_ok_def matrix_ok_def numeral_eq_Suc)
  from stream_causal [where I = "hpf_seen ch (filter_cf_HPF_dl m ! ch)" and xss = xss and
      f = "filter_process_HPF_block_dl real_dspflt (int ch)", OF this hpf_block [OF _ assms(2)] sect_out_causal]
  show ?thesis by auto
qed

text \<open>
  The high pass of a channel. However the signal is cut into blocks, the output of
  \<open>filter_process_HPF_block_dl\<close> satisfies the difference equation of the section over the whole signal, with
  silence before its start.
\<close>

theorem hpf_difference_equation:
  assumes "eq_mem_ok m" "ch < 24" "filter_state_HPF_dl m ! ch = replicate 5 0"
  shows "\<exists>yss m'. stream (filter_process_HPF_block_dl real_dspflt (int ch)) xss m = Inr (yss, m') \<and>
    map length yss = map length xss \<and>
    (let cf = filter_cf_HPF_dl m ! ch; X = 0 # 0 # concat xss; Y = 0 # 0 # concat yss in
     \<forall>n < length (concat xss). Y ! (n + 2) =
       cf ! 4 * X ! (n + 2) + cf ! 3 * X ! (n + 1) + cf ! 2 * X ! n + cf ! 1 * Y ! (n + 1) + cf ! 0 * Y ! n)"
proof -
  obtain yss m' where s: "stream (filter_process_HPF_block_dl real_dspflt (int ch)) xss m = Inr (yss, m')"
    "concat yss = sect_out (filter_cf_HPF_dl m ! ch) (concat xss)" "map length yss = map length xss"
    using hpf_stream_sect [OF assms] by blast
  then show ?thesis
    using sect_equation [of _ "concat xss" 0 0 0 0 "filter_cf_HPF_dl m ! ch"] by (simp add: sect_out_def Let_def)
qed

theorem hpf_difference_equation_witness:
  "\<exists>yss m'. stream (filter_process_HPF_block_dl real_dspflt 0) [[1, 2], [3]] (eq_mem_reset real_dspflt) = Inr (yss, m') \<and>
    map length yss = [2, 1]"
  using hpf_difference_equation [OF eq_mem_reset_ok, of 0 real_dspflt "[[1, 2], [3]]"]
  by (auto simp: eq_mem_reset_def Let_def real_dspflt_simps)

section \<open>The library\<close>

locale biquad_lib =
  fixes bq :: "real biquad"
    and hist :: "real list \<Rightarrow> nat \<Rightarrow> real list \<Rightarrow> real list \<Rightarrow> bool"
  assumes start: "length cs = 5 * n \<Longrightarrow> hist cs n (replicate (2 * n + 1) 0) []"
    and run: "\<lbrakk>hist cs n st h; length cs = 5 * n\<rbrakk> \<Longrightarrow>
      \<exists>st'. bq cs st n xs = (drop (length h) (cascade n cs (h @ xs)), st') \<and> hist cs n st' (h @ xs)"
    and size: "hist cs n st h \<Longrightarrow> length st = 2 * n + 1"
begin

text \<open>A call of \<open>biquad\<close> through pointers into the memory.\<close>

lemma at_run:
  assumes "i < length cfs" "i < length sts" "off + 5 * n \<le> length (cfs ! i)" "off + 2 * n + 1 \<le> length (sts ! i)"
    and "hist (take (5 * n) (drop off (cfs ! i))) n (take (2 * n + 1) (drop off (sts ! i))) h"
  shows "\<exists>st. biquad_at bq nm cfs sts (int i) off n xs =
      Inr (drop (length h) (cascade n (take (5 * n) (drop off (cfs ! i))) (h @ xs)), sts[i := st]) \<and>
    length st = length (sts ! i) \<and> hist (take (5 * n) (drop off (cfs ! i))) n (take (2 * n + 1) (drop off st)) (h @ xs)"
proof -
  let ?cs = "take (5 * n) (drop off (cfs ! i))" and ?s = "take (2 * n + 1) (drop off (sts ! i))"
  have "length ?cs = 5 * n" using assms(3) by simp
  from run [OF assms(5) this] obtain s where s: "bq ?cs ?s n xs = (drop (length h) (cascade n ?cs (h @ xs)), s)"
    "hist ?cs n s (h @ xs)" by blast
  have l: "length s = 2 * n + 1" by (rule size [OF s(2)])
  have "take (2 * n + 1) (drop off (overlay (sts ! i) off s)) = s"
    using assms(4) l by (simp add: overlay_def)
  moreover have "length (overlay (sts ! i) off s) = length (sts ! i)" using assms(4) l by (intro length_overlay) simp
  ultimately show ?thesis
    using s assms(1-4) by (intro exI [of _ "overlay (sts ! i) off s"]) (simp add: biquad_at_def iget_ok iput_ok)
qed

definition lib_seen :: "(real eq_mem \<Rightarrow> real list list) \<Rightarrow> (real eq_mem \<Rightarrow> real list list) \<Rightarrow> nat \<Rightarrow> nat \<Rightarrow> nat \<Rightarrow>
    real list \<Rightarrow> real list \<Rightarrow> real eq_mem \<Rightarrow> bool" where
  "lib_seen cfs sts i off n cs h m \<longleftrightarrow> i < length (cfs m) \<and> i < length (sts m) \<and> off + 5 * n \<le> length (cfs m ! i) \<and>
     off + 2 * n + 1 \<le> length (sts m ! i) \<and> take (5 * n) (drop off (cfs m ! i)) = cs \<and>
     hist cs n (take (2 * n + 1) (drop off (sts m ! i))) h"

lemma lib_seen_start:
  assumes "matrix_ok r c (cfs m)" "matrix_ok r c' (sts m)" "i < r" "off + 5 * n \<le> c" "off + 2 * n + 1 \<le> c'"
    and "sts m ! i = replicate c' 0"
  shows "lib_seen cfs sts i off n (take (5 * n) (drop off (cfs m ! i))) [] m"
proof -
  have "length (cfs m ! i) = c" "length (cfs m) = r" "length (sts m) = r"
    using assms matrix_nth [OF assms(1,3)] by (simp_all add: matrix_ok_def)
  moreover have "take (2 * n + 1) (drop off (sts m ! i)) = replicate (2 * n + 1) 0"
  proof -
    have "min (c' - off) (2 * n + 1) = 2 * n + 1" using assms(5) by linarith
    then show ?thesis unfolding assms(6) drop_replicate take_replicate by (simp only: min.commute)
  qed
  moreover have "length (take (5 * n) (drop off (cfs m ! i))) = 5 * n" using calculation(1) assms(4) by simp
  ultimately show ?thesis using assms start by (simp add: lib_seen_def)
qed

lemma GEQ_block:
  assumes "lib_seen filter_cf_31b filter_state_31b ch 10 29 cs h m"
  shows "\<exists>m'. filter_process_GEQ_block bq (int ch) x m = Inr (drop (length h) (cascade 29 cs (h @ x)), m') \<and>
    lib_seen filter_cf_31b filter_state_31b ch 10 29 cs (h @ x) m'"
proof (cases "length x < 1")
  case True
  with assms show ?thesis by (simp add: filter_process_GEQ_block_def)
next
  case False
  from assms at_run [of ch "filter_cf_31b m" "filter_state_31b m" 10 29 h "''filter_cf_31b''" x] False show ?thesis
    by (auto simp: lib_seen_def filter_process_GEQ_block_def Band_count_GEQ_def)
qed

lemma HPF_block:
  assumes "lib_seen filter_cf_HPF filter_state_HPF ch 0 1 cs h m"
  shows "\<exists>m'. filter_process_HPF_block bq (int ch) x m = Inr (drop (length h) (cascade 1 cs (h @ x)), m') \<and>
    lib_seen filter_cf_HPF filter_state_HPF ch 0 1 cs (h @ x) m'"
proof (cases "length x < 1")
  case True
  with assms show ?thesis by (simp add: filter_process_HPF_block_def)
next
  case False
  from assms at_run [of ch "filter_cf_HPF m" "filter_state_HPF m" 0 1 h "''filter_cf_HPF''" x] False show ?thesis
    by (auto simp: lib_seen_def filter_process_HPF_block_def)
qed

lemma LPF_block:
  assumes "lib_seen filter_cf_LPF filter_state_LPF ch 0 1 cs h m"
  shows "\<exists>m'. filter_process_LPF_block bq (int ch) x m = Inr (drop (length h) (cascade 1 cs (h @ x)), m') \<and>
    lib_seen filter_cf_LPF filter_state_LPF ch 0 1 cs (h @ x) m'"
proof (cases "length x < 1")
  case True
  with assms show ?thesis by (simp add: filter_process_LPF_block_def)
next
  case False
  from assms at_run [of ch "filter_cf_LPF m" "filter_state_LPF m" 0 1 h "''filter_cf_LPF''" x] False show ?thesis
    by (auto simp: lib_seen_def filter_process_LPF_block_def)
qed

text \<open>The equalizer and the library's high pass on streams.\<close>

lemma GEQ_stream:
  assumes "lib_seen filter_cf_31b filter_state_31b ch 10 29 cs [] m"
  shows "\<exists>yss m'. stream (filter_process_GEQ_block bq (int ch)) xss m = Inr (yss, m') \<and>
    concat yss = cascade 29 cs (concat xss) \<and> map length yss = map length xss"
  using stream_causal [where I = "lib_seen filter_cf_31b filter_state_31b ch 10 29 cs" and xss = xss and
      f = "filter_process_GEQ_block bq (int ch)", OF assms GEQ_block cascade_causal length_cascade]
  by auto

lemma HPF_stream:
  assumes "lib_seen filter_cf_HPF filter_state_HPF ch 0 1 cs [] m"
  shows "\<exists>yss m'. stream (filter_process_HPF_block bq (int ch)) xss m = Inr (yss, m') \<and>
    concat yss = cascade 1 cs (concat xss) \<and> map length yss = map length xss"
  using stream_causal [where I = "lib_seen filter_cf_HPF filter_state_HPF ch 0 1 cs" and xss = xss and
      f = "filter_process_HPF_block bq (int ch)", OF assms HPF_block cascade_causal length_cascade]
  by auto

end

text \<open>An implementation with two words of state per section (direct form II) satisfies the contract.\<close>

fun df2_run :: "real list \<Rightarrow> real \<times> real \<Rightarrow> real list \<Rightarrow> real list \<times> (real \<times> real)" where
  "df2_run cs s [] = ([], s)"
| "df2_run cs (w1, w2) (x # xs) =
     (let w = x + cs ! 1 * w1 + cs ! 0 * w2; r = df2_run cs (w, w1) xs
      in ((cs ! 4 * w + cs ! 3 * w1 + cs ! 2 * w2) # fst r, snd r))"

fun df2_bq :: "real biquad" where
  "df2_bq cs st 0 xs = (xs, st)"
| "df2_bq cs st (Suc n) xs =
     (let r = df2_run (take 5 cs) (st ! 0, st ! 1) xs; t = df2_bq (drop 5 cs) (drop 2 st) n (fst r)
      in (fst t, fst (snd r) # snd (snd r) # snd t))"

definition df2_hist :: "real list \<Rightarrow> nat \<Rightarrow> real list \<Rightarrow> real list \<Rightarrow> bool" where
  "df2_hist cs n st h \<longleftrightarrow> st = snd (df2_bq cs (replicate (2 * n + 1) 0) n h)"

definition same_history :: "real list \<Rightarrow> real \<times> real \<times> real \<times> real \<Rightarrow> real \<times> real \<Rightarrow> bool" where
  "same_history cs s w \<longleftrightarrow> (case s of (y2, y1, x2, x1) \<Rightarrow> case w of (w1, w2) \<Rightarrow> \<exists>w3 w4.
     x1 = w1 - cs ! 1 * w2 - cs ! 0 * w3 \<and> x2 = w2 - cs ! 1 * w3 - cs ! 0 * w4 \<and>
     y1 = cs ! 4 * w1 + cs ! 3 * w2 + cs ! 2 * w3 \<and> y2 = cs ! 4 * w2 + cs ! 3 * w3 + cs ! 2 * w4)"

lemma same_historyI:
  "\<lbrakk>x1 = w1 - cs ! 1 * w2 - cs ! 0 * w3; x2 = w2 - cs ! 1 * w3 - cs ! 0 * w4;
    y1 = cs ! 4 * w1 + cs ! 3 * w2 + cs ! 2 * w3; y2 = cs ! 4 * w2 + cs ! 3 * w3 + cs ! 2 * w4\<rbrakk> \<Longrightarrow>
   same_history cs (y2, y1, x2, x1) (w1, w2)"
  unfolding same_history_def by blast

lemma df2_run_sect:
  assumes "same_history cs s w"
  shows "fst (df2_run cs w xs) = fst (sect cs s xs)"
  using assms
proof (induction xs arbitrary: s w)
  case (Cons x xs)
  obtain y2 y1 x2 x1 where s: "s = (y2, y1, x2, x1)" by (cases s)
  obtain w1 w2 where w: "w = (w1, w2)" by (cases w)
  from Cons.prems obtain w3 w4 where h: "x1 = w1 - cs ! 1 * w2 - cs ! 0 * w3" "x2 = w2 - cs ! 1 * w3 - cs ! 0 * w4"
    "y1 = cs ! 4 * w1 + cs ! 3 * w2 + cs ! 2 * w3" "y2 = cs ! 4 * w2 + cs ! 3 * w3 + cs ! 2 * w4"
    by (auto simp: same_history_def s w)
  let ?w = "x + cs ! 1 * w1 + cs ! 0 * w2"
  let ?y = "cs ! 4 * x + cs ! 3 * x1 + cs ! 2 * x2 + cs ! 1 * y1 + cs ! 0 * y2"
  have y: "?y = cs ! 4 * ?w + cs ! 3 * w1 + cs ! 2 * w2" unfolding h by (simp add: algebra_simps)
  have "same_history cs (y1, ?y, x1, x) (?w, w1)"
    unfolding y by (rule same_historyI [where ?w3.0 = w2 and ?w4.0 = w3]) (simp_all add: h)
  from Cons.IH [OF this] y show ?case by (simp add: s w Let_def)
qed simp

lemma df2_run_append:
  "df2_run cs w (xs @ ys) = (let r = df2_run cs w xs; t = df2_run cs (snd r) ys in (fst r @ fst t, snd t))"
  by (induction cs w xs rule: df2_run.induct) (simp_all add: Let_def)

lemma df2_bq_append:
  "2 * n \<le> length st \<Longrightarrow> df2_bq cs st n (xs @ ys) =
     (let r = df2_bq cs st n xs; t = df2_bq cs (snd r) n ys in (fst r @ fst t, snd t))"
proof (induction n arbitrary: cs st xs ys)
  case (Suc n)
  then have "2 * n \<le> length (drop 2 st)" by simp
  with Suc.IH show ?case by (simp add: df2_run_append Let_def)
qed simp

lemma df2_bq_Nil: "2 * n \<le> length st \<Longrightarrow> snd (df2_bq cs st n []) = st"
proof (induction n arbitrary: cs st)
  case (Suc n)
  then obtain a b st' where "st = a # b # st'" by (cases st; cases "tl st") auto
  with Suc show ?case by (simp add: Let_def)
qed simp

lemma length_df2_bq: "2 * n \<le> length st \<Longrightarrow> length (snd (df2_bq cs st n xs)) = length st"
  by (induction n arbitrary: cs st xs) (simp_all add: Let_def)

lemma df2_bq_cascade: "length cs = 5 * n \<Longrightarrow> fst (df2_bq cs (replicate (2 * n + 1) 0) n xs) = cascade n cs xs"
proof (induction n arbitrary: cs xs)
  case (Suc n)
  have "same_history (take 5 cs) (0, 0, 0, 0) (0, 0)" by (auto simp: same_history_def intro!: exI [of _ 0])
  from df2_run_sect [OF this] have "fst (df2_run (take 5 cs) (0, 0) xs) = sect_out (take 5 cs) xs" by (simp add: sect_out_def)
  moreover have "drop 2 (replicate (2 * Suc n + 1) (0::real)) = replicate (2 * n + 1) 0" by simp
  ultimately show ?case using Suc by (simp add: Let_def)
qed simp

interpretation df2: biquad_lib df2_bq df2_hist
proof
  show "df2_hist cs n (replicate (2 * n + 1) 0) []" if "length cs = 5 * n" for cs :: "real list" and n
    using df2_bq_Nil [of n "replicate (2 * n + 1) 0" cs] by (simp add: df2_hist_def)
  show "\<exists>st'. df2_bq cs st n xs = (drop (length h) (cascade n cs (h @ xs)), st') \<and> df2_hist cs n st' (h @ xs)"
    if "df2_hist cs n st h" "length cs = 5 * n" for cs st n xs h
  proof -
    let ?z = "replicate (2 * n + 1) (0::real)"
    have a: "df2_bq cs ?z n (h @ xs) = (fst (df2_bq cs ?z n h) @ fst (df2_bq cs st n xs), snd (df2_bq cs st n xs))"
      using that(1) df2_bq_append [of n ?z cs h xs] by (simp add: df2_hist_def Let_def)
    have "length (fst (df2_bq cs ?z n h)) = length h" by (simp only: df2_bq_cascade [OF that(2)] length_cascade)
    moreover have "cascade n cs (h @ xs) = fst (df2_bq cs ?z n h) @ fst (df2_bq cs st n xs)"
      using a df2_bq_cascade [OF that(2), of "h @ xs"] by simp
    ultimately show ?thesis using a by (simp add: df2_hist_def)
  qed
  show "length st = 2 * n + 1" if "df2_hist cs n st h" for cs n st h
    using that length_df2_bq [of n "replicate (2 * n + 1) 0" cs h] by (simp add: df2_hist_def)
qed

section \<open>The equalizer on a signal\<close>

definition flat_section :: "real list \<Rightarrow> bool" where
  "flat_section cs \<longleftrightarrow> cs ! 4 = 1 \<and> cs ! 3 = - (cs ! 1) \<and> cs ! 2 = - (cs ! 0)"

lemma flat_bilinear:
  assumes "d2 + d1 * k + d0 * k\<^sup>2 \<noteq> 0"
  shows "flat_section (bilinear k (d2, d1, d0) (d2, d1, d0))"
proof -
  obtain D where D: "D = d2 + d1 * k + d0 * k\<^sup>2" "D \<noteq> 0" using assms by blast
  obtain A B where "bilinear k (d2, d1, d0) (d2, d1, d0) = [- A, - B, A, B, 1]"
  proof
    have m: "- x / D = - (x / D)" "- 2 * x / D = - (2 * x / D)" for x by simp_all
    have one: "(d2 + d1 * k + d0 * k\<^sup>2) / D = 1" using D by simp
    show "bilinear k (d2, d1, d0) (d2, d1, d0) =
        [- ((d2 - d1 * k + d0 * k\<^sup>2) / D), - (2 * (d0 * k\<^sup>2 - d2) / D), (d2 - d1 * k + d0 * k\<^sup>2) / D,
         2 * (d0 * k\<^sup>2 - d2) / D, 1]"
      unfolding bilinear_list [OF D(1)] m one ..
  qed
  then show ?thesis by (simp add: flat_section_def)
qed

lemma band_fc_range: "f \<in> set (GEQ31band_fc real_dspflt) \<Longrightarrow> 0 < f \<and> f \<le> 20000"
  by (auto simp: GEQ31band_fc_def real_dspflt_simps)

lemma band_q_range: "q \<in> set (GEQ31band_q real_dspflt) \<Longrightarrow> 0 < q"
  by (auto simp: GEQ31band_q_def real_dspflt_simps split: if_splits)

lemma flat_band:
  assumes "1 \<le> b" "b \<le> 31"
  shows "flat_section (band_cf real_dspflt b 0)"
proof -
  let ?f = "GEQ31band_fc real_dspflt ! (b - 1)" and ?q = "GEQ31band_q real_dspflt ! (b - 1)"
  have "0 < ?f" "?f \<le> 23999" "0 < ?q" using assms band_fc_range [of ?f] band_q_range by auto
  then have k: "0 < warp real_dspflt ?f" "0 < ?q" by (auto intro: warp_pos)
  then have "0 < 1 + 1 / ?q * warp real_dspflt ?f + 1 * (warp real_dspflt ?f)\<^sup>2" by (intro add_pos_pos) simp_all
  then have "flat_section (bilinear (warp real_dspflt ?f) (1, 1 / ?q, 1) (1, 1 / ?q, 1))"
    by (intro flat_bilinear) simp
  moreover have "db_gain 0 = 1" by (simp add: db_gain_def)
  ultimately show ?thesis
    by (cases "b = 1") (simp_all add: band_cf_def band_design_def Peak_bilinear Low_Shelf_bilinear High_Shelf_bilinear)
qed

lemma bank_nth: "b < n \<Longrightarrow> j < 5 \<Longrightarrow> bank F g n ! (5 * b + j) = band_cf F (Suc b) (g (Suc b)) ! j"
proof (induction n)
  case (Suc n)
  then show ?case by (cases "b = n") (auto simp: bank_Suc nth_append)
qed simp

lemma concat_same_lengths:
  assumes "concat xss = concat yss" "map length xss = map length yss"
  shows "xss = yss"
proof (rule concat_injective [OF assms(1)])
  show "length xss = length yss" using assms(2) by (metis length_map)
  show "\<forall>(x, y) \<in> set (zip xss yss). length x = length y"
    using assms(2) by (auto simp: set_zip) (metis length_map nth_map)
qed

text \<open>
  A flat equalizer is transparent. With the gains the program starts with, after \<open>sim_31band_EQ\<close> and
  \<open>zero_filterstate\<close>, the equalizer returns every signal unchanged, block by block, on every channel.
\<close>

theorem flat_equalizer:
  assumes "biquad_lib bq hist" "eq_mem_ok m" "ch < 24"
  shows "\<exists>m1 m2. sim_31band_EQ real_dspflt m = Inr m1 \<and>
    stream (filter_process_GEQ_block bq (int ch)) xss (zero_filterstate real_dspflt m1) = Inr (xss, m2)"
proof -
  let ?m1 = "fill_eq real_dspflt (\<lambda>_ b. GEQ31band_gain real_dspflt ! (b - 1)) (start_lo real_dspflt) (start_hi real_dspflt) 24 m"
  let ?m = "zero_filterstate real_dspflt ?m1" and ?g = "\<lambda>b. GEQ31band_gain real_dspflt ! (b - 1)"
  have ok: "eq_mem_ok ?m1" using assms(2) by (intro fill_eq_ok) simp_all
  have row: "filter_cf_31b ?m ! ch = bank real_dspflt ?g 31"
    using assms(3) by (simp add: zero_filterstate_def fill_eq_def Let_def)
  let ?cs = "take (5 * 29) (drop 10 (filter_cf_31b ?m ! ch))"
  have "matrix_ok 24 155 (filter_cf_31b ?m)" "matrix_ok 24 155 (filter_state_31b ?m)"
    "filter_state_31b ?m ! ch = replicate 155 0"
    using ok assms(3) by (simp_all add: zero_filterstate_def Let_def eq_mem_ok_def real_dspflt_simps)
  then have seen: "biquad_lib.lib_seen hist filter_cf_31b filter_state_31b ch 10 29 ?cs [] ?m"
    by (intro biquad_lib.lib_seen_start [OF assms(1), where r = 24 and c = 155 and c' = 155]) (use assms(3) in simp_all)
  have "cascade 29 ?cs xs = xs" for xs
  proof (rule cascade_transparent)
    show "length ?cs = 5 * 29" unfolding row by simp
    fix i :: nat assume i: "i < 29"
    have e: "?cs ! (5 * i + j) = band_cf real_dspflt (i + 3) 0 ! j" if "j < 5" for j
    proof -
      have "?cs ! (5 * i + j) = bank real_dspflt ?g 31 ! (5 * (i + 2) + j)" unfolding row using i that by (simp add: algebra_simps)
      also have "\<dots> = band_cf real_dspflt (Suc (i + 2)) (?g (Suc (i + 2))) ! j" using i that by (intro bank_nth) simp_all
      finally show ?thesis using i by (simp add: GEQ31band_gain_def real_dspflt_simps numeral_3_eq_3)
    qed
    show "?cs ! (5 * i + 4) = 1 \<and> ?cs ! (5 * i + 3) = - (?cs ! (5 * i + 1)) \<and> ?cs ! (5 * i + 2) = - (?cs ! (5 * i))"
      using e [of 4] e [of 3] e [of 2] e [of 1] e [of 0] flat_band [of "i + 3"] i by (simp add: flat_section_def)
  qed
  then obtain yss m2 where "stream (filter_process_GEQ_block bq (int ch)) xss ?m = Inr (yss, m2)"
    "concat yss = concat xss" "map length yss = map length xss"
    using biquad_lib.GEQ_stream [OF assms(1) seen, of xss] by auto
  with concat_same_lengths have "stream (filter_process_GEQ_block bq (int ch)) xss ?m = Inr (xss, m2)" by blast
  with sim_31band_EQ_fill [OF assms(2), of real_dspflt] show ?thesis by blast
qed

theorem flat_equalizer_witness:
  "\<exists>m1 m2. sim_31band_EQ real_dspflt (eq_mem_reset real_dspflt) = Inr m1 \<and>
    stream (filter_process_GEQ_block df2_bq 5) [[1, 2], [-3]] (zero_filterstate real_dspflt m1) = Inr ([[1, 2], [-3]], m2)"
  using flat_equalizer [OF df2.biquad_lib_axioms eq_mem_reset_ok, of 5 real_dspflt "[[1, 2], [-3]]"] by simp

text \<open>
  The high pass written out in C computes what the library's \<open>biquad\<close> computes with the same coefficients, from
  silence and for every cutting of the signal into blocks.
\<close>

theorem hpf_as_library:
  assumes "biquad_lib bq hist" "eq_mem_ok m" "ch < 24" "filter_cf_HPF m ! ch = filter_cf_HPF_dl m ! ch"
    and "filter_state_HPF_dl m ! ch = replicate 5 0" "filter_state_HPF m ! ch = replicate 5 0"
  shows "\<exists>yss m1 m2. stream (filter_process_HPF_block_dl real_dspflt (int ch)) xss m = Inr (yss, m1) \<and>
    stream (filter_process_HPF_block bq (int ch)) xss m = Inr (yss, m2)"
proof -
  let ?cf = "filter_cf_HPF_dl m ! ch"
  have r: "matrix_ok 24 5 (filter_cf_HPF m)" "matrix_ok 24 5 (filter_state_HPF m)" using assms(2) by (simp_all add: eq_mem_ok_def)
  have l: "length ?cf = 5" using matrix_nth [OF r(1) assms(3)] assms(4) by simp
  have "biquad_lib.lib_seen hist filter_cf_HPF filter_state_HPF ch 0 1 (take (5 * 1) (drop 0 (filter_cf_HPF m ! ch))) [] m"
    by (rule biquad_lib.lib_seen_start [OF assms(1), where r = 24 and c = 5 and c' = 5]) (use r assms(3,6) in simp_all)
  from biquad_lib.HPF_stream [OF assms(1) this, of xss] obtain zss m2 where
    z: "stream (filter_process_HPF_block bq (int ch)) xss m = Inr (zss, m2)" "concat zss = sect_out ?cf (concat xss)"
    "map length zss = map length xss" using l by (auto simp: assms(4))
  obtain yss m1 where y: "stream (filter_process_HPF_block_dl real_dspflt (int ch)) xss m = Inr (yss, m1)"
    "concat yss = sect_out ?cf (concat xss)" "map length yss = map length xss"
    using hpf_stream_sect [OF assms(2,3,5)] by blast
  have "yss = zss" using y z by (intro concat_same_lengths) simp_all
  with y(1) z(1) show ?thesis by blast
qed

theorem hpf_as_library_witness:
  "\<exists>yss m1 m2. stream (filter_process_HPF_block_dl real_dspflt 3) [[1], [2, 3]] (eq_mem_reset real_dspflt) = Inr (yss, m1) \<and>
    stream (filter_process_HPF_block df2_bq 3) [[1], [2, 3]] (eq_mem_reset real_dspflt) = Inr (yss, m2)"
  using hpf_as_library [OF df2.biquad_lib_axioms eq_mem_reset_ok, of 3 real_dspflt "[[1], [2, 3]]"]
  by (simp add: eq_mem_reset_def Let_def real_dspflt_simps)

lemma output_bind: "map_sum id fst (bindE r (\<lambda>(ys, s). Inr (ys, f s))) = map_sum id fst r"
  by (cases r) (simp_all split: prod.split)

text \<open>
  The two lowest bands are not part of the equalizer. The code filters from the third band on: no gain set for
  the bands of 20 and 25 Hz changes the output of any channel, whatever \<open>biquad\<close> does.
\<close>

theorem lowest_bands_inert:
  assumes "eq_mem_ok m" "ch < 24" "b = 1 \<or> b = 2"
  shows "\<exists>m'. sim_31band_EQ_setgaintofilters F (int b) (int ch) x m = Inr m' \<and>
    take 5 (drop (5 * (b - 1)) (filter_cf_31b m' ! ch)) = band_cf F b x \<and>
    map_sum id fst (filter_process_GEQ_block bq i xs m') = map_sum id fst (filter_process_GEQ_block bq i xs m)"
proof -
  have rows: "matrix_ok 24 155 (filter_cf_31b m)" using assms(1) by (simp add: eq_mem_ok_def)
  let ?row = "overlay (filter_cf_31b m ! ch) ((b - 1) * 5) (band_cf F b x)"
  have l: "length (filter_cf_31b m) = 24" "length (filter_cf_31b m ! ch) = 155"
    using rows matrix_nth [OF rows assms(2)] by (simp_all add: matrix_ok_def)
  have p: "put_cf nm (filter_cf_31b m) (int ch) ((b - 1) * 5) (band_cf F b x) = Inr ((filter_cf_31b m)[ch := ?row])" for nm
    using assms by (intro put_cf_ok [OF rows]) auto
  have b: "1 \<le> b" "b \<le> 31" using assms(3) by auto
  have "fc_EQ_GEQ m \<noteq> [] \<and> b - 1 < length (fc_EQ_GEQ m)" "b - 1 < length (q_EQ_GEQ m)" using assms(1) b by (auto simp: eq_mem_ok_def)
  then have "\<exists>fc g q. set_band F (band_design F b) b (int ch) x m =
      Inr (m\<lparr>fc_EQ_GEQ := fc, gain_EQ_GEQ := g, q_EQ_GEQ := q, filter_cf_31b := (filter_cf_31b m)[ch := ?row]\<rparr>)"
    using p by (intro exI) (simp add: set_band_def Let_def band_cf_def)
  then obtain fc g q where m': "sim_31band_EQ_setgaintofilters F (int b) (int ch) x m =
      Inr (m\<lparr>fc_EQ_GEQ := fc, gain_EQ_GEQ := g, q_EQ_GEQ := q, filter_cf_31b := (filter_cf_31b m)[ch := ?row]\<rparr>)"
    unfolding setgain_band [OF b] by blast
  have r: "drop 10 ?row = drop 10 (filter_cf_31b m ! ch)" "take 5 (drop (5 * (b - 1)) ?row) = band_cf F b x"
    using assms(3) l by (auto simp: overlay_def)
  have "length ?row = 155" using l assms(3) by auto
  with r l assms(2) have "map_sum id fst (biquad_at bq nm ((filter_cf_31b m)[ch := ?row]) sts i 10 29 xs) =
      map_sum id fst (biquad_at bq nm (filter_cf_31b m) sts i 10 29 xs)" for nm sts
    by (cases "nat i = ch") (simp_all add: biquad_at_def iget_def)
  then show ?thesis unfolding m' using r(2) l assms(2) by (auto simp: filter_process_GEQ_block_def Band_count_GEQ_def output_bind)
qed

theorem lowest_bands_inert_witness:
  "\<exists>m'. sim_31band_EQ_setgaintofilters real_dspflt 1 3 12 (eq_mem_reset real_dspflt) = Inr m' \<and>
    map_sum id fst (filter_process_GEQ_block df2_bq 3 [1, 0] m') =
    map_sum id fst (filter_process_GEQ_block df2_bq 3 [1, 0] (eq_mem_reset real_dspflt))"
  using lowest_bands_inert [OF eq_mem_reset_ok, of 3 1 real_dspflt 12 real_dspflt df2_bq 3 "[1, 0]"] by auto

end
