(* ===== verification/Input_Select.thy ===== *)
theory Input_Select
  imports Dsp_Behaviour
begin

text \<open>
  The selection of the audio input on the DSP: \<open>Init_all_input_types\<close> of \<open>Input_Types.c\<close>, called in
  every pass of the main loop, and the interrupt of the converter (\<open>SP0ADCSend_ISR\<close>) that counts time. A
  change of the input first fades the sound out, waits for 100 interrupts, mutes the converter,
  switches the hardware and opens the converter again. The calls that set up hardware
  registers are recorded in the order they are made.
\<close>

section \<open>The code\<close>

definition INPUT_TYPE_AES :: u32 where [c_consts]: "INPUT_TYPE_AES = 0x2105"
definition INPUT_TYPE_SPDIF :: u32 where [c_consts]: "INPUT_TYPE_SPDIF = 0x2205"
definition INPUT_TYPE_COAX :: u32 where [c_consts]: "INPUT_TYPE_COAX = 0x2305"
definition INPUT_TYPE_DVD :: u32 where [c_consts]: "INPUT_TYPE_DVD = 0x2405"
definition INPUT_TYPE_AD :: u32 where [c_consts]: "INPUT_TYPE_AD = 0x2505"
definition INPUT_TYPE_MIC :: u32 where [c_consts]: "INPUT_TYPE_MIC = 0x2605"
definition INPUT_TEST :: u32 where [c_consts]: "INPUT_TEST = 0x2705"
definition SYSTEMSTATE_NORMAL :: u32 where [c_consts]: "SYSTEMSTATE_NORMAL = 1"
definition SYSTEMSTATE_ALIGNMENT :: u32 where [c_consts]: "SYSTEMSTATE_ALIGNMENT = 2"

datatype hw_call =
    PCM4104_Mute int | AD_Disable_Others | AES_Disable_Others | SPDIF_Disable_Others | AD_AES_Init int
  | RCA_Init | MIC_Init | Init_SPDIF_COAX int | AD_AES_Select int | AD_MIC_Select int | Reinit_da

text \<open>
  The globals of \<open>Input_Types.c\<close> and the statics of the function; \<open>effect\<close> are the pairs of coefficient and
  step of \<open>T_t_audio_in_out_effect\<close>, \<open>dsp_input_type\<close> is \<open>g_input_type\<close>.
\<close>

record 'f insel =
  i_now_input :: u32
  i_old_input :: u32
  i_last_code :: u32
  g_Init_Input_Types :: int
  g_i_change_down_flag :: int
  g_i_change_up_flag :: int
  g_interrupt_times :: int
  effect :: "('f \<times> 'f) list"
  dsp_input_type :: u32
  g_i_ad_in :: "int list"
  hw :: "hw_call list"

definition insel_reset :: "'f flt \<Rightarrow> 'f insel" where
  "insel_reset F = \<lparr>i_now_input = 0, i_old_input = 0, i_last_code = 0, g_Init_Input_Types = 0,
     g_i_change_down_flag = 0, g_i_change_up_flag = 0, g_interrupt_times = 0,
     effect = replicate 16 (lit F 0 0, lit F 0 0), dsp_input_type = INPUT_TYPE_AD,
     g_i_ad_in = [7, 6, 2, 3, 1, 0, 4, 5], hw = []\<rparr>"

text \<open>The range test on the last word, a signed comparison.\<close>

definition input_word :: "u32 \<Rightarrow> bool" where
  "input_word w \<longleftrightarrow> sint w \<ge> 0x2105 \<and> sint w < 0x2805"

text \<open>The requested input: the last word in normal operation, the test input during alignment.\<close>

definition select_code :: "u32 \<Rightarrow> u32 \<Rightarrow> 'f insel \<Rightarrow> 'f insel" where
  "select_code sys w s =
     (let s = (if sys = SYSTEMSTATE_NORMAL then
                 let s = (if input_word w then s\<lparr>i_old_input := w\<rparr> else s)
                 in if i_old_input s = INPUT_TEST then s\<lparr>i_old_input := i_last_code s\<rparr> else s
               else s)
      in if sys = SYSTEMSTATE_ALIGNMENT then
           let s = (if sint (i_old_input s) \<ge> 0x2105 \<and> sint (i_old_input s) < sint INPUT_TEST
                    then s\<lparr>i_last_code := i_old_input s\<rparr> else s)
           in s\<lparr>i_old_input := INPUT_TEST\<rparr>
         else s)"

text \<open>A new request: start to fade out. A coefficient that is moving is left where it is.\<close>

definition start_fade :: "'f flt \<Rightarrow> 'f insel \<Rightarrow> 'f insel" where
  "start_fade F s =
     (if i_now_input s \<noteq> i_old_input s then
        s\<lparr>i_now_input := i_old_input s, g_Init_Input_Types := 0, g_i_change_down_flag := 1, g_i_change_up_flag := 0,
          g_interrupt_times := 0,
          effect := map (\<lambda>(c, st). if fless F (lit F 0 0) c \<and> fless F c (lit F 10 (-1)) then (c, lit F 1 (-4))
                                 else (lit F 10 (-1), lit F 1 (-4))) (effect s)\<rparr>
      else s)"

text \<open>After 100 interrupts the fade out is over.\<close>

definition end_fade :: "'f flt \<Rightarrow> 'f insel \<Rightarrow> 'f insel" where
  "end_fade F s =
     (if g_i_change_down_flag s = 1 \<and> g_interrupt_times s \<ge> 100 then
        s\<lparr>g_i_change_down_flag := 0, g_i_change_up_flag := 1,
          effect := map (\<lambda>_. (lit F 0 (-1), lit F 1 (-5))) (effect s), hw := hw s @ [PCM4104_Mute 1]\<rparr>
      else s)"

text \<open>The cases of the switch: the order of the input channels and the set-up calls.\<close>

definition input_setup :: "u32 \<Rightarrow> int list \<Rightarrow> (int list \<times> hw_call list) option" where
  "input_setup t ad =
     (if t = INPUT_TYPE_AD then Some ([7, 6, 2, 3, 1, 0, 4, 5], [AD_Disable_Others, AD_AES_Init 0])
      else if t = INPUT_TYPE_AES then Some ([0, 1, 2, 3, 4, 5, 6, 7], [AES_Disable_Others, AD_AES_Init 1])
      else if t = INPUT_TYPE_DVD then Some ([2, 6, -1, -1, -1, -1, -1, -1], [AD_Disable_Others, RCA_Init])
      else if t = INPUT_TYPE_MIC then Some ([7, -1, -1, -1, -1, -1, -1, -1], [AD_Disable_Others, MIC_Init])
      else if t = INPUT_TYPE_SPDIF then Some ([0, 1, -1, -1, -1, -1, -1, -1], [Init_SPDIF_COAX 0])
      else if t = INPUT_TYPE_COAX then Some ([0, 1, -1, -1, -1, -1, -1, -1], [Init_SPDIF_COAX 1])
      else if t = INPUT_TEST then
        Some (ad, [AD_AES_Select 1, AD_MIC_Select 0, Reinit_da, SPDIF_Disable_Others, AD_Disable_Others])
      else None)"

definition switch_input :: "'f insel \<Rightarrow> 'f insel" where
  "switch_input s =
     (let s = s\<lparr>dsp_input_type := i_now_input s\<rparr>
      in case input_setup (dsp_input_type s) (g_i_ad_in s) of
           None \<Rightarrow> s\<lparr>hw := hw s @ [PCM4104_Mute 0]\<rparr>
         | Some (ad, calls) \<Rightarrow>
             if g_Init_Input_Types s = 1 then s
             else s\<lparr>g_Init_Input_Types := 1, g_i_ad_in := ad, hw := hw s @ calls @ [PCM4104_Mute 0]\<rparr>)"

text \<open>The whole function; \<open>sys\<close> is \<open>SystemState\<close>, \<open>w\<close> is \<open>g_spi_data\<close>.\<close>

definition Init_all_input_types :: "'f flt \<Rightarrow> u32 \<Rightarrow> u32 \<Rightarrow> 'f insel \<Rightarrow> 'f insel" where
  "Init_all_input_types F sys w s =
     (let s = end_fade F (start_fade F (select_code sys w s))
      in if g_i_change_down_flag s = 1 then s else switch_input s)"

definition set_interrupt_times :: "'f insel \<Rightarrow> 'f insel" where
  "set_interrupt_times s = s\<lparr>g_interrupt_times := g_interrupt_times s + 1\<rparr>"

section \<open>Runs\<close>

datatype insel_event = Tick | Pass u32 u32

fun insel_run :: "'f flt \<Rightarrow> insel_event list \<Rightarrow> 'f insel \<Rightarrow> 'f insel" where
  "insel_run F [] s = s"
| "insel_run F (Tick # es) s = insel_run F es (set_interrupt_times s)"
| "insel_run F (Pass sys w # es) s = insel_run F es (Init_all_input_types F sys w s)"

definition ticks :: "insel_event list \<Rightarrow> nat" where
  "ticks es = length (filter (\<lambda>e. e = Tick) es)"

text \<open>An event that does not ask for another input than \<open>t\<close>.\<close>

definition keeps :: "u32 \<Rightarrow> insel_event \<Rightarrow> bool" where
  "keeps t e = (case e of Tick \<Rightarrow> True
     | Pass sys w \<Rightarrow> if sys = SYSTEMSTATE_NORMAL then t \<noteq> INPUT_TEST \<and> (input_word w \<longrightarrow> w = t)
                   else sys = SYSTEMSTATE_ALIGNMENT \<longrightarrow> t = INPUT_TEST)"

lemma insel_run_append: "insel_run F (as @ bs) s = insel_run F bs (insel_run F as s)"
  by (induction F as s rule: insel_run.induct) simp_all

lemma ticks_simps [simp]: "ticks [] = 0" "ticks (Tick # es) = Suc (ticks es)" "ticks (Pass a b # es) = ticks es"
  by (simp_all add: ticks_def)

lemma keeps_old:
  assumes "keeps t (Pass sys w)" "i_old_input s = t"
  shows "select_code sys w s = s"
proof -
  have n: "SYSTEMSTATE_ALIGNMENT \<noteq> SYSTEMSTATE_NORMAL" by (simp add: c_consts)
  have o: "s\<lparr>i_old_input := t\<rparr> = s" using assms(2) by simp
  show ?thesis
  proof (cases "sys = SYSTEMSTATE_NORMAL")
    case True
    with assms n o show ?thesis by (cases "input_word w") (simp_all add: keeps_def select_code_def)
  next
    case False
    with assms o show ?thesis by (cases "sys = SYSTEMSTATE_ALIGNMENT") (simp_all add: keeps_def select_code_def)
  qed
qed

text \<open>Waiting for the fade to end.\<close>

definition fading :: "u32 \<Rightarrow> nat \<Rightarrow> 'f insel \<Rightarrow> bool" where
  "fading t n s \<longleftrightarrow> i_old_input s = t \<and> i_now_input s = t \<and> g_Init_Input_Types s = 0 \<and> g_i_change_down_flag s = 1 \<and>
     g_i_change_up_flag s = 0 \<and> g_interrupt_times s = int n"

definition settled :: "u32 \<Rightarrow> 'f insel \<Rightarrow> bool" where
  "settled t s \<longleftrightarrow> i_old_input s = t \<and> i_now_input s = t \<and> g_Init_Input_Types s = 1 \<and> g_i_change_down_flag s = 0 \<and>
     g_i_change_up_flag s = 1 \<and> dsp_input_type s = t"


definition switched :: "u32 \<Rightarrow> 'f insel \<Rightarrow> 'f insel \<Rightarrow> bool" where
  "switched t s s' \<longleftrightarrow> settled t s' \<and> i_last_code s' = i_last_code s \<and>
     (\<exists>ad calls. input_setup t (g_i_ad_in s) = Some (ad, calls) \<and> g_i_ad_in s' = ad \<and>
       hw s' = hw s @ PCM4104_Mute 1 # calls @ [PCM4104_Mute 0])"

definition still :: "u32 \<Rightarrow> nat \<Rightarrow> 'f insel \<Rightarrow> 'f insel \<Rightarrow> bool" where
  "still t n s s' \<longleftrightarrow> fading t n s' \<and> i_last_code s' = i_last_code s \<and> g_i_ad_in s' = g_i_ad_in s \<and> hw s' = hw s \<and>
     dsp_input_type s' = dsp_input_type s"

text \<open>The inputs the switch knows.\<close>

definition known_input :: "u32 \<Rightarrow> bool" where
  "known_input t \<longleftrightarrow> t \<in> {INPUT_TYPE_AES, INPUT_TYPE_SPDIF, INPUT_TYPE_COAX, INPUT_TYPE_DVD, INPUT_TYPE_AD,
     INPUT_TYPE_MIC, INPUT_TEST}"

lemma known_setup: "known_input t \<Longrightarrow> \<exists>ad' calls. input_setup t ad = Some (ad', calls)"
  by (auto simp: known_input_def input_setup_def)

lemma no_fade: "i_now_input s = i_old_input s \<Longrightarrow> start_fade F s = s"
  by (simp add: start_fade_def)

lemma still_pass:
  assumes "still t n s s'" "keeps t (Pass sys w)" "n < 100"
  shows "still t n s (Init_all_input_types F sys w s')"
proof -
  have "select_code sys w s' = s'" using assms(1) by (intro keeps_old [OF assms(2)]) (simp add: still_def fading_def)
  with assms show ?thesis by (simp add: Init_all_input_types_def still_def fading_def no_fade end_fade_def)
qed

lemma still_end:
  assumes "still t n s s'" "keeps t (Pass sys w)" "100 \<le> n" "known_input t"
  shows "switched t s (Init_all_input_types F sys w s')"
proof -
  have "select_code sys w s' = s'" using assms(1) by (intro keeps_old [OF assms(2)]) (simp add: still_def fading_def)
  with assms known_setup [OF assms(4), of "g_i_ad_in s"] show ?thesis
    by (auto simp: Init_all_input_types_def still_def fading_def no_fade end_fade_def switch_input_def switched_def settled_def)
qed

lemma settled_pass:
  assumes "settled t s" "keeps t (Pass sys w)" "known_input t"
  shows "Init_all_input_types F sys w s = s"
proof -
  have "select_code sys w s = s" using assms(1) by (intro keeps_old [OF assms(2)]) (simp add: settled_def)
  moreover have "s\<lparr>dsp_input_type := i_now_input s\<rparr> = s" using assms(1) by (simp add: settled_def)
  ultimately show ?thesis
    using assms(1) known_setup [OF assms(3), of "g_i_ad_in s"]
    by (auto simp: Init_all_input_types_def settled_def no_fade end_fade_def switch_input_def)
qed

lemma tick_still: "still t n s s' \<Longrightarrow> still t (Suc n) s (set_interrupt_times s')"
  by (simp add: still_def fading_def set_interrupt_times_def)

lemma tick_switched: "switched t s s' \<Longrightarrow> switched t s (set_interrupt_times s')"
  by (simp add: switched_def settled_def set_interrupt_times_def)

lemma switched_run:
  assumes "switched t s s'" "list_all (keeps t) es" "known_input t"
  shows "switched t s (insel_run F es s')"
  using assms
proof (induction F es s' rule: insel_run.induct)
  case (3 F sys w es s')
  then have "Init_all_input_types F sys w s' = s'" by (intro settled_pass) (simp_all add: switched_def)
  with 3 show ?case by simp
qed (simp_all add: tick_switched)

lemma still_run:
  assumes "still t n s s'" "list_all (keeps t) es" "known_input t"
  shows "still t (n + ticks es) s (insel_run F es s') \<or> 100 \<le> n + ticks es \<and> switched t s (insel_run F es s')"
  using assms
proof (induction F es s' arbitrary: n rule: insel_run.induct)
  case (2 F es s')
  from "2.IH" [OF tick_still [OF "2.prems"(1)]] "2.prems"(2,3) show ?case by simp
next
  case (3 F sys w es s')
  show ?case
  proof (cases "n < 100")
    case True
    with 3 still_pass [OF "3.prems"(1), of sys w F] show ?thesis by simp
  next
    case False
    then have "switched t s (Init_all_input_types F sys w s')"
      using still_end [OF "3.prems"(1), of sys w F] "3.prems"(2,3) by simp
    from switched_run [OF this, of es F] False "3.prems"(2,3) show ?thesis by simp
  qed
qed simp

text \<open>A request for another input starts the fade, whatever was going on before.\<close>

lemma request_fades:
  assumes "i_old_input (select_code sys w s) = t" "t \<noteq> i_now_input s"
  shows "still t 0 (select_code sys w s) (Init_all_input_types F sys w s)"
proof -
  have "i_now_input (select_code sys w s) = i_now_input s" by (simp add: select_code_def Let_def)
  then show ?thesis
    using assms by (simp add: Init_all_input_types_def start_fade_def end_fade_def still_def fading_def)
qed

lemma select_code_frame [simp]:
  "i_now_input (select_code sys w s) = i_now_input s" "g_i_ad_in (select_code sys w s) = g_i_ad_in s"
  "hw (select_code sys w s) = hw s" "dsp_input_type (select_code sys w s) = dsp_input_type s"
  by (simp_all add: select_code_def Let_def)

lemma switch_complete:
  assumes "i_old_input (select_code sys w s) = t" "t \<noteq> i_now_input s" "known_input t"
    and "list_all (keeps t) es" "keeps t (Pass sys' w')"
  shows "100 \<le> ticks es \<Longrightarrow> switched t (select_code sys w s) (insel_run F (Pass sys w # es @ [Pass sys' w']) s)"
    and "ticks es < 100 \<Longrightarrow> still t (ticks es) (select_code sys w s) (insel_run F (Pass sys w # es @ [Pass sys' w']) s)"
proof -
  let ?s = "select_code sys w s" and ?s1 = "Init_all_input_types F sys w s"
  note run = still_run [OF request_fades [OF assms(1,2), of F] assms(4,3), of F]
  show "switched t ?s (insel_run F (Pass sys w # es @ [Pass sys' w']) s)" if "100 \<le> ticks es"
    using run
  proof
    assume "still t (0 + ticks es) ?s (insel_run F es ?s1)"
    from still_end [OF this assms(5) _ assms(3), of F] that show ?thesis by (simp add: insel_run_append)
  next
    assume "100 \<le> 0 + ticks es \<and> switched t ?s (insel_run F es ?s1)"
    then have "switched t ?s (insel_run F es ?s1)" ..
    from switched_run [OF this, of "[Pass sys' w']" F] assms(3,5) show ?thesis by (simp add: insel_run_append)
  qed
  show "still t (ticks es) ?s (insel_run F (Pass sys w # es @ [Pass sys' w']) s)" if "ticks es < 100"
    using run still_pass [OF _ assms(5), of "ticks es" ?s "insel_run F es ?s1" F] that by (simp add: insel_run_append)
qed

section \<open>Properties\<close>

text \<open>
  C22: switching the input. When the last word asks for another known input in normal operation, the
  hardware is left alone until 100 interrupts of the converter have passed; then one pass mutes the
  converter, makes the set-up calls of the new input, takes over its channel order and opens the
  converter, and no later pass touches the hardware until another input is requested.
\<close>

theorem input_switch:
  fixes F :: "'f flt" and s :: "'f insel"
  assumes "known_input t" "t \<noteq> INPUT_TEST" "t \<noteq> i_now_input s" "list_all (keeps t) es"
    and "input_setup t (g_i_ad_in s) = Some (ad, calls)"
  defines "s' \<equiv> insel_run F (Pass SYSTEMSTATE_NORMAL t # es @ [Pass SYSTEMSTATE_NORMAL t]) s"
  shows "if ticks es < 100 then hw s' = hw s \<and> dsp_input_type s' = dsp_input_type s \<and> g_i_ad_in s' = g_i_ad_in s
    else hw s' = hw s @ PCM4104_Mute 1 # calls @ [PCM4104_Mute 0] \<and> dsp_input_type s' = t \<and> g_i_ad_in s' = ad \<and>
      g_i_change_up_flag s' = 1"
proof -
  have w: "input_word t" using assms(1) by (auto simp: known_input_def input_word_def c_consts)
  then have "i_old_input (select_code SYSTEMSTATE_NORMAL t s) = t" using assms(2) by (simp add: select_code_def Let_def c_consts)
  moreover have "keeps t (Pass SYSTEMSTATE_NORMAL t)" using assms(2) by (simp add: keeps_def)
  ultimately show ?thesis
    using switch_complete [of SYSTEMSTATE_NORMAL t s t es SYSTEMSTATE_NORMAL t F] assms
    by (auto simp: s'_def switched_def still_def settled_def)
qed

theorem input_switch_witness:
  "hw (insel_run real_flt (Pass 1 INPUT_TYPE_COAX # replicate 100 Tick @ [Pass 1 INPUT_TYPE_COAX]) (insel_reset real_flt))
     = [PCM4104_Mute 1, Init_SPDIF_COAX 1, PCM4104_Mute 0]"
proof -
  have "ticks (replicate n Tick) = n" for n by (induction n) simp_all
  moreover have "list_all (keeps INPUT_TYPE_COAX) (replicate 100 Tick)" by (simp add: list_all_iff keeps_def)
  moreover have "input_setup INPUT_TYPE_COAX ad = Some ([0, 1, -1, -1, -1, -1, -1, -1], [Init_SPDIF_COAX 1])" for ad
    by (simp add: input_setup_def c_consts)
  ultimately show ?thesis
    using input_switch [of INPUT_TYPE_COAX "insel_reset real_flt" "replicate 100 Tick" _ _ real_flt]
    by (simp add: known_input_def insel_reset_def c_consts)
qed

text \<open>
  Alignment and back. When the machine enters the alignment state with an input in use it switches to
  the test signal; when it returns to normal operation (the last word being no input code) it
  switches back to that input.
\<close>

theorem alignment_restores_input:
  fixes F :: "'f flt" and s :: "'f insel" and v :: u32
  assumes "settled t s" "known_input t" "t \<noteq> INPUT_TEST" "100 \<le> ticks es" "100 \<le> ticks es'"
    and "list_all (keeps INPUT_TEST) es" "list_all (keeps t) es'" "\<not> input_word w"
  defines "s1 \<equiv> insel_run F (Pass SYSTEMSTATE_ALIGNMENT v # es @ [Pass SYSTEMSTATE_ALIGNMENT v]) s"
  defines "s2 \<equiv> insel_run F (Pass SYSTEMSTATE_NORMAL w # es' @ [Pass SYSTEMSTATE_NORMAL w]) s1"
  shows "settled INPUT_TEST s1 \<and> settled t s2"
proof -
  have tr: "sint t \<ge> 0x2105 \<and> sint t < sint INPUT_TEST" and old: "i_old_input s = t" "i_now_input s = t"
    using assms(1-3) by (auto simp: known_input_def settled_def c_consts)
  then have a: "i_old_input (select_code SYSTEMSTATE_ALIGNMENT v s) = INPUT_TEST"
    "i_last_code (select_code SYSTEMSTATE_ALIGNMENT v s) = t"
    by (simp_all add: select_code_def Let_def c_consts)
  have "switched INPUT_TEST (select_code SYSTEMSTATE_ALIGNMENT v s) s1"
    unfolding s1_def using assms(3,4,6) old
    by (intro switch_complete(1) [OF a(1)]) (simp_all add: known_input_def keeps_def c_consts)
  then have s1: "settled INPUT_TEST s1" "i_last_code s1 = t" using a(2) by (simp_all add: switched_def)
  then have b: "i_old_input (select_code SYSTEMSTATE_NORMAL w s1) = t"
    using assms(8) by (simp add: select_code_def Let_def settled_def c_consts)
  have "switched t (select_code SYSTEMSTATE_NORMAL w s1) s2"
    unfolding s2_def using assms(2,3,5,7,8) s1(1)
    by (intro switch_complete(1) [OF b]) (simp_all add: keeps_def settled_def)
  then show ?thesis using s1(1) by (simp add: switched_def)
qed

definition dvd_state :: "real insel" where
  "dvd_state = (insel_reset real_flt)\<lparr>i_now_input := INPUT_TYPE_DVD, i_old_input := INPUT_TYPE_DVD, g_Init_Input_Types := 1,
     g_i_change_up_flag := 1, dsp_input_type := INPUT_TYPE_DVD\<rparr>"

theorem alignment_restores_input_witness:
  "settled INPUT_TYPE_DVD (insel_run real_flt (Pass 1 0x35610000 # replicate 100 Tick @ [Pass 1 0x35610000])
    (insel_run real_flt (Pass 2 0x35620000 # replicate 100 Tick @ [Pass 2 0x35620000]) dvd_state))"
proof -
  have "100 \<le> ticks (replicate 100 Tick)" by (simp add: ticks_def)
  moreover have "list_all (keeps t) (replicate 100 Tick)" for t by (simp add: list_all_iff keeps_def)
  moreover have "\<not> input_word 0x35610000" by (simp add: input_word_def)
  moreover have "settled INPUT_TYPE_DVD dvd_state" by (simp add: settled_def dvd_state_def insel_reset_def)
  ultimately show ?thesis
    using alignment_restores_input [of INPUT_TYPE_DVD dvd_state "replicate 100 Tick" "replicate 100 Tick" "0x35610000"
        real_flt "0x35620000"]
    by (simp add: known_input_def c_consts)
qed

end
