(* ===== verification/Audio_Path.thy ===== *)
theory Audio_Path
  imports Filter_Stream Input_Select "HOL-Library.Signed_Division"
begin

text \<open>
  The processing of a block of samples on the DSP: \<open>handle_audio_data\<close> of \<open>Input_Types.c\<close> with
  \<open>matrixtooutputchannel\<close> of \<open>Channel_To_DA_Port.c\<close>, and the functions that choose the block
  (\<open>handle_ad_aes_data\<close>, \<open>handle_spdif_data\<close>). A block has 128 samples per channel; the DMA
  buffers hold four blocks of two interleaved channels. The position of the DMA engine is an input of the model.
\<close>

section \<open>State\<close>

definition BLOCK :: int where [c_consts]: "BLOCK = 256"
definition HALF :: nat where [c_consts]: "HALF = 128"
definition NUMDMAUSED :: int where [c_consts]: "NUMDMAUSED = 4"
definition DELAY_LEN :: int where [c_consts]: "DELAY_LEN = 5120"
definition g_i_da_out :: "int list" where "g_i_da_out = [3, 2, 1, 0, 7, 6, 5, 4, 11, 10, 9, 8, 15, 14, 13, 12]"

text \<open>The last inputs and outputs of the noise filter of \<open>Dsp_Signal.c\<close>.\<close>

record 'f noise =
  Xprev1 :: 'f
  Xprev2 :: 'f
  Xprev3 :: 'f
  Yprev1 :: 'f
  Yprev2 :: 'f
  Yprev3 :: 'f

text \<open>The globals of the audio path; \<open>seed\<close> is the state of the random numbers of the C library.\<close>

record 'f board =
  par :: "'f dsp"
  sel :: "'f insel"
  fmem :: "'f eq_mem"
  da_channel_buffer :: "'f list list"
  da_channel_buffer_multi :: "'f list list"
  divisionoutbuf :: "'f list"
  DelayBuf :: "'f list list"
  DelayBuf_writeptr :: int
  TxBlock_PCM4104 :: "int list list"
  g_i_da_write_addr :: int
  g_interruptFlag :: int
  g_i_da_interrupt_flag :: int
  V0 :: "'f list"
  noise :: "'f noise"
  triangle_index :: int
  seed :: nat

fun mapE :: "('a \<Rightarrow> 'e + 'b) \<Rightarrow> 'a list \<Rightarrow> 'e + 'b list" where
  "mapE f [] = Inr []"
| "mapE f (x # xs) = bindE (f x) (\<lambda>y. bindE (mapE f xs) (\<lambda>ys. Inr (y # ys)))"

text \<open>
  \<open>outpcmDAdatabuf[r]\<close> and the input pointers point to \<open>buf[r / 2][r % 2]\<close> (\<open>outpcmDAdatabuf_link\<close>,
  \<open>inputADdatabuf_link\<close>, \<open>inputSPDIFdatabuf_link\<close>); element \<open>k\<close> of pointer \<open>r\<close>.
\<close>

definition pcm_get :: "string \<Rightarrow> int list list \<Rightarrow> int \<Rightarrow> int \<Rightarrow> fault + int" where
  "pcm_get nm buf r k = bindE (iget nm buf (r div 2)) (\<lambda>row. iget nm row (r mod 2 + k))"

definition pcm_put :: "string \<Rightarrow> int list list \<Rightarrow> int \<Rightarrow> int \<Rightarrow> int \<Rightarrow> fault + int list list" where
  "pcm_put nm buf r k v =
     bindE (iget nm buf (r div 2)) (\<lambda>row. bindE (iput nm row (r mod 2 + k) v) (\<lambda>row. iput nm buf (r div 2) row))"

section \<open>The steps of \<open>handle_audio_data\<close>\<close>

definition load_row :: "('f, 'z) dspflt_scheme \<Rightarrow> int list list \<Rightarrow> int \<Rightarrow> 'f board \<Rightarrow> nat \<Rightarrow> fault + 'f list" where
  "load_row F inbuf idx b i =
     bindE (iget ''g_i_ad_in'' (g_i_ad_in (sel b)) (int i)) (\<lambda>c.
       if c = -1 then Inr (map (\<lambda>_. lit F 0 0) [0..<HALF])
       else mapE (\<lambda>j. bindE (pcm_get ''p_input_buf'' inbuf c (int j * 2 + idx * BLOCK)) (\<lambda>v.
              Inr (fmul F (of_sint F (v div 256)) (knobvolumegainvalue (gen (par b)))))) [0..<HALF])"

definition load_inputs :: "('f, 'z) dspflt_scheme \<Rightarrow> int list list \<Rightarrow> int \<Rightarrow> 'f board \<Rightarrow> fault + 'f board" where
  "load_inputs F inbuf idx b =
     bindE (mapE (load_row F inbuf idx b) [0..<8]) (\<lambda>rows.
       Inr (b\<lparr>da_channel_buffer := rows @ drop 8 (da_channel_buffer b)\<rparr>))"

definition mix_channel :: "('f, 'z) dspflt_scheme \<Rightarrow> u32 list list \<Rightarrow> 'f list list \<Rightarrow> nat \<Rightarrow> 'f list" where
  "mix_channel F M buf outch =
     foldl (\<lambda>acc i. if M ! i ! outch = 1 then map2 (fadd F) acc (buf ! i) else acc)
       (map (\<lambda>_. lit F 0 0) [0..<HALF]) [0..<14]"

definition matrixtooutputchannel :: "('f, 'z) dspflt_scheme \<Rightarrow> u32 list list \<Rightarrow> 'f list list \<Rightarrow> 'f list list \<Rightarrow> 'f list list" where
  "matrixtooutputchannel F M buf out = map (mix_channel F M buf) [0..<14] @ drop 14 out"

text \<open>The fade of a change of input, one sample and one channel; the channels do not depend on each other.\<close>

definition fade_sample :: "('f, 'z) dspflt_scheme \<Rightarrow> int \<Rightarrow> int \<Rightarrow> 'f \<Rightarrow> 'f \<Rightarrow> 'f \<Rightarrow> 'f \<times> 'f" where
  "fade_sample F down up st c x =
     (let (c, x) = (if down = 1 then
                      let c = (if fless F (of_sint F 0) c then fsub F c st else c);
                          c = (if fle F c (of_sint F 0) then of_sint F 0 else c)
                      in (c, fmul F x c)
                    else (c, x))
      in if up = 1 then
           let c = (if fless F c (of_sint F 1) then fadd F c st else c)
           in (c, fmul F x c)
         else (c, x))"

fun fade_row :: "('f, 'z) dspflt_scheme \<Rightarrow> int \<Rightarrow> int \<Rightarrow> 'f \<Rightarrow> 'f \<Rightarrow> 'f list \<Rightarrow> 'f \<times> 'f list" where
  "fade_row F down up st c [] = (c, [])"
| "fade_row F down up st c (x # xs) =
     (let r = fade_sample F down up st c x; t = fade_row F down up st (fst r) xs in (fst t, snd r # snd t))"

definition fade_channels :: "('f, 'z) dspflt_scheme \<Rightarrow> 'f board \<Rightarrow> 'f board" where
  "fade_channels F b =
     (let s = sel b;
          rs = map2 (\<lambda>(c, st) xs. fade_row F (g_i_change_down_flag s) (g_i_change_up_flag s) st c xs)
                 (effect s) (da_channel_buffer_multi b)
      in b\<lparr>sel := s\<lparr>effect := map2 (\<lambda>(c, st) r. (fst r, st)) (effect s) rs\<rparr>, da_channel_buffer_multi := map snd rs\<rparr>)"

text \<open>The two monitor outputs: an input channel plus 0.707 times the third one.\<close>

definition monitor_val :: "('f, 'z) dspflt_scheme \<Rightarrow> int list list \<Rightarrow> int \<Rightarrow> 'f board \<Rightarrow> nat \<Rightarrow> nat \<Rightarrow> fault + int" where
  "monitor_val F inbuf idx b i j =
     bindE (iget ''g_i_ad_in'' (g_i_ad_in (sel b)) (int i)) (\<lambda>c.
       if c = -1 then Inr 0
       else bindE (pcm_get ''p_input_buf'' inbuf c (int j * 2 + idx * BLOCK)) (\<lambda>v.
              Inr (to_int F (fmul F (of_sint F v) (knobvolumegainvalue (gen (par b)))) div 256)))"

definition monitor_sample :: "('f, 'z) dspflt_scheme \<Rightarrow> int list list \<Rightarrow> int \<Rightarrow> int \<Rightarrow> nat \<Rightarrow> nat \<Rightarrow> 'f board \<Rightarrow> fault + 'f board" where
  "monitor_sample F inbuf idx wa i j b =
     (let r = g_i_da_out ! (i + 14); k = int j * 2 + wa * BLOCK; nm = ''TxBlock_PCM4104'' in
      bindE (monitor_val F inbuf idx b i j) (\<lambda>v.
      bindE (pcm_put nm (TxBlock_PCM4104 b) r k v) (\<lambda>tx.
      bindE (monitor_val F inbuf idx b 2 j) (\<lambda>w.
      bindE (pcm_get nm tx r k) (\<lambda>v.
      bindE (pcm_put nm tx r k (to_int F (fadd F (of_sint F v) (fmul F (of_sint F w) (lit F 707 (-3)))))) (\<lambda>tx.
        Inr (b\<lparr>TxBlock_PCM4104 := tx\<rparr>)))))))"

definition clear_sample :: "int \<Rightarrow> nat \<Rightarrow> nat \<Rightarrow> 'f board \<Rightarrow> fault + 'f board" where
  "clear_sample wa i j b =
     bindE (pcm_put ''TxBlock_PCM4104'' (TxBlock_PCM4104 b) (g_i_da_out ! i) (int j * 2 + wa * BLOCK) 0) (\<lambda>tx.
       Inr (b\<lparr>TxBlock_PCM4104 := tx\<rparr>))"

text \<open>The limits of 24 bits.\<close>

definition clip :: "int \<Rightarrow> int" where
  "clip v = (let v = (if v > 2 ^ 23 - 1 then 2 ^ 23 - 1 else v) in if v < - (2 ^ 23) then - (2 ^ 23) else v)"

text \<open>Mute with its fades: \<open>Mute = 1\<close> is sound on.\<close>

definition mute_fade :: "('f, 'z) dspflt_scheme \<Rightarrow> int \<Rightarrow> 'f dsp_general \<Rightarrow> int \<times> 'f dsp_general" where
  "mute_fade F v g =
     (if Mute g = 1 then
        let g = (if FadeInFlag g = 1 then
                   let c = fadd F (FadeInCoeff g) (FadeInTimePerFrame g)
                   in if fless F (of_sint F 1) c then g\<lparr>FadeInCoeff := of_sint F 1, FadeInFlag := 0\<rparr>
                      else g\<lparr>FadeInCoeff := c\<rparr>
                 else g)
        in (if fle F (of_sint F 1) (FadeInCoeff g) then v else to_int F (fmul F (of_sint F v) (FadeInCoeff g)), g)
      else
        let g = (if FadeOutFlag g = 1 then
                   let c = fsub F (FadeOutCoeff g) (FadeOutTimePerFrame g)
                   in if fless F c (of_sint F 0) then g\<lparr>FadeOutCoeff := of_sint F 0, FadeOutFlag := 0\<rparr>
                      else g\<lparr>FadeOutCoeff := c\<rparr>
                 else g)
        in (if fle F (FadeOutCoeff g) (of_sint F 0) then 0 else to_int F (fmul F (of_sint F v) (FadeOutCoeff g)), g))"

text \<open>The delay line of a route: a ring of \<open>DelayBufSIZE\<close> samples, written and read in blocks of 128.\<close>

definition delay_readptr :: "int \<Rightarrow> int \<Rightarrow> int" where
  "delay_readptr wp dt = (wp - dt + DELAY_LEN) smod DELAY_LEN"

definition delay_store :: "('f, 'z) dspflt_scheme \<Rightarrow> int \<Rightarrow> 'f list \<Rightarrow> 'f list \<Rightarrow> fault + 'f list" where
  "delay_store F wp xs row =
     (if 0 \<le> wp \<and> nat wp + length xs \<le> length row
      then Inr (overlay row (nat wp) (map (\<lambda>x. of_sint F (to_int F x)) xs))
      else Inl (OutOfBounds ''DelayBuf''))"

text \<open>Three loops of the code: without wrap-around, up to the end of the ring, and from its start.\<close>

definition delay_index :: "int \<Rightarrow> nat \<Rightarrow> int" where
  "delay_index rp i =
     (if rp + int HALF \<le> DELAY_LEN then rp + int i
      else if int i < DELAY_LEN - rp then rp + int i
      else rp + int i - DELAY_LEN)"

definition deliver_sample :: "('f, 'z) dspflt_scheme \<Rightarrow> int \<Rightarrow> int \<Rightarrow> int \<Rightarrow> nat \<Rightarrow> 'f board \<Rightarrow> fault + 'f board" where
  "deliver_sample F route rp wa i b =
     bindE (iget ''DelayBuf'' (DelayBuf b) route) (\<lambda>row.
     bindE (iget ''DelayBuf'' row (delay_index rp i)) (\<lambda>x.
       let (v, g) = mute_fade F (clip (to_int F x)) (gen (par b)) in
       bindE (iget ''g_i_da_out'' g_i_da_out route) (\<lambda>r.
       bindE (pcm_put ''TxBlock_PCM4104'' (TxBlock_PCM4104 b) r (int i * 2 + wa * BLOCK) v) (\<lambda>tx.
         Inr (b\<lparr>par := (par b)\<lparr>gen := g\<rparr>, TxBlock_PCM4104 := tx\<rparr>)))))"

definition band_out :: "('f, 'z) dspflt_scheme \<Rightarrow> 'f biquad \<Rightarrow> int \<Rightarrow> nat \<Rightarrow> nat \<Rightarrow> 'f board \<Rightarrow> fault + 'f board" where
  "band_out F bq wa ch bandx b =
     bindE (iget ''outsignalchannel_book24m3'' (outsignalchannel_book24m3 (eq (par b))) (int ch)) (\<lambda>bk.
     bindE (iget ''outsignalchannel_book24m3'' bk (int bandx)) (\<lambda>route.
       if route < 0 then Inr b
       else
         bindE (iget ''Delaytime_samplenums'' (Delaytime_samplenums (par b)) route) (\<lambda>dt.
           let rp = delay_readptr (DelayBuf_writeptr b) (sint dt) in
           bindE (frequencydivision_channel F bq (divisionbandnum_set (eq (par b))) (int ch) (int bandx)
                    (da_channel_buffer_multi b ! ch) (divisionoutbuf b) (fmem b)) (\<lambda>(out, fm).
           bindE (iget ''DelayBuf'' (DelayBuf b) route) (\<lambda>row.
           bindE (delay_store F (DelayBuf_writeptr b) out row) (\<lambda>row.
             foldE (deliver_sample F route rp wa) [0..<HALF]
               (b\<lparr>divisionoutbuf := out, fmem := fm, DelayBuf := (DelayBuf b)[nat route := row]\<rparr>)))))))"

definition channel_filters :: "('f, 'z) dspflt_scheme \<Rightarrow> 'f biquad \<Rightarrow> nat \<Rightarrow> 'f list \<Rightarrow> 'f eq_mem \<Rightarrow> fault + 'f list \<times> 'f eq_mem" where
  "channel_filters F bq ch xs m =
     bindE (filter_process_GEQ_block bq (int ch) xs m) (\<lambda>(xs, m).
     bindE (filter_process_HPF_block_dl F (int ch) xs m) (\<lambda>(xs, m).
       filter_process_LPF_block bq (int ch) xs m))"

definition channel_out :: "('f, 'z) dspflt_scheme \<Rightarrow> 'f biquad \<Rightarrow> int \<Rightarrow> nat \<Rightarrow> 'f board \<Rightarrow> fault + 'f board" where
  "channel_out F bq wa ch b =
     bindE (channel_filters F bq ch (da_channel_buffer_multi b ! ch) (fmem b)) (\<lambda>(xs, m).
     bindE (get_at ''outputparam'' (outputparam (par b)) (OutputYtype (par b))) (\<lambda>q.
     bindE (get_at2 ''FreqDivVal'' (FreqDivVal q) (of_nat ch) 0) (\<lambda>n.
       let bandnum = (if sint n < 1 then 1 else sint n);
           bandnum = (if bandnum > 3 then 3 else bandnum)
       in foldE (band_out F bq wa ch) [0..<nat bandnum]
            (b\<lparr>da_channel_buffer_multi := (da_channel_buffer_multi b)[ch := xs], fmem := m\<rparr>))))"

definition handle_audio_data :: "('f, 'z) dspflt_scheme \<Rightarrow> 'f biquad \<Rightarrow> int list list \<Rightarrow> int \<Rightarrow> 'f board \<Rightarrow> fault + 'f board" where
  "handle_audio_data F bq inbuf idx b =
     (let wa = (g_i_da_write_addr b - 2 + NUMDMAUSED) smod NUMDMAUSED in
      bindE (load_inputs F inbuf idx b) (\<lambda>b.
        let b = fade_channels F (b\<lparr>da_channel_buffer_multi :=
                  matrixtooutputchannel F (Matrix_ChtoOutch (gen (par b))) (da_channel_buffer b) (da_channel_buffer_multi b)\<rparr>)
        in
        bindE (foldE (\<lambda>i. foldE (monitor_sample F inbuf idx wa i) [0..<HALF]) [0..<2] b) (\<lambda>b.
        bindE (foldE (\<lambda>i. foldE (clear_sample wa i) [0..<HALF]) [0..<14] b) (\<lambda>b.
        bindE (foldE (channel_out F bq wa) [0..<14] b) (\<lambda>b.
          Inr (b\<lparr>DelayBuf_writeptr := (DelayBuf_writeptr b + int HALF) smod DELAY_LEN\<rparr>))))))"

section \<open>Choice of the block\<close>

text \<open>\<open>dma\<close> is the block the receiving DMA works on (\<open>Get_Current_Dma_\<dots>\<close>).\<close>

definition input_index :: "int \<Rightarrow> int \<Rightarrow> int" where
  "input_index wa dma =
     (if wa smod NUMDMAUSED = dma then (dma + 1) smod NUMDMAUSED
      else if (wa + 1) smod NUMDMAUSED = dma then dma smod NUMDMAUSED
      else dma)"

definition handle_ad_aes_data :: "('f, 'z) dspflt_scheme \<Rightarrow> 'f biquad \<Rightarrow> int list list \<Rightarrow> int \<Rightarrow> 'f board \<Rightarrow> fault + 'f board" where
  "handle_ad_aes_data F bq inbuf dma b =
     (if g_interruptFlag b = 1
      then handle_audio_data F bq inbuf (input_index (g_i_da_write_addr b) dma) (b\<lparr>g_interruptFlag := 0\<rparr>)
      else Inr b)"

definition handle_spdif_data :: "('f, 'z) dspflt_scheme \<Rightarrow> 'f biquad \<Rightarrow> int list list \<Rightarrow> int \<Rightarrow> 'f board \<Rightarrow> fault + 'f board" where
  "handle_spdif_data F bq inbuf dma b =
     (if g_interruptFlag b = 1
      then handle_audio_data F bq inbuf (input_index (g_i_da_write_addr b) dma) (b\<lparr>g_interruptFlag := 0\<rparr>)
      else Inr b)"

lemma mapE_ok: "(\<And>x. x \<in> set xs \<Longrightarrow> f x = Inr (g x)) \<Longrightarrow> mapE f xs = Inr (map g xs)"
  by (induction xs) simp_all

lemma smod_pos: "0 \<le> a \<Longrightarrow> 0 < b \<Longrightarrow> a smod b = a mod (b :: int)"
  by (cases "a = 0") (simp_all add: signed_modulo_int_def signed_divide_int_def minus_div_mult_eq_mod)

end
