(* ===== verification/Delay_Line.thy ===== *)
theory Delay_Line
  imports Audio_Path
begin

text \<open>
  The delay of a route: the ring \<open>DelayBuf\<close> of \<open>handle_audio_data\<close> refines a list that is moved by the delay.
\<close>

section \<open>The delay line\<close>

text \<open>One block through the ring of a route: what \<open>band_out\<close> stores and \<open>deliver_sample\<close> reads.\<close>

definition delay_block :: "('f, 'z) dspflt_scheme \<Rightarrow> int \<Rightarrow> 'f list \<Rightarrow> 'f list \<times> int \<Rightarrow> fault + 'f list \<times> ('f list \<times> int)" where
  "delay_block F dt xs s = (case s of (row, wp) \<Rightarrow>
     bindE (delay_store F wp xs row) (\<lambda>row.
     bindE (mapE (\<lambda>i. iget ''DelayBuf'' row (delay_index (delay_readptr wp dt) i)) [0..<HALF]) (\<lambda>ys.
       Inr (ys, (row, (wp + int HALF) smod DELAY_LEN)))))"

text \<open>A sample as the ring keeps it: rounded to an integer.\<close>

definition quantise :: "('f, 'z) dspflt_scheme \<Rightarrow> 'f \<Rightarrow> 'f" where
  "quantise F x = of_sint F (to_int F x)"

text \<open>
  The ring after the samples \<open>h\<close>, lifted to a list: its cells hold the last 5120 elements of the history, silence (\<open>z\<close>)
  before the first sample.
\<close>

definition ring_holds :: "('f, 'z) dspflt_scheme \<Rightarrow> 'f \<Rightarrow> 'f list \<Rightarrow> 'f list \<times> int \<Rightarrow> bool" where
  "ring_holds F z h s \<longleftrightarrow> (case s of (row, wp) \<Rightarrow> length row = 5120 \<and> 128 dvd length h \<and> wp = int (length h mod 5120) \<and>
     (\<forall>t. length h \<le> t \<and> t < length h + 5120 \<longrightarrow> row ! (t mod 5120) = (replicate 5120 z @ map (quantise F) h) ! t))"

lemma mod_if_lt: "a < b \<Longrightarrow> a mod b = (a :: nat)"
  by simp

lemma mod_if_ge: "b \<le> a \<Longrightarrow> a < 2 * b \<Longrightarrow> a mod b = (a - b :: nat)"
  by (simp add: le_mod_geq)

lemma wp_bound: "128 dvd (n::nat) \<Longrightarrow> n mod 5120 + 128 \<le> 5120"
proof -
  assume "128 dvd n"
  then have "128 dvd n mod 5120" by (simp add: dvd_mod)
  then obtain k where k: "n mod 5120 = 128 * k" by blast
  moreover have "n mod 5120 < 5120" by simp
  ultimately show ?thesis by simp
qed

lemma mod_shift: "(n + e) mod 5120 = (if n mod 5120 + e < 5120 then n mod 5120 + e else n mod 5120 + e - 5120)"
  if "e < 5120" for n e :: nat
proof -
  have "(n + e) mod 5120 = (n mod 5120 + e) mod 5120" by (simp add: mod_add_left_eq)
  moreover have "n mod 5120 < 5120" by simp
  ultimately show ?thesis using that by (cases "n mod 5120 + e < 5120") (simp_all add: mod_if_lt mod_if_ge)
qed

lemma delay_index_mod:
  assumes "q < 5120" "i < 128"
  shows "delay_index (int q) i = int ((q + i) mod 5120)"
proof (cases "q + i < 5120")
  case True
  then have "(q + i) mod 5120 = q + i" by simp
  with True show ?thesis by (simp add: delay_index_def DELAY_LEN_def del: of_nat_mod)
next
  case False
  then have "(q + i) mod 5120 = q + i - 5120" using assms by (intro mod_if_ge) simp_all
  moreover have "\<not> int q + int HALF \<le> 5120" "\<not> int i < 5120 - int q" using False assms(2) by (simp_all add: HALF_def)
  ultimately show ?thesis using False by (simp add: delay_index_def DELAY_LEN_def del: of_nat_mod)
qed

lemma nth_drop_take: "n + i < m \<Longrightarrow> m \<le> length xs \<Longrightarrow> drop n (take m xs) ! i = xs ! (n + i)"
  by simp

lemma delay_index_time:
  assumes "128 dvd n" "d \<le> 4992" "i < 128"
  shows "delay_index (delay_readptr (int (n mod 5120)) (int d)) i = int ((n + (5120 - d) + i) mod 5120)"
proof -
  let ?w = "n mod 5120"
  let ?q = "(?w + (5120 - d)) mod 5120"
  have "delay_readptr (int ?w) (int d) = int ?q"
    using assms(2) by (simp add: delay_readptr_def DELAY_LEN_def smod_pos zmod_int of_nat_diff algebra_simps)
  moreover have "delay_index (int ?q) i = int ((?q + i) mod 5120)" by (rule delay_index_mod [OF _ assms(3)]) simp
  moreover have "(?q + i) mod 5120 = (n + (5120 - d) + i) mod 5120" by (metis mod_add_left_eq add.assoc)
  ultimately show ?thesis by metis
qed

lemma ring_store:
  assumes "ring_holds F z h (row, wp)" "length xs = 128"
  shows "\<exists>row'. delay_store F wp xs row = Inr row' \<and> ring_holds F z (h @ xs) (row', (wp + int HALF) smod DELAY_LEN)"
proof -
  let ?n = "length h" and ?row = "overlay row (length h mod 5120) (map (quantise F) xs)"
  have r: "length row = 5120" "128 dvd ?n" "wp = int (?n mod 5120)"
    and c: "\<And>t. ?n \<le> t \<Longrightarrow> t < ?n + 5120 \<Longrightarrow> row ! (t mod 5120) = (replicate 5120 z @ map (quantise F) h) ! t"
    using assms(1) by (auto simp: ring_holds_def)
  have w: "?n mod 5120 + 128 \<le> 5120" by (rule wp_bound [OF r(2)])
  have s: "delay_store F wp xs row = Inr ?row" using r w assms(2) by (simp add: delay_store_def quantise_def [abs_def])
  have cell: "?row ! (t mod 5120) = (replicate 5120 z @ map (quantise F) (h @ xs)) ! t"
    if t: "?n + 128 \<le> t" "t < ?n + 128 + 5120" for t
  proof (cases "t < ?n + 5120")
    case True
    define e where "e = t - ?n"
    have e: "t = ?n + e" "128 \<le> e" "e < 5120" using t True by (simp_all add: e_def)
    have m: "t mod 5120 = (if ?n mod 5120 + e < 5120 then ?n mod 5120 + e else ?n mod 5120 + e - 5120)"
      unfolding e(1) by (rule mod_shift [OF e(3)])
    have "?row ! (t mod 5120) = row ! (t mod 5120)"
      unfolding m using e w r(1) assms(2) by (auto simp: overlay_def nth_append)
    also have "\<dots> = (replicate 5120 z @ map (quantise F) h) ! t" using t True by (intro c) simp_all
    also have "\<dots> = (replicate 5120 z @ map (quantise F) (h @ xs)) ! t" using True by (auto simp: nth_append)
    finally show ?thesis .
  next
    case False
    define i where "i = t - (?n + 5120)"
    have i: "t = ?n + 5120 + i" "i < 128" using t False by (simp_all add: i_def)
    have "t mod 5120 = ?n mod 5120 + i" using w i(2) mod_shift [of i ?n] mod_add_self2 [of "?n + i" 5120] unfolding i(1) by (simp only: ac_simps) simp
    then show ?thesis using w r(1) assms(2) i by (simp add: overlay_def nth_append)
  qed
  have "(wp + int HALF) smod DELAY_LEN = int ((?n + 128) mod 5120)"
    by (simp add: r(3) HALF_def DELAY_LEN_def smod_pos zmod_int mod_add_left_eq)
  with s cell r w assms(2) show ?thesis by (intro exI [of _ ?row]) (simp add: ring_holds_def)
qed

lemma delay_step:
  assumes "ring_holds F z h s" "length xs = 128" "d \<le> 4992"
  shows "\<exists>s'. delay_block F (int d) xs s =
      Inr (drop (length h) (take (length (h @ xs)) (replicate d z @ map (quantise F) (h @ xs))), s') \<and> ring_holds F z (h @ xs) s'"
proof -
  obtain row wp where s: "s = (row, wp)" by (cases s)
  let ?n = "length h" and ?H = "replicate 5120 z @ map (quantise F) (h @ xs)"
  obtain row' where st: "delay_store F wp xs row = Inr row'" "ring_holds F z (h @ xs) (row', (wp + int HALF) smod DELAY_LEN)"
    using ring_store [of F z h row wp xs] assms(1,2) unfolding s by blast
  have r: "128 dvd ?n" "wp = int (?n mod 5120)" "length row' = 5120"
    and c: "\<And>t. ?n + 128 \<le> t \<Longrightarrow> t < ?n + 128 + 5120 \<Longrightarrow> row' ! (t mod 5120) = ?H ! t"
    using assms(1,2) st(2) by (auto simp: ring_holds_def s)
  have "mapE (\<lambda>i. iget ''DelayBuf'' row' (delay_index (delay_readptr wp (int d)) i)) [0..<HALF] =
      Inr (map (\<lambda>i. ?H ! (?n + (5120 - d) + i)) [0..<HALF])"
  proof (rule mapE_ok)
    fix i assume "i \<in> set [0..<HALF]"
    then have i: "i < 128" by (simp add: HALF_def)
    have "delay_index (delay_readptr wp (int d)) i = int ((?n + (5120 - d) + i) mod 5120)"
      unfolding r(2) by (rule delay_index_time [OF r(1) assms(3) i])
    moreover have "row' ! ((?n + (5120 - d) + i) mod 5120) = ?H ! (?n + (5120 - d) + i)"
      using assms(3) i by (intro c) simp_all
    ultimately show "iget ''DelayBuf'' row' (delay_index (delay_readptr wp (int d)) i) = Inr (?H ! (?n + (5120 - d) + i))"
      by (simp del: of_nat_add of_nat_mod add: iget_def r(3))
  qed
  moreover have "map (\<lambda>i. ?H ! (?n + (5120 - d) + i)) [0..<HALF] =
      drop ?n (take (length (h @ xs)) (replicate d z @ map (quantise F) (h @ xs)))"
  proof (rule nth_equalityI)
    fix i assume "i < length (map (\<lambda>i. ?H ! (?n + (5120 - d) + i)) [0..<HALF])"
    then have i: "i < 128" by (simp add: HALF_def)
    have "replicate 5120 z = replicate (5120 - d) z @ replicate d z" using assms(3) by (simp add: replicate_add [symmetric])
    then have "?H ! (?n + (5120 - d) + i) = (replicate d z @ map (quantise F) (h @ xs)) ! (?n + i)"
      by (simp add: nth_append add.assoc add.commute [of "5120 - d"])
    moreover have "drop ?n (take (length (h @ xs)) (replicate d z @ map (quantise F) (h @ xs))) ! i =
        (replicate d z @ map (quantise F) (h @ xs)) ! (?n + i)"
      using i assms(2) by (intro nth_drop_take) simp_all
    ultimately show "map (\<lambda>i. ?H ! (?n + (5120 - d) + i)) [0..<HALF] ! i =
        drop ?n (take (length (h @ xs)) (replicate d z @ map (quantise F) (h @ xs))) ! i"
      using i by (simp add: HALF_def)
  qed (use assms(2) in \<open>simp add: HALF_def\<close>)
  ultimately show ?thesis using st by (simp add: delay_block_def s)
qed

text \<open>
  C13: the delay line. For every delay the command accepts (at most \<open>DelayBufSIZE - FFTSIZE / 2\<close> samples) the ring of a
  route is a pure delay: over any number of blocks its output is the input, rounded to integers, behind
  \<open>d\<close> samples of silence.
\<close>

theorem delay_line:
  assumes "list_all (\<lambda>xs. length xs = 128) xss" "d \<le> 4992"
  shows "\<exists>yss s. stream (delay_block F (int d)) xss (replicate 5120 z, 0) = Inr (yss, s) \<and> map length yss = map length xss \<and>
    concat yss = take (length (concat xss)) (replicate d z @ map (quantise F) (concat xss))"
proof -
  let ?G = "\<lambda>x. take (length x) (replicate d z @ map (quantise F) x)"
  have "ring_holds F z [] (replicate 5120 z, 0)" by (auto simp: ring_holds_def nth_append)
  moreover have "\<exists>s'. delay_block F (int d) x s = Inr (drop (length h) (?G (h @ x)), s') \<and> ring_holds F z (h @ x) s'"
    if "ring_holds F z h s" "length x = 128" for h x s
    using delay_step [OF that assms(2)] .
  moreover have "take (length x) (?G (x @ y)) = ?G x" for x y :: "'a list"
  proof -
    have "take (length x) (?G (x @ y)) = take (length x) ((replicate d z @ map (quantise F) x) @ map (quantise F) y)"
      by (simp add: min_def)
    then show ?thesis by (simp only: take_append) simp
  qed
  ultimately show ?thesis
    using stream_causal_blocks [where I = "ring_holds F z" and G = ?G and f = "delay_block F (int d)" and h = "[]"
        and P = "\<lambda>xs. length xs = 128", OF _ assms(1)] by fastforce
qed

theorem delay_line_witness:
  "\<exists>s. stream (delay_block real_dspflt 3) [replicate 128 (11 / 2), replicate 128 7] (replicate 5120 0, 0) =
     Inr ([replicate 3 0 @ replicate 125 5, replicate 3 5 @ replicate 125 7], s)"
proof -
  let ?x = "[replicate 128 (11 / 2), replicate 128 7] :: real list list"
  obtain yss s where y: "stream (delay_block real_dspflt 3) ?x (replicate 5120 0, 0) = Inr (yss, s)" "map length yss = [128, 128]"
      "concat yss = take (length (concat ?x)) (replicate 3 0 @ map (quantise real_dspflt) (concat ?x))"
    using delay_line [of ?x 3 real_dspflt 0] by auto
  then obtain as bs where ab: "yss = [as, bs]" "length as = 128" "length bs = 128" by (cases yss; cases "tl yss") auto
  have q: "quantise real_dspflt (11 / 2) = 5" "quantise real_dspflt 7 = 7" by (simp_all add: quantise_def real_dspflt_simps floor_eq_iff)
  have "replicate 128 (5 :: real) = replicate 125 5 @ replicate 3 5" by (simp add: replicate_add [symmetric])
  then have "as @ bs = (replicate 3 0 @ replicate 125 5) @ (replicate 3 5 @ replicate 125 7)"
    using y(3) by (simp add: ab(1) q)
  then have "as = replicate 3 0 @ replicate 125 5" "bs = replicate 3 5 @ replicate 125 7"
    by (subst (asm) append_eq_append_conv; simp add: ab)+
  with y(1) show ?thesis by (simp add: ab(1))
qed

end
