(* ===== verification/Audio_Safety.thy ===== *)
theory Audio_Safety
  imports Delay_Line
begin

text \<open>
  A block of samples stays inside the arrays of the DSP program: the invariant \<open>board_ok\<close> of the buffers, and that
  \<open>handle_audio_data\<close> and its callers return and keep it, as long as every entry of the routing table names one of
  the 16 outputs.
\<close>

section \<open>Invariant\<close>

definition delays_ok :: "u32 list \<Rightarrow> bool" where
  "delays_ok ds \<longleftrightarrow> list_all (\<lambda>d. 0 \<le> sint d \<and> sint d \<le> 4992) ds"

definition routes_ok :: "int list list \<Rightarrow> bool" where
  "routes_ok bk \<longleftrightarrow> list_all (list_all (\<lambda>r. r < 16)) bk"

definition board_ok :: "'f board \<Rightarrow> bool" where
  "board_ok b \<longleftrightarrow> dsp_ok (par b) \<and> delays_ok (Delaytime_samplenums (par b)) \<and>
     routes_ok (outsignalchannel_book24m3 (eq (par b))) \<and> eq_mem_ok (fmem b) \<and> length (effect (sel b)) = 16 \<and>
     matrix_ok 16 128 (da_channel_buffer b) \<and> matrix_ok 16 128 (da_channel_buffer_multi b) \<and>
     length (divisionoutbuf b) = 128 \<and> matrix_ok 16 5120 (DelayBuf b) \<and> 0 \<le> DelayBuf_writeptr b \<and>
     DelayBuf_writeptr b + 128 \<le> 5120 \<and> 128 dvd DelayBuf_writeptr b \<and> matrix_ok 8 1024 (TxBlock_PCM4104 b) \<and>
     0 \<le> g_i_da_write_addr b \<and> g_i_da_write_addr b \<le> 4 \<and> length (V0 b) = 16"

text \<open>The input pointers that are used lie in a buffer of \<open>n\<close> rows.\<close>

definition inputs_ok :: "nat \<Rightarrow> int list list \<Rightarrow> int list \<Rightarrow> bool" where
  "inputs_ok n inbuf ad \<longleftrightarrow> matrix_ok n 1024 inbuf \<and> length ad = 8 \<and> list_all (\<lambda>c. -1 \<le> c \<and> c < 2 * int n) ad"

text \<open>What the documentation of \<open>biquad\<close> says of its buffers: as many samples out as in, the state keeps its size.\<close>

definition biquad_sizes :: "'f biquad \<Rightarrow> bool" where
  "biquad_sizes bq \<longleftrightarrow> (\<forall>cs st n xs. length st = 2 * n + 1 \<longrightarrow>
     length (fst (bq cs st n xs)) = length xs \<and> length (snd (bq cs st n xs)) = length st)"

section \<open>Weakest preconditions of the steps\<close>

lemma sumP_iget [wp]: "sumP P (iget nm xs i) \<longleftrightarrow> 0 \<le> i \<and> i < int (length xs) \<and> P (xs ! nat i)"
  by (auto simp: iget_def)

lemma sumP_iput [wp]: "sumP P (iput nm xs i v) \<longleftrightarrow> 0 \<le> i \<and> i < int (length xs) \<and> P (xs[nat i := v])"
  by (auto simp: iput_def)

lemma sumP_conj: "sumP P m \<Longrightarrow> sumP Q m \<Longrightarrow> sumP (\<lambda>x. P x \<and> Q x) m"
  by (cases m) simp_all

lemma sumP_foldE:
  assumes "P s" "\<And>x s. x \<in> set xs \<Longrightarrow> P s \<Longrightarrow> sumP P (f x s)"
  shows "sumP P (foldE f xs s)"
  using foldE_invariant [of P s xs f] assms by (auto simp: sumP_ex)

lemma sumP_foldE_rel:
  assumes "P t" "R s t" "\<And>x y z. R x y \<Longrightarrow> R y z \<Longrightarrow> R x z"
    and "\<And>x t. x \<in> set xs \<Longrightarrow> P t \<Longrightarrow> sumP (\<lambda>t'. P t' \<and> R t t') (f x t)"
  shows "sumP (\<lambda>t. P t \<and> R s t) (foldE f xs t)"
proof (rule sumP_foldE)
  fix x t assume "x \<in> set xs" "P t \<and> R s t"
  then have "sumP (\<lambda>t'. P t' \<and> R t t') (f x t)" "R s t" using assms(4) by simp_all
  then show "sumP (\<lambda>t. P t \<and> R s t) (f x t)" using assms(3) by (auto simp: sumP_ex)
qed (use assms in simp)

lemma sumP_mapE:
  assumes "\<And>x. x \<in> set xs \<Longrightarrow> sumP Q (f x)"
  shows "sumP (\<lambda>ys. length ys = length xs \<and> (\<forall>y \<in> set ys. Q y)) (mapE f xs)"
  using assms
proof (induction xs)
  case (Cons x xs)
  have "sumP Q (f x)" "sumP (\<lambda>ys. length ys = length xs \<and> (\<forall>y \<in> set ys. Q y)) (mapE f xs)"
    using Cons by simp_all
  then show ?case by (auto simp: sumP_ex)
qed simp

lemma pcm_rows:
  assumes "matrix_ok m n buf" "0 \<le> r" "r < 2 * int m" "0 \<le> k" "k + 1 < int n"
  shows "nat (r div 2) < length buf" "length (buf ! nat (r div 2)) = n" "0 \<le> r div 2" "0 \<le> r mod 2 + k" "r mod 2 + k < int n"
proof -
  show a: "nat (r div 2) < length buf" using assms(1-3) by (simp add: matrix_ok_def)
  then show "length (buf ! nat (r div 2)) = n" using assms(1) by (simp add: matrix_ok_def)
  have "r mod 2 < 2" "0 \<le> r mod 2" by simp_all
  then show "0 \<le> r div 2" "0 \<le> r mod 2 + k" "r mod 2 + k < int n" using assms(2,4,5) by linarith+
qed

lemma pcm_get_ok:
  assumes "matrix_ok m n buf" "0 \<le> r" "r < 2 * int m" "0 \<le> k" "k + 1 < int n"
  shows "pcm_get nm buf r k = Inr (buf ! nat (r div 2) ! nat (r mod 2 + k))"
  using pcm_rows [OF assms] by (simp add: pcm_get_def iget_ok)

lemma pcm_put_ok:
  assumes "matrix_ok m n buf" "0 \<le> r" "r < 2 * int m" "0 \<le> k" "k + 1 < int n"
  shows "pcm_put nm buf r k v = Inr (buf[nat (r div 2) := (buf ! nat (r div 2))[nat (r mod 2 + k) := v]])"
    "matrix_ok m n (buf[nat (r div 2) := (buf ! nat (r div 2))[nat (r mod 2 + k) := v]])"
  using pcm_rows [OF assms] assms(1) by (simp_all add: pcm_put_def iget_ok iput_ok matrix_update)

lemma sumP_pcm_get:
  assumes "matrix_ok m n buf" "0 \<le> r" "r < 2 * int m" "0 \<le> k" "k + 1 < int n"
  shows "sumP (\<lambda>v. True) (pcm_get nm buf r k)"
  by (simp add: pcm_get_ok [OF assms])

lemma sumP_pcm_put:
  assumes "matrix_ok m n buf" "0 \<le> r" "r < 2 * int m" "0 \<le> k" "k + 1 < int n"
  shows "sumP (matrix_ok m n) (pcm_put nm buf r k v)"
  using pcm_put_ok [OF assms] by simp

text \<open>Sample \<open>j\<close> of block \<open>idx\<close>.\<close>

lemma sample_index: "j < 128 \<Longrightarrow> 0 \<le> idx \<Longrightarrow> idx < 4 \<Longrightarrow> 0 \<le> int j * 2 + idx * BLOCK \<and> int j * 2 + idx * BLOCK + 1 < int 1024"
  by (simp add: BLOCK_def)

lemma da_out_range: "i < 16 \<Longrightarrow> 0 \<le> g_i_da_out ! i \<and> g_i_da_out ! i < 16"
proof -
  assume "i < 16"
  then have "g_i_da_out ! i \<in> set g_i_da_out" by (intro nth_mem) (simp add: g_i_da_out_def)
  then show ?thesis by (auto simp: g_i_da_out_def)
qed

lemma upt_HALF: "j \<in> set [0..<HALF] \<Longrightarrow> j < 128"
  by (simp add: HALF_def)

section \<open>Filters\<close>

lemma biquad_at_ok:
  assumes "biquad_sizes bq" "matrix_ok m p cfs" "matrix_ok m n sts" "0 \<le> i" "i < int m"
    and "off + 5 * k \<le> p" "off + 2 * k + 1 \<le> n"
  shows "sumP (\<lambda>(ys, sts'). length ys = length xs \<and> matrix_ok m n sts') (biquad_at bq nm cfs sts i off k xs)"
proof -
  have l: "length cfs = m" "length sts = m" "length (cfs ! nat i) = p" "length (sts ! nat i) = n"
    using assms(2-5) by (auto simp: matrix_ok_def)
  obtain ys s where r: "bq (take (5 * k) (drop off (cfs ! nat i))) (take (2 * k + 1) (drop off (sts ! nat i))) k xs = (ys, s)"
    by (cases "bq (take (5 * k) (drop off (cfs ! nat i))) (take (2 * k + 1) (drop off (sts ! nat i))) k xs")
  moreover have "length (take (2 * k + 1) (drop off (sts ! nat i))) = 2 * k + 1" using assms(7) l by simp
  ultimately have "length ys = length xs" "length s = 2 * k + 1"
    using assms(1) unfolding biquad_sizes_def by (metis fst_conv, metis snd_conv)
  then show ?thesis
    using assms l by (simp add: biquad_at_def iget_ok iput_ok r [simplified] matrix_update)
qed

lemma hpf_dl_loop_lengths:
  "length (fst (hpf_dl_loop F cf xs st)) = length xs \<and> length (snd (hpf_dl_loop F cf xs st)) = length st"
  by (induction F cf xs st rule: hpf_dl_loop.induct) (auto simp: hpf_dl_sample_def Let_def split: prod.split)

lemma filter_blocks_ok:
  assumes "biquad_sizes bq" "eq_mem_ok m" "0 \<le> ch" "ch < 24"
  shows "sumP (\<lambda>(ys, m). length ys = length xs \<and> eq_mem_ok m) (filter_process_GEQ_block bq ch xs m)"
    "sumP (\<lambda>(ys, m). length ys = length xs \<and> eq_mem_ok m) (filter_process_LPF_block bq ch xs m)"
    "sumP (\<lambda>(ys, m). length ys = length xs \<and> eq_mem_ok m) (filter_process_HPF_block_dl F ch xs m)"
proof -
  have m: "matrix_ok 24 155 (filter_cf_31b m)" "matrix_ok 24 155 (filter_state_31b m)" "matrix_ok 24 5 (filter_cf_LPF m)"
    "matrix_ok 24 5 (filter_state_LPF m)" "matrix_ok 24 5 (filter_cf_HPF_dl m)" "matrix_ok 24 5 (filter_state_HPF_dl m)"
    using assms(2) by (simp_all add: eq_mem_ok_def)
  show "sumP (\<lambda>(ys, m). length ys = length xs \<and> eq_mem_ok m) (filter_process_GEQ_block bq ch xs m)"
    using biquad_at_ok [OF assms(1) m(1,2) assms(3), of 10 29 xs "''filter_cf_31b''"] assms
    by (auto simp: filter_process_GEQ_block_def Band_count_GEQ_def sumP_ex eq_mem_ok_def)
  show "sumP (\<lambda>(ys, m). length ys = length xs \<and> eq_mem_ok m) (filter_process_LPF_block bq ch xs m)"
    using biquad_at_ok [OF assms(1) m(3,4) assms(3), of 0 1 xs "''filter_cf_LPF''"] assms
    by (auto simp: filter_process_LPF_block_def sumP_ex eq_mem_ok_def)
  have l: "length (filter_state_HPF_dl m ! nat ch) = 5" "length (filter_state_HPF_dl m) = 24" "length (filter_cf_HPF_dl m) = 24"
    using m assms(3,4) by (auto simp: matrix_ok_def)
  obtain ys st where r: "hpf_dl_loop F (filter_cf_HPF_dl m ! nat ch) xs (filter_state_HPF_dl m ! nat ch) = (ys, st)"
    by (cases "hpf_dl_loop F (filter_cf_HPF_dl m ! nat ch) xs (filter_state_HPF_dl m ! nat ch)")
  then have "length ys = length xs" "length st = 5"
    using hpf_dl_loop_lengths [of F "filter_cf_HPF_dl m ! nat ch" xs "filter_state_HPF_dl m ! nat ch"] l by simp_all
  then show "sumP (\<lambda>(ys, m). length ys = length xs \<and> eq_mem_ok m) (filter_process_HPF_block_dl F ch xs m)"
    using assms l m(6) r by (auto simp: filter_process_HPF_block_dl_def wp eq_mem_ok_def matrix_update)
qed

lemma channel_filters_ok:
  assumes "biquad_sizes bq" "eq_mem_ok m" "ch < 24"
  shows "sumP (\<lambda>(ys, m). length ys = length xs \<and> eq_mem_ok m) (channel_filters F bq ch xs m)"
proof -
  have ch: "0 \<le> int ch" "int ch < 24" using assms(3) by simp_all
  obtain ys m1 where 1: "filter_process_GEQ_block bq (int ch) xs m = Inr (ys, m1)" "length ys = length xs" "eq_mem_ok m1"
    using filter_blocks_ok(1) [OF assms(1,2) ch, of xs] by (auto simp: sumP_ex)
  obtain zs m2 where 2: "filter_process_HPF_block_dl F (int ch) ys m1 = Inr (zs, m2)" "length zs = length xs" "eq_mem_ok m2"
    using filter_blocks_ok(3) [OF assms(1) 1(3) ch, of ys F] 1(2) by (auto simp: sumP_ex)
  show ?thesis using filter_blocks_ok(2) [OF assms(1) 2(3) ch, of zs] 1 2 by (simp add: channel_filters_def)
qed

lemma frequencydivision_channel_ok:
  assumes "biquad_sizes bq" "eq_mem_ok m" "length bandnums = 16" "ch < 16" "length buf = length xs"
  shows "sumP (\<lambda>(ys, m). length ys = length xs \<and> eq_mem_ok m) (frequencydivision_channel F bq bandnums (int ch) band xs buf m)"
proof -
  have m: "matrix_ok 72 10 (filter_cf_frequencydivion m)" "matrix_ok 72 5 (filter_state_frequencydivion m)"
    using assms(2) by (simp_all add: eq_mem_ok_def)
  have d: "sumP (\<lambda>(ys, m). length ys = length xs \<and> eq_mem_ok m) (division_biquad bq i k xs m)"
    if "0 \<le> i" "i < 72" "k \<le> 2" for i k
    using biquad_at_ok [OF assms(1) m that(1), of 0 k xs "''filter_cf_frequencydivion''"] assms(2) that(2,3)
    by (auto simp: division_biquad_def sumP_ex eq_mem_ok_def)
  show ?thesis
    using assms by (simp add: frequencydivision_channel_def iget_ok d wp split: if_splits)
qed

section \<open>Steps\<close>

lemma load_inputs_ok:
  assumes "board_ok b" "inputs_ok n inbuf (g_i_ad_in (sel b))" "0 \<le> idx" "idx < 4"
  shows "sumP (\<lambda>b'. board_ok b' \<and> sel b' = sel b \<and> par b' = par b) (load_inputs F inbuf idx b)"
proof -
  have row: "sumP (\<lambda>r. length r = 128) (load_row F inbuf idx b i)" if "i \<in> set [0..<8]" for i
  proof -
    let ?c = "g_i_ad_in (sel b) ! i"
    have c: "length (g_i_ad_in (sel b)) = 8" "-1 \<le> ?c" "?c < 2 * int n" "matrix_ok n 1024 inbuf"
      using assms(2) that by (auto simp: inputs_ok_def list_all_length simp del: upt_rec_numeral)
    have "sumP (\<lambda>ys. length ys = 128) (mapE (\<lambda>j. bindE (pcm_get ''p_input_buf'' inbuf ?c (int j * 2 + idx * BLOCK)) (\<lambda>v.
        Inr (fmul F (of_sint F (v div 256)) (knobvolumegainvalue (gen (par b)))))) [0..<HALF])" if "?c \<noteq> -1"
    proof -
      have "sumP (\<lambda>v. True) (bindE (pcm_get ''p_input_buf'' inbuf ?c (int j * 2 + idx * BLOCK)) (\<lambda>v.
          Inr (fmul F (of_sint F (v div 256)) (knobvolumegainvalue (gen (par b))))))" if "j \<in> set [0..<HALF]" for j
        using c \<open>?c \<noteq> -1\<close> sample_index [OF upt_HALF [OF that] assms(3,4)] by (simp add: wp sumP_pcm_get)
      from sumP_mapE [OF this] show ?thesis by (rule sumP_mono) (simp_all add: HALF_def)
    qed
    then show ?thesis using c that by (simp add: load_row_def iget_ok HALF_def wp del: upt_rec_numeral)
  qed
  have "sumP (\<lambda>rs. length rs = 8 \<and> (\<forall>r \<in> set rs. length r = 128)) (mapE (load_row F inbuf idx b) [0..<8])"
    by (rule sumP_mono [OF sumP_mapE [OF row]]) (simp_all del: upt_rec_numeral)
  moreover have "matrix_ok 16 128 (rs @ drop 8 (da_channel_buffer b))" if "length rs = 8" "\<forall>r \<in> set rs. length r = 128" for rs
    using assms(1) that by (auto simp: board_ok_def matrix_ok_def dest: in_set_dropD)
  ultimately show ?thesis using assms(1) by (auto simp: load_inputs_def sumP_ex board_ok_def)
qed

lemma mix_channel_length:
  assumes "matrix_ok 16 128 buf"
  shows "length (mix_channel F M buf outch) = 128"
proof -
  have "length (foldl (\<lambda>acc i. if M ! i ! outch = 1 then map2 (fadd F) acc (buf ! i) else acc) zs ks) = 128"
    if "length zs = 128" "\<forall>i \<in> set ks. i < 16" for zs ks
    using that
  proof (induction ks arbitrary: zs)
    case (Cons i ks)
    moreover have "length (buf ! i) = 128" using assms Cons.prems by (intro matrix_nth [of 16]) simp_all
    ultimately show ?case by simp
  qed simp
  then show ?thesis unfolding mix_channel_def by (simp add: HALF_def del: upt_rec_numeral)
qed

lemma matrix_out_ok: "matrix_ok 16 128 buf \<Longrightarrow> matrix_ok 16 128 out \<Longrightarrow> matrix_ok 16 128 (matrixtooutputchannel F M buf out)"
  by (auto simp: matrixtooutputchannel_def matrix_ok_def [of _ _ "_ @ _"] mix_channel_length simp del: upt_rec_numeral)
    (auto simp: matrix_ok_def dest: in_set_dropD)

lemma fade_row_length: "length (snd (fade_row F d u st c xs)) = length xs"
  by (induction F d u st c xs rule: fade_row.induct) (simp_all add: Let_def)

text \<open>The fade of a block does not look at the samples.\<close>

definition fade_block :: "('f, 'z) dspflt_scheme \<Rightarrow> 'f insel \<Rightarrow> 'f insel" where
  "fade_block F s = s\<lparr>effect := map (\<lambda>(c, st).
     (fst (fade_row F (g_i_change_down_flag s) (g_i_change_up_flag s) st c (replicate 128 (lit F 0 0))), st)) (effect s)\<rparr>"

lemma fade_row_coef: "length xs = length ys \<Longrightarrow> fst (fade_row F d u st c xs) = fst (fade_row F d u st c ys)"
proof (induction xs ys arbitrary: c rule: list_induct2)
  case (Cons x xs y ys)
  have "fst (fade_sample F d u st c x) = fst (fade_sample F d u st c y)" by (simp add: fade_sample_def Let_def)
  with Cons show ?case by (simp add: Let_def)
qed simp

lemma fade_channels_ok:
  assumes "board_ok b"
  shows "board_ok (fade_channels F b) \<and> sel (fade_channels F b) = fade_block F (sel b) \<and> par (fade_channels F b) = par b"
proof -
  have m: "matrix_ok 16 128 (da_channel_buffer_multi b)" "length (effect (sel b)) = 16" using assms by (simp_all add: board_ok_def)
  let ?rs = "map2 (\<lambda>(c, st) xs. fade_row F (g_i_change_down_flag (sel b)) (g_i_change_up_flag (sel b)) st c xs)
     (effect (sel b)) (da_channel_buffer_multi b)"
  have "matrix_ok 16 128 (map snd ?rs)" using m by (auto simp: matrix_ok_def fade_row_length dest: set_zip_rightD)
  moreover have l: "length ?rs = 16" using m by (simp add: matrix_ok_def)
  moreover have "map2 (\<lambda>(c, st) r. (fst r, st)) (effect (sel b)) ?rs = map (\<lambda>(c, st). (fst (fade_row F (g_i_change_down_flag (sel b))
      (g_i_change_up_flag (sel b)) st c (replicate 128 (lit F 0 0))), st)) (effect (sel b))"
  proof (rule nth_equalityI)
    fix i assume "i < length (map2 (\<lambda>(c, st) r. (fst r, st)) (effect (sel b)) ?rs)"
    then have i: "i < 16" using m l by simp
    then have "length (da_channel_buffer_multi b ! i) = length (replicate 128 (lit F 0 0))" using matrix_nth [OF m(1)] by simp
    from fade_row_coef [OF this] show "map2 (\<lambda>(c, st) r. (fst r, st)) (effect (sel b)) ?rs ! i =
        map (\<lambda>(c, st). (fst (fade_row F (g_i_change_down_flag (sel b)) (g_i_change_up_flag (sel b)) st c
          (replicate 128 (lit F 0 0))), st)) (effect (sel b)) ! i"
      using i m l by (simp add: split_beta matrix_ok_def)
  qed (use m l in simp)
  ultimately show ?thesis using assms by (simp add: fade_channels_def Let_def board_ok_def fade_block_def)
qed

lemma board_tx:
  assumes "board_ok b" "0 \<le> r" "r < 16" "j < 128" "0 \<le> wa" "wa < 4"
  shows "sumP (\<lambda>tx. matrix_ok 8 1024 tx) (pcm_put nm (TxBlock_PCM4104 b) r (int j * 2 + wa * BLOCK) v)"
  using assms sample_index [OF assms(4-6)] by (intro sumP_pcm_put) (simp_all add: board_ok_def)

lemma clear_sample_ok:
  assumes "board_ok b" "i < 14" "j < 128" "0 \<le> wa" "wa < 4"
  shows "sumP (\<lambda>b'. board_ok b' \<and> sel b' = sel b \<and> par b' = par b) (clear_sample wa i j b)"
proof -
  have "0 \<le> g_i_da_out ! i" "g_i_da_out ! i < 16" using da_out_range [of i] assms(2) by simp_all
  from board_tx [OF assms(1) this assms(3-5), of "''TxBlock_PCM4104''" 0] show ?thesis
    using assms(1) by (auto simp: clear_sample_def sumP_ex board_ok_def)
qed

lemma monitor_val_ok:
  assumes "inputs_ok n inbuf (g_i_ad_in (sel b))" "i < 8" "j < 128" "0 \<le> idx" "idx < 4"
  shows "sumP (\<lambda>v. True) (monitor_val F inbuf idx b i j)"
proof -
  let ?c = "g_i_ad_in (sel b) ! i"
  have "length (g_i_ad_in (sel b)) = 8" "-1 \<le> ?c" "?c < 2 * int n" "matrix_ok n 1024 inbuf"
    using assms(1,2) by (auto simp: inputs_ok_def list_all_length)
  then show ?thesis
    using assms(2) sample_index [OF assms(3-5)] by (simp add: monitor_val_def iget_ok wp sumP_pcm_get)
qed

lemma monitor_sample_ok:
  assumes "board_ok b" "inputs_ok n inbuf (g_i_ad_in (sel b))" "i < 2" "j < 128" "0 \<le> idx" "idx < 4" "0 \<le> wa" "wa < 4"
  shows "sumP (\<lambda>b'. board_ok b' \<and> sel b' = sel b \<and> par b' = par b) (monitor_sample F inbuf idx wa i j b)"
proof -
  let ?r = "g_i_da_out ! (i + 14)" and ?k = "int j * 2 + wa * BLOCK"
  obtain v w where vw: "monitor_val F inbuf idx b i j = Inr v" "monitor_val F inbuf idx b 2 j = Inr w"
    using monitor_val_ok [OF assms(2) _ assms(4-6), of i F] monitor_val_ok [OF assms(2) _ assms(4-6), of 2 F] assms(3)
    by (auto simp: sumP_ex)
  have r: "0 \<le> ?r" "?r < 2 * int 8" using da_out_range [of "i + 14"] assms(3) by simp_all
  have k: "0 \<le> ?k" "?k + 1 < int 1024" using sample_index [OF assms(4,7,8)] by simp_all
  obtain tx where tx: "pcm_put ''TxBlock_PCM4104'' (TxBlock_PCM4104 b) ?r ?k v = Inr tx" "matrix_ok 8 1024 tx"
    using sumP_pcm_put [of 8 1024 "TxBlock_PCM4104 b", OF _ r k, of "''TxBlock_PCM4104''" v] assms(1)
    by (auto simp: sumP_ex board_ok_def)
  obtain u where u: "pcm_get ''TxBlock_PCM4104'' tx ?r ?k = Inr u" using sumP_pcm_get [OF tx(2) r k] by (auto simp: sumP_ex)
  obtain tx' where "pcm_put ''TxBlock_PCM4104'' tx ?r ?k (to_int F (fadd F (of_sint F u) (fmul F (of_sint F w) (lit F 707 (-3))))) = Inr tx'"
      "matrix_ok 8 1024 tx'"
    using sumP_pcm_put [OF tx(2) r k] by (auto simp: sumP_ex)
  then show ?thesis using vw tx u assms(1) by (simp add: monitor_sample_def Let_def board_ok_def)
qed

text \<open>\<open>mute_fade\<close> changes the two fades only.\<close>

lemma mute_fade_gen:
  "gen_ok (snd (mute_fade F v g)) = gen_ok g" "Mute (snd (mute_fade F v g)) = Mute g"
  by (auto simp: mute_fade_def Let_def gen_ok_def)

lemma readptr_range:
  assumes "0 \<le> wp" "wp < 5120" "0 \<le> d" "d \<le> 4992"
  shows "0 \<le> delay_readptr wp d \<and> delay_readptr wp d < 5120"
  using assms by (simp add: delay_readptr_def DELAY_LEN_def smod_pos)

lemma delay_index_range: "0 \<le> rp \<Longrightarrow> rp < 5120 \<Longrightarrow> i < 128 \<Longrightarrow> 0 \<le> delay_index rp i \<and> delay_index rp i < 5120"
  by (simp add: delay_index_def DELAY_LEN_def HALF_def)

text \<open>What the output of a channel may change of the state that decides its way.\<close>

definition same_paths :: "'f board \<Rightarrow> 'f board \<Rightarrow> bool" where
  "same_paths b b' \<longleftrightarrow> sel b' = sel b \<and> eq (par b') = eq (par b) \<and> outputparam (par b') = outputparam (par b) \<and>
     OutputYtype (par b') = OutputYtype (par b) \<and> Delaytime_samplenums (par b') = Delaytime_samplenums (par b)"

lemma same_paths_refl [simp]: "same_paths b b"
  by (simp add: same_paths_def)

lemma same_paths_trans: "same_paths a b \<Longrightarrow> same_paths b c \<Longrightarrow> same_paths a c"
  by (simp add: same_paths_def)

lemma deliver_sample_ok:
  assumes "board_ok b" "0 \<le> route" "route < 16" "0 \<le> rp" "rp < 5120" "0 \<le> wa" "wa < 4" "i < 128"
  shows "sumP (\<lambda>b'. board_ok b' \<and> same_paths b b') (deliver_sample F route rp wa i b)"
proof -
  let ?row = "DelayBuf b ! nat route" and ?r = "g_i_da_out ! nat route"
  have row: "length (DelayBuf b) = 16" "length ?row = 5120" using assms(1-3) by (auto simp: board_ok_def matrix_ok_def)
  obtain v g where vg: "mute_fade F (clip (to_int F (?row ! nat (delay_index rp i)))) (gen (par b)) = (v, g)"
    by (cases "mute_fade F (clip (to_int F (?row ! nat (delay_index rp i)))) (gen (par b))")
  obtain tx where tx: "pcm_put ''TxBlock_PCM4104'' (TxBlock_PCM4104 b) ?r (int i * 2 + wa * BLOCK) v = Inr tx" "matrix_ok 8 1024 tx"
    using board_tx [OF assms(1) _ _ assms(8,6,7), of ?r "''TxBlock_PCM4104''" v] da_out_range [of "nat route"] assms(2,3)
    by (auto simp: sumP_ex)
  have "dsp_ok ((par b)\<lparr>gen := g\<rparr>)"
    using mute_fade_gen(1) [of F "clip (to_int F (?row ! nat (delay_index rp i)))" "gen (par b)"] vg assms(1)
    by (simp add: board_ok_def dsp_ok_def)
  moreover have "length g_i_da_out = 16" by (simp add: g_i_da_out_def)
  ultimately show ?thesis
    using assms row delay_index_range [OF assms(4,5,8)] vg tx
    by (simp add: deliver_sample_def iget_ok board_ok_def same_paths_def)
qed

lemma delay_store_ok:
  assumes "length row = 5120" "0 \<le> wp" "wp + 128 \<le> 5120" "length xs = 128"
  shows "\<exists>row'. delay_store F wp xs row = Inr row' \<and> length row' = 5120"
  using assms by (simp add: delay_store_def)

lemma book_entry:
  assumes "board_ok b" "ch < 14" "bandx < 3"
  defines "route \<equiv> outsignalchannel_book24m3 (eq (par b)) ! ch ! bandx"
  shows "route < 16" "iget nm (outsignalchannel_book24m3 (eq (par b))) (int ch) = Inr (outsignalchannel_book24m3 (eq (par b)) ! ch)"
    "iget nm (outsignalchannel_book24m3 (eq (par b)) ! ch) (int bandx) = Inr route"
proof -
  let ?bk = "outsignalchannel_book24m3 (eq (par b))"
  have bk: "length ?bk = 16" "length (?bk ! ch) = 3"
    using assms(1,2) dsp_ok_parts(3) [of "par b"] by (auto simp: board_ok_def eq_ok_def matrix_ok_def)
  then have "?bk ! ch \<in> set ?bk" "route \<in> set (?bk ! ch)" using assms(2,3) by (simp_all add: route_def)
  then show "route < 16" using assms(1) by (auto simp: board_ok_def routes_ok_def list_all_iff)
  show "iget nm ?bk (int ch) = Inr (?bk ! ch)" "iget nm (?bk ! ch) (int bandx) = Inr route"
    using bk assms(2,3) by (simp_all add: iget_ok route_def)
qed

lemma route_delay:
  assumes "board_ok b" "0 \<le> route" "route < 16"
  defines "dt \<equiv> sint (Delaytime_samplenums (par b) ! nat route)"
  shows "length (Delaytime_samplenums (par b)) = 16" "0 \<le> dt" "dt \<le> 4992"
    "0 \<le> delay_readptr (DelayBuf_writeptr b) dt" "delay_readptr (DelayBuf_writeptr b) dt < 5120"
proof -
  show l: "length (Delaytime_samplenums (par b)) = 16" using assms(1) dsp_ok_parts(9) [of "par b"] by (simp add: board_ok_def)
  then have "Delaytime_samplenums (par b) ! nat route \<in> set (Delaytime_samplenums (par b))" using assms(2,3) by (intro nth_mem) simp
  then show d: "0 \<le> dt" "dt \<le> 4992" using assms(1) by (auto simp: dt_def board_ok_def delays_ok_def list_all_iff)
  then show "0 \<le> delay_readptr (DelayBuf_writeptr b) dt" "delay_readptr (DelayBuf_writeptr b) dt < 5120"
    using readptr_range [of "DelayBuf_writeptr b" dt] assms(1) by (simp_all add: board_ok_def)
qed

text \<open>A band with an output: the band filter, the store in the ring and the loop that delivers.\<close>

lemma band_route:
  assumes "biquad_sizes bq" "board_ok b" "ch < 14" "bandx < 3" "outsignalchannel_book24m3 (eq (par b)) ! ch ! bandx = route" "0 \<le> route"
  shows "\<exists>out fm row. frequencydivision_channel F bq (divisionbandnum_set (eq (par b))) (int ch) (int bandx)
        (da_channel_buffer_multi b ! ch) (divisionoutbuf b) (fmem b) = Inr (out, fm) \<and> length out = 128 \<and>
      delay_store F (DelayBuf_writeptr b) out (DelayBuf b ! nat route) = Inr row \<and>
      board_ok (b\<lparr>divisionoutbuf := out, fmem := fm, DelayBuf := (DelayBuf b)[nat route := row]\<rparr>) \<and>
      band_out F bq wa ch bandx b =
        foldE (deliver_sample F route (delay_readptr (DelayBuf_writeptr b) (sint (Delaytime_samplenums (par b) ! nat route))) wa)
          [0..<HALF] (b\<lparr>divisionoutbuf := out, fmem := fm, DelayBuf := (DelayBuf b)[nat route := row]\<rparr>)"
proof -
  have lt: "route < 16" using book_entry(1) [OF assms(2-4)] assms(5) by simp
  have w: "0 \<le> DelayBuf_writeptr b" "DelayBuf_writeptr b + 128 \<le> 5120" "matrix_ok 16 5120 (DelayBuf b)"
    using assms(2) by (simp_all add: board_ok_def)
  have row: "length (DelayBuf b) = 16" "length (DelayBuf b ! nat route) = 5120" using w(3) assms(6) lt by (auto simp: matrix_ok_def)
  have xs: "length (da_channel_buffer_multi b ! ch) = 128" "length (divisionoutbuf b) = 128" "eq_mem_ok (fmem b)"
    "length (divisionbandnum_set (eq (par b))) = 16"
    using assms(2,3) matrix_nth [of 16 128 "da_channel_buffer_multi b" ch] dsp_ok_parts(3) [of "par b"]
    by (simp_all add: board_ok_def eq_ok_def)
  obtain out fm where fd: "frequencydivision_channel F bq (divisionbandnum_set (eq (par b))) (int ch) (int bandx)
      (da_channel_buffer_multi b ! ch) (divisionoutbuf b) (fmem b) = Inr (out, fm)" "length out = 128" "eq_mem_ok fm"
    using frequencydivision_channel_ok [OF assms(1) xs(3,4), of ch "divisionoutbuf b" "da_channel_buffer_multi b ! ch" F "int bandx"]
      assms(3) xs(1,2) by (auto simp: sumP_ex)
  obtain row' where st: "delay_store F (DelayBuf_writeptr b) out (DelayBuf b ! nat route) = Inr row'" "length row' = 5120"
    using delay_store_ok [OF row(2) w(1,2) fd(2)] by blast
  have "board_ok (b\<lparr>divisionoutbuf := out, fmem := fm, DelayBuf := (DelayBuf b)[nat route := row']\<rparr>)"
    using assms(2) fd(2,3) st(2) by (simp add: board_ok_def matrix_update)
  then show ?thesis
    using assms(5,6) lt row(1) fd(1,2) st(1) route_delay(1) [OF assms(2) assms(6) lt] book_entry(2,3) [OF assms(2-4)]
    by (simp add: band_out_def iget_ok)
qed

lemma band_out_ok:
  assumes "biquad_sizes bq" "board_ok b" "0 \<le> wa" "wa < 4" "ch < 14" "bandx < 3"
  shows "sumP (\<lambda>b'. board_ok b' \<and> same_paths b b') (band_out F bq wa ch bandx b)"
proof -
  define route where "route = outsignalchannel_book24m3 (eq (par b)) ! ch ! bandx"
  note e = book_entry [OF assms(2,5,6), folded route_def]
  show ?thesis
  proof (cases "route < 0")
    case True
    then show ?thesis using assms(2) e(2,3) by (simp add: band_out_def)
  next
    case False
    then have r: "0 \<le> route" by simp
    note rp = route_delay(4,5) [OF assms(2) r e(1)]
    obtain c where c: "board_ok c" "same_paths b c" and run: "band_out F bq wa ch bandx b =
        foldE (deliver_sample F route (delay_readptr (DelayBuf_writeptr b) (sint (Delaytime_samplenums (par b) ! nat route))) wa) [0..<HALF] c"
      using band_route [OF assms(1,2,5,6) route_def [symmetric] r, of F wa] by (auto simp: same_paths_def)
    show ?thesis
      unfolding run using c deliver_sample_ok [OF _ r e(1) rp assms(3,4) upt_HALF]
      by (intro sumP_foldE_rel) (simp_all add: same_paths_def)
  qed
qed

lemma channel_out_ok:
  assumes "biquad_sizes bq" "board_ok b" "0 \<le> wa" "wa < 4" "ch < 14"
  shows "sumP (\<lambda>b'. board_ok b' \<and> same_paths b b') (channel_out F bq wa ch b)"
proof -
  note d = dsp_ok_parts [of "par b"]
  have ok: "dsp_ok (par b)" "eq_mem_ok (fmem b)" "length (da_channel_buffer_multi b ! ch) = 128"
    using assms(2,5) matrix_nth [of 16 128 "da_channel_buffer_multi b" ch] by (simp_all add: board_ok_def)
  obtain xs m where f: "channel_filters F bq ch (da_channel_buffer_multi b ! ch) (fmem b) = Inr (xs, m)" "length xs = 128" "eq_mem_ok m"
    using channel_filters_ok [OF assms(1) ok(2), of ch "da_channel_buffer_multi b ! ch" F] assms(5) ok(3) by (auto simp: sumP_ex)
  let ?q = "outputparam (par b) ! unat (OutputYtype (par b))"
  have "matrix_ok 30 3 (FreqDivVal ?q)" using d(6,10) [OF ok(1)] by (simp add: out_ok_def)
  moreover have "unat (of_nat ch :: u32) = ch" by (rule unat_u32_small) (use assms(5) in simp)
  ultimately have n: "get_at2 ''FreqDivVal'' (FreqDivVal ?q) (of_nat ch) 0 = Inr (FreqDivVal ?q ! ch ! 0)"
    using assms(5) by (simp add: get_at2_ok)
  let ?b = "b\<lparr>da_channel_buffer_multi := (da_channel_buffer_multi b)[ch := xs], fmem := m\<rparr>"
  have b: "board_ok ?b" "same_paths b ?b" using assms(2) f(2,3) by (simp_all add: board_ok_def matrix_update same_paths_def)
  have "sumP (\<lambda>b'. board_ok b' \<and> same_paths b b') (foldE (band_out F bq wa ch) [0..<nat k] ?b)" if "k \<le> 3" for k
    using that by (intro sumP_foldE_rel b band_out_ok [OF assms(1) _ assms(3-5)]) (auto intro: same_paths_trans)
  then show ?thesis using d(5,6) [OF ok(1)] f(1) n by (simp add: channel_out_def get_at_ok Let_def)
qed

lemma outputs_ok:
  assumes "board_ok b" "inputs_ok n inbuf (g_i_ad_in (sel b))" "0 \<le> idx" "idx < 4" "0 \<le> wa" "wa < 4"
  shows "sumP (\<lambda>b'. board_ok b' \<and> sel b' = sel b \<and> par b' = par b)
      (foldE (\<lambda>i. foldE (monitor_sample F inbuf idx wa i) [0..<HALF]) [0..<2] b)"
    "sumP (\<lambda>b'. board_ok b' \<and> sel b' = sel b \<and> par b' = par b)
      (foldE (\<lambda>i. foldE (clear_sample wa i) [0..<HALF]) [0..<14] b)"
proof -
  let ?R = "\<lambda>b b'. sel b' = sel b \<and> par b' = par b"
  have tr: "?R x y \<Longrightarrow> ?R y z \<Longrightarrow> ?R x z" for x y z :: "'a board" by simp
  have "sumP (\<lambda>b'. (board_ok b' \<and> inputs_ok n inbuf (g_i_ad_in (sel b'))) \<and> ?R c b')
      (foldE (monitor_sample F inbuf idx wa i) [0..<HALF] c)"
    if "i \<in> set [0..<2]" "board_ok c \<and> inputs_ok n inbuf (g_i_ad_in (sel c))" for i c
    using that by (intro sumP_foldE_rel [where R = ?R])
      (auto intro!: sumP_mono [OF monitor_sample_ok] assms(3-6) simp: HALF_def simp del: upt_rec_numeral)
  then have "sumP (\<lambda>b'. (board_ok b' \<and> inputs_ok n inbuf (g_i_ad_in (sel b'))) \<and> ?R b b')
      (foldE (\<lambda>i. foldE (monitor_sample F inbuf idx wa i) [0..<HALF]) [0..<2] b)"
    by (rule sumP_foldE_rel [where R = ?R, rotated 3]) (use assms(1,2) in \<open>auto simp del: upt_rec_numeral\<close>)
  then show "sumP (\<lambda>b'. board_ok b' \<and> sel b' = sel b \<and> par b' = par b)
      (foldE (\<lambda>i. foldE (monitor_sample F inbuf idx wa i) [0..<HALF]) [0..<2] b)"
    by (rule sumP_mono) simp
  have "sumP (\<lambda>b'. board_ok b' \<and> ?R c b') (foldE (clear_sample wa i) [0..<HALF] c)" if "i \<in> set [0..<14]" "board_ok c" for i c
    using that by (intro sumP_foldE_rel [where R = ?R])
      (auto intro!: clear_sample_ok assms(5,6) simp: HALF_def simp del: upt_rec_numeral)
  then show "sumP (\<lambda>b'. board_ok b' \<and> sel b' = sel b \<and> par b' = par b)
      (foldE (\<lambda>i. foldE (clear_sample wa i) [0..<HALF]) [0..<14] b)"
    by (rule sumP_foldE_rel [where R = ?R, rotated 3]) (use assms(1) in \<open>auto simp del: upt_rec_numeral\<close>)
qed

text \<open>The block of the output buffer that is written.\<close>

lemma write_block: "0 \<le> a \<Longrightarrow> a \<le> 4 \<Longrightarrow> 0 \<le> (a - 2 + NUMDMAUSED) smod NUMDMAUSED \<and> (a - 2 + NUMDMAUSED) smod NUMDMAUSED < 4"
  by (simp add: NUMDMAUSED_def smod_pos)

lemma writeptr_next:
  assumes "0 \<le> wp" "wp + 128 \<le> 5120" "128 dvd wp"
  shows "0 \<le> (wp + int HALF) smod DELAY_LEN" "(wp + int HALF) smod DELAY_LEN + 128 \<le> 5120" "128 dvd (wp + int HALF) smod DELAY_LEN"
proof -
  obtain k where k: "wp = int (128 * k)" using assms(1,3) by (metis dvd_def nonneg_int_cases of_nat_dvd_iff of_nat_numeral)
  have "(wp + int HALF) smod DELAY_LEN = int ((128 * k + 128) mod 5120)"
    by (simp add: k HALF_def DELAY_LEN_def smod_pos zmod_int)
  moreover have "(128 * k + 128) mod 5120 + 128 \<le> 5120" by (rule wp_bound) simp
  moreover have "128 dvd (128 * k + 128) mod 5120" by (simp add: dvd_mod)
  ultimately show "0 \<le> (wp + int HALF) smod DELAY_LEN" "(wp + int HALF) smod DELAY_LEN + 128 \<le> 5120"
    "128 dvd (wp + int HALF) smod DELAY_LEN"
    by (auto simp del: of_nat_mod)
qed

lemma handle_audio_data_ok:
  assumes "biquad_sizes bq" "board_ok b" "inputs_ok n inbuf (g_i_ad_in (sel b))" "0 \<le> idx" "idx < 4"
  shows "sumP (\<lambda>b'. board_ok b' \<and> sel b' = fade_block F (sel b) \<and> eq (par b') = eq (par b))
    (handle_audio_data F bq inbuf idx b)"
proof -
  let ?wa = "(g_i_da_write_addr b - 2 + NUMDMAUSED) smod NUMDMAUSED"
  have wa: "0 \<le> ?wa" "?wa < 4" using write_block [of "g_i_da_write_addr b"] assms(2) by (simp_all add: board_ok_def)
  obtain b1 where b1: "load_inputs F inbuf idx b = Inr b1" "board_ok b1" "sel b1 = sel b" "par b1 = par b"
    using load_inputs_ok [OF assms(2-5)] by (auto simp: sumP_ex)
  define b2 where "b2 = fade_channels F (b1\<lparr>da_channel_buffer_multi :=
      matrixtooutputchannel F (Matrix_ChtoOutch (gen (par b))) (da_channel_buffer b1) (da_channel_buffer_multi b1)\<rparr>)"
  have "board_ok (b1\<lparr>da_channel_buffer_multi :=
      matrixtooutputchannel F (Matrix_ChtoOutch (gen (par b))) (da_channel_buffer b1) (da_channel_buffer_multi b1)\<rparr>)"
    using b1(2) by (simp add: board_ok_def matrix_out_ok)
  from fade_channels_ok [OF this, of F]
  have b2: "board_ok b2" "sel b2 = fade_block F (sel b)" "par b2 = par b" by (simp_all add: b2_def b1)
  then have in2: "inputs_ok n inbuf (g_i_ad_in (sel b2))" using assms(3) by (simp add: fade_block_def)
  obtain b3 where b3: "foldE (\<lambda>i. foldE (monitor_sample F inbuf idx ?wa i) [0..<HALF]) [0..<2] b2 = Inr b3"
      "board_ok b3" "sel b3 = sel b2" "par b3 = par b2"
    using outputs_ok(1) [OF b2(1) in2 assms(4,5) wa, of F] by (auto simp: sumP_ex simp del: upt_rec_numeral)
  obtain b4 where b4: "foldE (\<lambda>i. foldE (clear_sample ?wa i) [0..<HALF]) [0..<14] b3 = Inr b4"
      "board_ok b4" "sel b4 = sel b3" "par b4 = par b3"
    using outputs_ok(2) [OF b3(2) _ assms(4,5) wa, of n inbuf] in2 b3(3) by (auto simp: sumP_ex simp del: upt_rec_numeral)
  have "sumP (\<lambda>b'. board_ok b' \<and> same_paths b4 b') (foldE (channel_out F bq ?wa) [0..<14] b4)"
    using b4(2) by (intro sumP_foldE_rel channel_out_ok [OF assms(1) _ wa]) (auto intro: same_paths_trans simp del: upt_rec_numeral)
  then obtain b5 where b5: "foldE (channel_out F bq ?wa) [0..<14] b4 = Inr b5" "board_ok b5" "same_paths b4 b5"
    by (auto simp: sumP_ex simp del: upt_rec_numeral)
  have "board_ok (b5\<lparr>DelayBuf_writeptr := (DelayBuf_writeptr b5 + int HALF) smod DELAY_LEN\<rparr>)"
    using b5(2) writeptr_next [of "DelayBuf_writeptr b5"] by (simp add: board_ok_def)
  with b1 b2 b3 b4 b5 show ?thesis
    by (simp add: handle_audio_data_def Let_def b2_def [symmetric] same_paths_def del: upt_rec_numeral)
qed

lemma input_index_range: "0 \<le> a \<Longrightarrow> a \<le> 4 \<Longrightarrow> 0 \<le> dma \<Longrightarrow> dma < 4 \<Longrightarrow> 0 \<le> input_index a dma \<and> input_index a dma < 4"
  by (simp add: input_index_def NUMDMAUSED_def smod_pos)

lemma handle_blocks_ok:
  assumes "biquad_sizes bq" "board_ok b" "inputs_ok n inbuf (g_i_ad_in (sel b))" "0 \<le> dma" "dma < 4"
  shows "sumP (\<lambda>b'. board_ok b' \<and> g_i_ad_in (sel b') = g_i_ad_in (sel b) \<and> eq (par b') = eq (par b)) (handle_ad_aes_data F bq inbuf dma b)"
    "sumP (\<lambda>b'. board_ok b' \<and> g_i_ad_in (sel b') = g_i_ad_in (sel b) \<and> eq (par b') = eq (par b)) (handle_spdif_data F bq inbuf dma b)"
proof -
  have "board_ok (b\<lparr>g_interruptFlag := 0\<rparr>)" using assms(2) by (simp add: board_ok_def)
  moreover have "0 \<le> input_index (g_i_da_write_addr b) dma" "input_index (g_i_da_write_addr b) dma < 4"
    using input_index_range [OF _ _ assms(4,5)] assms(2) by (simp_all add: board_ok_def)
  ultimately have "sumP (\<lambda>b'. board_ok b' \<and> g_i_ad_in (sel b') = g_i_ad_in (sel b) \<and> eq (par b') = eq (par b))
      (handle_audio_data F bq inbuf (input_index (g_i_da_write_addr b) dma) (b\<lparr>g_interruptFlag := 0\<rparr>))"
    using handle_audio_data_ok [OF assms(1), of "b\<lparr>g_interruptFlag := 0\<rparr>" n inbuf "input_index (g_i_da_write_addr b) dma" F] assms(3)
    by (auto simp: fade_block_def sumP_ex)
  then show "sumP (\<lambda>b'. board_ok b' \<and> g_i_ad_in (sel b') = g_i_ad_in (sel b) \<and> eq (par b') = eq (par b)) (handle_ad_aes_data F bq inbuf dma b)"
    "sumP (\<lambda>b'. board_ok b' \<and> g_i_ad_in (sel b') = g_i_ad_in (sel b) \<and> eq (par b') = eq (par b)) (handle_spdif_data F bq inbuf dma b)"
    using assms(2) by (simp_all add: handle_ad_aes_data_def handle_spdif_data_def)
qed

text \<open>The buffers at reset.\<close>

definition board_reset :: "('f, 'z) dspflt_scheme \<Rightarrow> 'f flt \<Rightarrow> 'f board" where
  "board_reset F G = (let z = lit F 0 0 in
     \<lparr>par = dsp_reset G, sel = insel_reset G, fmem = eq_mem_reset F, da_channel_buffer = replicate 16 (replicate 128 z),
      da_channel_buffer_multi = replicate 16 (replicate 128 z), divisionoutbuf = replicate 128 z,
      DelayBuf = replicate 16 (replicate 5120 z), DelayBuf_writeptr = 0, TxBlock_PCM4104 = replicate 8 (replicate 1024 0),
      g_i_da_write_addr = 0, g_interruptFlag = 0, g_i_da_interrupt_flag = 0, V0 = replicate 16 z,
      noise = \<lparr>Xprev1 = z, Xprev2 = z, Xprev3 = z, Yprev1 = z, Yprev2 = z, Yprev3 = z\<rparr>, triangle_index = 0, seed = 1\<rparr>)"

lemma board_reset_ok: "board_ok (board_reset F G)"
proof -
  have "routes_ok book_init" by (simp add: routes_ok_def book_init_def list_all_iff)
  then show ?thesis
    using dsp_reset_ok [of G] eq_mem_reset_ok [of F]
    by (simp add: board_ok_def board_reset_def Let_def delays_ok_def list_all_iff insel_reset_def) (simp add: dsp_reset_def)
qed

lemma df2_sizes: "biquad_sizes df2_bq"
proof -
  have r: "length (fst (df2_run cs w xs)) = length xs" for cs w xs
    by (induction cs w xs rule: df2_run.induct) (simp_all add: Let_def)
  have "length (fst (df2_bq cs st n xs)) = length xs" for cs st n xs
    by (induction cs st n xs rule: df2_bq.induct) (simp_all add: Let_def r)
  then show ?thesis using length_df2_bq by (simp add: biquad_sizes_def)
qed

end
