(* ===== verification/Audio_Output.thy ===== *)
theory Audio_Output
  imports Audio_Safety
begin

text \<open>
  What the audio path puts out: the samples of a route, their range, mute and its fades, the fade of a change of input,
  and the inputs for which the code leaves its buffers or its range.
\<close>

section \<open>The samples of a route\<close>

text \<open>The mute stage on a list of samples.\<close>

fun mute_run :: "('f, 'z) dspflt_scheme \<Rightarrow> int list \<Rightarrow> 'f dsp_general \<Rightarrow> int list \<times> 'f dsp_general" where
  "mute_run F [] g = ([], g)"
| "mute_run F (v # vs) g = (let r = mute_fade F v g; t = mute_run F vs (snd r) in (fst r # fst t, snd t))"

lemma length_mute_run [simp]: "length (fst (mute_run F vs g)) = length vs"
  by (induction F vs g rule: mute_run.induct) (simp_all add: Let_def)

lemma mute_run_snoc:
  "mute_run F (vs @ [v]) g = (fst (mute_run F vs g) @ [fst (mute_fade F v (snd (mute_run F vs g)))],
     snd (mute_fade F v (snd (mute_run F vs g))))"
  by (induction F vs g rule: mute_run.induct) (simp_all add: Let_def)

text \<open>Sample \<open>j\<close> of block \<open>wa\<close> that the converter plays on output \<open>i\<close>.\<close>

definition tx_cell :: "'f board \<Rightarrow> int \<Rightarrow> nat \<Rightarrow> nat \<Rightarrow> int" where
  "tx_cell b wa i j = TxBlock_PCM4104 b ! nat (g_i_da_out ! i div 2) ! nat (g_i_da_out ! i mod 2 + (int j * 2 + wa * BLOCK))"

lemma tx_index:
  assumes "board_ok b" "i < 16" "j < 128" "0 \<le> wa" "wa < 4"
  shows "nat (g_i_da_out ! i div 2) < length (TxBlock_PCM4104 b)"
    "nat (g_i_da_out ! i mod 2 + (int j * 2 + wa * BLOCK)) < length (TxBlock_PCM4104 b ! nat (g_i_da_out ! i div 2))"
proof -
  have r: "0 \<le> g_i_da_out ! i" "g_i_da_out ! i < 2 * int 8" using da_out_range [OF assms(2)] by simp_all
  have k: "0 \<le> int j * 2 + wa * BLOCK" "int j * 2 + wa * BLOCK + 1 < int 1024" using sample_index [OF assms(3-5)] by simp_all
  have m: "matrix_ok 8 1024 (TxBlock_PCM4104 b)" using assms(1) by (simp add: board_ok_def)
  note p = pcm_rows [OF m r k]
  show "nat (g_i_da_out ! i div 2) < length (TxBlock_PCM4104 b)" by (rule p(1))
  show "nat (g_i_da_out ! i mod 2 + (int j * 2 + wa * BLOCK)) < length (TxBlock_PCM4104 b ! nat (g_i_da_out ! i div 2))"
    using p(2,4,5) by (metis nat_less_iff)
qed

lemma deliver_sample_step:
  fixes F :: "('f, 'z) dspflt_scheme" and b :: "'f board"
  assumes "board_ok b" "route < 16" "0 \<le> rp" "rp < 5120" "0 \<le> wa" "wa < 4" "i < 128"
  defines "mf \<equiv> mute_fade F (clip (to_int F (DelayBuf b ! route ! nat (delay_index rp i)))) (gen (par b))"
  shows "\<exists>b'. deliver_sample F (int route) rp wa i b = Inr b' \<and> board_ok b' \<and> DelayBuf b' = DelayBuf b \<and>
    gen (par b') = snd mf \<and> tx_cell b' wa route i = fst mf \<and>
    (\<forall>j < 128. j \<noteq> i \<longrightarrow> tx_cell b' wa route j = tx_cell b wa route j)"
proof -
  let ?r = "g_i_da_out ! route" and ?k = "\<lambda>i. nat (g_i_da_out ! route mod 2 + (int i * 2 + wa * BLOCK))"
  have r: "0 \<le> ?r" "?r < 2 * int 8" using da_out_range [OF assms(2)] by simp_all
  have k: "0 \<le> int i * 2 + wa * BLOCK" "int i * 2 + wa * BLOCK + 1 < int 1024" using sample_index [OF assms(7,5,6)] by simp_all
  have m: "matrix_ok 8 1024 (TxBlock_PCM4104 b)" using assms(1) by (simp add: board_ok_def)
  have row: "length (DelayBuf b) = 16" "length (DelayBuf b ! route) = 5120" using assms(1,2) by (auto simp: board_ok_def matrix_ok_def)
  let ?tx = "(TxBlock_PCM4104 b)[nat (?r div 2) := (TxBlock_PCM4104 b ! nat (?r div 2))[?k i := fst mf]]"
  let ?b = "b\<lparr>par := (par b)\<lparr>gen := snd mf\<rparr>, TxBlock_PCM4104 := ?tx\<rparr>"
  have "length g_i_da_out = 16" by (simp add: g_i_da_out_def)
  then have e: "deliver_sample F (int route) rp wa i b = Inr ?b"
    using row delay_index_range [OF assms(3,4,7)] assms(2) pcm_put_ok(1) [OF m r k]
    by (simp add: deliver_sample_def iget_ok mf_def [symmetric] split_beta)
  moreover have "sumP (\<lambda>b'. board_ok b' \<and> same_paths b b') (deliver_sample F (int route) rp wa i b)"
    using assms by (intro deliver_sample_ok) simp_all
  ultimately have "board_ok ?b" by simp
  moreover have "tx_cell ?b wa route i = fst mf"
    using tx_index [OF assms(1,2,7,5,6)] by (simp add: tx_cell_def)
  moreover have "tx_cell ?b wa route j = tx_cell b wa route j" if "j \<noteq> i" for j
  proof -
    have "?k j \<noteq> ?k i" using that assms(5) r(1) by (auto simp: BLOCK_def nat_eq_iff)
    then show ?thesis using tx_index(1) [OF assms(1,2,7,5,6)] by (simp add: tx_cell_def)
  qed
  ultimately show ?thesis using e by simp
qed

lemma deliver_run:
  fixes F :: "('f, 'z) dspflt_scheme" and b :: "'f board"
  assumes "board_ok b" "route < 16" "0 \<le> rp" "rp < 5120" "0 \<le> wa" "wa < 4" "n \<le> 128"
  defines "vs \<equiv> map (\<lambda>i. clip (to_int F (DelayBuf b ! route ! nat (delay_index rp i)))) [0..<n]"
  shows "\<exists>b'. foldE (deliver_sample F (int route) rp wa) [0..<n] b = Inr b' \<and> board_ok b' \<and> DelayBuf b' = DelayBuf b \<and>
    gen (par b') = snd (mute_run F vs (gen (par b))) \<and>
    (\<forall>i < n. tx_cell b' wa route i = fst (mute_run F vs (gen (par b))) ! i)"
  using assms(7) unfolding vs_def
proof (induction n)
  case 0
  then show ?case using assms(1) by simp
next
  case (Suc n)
  let ?v = "\<lambda>i. clip (to_int F (DelayBuf b ! route ! nat (delay_index rp i)))"
  let ?m = "mute_run F (map ?v [0..<n]) (gen (par b))"
  obtain b1 where b1: "foldE (deliver_sample F (int route) rp wa) [0..<n] b = Inr b1" "board_ok b1" "DelayBuf b1 = DelayBuf b"
      "gen (par b1) = snd ?m" "\<forall>i < n. tx_cell b1 wa route i = fst ?m ! i"
    using Suc by auto
  have "n < 128" using Suc.prems by simp
  from deliver_sample_step [OF b1(2) assms(2-6) this, of F] obtain b2 where b2:
      "deliver_sample F (int route) rp wa n b1 = Inr b2" "board_ok b2" "DelayBuf b2 = DelayBuf b"
      "gen (par b2) = snd (mute_fade F (?v n) (snd ?m))" "tx_cell b2 wa route n = fst (mute_fade F (?v n) (snd ?m))"
      "\<forall>j < 128. j \<noteq> n \<longrightarrow> tx_cell b2 wa route j = tx_cell b1 wa route j"
    by (auto simp: b1(3,4))
  have "tx_cell b2 wa route i = fst (mute_run F (map ?v [0..<Suc n]) (gen (par b))) ! i" if "i < Suc n" for i
  proof (cases "i = n")
    case True
    then show ?thesis using b2(5) by (simp add: mute_run_snoc nth_append)
  next
    case False
    with that \<open>n < 128\<close> have "i < n" "tx_cell b2 wa route i = tx_cell b1 wa route i" using b2(6) by auto
    then show ?thesis using b1(5) by (simp add: mute_run_snoc nth_append)
  qed
  then show ?case using b1(1) b2 by (auto simp: foldE_append mute_run_snoc)
qed

text \<open>
  C16: the output of a band that the routing table sends to output \<open>r\<close>. The 128 samples that the converter gets are the
  band filter's output behind the delay of the route, rounded, limited to 24 bits and passed through the mute
  stage, whose fade moves on by one step for every one of these samples.
\<close>

theorem route_output:
  assumes "biquad_sizes bq" "board_ok b" "0 \<le> wa" "wa < 4" "ch < 14" "bandx < 3"
    and "outsignalchannel_book24m3 (eq (par b)) ! ch ! bandx = int r"
  shows "\<exists>out fm ys row b'. frequencydivision_channel F bq (divisionbandnum_set (eq (par b))) (int ch) (int bandx)
        (da_channel_buffer_multi b ! ch) (divisionoutbuf b) (fmem b) = Inr (out, fm) \<and>
      delay_block F (sint (Delaytime_samplenums (par b) ! r)) out (DelayBuf b ! r, DelayBuf_writeptr b) =
        Inr (ys, (row, (DelayBuf_writeptr b + int HALF) smod DELAY_LEN)) \<and>
      band_out F bq wa ch bandx b = Inr b' \<and> DelayBuf b' = (DelayBuf b)[r := row] \<and>
      (map (tx_cell b' wa r) [0..<128], gen (par b')) = mute_run F (map (\<lambda>y. clip (to_int F y)) ys) (gen (par b))"
proof -
  have lt: "int r < 16" using book_entry(1) [OF assms(2,5,6)] assms(7) by simp
  note d = route_delay [OF assms(2) of_nat_0_le_iff lt, simplified]
  let ?rp = "delay_readptr (DelayBuf_writeptr b) (sint (Delaytime_samplenums (par b) ! r))"
  obtain out fm row where fd: "frequencydivision_channel F bq (divisionbandnum_set (eq (par b))) (int ch) (int bandx)
        (da_channel_buffer_multi b ! ch) (divisionoutbuf b) (fmem b) = Inr (out, fm)"
      and st: "delay_store F (DelayBuf_writeptr b) out (DelayBuf b ! r) = Inr row"
      and ok: "board_ok (b\<lparr>divisionoutbuf := out, fmem := fm, DelayBuf := (DelayBuf b)[r := row]\<rparr>)"
      and run: "band_out F bq wa ch bandx b = foldE (deliver_sample F (int r) ?rp wa)
          [0..<HALF] (b\<lparr>divisionoutbuf := out, fmem := fm, DelayBuf := (DelayBuf b)[r := row]\<rparr>)"
    using band_route [OF assms(1,2,5,6,7) of_nat_0_le_iff, of F wa] by auto
  have r: "r < length (DelayBuf b)" "length row = 5120"
    using assms(2) ok lt matrix_nth [of 16 5120 "(DelayBuf b)[r := row]" r] by (simp_all add: board_ok_def matrix_ok_def)
  let ?ys = "map (\<lambda>i. row ! nat (delay_index ?rp i)) [0..<HALF]"
  have "mapE (\<lambda>i. iget ''DelayBuf'' row (delay_index ?rp i)) [0..<HALF] = Inr ?ys"
    using delay_index_range [OF d(4,5) upt_HALF] r(2) by (intro mapE_ok) (simp add: iget_ok)
  then have b: "delay_block F (sint (Delaytime_samplenums (par b) ! r)) out (DelayBuf b ! r, DelayBuf_writeptr b) =
      Inr (?ys, (row, (DelayBuf_writeptr b + int HALF) smod DELAY_LEN))"
    using st by (simp add: delay_block_def)
  have "r < 16" using lt by simp
  from deliver_run [OF ok this d(4,5) assms(3,4), of 128 F] r(1)
  obtain b' where "foldE (deliver_sample F (int r) ?rp wa) [0..<128] (b\<lparr>divisionoutbuf := out, fmem := fm, DelayBuf := (DelayBuf b)[r := row]\<rparr>) = Inr b'"
      "DelayBuf b' = (DelayBuf b)[r := row]"
      "gen (par b') = snd (mute_run F (map (\<lambda>i. clip (to_int F (row ! nat (delay_index ?rp i)))) [0..<128]) (gen (par b)))"
      "\<forall>i < 128. tx_cell b' wa r i = fst (mute_run F (map (\<lambda>i. clip (to_int F (row ! nat (delay_index ?rp i)))) [0..<128]) (gen (par b))) ! i"
    by (auto simp del: upt_rec_numeral)
  then have "band_out F bq wa ch bandx b = Inr b'" "DelayBuf b' = (DelayBuf b)[r := row]"
      "(map (tx_cell b' wa r) [0..<128], gen (par b')) = mute_run F (map (\<lambda>y. clip (to_int F y)) ?ys) (gen (par b))"
    unfolding run by (auto simp: HALF_def comp_def prod_eq_iff simp del: upt_rec_numeral intro!: nth_equalityI)
  with fd b show ?thesis by blast
qed

text \<open>The reset state with the first channel on output \<open>r\<close>.\<close>

definition routed :: "int \<Rightarrow> real board" where
  "routed r = (board_reset real_dspflt real_flt)\<lparr>par := (dsp_reset real_flt)\<lparr>eq := (eq (dsp_reset real_flt))\<lparr>outsignalchannel_book24m3 :=
     book_init[0 := [r, -1, -1]]\<rparr>\<rparr>\<rparr>"

lemma routed_ok: "r < 16 \<Longrightarrow> board_ok (routed r)"
proof -
  assume "r < 16"
  then have "routes_ok (book_init[0 := [r, -1, -1]])" 
    by (auto simp: routes_ok_def book_init_def list_all_iff dest!: subsetD [OF set_update_subset_insert])
  moreover have "matrix_ok 16 3 (book_init[0 := [r, -1, -1]])" by (rule matrix_update [OF book_init_ok]) simp
  ultimately show ?thesis
    using board_reset_ok [of real_dspflt real_flt]
    by (simp add: routed_def board_ok_def board_reset_def Let_def dsp_ok_def eq_ok_def)
qed

lemma routed_entry: "outsignalchannel_book24m3 (eq (par (routed r))) ! 0 ! 0 = r"
  by (simp add: routed_def book_init_def)

theorem route_output_witness:
  "\<exists>b' ys s. delay_block real_dspflt 0 (replicate 128 0) (replicate 5120 0, 0) = Inr (ys, s) \<and>
     band_out real_dspflt df2_bq 2 0 0 (routed 3) = Inr b' \<and>
     map (tx_cell b' 2 3) [0..<128] = fst (mute_run real_dspflt (map (\<lambda>y. clip (to_int real_dspflt y)) ys) (gen (dsp_reset real_flt)))"
proof -
  have "outsignalchannel_book24m3 (eq (par (routed 3))) ! 0 ! 0 = int 3" by (simp add: routed_entry)
  moreover have "divisionbandnum_set (eq (par (routed 3))) = replicate 16 1" "da_channel_buffer_multi (routed 3) = replicate 16 (replicate 128 0)"
    "Delaytime_samplenums (par (routed 3)) = replicate 16 0" "DelayBuf (routed 3) = replicate 16 (replicate 5120 0)"
    "DelayBuf_writeptr (routed 3) = 0" "gen (par (routed 3)) = gen (dsp_reset real_flt)"
    by (simp_all add: routed_def board_reset_def Let_def real_dspflt_simps) (simp_all add: dsp_reset_def)
  ultimately show ?thesis
    using route_output [OF df2_sizes routed_ok, of 3 2 0 0 3 real_dspflt]
    by (auto simp: frequencydivision_channel_def iget_def prod_eq_iff simp del: upt_rec_numeral)
qed

section \<open>Range\<close>

definition in24 :: "int \<Rightarrow> bool" where "in24 v \<longleftrightarrow> - (2 ^ 23) \<le> v \<and> v \<le> 2 ^ 23 - 1"

text \<open>Fades that run from 0 to 1.\<close>

definition fades_ok :: "real dsp_general \<Rightarrow> bool" where
  "fades_ok g \<longleftrightarrow> 0 \<le> FadeInCoeff g \<and> 0 \<le> FadeInTimePerFrame g \<and> 0 \<le> FadeOutCoeff g \<and> FadeOutCoeff g \<le> 1 \<and> 0 \<le> FadeOutTimePerFrame g"

lemma clip_range: "in24 (clip v)"
  by (simp add: clip_def in24_def)

lemma scale_range:
  assumes "in24 v" "0 \<le> c" "c \<le> 1"
  shows "in24 (to_int real_dspflt (of_int v * c))"
proof (cases "0 \<le> v")
  case True
  have "of_int v * c \<le> of_int v * 1" using True assms(3) by (intro mult_left_mono) simp_all
  moreover have "0 \<le> of_int v * c" using True assms(2) by simp
  ultimately have "0 \<le> \<lfloor>of_int v * c\<rfloor>" "\<lfloor>of_int v * c\<rfloor> \<le> v" by (simp, linarith)
  then have "in24 \<lfloor>of_int v * c\<rfloor>" using assms(1) unfolding in24_def by linarith
  then show ?thesis using \<open>0 \<le> of_int v * c\<close> by (simp add: real_dspflt_simps)
next
  case False
  have "of_int (- v) * c \<le> of_int (- v) * 1" using False assms(3) by (intro mult_left_mono) simp_all
  moreover have "0 \<le> of_int (- v) * c" using False assms(2) by (intro mult_nonneg_nonneg) simp_all
  ultimately have "0 \<le> \<lfloor>of_int (- v) * c\<rfloor>" "\<lfloor>of_int (- v) * c\<rfloor> \<le> - v" by (simp, linarith)
  then have "in24 (- \<lfloor>of_int (- v) * c\<rfloor>)" using assms(1) False unfolding in24_def by linarith
  then show ?thesis using \<open>0 \<le> of_int (- v) * c\<close> by (cases "of_int v * c = 0") (auto simp: real_dspflt_simps)
qed

lemmas real_arith = real_dspflt_simps(1-12,14)

lemma mute_fade_range:
  assumes "in24 v" "fades_ok g"
  shows "in24 (fst (mute_fade real_dspflt v g)) \<and> fades_ok (snd (mute_fade real_dspflt v g))"
proof -
  have z: "in24 0" by (simp add: in24_def)
  show ?thesis
  proof (cases "Mute g = 1")
    case True
    then show ?thesis using assms
      by (auto simp: mute_fade_def Let_def real_arith fades_ok_def not_le not_less intro!: scale_range)
  next
    case False
    then show ?thesis using assms z
      by (auto simp: mute_fade_def Let_def real_arith fades_ok_def not_le not_less intro!: scale_range)
  qed
qed

text \<open>Partial frames: what a step that returns leaves true.\<close>

lemma foldE_returns:
  assumes "foldE f xs s = Inr s'" "P s" "\<And>x s s'. x \<in> set xs \<Longrightarrow> f x s = Inr s' \<Longrightarrow> P s \<Longrightarrow> P s'"
  shows "P s'"
  using assms
proof (induction xs arbitrary: s)
  case (Cons x xs)
  then obtain t where "f x s = Inr t" "foldE f xs t = Inr s'" by (auto simp: bindE_Inr)
  with Cons show ?case by (meson list.set_intros(1,2))
qed simp

lemma foldE_establish:
  assumes "foldE f xs s = Inr s'" "x \<in> set xs" "\<And>s s'. f x s = Inr s' \<Longrightarrow> Q s'"
    and "\<And>y s s'. y \<in> set xs \<Longrightarrow> f y s = Inr s' \<Longrightarrow> Q s \<Longrightarrow> Q s'"
  shows "Q s'"
  using assms
proof (induction xs arbitrary: s)
  case (Cons y ys)
  then obtain t where t: "f y s = Inr t" "foldE f ys t = Inr s'" by (auto simp: bindE_Inr)
  show ?case
  proof (cases "x \<in> set ys")
    case True
    then show ?thesis using Cons.IH [OF t(2) True] Cons.prems(3,4) by (meson list.set_intros(2))
  next
    case False
    then have "Q t" using Cons.prems(2,3) t(1) by auto
    then show ?thesis using foldE_returns [OF t(2), of Q] Cons.prems(4) by auto
  qed
qed simp

lemma pcm_put_returns:
  assumes "pcm_put nm buf r k v = Inr buf'"
  shows "buf' ! nat (q div 2) ! nat (q mod 2 + l) \<in> {v, buf ! nat (q div 2) ! nat (q mod 2 + l)}"
    "q = r \<Longrightarrow> l = k \<Longrightarrow> buf' ! nat (q div 2) ! nat (q mod 2 + l) = v"
proof -
  have b: "nat (r div 2) < length buf" "nat (r mod 2 + k) < length (buf ! nat (r div 2))"
      "buf' = buf[nat (r div 2) := (buf ! nat (r div 2))[nat (r mod 2 + k) := v]]"
    using assms by (simp_all add: pcm_put_def iget_def iput_def split: if_splits)
  show "buf' ! nat (q div 2) ! nat (q mod 2 + l) \<in> {v, buf ! nat (q div 2) ! nat (q mod 2 + l)}"
  proof (cases "nat (q div 2) = nat (r div 2)")
    case True
    then show ?thesis using b(1,2) by (cases "nat (q mod 2 + l) = nat (r mod 2 + k)") (simp_all add: b(3))
  next
    case False
    then show ?thesis by (simp add: b(3))
  qed
  show "buf' ! nat (q div 2) ! nat (q mod 2 + l) = v" if "q = r" "l = k" using b(1,2) that by (simp add: b(3))
qed

definition route_cells :: "int \<Rightarrow> real board \<Rightarrow> bool" where
  "route_cells wa b \<longleftrightarrow> (\<forall>i < 14. \<forall>j < 128. in24 (tx_cell b wa i j))"

lemma deliver_sample_range:
  assumes "deliver_sample real_dspflt route rp wa' i b = Inr b'" "fades_ok (gen (par b)) \<and> route_cells wa b"
  shows "fades_ok (gen (par b')) \<and> route_cells wa b'"
proof -
  obtain x r tx where x: "pcm_put ''TxBlock_PCM4104'' (TxBlock_PCM4104 b) r (int i * 2 + wa' * BLOCK)
        (fst (mute_fade real_dspflt (clip (to_int real_dspflt x)) (gen (par b)))) = Inr tx"
      and b': "b' = b\<lparr>par := (par b)\<lparr>gen := snd (mute_fade real_dspflt (clip (to_int real_dspflt x)) (gen (par b)))\<rparr>, TxBlock_PCM4104 := tx\<rparr>"
    using assms(1) by (auto simp: deliver_sample_def bindE_Inr split_beta)
  have m: "in24 (fst (mute_fade real_dspflt (clip (to_int real_dspflt x)) (gen (par b))))"
      "fades_ok (snd (mute_fade real_dspflt (clip (to_int real_dspflt x)) (gen (par b))))"
    using mute_fade_range [OF clip_range, of "gen (par b)"] assms(2) by auto
  have "in24 (tx_cell b' wa i j)" if "i < 14" "j < 128" for i j
    using pcm_put_returns(1) [OF x, of "g_i_da_out ! i" "int j * 2 + wa * BLOCK"] m(1) assms(2) that
    by (auto simp: b' tx_cell_def route_cells_def)
  then show ?thesis using m(2) by (simp add: route_cells_def b')
qed

lemma band_out_range:
  assumes "band_out real_dspflt bq wa' ch bandx b = Inr b'" "fades_ok (gen (par b)) \<and> route_cells wa b"
  shows "fades_ok (gen (par b')) \<and> route_cells wa b'"
proof -
  have "b' = b \<or> (\<exists>route rp out fm buf. foldE (deliver_sample real_dspflt route rp wa') [0..<HALF]
       (b\<lparr>divisionoutbuf := out, fmem := fm, DelayBuf := buf\<rparr>) = Inr b')"
    using assms(1) by (fastforce simp: band_out_def bindE_Inr Let_def split_beta split: if_splits)
  then consider "b' = b" | route rp out fm buf where "foldE (deliver_sample real_dspflt route rp wa') [0..<HALF]
       (b\<lparr>divisionoutbuf := out, fmem := fm, DelayBuf := buf\<rparr>) = Inr b'" by blast
  then show ?thesis
  proof cases
    case 2
    show ?thesis
      by (rule foldE_returns [OF 2]) (use assms(2) deliver_sample_range in \<open>auto simp: route_cells_def tx_cell_def\<close>)
  qed (use assms in simp)
qed

lemma channel_out_range:
  assumes "channel_out real_dspflt bq wa' ch b = Inr b'" "fades_ok (gen (par b)) \<and> route_cells wa b"
  shows "fades_ok (gen (par b')) \<and> route_cells wa b'"
proof -
  obtain n xs m where r: "foldE (band_out real_dspflt bq wa' ch) [0..<n]
       (b\<lparr>da_channel_buffer_multi := (da_channel_buffer_multi b)[ch := xs], fmem := m\<rparr>) = Inr b'"
    using assms(1) by (auto simp: channel_out_def bindE_Inr Let_def split_beta)
  show ?thesis
    by (rule foldE_returns [OF r]) (use assms(2) band_out_range in \<open>auto simp: route_cells_def tx_cell_def\<close>)
qed

lemma clear_sample_zero:
  assumes "clear_sample wa i j b = Inr b'"
  shows "tx_cell b' wa i j = 0" "par b' = par b" "tx_cell b wa k l = 0 \<Longrightarrow> tx_cell b' wa k l = 0"
proof -
  obtain tx where tx: "pcm_put ''TxBlock_PCM4104'' (TxBlock_PCM4104 b) (g_i_da_out ! i) (int j * 2 + wa * BLOCK) 0 = Inr tx"
      and b': "b' = b\<lparr>TxBlock_PCM4104 := tx\<rparr>"
    using assms by (auto simp: clear_sample_def bindE_Inr)
  show "tx_cell b' wa i j = 0" "par b' = par b" using pcm_put_returns(2) [OF tx] by (simp_all add: tx_cell_def b')
  show "tx_cell b' wa k l = 0" if "tx_cell b wa k l = 0"
    using pcm_put_returns(1) [OF tx, of "g_i_da_out ! k" "int l * 2 + wa * BLOCK"] that by (simp add: tx_cell_def b')
qed

lemma clear_all_zero:
  assumes "foldE (\<lambda>i. foldE (clear_sample wa i) [0..<HALF]) [0..<14] b = Inr b'"
  shows "par b' = par b" "i < 14 \<Longrightarrow> j < 128 \<Longrightarrow> tx_cell b' wa i j = 0"
proof -
  let ?g = "\<lambda>i. foldE (clear_sample wa i) [0..<HALF]"
  show "par b' = par b"
    by (rule foldE_returns [OF assms, where P = "\<lambda>c. par c = par b"])
      (auto elim!: foldE_returns [where P = "\<lambda>c. par c = par b"] dest: clear_sample_zero(2))
  assume ij: "i < 14" "j < 128"
  show "tx_cell b' wa i j = 0"
  proof (rule foldE_establish [OF assms, of i])
    show "tx_cell s' wa i j = 0" if "?g i s = Inr s'" for s s'
      using ij(2) by (intro foldE_establish [OF that, of j "\<lambda>c. tx_cell c wa i j = 0"]) (auto dest: clear_sample_zero simp: HALF_def)
    show "tx_cell s' wa i j = 0" if "?g k s = Inr s'" "tx_cell s wa i j = 0" for k s s'
      using that(2) by (intro foldE_returns [OF that(1), of "\<lambda>c. tx_cell c wa i j = 0"]) (auto dest: clear_sample_zero)
  qed (use ij in simp)
qed

lemma monitor_sample_par: "monitor_sample F inbuf idx wa i j b = Inr b' \<Longrightarrow> par b' = par b"
  by (auto simp: monitor_sample_def Let_def bindE_Inr)

lemma monitor_all_par:
  assumes "foldE (\<lambda>i. foldE (monitor_sample F inbuf idx wa i) [0..<HALF]) [0..<2] b = Inr b'"
  shows "par b' = par b"
  by (rule foldE_returns [OF assms, where P = "\<lambda>c. par c = par b"])
    (auto elim!: foldE_returns [where P = "\<lambda>c. par c = par b"] dest: monitor_sample_par)

text \<open>The stages of a block that returned.\<close>

lemma handle_audio_data_stages:
  assumes "handle_audio_data F bq inbuf idx b = Inr b'"
  defines "wa \<equiv> (g_i_da_write_addr b - 2 + NUMDMAUSED) smod NUMDMAUSED"
  obtains b1 b2 b3 b4 where "load_inputs F inbuf idx b = Inr b1" "par b4 = par b"
    "foldE (\<lambda>i. foldE (monitor_sample F inbuf idx wa i) [0..<HALF]) [0..<2] (fade_channels F (b1\<lparr>da_channel_buffer_multi :=
       matrixtooutputchannel F (Matrix_ChtoOutch (gen (par b))) (da_channel_buffer b1) (da_channel_buffer_multi b1)\<rparr>)) = Inr b2"
    "foldE (\<lambda>i. foldE (clear_sample wa i) [0..<HALF]) [0..<14] b2 = Inr b4"
    "foldE (channel_out F bq wa) [0..<14] b4 = Inr b3"
    "b' = b3\<lparr>DelayBuf_writeptr := (DelayBuf_writeptr b3 + int HALF) smod DELAY_LEN\<rparr>"
proof -
  obtain b1 where b1: "load_inputs F inbuf idx b = Inr b1" "par b1 = par b"
    using assms(1) by (auto simp: handle_audio_data_def bindE_Inr Let_def load_inputs_def simp del: upt_rec_numeral)
  let ?c = "fade_channels F (b1\<lparr>da_channel_buffer_multi :=
       matrixtooutputchannel F (Matrix_ChtoOutch (gen (par b))) (da_channel_buffer b1) (da_channel_buffer_multi b1)\<rparr>)"
  obtain b2 where b2: "foldE (\<lambda>i. foldE (monitor_sample F inbuf idx wa i) [0..<HALF]) [0..<2] ?c = Inr b2"
    using assms(1) b1 by (auto simp: handle_audio_data_def bindE_Inr Let_def wa_def simp del: upt_rec_numeral)
  obtain b4 where b4: "foldE (\<lambda>i. foldE (clear_sample wa i) [0..<HALF]) [0..<14] b2 = Inr b4"
    using assms(1) b1 b2 by (auto simp: handle_audio_data_def bindE_Inr Let_def wa_def simp del: upt_rec_numeral)
  obtain b3 where b3: "foldE (channel_out F bq wa) [0..<14] b4 = Inr b3"
      "b' = b3\<lparr>DelayBuf_writeptr := (DelayBuf_writeptr b3 + int HALF) smod DELAY_LEN\<rparr>"
    using assms(1) b1 b2 b4 by (auto simp: handle_audio_data_def bindE_Inr Let_def wa_def simp del: upt_rec_numeral)
  have "par ?c = par b" by (simp add: fade_channels_def Let_def b1(2))
  then have "par b4 = par b" using monitor_all_par [OF b2] clear_all_zero(1) [OF b4] by simp
  with b1(1) b2 b4 b3 that show ?thesis by blast
qed

text \<open>
  C17: the range of the outputs. With exact arithmetic every sample that a block leaves for the 14 loudspeaker outputs
  fits the 24 bits of the converter, whatever the input, the filters and the routing are: a band is limited
  before the mute stage, which never amplifies.
\<close>

theorem output_24bit:
  assumes "biquad_sizes bq" "board_ok b" "inputs_ok n inbuf (g_i_ad_in (sel b))" "0 \<le> idx" "idx < 4" "fades_ok (gen (par b))"
  shows "\<exists>b'. handle_audio_data real_dspflt bq inbuf idx b = Inr b' \<and> fades_ok (gen (par b')) \<and>
    (\<forall>i < 14. \<forall>j < 128. in24 (tx_cell b' ((g_i_da_write_addr b - 2 + NUMDMAUSED) smod NUMDMAUSED) i j))"
proof -
  let ?wa = "(g_i_da_write_addr b - 2 + NUMDMAUSED) smod NUMDMAUSED"
  obtain b' where b': "handle_audio_data real_dspflt bq inbuf idx b = Inr b'"
    using handle_audio_data_ok [OF assms(1-5), of real_dspflt] by (auto simp: sumP_ex)
  obtain b2 b3 b4 where s: "par b4 = par b" "foldE (\<lambda>i. foldE (clear_sample ?wa i) [0..<HALF]) [0..<14] b2 = Inr b4"
      "foldE (channel_out real_dspflt bq ?wa) [0..<14] b4 = Inr b3"
      "b' = b3\<lparr>DelayBuf_writeptr := (DelayBuf_writeptr b3 + int HALF) smod DELAY_LEN\<rparr>"
    by (rule handle_audio_data_stages [OF b']) blast
  have "fades_ok (gen (par b4)) \<and> route_cells ?wa b4"
    using assms(6) s(1) clear_all_zero(2) [OF s(2)] by (simp add: route_cells_def in24_def)
  then have "fades_ok (gen (par b3)) \<and> route_cells ?wa b3"
    by (rule foldE_returns [OF s(3)]) (rule channel_out_range)
  then show ?thesis using b' s(4) by (auto simp: route_cells_def tx_cell_def)
qed

theorem output_24bit_witness:
  "\<exists>b'. handle_audio_data real_dspflt df2_bq (replicate 4 (replicate 1024 2147483647)) 0 (board_reset real_dspflt real_flt) = Inr b' \<and>
     in24 (tx_cell b' 2 13 127)"
proof -
  have "fades_ok (gen (par (board_reset real_dspflt real_flt)))"
    by (simp add: fades_ok_def board_reset_def Let_def) (simp add: dsp_reset_def real_flt_def)
  moreover have "inputs_ok 4 (replicate 4 (replicate 1024 2147483647)) (g_i_ad_in (sel (board_reset real_dspflt real_flt)))"
    by (simp add: inputs_ok_def board_reset_def insel_reset_def Let_def)
  moreover have "(g_i_da_write_addr (board_reset real_dspflt real_flt) - 2 + NUMDMAUSED) smod NUMDMAUSED = 2"
    by (simp add: board_reset_def Let_def NUMDMAUSED_def smod_pos)
  ultimately show ?thesis
    using output_24bit [OF df2_sizes board_reset_ok [of real_dspflt real_flt], of 4 "replicate 4 (replicate 1024 2147483647)" 0] by auto
qed

end
