(* ===== verification/Audio_Effects.thy ===== *)
theory Audio_Effects
  imports Audio_Output
begin

text \<open>
  Effects over time and limits of the audio path: mute reaches silence and full level, the old input is silent before
  the input is switched, a port number outside the converter makes the next block leave its arrays, and the
  monitor outputs are not limited.
\<close>

section \<open>Mute\<close>

lemma mute_fade_frame:
  "Mute (snd (mute_fade F v g)) = Mute g" "FadeOutTimePerFrame (snd (mute_fade F v g)) = FadeOutTimePerFrame g"
  "FadeInTimePerFrame (snd (mute_fade F v g)) = FadeInTimePerFrame g"
  by (simp_all add: mute_fade_def Let_def)

lemma mute_done:
  assumes "Mute g \<noteq> 1" "FadeOutFlag g \<noteq> 1" "FadeOutCoeff g \<le> 0"
  shows "fst (mute_run real_dspflt vs g) = replicate (length vs) 0"
proof -
  have "mute_fade real_dspflt v g = (0, g)" for v using assms by (simp add: mute_fade_def real_arith)
  then show ?thesis by (induction vs) simp_all
qed

lemma unmute_done:
  assumes "Mute g = 1" "FadeInFlag g \<noteq> 1" "1 \<le> FadeInCoeff g"
  shows "fst (mute_run real_dspflt vs g) = vs"
proof -
  have "mute_fade real_dspflt v g = (v, g)" for v using assms by (simp add: mute_fade_def real_arith)
  then show ?thesis by (induction vs) simp_all
qed

lemma mute_falls:
  assumes "Mute g \<noteq> 1" "FadeOutFlag g = 1" "FadeOutTimePerFrame g = t" "0 < t" "FadeOutCoeff g < real n * t"
  shows "drop n (fst (mute_run real_dspflt vs g)) = replicate (length vs - n) 0"
  using assms
proof (induction n arbitrary: vs g)
  case 0
  let ?g = "g\<lparr>FadeOutCoeff := 0, FadeOutFlag := 0\<rparr>"
  have "mute_fade real_dspflt v g = (0, ?g)" for v using 0 by (simp add: mute_fade_def real_arith Let_def)
  then show ?case using mute_done [of ?g] 0 by (cases vs) simp_all
next
  case (Suc n)
  show ?case
  proof (cases vs)
    case (Cons v ws)
    let ?g = "snd (mute_fade real_dspflt v g)"
    show ?thesis
    proof (cases "FadeOutCoeff g - t < 0")
      case True
      then have "Mute ?g \<noteq> 1" "FadeOutFlag ?g \<noteq> 1" "FadeOutCoeff ?g \<le> 0"
        using Suc.prems by (simp_all add: mute_fade_def real_arith Let_def)
      from mute_done [OF this, of ws] show ?thesis by (simp add: Cons Let_def)
    next
      case False
      then have "Mute ?g \<noteq> 1" "FadeOutFlag ?g = 1" "FadeOutTimePerFrame ?g = t" "FadeOutCoeff ?g < real n * t"
        using Suc.prems by (simp_all add: mute_fade_def real_arith Let_def algebra_simps)
      from Suc.IH [OF this(1-3) Suc.prems(4) this(4), of ws] show ?thesis by (simp add: Cons Let_def)
    qed
  qed simp
qed

lemma unmute_rises:
  assumes "Mute g = 1" "FadeInFlag g = 1" "FadeInTimePerFrame g = t" "0 < t" "1 < FadeInCoeff g + real n * t"
  shows "drop n (fst (mute_run real_dspflt vs g)) = drop n vs"
  using assms
proof (induction n arbitrary: vs g)
  case 0
  let ?g = "g\<lparr>FadeInCoeff := 1, FadeInFlag := 0\<rparr>"
  have "mute_fade real_dspflt v g = (v, ?g)" for v using 0 by (simp add: mute_fade_def real_arith Let_def)
  then show ?case using unmute_done [of ?g] 0 by (cases vs) simp_all
next
  case (Suc n)
  show ?case
  proof (cases vs)
    case (Cons v ws)
    let ?g = "snd (mute_fade real_dspflt v g)"
    show ?thesis
    proof (cases "1 < FadeInCoeff g + t")
      case True
      then have "Mute ?g = 1" "FadeInFlag ?g \<noteq> 1" "1 \<le> FadeInCoeff ?g"
        using Suc.prems by (simp_all add: mute_fade_def real_arith Let_def)
      from unmute_done [OF this, of ws] show ?thesis by (simp add: Cons Let_def)
    next
      case False
      then have "Mute ?g = 1" "FadeInFlag ?g = 1" "FadeInTimePerFrame ?g = t" "1 < FadeInCoeff ?g + real n * t"
        using Suc.prems by (simp_all add: mute_fade_def real_arith Let_def algebra_simps)
      from Suc.IH [OF this(1-3) Suc.prems(4) this(4), of ws] show ?thesis by (simp add: Cons Let_def)
    qed
  qed simp
qed

text \<open>
  Mute and its end. After the command that sets mute the routes play silence from sample \<open>n\<close> on, and after the
  command that ends it they play the signal unchanged, for every \<open>n\<close> that the step of the fade covers.
\<close>

theorem mute_settles:
  assumes "instructiondecoder_Mute_Set real_flt w s = Inr (0, s')"
    and "0 < FadeOutTimePerFrame (gen s)" "1 < real n * FadeOutTimePerFrame (gen s)"
    and "0 < FadeInTimePerFrame (gen s)" "1 < real n * FadeInTimePerFrame (gen s)"
  shows "drop n (fst (mute_run real_dspflt vs (gen s'))) =
    (if Mute (gen s') = 1 then drop n vs else replicate (length vs - n) 0)"
proof -
  have z: "of_sint real_flt 0 = 0" "of_sint real_flt 1 = 1" by (simp_all add: real_flt_def)
  show ?thesis
  proof (cases "Mute (gen s') = 1")
    case True
    then have g: "FadeInFlag (gen s') = 1" "FadeInCoeff (gen s') = 0" "FadeInTimePerFrame (gen s') = FadeInTimePerFrame (gen s)"
      using assms(1) z by (auto simp: instructiondecoder_Mute_Set_def Let_def upd_gen_def split: if_splits)
    from unmute_rises [OF True g(1,3) assms(4), of n vs] show ?thesis using True g(2) assms(5) by simp
  next
    case False
    then have g: "FadeOutFlag (gen s') = 1" "FadeOutCoeff (gen s') = 1" "FadeOutTimePerFrame (gen s') = FadeOutTimePerFrame (gen s)"
      using assms(1) z by (auto simp: instructiondecoder_Mute_Set_def Let_def upd_gen_def split: if_splits)
    from mute_falls [OF False g(1,3) assms(2), of n vs] show ?thesis using False g(2) assms(3) by simp
  qed
qed

text \<open>Witness: the mute command with a step of one tenth, eleven samples at full scale and two more.\<close>

definition fade_tenth :: "real dsp" where
  "fade_tenth = upd_gen (\<lambda>g. g\<lparr>FadeOutTimePerFrame := 1 / 10, FadeInTimePerFrame := 1 / 10\<rparr>) (dsp_reset real_flt)"

theorem mute_settles_witness:
  "\<exists>s'. instructiondecoder_Mute_Set real_flt 0x05E00000 fade_tenth = Inr (0, s') \<and>
     drop 11 (fst (mute_run real_dspflt (replicate 13 8388607) (gen s'))) = [0, 0]"
proof -
  have w: "getinstructiontype 0x05E00000 = 0" "getpara1_unsignedint 0x05E00000 = 0" by (simp_all add: getters_take_bit)
  then obtain s' where s': "instructiondecoder_Mute_Set real_flt 0x05E00000 fade_tenth = Inr (0, s')" "Mute (gen s') = 0"
    by (simp add: instructiondecoder_Mute_Set_def Let_def upd_gen_def)
  have t: "FadeOutTimePerFrame (gen fade_tenth) = 1 / 10" "FadeInTimePerFrame (gen fade_tenth) = 1 / 10"
    by (simp_all add: fade_tenth_def upd_gen_def)
  have "replicate 2 (0 :: int) = [0, 0]" by (simp add: numeral_2_eq_2)
  then show ?thesis
    using mute_settles [OF s'(1), of 11 "replicate 13 8388607"] s' by (simp add: t)
qed

section \<open>Change of input\<close>

lemma fade_down_coef:
  assumes "0 \<le> c" "0 \<le> st"
  shows "fst (fade_row real_dspflt 1 0 st c xs) = max 0 (c - real (length xs) * st)"
  using assms(1)
proof (induction xs arbitrary: c)
  case (Cons x xs)
  have "fst (fade_sample real_dspflt 1 0 st c x) = max 0 (c - st)"
    using Cons.prems assms(2) by (auto simp: fade_sample_def Let_def real_arith)
  moreover have "0 \<le> real (length xs) * st" using assms(2) by simp
  then have "max 0 (max 0 (c - st) - real (length xs) * st) = max 0 (c - real (length (x # xs)) * st)"
    by (simp add: max_def algebra_simps)
  ultimately show ?case using Cons.IH [of "max 0 (c - st)"] by (simp add: Let_def)
qed simp

text \<open>The fade of \<open>start_fade\<close>, with coefficients of at most \<open>m\<close>.\<close>

definition falling :: "real \<Rightarrow> real insel \<Rightarrow> bool" where
  "falling m s \<longleftrightarrow> g_i_change_down_flag s = 1 \<and> g_i_change_up_flag s = 0 \<and>
     list_all (\<lambda>(c, st). 0 \<le> c \<and> c \<le> m \<and> st = 1 / 10000) (effect s)"

lemma falling_step: "falling m s \<Longrightarrow> falling (max 0 (m - 128 / 10000)) (fade_block real_dspflt s)"
  by (auto simp: falling_def fade_block_def list_all_iff fade_down_coef)

text \<open>Blocks of samples that arrive at the positions \<open>idx\<close> of the buffer.\<close>

definition audio_blocks :: "'f biquad \<Rightarrow> ('f, 'z) dspflt_scheme \<Rightarrow> (int list list \<times> int) list \<Rightarrow> 'f board \<Rightarrow> fault + 'f board" where
  "audio_blocks bq F = foldE (\<lambda>(inbuf, idx). handle_audio_data F bq inbuf idx)"

lemma falling_blocks:
  assumes "biquad_sizes bq" "board_ok b" "falling m (sel b)" "0 \<le> m"
    and "list_all (\<lambda>(inbuf, idx). inputs_ok 4 inbuf (g_i_ad_in (sel b)) \<and> 0 \<le> idx \<and> idx < 4) bs"
  shows "\<exists>b'. audio_blocks bq real_dspflt bs b = Inr b' \<and> board_ok b' \<and> falling (max 0 (m - real (length bs) * (128 / 10000))) (sel b')"
  using assms(2-5)
proof (induction bs arbitrary: b m)
  case Nil
  then show ?case by (simp add: audio_blocks_def)
next
  case (Cons x bs)
  obtain inbuf idx where x: "x = (inbuf, idx)" by (cases x)
  obtain b1 where b1: "handle_audio_data real_dspflt bq inbuf idx b = Inr b1" "board_ok b1" "sel b1 = fade_block real_dspflt (sel b)"
    using handle_audio_data_ok [OF assms(1) Cons.prems(1), of 4 inbuf idx real_dspflt] Cons.prems(4) by (auto simp: sumP_ex x)
  let ?m = "max 0 (m - 128 / 10000)"
  have "falling ?m (sel b1)" using falling_step [OF Cons.prems(2)] b1(3) by simp
  moreover have "g_i_ad_in (sel b1) = g_i_ad_in (sel b)" using b1(3) by (simp add: fade_block_def)
  ultimately obtain b' where b': "audio_blocks bq real_dspflt bs b1 = Inr b'" "board_ok b'"
      "falling (max 0 (?m - real (length bs) * (128 / 10000))) (sel b')"
    using Cons.IH [OF b1(2), of ?m] Cons.prems(4) by auto
  have "max 0 (?m - real (length bs) * (128 / 10000)) = max 0 (m - real (length (x # bs)) * (128 / 10000))"
    by (simp add: max_def algebra_simps)
  with b' b1(1) show ?case by (auto simp: audio_blocks_def x)
qed

lemma silent_row: "fst (fade_row real_dspflt 1 0 st 0 xs) = 0 \<and> snd (fade_row real_dspflt 1 0 st 0 xs) = replicate (length xs) 0"
proof (induction xs)
  case (Cons x xs)
  have "fade_sample real_dspflt 1 0 st 0 x = (0, 0)" by (simp add: fade_sample_def Let_def real_arith)
  with Cons show ?case by (simp add: Let_def)
qed simp

lemma silent_channels:
  assumes "falling 0 (sel b)" "length (effect (sel b)) = 16" "length (da_channel_buffer_multi b) = 16"
  shows "da_channel_buffer_multi (fade_channels real_dspflt b) = map (\<lambda>xs. replicate (length xs) 0) (da_channel_buffer_multi b)"
proof (rule nth_equalityI)
  fix i assume "i < length (da_channel_buffer_multi (fade_channels real_dspflt b))"
  then have i: "i < 16" using assms(2,3) by (simp add: fade_channels_def Let_def)
  then have "fst (effect (sel b) ! i) = 0" using assms(1,2) by (force simp: falling_def list_all_length)
  then show "da_channel_buffer_multi (fade_channels real_dspflt b) ! i = map (\<lambda>xs. replicate (length xs) 0) (da_channel_buffer_multi b) ! i"
    using i assms silent_row by (simp add: fade_channels_def Let_def split_beta falling_def)
qed (use assms in \<open>simp add: fade_channels_def Let_def\<close>)

text \<open>
  The change of input is silent. \<open>Init_all_input_types\<close> starts the fade when another input is requested and
  switches after 100 interrupts; when 79 blocks have been processed all 16 channels of the next block are
  zero after the fade, whatever the input plays, so the switch is made in silence.
\<close>

theorem input_change_silent:
  assumes "biquad_sizes bq" "board_ok b" "i_now_input (sel b) \<noteq> i_old_input (sel b)" "length bs \<ge> 79"
    and "list_all (\<lambda>(inbuf, idx). inputs_ok 4 inbuf (g_i_ad_in (sel b)) \<and> 0 \<le> idx \<and> idx < 4) bs"
  shows "\<exists>b'. audio_blocks bq real_dspflt bs (b\<lparr>sel := start_fade real_flt (sel b)\<rparr>) = Inr b' \<and> board_ok b' \<and>
    (\<forall>xss. length xss = 16 \<longrightarrow> da_channel_buffer_multi (fade_channels real_dspflt (b'\<lparr>da_channel_buffer_multi := xss\<rparr>)) =
      map (\<lambda>xs. replicate (length xs) 0) xss)"
proof -
  let ?b = "b\<lparr>sel := start_fade real_flt (sel b)\<rparr>"
  have e: "lit real_flt 0 0 = 0" "lit real_flt 10 (-1) = 1" "lit real_flt 1 (-4) = 1 / 10000" "fless real_flt = (<)"
    by (simp_all add: real_flt_def)
  have "falling 1 (sel ?b)" using assms(3) by (auto simp: start_fade_def falling_def list_all_iff e split: if_splits)
  moreover have "board_ok ?b" using assms(2) by (simp add: board_ok_def start_fade_def)
  moreover have "g_i_ad_in (sel ?b) = g_i_ad_in (sel b)" by (simp add: start_fade_def)
  ultimately obtain b' where b': "audio_blocks bq real_dspflt bs ?b = Inr b'" "board_ok b'"
      "falling (max 0 (1 - real (length bs) * (128 / 10000))) (sel b')"
    using falling_blocks [OF assms(1), of ?b 1 bs] assms(5) by auto
  have "real (length bs) * (128 / 10000) \<ge> 1" using assms(4) by simp
  then have "max 0 (1 - real (length bs) * (128 / 10000)) = 0" by (simp only: max_absorb1 diff_le_0_iff_le)
  then have f: "falling 0 (sel b')" using b'(3) by (simp only:)
  have "da_channel_buffer_multi (fade_channels real_dspflt (b'\<lparr>da_channel_buffer_multi := xss\<rparr>)) = map (\<lambda>xs. replicate (length xs) 0) xss"
    if "length xss = 16" for xss
    using silent_channels [of "b'\<lparr>da_channel_buffer_multi := xss\<rparr>"] f b'(2) that by (simp add: board_ok_def)
  with b'(1,2) show ?thesis by blast
qed

definition coax_requested :: "real board" where
  "coax_requested = (board_reset real_dspflt real_flt)\<lparr>sel := (insel_reset real_flt)\<lparr>i_old_input := INPUT_TYPE_COAX\<rparr>\<rparr>"

theorem input_change_silent_witness:
  "\<exists>b'. audio_blocks df2_bq real_dspflt (replicate 79 (replicate 4 (replicate 1024 8388607), 1))
       (coax_requested\<lparr>sel := start_fade real_flt (sel coax_requested)\<rparr>) = Inr b' \<and>
     da_channel_buffer_multi (fade_channels real_dspflt (b'\<lparr>da_channel_buffer_multi := replicate 16 [1, 2]\<rparr>)) = replicate 16 [0, 0]"
proof -
  have "board_ok coax_requested" using board_reset_ok [of real_dspflt real_flt]
    by (simp add: board_ok_def coax_requested_def board_reset_def insel_reset_def Let_def)
  moreover have "i_now_input (sel coax_requested) \<noteq> i_old_input (sel coax_requested)"
    by (simp add: coax_requested_def insel_reset_def c_consts)
  moreover have "inputs_ok 4 (replicate 4 (replicate 1024 8388607)) (g_i_ad_in (sel coax_requested))"
    by (simp add: inputs_ok_def coax_requested_def insel_reset_def)
  ultimately obtain b' where b': "audio_blocks df2_bq real_dspflt (replicate 79 (replicate 4 (replicate 1024 8388607), 1))
       (coax_requested\<lparr>sel := start_fade real_flt (sel coax_requested)\<rparr>) = Inr b'"
      "\<forall>xss. length xss = 16 \<longrightarrow> da_channel_buffer_multi (fade_channels real_dspflt (b'\<lparr>da_channel_buffer_multi := xss\<rparr>)) =
         map (\<lambda>xs. replicate (length xs) 0) xss"
    using input_change_silent [OF df2_sizes, of coax_requested "replicate 79 (replicate 4 (replicate 1024 8388607), 1)"]
    by (auto simp: list_all_iff)
  moreover have "map (\<lambda>xs. replicate (length xs) (0 :: real)) (replicate 16 [1 :: real, 2]) = replicate 16 [0, 0]" by simp
  ultimately show ?thesis by (intro exI [of _ b']) simp
qed

section \<open>A port that does not exist\<close>

lemma foldE_fault:
  assumes "x \<in> set xs" "I s" "\<And>y s s'. f y s = Inr s' \<Longrightarrow> I s \<Longrightarrow> I s'" "\<And>s. I s \<Longrightarrow> isl (f x s)"
  shows "isl (foldE f xs s)"
proof (cases "foldE f xs s")
  case (Inr s')
  have "\<exists>t t'. I t \<and> f x t = Inr t'"
    using assms(1,2) Inr
  proof (induction xs arbitrary: s)
    case (Cons y ys)
    then obtain u where u: "f y s = Inr u" "foldE f ys u = Inr s'" by (auto simp: bindE_Inr)
    have "I u" by (rule assms(3) [OF u(1) Cons.prems(2)])
    with Cons u show ?case by (cases "x = y") auto
  qed simp
  then show ?thesis using assms(4) by fastforce
qed simp

text \<open>The table and the delays, which the audio path only reads.\<close>

definition same_table :: "'f board \<Rightarrow> 'f board \<Rightarrow> bool" where
  "same_table b c \<longleftrightarrow> eq (par c) = eq (par b) \<and> Delaytime_samplenums (par c) = Delaytime_samplenums (par b)"

lemma same_table_frame [simp]:
  "same_table a (b\<lparr>divisionoutbuf := x, fmem := y, DelayBuf := z\<rparr>) = same_table a b"
  "same_table a (b\<lparr>da_channel_buffer_multi := u, fmem := y\<rparr>) = same_table a b"
  by (simp_all add: same_table_def)

lemma deliver_sample_table: "deliver_sample F r rp wa i b = Inr c \<Longrightarrow> same_table a b \<Longrightarrow> same_table a c"
  by (auto simp: deliver_sample_def bindE_Inr split_beta same_table_def)

lemma band_out_table:
  assumes "band_out F bq wa ch bandx b = Inr c" "same_table a b"
  shows "same_table a c"
proof -
  have "c = b \<or> (\<exists>route rp out fm buf. foldE (deliver_sample F route rp wa) [0..<HALF]
       (b\<lparr>divisionoutbuf := out, fmem := fm, DelayBuf := buf\<rparr>) = Inr c)"
    using assms(1) by (fastforce simp: band_out_def bindE_Inr Let_def split_beta split: if_splits)
  then show ?thesis
    using assms(2) by (auto elim!: foldE_returns [where P = "same_table a"] intro: deliver_sample_table)
qed

lemma channel_out_table:
  assumes "channel_out F bq wa ch b = Inr c" "same_table a b"
  shows "same_table a c"
proof -
  obtain n xs m where r: "foldE (band_out F bq wa ch) [0..<n]
       (b\<lparr>da_channel_buffer_multi := (da_channel_buffer_multi b)[ch := xs], fmem := m\<rparr>) = Inr c"
    using assms(1) by (auto simp: channel_out_def bindE_Inr Let_def split_beta)
  show ?thesis by (rule foldE_returns [OF r]) (use assms(2) in \<open>auto intro: band_out_table\<close>)
qed

lemma isl_bindE: "(\<And>x. m = Inr x \<Longrightarrow> isl (k x)) \<Longrightarrow> isl (bindE m k)"
  by (cases m) simp_all

lemma bad_route_fault:
  assumes "ch < 14" "16 \<le> outsignalchannel_book24m3 (eq (par b)) ! ch ! 0" "length (Delaytime_samplenums (par b)) = 16"
  shows "isl (handle_audio_data F bq inbuf idx b)"
proof (rule ccontr)
  assume "\<not> isl (handle_audio_data F bq inbuf idx b)"
  then obtain b' where b': "handle_audio_data F bq inbuf idx b = Inr b'" by (cases "handle_audio_data F bq inbuf idx b") auto
  let ?wa = "(g_i_da_write_addr b - 2 + NUMDMAUSED) smod NUMDMAUSED"
  obtain b3 b4 where s: "par b4 = par b" "foldE (channel_out F bq ?wa) [0..<14] b4 = Inr b3"
    by (rule handle_audio_data_stages [OF b']) blast
  have band: "isl (band_out F bq ?wa ch 0 c)" if "same_table b c" for c
    using assms(2,3) that by (auto simp: band_out_def iget_def same_table_def)
  have "isl (foldE (band_out F bq ?wa ch) [0..<n] c)" if "same_table b c" "0 < n" for c n
    using that by (intro foldE_fault [of 0 _ "same_table b"] band) (auto intro: band_out_table)
  then have "isl (channel_out F bq ?wa ch c)" if "same_table b c" for c
    unfolding channel_out_def Let_def split_beta using that by (intro isl_bindE) simp
  moreover have "same_table b b4" using s(1) by (simp add: same_table_def)
  ultimately have "isl (foldE (channel_out F bq ?wa) [0..<14] b4)"
    using assms(1) by (intro foldE_fault [of ch _ "same_table b"]) (auto intro: channel_out_table simp del: upt_rec_numeral)
  with s(2) show False by simp
qed

lemma port_command:
  assumes s: "dsp_ok s" and u: "unat row = Suc ch" and ch: "ch < 16" and v: "unat v < 65536"
  shows "\<exists>s'. instructiondecoder_FreqDiv_Set G (dsp_encode (fd_msg row 4 v)) s = Inr (0, s') \<and>
    outsignalchannel_book24m3 (eq s') ! ch ! 0 = int (unat v) - 1 \<and> Delaytime_samplenums s' = Delaytime_samplenums s"
proof -
  let ?w = "dsp_encode (fd_msg row 4 v)" and ?bk = "outsignalchannel_book24m3 (eq s)"
  have "unat row < 32" "unat (4 :: u32) < 32" using u ch by simp_all
  note w = fd_fields [OF this v]
  have rows: "matrix_ok 16 3 ?bk" using dsp_ok_parts(3) [OF s] by (simp add: eq_ok_def)
  have "row \<noteq> 0" using u by auto
  then have r1: "unat (row - 1) = ch" using u by (simp add: unat_pred)
  have "sint row = int (Suc ch)" using u ch sint_below_256 [of row] by simp
  then have nrow: "\<not> int MAXCAHNNELNUM < sint row" using ch by (simp add: c_consts)
  have "sint v = int (unat v)" using v by (intro sint_eq_unat) simp
  define s1 where "s1 = s\<lparr>eq := (eq s)\<lparr>outsignalchannel_book24m3 := ?bk[ch := (?bk ! ch)[0 := int (unat v) - 1]]\<rparr>\<rparr>"
  have "eq_ok (eq s1)" using dsp_ok_parts(3) [OF s] matrix_nth [OF rows ch] by (simp add: s1_def eq_ok_def matrix_update)
  then have s1: "dsp_ok s1" using s by (simp add: s1_def dsp_ok_def)
  have put: "put_at2 nm ?bk (row - 1) (4 - 4) (sint v - 1) = Inr (?bk[ch := (?bk ! ch)[0 := int (unat v) - 1]])" for nm
    using put_at2_ok [OF rows, of "row - 1" 0] r1 ch \<open>sint v = int (unat v)\<close> by simp
  have fd: "matrix_ok 30 3 (FreqDivVal (outputparam s ! unat (OutputYtype s)))"
    using dsp_ok_parts(6,10) [OF s] by (simp add: out_ok_def)
  note get = get_at2_ok [OF fd, of "row - 1"]
  let ?p = "points ch s1"
  have e: "instructiondecoder_FreqDiv_Set G ?w s = (if freq_div_complete (?p ! 0) (?p ! 1) (?p ! 2)
      then bindE (sim_frequencydivision_setdivisionpointnum G (row - 1) (?p ! 0) s1) (\<lambda>s. Inr (0, s)) else Inr (0, s1))"
    using nrow ch r1 put dsp_ok_parts(5,6) [OF s]
    by (simp add: instructiondecoder_FreqDiv_Set_def w Let_def s1_def get get_at_ok points_def)
  have bk: "length ?bk = 16" "length (?bk ! ch) = 3" using rows ch by (simp_all add: matrix_ok_def)
  show ?thesis
  proof (cases "freq_div_complete (?p ! 0) (?p ! 1) (?p ! 2)")
    case True
    note n = complete_bands [OF True]
    have "unat (row - 1) < 16" using r1 ch by simp
    from setdivisionpointnum_eq [OF s1 this n refl, of G] True e
    have "\<exists>f0 f1. instructiondecoder_FreqDiv_Set G ?w s = Inr (0, s1\<lparr>eq := set_division G ch (?p ! 0) f0 f1 (eq s1)\<rparr>)"
      by (auto simp: r1)
    moreover have "unat (?p ! 0) \<noteq> 0" using n by auto
    ultimately show ?thesis using bk ch by (auto simp: set_division_def s1_def nth_append)
  next
    case False
    then show ?thesis using e bk ch by (simp add: s1_def)
  qed
qed

text \<open>
  C36: a port number that does not exist. The crossover command stores any 16 bit number as the output of a
  band without a check. For every number above 16 it reports success, and the next block of samples reads
  behind the table of delays.
\<close>

theorem bad_port_overruns:
  assumes "dsp_ok (par b)" "ch < 14" "unat row = Suc ch" "16 < unat v" "unat v < 65536"
  shows "\<exists>s'. instructiondecoder_FreqDiv_Set G (dsp_encode (fd_msg row 4 v)) (par b) = Inr (0, s') \<and>
    isl (handle_audio_data F bq inbuf idx (b\<lparr>par := s'\<rparr>))"
proof -
  obtain s' where s': "instructiondecoder_FreqDiv_Set G (dsp_encode (fd_msg row 4 v)) (par b) = Inr (0, s')"
      "outsignalchannel_book24m3 (eq s') ! ch ! 0 = int (unat v) - 1" "Delaytime_samplenums s' = Delaytime_samplenums (par b)"
    using port_command [OF assms(1,3) _ assms(5), of G] assms(2) by auto
  then have "isl (handle_audio_data F bq inbuf idx (b\<lparr>par := s'\<rparr>))"
    using assms(2,4) dsp_ok_parts(9) [OF assms(1)] by (intro bad_route_fault [of ch]) (simp_all del: of_nat_unat int_nat_eq)
  with s'(1) show ?thesis by blast
qed

theorem bad_port_overruns_witness:
  "\<exists>s'. instructiondecoder_FreqDiv_Set real_flt (dsp_encode (fd_msg 3 4 20)) (dsp_reset real_flt) = Inr (0, s') \<and>
     isl (handle_audio_data real_dspflt df2_bq (replicate 4 (replicate 1024 0)) 0 ((board_reset real_dspflt real_flt)\<lparr>par := s'\<rparr>))"
  using bad_port_overruns [of "board_reset real_dspflt real_flt" 2 3 20 real_flt real_dspflt df2_bq "replicate 4 (replicate 1024 0)" 0]
    dsp_reset_ok [of real_flt] by (simp add: board_reset_def Let_def)

section \<open>The monitor outputs\<close>

text \<open>At full scale the sum that goes to a monitor output does not fit the 24 bits of the converter.\<close>

lemma monitor_overflow:
  assumes "board_ok b" "knobvolumegainvalue (gen (par b)) = 1" "length (g_i_ad_in (sel b)) = 8"
    and "g_i_ad_in (sel b) ! i \<in> {0..7}" "g_i_ad_in (sel b) ! 2 \<in> {0..7}" "i < 2" "j < 128" "0 \<le> idx" "idx < 4" "0 \<le> wa" "wa < 4"
  shows "\<exists>b'. monitor_sample real_dspflt (replicate 4 (replicate 1024 (2 ^ 31 - 1))) idx wa i j b = Inr b' \<and>
    \<not> in24 (tx_cell b' wa (i + 14) j)"
proof -
  let ?in = "replicate 4 (replicate 1024 (2 ^ 31 - 1 :: int))" and ?r = "g_i_da_out ! (i + 14)" and ?k = "int j * 2 + wa * BLOCK"
  have m: "matrix_ok 4 1024 ?in" by simp
  have v: "monitor_val real_dspflt ?in idx b p j = Inr 8388607" if "g_i_ad_in (sel b) ! p \<in> {0..7}" "p < 8" for p
  proof -
    let ?c = "g_i_ad_in (sel b) ! p"
    have c: "0 \<le> ?c" "?c < 2 * int 4" using that(1) by simp_all
    have k: "0 \<le> int j * 2 + idx * BLOCK" "int j * 2 + idx * BLOCK + 1 < int 1024" using sample_index [OF assms(7-9)] by simp_all
    note rows = pcm_rows [OF m c k]
    have "pcm_get nm ?in ?c (int j * 2 + idx * BLOCK) = Inr (2 ^ 31 - 1)" for nm
      using pcm_get_ok [OF m c k, of nm] rows by (simp add: nat_less_iff)
    then show ?thesis using c assms(2,3) that(2) by (simp add: monitor_val_def iget_ok real_dspflt_simps)
  qed
  have r: "0 \<le> ?r" "?r < 2 * int 8" using da_out_range [of "i + 14"] assms(6) by simp_all
  have k: "0 \<le> ?k" "?k + 1 < int 1024" using sample_index [OF assms(7,10,11)] by simp_all
  have tx: "matrix_ok 8 1024 (TxBlock_PCM4104 b)" using assms(1) by (simp add: board_ok_def)
  obtain t1 where t1: "pcm_put ''TxBlock_PCM4104'' (TxBlock_PCM4104 b) ?r ?k 8388607 = Inr t1" "matrix_ok 8 1024 t1"
    using sumP_pcm_put [OF tx r k, of "''TxBlock_PCM4104''"] by (auto simp: sumP_ex)
  have g: "pcm_get nm t1 ?r ?k = Inr 8388607" for nm
    using pcm_get_ok [OF t1(2) r k, of nm] pcm_put_returns(2) [OF t1(1) refl refl] by simp
  obtain t2 where t2: "pcm_put ''TxBlock_PCM4104'' t1 ?r ?k 14319352 = Inr t2"
    using sumP_pcm_put [OF t1(2) r k, of "''TxBlock_PCM4104''"] by (auto simp: sumP_ex)
  have s: "to_int real_dspflt (fadd real_dspflt (of_sint real_dspflt 8388607)
      (fmul real_dspflt (of_sint real_dspflt 8388607) (lit real_dspflt 707 (- 3)))) = 14319352"
    by (simp add: real_dspflt_simps floor_eq_iff)
  have "monitor_sample real_dspflt ?in idx wa i j b = Inr (b\<lparr>TxBlock_PCM4104 := t2\<rparr>)"
    using v [OF assms(4)] v [OF assms(5)] assms(6) t1(1) g t2 s by (simp add: monitor_sample_def Let_def)
  moreover have "tx_cell (b\<lparr>TxBlock_PCM4104 := t2\<rparr>) wa (i + 14) j = 14319352"
    using pcm_put_returns(2) [OF t2 refl refl] by (simp add: tx_cell_def)
  ultimately show ?thesis by (simp add: in24_def)
qed

end
