(* ===== verification/Test_Signal.thy ===== *)
theory Test_Signal
  imports Audio_Effects
begin

text \<open>
  The test mode of the DSP: the signal generator of \<open>Dsp_Signal.c\<close> and \<open>test_audio_mode\<close> of \<open>Input_Types.c\<close>, which plays
  the signal on the channel that is being aligned.
\<close>

section \<open>Generator\<close>

definition WhiteNoise :: int where [c_consts]: "WhiteNoise = 1"
definition PinkNoise :: int where [c_consts]: "PinkNoise = 2"
definition TriPulse :: int where [c_consts]: "TriPulse = 3"

text \<open>\<open>rand\<close> and \<open>srand\<close> of the C library, whose sequence the standard leaves open: a state and two functions on it.\<close>

record libc_rand =
  rand_next :: "nat \<Rightarrow> int \<times> nat"
  rand_seed :: "int \<Rightarrow> nat"

text \<open>The array \<open>tmp\<close> of random samples.\<close>

fun noise_samples :: "('f, 'z) dspflt_scheme \<Rightarrow> libc_rand \<Rightarrow> nat \<Rightarrow> nat \<Rightarrow> 'f list \<times> nat" where
  "noise_samples F R 0 s = ([], s)"
| "noise_samples F R (Suc n) s =
     (let (r, s) = rand_next R s;
          x = fdiv F (fsub F (fdiv F (fmul F (of_sint F r) (lit F 10 (-1))) (of_sint F (2 ^ 30))) (of_sint F 1)) (of_sint F 2);
          (xs, s) = noise_samples F R n s
      in (x # xs, s))"

text \<open>One step of the filter that colours the noise; the coefficients are those of \<open>a\<close> and \<open>b\<close>.\<close>

definition pink_sample :: "('f, 'z) dspflt_scheme \<Rightarrow> 'f noise \<Rightarrow> 'f \<Rightarrow> 'f \<times> 'f noise" where
  "pink_sample F p x =
     (let y = fsub F (fsub F (fsub F (fadd F (fadd F (fadd F
                (fmul F (lit F 1 0) x)
                (fmul F (lit F (-1894043) (-6)) (Xprev1 p)))
                (fmul F (lit F 958564 (-6)) (Xprev2 p)))
                (fmul F (lit F (-62132) (-6)) (Xprev3 p)))
                (fmul F (lit F (-2479309) (-6)) (Yprev1 p)))
                (fmul F (lit F 1985013 (-6)) (Yprev2 p)))
                (fmul F (lit F (-5056) (-4)) (Yprev3 p))
      in (y, \<lparr>Xprev1 = x, Xprev2 = Xprev1 p, Xprev3 = Xprev2 p, Yprev1 = y, Yprev2 = Yprev1 p, Yprev3 = Yprev2 p\<rparr>))"

fun pink_samples :: "('f, 'z) dspflt_scheme \<Rightarrow> 'f noise \<Rightarrow> 'f list \<Rightarrow> 'f list \<times> 'f noise" where
  "pink_samples F p [] = ([], p)"
| "pink_samples F p (x # xs) = (let (y, p) = pink_sample F p x; (ys, p) = pink_samples F p xs in (y # ys, p))"

fun tri_samples :: "('f, 'z) dspflt_scheme \<Rightarrow> nat \<Rightarrow> int \<Rightarrow> 'f list \<times> int" where
  "tri_samples F 0 i = ([], i)"
| "tri_samples F (Suc n) i =
     (let x = fdiv F (fmul F (of_sint F i) (lit F 10 (-1))) (of_sint F 480); (xs, i) = tri_samples F n ((i + 1) smod 480)
      in (x # xs, i))"

definition testsignal_generator_oneframe ::
    "('f, 'z) dspflt_scheme \<Rightarrow> libc_rand \<Rightarrow> int \<Rightarrow> nat \<Rightarrow> 'f board \<Rightarrow> 'f list \<times> 'f board" where
  "testsignal_generator_oneframe F R signaltype len b =
     (let seed0 = rand_seed R (fst (rand_next R (seed b)));
          (tmp, s) = noise_samples F R len seed0;
          b = b\<lparr>seed := s\<rparr>
      in if signaltype = WhiteNoise then (tmp, b)
         else if signaltype = PinkNoise then let (ys, p) = pink_samples F (noise b) tmp in (ys, b\<lparr>noise := p\<rparr>)
         else if signaltype = TriPulse then let (ys, i) = tri_samples F len (triangle_index b) in (ys, b\<lparr>triangle_index := i\<rparr>)
         else (replicate len (of_sint F 0), b))"

section \<open>Test mode\<close>

text \<open>The channels whose equalizer follows the parameters while \<open>AlignmentChannel\<close> is above 24.\<close>

definition group_channels :: "u32 \<Rightarrow> nat list" where
  "group_channels ac =
     (if ac = 25 then [0..<2] else if ac = 26 then [0..<6] else if ac = 27 then [0..<8] else if ac = 28 then [0..<11]
      else if ac = 29 then [0..<15] else if ac = 30 then [0..<24] else [])"

definition align_gain :: "('f, 'z) dspflt_scheme \<Rightarrow> nat \<Rightarrow> u32 \<Rightarrow> u32 \<Rightarrow> 'f board \<Rightarrow> fault + 'f board" where
  "align_gain F bandz ch other b =
     bindE (get_at ''outputparam'' (outputparam (par b)) (OutputYtype (par b))) (\<lambda>q.
     bindE (get_at2 ''EQBandGain'' (EQBandGain q) ch (of_nat (bandz - 1))) (\<lambda>x.
     bindE (get_at2 ''EQBandGain'' (EQBandGain q) other (of_nat (bandz - 1))) (\<lambda>y.
     bindE (sim_31band_EQ_setgaintofilters F (int bandz) (sint ch) (fadd F x y) (fmem b)) (\<lambda>m.
       Inr (b\<lparr>fmem := m\<rparr>)))))"

definition align_band :: "('f, 'z) dspflt_scheme \<Rightarrow> nat \<Rightarrow> 'f board \<Rightarrow> fault + 'f board" where
  "align_band F bandz b =
     (let ac = AlignmentChannel (aux (par b)) in
      if ac \<le> 24 then align_gain F bandz (ac - 1) (30 - 1) b
      else foldE (\<lambda>i. align_gain F bandz (of_nat i) (ac - 1)) (group_channels ac) b)"

text \<open>The gain of channel \<open>j\<close>; a channel keeps its old gain when no case applies.\<close>

definition test_gain :: "('f, 'z) dspflt_scheme \<Rightarrow> nat \<Rightarrow> 'f board \<Rightarrow> fault + 'f list" where
  "test_gain F j b =
     (let ac = AlignmentChannel (aux (par b)); y = OutputYtype (par b); nm = ''ChannelGain_Val'';
          gain = (\<lambda>i. bindE (get_at ''outputparam'' (outputparam (par b)) y) (\<lambda>q. get_at nm (ChannelGain_Val q) i));
          upto = (\<lambda>k. if j \<le> k then gain (of_nat j) else Inr (of_sint F 0));
          set = (\<lambda>g. bindE g (\<lambda>v. Inr ((V0 b)[j := v])))
      in if ac \<le> 24 then set (if of_nat j = ac - 1 then gain (ac - 1) else Inr (of_sint F 0))
         else if ac = 25 then set (upto 1)
         else if ac = 26 then set (upto 5)
         else if ac = 27 then set (upto 7)
         else if ac = 28 \<and> (y = 2 \<or> y = 3) then set (upto 9)
         else if ac = 29 \<and> (y = 2 \<or> y = 3) then set (upto 11)
         else if ac = 30 \<and> y = 3 then set (gain (of_nat j))
         else Inr (V0 b))"

definition test_channel :: "('f, 'z) dspflt_scheme \<Rightarrow> 'f biquad \<Rightarrow> nat \<Rightarrow> 'f board \<Rightarrow> fault + 'f board" where
  "test_channel F bq j b =
     bindE (channel_filters F bq j (da_channel_buffer b ! j) (fmem b)) (\<lambda>(xs, m).
     bindE (test_gain F j b) (\<lambda>v.
       Inr (b\<lparr>fmem := m, V0 := v,
              da_channel_buffer := (da_channel_buffer b)[j :=
                map (\<lambda>x. fmul F x (fmul F (v ! j) (knobvolumegainvalue (gen (par b))))) xs]\<rparr>)))"

text \<open>The step of the fade of an output, as in \<open>fade_sample\<close> without the sample.\<close>

definition test_coef :: "('f, 'z) dspflt_scheme \<Rightarrow> int \<Rightarrow> int \<Rightarrow> 'f \<times> 'f \<Rightarrow> 'f \<times> 'f" where
  "test_coef F down up e =
     (let (c, st) = e;
          c = (if down = 1 then let c = (if fless F (of_sint F 0) c then fsub F c st else c)
                                in if fle F c (of_sint F 0) then of_sint F 0 else c
               else c);
          c = (if up = 1 then if fless F c (of_sint F 1) then fadd F c st else c else c)
      in (c, st))"

definition test_sample :: "('f, 'z) dspflt_scheme \<Rightarrow> int \<Rightarrow> int \<Rightarrow> 'f list \<Rightarrow> nat \<Rightarrow> 'f board \<Rightarrow> fault + 'f board" where
  "test_sample F route tx out i b =
     bindE (iget ''T_t_audio_in_out_effect'' (effect (sel b)) route) (\<lambda>e.
       let e = test_coef F (g_i_change_down_flag (sel b)) (g_i_change_up_flag (sel b)) e in
       bindE (iget ''g_i_da_out'' g_i_da_out route) (\<lambda>r.
       bindE (pcm_put ''TxBlock_PCM4104'' (TxBlock_PCM4104 b) r (int i * 2 + tx * BLOCK)
                (to_int F (fmul F (fmul F (out ! i) (fst e)) (of_sint F (2 ^ (23 - 1)))))) (\<lambda>t.
         Inr (b\<lparr>sel := (sel b)\<lparr>effect := (effect (sel b))[nat route := e]\<rparr>, TxBlock_PCM4104 := t\<rparr>))))"

definition test_band :: "('f, 'z) dspflt_scheme \<Rightarrow> 'f biquad \<Rightarrow> int \<Rightarrow> nat \<Rightarrow> nat \<Rightarrow> 'f board \<Rightarrow> fault + 'f board" where
  "test_band F bq tx j bandx b =
     bindE (iget ''outsignalchannel_book24m3'' (outsignalchannel_book24m3 (eq (par b))) (int j)) (\<lambda>bk.
     bindE (iget ''outsignalchannel_book24m3'' bk (int bandx)) (\<lambda>route.
       if route < 0 then Inr b
       else
         bindE (frequencydivision_channel F bq (divisionbandnum_set (eq (par b))) (int j) (int bandx)
                  (da_channel_buffer b ! j) (divisionoutbuf b) (fmem b)) (\<lambda>(out, m).
           foldE (test_sample F route tx out) [0..<HALF] (b\<lparr>divisionoutbuf := out, fmem := m\<rparr>))))"

definition test_audio_mode :: "('f, 'z) dspflt_scheme \<Rightarrow> libc_rand \<Rightarrow> 'f biquad \<Rightarrow> 'f board \<Rightarrow> fault + 'f board" where
  "test_audio_mode F R bq b =
     (if g_i_da_interrupt_flag b = 0 then Inr b
      else
        let b = (if g_i_da_interrupt_flag b = 1 then b\<lparr>g_i_da_interrupt_flag := 0\<rparr> else b);
            tx = g_i_da_write_addr b
        in bindE (foldE (align_band F) [1..<32] b) (\<lambda>b.
             let (xs, b) = testsignal_generator_oneframe F R (sint (SignalModeVal (aux (par b)))) HALF b;
                 b = b\<lparr>da_channel_buffer := replicate 16 xs\<rparr>
             in bindE (foldE (test_channel F bq) [0..<16] b) (\<lambda>b.
                  foldE (\<lambda>j. foldE (test_band F bq tx j) [0..<3]) [0..<14] b)))"

section \<open>Dispatch\<close>

definition handle_all_input_data :: "('f, 'z) dspflt_scheme \<Rightarrow> 'f biquad \<Rightarrow> int list list \<Rightarrow> int list list \<Rightarrow> int \<Rightarrow>
    libc_rand \<Rightarrow> 'f board \<Rightarrow> fault + 'f board" where
  "handle_all_input_data F bq adbuf spdifbuf dma R b =
     (let t = dsp_input_type (sel b) in
      if t = INPUT_TYPE_AD \<or> t = INPUT_TYPE_AES then handle_ad_aes_data F bq adbuf dma b
      else if t = INPUT_TYPE_COAX \<or> t = INPUT_TYPE_SPDIF then handle_spdif_data F bq spdifbuf dma b
      else if t = INPUT_TYPE_DVD then handle_ad_aes_data F bq adbuf dma b
      else if t = INPUT_TYPE_MIC then handle_ad_aes_data F bq adbuf dma b
      else if t = INPUT_TEST then test_audio_mode F R bq b
      else Inr b)"

section \<open>Memory safety\<close>

definition same_setup :: "'f board \<Rightarrow> 'f board \<Rightarrow> bool" where
  "same_setup b c \<longleftrightarrow> par c = par b \<and> g_i_da_write_addr c = g_i_da_write_addr b \<and> g_i_ad_in (sel c) = g_i_ad_in (sel b)"

lemma same_setup_refl [simp]: "same_setup b b"
  by (simp add: same_setup_def)

lemma same_setup_trans: "same_setup a b \<Longrightarrow> same_setup b c \<Longrightarrow> same_setup a c"
  by (simp add: same_setup_def)

lemma setgain_ok:
  assumes "eq_mem_ok m" "1 \<le> bandz" "bandz \<le> 31" "ch < 24"
  shows "sumP eq_mem_ok (sim_31band_EQ_setgaintofilters F (int bandz) (int ch) x m)"
proof -
  have r: "matrix_ok 24 155 (filter_cf_31b m)" using assms(1) by (simp add: eq_mem_ok_def)
  have l: "length (band_design F bandz u v w) = 5" for u v w by (simp add: band_design_def)
  then have off: "(bandz - 1) * 5 + length (band_design F bandz u v w) \<le> 155" for u v w using assms(2,3) by simp
  show ?thesis
    using assms(1) put_cf_ok [OF r assms(4) off] overlay_matrix [OF r assms(4) off]
    by (simp add: setgain_band [OF assms(2,3)] set_band_def Let_def eq_mem_ok_def)
qed

lemma align_gain_ok:
  assumes "board_ok b" "unat ch < 24" "unat oth < 30" "1 \<le> bandz" "bandz \<le> 31"
  shows "sumP (\<lambda>c. board_ok c \<and> same_setup b c) (align_gain F bandz ch oth b)"
proof -
  have d: "dsp_ok (par b)" "eq_mem_ok (fmem b)" using assms(1) by (simp_all add: board_ok_def)
  let ?q = "outputparam (par b) ! unat (OutputYtype (par b))"
  have "matrix_ok 30 33 (EQBandGain ?q)" using dsp_ok_parts(6,10) [OF d(1)] by (simp add: out_ok_def)
  note get = get_at2_ok [OF this]
  have u: "unat (of_nat (bandz - 1) :: u32) = bandz - 1" by (rule unat_u32_small) (use assms(5) in simp)
  have s: "sint ch = int (unat ch)" using assms(2) by (intro sint_below_256) simp
  let ?g = "fadd F (EQBandGain ?q ! unat ch ! (bandz - 1)) (EQBandGain ?q ! unat oth ! (bandz - 1))"
  obtain m where m: "sim_31band_EQ_setgaintofilters F (int bandz) (sint ch) ?g (fmem b) = Inr m" "eq_mem_ok m"
    using setgain_ok [OF d(2) assms(4,5,2), of F ?g] by (auto simp: sumP_ex s)
  have "align_gain F bandz ch oth b = Inr (b\<lparr>fmem := m\<rparr>)"
    using m(1) assms get [of ch "of_nat (bandz - 1)"] get [of oth "of_nat (bandz - 1)"] u dsp_ok_parts(5,6) [OF d(1)]
    by (simp add: align_gain_def get_at_ok)
  then show ?thesis using m(2) assms(1) by (simp add: board_ok_def same_setup_def)
qed

lemma align_band_ok:
  assumes "board_ok b" "AlignmentChannel (aux (par b)) \<noteq> 0" "1 \<le> bandz" "bandz \<le> 31"
  shows "sumP (\<lambda>c. board_ok c \<and> same_setup b c) (align_band F bandz b)"
proof -
  let ?ac = "AlignmentChannel (aux (par b))"
  have ac: "unat ?ac \<le> 30" "unat (?ac - 1) < 30"
    using assms(1,2) dsp_ok_parts(2) [of "par b"] unat_pred [OF assms(2)] unat_gt_0 [of ?ac]
    by (auto simp: board_ok_def aux_ok_def word_le_nat_alt)
  show ?thesis
  proof (cases "?ac \<le> 24")
    case True
    then have "unat (?ac - 1) < 24" using assms(2) unat_pred [OF assms(2)] unat_gt_0 [of ?ac] by (simp add: word_le_nat_alt)
    then show ?thesis using True align_gain_ok [OF assms(1) _ _ assms(3,4), of "?ac - 1" 29 F] by (simp add: align_band_def)
  next
    case False
    have "unat (of_nat i :: u32) < 24" if "i \<in> set (group_channels ?ac)" for i
    proof -
      have "i < 24" using that by (auto simp: group_channels_def simp del: upt_rec_numeral split: if_splits)
      then show ?thesis using unat_u32_small [of i] by simp
    qed
    then show ?thesis
      using False assms(1) ac
      by (auto simp: align_band_def Let_def intro!: sumP_foldE_rel [where R = same_setup] align_gain_ok assms(3,4) intro: same_setup_trans)
  qed
qed

lemma noise_length [simp]: "length (fst (noise_samples F R n s)) = n"
  by (induction n arbitrary: s) (simp_all add: split_beta Let_def)

lemma pink_length [simp]: "length (fst (pink_samples F p xs)) = length xs"
  by (induction xs arbitrary: p) (simp_all add: split_beta Let_def)

lemma tri_length [simp]: "length (fst (tri_samples F n i)) = n"
  by (induction n arbitrary: i) (simp_all add: split_beta Let_def)

lemma testsignal_ok:
  assumes "board_ok b" "testsignal_generator_oneframe F R k n b = (xs, c)"
  shows "length xs = n" "board_ok c" "same_setup b c" "sel c = sel b"
  using assms by (auto simp: testsignal_generator_oneframe_def Let_def split_beta board_ok_def same_setup_def split: if_splits)

lemma test_gain_ok:
  assumes "board_ok b" "j < 16"
  shows "sumP (\<lambda>v. length v = 16) (test_gain F j b)"
proof -
  have d: "dsp_ok (par b)" "length (V0 b) = 16" using assms(1) by (simp_all add: board_ok_def)
  let ?q = "outputparam (par b) ! unat (OutputYtype (par b))"
  have q: "length (ChannelGain_Val ?q) = 30" "unat (OutputYtype (par b)) < length (outputparam (par b))"
    using dsp_ok_parts(5,6,10) [OF d(1)] by (simp_all add: out_ok_def)
  have u: "unat (of_nat j :: u32) < 30" using unat_u32_small [of j] assms(2) by simp
  then have "sumP (\<lambda>x. True) (bindE (get_at ''outputparam'' (outputparam (par b)) (OutputYtype (par b)))
      (\<lambda>q. get_at ''ChannelGain_Val'' (ChannelGain_Val q) (of_nat j)))"
    using q by (simp add: wp)
  then show ?thesis using d(2) u q by (auto simp: test_gain_def Let_def wp)
qed

lemma test_channel_ok:
  assumes "biquad_sizes bq" "board_ok b" "j < 16"
  shows "sumP (\<lambda>c. board_ok c \<and> same_setup b c) (test_channel F bq j b)"
proof -
  have b: "eq_mem_ok (fmem b)" "matrix_ok 16 128 (da_channel_buffer b)" using assms(2) by (simp_all add: board_ok_def)
  have l: "length (da_channel_buffer b ! j) = 128" using matrix_nth [OF b(2) assms(3)] .
  obtain xs m where f: "channel_filters F bq j (da_channel_buffer b ! j) (fmem b) = Inr (xs, m)" "length xs = 128" "eq_mem_ok m"
    using channel_filters_ok [OF assms(1) b(1), of j "da_channel_buffer b ! j" F] assms(3) l by (auto simp: sumP_ex)
  obtain v where "test_gain F j b = Inr v" "length v = 16" using test_gain_ok [OF assms(2,3), of F] by (auto simp: sumP_ex)
  then show ?thesis using f assms(2) b(2) by (simp add: test_channel_def board_ok_def same_setup_def matrix_update)
qed

lemma test_sample_ok:
  assumes "board_ok b" "0 \<le> route" "route < 16" "0 \<le> tx" "tx < 4" "i < 128"
  shows "sumP (\<lambda>c. board_ok c \<and> same_setup b c) (test_sample F route tx out i b)"
proof -
  have e: "length (effect (sel b)) = 16" "length g_i_da_out = 16" using assms(1) by (simp_all add: board_ok_def g_i_da_out_def)
  have r: "0 \<le> g_i_da_out ! nat route" "g_i_da_out ! nat route < 16" using da_out_range [of "nat route"] assms(2,3) by simp_all
  let ?e = "test_coef F (g_i_change_down_flag (sel b)) (g_i_change_up_flag (sel b)) (effect (sel b) ! nat route)"
  obtain t where "pcm_put ''TxBlock_PCM4104'' (TxBlock_PCM4104 b) (g_i_da_out ! nat route) (int i * 2 + tx * BLOCK)
      (to_int F (fmul F (fmul F (out ! i) (fst ?e)) (of_sint F (2 ^ (23 - 1))))) = Inr t" "matrix_ok 8 1024 t"
    using board_tx [OF assms(1) r assms(6,4,5), of "''TxBlock_PCM4104''"] by (force simp: sumP_ex)
  then show ?thesis
    using assms e by (simp add: test_sample_def iget_ok Let_def board_ok_def same_setup_def)
qed

lemma test_band_ok:
  assumes "biquad_sizes bq" "board_ok b" "0 \<le> tx" "tx < 4" "j < 14" "bandx < 3"
  shows "sumP (\<lambda>c. board_ok c \<and> same_setup b c) (test_band F bq tx j bandx b)"
proof -
  define route where "route = outsignalchannel_book24m3 (eq (par b)) ! j ! bandx"
  note e = book_entry [OF assms(2,5,6), folded route_def]
  show ?thesis
  proof (cases "route < 0")
    case True
    then show ?thesis using assms(2) e(2,3) by (simp add: test_band_def)
  next
    case False
    have x: "length (da_channel_buffer b ! j) = 128" "length (divisionoutbuf b) = 128" "eq_mem_ok (fmem b)"
      "length (divisionbandnum_set (eq (par b))) = 16"
      using assms(2,5) matrix_nth [of 16 128 "da_channel_buffer b" j] dsp_ok_parts(3) [of "par b"]
      by (simp_all add: board_ok_def eq_ok_def)
    obtain out m where f: "frequencydivision_channel F bq (divisionbandnum_set (eq (par b))) (int j) (int bandx)
        (da_channel_buffer b ! j) (divisionoutbuf b) (fmem b) = Inr (out, m)" "length out = 128" "eq_mem_ok m"
      using frequencydivision_channel_ok [OF assms(1) x(3,4), of j "divisionoutbuf b" "da_channel_buffer b ! j" F "int bandx"]
        assms(5) x(1,2) by (auto simp: sumP_ex)
    let ?b = "b\<lparr>divisionoutbuf := out, fmem := m\<rparr>"
    have b: "board_ok ?b" "same_setup b ?b" using assms(2) f(2,3) by (simp_all add: board_ok_def same_setup_def)
    have "sumP (\<lambda>c. board_ok c \<and> same_setup b c) (foldE (test_sample F route tx out) [0..<HALF] ?b)"
      using False by (intro sumP_foldE_rel b test_sample_ok [OF _ _ e(1) assms(3,4) upt_HALF]) (auto intro: same_setup_trans)
    then show ?thesis using False e(2,3) f(1) by (simp add: test_band_def)
  qed
qed

lemma test_audio_mode_ok:
  assumes "biquad_sizes bq" "board_ok b" "g_i_da_write_addr b < 4" "AlignmentChannel (aux (par b)) \<noteq> 0"
  shows "sumP (\<lambda>c. board_ok c \<and> same_setup b c) (test_audio_mode F R bq b)"
proof (cases "g_i_da_interrupt_flag b = 0")
  case False
  define b0 where "b0 = (if g_i_da_interrupt_flag b = 1 then b\<lparr>g_i_da_interrupt_flag := 0\<rparr> else b)"
  let ?tx = "g_i_da_write_addr b"
  have b0: "board_ok b0" "same_setup b b0" using assms(2) by (simp_all add: b0_def board_ok_def same_setup_def)
  have tx: "0 \<le> ?tx" "?tx < 4" "g_i_da_write_addr b0 = ?tx" using assms(2,3) by (simp_all add: board_ok_def b0_def)
  have "sumP (\<lambda>c. (board_ok c \<and> AlignmentChannel (aux (par c)) \<noteq> 0) \<and> same_setup b c) (foldE (align_band F) [1..<32] b0)"
    using b0 assms(4) by (intro sumP_foldE_rel) (auto intro!: sumP_mono [OF align_band_ok] simp: same_setup_def simp del: upt_rec_numeral)
  then obtain b1 where b1: "foldE (align_band F) [1..<32] b0 = Inr b1" "board_ok b1" "same_setup b b1"
    by (auto simp: sumP_ex simp del: upt_rec_numeral)
  obtain xs b2 where g: "testsignal_generator_oneframe F R (sint (SignalModeVal (aux (par b1)))) HALF b1 = (xs, b2)"
    by (cases "testsignal_generator_oneframe F R (sint (SignalModeVal (aux (par b1)))) HALF b1")
  let ?b = "b2\<lparr>da_channel_buffer := replicate 16 xs\<rparr>"
  have b2: "board_ok ?b" "same_setup b ?b"
    using testsignal_ok [OF b1(2) g] b1(3) by (auto simp: board_ok_def same_setup_def matrix_ok_def HALF_def)
  have "sumP (\<lambda>c. board_ok c \<and> same_setup b c) (foldE (test_channel F bq) [0..<16] ?b)"
    by (intro sumP_foldE_rel b2 test_channel_ok [OF assms(1)]) (auto intro: same_setup_trans simp del: upt_rec_numeral)
  then obtain b3 where b3: "foldE (test_channel F bq) [0..<16] ?b = Inr b3" "board_ok b3" "same_setup b b3"
    by (auto simp: sumP_ex simp del: upt_rec_numeral)
  have "sumP (\<lambda>c. board_ok c \<and> same_setup a c) (foldE (test_band F bq ?tx j) [0..<3] a)" if "board_ok a" "j < 14" for a j
    using that by (intro sumP_foldE_rel test_band_ok [OF assms(1) _ tx(1,2)]) (auto intro: same_setup_trans simp del: upt_rec_numeral)
  then have "sumP (\<lambda>c. board_ok c \<and> same_setup b c) (foldE (\<lambda>j. foldE (test_band F bq ?tx j) [0..<3]) [0..<14] b3)"
    by (rule sumP_foldE_rel [where R = same_setup, rotated 3]) (use b3(2,3) in \<open>auto intro: same_setup_trans simp del: upt_rec_numeral\<close>)
  then show ?thesis
    using False b1(1) b3(1) g tx(3)
    by (simp add: test_audio_mode_def b0_def [symmetric] Let_def wp sumP_ex del: upt_rec_numeral)
qed (use assms(2) in \<open>simp add: test_audio_mode_def\<close>)

lemma input_block_ok:
  assumes "biquad_sizes bq" "board_ok b" "0 \<le> dma" "dma < 4"
    and "inputs_ok 4 adbuf (g_i_ad_in (sel b))" "inputs_ok 16 spdifbuf (g_i_ad_in (sel b))"
    and "dsp_input_type (sel b) = INPUT_TEST \<Longrightarrow> g_i_da_write_addr b < 4 \<and> AlignmentChannel (aux (par b)) \<noteq> 0"
  shows "\<exists>b'. handle_all_input_data F bq adbuf spdifbuf dma R b = Inr b' \<and> board_ok b' \<and>
    g_i_ad_in (sel b') = g_i_ad_in (sel b) \<and> eq (par b') = eq (par b)"
proof (cases "dsp_input_type (sel b) = INPUT_TEST")
  case True
  have "INPUT_TEST \<notin> {INPUT_TYPE_AD, INPUT_TYPE_AES, INPUT_TYPE_COAX, INPUT_TYPE_SPDIF, INPUT_TYPE_DVD, INPUT_TYPE_MIC}"
    by (simp add: c_consts)
  with True test_audio_mode_ok [OF assms(1,2), of F R] assms(7) show ?thesis
    by (auto simp: sumP_ex handle_all_input_data_def Let_def same_setup_def)
next
  case False
  then show ?thesis
    using handle_blocks_ok [OF assms(1,2,5,3,4), of F] handle_blocks_ok [OF assms(1,2,6,3,4), of F] assms(2)
    by (simp add: sumP_ex handle_all_input_data_def Let_def)
qed

text \<open>With the alignment channel 0 a due block of the test signal leaves the arrays.\<close>

lemma isl_bind_left: "isl m \<Longrightarrow> isl (bindE m k)"
  by (cases m) simp_all

lemma align_band_zero:
  assumes "dsp_ok (par c)" "AlignmentChannel (aux (par c)) = 0"
  shows "isl (align_band F 1 c)"
proof -
  note d = dsp_ok_parts [OF assms(1)]
  have q: "matrix_ok 30 33 (EQBandGain (outputparam (par c) ! unat (OutputYtype (par c))))" using d(6,10) by (simp add: out_ok_def)
  then have "get_at nm (EQBandGain (outputparam (par c) ! unat (OutputYtype (par c)))) (- 1) = Inl (OutOfBounds nm)" for nm
    by (simp add: get_at_def unat_minus_one_u32 matrix_ok_def)
  then have "isl (align_gain F 1 (0 - 1) 29 c)" using d(5,6) by (simp add: align_gain_def get_at_ok get_at2_def)
  then show ?thesis using assms(2) by (simp add: align_band_def Let_def)
qed

lemma test_audio_mode_zero:
  assumes "dsp_ok (par b)" "AlignmentChannel (aux (par b)) = 0" "g_i_da_interrupt_flag b \<noteq> 0"
  shows "isl (test_audio_mode F R bq b)"
proof -
  have u: "[1..<32] = 1 # [2..<32]" by (simp add: upt_rec)
  have "isl (foldE (align_band F) [1..<32] c)" if "par c = par b" for c
    using align_band_zero [of c F] assms(1,2) that unfolding u by (cases "align_band F 1 c") (force simp del: upt_rec_numeral)+
  then show ?thesis
    using assms(3) unfolding test_audio_mode_def Let_def by (auto intro!: isl_bind_left simp del: upt_rec_numeral One_nat_def)
qed

lemma test_input: "dsp_input_type (sel b) = INPUT_TEST \<Longrightarrow> handle_all_input_data F bq adbuf spdifbuf dma R b = test_audio_mode F R bq b"
  by (simp add: handle_all_input_data_def c_consts)

text \<open>
  C9: memory safety of the audio path. In every well formed state (\<open>board_ok\<close>: the buffers have their sizes and the routing table names existing outputs), with
  input buffers of their size whose channel order names existing channels, a pass of \<open>handle_all_input_data\<close> for any input, at any position of the DMA engine and for
  any samples stays inside all buffers, returns, and leaves the state well formed. One input has a condition: when a block of the test signal is due, the block that
  is transmitted has to be one of the four of the ring, and the alignment channel must not be 0. With the alignment channel 0 (a value that its command
  accepts) the block is an access outside an array.
\<close>

theorem audio_block_safe:
  assumes "biquad_sizes bq" "board_ok b" "0 \<le> dma" "dma < 4"
    and "inputs_ok 4 adbuf (g_i_ad_in (sel b))" "inputs_ok 16 spdifbuf (g_i_ad_in (sel b))"
  defines "test_due \<equiv> dsp_input_type (sel b) = INPUT_TEST \<and> g_i_da_interrupt_flag b \<noteq> 0"
  shows "((test_due \<longrightarrow> g_i_da_write_addr b < 4 \<and> AlignmentChannel (aux (par b)) \<noteq> 0) \<longrightarrow>
      (\<exists>b'. handle_all_input_data F bq adbuf spdifbuf dma R b = Inr b' \<and> board_ok b' \<and>
        g_i_ad_in (sel b') = g_i_ad_in (sel b) \<and> eq (par b') = eq (par b))) \<and>
    (test_due \<and> AlignmentChannel (aux (par b)) = 0 \<longrightarrow> isl (handle_all_input_data F bq adbuf spdifbuf dma R b))"
proof (intro conjI impI)
  assume h: "test_due \<longrightarrow> g_i_da_write_addr b < 4 \<and> AlignmentChannel (aux (par b)) \<noteq> 0"
  show "\<exists>b'. handle_all_input_data F bq adbuf spdifbuf dma R b = Inr b' \<and> board_ok b' \<and>
      g_i_ad_in (sel b') = g_i_ad_in (sel b) \<and> eq (par b') = eq (par b)"
  proof (cases "dsp_input_type (sel b) = INPUT_TEST \<and> g_i_da_interrupt_flag b = 0")
    case True
    then show ?thesis using assms(2) by (simp add: test_input test_audio_mode_def)
  next
    case False
    with h show ?thesis by (intro input_block_ok assms) (simp_all add: test_due_def)
  qed
next
  assume "test_due \<and> AlignmentChannel (aux (par b)) = 0"
  with test_audio_mode_zero [of b F R bq] assms(2) show "isl (handle_all_input_data F bq adbuf spdifbuf dma R b)"
    by (simp add: test_due_def test_input board_ok_def)
qed

text \<open>A linear congruential generator for the examples.\<close>

definition lcg :: libc_rand where
  "lcg = \<lparr>rand_next = (\<lambda>s. (int (s mod 2147483648), s * 1103515245 + 12345)), rand_seed = nat\<rparr>"

definition aligning :: "real board" where
  "aligning = (board_reset real_dspflt real_flt)\<lparr>sel := (insel_reset real_flt)\<lparr>dsp_input_type := INPUT_TEST\<rparr>, g_i_da_interrupt_flag := 1,
     par := upd_aux (\<lambda>x. x\<lparr>AlignmentChannel := 2, SignalModeVal := 3\<rparr>) (dsp_reset real_flt)\<rparr>"

lemma aligning_ok: "board_ok aligning" "g_i_da_write_addr aligning = 0" "AlignmentChannel (aux (par aligning)) = 2"
proof -
  have "dsp_ok (upd_aux (\<lambda>x. x\<lparr>AlignmentChannel := 2, SignalModeVal := 3\<rparr>) (dsp_reset real_flt))"
    using dsp_reset_ok [of real_flt] dsp_ok_parts(2) [of "dsp_reset real_flt"] by (intro upd_aux_ok) (auto simp: aux_ok_def)
  then show "board_ok aligning"
    using board_reset_ok [of real_dspflt real_flt]
    by (simp add: board_ok_def aligning_def board_reset_def Let_def insel_reset_def upd_aux_def)
  show "g_i_da_write_addr aligning = 0" "AlignmentChannel (aux (par aligning)) = 2"
    by (simp_all add: aligning_def board_reset_def Let_def upd_aux_def)
qed

theorem audio_block_safe_witness:
  "(\<exists>b'. handle_all_input_data real_dspflt df2_bq (replicate 4 (replicate 1024 8388607)) (replicate 16 (replicate 1024 0)) 1 lcg
       ((board_reset real_dspflt real_flt)\<lparr>g_interruptFlag := 1\<rparr>) = Inr b' \<and> board_ok b') \<and>
   (\<exists>b'. handle_all_input_data real_dspflt df2_bq (replicate 4 (replicate 1024 0)) (replicate 16 (replicate 1024 0)) 1 lcg aligning =
       Inr b' \<and> board_ok b')"
proof -
  let ?b = "(board_reset real_dspflt real_flt)\<lparr>g_interruptFlag := 1\<rparr>"
  have b: "board_ok ?b" using board_reset_ok [of real_dspflt real_flt] by (simp add: board_ok_def)
  have i: "inputs_ok n (replicate n (replicate 1024 v)) (g_i_ad_in (sel ?b))"
      "inputs_ok n (replicate n (replicate 1024 v)) (g_i_ad_in (sel aligning))" if "4 \<le> n" for n and v :: int
    using that by (simp_all add: inputs_ok_def board_reset_def aligning_def insel_reset_def Let_def)
  have t: "dsp_input_type (sel ?b) \<noteq> INPUT_TEST" by (simp add: board_reset_def insel_reset_def Let_def c_consts)
  have "\<exists>b'. handle_all_input_data real_dspflt df2_bq (replicate 4 (replicate 1024 8388607)) (replicate 16 (replicate 1024 0)) 1 lcg ?b =
      Inr b' \<and> board_ok b'"
    using audio_block_safe [OF df2_sizes b, of 1 "replicate 4 (replicate 1024 8388607)" "replicate 16 (replicate 1024 0)" real_dspflt lcg]
      i t by auto
  moreover have "\<exists>b'. handle_all_input_data real_dspflt df2_bq (replicate 4 (replicate 1024 0)) (replicate 16 (replicate 1024 0)) 1 lcg
      aligning = Inr b' \<and> board_ok b'"
    using audio_block_safe [OF df2_sizes aligning_ok(1), of 1 "replicate 4 (replicate 1024 0)" "replicate 16 (replicate 1024 0)" real_dspflt lcg]
      i aligning_ok(2,3) by auto
  ultimately show ?thesis by blast
qed

text \<open>
  The alignment channel 0. The command accepts the number 0, with which \<open>test_audio_mode\<close> reads and writes in front
  of its arrays as soon as the next block is due.
\<close>

theorem alignment_zero_faults:
  assumes "dsp_ok (par b)" "getinstructiontype w = 0" "getpara1_unsignedint w = 0" "g_i_da_interrupt_flag b \<noteq> 0"
  shows "\<exists>s'. instructiondecoder_AlignmentChannel_Set G w (par b) = Inr (0, s') \<and> isl (test_audio_mode F R bq (b\<lparr>par := s'\<rparr>))"
proof -
  let ?s = "upd_aux (\<lambda>x. x\<lparr>AlignmentChannel := 0\<rparr>) (par b)"
  have "instructiondecoder_AlignmentChannel_Set G w (par b) = Inr (0, ?s)"
    using assms(2,3) by (simp add: instructiondecoder_AlignmentChannel_Set_def)
  moreover have "dsp_ok ?s" using assms(1) dsp_ok_parts(2) [OF assms(1)] by (intro upd_aux_ok) (auto simp: aux_ok_def)
  ultimately show ?thesis using test_audio_mode_zero [of "b\<lparr>par := ?s\<rparr>" F R bq] assms(4) by (simp add: upd_aux_def)
qed
theorem alignment_zero_faults_witness:
  "\<exists>s'. instructiondecoder_AlignmentChannel_Set real_flt 0x35200000 (par aligning) = Inr (0, s') \<and>
     isl (test_audio_mode real_dspflt lcg df2_bq (aligning\<lparr>par := s'\<rparr>))"
proof -
  have "getinstructiontype 0x35200000 = 0" "getpara1_unsignedint 0x35200000 = 0" by (simp_all add: getters_take_bit)
  moreover have "dsp_ok (par aligning)" "g_i_da_interrupt_flag aligning \<noteq> 0"
    using aligning_ok(1) by (simp_all add: board_ok_def) (simp add: aligning_def)
  ultimately show ?thesis using alignment_zero_faults [of aligning "0x35200000" real_flt real_dspflt lcg df2_bq] by simp
qed

section \<open>The signals\<close>

text \<open>
  The pulse of the test signal. However many blocks are generated, they continue one signal of period 480 samples
  (100 Hz at 48 kHz) that rises from 0 to 479/480 and falls back at once.
\<close>

lemma tri_run:
  assumes "0 \<le> i" "i < 480"
  shows "tri_samples real_dspflt n i = (map (\<lambda>k. real ((nat i + k) mod 480) / 480) [0..<n], int ((nat i + n) mod 480))"
  using assms
proof (induction n arbitrary: i)
  case 0
  then show ?case by simp
next
  case (Suc n)
  let ?j = "(i + 1) smod 480"
  have j: "?j = (i + 1) mod 480" using Suc.prems by (simp add: smod_pos)
  then have r: "0 \<le> ?j" "?j < 480" by simp_all
  have e: "(nat ?j + k) mod 480 = (nat i + Suc k) mod 480" for k
    using Suc.prems(1) by (simp add: j nat_mod_distrib nat_add_distrib mod_add_left_eq)
  have "map (\<lambda>k. real ((nat i + k) mod 480) / 480) [0..<Suc n] =
      real (nat i mod 480) / 480 # map (\<lambda>k. real ((nat i + Suc k) mod 480) / 480) [0..<n]"
    by (simp add: upt_conv_Cons map_Suc_upt [symmetric] comp_def del: upt_Suc)
  then show ?case using Suc.IH [OF r] Suc.prems by (simp add: e real_arith Let_def del: upt_Suc)
qed

definition test_frames :: "('f, 'z) dspflt_scheme \<Rightarrow> libc_rand \<Rightarrow> int \<Rightarrow> nat \<Rightarrow> 'f board \<Rightarrow> fault + 'f list list \<times> 'f board" where
  "test_frames F R k n = stream (\<lambda>_ b. Inr (testsignal_generator_oneframe F R k HALF b)) (replicate n ())"

theorem pulse_continues:
  assumes "0 \<le> triangle_index b" "triangle_index b < 480"
  shows "\<exists>yss b'. test_frames real_dspflt R TriPulse n b = Inr (yss, b') \<and>
    concat yss = map (\<lambda>k. real ((nat (triangle_index b) + k) mod 480) / 480) [0..<128 * n]"
  using assms
proof (induction n arbitrary: b)
  case 0
  then show ?case by (simp add: test_frames_def)
next
  case (Suc n)
  let ?i = "nat (triangle_index b)"
  obtain b1 where b1: "testsignal_generator_oneframe real_dspflt R TriPulse HALF b =
      (map (\<lambda>k. real ((?i + k) mod 480) / 480) [0..<128], b1)" "triangle_index b1 = int ((?i + 128) mod 480)"
    using tri_run [OF Suc.prems, of 128]
    by (auto simp: testsignal_generator_oneframe_def Let_def split_beta c_consts HALF_def simp del: upt_rec_numeral)
  have "0 \<le> triangle_index b1" "triangle_index b1 < 480" by (simp_all add: b1(2))
  from Suc.IH [OF this] obtain yss b' where y: "test_frames real_dspflt R TriPulse n b1 = Inr (yss, b')"
      "concat yss = map (\<lambda>k. real ((nat (triangle_index b1) + k) mod 480) / 480) [0..<128 * n]" by blast
  have "(nat (triangle_index b1) + k) mod 480 = (?i + (128 + k)) mod 480" for k
    by (simp add: b1(2) nat_mod_distrib mod_add_left_eq add.assoc)
  moreover have "[128..<128 * Suc n] = map (\<lambda>k. 128 + k) [0..<128 * n]"
    using map_add_upt [of 128 "128 * n"] by (simp add: add.commute)
  ultimately have "concat yss = map (\<lambda>k. real ((?i + k) mod 480) / 480) [128..<128 * Suc n]"
    by (simp only: y(2) map_map comp_def)
  moreover have "[0..<128 * Suc n] = [0..<128] @ [128..<128 * Suc n]"
    using upt_add_eq_append [of 0 128 "128 * n"] by (simp del: upt_rec_numeral)
  ultimately show ?case using y(1) b1(1) by (auto simp: test_frames_def simp del: upt_rec_numeral)
qed

theorem pulse_continues_witness:
  "\<exists>yss b'. test_frames real_dspflt lcg TriPulse 5 aligning = Inr (yss, b') \<and> concat yss ! 479 = 479 / 480 \<and> concat yss ! 480 = 0"
proof -
  have "triangle_index aligning = 0" by (simp add: aligning_def board_reset_def Let_def)
  with pulse_continues [of aligning lcg 5] show ?thesis by (auto simp del: upt_rec_numeral)
qed

lemma noise_range:
  assumes "\<And>s. 0 \<le> fst (rand_next R s) \<and> fst (rand_next R s) < 2 ^ 31"
  shows "list_all (\<lambda>x. - (1 / 2) \<le> x \<and> x < 1 / 2) (fst (noise_samples real_dspflt R n s))"
proof (induction n arbitrary: s)
  case (Suc n)
  have "0 \<le> fst (rand_next R s)" "fst (rand_next R s) < 2 ^ 31" using assms by simp_all
  then have "0 \<le> real_of_int (fst (rand_next R s))" "real_of_int (fst (rand_next R s)) < 2147483648" by simp_all
  with Suc show ?case by (simp add: split_beta Let_def real_arith)
qed simp

text \<open>
  The noise of the test signal. For a library whose \<open>rand\<close> returns numbers below \<open>2 ^ 31\<close> the white noise lies between
  -1/2 and 1/2.
\<close>

theorem white_noise_range:
  assumes "\<And>s. 0 \<le> fst (rand_next R s) \<and> fst (rand_next R s) < 2 ^ 31"
  shows "length (fst (testsignal_generator_oneframe real_dspflt R WhiteNoise n b)) = n \<and>
    list_all (\<lambda>x. - (1 / 2) \<le> x \<and> x < 1 / 2) (fst (testsignal_generator_oneframe real_dspflt R WhiteNoise n b))"
  using noise_range [OF assms] by (simp add: testsignal_generator_oneframe_def Let_def split_beta)

theorem white_noise_range_witness:
  "list_all (\<lambda>x. - (1 / 2) \<le> x \<and> x < 1 / 2) (fst (testsignal_generator_oneframe real_dspflt lcg WhiteNoise 128 aligning))"
  using white_noise_range [of lcg 128 aligning] by (simp add: lcg_def)

section \<open>Only the chosen channel\<close>

lemma foldE_establish_inv:
  assumes "foldE f xs s = Inr s'" "x \<in> set xs" "I s" "\<And>y s s'. f y s = Inr s' \<Longrightarrow> I s \<Longrightarrow> I s'"
    and "\<And>s s'. f x s = Inr s' \<Longrightarrow> I s \<Longrightarrow> Q s'" "\<And>y s s'. y \<in> set xs \<Longrightarrow> f y s = Inr s' \<Longrightarrow> I s \<Longrightarrow> Q s \<Longrightarrow> Q s'"
  shows "Q s'"
proof -
  have "I s \<longrightarrow> Q s'" using assms(1,2,5,6)
  proof (induction xs arbitrary: s)
    case (Cons y ys)
    then obtain t where t: "f y s = Inr t" "foldE f ys t = Inr s'" by (auto simp: bindE_Inr)
    show ?case
    proof (intro impI, cases "x \<in> set ys")
      assume "I s" "x \<in> set ys"
      then show "Q s'" using Cons.IH [OF t(2)] Cons.prems(3,4) assms(4) [OF t(1)] by (meson list.set_intros(2))
    next
      assume "I s" "x \<notin> set ys"
      then have "Q t \<and> I t" using Cons.prems(2,3) t(1) assms(4) [OF t(1)] by auto
      then show "Q s'" using foldE_returns [OF t(2), of "\<lambda>s. Q s \<and> I s"] Cons.prems(4) assms(4) by (meson list.set_intros(2))
    qed
  qed simp
  then show ?thesis using assms(3) by simp
qed

definition silent :: "real list \<Rightarrow> bool" where
  "silent xs \<longleftrightarrow> list_all (\<lambda>x. x = 0) xs"

lemma test_channel_effect:
  assumes "test_channel real_dspflt bq j b = Inr c"
  shows "par c = par b" "k \<noteq> j \<Longrightarrow> da_channel_buffer c ! k = da_channel_buffer b ! k"
    "AlignmentChannel (aux (par b)) \<le> 24 \<Longrightarrow> of_nat j \<noteq> AlignmentChannel (aux (par b)) - 1 \<Longrightarrow> j < length (V0 b) \<Longrightarrow>
      j < length (da_channel_buffer b) \<Longrightarrow> silent (da_channel_buffer c ! j)"
    "length (V0 c) = length (V0 b)" "length (da_channel_buffer c) = length (da_channel_buffer b)"
proof -
  obtain xs m v where c: "c = b\<lparr>fmem := m, V0 := v, da_channel_buffer := (da_channel_buffer b)[j :=
        map (\<lambda>x. x * (v ! j * knobvolumegainvalue (gen (par b)))) xs]\<rparr>" and v: "test_gain real_dspflt j b = Inr v"
    using assms by (auto simp: test_channel_def bindE_Inr real_arith)
  have "\<exists>g. v = (V0 b)[j := g] \<or> v = V0 b"
    using v by (auto simp: test_gain_def Let_def bindE_Inr split: if_splits)
  then show "length (V0 c) = length (V0 b)" by (auto simp: c)
  show "par c = par b" "length (da_channel_buffer c) = length (da_channel_buffer b)"
    "k \<noteq> j \<Longrightarrow> da_channel_buffer c ! k = da_channel_buffer b ! k" by (simp_all add: c)
  assume "AlignmentChannel (aux (par b)) \<le> 24" "of_nat j \<noteq> AlignmentChannel (aux (par b)) - 1" "j < length (V0 b)"
      "j < length (da_channel_buffer b)"
  moreover from this have "v ! j = 0" using v by (auto simp: test_gain_def Let_def real_arith)
  ultimately show "silent (da_channel_buffer c ! j)" by (simp add: c silent_def list_all_iff)
qed

text \<open>
  The test signal goes to the chosen channel alone. While a single channel \<open>n\<close> is aligned the buffers of all other
  channels are silent when the outputs are computed from them.
\<close>

theorem alignment_isolates:
  assumes "biquad_sizes bq" "board_ok b" "1 \<le> AlignmentChannel (aux (par b))" "AlignmentChannel (aux (par b)) \<le> 24"
  shows "\<exists>b'. foldE (test_channel real_dspflt bq) [0..<16] b = Inr b' \<and> board_ok b' \<and>
    (\<forall>j < 16. of_nat j \<noteq> AlignmentChannel (aux (par b)) - 1 \<longrightarrow> silent (da_channel_buffer b' ! j))"
proof -
  have "sumP (\<lambda>c. board_ok c \<and> same_setup b c) (foldE (test_channel real_dspflt bq) [0..<16] b)"
    using assms(2) by (intro sumP_foldE_rel test_channel_ok [OF assms(1)]) (auto intro: same_setup_trans simp del: upt_rec_numeral)
  then obtain b' where b': "foldE (test_channel real_dspflt bq) [0..<16] b = Inr b'" "board_ok b'"
    by (auto simp: sumP_ex simp del: upt_rec_numeral)
  let ?I = "\<lambda>c. par c = par b \<and> length (V0 c) = 16 \<and> length (da_channel_buffer c) = 16"
  have i: "?I b" using assms(2) by (simp add: board_ok_def matrix_ok_def)
  have "silent (da_channel_buffer b' ! j)" if "j < 16" "of_nat j \<noteq> AlignmentChannel (aux (par b)) - 1" for j
  proof (rule foldE_establish_inv [OF b'(1), of j ?I, OF _ i])
    show "?I s'" if "test_channel real_dspflt bq y s = Inr s'" "?I s" for y s s'
      using test_channel_effect(1,4,5) [OF that(1)] that(2) by simp
    show "silent (da_channel_buffer s' ! j)" if s: "test_channel real_dspflt bq j s = Inr s'" "?I s" for s s'
      using test_channel_effect(3) [OF s(1)] s(2) \<open>j < 16\<close> \<open>of_nat j \<noteq> _\<close> assms(4) by simp
    show "silent (da_channel_buffer s' ! j)"
      if s: "test_channel real_dspflt bq y s = Inr s'" "?I s" "silent (da_channel_buffer s ! j)" for y s s'
      using test_channel_effect(2,3) [OF s(1)] s(2,3) \<open>j < 16\<close> \<open>of_nat j \<noteq> _\<close> assms(4) by (cases "y = j") auto
  qed (use \<open>j < 16\<close> in simp)
  with b' show ?thesis by blast
qed

theorem alignment_isolates_witness:
  "\<exists>b'. foldE (test_channel real_dspflt df2_bq) [0..<16] aligning = Inr b' \<and> silent (da_channel_buffer b' ! 0) \<and> silent (da_channel_buffer b' ! 15)"
  using alignment_isolates [OF df2_sizes aligning_ok(1)] by (auto simp: aligning_ok(3) simp del: upt_rec_numeral)

end
