(* ===== verification/Command_Path.thy ===== *)
theory Command_Path
  imports Test_Signal
begin

text \<open>
  What a parameter command can change of the audio path: the alignment channel, the delays, the routing table and the
  filters to recompute. Shown for every handler of the table of \<open>Spi_Code.c\<close>, and so for \<open>handle_spi_raw_data\<close>.
\<close>

section \<open>The relation\<close>

fun call_ok :: "'f filter_call \<Rightarrow> bool" where
  "call_ok (SetLPF i f) = (i < 24)"
| "call_ok (SetHPFdl i f) = (i < 24)"
| "call_ok (DivLPF i off f) = (i < 72 \<and> off \<le> 5)"
| "call_ok (DivHPF i off f) = (i < 72 \<and> off \<le> 5)"

text \<open>
  A command in row \<open>r\<close>, column \<open>n\<close> of the table of handlers keeps the delays in their range, the routing table on
  existing outputs when it names one, changes the alignment channel only to its own parameter, and asks for
  filters that exist.
\<close>

definition port_ok :: "nat \<Rightarrow> u32 \<Rightarrow> bool" where
  "port_ok r w \<longleftrightarrow> (r = 6 \<longrightarrow> 3 < getpara1_unsignedint w \<longrightarrow> val16 w \<le> 16)"

definition path_step :: "nat \<Rightarrow> nat \<Rightarrow> u32 \<Rightarrow> 'f dsp \<Rightarrow> 'f dsp \<Rightarrow> bool" where
  "path_step r n w s s' \<longleftrightarrow>
     (AlignmentChannel (aux s') = AlignmentChannel (aux s) \<or> (r = 4 \<and> n = 9 \<and> AlignmentChannel (aux s') = getpara1_unsignedint w)) \<and>
     (delays_ok (Delaytime_samplenums s) \<longrightarrow> delays_ok (Delaytime_samplenums s')) \<and>
     (routes_ok (outsignalchannel_book24m3 (eq s)) \<longrightarrow> port_ok r w \<longrightarrow> routes_ok (outsignalchannel_book24m3 (eq s'))) \<and>
     (\<exists>cs. filter_calls (eq s') = filter_calls (eq s) @ cs \<and> list_all call_ok cs)"

definition path_handler :: "nat \<Rightarrow> nat \<Rightarrow> 'f handler \<Rightarrow> bool" where
  "path_handler r n h \<longleftrightarrow> (\<forall>F w s x s'. dsp_ok s \<longrightarrow> slot_safe r n w \<longrightarrow> h F w s = Inr (x, s') \<longrightarrow> path_step r n w s s')"

lemma path_handlerI: "(\<And>F w s x s'. dsp_ok s \<Longrightarrow> slot_safe r n w \<Longrightarrow> h F w s = Inr (x, s') \<Longrightarrow> path_step r n w s s') \<Longrightarrow> path_handler r n h"
  by (simp add: path_handler_def)

lemma path_step_same:
  "\<lbrakk>AlignmentChannel (aux s') = AlignmentChannel (aux s); Delaytime_samplenums s' = Delaytime_samplenums s; eq s' = eq s\<rbrakk> \<Longrightarrow>
    path_step r n w s s'"
  by (simp add: path_step_def)

lemma path_step_refl [simp]: "path_step r n w s s"
  by (simp add: path_step_def)

lemma upd_output_frame: "upd_output h s = Inr s' \<Longrightarrow> \<exists>qs. s' = s\<lparr>outputparam := qs\<rparr>"
  by (auto simp: upd_output_def bindE_Inr)

lemma upd_input_frame: "upd_input i h s = Inr s' \<Longrightarrow> \<exists>ps. s' = s\<lparr>inputparam := ps\<rparr>"
  by (auto simp: upd_input_def bindE_Inr)

lemma upd_fields [simp]:
  "eq (upd_gen h s) = eq s" "eq (upd_aux k s) = eq s" "Delaytime_samplenums (upd_gen h s) = Delaytime_samplenums s"
  "Delaytime_samplenums (upd_aux k s) = Delaytime_samplenums s"
  by (simp_all add: upd_gen_def upd_aux_def)

text \<open>The handlers that do not touch the audio path at all.\<close>

definition quiet_handler :: "'f handler \<Rightarrow> bool" where
  "quiet_handler h \<longleftrightarrow> (\<forall>F w s x s'. h F w s = Inr (x, s') \<longrightarrow> AlignmentChannel (aux s') = AlignmentChannel (aux s) \<and>
     Delaytime_samplenums s' = Delaytime_samplenums s \<and> eq s' = eq s)"

lemma quiet_path: "quiet_handler h \<Longrightarrow> path_handler r n h"
  by (auto simp: quiet_handler_def path_handler_def intro: path_step_same)

lemmas quiet_rows = gen_handlers instructiondecoder_SpeakerX_Set_def instructiondecoder_SpeakerY_Set_def
  instructiondecoder_SpeakerZ_Set_def instructiondecoder_OutPinAssign_Set_def
  instructiondecoder_Input_SamplingRate_Set_def instructiondecoder_Input_Decoder_Set_def
  instructiondecoder_Input_ChannelNumber_Set_def instructiondecoder_Input_PinAssign_Set_def
  instructiondecoder_Input_TimeDelay_Set_def instructiondecoder_Input_PlaybackSF_Set_def
  instructiondecoder_Output_FreqDivision_Set_def instructiondecoder_Output_ChannelGain_Set_def
  instructiondecoder_Output_HighCutSlope_Set_def
  instructiondecoder_Output_LowCutSlope_Set_def instructiondecoder_Output_EQBandGain_Set_def
  instructiondecoder_SPLreferencevalue_Set_def instructiondecoder_SPLalignmentvalue_Set_def
  instructiondecoder_CutLevel_Set_def instructiondecoder_PL_Alignment_Enable_Set_def
  instructiondecoder_CenterSignal_Enable_Set_def instructiondecoder_Invert_Enable_Set_def
  instructiondecoder_PLfilter_Set_def
  instructiondecoder_SignalModeVal_Set_def instructiondecoder_SystemState_Set_def
  instructiondecoder_OutputVolume_Set_def instructiondecoder_MicinBandeng_Set_def
  instructiondecoder_InputVolume_Set_def instructiondecoder_DJsourceXY_Set_def
  instructiondecoder_DJsourceZ_Set_def instructiondecoder_DJgain_Set_def

lemma AlignmentChannel_path: "path_handler 4 9 instructiondecoder_AlignmentChannel_Set"
  by (auto intro!: path_handlerI simp: instructiondecoder_AlignmentChannel_Set_def path_step_def upd_aux_def split: if_splits)

lemma filter_path:
  "SPI_set_EQ_LPfilter i s = Inr s' \<Longrightarrow> path_step r n w s s'" "SPI_set_EQ_HPfilter i s = Inr s' \<Longrightarrow> path_step r n w s s'"
  by (auto simp: SPI_set_EQ_LPfilter_def SPI_set_EQ_HPfilter_def bindE_Inr path_step_def c_consts split: if_splits)

lemma path_step_frame:
  assumes "path_step r n w s s'" "aux s = aux s0" "Delaytime_samplenums s = Delaytime_samplenums s0" "eq s = eq s0"
  shows "path_step r n w s0 s'"
  using assms by (simp add: path_step_def)

lemma filter_path_after:
  "upd_output h s = Inr t \<Longrightarrow> SPI_set_EQ_LPfilter i t = Inr s' \<Longrightarrow> path_step r n w s s'"
  "upd_output h s = Inr t \<Longrightarrow> SPI_set_EQ_HPfilter i t = Inr s' \<Longrightarrow> path_step r n w s s'"
  by (auto dest!: upd_output_frame filter_path [of _ _ _ r n w] elim!: path_step_frame)

lemma CutFreq_path:
  "path_handler r n instructiondecoder_Output_HighCutFreq_Set" "path_handler r n instructiondecoder_Output_LowCutFreq_Set"
  by (auto intro!: path_handlerI elim: filter_path_after split: if_splits
      simp: instructiondecoder_Output_HighCutFreq_Set_def instructiondecoder_Output_LowCutFreq_Set_def bindE_Inr Let_def)

lemma delays_ok_update:
  assumes "delays_ok ds" "\<not> DelayBufSIZE - FFTSIZE div 2 < v"
  shows "delays_ok (ds[i := v])"
proof -
  have "unat v \<le> 4992" using assms(2) by (simp add: c_consts word_le_nat_alt not_less)
  moreover from this have "sint v = int (unat v)" by (intro sint_eq_unat) simp
  ultimately have "0 \<le> sint v \<and> sint v \<le> 4992" by linarith
  with assms(1) show ?thesis
    by (auto simp: delays_ok_def list_all_iff dest!: subsetD [OF set_update_subset_insert])
qed

lemma put_at_frame: "put_at nm xs i v = Inr ys \<Longrightarrow> ys = xs[unat i := v]"
  by (simp add: put_at_def split: if_splits)

lemma TimeDelay_path: "path_handler r n instructiondecoder_Output_TimeDelay_Set"
  by (auto intro!: path_handlerI dest!: upd_output_frame put_at_frame split: if_splits intro!: delays_ok_update
      simp: instructiondecoder_Output_TimeDelay_Set_def bindE_Inr Let_def path_step_def)

lemma routes_ok_update:
  assumes "routes_ok bk" "list_all (\<lambda>r. r < 16) xs"
  shows "routes_ok (bk[i := xs])"
  using assms by (auto simp: routes_ok_def list_all_iff dest!: subsetD [OF set_update_subset_insert])

lemma routes_ok_nth: "routes_ok bk \<Longrightarrow> i < length bk \<Longrightarrow> list_all (\<lambda>r. r < 16) (bk ! i)"
  by (simp add: routes_ok_def list_all_length)

lemma division_path:
  assumes "dsp_ok s" "unat ch < 16" "n \<in> {1, 2, 3}" "sim_frequencydivision_setdivisionpointnum G ch n s = Inr s'"
  shows "aux s' = aux s" "Delaytime_samplenums s' = Delaytime_samplenums s"
    "routes_ok (outsignalchannel_book24m3 (eq s)) \<longrightarrow> routes_ok (outsignalchannel_book24m3 (eq s'))"
    "\<exists>cs. filter_calls (eq s') = filter_calls (eq s) @ cs \<and> list_all call_ok cs"
proof -
  have bk: "length (outsignalchannel_book24m3 (eq s)) = 16" using dsp_ok_parts(3) [OF assms(1)] by (simp add: eq_ok_def matrix_ok_def)
  obtain f0 f1 where s': "s' = s\<lparr>eq := set_division G (unat ch) n f0 f1 (eq s)\<rparr>"
    using setdivisionpointnum_eq [OF assms(1-3) refl, of G] assms(4) by auto
  show "aux s' = aux s" "Delaytime_samplenums s' = Delaytime_samplenums s" by (simp_all add: s')
  have take: "list_all (\<lambda>r. r < 16) (take k xs @ replicate l (-1))" if "list_all (\<lambda>r. r < (16 :: int)) xs" for k l xs
    using that by (auto simp: list_all_iff dest: in_set_takeD)
  show "routes_ok (outsignalchannel_book24m3 (eq s)) \<longrightarrow> routes_ok (outsignalchannel_book24m3 (eq s'))"
    using bk assms(2) by (auto simp: s' set_division_def simp del: list_all_append intro!: routes_ok_update take routes_ok_nth)
  show "\<exists>cs. filter_calls (eq s') = filter_calls (eq s) @ cs \<and> list_all call_ok cs"
    using assms(2) by (simp add: s' set_division_def division_calls_def)
qed

lemma division_path_step:
  assumes "dsp_ok t" "unat ch < 16" "freq_div_complete v0 v1 v2" "sim_frequencydivision_setdivisionpointnum G ch v0 t = Inr s'"
    and "path_step r n w s t"
  shows "path_step r n w s s'"
proof -
  have "v0 \<in> {1, 2, 3}" using assms(3) by (auto simp: freq_div_complete_def)
  note d = division_path [OF assms(1,2) this assms(4)]
  show ?thesis using assms(5) d by (fastforce simp: path_step_def)
qed

lemma put_at2_frame: "put_at2 nm m i j v = Inr m' \<Longrightarrow> unat i < length m \<and> m' = m[unat i := (m ! unat i)[unat j := v]]"
  by (auto simp: put_at2_def put_at_def get_at_def bindE_Inr split: if_splits)

lemma book_path:
  assumes "put_at2 nm (outsignalchannel_book24m3 (eq s)) i j v = Inr bk" "port_ok r w \<Longrightarrow> v < 16"
  shows "path_step r n w s (s\<lparr>eq := (eq s)\<lparr>outsignalchannel_book24m3 := bk\<rparr>\<rparr>)"
proof -
  note p = put_at2_frame [OF assms(1)]
  have "list_all (\<lambda>r. r < 16) (xs[k := v])" if "list_all (\<lambda>r. r < 16) xs" "port_ok r w" for xs k
    using that assms(2) by (auto simp: list_all_iff dest!: subsetD [OF set_update_subset_insert])
  with p show ?thesis by (auto simp: path_step_def intro!: routes_ok_update routes_ok_nth)
qed

lemma FreqVal_step:
  assumes "dsp_ok s" "upd_output (\<lambda>q. bindE (put_at2 nm (FreqDivVal q) i j v) (\<lambda>m. Inr (q\<lparr>FreqDivVal := m\<rparr>))) s = Inr t"
  shows "dsp_ok t" "path_step r n w s t"
proof -
  note d = dsp_ok_parts [OF assms(1)]
  obtain q m where q: "q = outputparam s ! unat (OutputYtype s)" "put_at2 nm (FreqDivVal q) i j v = Inr m"
    "t = s\<lparr>outputparam := (outputparam s)[unat (OutputYtype s) := q\<lparr>FreqDivVal := m\<rparr>]\<rparr>"
    using assms(2) d(5,6) by (auto simp: upd_output_def bindE_Inr get_at_def put_at_def split: if_splits)
  have "out_ok q" using d(6,10) by (simp add: q(1))
  then have "out_ok (q\<lparr>FreqDivVal := m\<rparr>)" using put_at2_frame [OF q(2)] by (auto simp: out_ok_def matrix_ok_def list_all_iff dest!: subsetD [OF set_update_subset_insert])
  with assms(1) show "dsp_ok t" by (auto simp: q(3) dsp_ok_def list_all_iff dest!: subsetD [OF set_update_subset_insert])
  show "path_step r n w s t" by (simp add: q(3) path_step_def)
qed

lemma FreqDiv_path: "path_handler 6 0 instructiondecoder_FreqDiv_Set"
proof (rule path_handlerI)
  fix F w x and s s' :: "'a dsp"
  assume s: "dsp_ok s" and w: "slot_safe 6 0 w" and h: "instructiondecoder_FreqDiv_Set F w s = Inr (x, s')"
  let ?row = "getinstructionindexingroup w" and ?col = "getpara1_unsignedint w"
  have "unat ?row < 256" "unat ?col < 256" using para_bounds(2,3) [of w] by linarith+
  note ints = sint_below_256 [OF this(1)] sint_below_256 [OF this(2)]
  show "path_step 6 0 w s s'"
  proof (cases "sint ?row > int MAXCAHNNELNUM")
    case False
    then have r16: "unat ?row \<le> 16" unfolding ints c_consts by linarith
    then have r: "\<not> 16 < ?row" by (simp add: word_less_nat_alt)
    with w have "?row \<noteq> 0" by (simp add: slot_safe_def freq_div_safe_def)
    with r have row: "unat (?row - 1) < 16" by (intro chan_less [of _ 16]) (auto simp: not_less)
    have port: "sint (val16 w) - 1 < 16" if "\<not> sint ?col \<le> 3" "port_ok 6 w"
    proof -
      have "3 < unat ?col" using that(1) unfolding ints by linarith
      then have "3 < ?col" by (simp add: word_less_nat_alt)
      then have "unat (val16 w) \<le> 16" using that(2) by (simp add: port_ok_def word_le_nat_alt)
      moreover from this have "sint (val16 w) = int (unat (val16 w))" by (intro sint_below_256) simp
      ultimately show ?thesis by linarith
    qed
    obtain t where t: "dsp_ok t" "path_step 6 0 w s t"
      and d: "s' = t \<or> (\<exists>v0 v1 v2. freq_div_complete v0 v1 v2 \<and> sim_frequencydivision_setdivisionpointnum F (?row - 1) v0 t = Inr s')"
    proof (cases "sint ?col \<le> 3")
      case True
      with h False obtain t where "upd_output (\<lambda>q. bindE (put_at2 ''FreqDivVal'' (FreqDivVal q) (?row - 1) (?col - 1) (val16 w))
                                       (\<lambda>m. Inr (q\<lparr>FreqDivVal := m\<rparr>))) s = Inr t"
          "s' = t \<or> (\<exists>v0 v1 v2. freq_div_complete v0 v1 v2 \<and> sim_frequencydivision_setdivisionpointnum F (?row - 1) v0 t = Inr s')"
        by (auto simp: instructiondecoder_FreqDiv_Set_def Let_def bindE_Inr split: if_splits)
      with that FreqVal_step [OF s] show ?thesis by blast
    next
      case False
      with h \<open>\<not> sint ?row > _\<close> obtain bk where bk: "put_at2 ''outsignalchannel_book24m3'' (outsignalchannel_book24m3 (eq s))
                               (?row - 1) (?col - 4) (sint (val16 w) - 1) = Inr bk"
          "s' = s\<lparr>eq := (eq s)\<lparr>outsignalchannel_book24m3 := bk\<rparr>\<rparr> \<or> (\<exists>v0 v1 v2. freq_div_complete v0 v1 v2 \<and>
            sim_frequencydivision_setdivisionpointnum F (?row - 1) v0 (s\<lparr>eq := (eq s)\<lparr>outsignalchannel_book24m3 := bk\<rparr>\<rparr>) = Inr s')"
        by (auto simp: instructiondecoder_FreqDiv_Set_def Let_def bindE_Inr split: if_splits)
      have "matrix_ok 16 3 bk" using put_at2_frame [OF bk(1)] row s by (auto simp: dsp_ok_def eq_ok_def put_at2_matrix)
      then have "dsp_ok (s\<lparr>eq := (eq s)\<lparr>outsignalchannel_book24m3 := bk\<rparr>\<rparr>)" using s by (simp add: dsp_ok_def eq_ok_def)
      with that bk(2) book_path [OF bk(1) port [OF False]] show ?thesis by blast
    qed
    from d show ?thesis using t division_path_step [OF t(1) row _ _ t(2)] by blast
  qed (use h in \<open>simp add: instructiondecoder_FreqDiv_Set_def Let_def\<close>)
qed

definition row_path :: "nat \<Rightarrow> nat \<Rightarrow> 'f handler option list \<Rightarrow> bool" where
  "row_path r k xs \<longleftrightarrow> (\<forall>n < length xs. \<forall>h. xs ! n = Some h \<longrightarrow> path_handler r (k + n) h)"

lemma row_path_rules:
  "row_path r k []" "row_path r (Suc k) xs \<Longrightarrow> row_path r k (None # xs)" "row_path r k xs \<Longrightarrow> row_path r k (pad17 xs)"
  "path_handler r k h \<Longrightarrow> row_path r (Suc k) xs \<Longrightarrow> row_path r k (Some h # xs)"
  by (auto simp: row_path_def nth_Cons pad17_def nth_append split: nat.splits)

definition table_path :: "nat \<Rightarrow> 'f handler option list list \<Rightarrow> bool" where
  "table_path k t \<longleftrightarrow> (\<forall>r < length t. row_path (k + r) 0 (t ! r))"

lemma table_path_rules: "table_path k []" "row_path k 0 row \<Longrightarrow> table_path (Suc k) t \<Longrightarrow> table_path k (row # t)"
  by (auto simp: table_path_def nth_Cons split: nat.splits)

lemma slot_path: "path_handler r n h \<Longrightarrow> r' = r \<Longrightarrow> n' = n \<Longrightarrow> path_handler r' n' h"
  by simp

lemma instructiondecoder_path: "table_path 0 instructiondecoder"
  unfolding instructiondecoder_def list.map
  by (intro table_path_rules row_path_rules CutFreq_path TimeDelay_path slot_path [OF FreqDiv_path]
        slot_path [OF AlignmentChannel_path] quiet_path)
    (auto simp: quiet_handler_def quiet_rows bindE_Inr Let_def split: if_splits dest!: upd_output_frame upd_input_frame)

lemma select_handler_path:
  fixes s :: "'f dsp"
  assumes "select_handler w = Some h" "safe_word w" "dsp_ok s" "h F w s = Inr (x, s')"
  shows "path_step (decoder_row (getinstructiongroup w)) (unat (getinstructionindexingroup w)) w s s'"
proof -
  let ?r = "decoder_row (getinstructiongroup w)" and ?n = "unat (getinstructionindexingroup w)"
  define n where "n = (if ?r = 6 then 0 else ?n)"
  have r: "?r < 7" by (simp add: decoder_row_def)
  have n: "n < 17" and h: "instructiondecoder ! ?r ! n = Some h"
    using assms(1) by (auto simp: select_handler_def Let_def n_def word_less_nat_alt split: if_splits)
  have "path_handler ?r n h"
    using instructiondecoder_path [where ?'a = 'f] r n h by (simp add: table_path_def row_path_def table_rows)
  moreover have "slot_safe ?r n w" using assms(2) by (auto simp: safe_word_def n_def slot_safe_def)
  ultimately have "path_step ?r n w s s'" using assms(3,4) by (simp add: path_handler_def)
  then show ?thesis by (auto simp: path_step_def n_def split: if_splits)
qed

lemma raw_data_path:
  fixes s :: "'f dsp"
  assumes "handle_spi_raw_data F w s = Inr s'" "safe_word w" "dsp_ok s"
  shows "path_step (decoder_row (getinstructiongroup w)) (unat (getinstructionindexingroup w)) w s s'"
proof -
  define s1 where "s1 = (if w = 0x34000000 then s\<lparr>g_init_done := 1\<rparr> else s)"
  have s1: "dsp_ok s1" using assms(3) by (simp add: s1_def dsp_ok_def)
  have f: "path_step r n w s t" if "path_step r n w s1 t" for r n t
    using that by (rule path_step_frame) (simp_all add: s1_def)
  show ?thesis
  proof (cases "select_handler w :: 'f handler option")
    case None
    with assms(1) show ?thesis by (auto simp: handle_spi_raw_data_def s1_def [symmetric] Let_def intro: f split: if_splits)
  next
    case (Some h)
    then show ?thesis using assms(1) select_handler_path [OF Some assms(2) s1, of F]
      by (auto simp: handle_spi_raw_data_def s1_def [symmetric] bindE_Inr Let_def intro: f split: if_splits)
  qed
qed

end
