(* ===== verification/Dsp_Main.thy ===== *)
theory Dsp_Main
  imports Command_Path
begin

text \<open>
  The program of the DSP as a whole: start-up and main loop of \<open>main.c\<close>, the crossover set-up of \<open>EQ.c\<close>, and the
  interrupt handlers that meet the loop (\<open>SPORT0_isr.c\<close>, \<open>Input_Types.c\<close>, \<open>SPI.c\<close>, \<open>Volume.c\<close>). Interrupts and passes of the
  loop interleave in any order.
\<close>

section \<open>Interrupts\<close>

text \<open>\<open>tcb\<close> are the addresses of the four blocks of the DMA chain, \<open>cp\<close> is the chain pointer; 4 when none matches.\<close>

definition get_current_dma_tx_block :: "nat list \<Rightarrow> nat \<Rightarrow> nat" where
  "get_current_dma_tx_block tcb cp = length (takeWhile (\<lambda>a. a \<noteq> cp) tcb)"

definition SP0ADCSend_ISR :: "nat list \<Rightarrow> nat \<Rightarrow> 'f board \<Rightarrow> 'f board" where
  "SP0ADCSend_ISR tcb cp b =
     b\<lparr>g_i_da_interrupt_flag := 1, g_i_da_write_addr := int (get_current_dma_tx_block tcb cp), sel := set_interrupt_times (sel b)\<rparr>"

definition SP6ADCRcv_ISR :: "'f board \<Rightarrow> 'f board" where
  "SP6ADCRcv_ISR b = b\<lparr>g_interruptFlag := 1\<rparr>"

section \<open>Crossover from the parameters\<close>

text \<open>One channel of the first loop of \<open>sim_frequencydivisionfilter_outputparamset\<close>.\<close>

definition division_param :: "('f, 'z) dspflt_scheme \<Rightarrow> 'f dsp \<Rightarrow> nat \<Rightarrow> 'f dsp_eq \<times> 'f eq_mem \<Rightarrow> fault + 'f dsp_eq \<times> 'f eq_mem" where
  "division_param F d ch em = (case em of (e, m) \<Rightarrow>
     bindE (get_at ''outputparam'' (outputparam d) (DSP23_OutputYtype d)) (\<lambda>q.
     bindE (get_at2 ''FreqDivVal'' (FreqDivVal q) (of_nat ch) 0) (\<lambda>v0.
     bindE (get_at2 ''FreqDivVal'' (FreqDivVal q) (of_nat ch) 1) (\<lambda>v1.
     bindE (get_at2 ''FreqDivVal'' (FreqDivVal q) (of_nat ch) 2) (\<lambda>v2.
       let n = sint v0;
           bk = outsignalchannel_book24m3 e ! ch;
           bk = (if n < 3 then bk[2 := -1] else bk);
           bk = (if n < 2 then bk[1 := -1] else bk);
           bk = (if n < 1 then bk[0 := -1] else bk);
           f = of_uint F v1; f' = of_uint F v2;
           e = e\<lparr>divisionbandnum_set := (divisionbandnum_set e)[ch := n],
                 outsignalchannel_book24m3 := (outsignalchannel_book24m3 e)[ch := bk],
                 fc_division := (fc_division e)[ch := [f, f']]\<rparr>;
           calls = (if n = 2 then [DivLPF (3 * ch) 0 f, DivHPF (3 * ch + 1) 0 f]
                    else if n = 3 then [DivLPF (3 * ch) 0 f, DivHPF (3 * ch + 1) 0 f, DivLPF (3 * ch + 1) 5 f', DivHPF (3 * ch + 2) 0 f']
                    else [])
       in bindE (foldE (filter_call_run F) calls m) (\<lambda>m. Inr (e, m)))))))"

text \<open>
  The second loop only reads \<open>divisionbandnum_set\<close>. It runs over 24 channels, like the loop of \<open>init_divisionfilter\<close>, over
  tables of 16; \<open>k\<close> is the bound of these two loops, 24 in the code.
\<close>

definition division_scan :: "nat \<Rightarrow> 'f dsp_eq \<Rightarrow> fault + 'f dsp_eq" where
  "division_scan k = foldE (\<lambda>i e. bindE (iget ''divisionbandnum_set'' (divisionbandnum_set e) (int i)) (\<lambda>n. Inr e)) [0..<k]"

definition sim_frequencydivisionfilter_outputparamset :: "('f, 'z) dspflt_scheme \<Rightarrow> nat \<Rightarrow> 'f dsp \<Rightarrow> 'f eq_mem \<Rightarrow> fault + 'f dsp \<times> 'f eq_mem" where
  "sim_frequencydivisionfilter_outputparamset F k d m =
     bindE (foldE (division_param F d) [0..<OUTPUT_CHANNELS] (eq d, m)) (\<lambda>(e, m).
     bindE (division_scan k e) (\<lambda>e. Inr (d\<lparr>eq := e\<rparr>, m)))"

section \<open>Start\<close>

definition start_output :: "('f, 'z) dspflt_scheme \<Rightarrow> 'f OutputParams \<Rightarrow> 'f OutputParams" where
  "start_output F q = q\<lparr>FreqDivVal := overlay (FreqDivVal q) 0 (replicate 16 [1, 20, 20000]),
     ChannelGain := replicate 30 (of_sint F 0), ChannelGain_Val := replicate 30 (of_sint F 1),
     OutDelay := overlay (OutDelay q) 0 (replicate 16 (of_sint F 0)),
     HighCutFreq := overlay (HighCutFreq q) 0 (replicate 16 (of_sint F 20000)),
     HighCutSlope := overlay (HighCutSlope q) 0 (replicate 16 (of_sint F 0)),
     LowCutFreq := overlay (LowCutFreq q) 0 (replicate 16 (of_sint F 20)),
     LowCutSlope := overlay (LowCutSlope q) 0 (replicate 16 (of_sint F 1)),
     EQBandGain := map (\<lambda>r. overlay r 0 (replicate 31 (of_sint F 0))) (EQBandGain q),
     EQBandGain_Val := map (\<lambda>r. overlay r 0 (replicate 31 (of_sint F 1))) (EQBandGain_Val q)\<rparr>"

definition start_params :: "('f, 'z) dspflt_scheme \<Rightarrow> 'f dsp \<Rightarrow> 'f dsp" where
  "start_params F d = d\<lparr>
     gen := (gen d)\<lparr>SpeakerNumber := 14, knobvolume := lit F 500 (-1),
       Matrix_ChtoOutch := map (\<lambda>i. map (\<lambda>j. if i < 16 \<and> j < 16 then if i = j then 1 else 0
                                            else Matrix_ChtoOutch (gen d) ! i ! j) [0..<24]) [0..<24],
       MonitorOutState := 1, Mute := 1, FadeInFlag := 0, FadeInCoeff := of_sint F 1, FadeOutFlag := 0,
       FadeOutCoeff := of_sint F 0, FadeInTime := lit F 5 (-1), FadeOutTime := lit F 5 (-1),
       FadeInTimePerFrame := lit F 1 (-3), FadeOutTimePerFrame := lit F 1 (-3)\<rparr>,
     inputparam := map (\<lambda>p. p\<lparr>SamplingRate := 48000, PlaybackSF := 0\<rparr>) (inputparam d),
     outputparam := (outputparam d ! 0) # map (start_output F) (drop 1 (outputparam d)),
     aux := (aux d)\<lparr>AlignmentChannel := 1, SignalModeVal := 0, SystemState := SYSTEMSTATE_NORMAL\<rparr>,
     OutputYtype := 3, DSP23_OutputYtype := 3\<rparr>"

text \<open>The state of the program: the board, the word received last, and the flag of the main loop.\<close>

record 'f prog =
  pb :: "'f board"
  prx :: spi_rx
  EQflag :: int

definition main_init :: "('f, 'z) dspflt_scheme \<Rightarrow> nat \<Rightarrow> fault + 'f prog" where
  "main_init F k =
     (let b = board_reset F (flt.truncate F) in
      bindE (sim_31band_EQ F (fmem b)) (\<lambda>m.
      bindE (foldE (division_filter F (eq (par b))) [0..<k] (zero_filterstate F m)) (\<lambda>m.
        Inr \<lparr>pb = b\<lparr>fmem := m, par := start_params F (par b)\<rparr>, prx = rx_reset, EQflag = 0\<rparr>)))"

section \<open>Main loop\<close>

text \<open>\<open>handle_spi_code\<close> on the board: the filters that the handler asked for are computed.\<close>

definition spi_pass :: "('f, 'z) dspflt_scheme \<Rightarrow> u32 \<Rightarrow> 'f prog \<Rightarrow> fault + 'f prog" where
  "spi_pass F w p =
     (let b = pb p in
      bindE (handle_spi_code (flt.truncate F) w (prx p, par b)) (\<lambda>(r, s).
      bindE (foldE (filter_call_run F) (drop (length (filter_calls (eq (par b)))) (filter_calls (eq s))) (fmem b)) (\<lambda>m.
        Inr (p\<lparr>prx := r, pb := b\<lparr>par := s, fmem := m\<rparr>\<rparr>))))"

definition eq_setup :: "('f, 'z) dspflt_scheme \<Rightarrow> nat \<Rightarrow> 'f prog \<Rightarrow> fault + 'f prog" where
  "eq_setup F k p =
     (if EQflag p = 0 then
        bindE (sim_31band_EQ_outputparamset F (par (pb p)) (fmem (pb p))) (\<lambda>m.
        bindE (sim_frequencydivisionfilter_outputparamset F k (par (pb p)) m) (\<lambda>(d, m).
          Inr (p\<lparr>pb := (pb p)\<lparr>par := d, fmem := m\<rparr>, EQflag := 1\<rparr>)))
      else Inr p)"

definition input_pass :: "('f, 'z) dspflt_scheme \<Rightarrow> libc_rand \<Rightarrow> 'f biquad \<Rightarrow> int list list \<Rightarrow> int list list \<Rightarrow> int \<Rightarrow> 'f prog \<Rightarrow> fault + 'f prog" where
  "input_pass F R bq adbuf spdifbuf dma p =
     (let b = pb p;
          b = b\<lparr>sel := Init_all_input_types (flt.truncate F) (SystemState (aux (par b))) (g_spi_data (prx p)) (sel b)\<rparr>
      in bindE (handle_all_input_data F bq adbuf spdifbuf dma R b) (\<lambda>b. Inr (p\<lparr>pb := b\<rparr>)))"

definition main_pass :: "('f, 'z) dspflt_scheme \<Rightarrow> libc_rand \<Rightarrow> 'f biquad \<Rightarrow> nat \<Rightarrow> u32 \<Rightarrow> int list list \<Rightarrow> int list list \<Rightarrow> int \<Rightarrow>
    'f prog \<Rightarrow> fault + 'f prog" where
  "main_pass F R bq k w adbuf spdifbuf dma p =
     (if g_init_done (par (pb p)) \<noteq> 1 then spi_pass F w p
      else bindE (eq_setup F k p) (\<lambda>p. bindE (spi_pass F w p) (input_pass F R bq adbuf spdifbuf dma)))"

datatype prog_event = TxDone "nat list" nat | RxDone | SpiWord u32 | KnobTurn bool bool
  | MainPass u32 "int list list" "int list list" int

definition prog_step :: "('f, 'z) dspflt_scheme \<Rightarrow> libc_rand \<Rightarrow> 'f biquad \<Rightarrow> nat \<Rightarrow> prog_event \<Rightarrow> 'f prog \<Rightarrow> fault + 'f prog" where
  "prog_step F R bq k e p = (case e of
     TxDone tcb cp \<Rightarrow> Inr (p\<lparr>pb := SP0ADCSend_ISR tcb cp (pb p)\<rparr>)
   | RxDone \<Rightarrow> Inr (p\<lparr>pb := SP6ADCRcv_ISR (pb p)\<rparr>)
   | SpiWord w \<Rightarrow> Inr (p\<lparr>prx := SPIH_ISR w (prx p)\<rparr>)
   | KnobTurn x y \<Rightarrow> Inr (p\<lparr>pb := (pb p)\<lparr>par := fst (knobvolume_SIGIRQ2 (flt.truncate F) x y (par (pb p)))\<rparr>\<rparr>)
   | MainPass w adbuf spdifbuf dma \<Rightarrow> main_pass F R bq k w adbuf spdifbuf dma p)"

section \<open>What a block keeps\<close>

lemma foldE_keeps:
  assumes "foldE f xs s = Inr s'" "\<And>x s s'. x \<in> set xs \<Longrightarrow> f x s = Inr s' \<Longrightarrow> g s' = g s"
  shows "g s' = g s"
  using assms
proof (induction xs arbitrary: s)
  case (Cons x xs)
  then obtain t where t: "f x s = Inr t" "foldE f xs t = Inr s'" by (auto simp: bindE_Inr)
  have "g s' = g t" by (rule Cons.IH [OF t(2)]) (auto intro: Cons.prems(2))
  also have "g t = g s" using Cons.prems(2) [OF _ t(1)] by simp
  finally show ?case .
qed simp

definition settings :: "'f board \<Rightarrow> 'f dsp_aux \<times> int" where
  "settings b = (aux (par b), g_i_da_write_addr b)"

lemma sample_settings:
  "deliver_sample F route rp wa i b = Inr b' \<Longrightarrow> settings b' = settings b"
  "monitor_sample F inbuf idx wa i j b = Inr b' \<Longrightarrow> settings b' = settings b"
  "clear_sample wa i j b = Inr b' \<Longrightarrow> settings b' = settings b"
  "load_inputs F inbuf idx b = Inr b' \<Longrightarrow> settings b' = settings b"
  by (auto simp: deliver_sample_def monitor_sample_def clear_sample_def load_inputs_def bindE_Inr Let_def split_beta settings_def)

lemma channel_settings: "channel_out F bq wa ch b = Inr b' \<Longrightarrow> settings b' = settings b"
proof -
  have band: "settings b' = settings b" if "band_out F bq wa ch bandx b = Inr b'" for bandx and b b' :: "'a board"
  proof -
    have d: "settings c' = settings c" if "foldE (deliver_sample F route rp wa) [0..<HALF] c = Inr c'" for route rp and c c' :: "'a board"
      using that sample_settings(1) by (rule foldE_keeps)
    show ?thesis using that
      by (auto simp: band_out_def bindE_Inr Let_def split_beta settings_def split: if_splits dest!: d)
  qed
  assume "channel_out F bq wa ch b = Inr b'"
  then obtain ks c where "foldE (band_out F bq wa ch) ks c = Inr b'" "settings c = settings b"
    by (auto simp: channel_out_def bindE_Inr Let_def split_beta settings_def)
  with foldE_keeps [OF this(1), of settings] band show ?thesis by simp
qed

lemma audio_settings:
  assumes "handle_audio_data F bq inbuf idx b = Inr b'"
  shows "settings b' = settings b"
proof -
  let ?wa = "(g_i_da_write_addr b - 2 + NUMDMAUSED) smod NUMDMAUSED"
  define mix where "mix b1 = fade_channels F (b1\<lparr>da_channel_buffer_multi :=
      matrixtooutputchannel F (Matrix_ChtoOutch (gen (par b1))) (da_channel_buffer b1) (da_channel_buffer_multi b1)\<rparr>)" for b1
  obtain b1 b3 b4 b5 where s: "load_inputs F inbuf idx b = Inr b1"
    "foldE (\<lambda>i. foldE (monitor_sample F inbuf idx ?wa i) [0..<HALF]) [0..<2] (mix b1) = Inr b3"
    "foldE (\<lambda>i. foldE (clear_sample ?wa i) [0..<HALF]) [0..<14] b3 = Inr b4" "foldE (channel_out F bq ?wa) [0..<14] b4 = Inr b5"
    "b' = b5\<lparr>DelayBuf_writeptr := (DelayBuf_writeptr b5 + int HALF) smod DELAY_LEN\<rparr>"
    using assms by (auto simp: handle_audio_data_def bindE_Inr Let_def mix_def [symmetric] simp del: upt_rec_numeral)
  have "settings (mix b1) = settings b1" by (simp add: mix_def fade_channels_def settings_def Let_def)
  moreover have "settings b3 = settings (mix b1)" by (rule foldE_keeps [OF s(2)]) (auto intro: foldE_keeps sample_settings(2))
  moreover have "settings b4 = settings b3" by (rule foldE_keeps [OF s(3)]) (auto intro: foldE_keeps sample_settings(3))
  moreover have "settings b5 = settings b4" by (rule foldE_keeps [OF s(4)]) (rule channel_settings)
  ultimately show ?thesis using s(5) sample_settings(4) [OF s(1)] by (simp add: settings_def)
qed

lemma input_settings:
  assumes "biquad_sizes bq" "board_ok b" "dsp_input_type (sel b) = INPUT_TEST \<Longrightarrow> g_i_da_write_addr b < 4 \<and> AlignmentChannel (aux (par b)) \<noteq> 0"
    and "handle_all_input_data F bq adbuf spdifbuf dma R b = Inr b'"
  shows "settings b' = settings b"
proof (cases "dsp_input_type (sel b) = INPUT_TEST")
  case True
  have "INPUT_TEST \<notin> {INPUT_TYPE_AD, INPUT_TYPE_AES, INPUT_TYPE_COAX, INPUT_TYPE_SPDIF, INPUT_TYPE_DVD, INPUT_TYPE_MIC}"
    by (simp add: c_consts)
  with True test_audio_mode_ok [OF assms(1,2), of F R] assms(3,4) show ?thesis
    by (auto simp: sumP_ex handle_all_input_data_def Let_def same_setup_def settings_def)
next
  case False
  have 1: "settings b' = settings b" if "handle_ad_aes_data F bq buf dma b = Inr b'" for buf
    using that by (auto simp: handle_ad_aes_data_def settings_def split: if_splits dest!: audio_settings)
  have 2: "settings b' = settings b" if "handle_spdif_data F bq buf dma b = Inr b'" for buf
    using that by (auto simp: handle_spdif_data_def settings_def split: if_splits dest!: audio_settings)
  from False assms(4) 1 2 show ?thesis by (auto simp: handle_all_input_data_def Let_def split: if_splits)
qed

section \<open>Safety of the program\<close>

lemma call_run_ok:
  assumes "call_ok c" "eq_mem_ok m"
  shows "\<exists>m'. filter_call_run F c m = Inr m' \<and> eq_mem_ok m'"
  using assms by (cases c) (auto simp: put_filters intro!: div_call_ok [unfolded filter_call_run.simps])

lemma calls_run_ok:
  assumes "list_all call_ok cs" "eq_mem_ok m"
  shows "\<exists>m'. foldE (filter_call_run F) cs m = Inr m' \<and> eq_mem_ok m'"
  using assms by (intro foldE_invariant) (auto simp: list_all_iff intro: call_run_ok)

text \<open>The parts of the equalizer state that the crossover set-up changes.\<close>

definition division_state_ok :: "'f dsp_eq \<times> 'f eq_mem \<Rightarrow> bool" where
  "division_state_ok em \<longleftrightarrow> eq_ok (fst em) \<and> routes_ok (outsignalchannel_book24m3 (fst em)) \<and> eq_mem_ok (snd em)"

lemma list_all_update: "list_all P xs \<Longrightarrow> P v \<Longrightarrow> list_all P (xs[i := v])"
  by (auto simp: list_all_iff dest!: subsetD [OF set_update_subset_insert])

lemma division_param_ok:
  assumes "dsp_ok d" "division_state_ok em" "ch < 16"
  shows "\<exists>em'. division_param F d ch em = Inr em' \<and> division_state_ok em'"
proof -
  obtain e m where em: "em = (e, m)" by (cases em)
  have e: "eq_ok e" "routes_ok (outsignalchannel_book24m3 e)" "eq_mem_ok m" using assms(2) by (simp_all add: em division_state_ok_def)
  note d = dsp_ok_parts [OF assms(1)]
  let ?q = "outputparam d ! unat (DSP23_OutputYtype d)"
  have q: "matrix_ok 30 3 (FreqDivVal ?q)" using d(7,10) by (simp add: out_ok_def)
  have u: "unat (of_nat ch :: u32) = ch" using assms(3) by (intro unat_u32_small) simp
  define v where "v j = FreqDivVal ?q ! ch ! j" for j
  define n where "n = sint (v 0)"
  define cs where "cs = (let f = of_uint F (v 1); f' = of_uint F (v 2) in
      if n = 2 then [DivLPF (3 * ch) 0 f, DivHPF (3 * ch + 1) 0 f]
      else if n = 3 then [DivLPF (3 * ch) 0 f, DivHPF (3 * ch + 1) 0 f, DivLPF (3 * ch + 1) 5 f', DivHPF (3 * ch + 2) 0 f'] else [])"
  have "list_all call_ok cs" using assms(3) by (simp add: cs_def Let_def)
  then obtain m' where m': "foldE (filter_call_run F) cs m = Inr m'" "eq_mem_ok m'" using calls_run_ok [OF _ e(3)] by blast
  define bk where "bk = (let bk = outsignalchannel_book24m3 e ! ch;
           bk = (if n < 3 then bk[2 := -1] else bk); bk = (if n < 2 then bk[1 := -1] else bk) in if n < 1 then bk[0 := -1] else bk)"
  have b: "length (outsignalchannel_book24m3 e) = 16" using e(1) by (simp add: eq_ok_def matrix_ok_def)
  have "length bk = 3" using e(1) assms(3) matrix_nth [of 16 3 "outsignalchannel_book24m3 e" ch] by (simp add: bk_def Let_def eq_ok_def)
  moreover have "list_all (\<lambda>r. r < 16) bk"
    using routes_ok_nth [OF e(2), of ch] b assms(3) by (simp add: bk_def Let_def list_all_update)
  ultimately have "division_state_ok (e\<lparr>divisionbandnum_set := (divisionbandnum_set e)[ch := n],
      outsignalchannel_book24m3 := (outsignalchannel_book24m3 e)[ch := bk], fc_division := (fc_division e)[ch := [of_uint F (v 1), of_uint F (v 2)]]\<rparr>, m')"
    using e(1,2) m'(2) by (simp add: division_state_ok_def eq_ok_def matrix_update routes_ok_update)
  moreover have "division_param F d ch em = bindE (foldE (filter_call_run F) cs m) (\<lambda>m. Inr (e\<lparr>divisionbandnum_set := (divisionbandnum_set e)[ch := n],
      outsignalchannel_book24m3 := (outsignalchannel_book24m3 e)[ch := bk], fc_division := (fc_division e)[ch := [of_uint F (v 1), of_uint F (v 2)]]\<rparr>, m))"
    unfolding division_param_def em
    using d(5,7) q u assms(3)
    by (simp add: get_at_ok get_at2_ok [OF q] v_def [symmetric] n_def [symmetric] Let_def bk_def cs_def
        del: foldE.simps foldE_single filter_call_run.simps)
  ultimately show ?thesis by (simp add: m'(1))
qed

lemma division_scan_ok: "length (divisionbandnum_set e) = 16 \<Longrightarrow> k \<le> 16 \<Longrightarrow> division_scan k e = Inr e"
  unfolding division_scan_def by (induction k) (simp_all add: foldE_append iget_ok)

lemma division_scan_overrun:
  assumes "length (divisionbandnum_set e) = 16" "16 < k"
  shows "division_scan k e = Inl (OutOfBounds ''divisionbandnum_set'')"
proof -
  have "[0..<k] = [0..<16] @ [16..<k]" using assms(2) upt_add_eq_append [of 0 16 "k - 16"] by simp
  then have u: "[0..<k] = [0..<16] @ 16 # [Suc 16..<k]" using upt_conv_Cons [OF assms(2)] by simp
  have "division_scan k e = bindE (division_scan 16 e)
      (foldE (\<lambda>i e. bindE (iget ''divisionbandnum_set'' (divisionbandnum_set e) (int i)) (\<lambda>n. Inr e)) (16 # [Suc 16..<k]))"
    unfolding division_scan_def u foldE_append ..
  with assms(1) show ?thesis by (simp add: division_scan_ok iget_def)
qed

text \<open>The invariant: the board is well formed, the transmitting DMA is inside its ring, the input table has existing pointers.\<close>

definition inputs_known :: "int list \<Rightarrow> bool" where
  "inputs_known ad \<longleftrightarrow> length ad = 8 \<and> list_all (\<lambda>c. -1 \<le> c \<and> c < 8) ad"

definition prog_ok :: "'f prog \<Rightarrow> bool" where
  "prog_ok p \<longleftrightarrow> board_ok (pb p) \<and> g_i_da_write_addr (pb p) < 4 \<and> AlignmentChannel (aux (par (pb p))) \<noteq> 0 \<and>
     inputs_known (g_i_ad_in (sel (pb p)))"

text \<open>
  Events: the DMA engine works on one of its four blocks, the input buffers have the size the code gives them, and a
  command names channels and ports that exist, the alignment command (row 4, column 9) not channel 0.
\<close>

definition command_ok :: "u32 \<Rightarrow> bool" where
  "command_ok w \<longleftrightarrow> safe_word w \<and> port_ok (decoder_row (getinstructiongroup w)) w \<and>
     (decoder_row (getinstructiongroup w) = 4 \<and> unat (getinstructionindexingroup w) = 9 \<longrightarrow> getpara1_unsignedint w \<noteq> 0)"

fun event_ok :: "prog_event \<Rightarrow> bool" where
  "event_ok (TxDone tcb cp) = (length tcb = 4 \<and> cp \<in> set tcb)"
| "event_ok (MainPass w adbuf spdifbuf dma) =
     (command_ok w \<and> matrix_ok 4 1024 adbuf \<and> matrix_ok 16 1024 spdifbuf \<and> 0 \<le> dma \<and> dma < 4)"
| "event_ok _ = True"

lemma selection_steps [simp]:
  "length (effect (select_code sys w s)) = length (effect s)" "g_i_ad_in (select_code sys w s) = g_i_ad_in s"
  "length (effect (start_fade F s)) = length (effect s)" "g_i_ad_in (start_fade F s) = g_i_ad_in s"
  "length (effect (end_fade F s)) = length (effect s)" "g_i_ad_in (end_fade F s) = g_i_ad_in s"
  by (simp_all add: select_code_def start_fade_def end_fade_def Let_def)

lemma input_setup_known: "input_setup t ad = Some (ad', calls) \<Longrightarrow> inputs_known ad \<Longrightarrow> inputs_known ad'"
  by (auto simp: input_setup_def inputs_known_def split: if_splits)

lemma Init_all_keeps:
  "length (effect (Init_all_input_types F sys w s)) = length (effect s)"
  "inputs_known (g_i_ad_in s) \<Longrightarrow> inputs_known (g_i_ad_in (Init_all_input_types F sys w s))"
  by (auto simp: Init_all_input_types_def switch_input_def Let_def split: option.splits dest: input_setup_known)

lemma spi_code_cases:
  assumes "dsp_ok s" "safe_word w"
  shows "\<exists>r' s'. handle_spi_code G w (r, s) = Inr (r', s') \<and> dsp_ok s' \<and> (s' = s \<or> handle_spi_raw_data G w s = Inr s')"
  using raw_data_ok [OF assms, of G] assms(1) by (auto simp: handle_spi_code_def Let_def sumP_ex)

lemma spi_pass_ok:
  assumes "prog_ok p" "command_ok w"
  shows "\<exists>p'. spi_pass F w p = Inr p' \<and> prog_ok p' \<and> EQflag p' = EQflag p"
proof -
  let ?b = "pb p" and ?r = "decoder_row (getinstructiongroup w)" and ?n = "unat (getinstructionindexingroup w)"
  have b: "board_ok ?b" "dsp_ok (par ?b)" "eq_mem_ok (fmem ?b)" "AlignmentChannel (aux (par ?b)) \<noteq> 0"
    using assms(1) by (simp_all add: prog_ok_def board_ok_def)
  have w: "safe_word w" "port_ok ?r w" "?r = 4 \<and> ?n = 9 \<longrightarrow> getpara1_unsignedint w \<noteq> 0" using assms(2) by (simp_all add: command_ok_def)
  obtain r' s' where h: "handle_spi_code (flt.truncate F) w (prx p, par ?b) = Inr (r', s')" "dsp_ok s'"
      "s' = par ?b \<or> handle_spi_raw_data (flt.truncate F) w (par ?b) = Inr s'"
    using spi_code_cases [OF b(2) w(1)] by blast
  then have "path_step ?r ?n w (par ?b) s'" using raw_data_path [OF _ w(1) b(2)] by auto
  then have s: "AlignmentChannel (aux s') \<noteq> 0" "delays_ok (Delaytime_samplenums s')" "routes_ok (outsignalchannel_book24m3 (eq s'))"
      "list_all call_ok (drop (length (filter_calls (eq (par ?b)))) (filter_calls (eq s')))"
    using b(1,4) w(2,3) by (auto simp: path_step_def board_ok_def)
  obtain m where m: "foldE (filter_call_run F) (drop (length (filter_calls (eq (par ?b)))) (filter_calls (eq s'))) (fmem ?b) = Inr m" "eq_mem_ok m"
    using calls_run_ok [OF s(4) b(3)] by blast
  with h(1,2) s assms(1) show ?thesis by (simp add: spi_pass_def Let_def prog_ok_def board_ok_def)
qed

lemma crossover_setup_ok:
  assumes "dsp_ok d" "routes_ok (outsignalchannel_book24m3 (eq d))" "eq_mem_ok m"
  shows "k \<le> 16 \<Longrightarrow> \<exists>e m'. sim_frequencydivisionfilter_outputparamset F k d m = Inr (d\<lparr>eq := e\<rparr>, m') \<and> division_state_ok (e, m')"
    and "16 < k \<Longrightarrow> sim_frequencydivisionfilter_outputparamset F k d m = Inl (OutOfBounds ''divisionbandnum_set'')"
proof -
  have "division_state_ok (eq d, m)" using assms(2,3) dsp_ok_parts(3) [OF assms(1)] by (simp add: division_state_ok_def)
  then have "\<exists>em. foldE (division_param F d) [0..<OUTPUT_CHANNELS] (eq d, m) = Inr em \<and> division_state_ok em"
    by (rule foldE_invariant) (rule division_param_ok [OF assms(1)]; simp add: c_consts del: upt_rec_numeral)
  then obtain e m' where em: "foldE (division_param F d) [0..<OUTPUT_CHANNELS] (eq d, m) = Inr (e, m')" "division_state_ok (e, m')" by auto
  moreover have "length (divisionbandnum_set e) = 16" using em(2) by (simp add: division_state_ok_def eq_ok_def)
  ultimately show "k \<le> 16 \<Longrightarrow> \<exists>e m'. sim_frequencydivisionfilter_outputparamset F k d m = Inr (d\<lparr>eq := e\<rparr>, m') \<and> division_state_ok (e, m')"
    "16 < k \<Longrightarrow> sim_frequencydivisionfilter_outputparamset F k d m = Inl (OutOfBounds ''divisionbandnum_set'')"
    by (auto simp: sim_frequencydivisionfilter_outputparamset_def division_scan_ok division_scan_overrun)
qed

lemma eq_setup_ok:
  assumes "prog_ok p" "EQflag p \<noteq> 0 \<or> k \<le> 16"
  shows "\<exists>p'. eq_setup F k p = Inr p' \<and> prog_ok p' \<and> EQflag p' \<noteq> 0"
proof (cases "EQflag p = 0")
  case True
  let ?d = "par (pb p)"
  have b: "dsp_ok ?d" "routes_ok (outsignalchannel_book24m3 (eq ?d))" "eq_mem_ok (fmem (pb p))" "delays_ok (Delaytime_samplenums ?d)"
    using assms(1) by (simp_all add: prog_ok_def board_ok_def)
  let ?m = "fill_eq F (total_gain F ?d) (low_cut ?d) (high_cut ?d) 14 (fmem (pb p))"
  have "eq_mem_ok ?m" using b(3) by (intro fill_eq_ok) simp_all
  then obtain e m' where e: "sim_frequencydivisionfilter_outputparamset F k ?d ?m = Inr (?d\<lparr>eq := e\<rparr>, m')" "division_state_ok (e, m')"
    using crossover_setup_ok(1) [OF b(1,2)] assms(2) True by blast
  with True assms(1) b(1) show ?thesis
    by (auto simp: eq_setup_def outputparamset_fill [OF b(1,3)] prog_ok_def board_ok_def division_state_ok_def dsp_ok_def)
qed (use assms(1) in \<open>simp add: eq_setup_def\<close>)

lemma known_inputs: "inputs_known ad \<Longrightarrow> matrix_ok n 1024 buf \<Longrightarrow> 4 \<le> n \<Longrightarrow> inputs_ok n buf ad"
  by (auto simp: inputs_known_def inputs_ok_def list_all_iff)

lemma input_pass_ok:
  assumes "biquad_sizes bq" "prog_ok p" "matrix_ok 4 1024 adbuf" "matrix_ok 16 1024 spdifbuf" "0 \<le> dma" "dma < 4"
  shows "\<exists>p'. input_pass F R bq adbuf spdifbuf dma p = Inr p' \<and> prog_ok p' \<and> EQflag p' = EQflag p"
proof -
  define b where "b = (pb p)\<lparr>sel := Init_all_input_types (flt.truncate F) (SystemState (aux (par (pb p)))) (g_spi_data (prx p)) (sel (pb p))\<rparr>"
  have b: "board_ok b" "g_i_da_write_addr b < 4 \<and> AlignmentChannel (aux (par b)) \<noteq> 0" "inputs_known (g_i_ad_in (sel b))"
    using assms(2) by (simp_all add: b_def prog_ok_def board_ok_def Init_all_keeps)
  note i = known_inputs [OF b(3)]
  obtain b' where b': "handle_all_input_data F bq adbuf spdifbuf dma R b = Inr b'" "board_ok b'" "g_i_ad_in (sel b') = g_i_ad_in (sel b)"
    using input_block_ok [OF assms(1) b(1) assms(5,6) i [OF assms(3)] i [OF assms(4)], of F R] b(2) by auto
  moreover have "settings b' = settings b" using input_settings [OF assms(1) b(1) _ b'(1)] b(2) by blast
  ultimately show ?thesis using b by (simp add: input_pass_def b_def [symmetric] Let_def prog_ok_def settings_def)
qed

lemma main_pass_ok:
  assumes "biquad_sizes bq" "prog_ok p" "EQflag p \<noteq> 0 \<or> k \<le> 16" "event_ok (MainPass w adbuf spdifbuf dma)"
  shows "\<exists>p'. main_pass F R bq k w adbuf spdifbuf dma p = Inr p' \<and> prog_ok p' \<and> (EQflag p' \<noteq> 0 \<or> k \<le> 16)"
proof (cases "g_init_done (par (pb p)) = 1")
  case False
  with spi_pass_ok [OF assms(2), of w F] assms(3,4) show ?thesis by (auto simp: main_pass_def)
next
  case True
  obtain p1 where 1: "eq_setup F k p = Inr p1" "prog_ok p1" "EQflag p1 \<noteq> 0" using eq_setup_ok [OF assms(2,3)] by blast
  obtain p2 where 2: "spi_pass F w p1 = Inr p2" "prog_ok p2" "EQflag p2 = EQflag p1" using spi_pass_ok [OF 1(2), of w] assms(4) by auto
  show ?thesis using True 1 2 input_pass_ok [OF assms(1) 2(2), of adbuf spdifbuf dma F R] assms(4) by (auto simp: main_pass_def)
qed

lemma tx_block: "cp \<in> set tcb \<Longrightarrow> get_current_dma_tx_block tcb cp < length tcb"
  unfolding get_current_dma_tx_block_def by (induction tcb) auto

lemma knob_parts: "Delaytime_samplenums (fst (knobvolume_SIGIRQ2 G x y s)) = Delaytime_samplenums s"
  "eq (fst (knobvolume_SIGIRQ2 G x y s)) = eq s" "aux (fst (knobvolume_SIGIRQ2 G x y s)) = aux s"
  by (simp_all add: knobvolume_SIGIRQ2_def Let_def upd_gen_def)

lemma prog_step_ok:
  assumes "biquad_sizes bq" "prog_ok p \<and> (EQflag p \<noteq> 0 \<or> k \<le> 16)" "event_ok e"
  shows "\<exists>p'. prog_step F R bq k e p = Inr p' \<and> prog_ok p' \<and> (EQflag p' \<noteq> 0 \<or> k \<le> 16)"
proof (cases e)
  case (TxDone tcb cp)
  with assms(2,3) tx_block [of cp tcb] show ?thesis
    by (auto simp: prog_step_def SP0ADCSend_ISR_def prog_ok_def board_ok_def set_interrupt_times_def)
next
  case (KnobTurn x y)
  with assms(2) knob_volume_state(2) [of "par (pb p)" "flt.truncate F" x y] show ?thesis
    by (auto simp: prog_step_def prog_ok_def board_ok_def knob_parts)
next
  case (MainPass w adbuf spdifbuf dma)
  with main_pass_ok [OF assms(1), of p k w adbuf spdifbuf dma F R] assms(2,3) show ?thesis by (simp add: prog_step_def)
qed (use assms(2) in \<open>auto simp: prog_step_def prog_ok_def board_ok_def SP6ADCRcv_ISR_def\<close>)

definition prog_run :: "('f, 'z) dspflt_scheme \<Rightarrow> libc_rand \<Rightarrow> 'f biquad \<Rightarrow> nat \<Rightarrow> prog_event list \<Rightarrow> 'f prog \<Rightarrow> fault + 'f prog" where
  "prog_run F R bq k = foldE (prog_step F R bq k)"

lemma main_pass_overrun:
  assumes "prog_ok p" "EQflag p = 0" "16 < k" "g_init_done (par (pb p)) = 1"
  shows "main_pass F R bq k w adbuf spdifbuf dma p = Inl (OutOfBounds ''divisionbandnum_set'')"
proof -
  let ?d = "par (pb p)" let ?m = "fill_eq F (total_gain F ?d) (low_cut ?d) (high_cut ?d) 14 (fmem (pb p))"
  have b: "dsp_ok ?d" "routes_ok (outsignalchannel_book24m3 (eq ?d))" "eq_mem_ok (fmem (pb p))"
    using assms(1) by (simp_all add: prog_ok_def board_ok_def)
  have "eq_mem_ok ?m" using b(3) by (intro fill_eq_ok) simp_all
  from crossover_setup_ok(2) [OF b(1,2) this assms(3), of F] assms(2,4) show ?thesis
    by (simp add: main_pass_def eq_setup_def outputparamset_fill [OF b(1,3)])
qed

lemma prog_step_before:
  assumes "biquad_sizes bq" "prog_ok p" "event_ok e" "EQflag p = 0" "16 < k"
  shows "prog_step F R bq k e p = Inl (OutOfBounds ''divisionbandnum_set'') \<or> (\<exists>p'. prog_step F R bq k e p = Inr p' \<and> prog_ok p')"
proof (cases "\<exists>w a s d. e = MainPass w a s d \<and> g_init_done (par (pb p)) = 1")
  case True
  with main_pass_overrun [OF assms(2,4,5)] show ?thesis by (auto simp: prog_step_def)
next
  case False
  then have "prog_step F R bq k e p = prog_step F R bq 16 e p" by (cases e) (simp_all add: prog_step_def main_pass_def)
  with prog_step_ok [OF assms(1), of p 16 e F R] assms(2,3) show ?thesis by auto
qed

lemma prog_run_ok:
  assumes "biquad_sizes bq" "prog_ok p" "EQflag p \<noteq> 0 \<or> k \<le> 16" "list_all event_ok es"
  shows "\<exists>p'. prog_run F R bq k es p = Inr p' \<and> prog_ok p'"
proof -
  have "\<exists>p'. foldE (prog_step F R bq k) es p = Inr p' \<and> (prog_ok p' \<and> (EQflag p' \<noteq> 0 \<or> k \<le> 16))"
    using assms by (intro foldE_invariant prog_step_ok) (auto simp: list_all_iff)
  then show ?thesis by (auto simp: prog_run_def)
qed

lemma prog_run_overrun:
  assumes "biquad_sizes bq" "prog_ok p" "list_all event_ok es" "EQflag p = 0" "16 < k"
  shows "prog_run F R bq k es p = Inl (OutOfBounds ''divisionbandnum_set'') \<or> (\<exists>p'. prog_run F R bq k es p = Inr p' \<and> prog_ok p')"
  using assms(2-4)
proof (induction es arbitrary: p)
  case (Cons e es)
  then have e: "event_ok e" "list_all event_ok es" by simp_all
  from prog_step_before [OF assms(1) Cons.prems(1) e(1) Cons.prems(3) assms(5), of F R]
  consider "prog_step F R bq k e p = Inl (OutOfBounds ''divisionbandnum_set'')" | p' where "prog_step F R bq k e p = Inr p'" "prog_ok p'" by blast
  then show ?case
  proof cases
    case (2 p')
    then show ?thesis using Cons.IH [OF 2(2) e(2)] prog_run_ok [OF assms(1) 2(2) _ e(2), of k F R] by (cases "EQflag p' = 0") (auto simp: prog_run_def)
  qed (simp add: prog_run_def)
qed (simp add: prog_run_def)

lemma start_output_ok: "out_ok q \<Longrightarrow> out_ok (start_output F q)"
  by (auto simp: out_ok_def start_output_def matrix_ok_def overlay_def dest: in_set_dropD)

lemma start_params_ok:
  assumes "dsp_ok d"
  shows "dsp_ok (start_params F d)"
proof -
  note d = dsp_ok_parts [OF assms]
  have g: "gen_ok (gen (start_params F d))" using d(1) by (auto simp: start_params_def gen_ok_def matrix_ok_def)
  have "aux_ok (aux (start_params F d))" using d(2) by (simp add: start_params_def aux_ok_def c_consts)
  then show ?thesis using assms g
    by (auto simp: dsp_ok_def start_params_def start_output_ok dest: in_set_dropD)
qed

lemma main_init_ok:
  "\<exists>p. main_init F 16 = Inr p \<and> prog_ok p \<and> EQflag p = 0 \<and> prx p = rx_reset"
  "main_init F 24 = Inl (OutOfBounds ''divisionbandnum_set'')"
proof -
  let ?b = "board_reset F (flt.truncate F)"
  have b: "board_ok ?b" by (rule board_reset_ok)
  then have e: "eq_ok (eq (par ?b))" and m: "eq_mem_ok (fmem ?b)" and d: "dsp_ok (par ?b)"
    by (auto simp: board_ok_def dsp_ok_def)
  define m1 where "m1 = zero_filterstate F (fill_eq F (\<lambda>_ b. GEQ31band_gain F ! (b - 1)) (start_lo F) (start_hi F) 24 (fmem ?b))"
  have "eq_mem_ok (fill_eq F (\<lambda>_ b. GEQ31band_gain F ! (b - 1)) (start_lo F) (start_hi F) 24 (fmem ?b))" by (rule fill_eq_ok [OF m]) simp
  then have m1: "eq_mem_ok m1" by (simp add: m1_def zero_filterstate_def Let_def eq_mem_ok_def)
  have init: "main_init F k = bindE (foldE (division_filter F (eq (par ?b))) [0..<k] m1)
      (\<lambda>m. Inr \<lparr>pb = ?b\<lparr>fmem := m, par := start_params F (par ?b)\<rparr>, prx = rx_reset, EQflag = 0\<rparr>)" for k
    by (simp add: main_init_def sim_31band_EQ_fill [OF m] m1_def Let_def)
  note o = init_divisionfilter_overrun [OF e m1, of F]
  then obtain m' where m': "foldE (division_filter F (eq (par ?b))) [0..<16] m1 = Inr m'" "eq_mem_ok m'" by blast
  have p: "AlignmentChannel (aux (start_params F (par ?b))) \<noteq> 0" "Delaytime_samplenums (start_params F (par ?b)) = Delaytime_samplenums (par ?b)"
    "eq (start_params F (par ?b)) = eq (par ?b)" by (simp_all add: start_params_def)
  have "prog_ok \<lparr>pb = ?b\<lparr>fmem := m', par := start_params F (par ?b)\<rparr>, prx = rx_reset, EQflag = 0\<rparr>"
    using b m'(2) start_params_ok [OF d, of F] p
    by (simp add: prog_ok_def board_ok_def) (simp add: inputs_known_def board_reset_def Let_def insel_reset_def)
  then show "\<exists>p. main_init F 16 = Inr p \<and> prog_ok p \<and> EQflag p = 0 \<and> prx p = rx_reset" unfolding init m'(1) by simp
  show "main_init F 24 = Inl (OutOfBounds ''divisionbandnum_set'')"
    using o unfolding init init_divisionfilter_def by simp
qed

text \<open>
  C8: safety of the program of the DSP. From every state of the invariant, any interleaving of interrupts and passes of the main loop whose commands name existing
  channels and ports runs, whatever the samples are, without an access out of bounds and keeps the invariant, but for one access: with the loop bound 24 of the code
  the set-up of the crossover, in the first pass of the main loop after initialisation (\<open>EQflag\<close> is 0), reads behind \<open>divisionbandnum_set\<close>, always. Once
  that pass is over there is none, and with the bound 16 of the tables there is none from the start.
\<close>

theorem dsp_program_safe:
  assumes "biquad_sizes bq" "prog_ok p" "list_all event_ok es"
  shows "(prog_run F R bq 24 es p = Inl (OutOfBounds ''divisionbandnum_set'') \<and> EQflag p = 0 \<or> (\<exists>p'. prog_run F R bq 24 es p = Inr p' \<and> prog_ok p')) \<and>
    (EQflag p = 0 \<and> g_init_done (par (pb p)) = 1 \<longrightarrow>
      (\<forall>w adbuf spdifbuf dma. main_pass F R bq 24 w adbuf spdifbuf dma p = Inl (OutOfBounds ''divisionbandnum_set''))) \<and>
    (k \<le> 16 \<longrightarrow> (\<exists>p'. prog_run F R bq k es p = Inr p' \<and> prog_ok p'))"
proof (intro conjI impI allI)
  show "prog_run F R bq 24 es p = Inl (OutOfBounds ''divisionbandnum_set'') \<and> EQflag p = 0 \<or> (\<exists>p'. prog_run F R bq 24 es p = Inr p' \<and> prog_ok p')"
  proof (cases "EQflag p = 0")
    case True
    with prog_run_overrun [OF assms True, of 24 F R] show ?thesis by simp
  next
    case False
    with prog_run_ok [OF assms(1,2) _ assms(3), of 24 F R] show ?thesis by simp
  qed
  show "k \<le> 16 \<Longrightarrow> \<exists>p'. prog_run F R bq k es p = Inr p' \<and> prog_ok p'" using prog_run_ok [OF assms(1,2) _ assms(3), of k F R] by simp
  fix w adbuf spdifbuf dma
  assume "EQflag p = 0 \<and> g_init_done (par (pb p)) = 1"
  then show "main_pass F R bq 24 w adbuf spdifbuf dma p = Inl (OutOfBounds ''divisionbandnum_set'')" by (intro main_pass_overrun assms(2)) simp_all
qed

definition start_events :: "prog_event list" where
  "start_events = [SpiWord 0x34000000, MainPass 0x34000000 (replicate 4 (replicate 1024 0)) (replicate 16 (replicate 1024 0)) 0,
     KnobTurn True False, TxDone [100, 200, 300, 400] 300, RxDone,
     MainPass 0 (replicate 4 (replicate 1024 8388607)) (replicate 16 (replicate 1024 0)) 1]"

theorem dsp_program_safe_witness:
  "\<exists>p p' q. main_init real_dspflt 16 = Inr p \<and> prog_run real_dspflt lcg df2_bq 16 start_events p = Inr p' \<and> prog_ok p' \<and>
     prog_run real_dspflt lcg df2_bq 24 start_events (p\<lparr>EQflag := 1\<rparr>) = Inr q \<and> prog_ok q"
proof -
  have w: "command_ok 0x34000000" "command_ok 0" by code_simp+
  then have e: "list_all event_ok start_events" by (simp add: start_events_def matrix_ok_def)
  obtain p where p: "main_init real_dspflt 16 = Inr p" "prog_ok p" using main_init_ok(1) by blast
  then have p1: "prog_ok (p\<lparr>EQflag := 1\<rparr>)" by (simp add: prog_ok_def)
  from dsp_program_safe [OF df2_sizes p(2) e, of real_dspflt lcg 16] p obtain p' where
    "prog_run real_dspflt lcg df2_bq 16 start_events p = Inr p'" "prog_ok p'" by auto
  moreover from dsp_program_safe [OF df2_sizes p1 e, of real_dspflt lcg 16] obtain q where
    "prog_run real_dspflt lcg df2_bq 24 start_events (p\<lparr>EQflag := 1\<rparr>) = Inr q" "prog_ok q" by auto
  ultimately show ?thesis using p(1) by blast
qed

text \<open>
  C37: the start of the DSP. With the loop bounds of its tables \<open>main\<close> ends its set-up in a state of the invariant; with the
  24 of the code it reads behind \<open>divisionbandnum_set\<close>.
\<close>

theorem main_start:
  "(\<exists>p. main_init F 16 = Inr p \<and> prog_ok p) \<and> main_init F 24 = Inl (OutOfBounds ''divisionbandnum_set'')"
  using main_init_ok [of F] by blast

end
