(* ===== verification/Sha256.thy ===== *)
theory Sha256
  imports Prelude950
begin

text \<open>
  \<open>create_sha256\<close> of \<open>SHA204A/Sha256_atmel.c\<close>, with which the firmware checks the answer of its authentication chip, and the Secure
  Hash Standard (FIPS 180-4) as a reference.
\<close>

section \<open>The code\<close>

definition rotate_right :: "u32 \<Rightarrow> nat \<Rightarrow> u32" where
  "rotate_right value places = drop_bit places value OR push_bit (32 - places) value"

definition sha_hash :: "u32 list" where
  "sha_hash = [0x6a09e667, 0xbb67ae85, 0x3c6ef372, 0xa54ff53a, 0x510e527f, 0x9b05688c, 0x1f83d9ab, 0x5be0cd19]"

definition sha_k :: "u32 list" where
  "sha_k = [
    0x428a2f98, 0x71374491, 0xb5c0fbcf, 0xe9b5dba5, 0x3956c25b, 0x59f111f1, 0x923f82a4, 0xab1c5ed5,
    0xd807aa98, 0x12835b01, 0x243185be, 0x550c7dc3, 0x72be5d74, 0x80deb1fe, 0x9bdc06a7, 0xc19bf174,
    0xe49b69c1, 0xefbe4786, 0x0fc19dc6, 0x240ca1cc, 0x2de92c6f, 0x4a7484aa, 0x5cb0a9dc, 0x76f988da,
    0x983e5152, 0xa831c66d, 0xb00327c8, 0xbf597fc7, 0xc6e00bf3, 0xd5a79147, 0x06ca6351, 0x14292967,
    0x27b70a85, 0x2e1b2138, 0x4d2c6dfc, 0x53380d13, 0x650a7354, 0x766a0abb, 0x81c2c92e, 0x92722c85,
    0xa2bfe8a1, 0xa81a664b, 0xc24b8b70, 0xc76c51a3, 0xd192e819, 0xd6990624, 0xf40e3585, 0x106aa070,
    0x19a4c116, 0x1e376c08, 0x2748774c, 0x34b0bcb5, 0x391c0cb3, 0x4ed8aa4a, 0x5b9cca4f, 0x682e6ff3,
    0x748f82ee, 0x78a5636f, 0x84c87814, 0x8cc70208, 0x90befffa, 0xa4506ceb, 0xbef9a3f7, 0xc67178f2]"

text \<open>
  The end of the message: \<open>wi\<close> is the index of the next word. \<open>w\<close> is the array \<open>w_word\<close> of 64 words; the length is written to the word behind the padding,
  which is number 15 unless the message fills the chunk up to there.
\<close>

definition pad_chunk :: "nat \<Rightarrow> nat \<Rightarrow> u32 list \<Rightarrow> u32 list" where
  "pad_chunk len wi w =
     (let w = w[wi := 0x80000000];
          w = foldl (\<lambda>w i. w[i := 0]) w [Suc wi..<15]
      in w[max (Suc wi) 15 := of_nat (len * 8)])"

datatype sha_fault = BehindMessage

text \<open>
  The \<open>do\<close> loop that copies a chunk, four bytes at a time in reverse order into the bytes of a word, from message index \<open>mi\<close> to
  byte index \<open>wi\<close>. A read behind the message is a fault.
\<close>

function fill_chunk :: "u8 list \<Rightarrow> nat \<Rightarrow> nat \<Rightarrow> nat \<Rightarrow> u32 list \<Rightarrow> sha_fault + nat \<times> u32 list" where
  "fill_chunk message len mi wi w =
     (if mi < len then
        if mi + 3 < length message then
          let w = w[wi div 4 := be_word (message ! mi, message ! (mi + 1), message ! (mi + 2), message ! (mi + 3))]
          in if (mi + 4) mod 64 \<noteq> 0 then fill_chunk message len (mi + 4) (wi + 4) w else Inr (mi + 4, w)
        else Inl BehindMessage
      else Inr (mi + 64, pad_chunk len (wi div 4) w))"
  by pat_completeness auto
termination by (relation "measure (\<lambda>(message, len, mi, wi, w). len - mi)") auto

definition expand_word :: "u32 list \<Rightarrow> nat \<Rightarrow> u32 list" where
  "expand_word w i =
     (let v = w ! (i - 15);
          s0 = rotate_right v 7 XOR rotate_right v 18 XOR drop_bit 3 v;
          v = w ! (i - 2);
          s1 = rotate_right v 17 XOR rotate_right v 19 XOR drop_bit 10 v
      in w[i := w ! (i - 16) + s0 + w ! (i - 7) + s1])"

definition hash_round :: "u32 list \<Rightarrow> u32 list \<Rightarrow> nat \<Rightarrow> u32 list" where
  "hash_round w r i =
     (let s0 = rotate_right (r ! 0) 2 XOR rotate_right (r ! 0) 13 XOR rotate_right (r ! 0) 22;
          maj = (r ! 0 AND r ! 1) XOR (r ! 0 AND r ! 2) XOR (r ! 1 AND r ! 2);
          t2 = s0 + maj;
          s1 = rotate_right (r ! 4) 6 XOR rotate_right (r ! 4) 11 XOR rotate_right (r ! 4) 25;
          ch = (r ! 4 AND r ! 5) XOR (NOT (r ! 4) AND r ! 6);
          t1 = r ! 7 + s1 + ch + sha_k ! i + w ! i
      in [t1 + t2, r ! 0, r ! 1, r ! 2, r ! 3 + t1, r ! 4, r ! 5, r ! 6])"

definition hash_chunk :: "u32 list \<Rightarrow> u32 list \<Rightarrow> u32 list \<times> u32 list" where
  "hash_chunk w hash =
     (let w = foldl expand_word w [16..<64] in (w, map2 (+) hash (foldl (hash_round w) hash [0..<64])))"

lemma fill_chunk_index: "fill_chunk message len mi wi w = Inr (mi', w') \<Longrightarrow> mi < mi'"
  by (induction message len mi wi w rule: fill_chunk.induct) (auto simp: Let_def split: if_splits)

function sha_loop :: "u8 list \<Rightarrow> nat \<Rightarrow> nat \<Rightarrow> u32 list \<Rightarrow> u32 list \<Rightarrow> sha_fault + u32 list" where
  "sha_loop message len mi w hash =
     (if mi < len + 12 then
        case fill_chunk message len mi 0 w of
          Inl e \<Rightarrow> Inl e
        | Inr (mi', w') \<Rightarrow> sha_loop message len mi' (fst (hash_chunk w' hash)) (snd (hash_chunk w' hash))
      else Inr hash)"
  by pat_completeness auto
termination by (relation "measure (\<lambda>(message, len, mi, w, hash). len + 12 - mi)") (auto dest!: fill_chunk_index simp del: fill_chunk.simps)

definition digest_bytes :: "u32 \<Rightarrow> u8 list" where
  "digest_bytes h = [ucast (drop_bit 24 h), ucast (drop_bit 16 h), ucast (drop_bit 8 h), ucast h]"

text \<open>\<open>w\<close> is what the array on the stack holds at the call.\<close>

definition create_sha256 :: "u32 list \<Rightarrow> nat \<Rightarrow> u8 list \<Rightarrow> sha_fault + u8 list" where
  "create_sha256 w len message = map_sum id (\<lambda>hash. concat (map digest_bytes hash)) (sha_loop message len 0 w sha_hash)"

section \<open>The standard\<close>

text \<open>FIPS 180-4: functions (4.1.2), padding (5.1.1), schedule and compression (6.2.2).\<close>

definition Ch :: "u32 \<Rightarrow> u32 \<Rightarrow> u32 \<Rightarrow> u32" where
  "Ch x y z = (x AND y) XOR (NOT x AND z)"

definition Maj :: "u32 \<Rightarrow> u32 \<Rightarrow> u32 \<Rightarrow> u32" where
  "Maj x y z = (x AND y) XOR (x AND z) XOR (y AND z)"

definition Sigma0 :: "u32 \<Rightarrow> u32" where
  "Sigma0 x = word_rotr 2 x XOR word_rotr 13 x XOR word_rotr 22 x"

definition Sigma1 :: "u32 \<Rightarrow> u32" where
  "Sigma1 x = word_rotr 6 x XOR word_rotr 11 x XOR word_rotr 25 x"

definition sigma0 :: "u32 \<Rightarrow> u32" where
  "sigma0 x = word_rotr 7 x XOR word_rotr 18 x XOR drop_bit 3 x"

definition sigma1 :: "u32 \<Rightarrow> u32" where
  "sigma1 x = word_rotr 17 x XOR word_rotr 19 x XOR drop_bit 10 x"

fun sched :: "u32 list \<Rightarrow> nat \<Rightarrow> u32" where
  "sched M t = (if t < 16 then M ! t
     else sigma1 (sched M (t - 2)) + sched M (t - 7) + sigma0 (sched M (t - 15)) + sched M (t - 16))"

type_synonym chain = "u32 \<times> u32 \<times> u32 \<times> u32 \<times> u32 \<times> u32 \<times> u32 \<times> u32"

definition compress_step :: "u32 list \<Rightarrow> chain \<Rightarrow> nat \<Rightarrow> chain" where
  "compress_step M = (\<lambda>(a, b, c, d, e, f, g, h) t.
     let T1 = h + Sigma1 e + Ch e f g + sha_k ! t + sched M t; T2 = Sigma0 a + Maj a b c
     in (T1 + T2, a, b, c, d + T1, e, f, g))"

definition chain_of :: "u32 list \<Rightarrow> chain" where
  "chain_of h = (h ! 0, h ! 1, h ! 2, h ! 3, h ! 4, h ! 5, h ! 6, h ! 7)"

definition of_chain :: "chain \<Rightarrow> u32 list" where
  "of_chain = (\<lambda>(a, b, c, d, e, f, g, h). [a, b, c, d, e, f, g, h])"

definition compress :: "u32 list \<Rightarrow> u32 list \<Rightarrow> u32 list" where
  "compress H M = map2 (+) (of_chain (foldl (compress_step M) (chain_of H) [0..<64])) H"

text \<open>A 1 bit, the least number of zeros that leaves 64 bits of the last block, and the length in bits.\<close>

definition zero_bytes :: "nat \<Rightarrow> nat" where
  "zero_bytes n = (119 - n mod 64) mod 64"

lemma zero_bytes_least: "(n + 1 + k) mod 64 = 56 \<Longrightarrow> zero_bytes n \<le> k" "(n + 1 + zero_bytes n) mod 64 = 56"
proof -
  define r where "r = n mod 64"
  have r: "r < 64" by (simp add: r_def)
  have m: "(n + 1 + k) mod 64 = (r + 1 + k) mod 64" for k unfolding r_def add.assoc by (simp only: mod_add_left_eq)
  have z: "zero_bytes n = (if r \<le> 55 then 55 - r else 119 - r)"
    using r mod_less [of "119 - r" 64] le_mod_geq [of 64 "119 - r"] unfolding zero_bytes_def r_def [symmetric] by auto
  show "zero_bytes n \<le> k" if "(n + 1 + k) mod 64 = 56"
  proof (rule ccontr)
    assume "\<not> zero_bytes n \<le> k"
    then have "r + 1 + k < 56 \<or> 57 \<le> r + 1 + k \<and> r + 1 + k < 120" using z r by (auto split: if_splits)
    moreover have "(r + 1 + k) mod 64 = 56" using that m by simp
    ultimately show False by (cases "r + 1 + k < 64") (auto simp: le_mod_geq)
  qed
  show "(n + 1 + zero_bytes n) mod 64 = 56" using r unfolding m z by (simp add: mod_if)
qed

definition length_bytes :: "nat \<Rightarrow> u8 list" where
  "length_bytes n = map (\<lambda>i. of_nat (8 * n div 256 ^ (7 - i))) [0..<8]"

definition sha_pad :: "u8 list \<Rightarrow> u8 list" where
  "sha_pad m = m @ [0x80] @ replicate (zero_bytes (length m)) 0 @ length_bytes (length m)"

fun be_words :: "u8 list \<Rightarrow> u32 list" where
  "be_words (a # b # c # d # bs) = be_word (a, b, c, d) # be_words bs"
| "be_words _ = []"

function sha_blocks :: "u8 list \<Rightarrow> u32 list list" where
  "sha_blocks bs = (if length bs < 64 then [] else be_words (take 64 bs) # sha_blocks (drop 64 bs))"
  by pat_completeness auto
termination by (relation "measure length") auto

definition sha256 :: "u8 list \<Rightarrow> u8 list" where
  "sha256 m = concat (map digest_bytes (foldl compress sha_hash (sha_blocks (sha_pad m))))"

declare fill_chunk.simps [simp del] sha_loop.simps [simp del] sched.simps [simp del] sha_blocks.simps [simp del]

section \<open>The constants\<close>

text \<open>The bits behind the point of a root \<open>n / 2 ^ 32\<close> of a prime.\<close>

definition root_bits :: "nat \<Rightarrow> nat \<Rightarrow> u32 \<Rightarrow> bool" where
  "root_bits e p x \<longleftrightarrow> (\<exists>n. n ^ e \<le> p * 2 ^ (32 * e) \<and> p * 2 ^ (32 * e) < (n + 1) ^ e \<and> x = of_nat n)"

definition primes64 :: "nat list" where
  "primes64 = [2, 3, 5, 7, 11, 13, 17, 19, 23, 29, 31, 37, 41, 43, 47, 53, 59, 61, 67, 71, 73, 79, 83, 89, 97, 101, 103, 107, 109, 113,
     127, 131, 137, 139, 149, 151, 157, 163, 167, 173, 179, 181, 191, 193, 197, 199, 211, 223, 227, 229, 233, 239, 241, 251, 257, 263,
     269, 271, 277, 281, 283, 293, 307, 311]"

lemma root_bitsI: "n ^ e \<le> p * 2 ^ (32 * e) \<Longrightarrow> p * 2 ^ (32 * e) < (n + 1) ^ e \<Longrightarrow> root_bits e p (of_nat n)"
  by (auto simp: root_bits_def)

definition int_root :: "nat \<Rightarrow> nat \<Rightarrow> nat" where
  "int_root e p = (if 7 ^ e \<le> p then 7 else if 6 ^ e \<le> p then 6 else if 5 ^ e \<le> p then 5 else if 4 ^ e \<le> p then 4
     else if 3 ^ e \<le> p then 3 else if 2 ^ e \<le> p then 2 else 1)"

lemma root_bits_check:
  assumes "let n = int_root e p * 2 ^ 32 + unat x in n ^ e \<le> p * 2 ^ (32 * e) \<and> p * 2 ^ (32 * e) < (n + 1) ^ e"
  shows "root_bits e p x"
proof -
  have z: "(2 :: u32) ^ 32 = 0" by simp
  have "(of_nat (int_root e p * 2 ^ 32 + unat x) :: u32) = x"
    unfolding of_nat_add of_nat_mult of_nat_power of_nat_numeral z by simp
  then show ?thesis using assms root_bitsI [of "int_root e p * 2 ^ 32 + unat x" e p] by (simp add: Let_def)
qed

lemma cube_roots: "list_all2 (root_bits 3) primes64 sha_k"
  unfolding primes64_def sha_k_def list_all2_Cons list_all2_Nil
  by (intro conjI TrueI root_bits_check; simp add: int_root_def)

lemma square_roots: "list_all2 (root_bits 2) (take 8 primes64) sha_hash"
  unfolding primes64_def sha_hash_def take_Cons_numeral list_all2_Cons list_all2_Nil
  by (simp add: list_all2_Cons, intro conjI TrueI root_bits_check; simp add: int_root_def)

section \<open>One chunk\<close>

lemma rotate_right_rotr: "places < 32 \<Longrightarrow> rotate_right x places = word_rotr places x"
proof (rule bit_word_eqI)
  fix n assume n: "n < LENGTH(32)" and p: "places < 32"
  have "\<not> bit x m" if "32 \<le> m" for m using that by (auto dest: bit_imp_le_length)
  with n p show "bit (rotate_right x places) n = bit (word_rotr places x) n"
    by (cases "n + places < 32")
      (auto simp: rotate_right_def bit_word_rotr_iff bit_or_iff bit_drop_bit_eq bit_push_bit_iff add.commute [of places] mod_if)
qed

lemma expand_step:
  assumes "16 \<le> n" "\<And>t. t < n \<Longrightarrow> u ! t = sched M t"
  shows "expand_word u n = u[n := sched M n]"
proof -
  have "u ! (n - 15) = sched M (n - 15)" "u ! (n - 2) = sched M (n - 2)" "u ! (n - 16) = sched M (n - 16)" "u ! (n - 7) = sched M (n - 7)"
    using assms(1) by (auto intro: assms(2))
  note u = this
  have "sched M n = sched M (n - 16) + sigma0 (sched M (n - 15)) + sched M (n - 7) + sigma1 (sched M (n - 2))"
    unfolding sched.simps [of M n] using assms(1) by (simp add: ac_simps)
  then show ?thesis by (simp add: expand_word_def Let_def u sigma0_def sigma1_def rotate_right_rotr)
qed

lemma expand_sched:
  assumes "length w = 64" "take 16 w = M" "16 \<le> n" "n \<le> 64"
  shows "length (foldl expand_word w [16..<n]) = 64 \<and> (\<forall>t < n. foldl expand_word w [16..<n] ! t = sched M t)"
  using assms(3,4)
proof (induction rule: dec_induct)
  case base
  have "w ! t = M ! t" if "t < 16" for t using that by (simp flip: assms(2))
  then show ?case using assms(1) by (simp add: sched.simps)
next
  case (step n)
  let ?w = "foldl expand_word w [16..<n]"
  have w: "length ?w = 64" "\<And>t. t < n \<Longrightarrow> ?w ! t = sched M t" using step by auto
  have e: "expand_word ?w n = ?w[n := sched M n]" by (rule expand_step [OF step.hyps(1) w(2)])
  have "expand_word ?w n ! t = sched M t" if "t < Suc n" for t
    using that w step.prems unfolding e by (cases "t = n") simp_all
  then show ?case using w(1) step.hyps(1) e by simp
qed

lemma hash_round_step:
  assumes "length r = 8" "w ! i = sched M i"
  shows "hash_round w r i = of_chain (compress_step M (chain_of r) i)" "length (hash_round w r i) = 8"
  using assms(2)
  by (simp_all add: hash_round_def compress_step_def chain_of_def of_chain_def Let_def Ch_def Maj_def Sigma0_def Sigma1_def rotate_right_rotr)

lemma chain_of_chain [simp]: "chain_of (of_chain c) = c"
  by (simp add: chain_of_def of_chain_def split: prod.splits)

lemma of_chain_of: "length r = 8 \<Longrightarrow> of_chain (chain_of r) = r"
  by (auto simp: chain_of_def of_chain_def numeral_eq_Suc length_Suc_conv)

lemma rounds:
  assumes "length h = 8" "\<And>t. t < n \<Longrightarrow> w ! t = sched M t"
  shows "foldl (hash_round w) h [0..<n] = of_chain (foldl (compress_step M) (chain_of h) [0..<n])"
  using assms(2)
proof (induction n)
  case 0
  show ?case using of_chain_of [OF assms(1)] by simp
next
  case (Suc n)
  have "length (of_chain (foldl (compress_step M) (chain_of h) [0..<n])) = 8" by (simp add: of_chain_def split: prod.split)
  then show ?case using Suc hash_round_step(1) [of _ w n M] by simp
qed

lemma hash_chunk_compress:
  assumes "length w = 64" "take 16 w = M" "length h = 8"
  shows "snd (hash_chunk w h) = compress h M" "length (fst (hash_chunk w h)) = 64" "length (compress h M) = 8"
proof -
  note e = expand_sched [OF assms(1,2), of 64]
  show "snd (hash_chunk w h) = compress h M"
    using rounds [OF assms(3), of 64 "foldl expand_word w [16..<64]" M] e assms(3)
    by (simp add: hash_chunk_def Let_def compress_def zip_commute [of h] split_beta add.commute del: upt_rec_numeral)
  show "length (fst (hash_chunk w h)) = 64" using e by (simp add: hash_chunk_def Let_def del: upt_rec_numeral)
  show "length (compress h M) = 8" using assms(3) by (simp add: compress_def of_chain_def split: prod.split)
qed

section \<open>Filling a chunk\<close>

definition msg_word :: "u8 list \<Rightarrow> nat \<Rightarrow> nat \<Rightarrow> u32" where
  "msg_word bs base t = be_word (bs ! (base + 4 * t), bs ! (base + 4 * t + 1), bs ! (base + 4 * t + 2), bs ! (base + 4 * t + 3))"

lemma be_words_map: "be_words bs = map (msg_word bs 0) [0..<length bs div 4]"
proof (induction bs rule: be_words.induct)
  case (1 a b c d bs)
  let ?x = "a # b # c # d # bs"
  have "map (msg_word ?x 0) [0..<Suc (length bs div 4)] = msg_word ?x 0 0 # map (\<lambda>t. msg_word ?x 0 (Suc t)) [0..<length bs div 4]"
    by (simp add: upt_conv_Cons map_Suc_upt [symmetric] comp_def del: upt_Suc)
  also have "\<dots> = be_word (a, b, c, d) # be_words bs" unfolding 1 by (simp add: msg_word_def ac_simps)
  finally have e: "map (msg_word ?x 0) [0..<Suc (length bs div 4)] = be_word (a, b, c, d) # be_words bs" .
  have "length ?x div 4 = Suc (length bs div 4)" by (simp add: div_add_self1)
  then show ?case unfolding be_words.simps(1) by (simp only: e)
qed simp_all

lemma foldl_update:
  "\<lbrakk>j \<le> n; n \<le> length w\<rbrakk> \<Longrightarrow> foldl (\<lambda>w t. w[t := f t]) w [j..<n] = take j w @ map f [j..<n] @ drop n w"
proof (induction rule: dec_induct)
  case (step n)
  then have "drop n w = w ! n # drop (Suc n) w" by (simp add: Cons_nth_drop_Suc)
  with step show ?case by (simp add: list_update_append)
qed simp

text \<open>The words \<open>j\<close> to \<open>n\<close> are copied from the message.\<close>

lemma fill_words:
  assumes "64 dvd base" "base + 4 * n \<le> len" "len \<le> length message" "j \<le> n" "n < 16"
  shows "fill_chunk message len (base + 4 * j) (4 * j) w =
    fill_chunk message len (base + 4 * n) (4 * n) (foldl (\<lambda>w t. w[t := msg_word message base t]) w [j..<n])"
  using assms(4)
proof (induction j arbitrary: w rule: inc_induct)
  case (step j)
  let ?w = "w[j := msg_word message base j]"
  obtain k where k: "base = 64 * k" using assms(1) by blast
  have "4 * j + 4 < 64" using step.hyps assms(5) by simp
  then have "\<not> 64 dvd 4 * j + 4" by (intro nat_dvd_not_less) simp_all
  then have "\<not> 64 dvd base + 4 * j + 4" unfolding k add.assoc by (subst dvd_add_right_iff) simp_all
  then have c: "(base + 4 * j + 4) mod 64 \<noteq> 0" by (simp only: dvd_eq_mod_eq_0 not_False_eq_True)
  have b: "base + 4 * j < len" "base + 4 * j + 3 < length message" using step.hyps assms(2,3) by linarith+
  have i: "base + 4 * Suc j = base + 4 * j + 4" "4 * Suc j = 4 * j + 4" by simp_all
  have "fill_chunk message len (base + 4 * j) (4 * j) w = fill_chunk message len (base + 4 * Suc j) (4 * Suc j) ?w"
    unfolding i fill_chunk.simps [of message len "base + 4 * j"]
    by (simp only: b c Let_def msg_word_def if_True simp_thms nonzero_mult_div_cancel_left zero_neq_numeral not_False_eq_True
        add.assoc [symmetric])
  also have "\<dots> = fill_chunk message len (base + 4 * n) (4 * n) (foldl (\<lambda>w t. w[t := msg_word message base t]) ?w [Suc j..<n])"
    by (rule step.IH)
  finally show ?case using step.hyps by (simp add: upt_conv_Cons)
qed simp

lemma fill_full:
  assumes "64 dvd base" "base + 64 \<le> len" "len \<le> length message" "length w = 64"
  shows "fill_chunk message len base 0 w = Inr (base + 64, map (msg_word message base) [0..<16] @ drop 16 w)"
proof -
  let ?f = "\<lambda>w t. w[t := msg_word message base t]"
  have "fill_chunk message len base 0 w = fill_chunk message len (base + 4 * 15) (4 * 15) (foldl ?f w [0..<15])"
    using fill_words [OF assms(1) _ assms(3), of 15 0 w] assms(2) by simp
  also have "\<dots> = Inr (base + 64, ?f (foldl ?f w [0..<15]) 15)"
    using assms(1-3) by (subst fill_chunk.simps) (simp add: Let_def msg_word_def dvd_eq_mod_eq_0 add_ac mod_simps del: upt_rec_numeral)
  also have "?f (foldl ?f w [0..<15]) 15 = foldl ?f w [0..<16]"
    using upt_Suc_append [of 0 15] by (simp del: upt_rec_numeral upt_Suc)
  also have "\<dots> = map (msg_word message base) [0..<16] @ drop 16 w" using assms(4) by (subst foldl_update) (simp_all del: upt_Suc)
  finally show ?thesis .
qed

text \<open>The last chunk, for messages that leave room for the length.\<close>

lemma fill_last:
  assumes "64 dvd base" "len = base + 4 * n" "len \<le> length message" "n < 14" "length w = 64"
  shows "fill_chunk message len base 0 w = Inr (len + 64,
    map (msg_word message base) [0..<n] @ [0x80000000] @ replicate (14 - n) 0 @ [of_nat (len * 8)] @ drop 16 w)"
proof -
  let ?f = "\<lambda>w t. w[t := msg_word message base t]"
  let ?ws = "map (msg_word message base) [0..<n]"
  have "fill_chunk message len base 0 w = fill_chunk message len len (4 * n) (foldl ?f w [0..<n])"
    using fill_words [OF assms(1) _ assms(3), of n 0 w] assms(2,4) by simp
  also have "\<dots> = Inr (len + 64, pad_chunk len n (foldl ?f w [0..<n]))" by (subst fill_chunk.simps) simp
  also have "foldl ?f w [0..<n] = ?ws @ drop n w" using assms(4,5) by (subst foldl_update) simp_all
  also have "pad_chunk len n (?ws @ drop n w) = ?ws @ [0x80000000] @ replicate (14 - n) 0 @ [of_nat (len * 8)] @ drop 16 w"
  proof -
    have d: "drop n w = w ! n # drop (Suc n) w" using assms(4,5) by (simp add: Cons_nth_drop_Suc)
    have "foldl (\<lambda>w i. w[i := 0]) (?ws @ 0x80000000 # drop (Suc n) w) [Suc n..<15] =
        take (Suc n) (?ws @ 0x80000000 # drop (Suc n) w) @ map (\<lambda>i. 0) [Suc n..<15] @ drop 15 (?ws @ 0x80000000 # drop (Suc n) w)"
      using assms(4,5) by (intro foldl_update) simp_all
    also have "\<dots> = ?ws @ [0x80000000] @ replicate (14 - n) 0 @ drop 15 w"
      using assms(4) by (simp add: map_replicate_const drop_Cons' add.commute)
    finally have z: "foldl (\<lambda>w i. w[i := 0]) (?ws @ 0x80000000 # drop (Suc n) w) [Suc n..<15] = \<dots>" .
    have "drop 15 w = w ! 15 # drop 16 w" using assms(5) Cons_nth_drop_Suc [of 15 w] by simp
    moreover have "length (?ws @ [0x80000000] @ replicate (14 - n) 0) = 15" using assms(4) by simp
    ultimately have l: "(?ws @ [0x80000000] @ replicate (14 - n) 0 @ drop 15 w)[15 := v] = ?ws @ [0x80000000] @ replicate (14 - n) 0 @ [v] @ drop 16 w" for v
      using list_update_length [of "?ws @ [0x80000000] @ replicate (14 - n) 0" "w ! 15" "drop 16 w" v] by simp
    have "(?ws @ drop n w)[n := 0x80000000] = ?ws @ 0x80000000 # drop (Suc n) w" unfolding d by (simp add: list_update_append)
    moreover have "max (Suc n) 15 = 15" using assms(4) by simp
    ultimately show ?thesis unfolding pad_chunk_def Let_def by (simp only: z l)
  qed
  finally show ?thesis .
qed

section \<open>All chunks\<close>

definition full_block :: "u8 list \<Rightarrow> nat \<Rightarrow> u32 list" where
  "full_block m c = map (msg_word m (64 * c)) [0..<16]"

definition last_block :: "u8 list \<Rightarrow> nat \<Rightarrow> nat \<Rightarrow> u32 list" where
  "last_block m c n = map (msg_word m (64 * c)) [0..<n] @ [0x80000000] @ replicate (14 - n) 0 @ [of_nat (length m * 8)]"

text \<open>The loop, for a message of \<open>q\<close> full chunks and a last chunk that becomes the block \<open>B\<close>.\<close>

lemma loop_blocks:
  assumes "64 * q \<le> length m" "i \<le> q" "length w = 64" "length h = 8"
    and "\<And>w. length w = 64 \<Longrightarrow> \<exists>w'. fill_chunk m (length m) (64 * q) 0 w = Inr (length m + 64, w') \<and> length w' = 64 \<and> take 16 w' = B"
  shows "sha_loop m (length m) (64 * i) w h = Inr (foldl compress h (map (full_block m) [i..<q] @ [B]))"
  using assms(2-4)
proof (induction i arbitrary: w h rule: inc_induct)
  case base
  obtain w' where f: "fill_chunk m (length m) (64 * q) 0 w = Inr (length m + 64, w')" "length w' = 64" "take 16 w' = B"
    using assms(5) [OF base(1)] by blast
  note c = hash_chunk_compress [OF f(2,3) base(2)]
  have "sha_loop m (length m) (length m + 64) v h' = Inr h'" for v h' by (subst sha_loop.simps) simp
  moreover have "64 * q < length m + 12" using assms(1) by simp
  ultimately show ?case by (subst sha_loop.simps) (simp add: f(1) c(1))
next
  case (step i)
  let ?w = "full_block m i @ drop 16 w"
  have f: "fill_chunk m (length m) (64 * i) 0 w = Inr (64 * Suc i, ?w)"
    using fill_full [of "64 * i" "length m" m w] step.hyps assms(1) step.prems(1) by (simp add: full_block_def)
  have lt: "64 * i < length m + 12" using step.hyps assms(1) by simp
  have w: "length ?w = 64" "take 16 ?w = full_block m i" using step.prems by (simp_all add: full_block_def)
  note c = hash_chunk_compress [OF w step.prems(2)]
  have "sha_loop m (length m) (64 * i) w h = sha_loop m (length m) (64 * Suc i) (fst (hash_chunk ?w h)) (snd (hash_chunk ?w h))"
    using lt by (subst sha_loop.simps) (simp add: f del: mult_Suc_right)
  also have "\<dots> = Inr (foldl compress (compress h (full_block m i)) (map (full_block m) [Suc i..<q] @ [B]))"
    unfolding c(1) by (rule step.IH [OF c(2,3)])
  finally show ?case using step.hyps by (simp add: upt_conv_Cons)
qed

lemma length_sha_hash: "length sha_hash = 8"
  by (simp add: sha_hash_def)

section \<open>The padding of the standard\<close>

lemma be_words_append: "length xs = 4 * k \<Longrightarrow> be_words (xs @ ys) = be_words xs @ be_words ys"
proof (induction k arbitrary: xs)
  case (Suc k)
  then have "4 \<le> length xs" by simp
  then obtain a b c d bs where "xs = a # b # c # d # bs"
    by (cases xs; cases "tl xs"; cases "tl (tl xs)"; cases "tl (tl (tl xs))") auto
  with Suc show ?case by simp
qed simp

lemma be_word_zero: "be_word (0, 0, 0, 0) = 0" "be_word (0x80, 0, 0, 0) = 0x80000000"
  by (simp_all add: be_word_def)

lemma be_words_zeros: "be_words (replicate (4 * k) 0) = replicate k 0"
  by (induction k) (simp_all add: be_word_zero numeral_eq_Suc)

lemma be_word_of_nat:
  "be_word (of_nat (x div 256 ^ 3), of_nat (x div 256 ^ 2), of_nat (x div 256), of_nat x) = of_nat x"
proof -
  have d: "(of_nat (x div 2 ^ k) :: u8) = ucast (drop_bit k (of_nat x :: u32))" if "k \<le> 24" for k
    using that by (intro bit_word_eqI) (auto simp: bit_simps drop_bit_eq_div [symmetric])
  have "be_word (ucast (drop_bit 24 w), ucast (drop_bit 16 w), ucast (drop_bit 8 w), ucast w) = w" for w :: u32
    using le_word_le_bytes [of w] by (simp add: be_word_rev le_bytes_def)
  from this [of "of_nat x"] show ?thesis using d [of 24] d [of 16] d [of 8] d [of 0] by simp
qed

lemma be_words_length: "8 * n < 2 ^ 32 \<Longrightarrow> be_words (length_bytes n) = [0, of_nat (n * 8)]"
proof -
  assume n: "8 * n < 2 ^ 32"
  then have z: "8 * n div 256 ^ k = 0" if "4 \<le> k" for k :: nat
    using power_increasing [OF that, of "256 :: nat"] by (intro div_less) simp
  have "[0..<8] = [0, 1, 2, 3, 4, 5, 6, 7 :: nat]" by (simp add: upt_rec)
  then have "length_bytes n = [0, 0, 0, 0, of_nat (8 * n div 256 ^ 3), of_nat (8 * n div 256 ^ 2), of_nat (8 * n div 256), of_nat (8 * n)]"
    using z [of 7] z [of 6] z [of 5] z [of 4] by (simp add: length_bytes_def)
  then show ?thesis using be_word_of_nat [of "8 * n"] by (simp add: be_word_zero mult.commute)
qed

lemma msg_word_append: "64 * c + 4 * t + 3 < length m \<Longrightarrow> msg_word (m @ xs) (64 * c) t = msg_word m (64 * c) t"
  by (simp add: msg_word_def nth_append)

lemma msg_word_drop: "base \<le> length m \<Longrightarrow> msg_word (drop base m) 0 t = msg_word m base t"
  by (simp add: msg_word_def add.assoc)

lemma sha_blocks_append: "length xs = 64 \<Longrightarrow> sha_blocks (xs @ ys) = be_words xs # sha_blocks ys"
  by (subst sha_blocks.simps) simp

lemma pad_blocks:
  assumes "length m = 64 * q + 4 * n" "n < 14" "8 * length m < 2 ^ 32"
  shows "sha_blocks (sha_pad m) = map (full_block m) [0..<q] @ [last_block m q n]"
proof -
  define tail where "tail = [0x80] @ replicate (zero_bytes (length m)) 0 @ length_bytes (length m)"
  have "length m mod 64 = 4 * n" using assms(1,2) by simp
  then have z: "zero_bytes (length m) = 3 + 4 * (13 - n)"
    using assms(2) le_mod_geq [of 64 "119 - 4 * n"] by (simp add: zero_bytes_def)
  have t: "tail = ([0x80, 0, 0, 0] @ replicate (4 * (13 - n)) 0) @ length_bytes (length m)"
    unfolding tail_def z replicate_add by (simp add: numeral_eq_Suc)
  have "be_words tail = be_words ([0x80, 0, 0, 0] @ replicate (4 * (13 - n)) 0) @ be_words (length_bytes (length m))"
    unfolding t by (rule be_words_append [of _ "14 - n"]) (use assms(2) in simp)
  moreover have "be_words (length_bytes (length m)) = [0, of_nat (length m * 8)]" by (rule be_words_length [OF assms(3)])
  moreover have "replicate (14 - n) (0 :: u32) = replicate (13 - n) 0 @ [0]"
    using assms(2) by (simp add: replicate_append_same flip: replicate_Suc)
  ultimately have words: "be_words tail = [0x80000000] @ replicate (14 - n) 0 @ [of_nat (length m * 8)]"
    by (simp add: be_word_zero be_words_zeros)
  have ltail: "length tail = 64 - 4 * n" using assms(2) by (simp add: t length_bytes_def)
  have "sha_blocks (drop (64 * i) m @ tail) = map (full_block m) [i..<q] @ [last_block m q n]" if "i \<le> q" for i
    using that
  proof (induction i rule: inc_induct)
    case base
    let ?r = "drop (64 * q) m"
    have r: "length ?r = 4 * n" using assms(1) by simp
    have "be_words ?r = map (msg_word m (64 * q)) [0..<n]" using assms(1) r by (simp add: be_words_map msg_word_drop)
    then have "be_words (?r @ tail) = last_block m q n" unfolding be_words_append [OF r] words by (simp add: last_block_def)
    moreover have "sha_blocks [] = []" by (subst sha_blocks.simps) simp
    ultimately show ?case using r ltail assms(2) sha_blocks_append [of "?r @ tail" "[]"] by simp
  next
    case (step i)
    let ?x = "take 64 (drop (64 * i) m)"
    have l: "length ?x = 64" "64 * i \<le> length m" using step.hyps assms(1) by simp_all
    have "msg_word ?x 0 t = msg_word m (64 * i) t" if "t < 16" for t
      using that l(2) by (simp add: msg_word_def add.assoc)
    then have x: "be_words ?x = full_block m i" using l(1) by (simp add: be_words_map full_block_def del: upt_rec_numeral)
    have "drop (64 * i) m = ?x @ drop (64 * Suc i) m" by (metis append_take_drop_id drop_drop mult_Suc_right)
    then have "sha_blocks (drop (64 * i) m @ tail) = be_words ?x # sha_blocks (drop (64 * Suc i) m @ tail)"
      using sha_blocks_append [OF l(1)] by (metis append.assoc)
    then show ?case using step by (simp add: x upt_conv_Cons)
  qed
  from this [of 0] show ?thesis by (simp add: sha_pad_def tail_def)
qed

lemma create_sha256_ok:
  assumes "length m mod 4 = 0" "length m mod 64 < 56" "8 * length m < 2 ^ 32" "length w = 64"
  shows "create_sha256 w (length m) m = Inr (sha256 m)"
proof -
  define q n where "q = length m div 64" and "n = length m mod 64 div 4"
  have "length m = 64 * q + length m mod 64" by (simp add: q_def)
  moreover have "length m mod 64 mod 4 = 0" using assms(1) by (simp add: mod_mod_cancel)
  then have "length m mod 64 = 4 * n" by (simp add: n_def minus_mod_eq_mult_div [symmetric])
  ultimately have l: "length m = 64 * q + 4 * n" "n < 14" using assms(2) by simp_all
  have "length (last_block m q n) = 16" using l(2) by (simp add: last_block_def)
  then have last: "\<exists>w'. fill_chunk m (length m) (64 * q) 0 w = Inr (length m + 64, w') \<and> length w' = 64 \<and> take 16 w' = last_block m q n"
    if "length w = 64" for w
  proof -
    have "fill_chunk m (length m) (64 * q) 0 w = Inr (length m + 64, last_block m q n @ drop 16 w)"
      using fill_last [OF _ l(1) _ l(2) that, of m] by (simp add: last_block_def)
    with \<open>length (last_block m q n) = 16\<close> that show ?thesis by simp
  qed
  have "sha_loop m (length m) (64 * 0) w sha_hash = Inr (foldl compress sha_hash (map (full_block m) [0..<q] @ [last_block m q n]))"
    by (rule loop_blocks [OF _ _ assms(4) length_sha_hash last]) (simp_all add: l(1))
  then show ?thesis using pad_blocks [OF l assms(3)] by (simp add: create_sha256_def sha256_def)
qed

text \<open>
  C14: \<open>create_sha256\<close> computes the digest of FIPS 180-4 for every message of whole words, shorter than 512 MB, whose last chunk leaves
  room for the length, whatever its array held before.
\<close>

theorem create_sha256_standard:
  assumes "length m mod 4 = 0" "length m mod 64 < 56" "8 * length m < 2 ^ 32" "length w = 64"
  shows "create_sha256 w (length m) m = Inr (sha256 m)"
  using assms by (rule create_sha256_ok)

text \<open>
  A tail of 56 or 60 bytes. The standard puts the length into a block of its own. The code makes the chunk at hand the last one: with 56 bytes the upper
  half of the length is lost to the padding bit, with 60 bytes the whole length (it is written to the first word that the expansion overwrites).
\<close>

definition tight_block :: "u8 list \<Rightarrow> nat \<Rightarrow> nat \<Rightarrow> u32 list" where
  "tight_block m c n = map (msg_word m (64 * c)) [0..<n] @ take (16 - n) [0x80000000, of_nat (length m * 8)]"

lemma fill_tight:
  assumes "64 dvd base" "len = base + 4 * n" "len \<le> length message" "n = 14 \<or> n = 15" "length w = 64"
  shows "\<exists>w'. fill_chunk message len base 0 w = Inr (len + 64, w') \<and> length w' = 64 \<and>
    take 16 w' = map (msg_word message base) [0..<n] @ take (16 - n) [0x80000000, of_nat (len * 8)]"
proof -
  let ?f = "\<lambda>w t. w[t := msg_word message base t]"
  have "fill_chunk message len base 0 w = fill_chunk message len len (4 * n) (foldl ?f w [0..<n])"
    using fill_words [OF assms(1) _ assms(3), of n 0 w] assms(2,4) by auto
  also have "\<dots> = Inr (len + 64, pad_chunk len n (foldl ?f w [0..<n]))" by (subst fill_chunk.simps) simp
  also have "foldl ?f w [0..<n] = map (msg_word message base) [0..<n] @ drop n w" using assms(4,5) by (subst foldl_update) auto
  finally have f: "fill_chunk message len base 0 w = Inr (len + 64, pad_chunk len n (map (msg_word message base) [0..<n] @ drop n w))" .
  let ?ws = "map (msg_word message base) [0..<n]"
  let ?v = "of_nat (len * 8) :: u32"
  have "length (drop n w) = Suc (Suc (62 - n))" using assms(4,5) by auto
  then obtain a b rest where d: "drop n w = a # b # rest" "length rest = 62 - n" unfolding length_Suc_conv by blast
  have "pad_chunk len n xs = xs[n := 0x80000000, Suc n := ?v]" for xs
    using assms(4) by (auto simp: pad_chunk_def Let_def)
  then have p: "pad_chunk len n (?ws @ drop n w) = ?ws @ 0x80000000 # ?v # rest" unfolding d by (simp add: list_update_append)
  have "length (?ws @ 0x80000000 # ?v # rest) = 64" using d(2) assms(4) by auto
  moreover have "take 16 (?ws @ 0x80000000 # ?v # rest) = ?ws @ take (16 - n) [0x80000000, ?v]"
    using assms(4) by (auto simp del: upt_rec_numeral)
  ultimately show ?thesis using f unfolding p by blast
qed

lemma sha_blocks_length: "length (sha_blocks bs) = length bs div 64"
proof (induction bs rule: sha_blocks.induct)
  case (1 bs)
  show ?case
  proof (cases "length bs < 64")
    case False
    then show ?thesis using 1 le_div_geq [of 64 "length bs"] by (subst sha_blocks.simps) simp
  qed (subst sha_blocks.simps, simp)
qed

text \<open>
  The digest of a message whose last chunk has 56 or 60 bytes. It is computed over the message and a single padding word in place of the
  padding of the standard, which has one block more.
\<close>

theorem create_sha256_tight:
  assumes "length m = 64 * q + 4 * n" "n = 14 \<or> n = 15" "length w = 64"
  shows "create_sha256 w (length m) m =
      Inr (concat (map digest_bytes (foldl compress sha_hash (map (full_block m) [0..<q] @ [tight_block m q n])))) \<and>
    length (sha_blocks (sha_pad m)) = q + 2"
proof -
  have last: "\<exists>w'. fill_chunk m (length m) (64 * q) 0 w = Inr (length m + 64, w') \<and> length w' = 64 \<and> take 16 w' = tight_block m q n"
    if "length w = 64" for w using fill_tight [OF _ assms(1) _ assms(2) that, of m] by (simp add: tight_block_def)
  have "sha_loop m (length m) (64 * 0) w sha_hash = Inr (foldl compress sha_hash (map (full_block m) [0..<q] @ [tight_block m q n]))"
    by (rule loop_blocks [OF _ _ assms(3) length_sha_hash last]) (simp_all add: assms(1))
  moreover have "length m mod 64 = 4 * n" using assms(1,2) by auto
  then have "zero_bytes (length m) = 119 - 4 * n" using assms(2) by (auto simp: zero_bytes_def)
  then have "length (sha_pad m) = 64 * (q + 2)" using assms(1,2) by (auto simp: sha_pad_def length_bytes_def)
  ultimately show ?thesis by (simp add: create_sha256_def sha_blocks_length)
qed

theorem create_sha256_tight_witness:
  "create_sha256 (replicate 64 0) 56 (replicate 56 0) =
     Inr (concat (map digest_bytes (foldl compress sha_hash [replicate 14 0 @ [0x80000000, 448]])))"
proof -
  have "tight_block (replicate 56 0) 0 14 = replicate 14 0 @ [0x80000000, 448]"
    by (simp add: tight_block_def msg_word_def be_word_zero upt_rec numeral_eq_Suc)
  then show ?thesis using create_sha256_tight [of "replicate 56 0" 0 14 "replicate 64 0"] by simp
qed

section \<open>A test vector\<close>

definition abcd_words :: "u32 list" where
  "abcd_words = [0x61626364, 0x80000000, 0x00000000, 0x00000000, 0x00000000, 0x00000000, 0x00000000, 0x00000000,
    0x00000000, 0x00000000, 0x00000000, 0x00000000, 0x00000000, 0x00000000, 0x00000000, 0x00000020,
    0x72628364, 0x80140000, 0x11c22fdd, 0x80205508, 0x52115a52, 0x20055801, 0x8677e73c, 0x796b38b8,
    0x8f6c4e0c, 0x0d179933, 0x2f046250, 0x91cdfd21, 0xdd6f2b7b, 0xc78870dc, 0x2a59078c, 0x2c21f147,
    0x33b9aac2, 0xa985640c, 0x980c48c2, 0x74afbea8, 0x1739d0f4, 0x0307b16e, 0x36eccece, 0xf72f560f,
    0xb9993801, 0xa44a3feb, 0x8d34eed6, 0x27f34e9a, 0x8852e608, 0x2a0983e6, 0x48fd55f7, 0xbfe14650,
    0x2dbbe909, 0x46893ac9, 0xfb852a6f, 0x56231afc, 0xa1c5b260, 0xe33cfe77, 0x3aaa947a, 0x5ff97cf4,
    0x651a9dff, 0xb8cc1c00, 0xe3c8290d, 0x1100548b, 0x271c4e0f, 0x3878453f, 0x3ede4927, 0x3ce08b0e]"

lemma abcd_schedule: "foldl expand_word (pad_chunk 4 1 (0x61626364 # replicate 63 0)) [16..<64] = abcd_words"
  by code_simp

lemma abcd_rounds_16:
  "foldl (hash_round abcd_words) [0x6a09e667, 0xbb67ae85, 0x3c6ef372, 0xa54ff53a, 0x510e527f, 0x9b05688c, 0x1f83d9ab, 0x5be0cd19] [0..<16] =
    [0x0dff3b3a, 0xb576d94b, 0xf9803c92, 0x17b21a3d, 0xfaaa83c1, 0xcf61c078, 0xcb0b338e, 0xd9ccbba4]"
  by code_simp

lemma abcd_rounds_32:
  "foldl (hash_round abcd_words) [0x0dff3b3a, 0xb576d94b, 0xf9803c92, 0x17b21a3d, 0xfaaa83c1, 0xcf61c078, 0xcb0b338e, 0xd9ccbba4] [16..<32] =
    [0xf172dd73, 0xed11d375, 0xb4e2f564, 0x5159c5f6, 0x4c099408, 0x039e6167, 0x17b49f19, 0x99313596]"
  by code_simp

lemma abcd_rounds_48:
  "foldl (hash_round abcd_words) [0xf172dd73, 0xed11d375, 0xb4e2f564, 0x5159c5f6, 0x4c099408, 0x039e6167, 0x17b49f19, 0x99313596] [32..<48] =
    [0x4466e1d1, 0xb7e8061c, 0xa6d1e740, 0xf378c2a8, 0x2c4d2d2f, 0x7829969c, 0xcd6e514f, 0x0c646e6a]"
  by code_simp

lemma abcd_rounds_64:
  "foldl (hash_round abcd_words) [0x4466e1d1, 0xb7e8061c, 0xa6d1e740, 0xf378c2a8, 0x2c4d2d2f, 0x7829969c, 0xcd6e514f, 0x0c646e6a] [48..<64] =
    [0x1eca4008, 0x197e8508, 0xd749528a, 0x4d396263, 0xcf8e36f9, 0x88b3b8f1, 0x845d87e8, 0x13224870]"
  by code_simp

lemma abcd_chunk: "snd (hash_chunk (pad_chunk 4 1 (0x61626364 # replicate 63 0)) sha_hash) =
    [0x88d4266f, 0xd4e6338d, 0x13b845fc, 0xf289579d, 0x209c8978, 0x23b9217d, 0xa3e16193, 0x6f031589]"
proof -
  have "[0..<64] = [0..<16] @ [16..<32] @ [32..<48] @ [48..<64 :: nat]"
    using upt_add_eq_append [of 0 16 48] upt_add_eq_append [of 16 32 32] upt_add_eq_append [of 32 48 16] by (simp del: upt_rec_numeral)
  then show ?thesis
    unfolding hash_chunk_def Let_def abcd_schedule sha_hash_def
    by (simp add: abcd_rounds_16 abcd_rounds_32 abcd_rounds_48 abcd_rounds_64 del: upt_rec_numeral)
qed

theorem create_sha256_standard_witness:
  "create_sha256 (replicate 64 0) 4 [0x61, 0x62, 0x63, 0x64] = Inr (sha256 [0x61, 0x62, 0x63, 0x64]) \<and>
   sha256 [0x61, 0x62, 0x63, 0x64] =
    [0x88, 0xd4, 0x26, 0x6f, 0xd4, 0xe6, 0x33, 0x8d, 0x13, 0xb8, 0x45, 0xfc, 0xf2, 0x89, 0x57, 0x9d,
     0x20, 0x9c, 0x89, 0x78, 0x23, 0xb9, 0x21, 0x7d, 0xa3, 0xe1, 0x61, 0x93, 0x6f, 0x03, 0x15, 0x89]"
proof -
  let ?m = "[0x61, 0x62, 0x63, 0x64]"
  have "length ?m = 4" by simp
  have s: "create_sha256 (replicate 64 0) 4 ?m = Inr (sha256 ?m)"
    using create_sha256_standard [of ?m "replicate 64 0", unfolded \<open>length ?m = 4\<close>] by simp
  have "fill_chunk ?m 4 0 0 (0 # replicate 63 0) = fill_chunk ?m 4 4 4 (0x61626364 # replicate 63 0)"
    by (subst fill_chunk.simps) (simp add: Let_def be_word_def)
  also have "\<dots> = Inr (68, pad_chunk 4 1 (0x61626364 # replicate 63 0))" by (subst fill_chunk.simps) simp
  finally have "fill_chunk ?m 4 0 0 (replicate 64 0) = \<dots>" using replicate_Suc [of 63 "0 :: u32"] by simp
  then have "sha_loop ?m 4 0 (replicate 64 0) sha_hash = Inr (snd (hash_chunk (pad_chunk 4 1 (0x61626364 # replicate 63 0)) sha_hash))"
    by (subst sha_loop.simps) (simp add: sha_loop.simps [of _ _ 68])
  then have "create_sha256 (replicate 64 0) 4 ?m = Inr
    [0x88, 0xd4, 0x26, 0x6f, 0xd4, 0xe6, 0x33, 0x8d, 0x13, 0xb8, 0x45, 0xfc, 0xf2, 0x89, 0x57, 0x9d,
     0x20, 0x9c, 0x89, 0x78, 0x23, 0xb9, 0x21, 0x7d, 0xa3, 0xe1, 0x61, 0x93, 0x6f, 0x03, 0x15, 0x89]"
    unfolding create_sha256_def abcd_chunk by (simp add: digest_bytes_def)
  with s show ?thesis by simp
qed

end
