(* ===== verification/I2c_Bus.thy ===== *)
theory I2c_Bus
  imports Prelude950
begin

text \<open>
  The two wire bus to the authentication chip, driven by software: \<open>SHA204A/hal_i2c_sha204a.c\<close>. The state is the history of operations on the two pins;
  the chip is a function that gives the level of the data line for every history. Delays are left out, they do not change a level.
  A store outside the buffer of the caller is the value \<open>None\<close> of a read.
\<close>

section \<open>The code\<close>

datatype pin_op = SDA_SET bool | SCL_SET bool | SDA_IN | SDA_OUT | SDA_GET

type_synonym i2c_device = "pin_op list \<Rightarrow> bool"

record i2c =
  pins :: "pin_op list"
  slave_address :: u8

definition SLAVE_ADDR_DEFAULT :: u8 where [c_consts]: "SLAVE_ADDR_DEFAULT = drop_bit 1 0xC8"

definition emit :: "pin_op list \<Rightarrow> i2c \<Rightarrow> i2c" where
  "emit ops s = s\<lparr>pins := pins s @ ops\<rparr>"

definition SI2C_Set_Slave_7BitAddress :: "u8 \<Rightarrow> i2c \<Rightarrow> i2c" where
  "SI2C_Set_Slave_7BitAddress a s = s\<lparr>slave_address := a\<rparr>"

definition SI2C_Init :: "i2c \<Rightarrow> i2c" where
  "SI2C_Init s = (emit [SDA_OUT, SCL_SET True, SDA_SET True] s)\<lparr>slave_address := SLAVE_ADDR_DEFAULT\<rparr>"

definition SI2C_Start :: "i2c \<Rightarrow> i2c" where
  "SI2C_Start = emit [SDA_OUT, SDA_SET True, SCL_SET True, SDA_SET False, SCL_SET False]"

definition SI2C_Stop :: "i2c \<Rightarrow> i2c" where
  "SI2C_Stop = emit [SDA_OUT, SDA_SET False, SCL_SET True, SDA_SET True, SCL_SET False]"

definition SI2C_Ack :: "i2c \<Rightarrow> i2c" where
  "SI2C_Ack = emit [SCL_SET False, SDA_OUT, SDA_SET True, SDA_SET False, SCL_SET True, SCL_SET False, SDA_SET True]"

definition SI2C_NAck :: "i2c \<Rightarrow> i2c" where
  "SI2C_NAck = emit [SCL_SET False, SDA_OUT, SDA_SET True, SCL_SET True, SCL_SET False]"

text \<open>A read of the data line.\<close>

definition sda_get :: "i2c_device \<Rightarrow> i2c \<Rightarrow> bool \<times> i2c" where
  "sda_get dev s = (dev (pins s), emit [SDA_GET] s)"

text \<open>The loop of \<open>SI2C_Wait_Ack\<close>; \<open>t\<close> is \<open>is_time_out\<close>. Functions return whether they failed, the value 1 in the code.\<close>

function ack_poll :: "i2c_device \<Rightarrow> nat \<Rightarrow> i2c \<Rightarrow> bool \<times> i2c" where
  "ack_poll dev t s =
     (let (v, s) = sda_get dev s
      in if v then if t + 1 > 250 then (True, SI2C_Stop s) else ack_poll dev (t + 1) s else (False, s))"
  by pat_completeness auto
termination by (relation "measure (\<lambda>(dev, t, s). 251 - t)") auto

definition SI2C_Wait_Ack :: "i2c_device \<Rightarrow> i2c \<Rightarrow> bool \<times> i2c" where
  "SI2C_Wait_Ack dev s =
     (let (e, s) = ack_poll dev 0 (emit [SCL_SET False, SDA_IN] s)
      in if e then (True, s) else (False, emit [SCL_SET True, SCL_SET False] s))"

fun send_bits :: "nat \<Rightarrow> u8 \<Rightarrow> i2c \<Rightarrow> i2c" where
  "send_bits 0 TxByte s = s"
| "send_bits (Suc n) TxByte s =
     send_bits n (push_bit 1 TxByte) (emit [SDA_SET (TxByte AND 0x80 \<noteq> 0), SCL_SET True, SCL_SET False] s)"

definition SI2C_Send_Byte :: "i2c_device \<Rightarrow> u8 \<Rightarrow> i2c \<Rightarrow> bool \<times> i2c" where
  "SI2C_Send_Byte dev TxByte s =
     (let (e, s) = SI2C_Wait_Ack dev (send_bits 8 TxByte (emit [SDA_OUT, SCL_SET False] s))
      in if e then (True, SI2C_Stop s) else (False, s))"

fun recv_bits :: "i2c_device \<Rightarrow> nat \<Rightarrow> u8 \<Rightarrow> i2c \<Rightarrow> u8 \<times> i2c" where
  "recv_bits dev 0 recv s = (recv, s)"
| "recv_bits dev (Suc n) recv s =
     (let (v, s) = sda_get dev (emit [SCL_SET False, SCL_SET True] s); recv = push_bit 1 recv
      in recv_bits dev n (if v then recv + 1 else recv) s)"

definition SI2C_Recv_Byte :: "i2c_device \<Rightarrow> i2c \<Rightarrow> u8 \<times> i2c" where
  "SI2C_Recv_Byte dev s = (let (r, s) = recv_bits dev 8 0 (emit [SDA_IN] s) in (r, SI2C_Ack s))"

fun send_loop :: "i2c_device \<Rightarrow> u8 list \<Rightarrow> i2c \<Rightarrow> bool \<times> i2c" where
  "send_loop dev [] s = (False, s)"
| "send_loop dev (b # bs) s =
     (let (e, s) = SI2C_Send_Byte dev b s in if e then (True, SI2C_Stop s) else send_loop dev bs s)"

definition SI2C_Send_Bytes :: "i2c_device \<Rightarrow> u8 list \<Rightarrow> i2c \<Rightarrow> bool \<times> i2c" where
  "SI2C_Send_Bytes dev TxBytes s = send_loop dev TxBytes (emit [SDA_OUT, SCL_SET False] s)"

fun recv_loop :: "i2c_device \<Rightarrow> nat \<Rightarrow> i2c \<Rightarrow> u8 list \<times> i2c" where
  "recv_loop dev 0 s = ([], s)"
| "recv_loop dev (Suc n) s = (let (b, s) = SI2C_Recv_Byte dev s; (bs, s) = recv_loop dev n s in (b # bs, s))"

text \<open>\<open>n - 1\<close> bytes in the loop and one behind it, also for \<open>n = 0\<close>.\<close>

definition SI2C_Recv_Bytes :: "i2c_device \<Rightarrow> nat \<Rightarrow> i2c \<Rightarrow> u8 list \<times> i2c" where
  "SI2C_Recv_Bytes dev n s =
     (let (bs, s) = recv_loop dev (n - 1) s; (b, s) = SI2C_Recv_Byte dev s in (bs @ [b], SI2C_NAck s))"

definition I2C_SHA204A_Wake :: "i2c_device \<Rightarrow> i2c \<Rightarrow> i2c" where
  "I2C_SHA204A_Wake dev s = SI2C_Stop (snd (SI2C_Send_Byte dev 0 (SI2C_Start s)))"

text \<open>Bytes written to a buffer from index \<open>i\<close> on.\<close>

definition put_bytes :: "u8 list \<Rightarrow> nat \<Rightarrow> u8 list \<Rightarrow> u8 list" where
  "put_bytes buf i bs = take i buf @ bs @ drop (i + length bs) buf"

text \<open>Bytes stored from an index on. \<open>None\<close> is a store outside the buffer.\<close>

definition store_at :: "u8 list \<Rightarrow> nat \<Rightarrow> u8 list \<Rightarrow> u8 list option" where
  "store_at buf i bs = (if i + length bs \<le> length buf then Some (put_bytes buf i bs) else None)"

definition I2C_SHA204A_Read :: "i2c_device \<Rightarrow> u8 \<Rightarrow> u8 list \<Rightarrow> i2c \<Rightarrow> (bool \<times> u8 list \<times> i2c) option" where
  "I2C_SHA204A_Read dev RxByteLength RxBytes s =
     (let (e, s) = SI2C_Send_Byte dev (push_bit 1 (slave_address s) + 1) (SI2C_Start s)
      in if e then Some (True, RxBytes, s)
         else
           let (count, s) = SI2C_Recv_Byte dev s
           in if count < 4 \<or> count > RxByteLength then Some (True, RxBytes, s)
              else case store_at RxBytes 0 [count] of None \<Rightarrow> None | Some RxBytes \<Rightarrow>
                let (bs, s) = SI2C_Recv_Bytes dev (unat (count - 1)) s
                in case store_at RxBytes 1 bs of None \<Rightarrow> None | Some RxBytes \<Rightarrow> Some (False, RxBytes, SI2C_Stop s))"

definition I2C_SHA204A_Write :: "i2c_device \<Rightarrow> u8 \<Rightarrow> u8 list \<Rightarrow> i2c \<Rightarrow> bool \<times> i2c" where
  "I2C_SHA204A_Write dev WordAddress TxBytes s =
     (let (e, s) = SI2C_Send_Byte dev (push_bit 1 (slave_address s)) (SI2C_Start s)
      in if e then (True, SI2C_Stop s)
         else
           let (e, s) = SI2C_Send_Bytes dev [WordAddress] s
           in if e then (True, s)
              else if TxBytes = [] then (False, SI2C_Stop s)
              else let (e, s) = SI2C_Send_Bytes dev TxBytes s in (e, SI2C_Stop s))"

definition I2C_SHA204A_Resync :: "i2c_device \<Rightarrow> i2c \<Rightarrow> bool \<times> i2c" where
  "I2C_SHA204A_Resync dev s =
     (let (e, s) = SI2C_Send_Bytes dev [0xFF] (SI2C_Start (SI2C_Stop s))
      in if e then (True, s)
         else let (e, s) = SI2C_Send_Byte dev (push_bit 1 (slave_address s) + 1) (SI2C_Start s) in (e, SI2C_Stop s))"

declare ack_poll.simps [simp del]

section \<open>What the bus shows\<close>

text \<open>
  The events of the bus protocol in a history: a clock pulse with the level the master drives, a pulse with the line released, a falling or rising data line
  while the clock is high, and a change of direction while the clock is high. The monitor knows the output register of the data pin, the clock, and whether the
  pin is an output; it returns the events and the last two.
\<close>

datatype bus_event = CLOCK bool | CLOCK_IN | START | STOP | GLITCH

fun bus_run :: "bool \<Rightarrow> bool \<times> bool \<Rightarrow> pin_op list \<Rightarrow> bus_event list \<times> bool \<times> bool" where
  "bus_run d co [] = ([], co)"
| "bus_run d (c, out) (SDA_SET v # ops) =
     apfst ((@) (if c \<and> out \<and> d \<noteq> v then [if v then STOP else START] else [])) (bus_run v (c, out) ops)"
| "bus_run d (c, out) (SCL_SET v # ops) =
     apfst ((@) (if \<not> c \<and> v then [if out then CLOCK d else CLOCK_IN] else [])) (bus_run d (v, out) ops)"
| "bus_run d (c, out) (SDA_IN # ops) = apfst ((@) (if c \<and> out then [GLITCH] else [])) (bus_run d (c, False) ops)"
| "bus_run d (c, out) (SDA_OUT # ops) = apfst ((@) (if c \<and> \<not> out then [GLITCH] else [])) (bus_run d (c, True) ops)"
| "bus_run d co (SDA_GET # ops) = bus_run d co ops"

fun last_sda :: "bool \<Rightarrow> pin_op list \<Rightarrow> bool" where
  "last_sda d [] = d"
| "last_sda d (SDA_SET v # ops) = last_sda v ops"
| "last_sda d (_ # ops) = last_sda d ops"

lemma bus_run_append: "bus_run d co (a @ b) = apfst ((@) (fst (bus_run d co a))) (bus_run (last_sda d a) (snd (bus_run d co a)) b)"
  by (induction d co a rule: bus_run.induct) (simp_all add: apfst_def map_prod_def split: prod.splits)

text \<open>From \<open>s\<close> to \<open>s'\<close> the master produces the events \<open>evs\<close>, whatever the data register held, and takes the clock and the direction from \<open>co\<close> to \<open>co'\<close>.\<close>

definition drives :: "bool \<times> bool \<Rightarrow> i2c \<Rightarrow> bus_event list \<Rightarrow> i2c \<Rightarrow> bool \<times> bool \<Rightarrow> bool" where
  "drives co s evs s' co' \<longleftrightarrow>
     slave_address s' = slave_address s \<and> (\<exists>ops. pins s' = pins s @ ops \<and> (\<forall>d. bus_run d co ops = (evs, co')))"

lemma drives_trans: "drives co s e1 s1 c1 \<Longrightarrow> drives c1 s1 e2 s2 c2 \<Longrightarrow> drives co s (e1 @ e2) s2 c2"
  by (fastforce simp: drives_def bus_run_append)

lemma drives_trans3:
  "\<lbrakk>drives co s e1 s1 c1; drives c1 s1 e2 s2 c2; drives c2 s2 e3 s3 c3; evs = e1 @ e2 @ e3\<rbrakk> \<Longrightarrow> drives co s evs s3 c3"
  by (simp add: drives_trans)

lemma drives_refl: "drives co s [] s co"
  by (simp add: drives_def)

lemma drives_emit: "(\<And>d. bus_run d co ops = (evs, co')) \<Longrightarrow> drives co s evs (emit ops s) co'"
  by (simp add: drives_def emit_def)

text \<open>The bits of a byte as the bus carries them.\<close>

definition msb_bits :: "u8 \<Rightarrow> bool list" where
  "msb_bits b = map (bit b) [7, 6, 5, 4, 3, 2, 1, 0]"

lemma bit_80: "(b AND 0x80 \<noteq> (0 :: u8)) = bit b 7"
  using and_exp_eq_0_iff_not_bit [of b 7] by simp

lemma drives_send_bits:
  "n \<le> 8 \<Longrightarrow> drives (False, True) s (map CLOCK (map (\<lambda>i. bit b (7 - i)) [0..<n])) (send_bits n b s) (False, True)"
proof (induction n arbitrary: b s)
  case 0
  then show ?case by (simp add: drives_refl)
next
  case (Suc n)
  let ?s = "emit [SDA_SET (b AND 0x80 \<noteq> 0), SCL_SET True, SCL_SET False] s"
  have first: "drives (False, True) s [CLOCK (bit b 7)] ?s (False, True)"
    by (rule drives_emit) (simp add: bit_80)
  have "map (\<lambda>i. bit (push_bit 1 b) (7 - i)) [0..<n] = map (\<lambda>i. bit b (7 - Suc i)) [0..<n]"
  proof (rule map_cong [OF refl])
    fix i assume "i \<in> set [0..<n]"
    then have "7 - i = Suc (7 - Suc i)" "7 - i < 8" using Suc.prems by auto
    then show "bit (push_bit 1 b) (7 - i) = bit b (7 - Suc i)"
      by (simp only: bit_push_bit_iff) simp
  qed
  with Suc.IH [of ?s "push_bit 1 b"] Suc.prems
  have "drives (False, True) ?s (map CLOCK (map (\<lambda>i. bit b (7 - Suc i)) [0..<n])) (send_bits n (push_bit 1 b) ?s) (False, True)"
    by (simp only: Suc_leD)
  from drives_trans [OF first this] show ?case
    by (simp only: map_upt_Suc [of _ n] send_bits.simps list.simps append_Cons append_Nil diff_zero)
qed

lemma ack_poll_ok:
  "ack_poll dev t s = (False, s') \<Longrightarrow> drives co s [] s' co"
proof (induction dev t s rule: ack_poll.induct)
  case (1 dev t s)
  have g: "drives co s [] (emit [SDA_GET] s) co"
    by (rule drives_emit) (cases co; simp)
  show ?case
  proof (cases "dev (pins s)")
    case True
    with 1(2) have r: "\<not> t + 1 > 250" "ack_poll dev (t + 1) (emit [SDA_GET] s) = (False, s')"
      by (auto simp: ack_poll.simps [of dev t s] sda_get_def split: if_splits)
    from 1(1) [OF _ _ True r] have "drives co (emit [SDA_GET] s) [] s' co"
      by (simp add: sda_get_def True)
    with drives_trans [OF g this] show ?thesis by simp
  next
    case False
    with 1(2) g show ?thesis by (simp add: ack_poll.simps [of dev t s] sda_get_def)
  qed
qed

lemma ack_poll_now: "\<not> dev (pins s) \<Longrightarrow> ack_poll dev t s = (False, emit [SDA_GET] s)"
  by (simp add: ack_poll.simps [of dev t s] sda_get_def)

text \<open>A byte that was acknowledged.\<close>

definition byte_events :: "u8 \<Rightarrow> bus_event list" where
  "byte_events b = map CLOCK (msb_bits b) @ [CLOCK_IN]"

lemma Wait_Ack_ok:
  assumes "SI2C_Wait_Ack dev s = (False, s')"
  shows "drives (False, True) s [CLOCK_IN] s' (False, False)"
proof -
  let ?s = "emit [SCL_SET False, SDA_IN] s"
  from assms obtain t where t: "ack_poll dev 0 ?s = (False, t)" "s' = emit [SCL_SET True, SCL_SET False] t"
    by (auto simp: SI2C_Wait_Ack_def split: prod.splits if_splits)
  have "drives (False, True) s [] ?s (False, False)" by (rule drives_emit) simp
  moreover have "drives (False, False) ?s [] t (False, False)" using t(1) by (rule ack_poll_ok)
  moreover have "drives (False, False) t [CLOCK_IN] s' (False, False)" unfolding t(2) by (rule drives_emit) simp
  ultimately show ?thesis by (rule drives_trans3) simp
qed

lemma Send_Byte_ok:
  assumes "SI2C_Send_Byte dev b s = (False, s')"
  shows "drives (False, out) s (byte_events b) s' (False, False)"
proof -
  let ?s = "emit [SDA_OUT, SCL_SET False] s"
  have w: "SI2C_Wait_Ack dev (send_bits 8 b ?s) = (False, s')"
    using assms by (auto simp: SI2C_Send_Byte_def split: prod.splits if_splits)
  have "drives (False, out) s [] ?s (False, True)" by (rule drives_emit) simp
  moreover have "drives (False, True) ?s (map CLOCK (map (\<lambda>i. bit b (7 - i)) [0..<8])) (send_bits 8 b ?s) (False, True)"
    by (rule drives_send_bits) simp
  moreover note Wait_Ack_ok [OF w]
  ultimately show ?thesis
    by (rule drives_trans3) (simp add: byte_events_def msb_bits_def upt_rec)
qed

lemma send_loop_ok:
  "send_loop dev bs s = (False, s') \<Longrightarrow> bs \<noteq> [] \<Longrightarrow> drives (False, out) s (concat (map byte_events bs)) s' (False, False)"
proof (induction bs arbitrary: s out)
  case (Cons b bs)
  then obtain t where t: "SI2C_Send_Byte dev b s = (False, t)" "send_loop dev bs t = (False, s')"
    by (auto split: prod.splits if_splits)
  show ?case
  proof (cases bs)
    case Nil
    with t Send_Byte_ok [OF t(1)] show ?thesis by simp
  next
    case (Cons c cs)
    with t(2) have "drives (False, False) t (concat (map byte_events bs)) s' (False, False)" by (intro Cons.IH) simp_all
    with drives_trans [OF Send_Byte_ok [OF t(1)] this] show ?thesis by simp
  qed
qed simp

lemma Send_Bytes_ok:
  assumes "SI2C_Send_Bytes dev bs s = (False, s')" "bs \<noteq> []"
  shows "drives (False, out) s (concat (map byte_events bs)) s' (False, False)"
proof -
  let ?s = "emit [SDA_OUT, SCL_SET False] s"
  have "drives (False, out) s [] ?s (False, True)" by (rule drives_emit) simp
  from drives_trans [OF this send_loop_ok] assms show ?thesis by (simp add: SI2C_Send_Bytes_def)
qed

lemma drives_Start: "drives (False, out) s [CLOCK True, START] (SI2C_Start s) (False, True)"
  unfolding SI2C_Start_def by (rule drives_emit) simp

lemma drives_Stop: "drives (False, out) s [CLOCK False, STOP] (SI2C_Stop s) (False, True)"
  unfolding SI2C_Stop_def by (rule drives_emit) simp

text \<open>The frame of a write: start condition, device address with the write bit, word address, the bytes, stop condition.\<close>

definition write_frame :: "u8 \<Rightarrow> u8 \<Rightarrow> u8 list \<Rightarrow> bus_event list" where
  "write_frame a w bs = [CLOCK True, START] @ concat (map byte_events (push_bit 1 a # w # bs)) @ [CLOCK False, STOP]"

lemma Write_ok:
  assumes "I2C_SHA204A_Write dev w bs s = (False, s')"
  shows "drives (False, out) s (write_frame (slave_address s) w bs) s' (False, True)"
proof -
  from assms obtain s1 s2 s3 where s:
    "SI2C_Send_Byte dev (push_bit 1 (slave_address s)) (SI2C_Start s) = (False, s1)"
    "SI2C_Send_Bytes dev [w] s1 = (False, s2)"
    "if bs = [] then s3 = s2 else SI2C_Send_Bytes dev bs s2 = (False, s3)"
    "s' = SI2C_Stop s3"
    by (auto simp: I2C_SHA204A_Write_def split: prod.splits if_splits)
  have a: "drives (False, out) s ([CLOCK True, START] @ byte_events (push_bit 1 (slave_address s)) @ byte_events w) s2 (False, False)"
    using drives_trans [OF drives_Start [of out s] drives_trans [OF Send_Byte_ok [OF s(1), of True] Send_Bytes_ok [OF s(2), of False]]] by simp
  moreover have "drives (False, False) s2 (concat (map byte_events bs)) s3 (False, False)"
    using s(3) Send_Bytes_ok [of dev bs s2 s3 False] by (auto simp: drives_refl split: if_splits)
  moreover have "drives (False, False) s3 [CLOCK False, STOP] s' (False, True)"
    using drives_Stop s(4) by simp
  ultimately show ?thesis
    by (rule drives_trans3) (simp add: write_frame_def)
qed

text \<open>A chip that pulls the line low at every look acknowledges; a line that stays high, with no chip, runs into the limit of 250 polls.\<close>

lemma Wait_Ack_acked: "fst (SI2C_Wait_Ack (\<lambda>_. False) s) = False"
  by (simp add: SI2C_Wait_Ack_def ack_poll_now)

lemma ack_poll_absent: "t \<le> 250 \<Longrightarrow> fst (ack_poll (\<lambda>_. True) t s)"
proof (induction "250 - t" arbitrary: t s)
  case 0
  then have "t = 250" by simp
  then show ?case using ack_poll.simps [of "\<lambda>_. True" 250 s] by (simp add: sda_get_def)
next
  case (Suc n)
  then have "n = 250 - (t + 1)" "t + 1 \<le> 250" by simp_all
  with Suc.hyps(1) [OF this] show ?case by (simp add: ack_poll.simps [of _ t] sda_get_def)
qed

lemma Wait_Ack_absent: "fst (SI2C_Wait_Ack (\<lambda>_. True) s)"
  using ack_poll_absent [of 0] by (simp add: SI2C_Wait_Ack_def split_beta)

lemma Send_Byte_acked: "fst (SI2C_Send_Byte (\<lambda>_. False) b s) = False"
  by (simp add: SI2C_Send_Byte_def split_beta Wait_Ack_acked)

lemma Send_Byte_absent: "fst (SI2C_Send_Byte (\<lambda>_. True) b s)"
  by (simp add: SI2C_Send_Byte_def split_beta Wait_Ack_absent)

lemma send_loop_acked: "fst (send_loop (\<lambda>_. False) bs s) = False"
  by (induction bs arbitrary: s) (simp_all add: split_beta Send_Byte_acked)

lemma Write_acked: "fst (I2C_SHA204A_Write (\<lambda>_. False) w bs s) = False"
  by (simp add: I2C_SHA204A_Write_def SI2C_Send_Bytes_def split_beta Send_Byte_acked send_loop_acked del: send_loop.simps)

lemma Write_absent: "fst (I2C_SHA204A_Write (\<lambda>_. True) w bs s)"
  by (simp add: I2C_SHA204A_Write_def split_beta Send_Byte_absent)

section \<open>Reading\<close>

text \<open>The number of looks at the data line, and a chip that answers the looks after the first \<open>n\<close> with the levels of a list.\<close>

definition looks :: "pin_op list \<Rightarrow> nat" where
  "looks h = length (filter (\<lambda>p. p = SDA_GET) h)"

definition line_answers :: "i2c_device \<Rightarrow> nat \<Rightarrow> bool list \<Rightarrow> bool" where
  "line_answers dev n ls \<longleftrightarrow> (\<forall>i < length ls. \<forall>h. looks h = n + i \<longrightarrow> dev h = ls ! i)"

lemma looks_emit [simp]: "looks (pins (emit ops s)) = looks (pins s) + length (filter (\<lambda>p. p = SDA_GET) ops)"
  by (simp add: emit_def looks_def)

lemma answers_Cons: "line_answers dev n (l # ls) \<longleftrightarrow> (\<forall>h. looks h = n \<longrightarrow> dev h = l) \<and> line_answers dev (Suc n) ls"
  by (simp add: line_answers_def All_less_Suc2)

lemma answers_append: "line_answers dev n (a @ b) \<longleftrightarrow> line_answers dev n a \<and> line_answers dev (n + length a) b"
  by (induction a arbitrary: n) (auto simp: answers_Cons, simp_all add: line_answers_def)

fun bits_value :: "u8 \<Rightarrow> bool list \<Rightarrow> u8" where
  "bits_value r [] = r"
| "bits_value r (l # ls) = bits_value (2 * r + of_bool l) ls"

lemma recv_bits_answers:
  "line_answers dev (looks (pins s)) ls \<Longrightarrow>
   \<exists>s'. recv_bits dev (length ls) r s = (bits_value r ls, s') \<and> looks (pins s') = looks (pins s) + length ls \<and> slave_address s' = slave_address s"
proof (induction ls arbitrary: r s)
  case (Cons l ls)
  let ?s = "emit [SDA_GET] (emit [SCL_SET False, SCL_SET True] s)"
  from Cons.prems have "dev (pins (emit [SCL_SET False, SCL_SET True] s)) = l" "line_answers dev (looks (pins ?s)) ls"
    by (simp_all add: answers_Cons)
  with Cons.IH [of ?s "2 * r + of_bool l"] show ?case
    by (auto simp: sda_get_def mult.commute) (auto simp: emit_def)
qed simp

lemma bits_value_append: "bits_value r (a @ [l]) = 2 * bits_value r a + of_bool l"
  by (induction a arbitrary: r) simp_all

lemma bits_value_rev: "bits_value 0 (rev ls) = horner_sum of_bool 2 ls"
  by (induction ls) (simp_all add: bits_value_append)

lemma bits_value_msb: "bits_value 0 (msb_bits b) = b"
proof -
  have "msb_bits b = rev (map (bit b) [0..<8])" by (simp add: msb_bits_def upt_rec numeral_eq_Suc)
  then have "bits_value 0 (msb_bits b) = take_bit 8 b"
    by (simp only: bits_value_rev horner_sum_bit_eq_take_bit)
  also have "\<dots> = b" by (rule take_bit_word_eq_self) simp
  finally show ?thesis .
qed

lemma Recv_Byte_answers:
  assumes "line_answers dev (looks (pins s)) (msb_bits b @ ls)"
  shows "\<exists>s'. SI2C_Recv_Byte dev s = (b, s') \<and> line_answers dev (looks (pins s')) ls \<and> slave_address s' = slave_address s"
proof -
  let ?s = "emit [SDA_IN] s"
  have l: "length (msb_bits b) = 8" by (simp add: msb_bits_def)
  from assms have a: "line_answers dev (looks (pins ?s)) (msb_bits b)" "line_answers dev (looks (pins s) + 8) ls"
    by (simp_all add: answers_append l)
  from recv_bits_answers [OF a(1), of 0] a(2) show ?thesis
    by (auto simp: SI2C_Recv_Byte_def SI2C_Ack_def l bits_value_msb) (simp_all add: emit_def looks_def)
qed

lemma recv_loop_answers:
  "line_answers dev (looks (pins s)) (concat (map msb_bits bs) @ ls) \<Longrightarrow>
   \<exists>s'. recv_loop dev (length bs) s = (bs, s') \<and> line_answers dev (looks (pins s')) ls \<and> slave_address s' = slave_address s"
proof (induction bs arbitrary: s)
  case (Cons b bs)
  then have "line_answers dev (looks (pins s)) (msb_bits b @ concat (map msb_bits bs) @ ls)" by simp
  from Recv_Byte_answers [OF this] obtain t where t:
    "SI2C_Recv_Byte dev s = (b, t)" "line_answers dev (looks (pins t)) (concat (map msb_bits bs) @ ls)" "slave_address t = slave_address s" by blast
  with Cons.IH [OF t(2)] show ?case by auto
qed simp

lemma Recv_Bytes_answers:
  assumes "line_answers dev (looks (pins s)) (concat (map msb_bits bs) @ ls)" "bs \<noteq> []"
  shows "\<exists>s'. SI2C_Recv_Bytes dev (length bs) s = (bs, s') \<and> line_answers dev (looks (pins s')) ls \<and> slave_address s' = slave_address s"
proof -
  obtain cs c where bs: "bs = cs @ [c]" using assms(2) by (meson rev_exhaust)
  with assms(1) have "line_answers dev (looks (pins s)) (concat (map msb_bits cs) @ msb_bits c @ ls)" by simp
  from recv_loop_answers [OF this] obtain t where t:
    "recv_loop dev (length cs) s = (cs, t)" "line_answers dev (looks (pins t)) (msb_bits c @ ls)" "slave_address t = slave_address s" by auto
  from Recv_Byte_answers [OF t(2)] t bs show ?thesis
    by (auto simp: SI2C_Recv_Bytes_def SI2C_NAck_def) (simp_all add: emit_def looks_def)
qed

lemma Send_Byte_answers:
  assumes "line_answers dev (looks (pins s)) (False # ls)"
  shows "\<exists>s'. SI2C_Send_Byte dev b s = (False, s') \<and> line_answers dev (looks (pins s')) ls \<and> slave_address s' = slave_address s"
proof -
  have sb: "looks (pins (send_bits n b s)) = looks (pins s) \<and> slave_address (send_bits n b s) = slave_address s" for n b s
    by (induction n b s rule: send_bits.induct) (simp_all add: emit_def looks_def)
  let ?s = "emit [SCL_SET False, SDA_IN] (send_bits 8 b (emit [SDA_OUT, SCL_SET False] s))"
  have l: "looks (pins ?s) = looks (pins s)" "slave_address ?s = slave_address s" using sb [of 8 b "emit [SDA_OUT, SCL_SET False] s"] by (simp_all add: emit_def looks_def)
  with assms have "\<not> dev (pins ?s)" "line_answers dev (Suc (looks (pins s))) ls" by (simp_all add: answers_Cons)
  with ack_poll_now [of dev ?s 0] l show ?thesis
    by (simp add: SI2C_Send_Byte_def SI2C_Wait_Ack_def del: send_bits.simps) (simp add: emit_def looks_def)
qed

text \<open>The levels a chip puts on the line to answer a read with a packet: the acknowledge of its address, then the bytes.\<close>

definition read_levels :: "u8 list \<Rightarrow> bool list" where
  "read_levels p = False # concat (map msb_bits p)"

lemma quiet [simp]:
  "looks (pins (SI2C_Start s)) = looks (pins s)" "slave_address (SI2C_Start s) = slave_address s"
  "looks (pins (SI2C_Stop s)) = looks (pins s)" "slave_address (SI2C_Stop s) = slave_address s"
  by (simp_all add: SI2C_Start_def SI2C_Stop_def emit_def looks_def)

lemma store_two:
  assumes "Suc (length bs) \<le> length buf"
  obtains b where "store_at buf 0 [c] = Some b" "store_at b 1 bs = Some (put_bytes buf 0 (c # bs))"
  using assms by (cases buf; simp add: store_at_def put_bytes_def)

lemma Read_answers:
  assumes "line_answers dev (looks (pins s)) (read_levels (c # bs) @ ls)"
    and "4 \<le> c" "c \<le> n" "unat c = Suc (length bs)" "unat c \<le> length buf"
  shows "\<exists>s'. I2C_SHA204A_Read dev n buf s = Some (False, put_bytes buf 0 (c # bs), s') \<and>
    line_answers dev (looks (pins s')) ls \<and> slave_address s' = slave_address s"
proof -
  let ?a = "push_bit 1 (slave_address s) + 1"
  from assms(1) have "line_answers dev (looks (pins (SI2C_Start s))) (False # msb_bits c @ concat (map msb_bits bs) @ ls)"
    by (simp add: read_levels_def)
  from Send_Byte_answers [OF this, of ?a] obtain t where t: "SI2C_Send_Byte dev ?a (SI2C_Start s) = (False, t)"
      "line_answers dev (looks (pins t)) (msb_bits c @ concat (map msb_bits bs) @ ls)" "slave_address t = slave_address s"
    by auto
  from Recv_Byte_answers [OF t(2)] obtain u where u: "SI2C_Recv_Byte dev t = (c, u)"
      "line_answers dev (looks (pins u)) (concat (map msb_bits bs) @ ls)" "slave_address u = slave_address s" using t(3) by auto
  have "3 \<le> length bs" using assms(2,4) by (simp add: word_le_nat_alt)
  moreover from this have "c \<noteq> 0" using assms(4) by auto
  ultimately have c: "unat (c - 1) = length bs" "bs \<noteq> []" using assms(4) by (auto simp: unat_minus_one)
  from Recv_Bytes_answers [OF u(2) c(2)] obtain v where v: "SI2C_Recv_Bytes dev (length bs) u = (bs, v)"
      "line_answers dev (looks (pins v)) ls" "slave_address v = slave_address s"
    using u(3) by auto
  obtain b where "store_at buf 0 [c] = Some b" "store_at b 1 bs = Some (put_bytes buf 0 (c # bs))"
    using assms(4,5) store_two [of bs buf c] by auto
  then show ?thesis
    using t(1) u(1) v assms(2,3) c(1) by (simp add: I2C_SHA204A_Read_def not_less [symmetric])
qed

lemma Send_Bytes_answers:
  assumes "line_answers dev (looks (pins s)) (replicate (length bs) False @ ls)"
  shows "\<exists>s'. SI2C_Send_Bytes dev bs s = (False, s') \<and> line_answers dev (looks (pins s')) ls \<and> slave_address s' = slave_address s"
proof -
  have loop: "line_answers dev (looks (pins t)) (replicate (length bs) False @ ls) \<Longrightarrow>
    \<exists>s'. send_loop dev bs t = (False, s') \<and> line_answers dev (looks (pins s')) ls \<and> slave_address s' = slave_address t" for t
  proof (induction bs arbitrary: t)
    case (Cons b bs)
    then have "line_answers dev (looks (pins t)) (False # replicate (length bs) False @ ls)" by simp
    from Send_Byte_answers [OF this, of b] obtain t' where t: "SI2C_Send_Byte dev b t = (False, t')"
      "line_answers dev (looks (pins t')) (replicate (length bs) False @ ls)" "slave_address t' = slave_address t" by blast
    from Cons.IH [OF t(2)] t show ?case by auto
  qed simp
  from loop [of "emit [SDA_OUT, SCL_SET False] s"] assms show ?thesis
    by (simp add: SI2C_Send_Bytes_def) (simp add: emit_def)
qed

text \<open>A chip that acknowledges the address, the word address and every byte of a packet.\<close>

lemma Write_answers:
  assumes "line_answers dev (looks (pins s)) (replicate (length bs + 2) False @ ls)"
  shows "\<exists>s'. I2C_SHA204A_Write dev w bs s = (False, s') \<and> line_answers dev (looks (pins s')) ls \<and> slave_address s' = slave_address s"
proof -
  from assms have "line_answers dev (looks (pins (SI2C_Start s))) (False # replicate (length [w]) False @ replicate (length bs) False @ ls)"
    by simp
  from Send_Byte_answers [OF this] obtain t where t: "SI2C_Send_Byte dev (push_bit 1 (slave_address s)) (SI2C_Start s) = (False, t)"
    "line_answers dev (looks (pins t)) (replicate (length [w]) False @ replicate (length bs) False @ ls)" "slave_address t = slave_address s" by auto
  from Send_Bytes_answers [OF t(2)] t(3) obtain u where u: "SI2C_Send_Bytes dev [w] t = (False, u)"
    "line_answers dev (looks (pins u)) (replicate (length bs) False @ ls)" "slave_address u = slave_address s" by auto
  from Send_Bytes_answers [OF u(2)] u(3) obtain v where v: "SI2C_Send_Bytes dev bs u = (False, v)"
    "line_answers dev (looks (pins v)) ls" "slave_address v = slave_address s" by auto
  show ?thesis
    using t(1) u v by (cases "bs = []") (auto simp: I2C_SHA204A_Write_def)
qed

lemma Wake_answers:
  assumes "line_answers dev (looks (pins s)) (False # ls)"
  shows "line_answers dev (looks (pins (I2C_SHA204A_Wake dev s))) ls \<and> slave_address (I2C_SHA204A_Wake dev s) = slave_address s"
  using Send_Byte_answers [of dev "SI2C_Start s" ls 0] assms by (auto simp: I2C_SHA204A_Wake_def)

text \<open>A packet whose first byte is its length, read into a buffer.\<close>

lemma Read_packet:
  assumes "line_answers dev (looks (pins s)) (read_levels p @ ls)" and "p \<noteq> []" "hd p = of_nat (length p)"
    and "4 \<le> length p" "length p \<le> unat n" "length p \<le> length buf"
  shows "\<exists>s'. I2C_SHA204A_Read dev n buf s = Some (False, p @ drop (length p) buf, s') \<and>
    line_answers dev (looks (pins s')) ls \<and> slave_address s' = slave_address s"
proof -
  obtain c bs where p: "p = c # bs" using assms(2) by (cases p) auto
  have "length p < 256" using le_less_trans [OF assms(5) unsigned_less [of n]] by simp
  with assms(3) p have c: "unat c = Suc (length bs)" using unat_of_nat_less [of "length p", where 'a = 8] by simp
  with assms(4,5) p have "4 \<le> c" "c \<le> n" by (simp_all add: word_le_nat_alt)
  moreover have "put_bytes buf 0 (c # bs) = p @ drop (length p) buf"
    using p by (simp add: put_bytes_def)
  ultimately show ?thesis using Read_answers [OF assms(1) [unfolded p] _ _ c, of n buf] c assms(6) p by simp
qed

text \<open>What a caller may rely on after a read that succeeded, with any chip.\<close>

lemma recv_loop_length: "length (fst (recv_loop dev n s)) = n"
  by (induction n arbitrary: s) (simp_all add: split_beta)

lemma Recv_Bytes_length: "length (fst (SI2C_Recv_Bytes dev n s)) = n - 1 + 1"
  using recv_loop_length [of dev "n - 1" s] by (simp add: SI2C_Recv_Bytes_def split_beta)

text \<open>Whatever the chip sends, a read into a buffer of at least the limit stores inside the buffer, because a larger count is refused.\<close>

lemma Read_law:
  assumes "unat n \<le> length buf"
  shows "\<exists>e buf' s'. I2C_SHA204A_Read dev n buf s = Some (e, buf', s') \<and> length buf' = length buf \<and> (\<not> e \<longrightarrow> 4 \<le> buf' ! 0 \<and> buf' ! 0 \<le> n)"
proof -
  let ?a = "push_bit 1 (slave_address s) + 1"
  obtain e t where t: "SI2C_Send_Byte dev ?a (SI2C_Start s) = (e, t)" by fastforce
  obtain c u where u: "SI2C_Recv_Byte dev t = (c, u)" by fastforce
  obtain bs v where v: "SI2C_Recv_Bytes dev (unat (c - 1)) u = (bs, v)" by fastforce
  show ?thesis
  proof (cases "e \<or> c < 4 \<or> n < c")
    case True
    with t u show ?thesis by (auto simp: I2C_SHA204A_Read_def)
  next
    case False
    then have "4 \<le> unat c" "unat c \<le> unat n" by (simp_all add: word_le_nat_alt not_less)
    moreover from this have "c \<noteq> 0" by auto
    ultimately have c: "unat c = Suc (length bs)" "Suc (length bs) \<le> length buf"
      using Recv_Bytes_length [of dev "unat (c - 1)" u] v assms by (simp_all add: unat_minus_one)
    then have "length (put_bytes buf 0 (c # bs)) = length buf" "put_bytes buf 0 (c # bs) ! 0 = c" by (simp_all add: put_bytes_def)
    moreover obtain b where "store_at buf 0 [c] = Some b" "store_at b 1 bs = Some (put_bytes buf 0 (c # bs))" using store_two [OF c(2)] by blast
    then have "I2C_SHA204A_Read dev n buf s = Some (False, put_bytes buf 0 (c # bs), SI2C_Stop v)"
      using False t u v by (simp add: I2C_SHA204A_Read_def)
    ultimately show ?thesis using False by (auto simp: not_less)
  qed
qed

section \<open>Properties\<close>

text \<open>
  \<open>I2C_SHA204A_Write\<close> puts a well formed frame on the bus: when it returns 0, the lines showed a start condition, the device address with the write
  bit, the word address and every byte of the packet, the highest bit first and each with an acknowledge clock, then a stop condition, and nothing else. It
  returns 0 when the chip acknowledges and 1 when no chip answers.
\<close>

theorem i2c_write_frame:
  "(fst (I2C_SHA204A_Write dev w bs s) \<or>
     (\<forall>out. drives (False, out) s (write_frame (slave_address s) w bs) (snd (I2C_SHA204A_Write dev w bs s)) (False, True)))
   \<and> fst (I2C_SHA204A_Write (\<lambda>_. False) w bs s) = False \<and> fst (I2C_SHA204A_Write (\<lambda>_. True) w bs s) = True"
  using Write_ok [of dev w bs s] Write_acked Write_absent by (auto simp: prod_eq_iff)

end
