(* ===== verification/Sha204_Comm.thy ===== *)
theory Sha204_Comm
  imports I2c_Bus
begin

text \<open>
  Packets to and from the authentication chip: \<open>SHA204A/sha204a_comm.c\<close> and the commands of \<open>SHA204A/sha204a_comm_marshaling.c\<close>. The
  functions use the bus through a port, the functions of \<open>hal_i2c_sha204a.c\<close>; \<open>i2c_port\<close> is the port of the firmware. The buffers are passed
  in and out. \<open>None\<close> is an access outside a buffer; a return code of the code that is not zero is a failure.
\<close>

section \<open>The code\<close>

record 's sha_port =
  port_init :: "'s \<Rightarrow> 's"
  port_wake :: "'s \<Rightarrow> 's"
  port_read :: "u8 \<Rightarrow> u8 list \<Rightarrow> 's \<Rightarrow> (bool \<times> u8 list \<times> 's) option"
  port_write :: "u8 \<Rightarrow> u8 list \<Rightarrow> 's \<Rightarrow> bool \<times> 's"
  port_resync :: "'s \<Rightarrow> bool \<times> 's"

definition i2c_port :: "i2c_device \<Rightarrow> i2c sha_port" where
  "i2c_port dev = \<lparr>port_init = SI2C_Init, port_wake = I2C_SHA204A_Wake dev, port_read = I2C_SHA204A_Read dev, port_write = I2C_SHA204A_Write dev,
     port_resync = I2C_SHA204A_Resync dev\<rparr>"

definition SHA204_CMD_SIZE_MIN :: u8 where [c_consts]: "SHA204_CMD_SIZE_MIN = 7"
definition SHA204_CMD_SIZE_MAX :: u8 where [c_consts]: "SHA204_CMD_SIZE_MAX = 84"
definition SHA204_CRC_SIZE :: u8 where [c_consts]: "SHA204_CRC_SIZE = 2"
definition SHA204_RSP_SIZE_MIN :: u8 where [c_consts]: "SHA204_RSP_SIZE_MIN = 4"
definition SHA204_RSP_SIZE_MAX :: u8 where [c_consts]: "SHA204_RSP_SIZE_MAX = 35"
definition SHA204_RSP_SIZE_VAL :: u8 where [c_consts]: "SHA204_RSP_SIZE_VAL = 7"
definition SHA204_STATUS_BYTE_WAKEUP :: u8 where [c_consts]: "SHA204_STATUS_BYTE_WAKEUP = 0x11"
definition SHA204_BAD_PARAM :: u8 where [c_consts]: "SHA204_BAD_PARAM = 0xE2"

datatype i2c_word_address =
  SHA204_I2C_PACKET_FUNCTION_RESET | SHA204_I2C_PACKET_FUNCTION_SLEEP | SHA204_I2C_PACKET_FUNCTION_IDLE | SHA204_I2C_PACKET_FUNCTION_NORMAL

primrec word_address :: "i2c_word_address \<Rightarrow> u8" where
  "word_address SHA204_I2C_PACKET_FUNCTION_RESET = 0"
| "word_address SHA204_I2C_PACKET_FUNCTION_SLEEP = 1"
| "word_address SHA204_I2C_PACKET_FUNCTION_IDLE = 2"
| "word_address SHA204_I2C_PACKET_FUNCTION_NORMAL = 3"

subsection \<open>Checksum\<close>

lemma push_bit_shrinks:
  fixes w :: u8
  assumes "w \<noteq> 0"
  shows "card {n. n < 8 \<and> push_bit (Suc n) w \<noteq> 0} < card {n. n < 8 \<and> push_bit n w \<noteq> 0}"
proof -
  have z: "push_bit 8 w = 0" by (rule bit_word_eqI) (simp add: bit_simps)
  have "card {n. n < 8 \<and> push_bit (Suc n) w \<noteq> 0} = card (Suc ` {n. n < 8 \<and> push_bit (Suc n) w \<noteq> 0})" by (simp add: card_image)
  also have "\<dots> < card {n. n < 8 \<and> push_bit n w \<noteq> 0}"
  proof (rule psubset_card_mono)
    have "Suc n < 8" if "n < 8" "push_bit (Suc n) w \<noteq> 0" for n using that z by (cases "n = 7") auto
    then have "Suc ` {n. n < 8 \<and> push_bit (Suc n) w \<noteq> 0} \<subseteq> {n. n < 8 \<and> push_bit n w \<noteq> 0}" by auto
    moreover have "0 \<in> {n. n < 8 \<and> push_bit n w \<noteq> 0}" using assms by simp
    moreover have "0 \<notin> Suc ` {n. n < 8 \<and> push_bit (Suc n) w \<noteq> 0}" by blast
    ultimately show "Suc ` {n. n < 8 \<and> push_bit (Suc n) w \<noteq> 0} \<subset> {n. n < 8 \<and> push_bit n w \<noteq> 0}" by blast
  qed simp
  finally show ?thesis .
qed

text \<open>One turn of the inner loop, and the loop: it ends when the bit has been shifted out of the eight bit \<open>shift_register\<close>.\<close>

definition crc_turn :: "u8 \<Rightarrow> u8 \<Rightarrow> u16 \<Rightarrow> u16" where
  "crc_turn d shift_register crc_register =
     (let data_bit = (if d AND shift_register \<noteq> 0 then 1 else 0 :: u8); crc_bit = (ucast (drop_bit 15 crc_register) :: u8); r = push_bit 1 crc_register
      in if data_bit XOR crc_bit \<noteq> 0 then r XOR 0x8005 else r)"

function crc_byte :: "u8 \<Rightarrow> u8 \<Rightarrow> u16 \<Rightarrow> u16" where
  "crc_byte d shift_register r =
     (if shift_register > 0 then crc_byte d (push_bit 1 shift_register) (crc_turn d shift_register r) else r)"
  by pat_completeness auto
termination
proof (relation "measure (\<lambda>(d, w, r). card {n. n < 8 \<and> push_bit n w \<noteq> 0})")
  fix d w :: u8 and r :: u16
  assume "w > 0"
  then have "w \<noteq> 0" by auto
  from push_bit_shrinks [OF this]
  show "((d, push_bit 1 w, crc_turn d w r), (d, w, r)) \<in> measure (\<lambda>(d, w, r). card {n. n < 8 \<and> push_bit n w \<noteq> 0})"
    by (simp only: in_measure prod.case push_bit_push_bit) simp
qed simp

declare crc_byte.simps [simp del]

fun crc_loop :: "u8 list \<Rightarrow> u16 \<Rightarrow> u16" where
  "crc_loop [] r = r"
| "crc_loop (d # ds) r = crc_loop ds (crc_byte d 1 r)"

definition SHA204Ac_calculate_crc :: "u8 \<Rightarrow> u8 list \<Rightarrow> (u8 \<times> u8) option" where
  "SHA204Ac_calculate_crc n d =
     (if unat n \<le> length d then let r = crc_loop (take (unat n) d) 0 in Some (ucast (r AND 0x00FF), ucast (drop_bit 8 r)) else None)"

text \<open>The result is true for a wrong checksum, the value 1 in the code.\<close>

definition SHA204Ac_check_crc :: "u8 list \<Rightarrow> bool option" where
  "SHA204Ac_check_crc response =
     (case response of [] \<Rightarrow> None | count # _ \<Rightarrow>
        let count = count - SHA204_CRC_SIZE
        in case SHA204Ac_calculate_crc count response of None \<Rightarrow> None | Some (c0, c1) \<Rightarrow>
          if unat count + 1 < length response then Some (\<not> (c0 = response ! unat count \<and> c1 = response ! (unat count + 1))) else None)"

subsection \<open>Packets\<close>

definition SHA204Ac_wakeup :: "'s sha_port \<Rightarrow> 's \<Rightarrow> (u8 \<times> 's) option" where
  "SHA204Ac_wakeup p s =
     (case port_read p SHA204_CMD_SIZE_MIN (replicate (unat SHA204_CMD_SIZE_MIN) 0) (port_wake p s) of
        None \<Rightarrow> None
      | Some (e, read_buf, s) \<Rightarrow>
         if e then Some (1, s)
         else case SHA204Ac_check_crc read_buf of None \<Rightarrow> None | Some _ \<Rightarrow>
           if read_buf ! 0 \<noteq> SHA204_RSP_SIZE_MIN then Some (1, s)
           else if read_buf ! 1 \<noteq> SHA204_STATUS_BYTE_WAKEUP then Some (1, s)
           else if read_buf ! 2 \<noteq> 0x33 \<or> read_buf ! 3 \<noteq> 0x43 then Some (1, s)
           else Some (0, s))"

definition SHA204Ac_idle :: "'s sha_port \<Rightarrow> 's \<Rightarrow> bool \<times> 's" where
  "SHA204Ac_idle p s = port_write p (word_address SHA204_I2C_PACKET_FUNCTION_IDLE) [] s"

definition SHA204Ac_sleep :: "'s sha_port \<Rightarrow> 's \<Rightarrow> bool \<times> 's" where
  "SHA204Ac_sleep p s = port_write p (word_address SHA204_I2C_PACKET_FUNCTION_SLEEP) [] s"

definition SHA204Ac_reset :: "'s sha_port \<Rightarrow> 's \<Rightarrow> bool \<times> 's" where
  "SHA204Ac_reset p s = port_write p (word_address SHA204_I2C_PACKET_FUNCTION_RESET) [] s"

definition SHA204Ac_send_cmd :: "'s sha_port \<Rightarrow> u8 list \<Rightarrow> 's \<Rightarrow> bool \<times> 's" where
  "SHA204Ac_send_cmd p CmdBuffer s = port_write p (word_address SHA204_I2C_PACKET_FUNCTION_NORMAL) CmdBuffer s"

definition SHA204Ac_recv_response :: "'s sha_port \<Rightarrow> u8 \<Rightarrow> u8 list \<Rightarrow> 's \<Rightarrow> (bool \<times> u8 list \<times> 's) option" where
  "SHA204Ac_recv_response p ResponseLength ResponseBuffer s = port_read p ResponseLength ResponseBuffer s"

definition SHA204Ac_Resync :: "'s sha_port \<Rightarrow> 's \<Rightarrow> (u8 \<times> 's) option" where
  "SHA204Ac_Resync p s =
     (let (e, s) = port_resync p s
      in if e then Some (1, s)
         else let (e, s) = SHA204Ac_reset p s
         in if e then Some (1, s)
         else let (e, s) = SHA204Ac_sleep p s
         in if e then Some (1, s)
         else case SHA204Ac_wakeup p s of None \<Rightarrow> None | Some (r, s) \<Rightarrow> Some (if r \<noteq> 0 then 1 else 0, s))"

text \<open>
  A command and its response. The checksum is written behind the command; the response buffer is cleared first. The result is the return code, both
  buffers and the port.
\<close>

type_synonym 's exchange = "u8 \<times> u8 list \<times> u8 list \<times> 's"

definition SHA204Ac_send_and_recv :: "'s sha_port \<Rightarrow> u8 list \<Rightarrow> u8 list \<Rightarrow> u8 \<Rightarrow> 's \<Rightarrow> 's exchange option" where
  "SHA204Ac_send_and_recv p TxBuffer RxBuffer RxLength s =
     (case TxBuffer of [] \<Rightarrow> None | count # _ \<Rightarrow>
        let count_minus_crc = count - SHA204_CRC_SIZE
        in case SHA204Ac_calculate_crc count_minus_crc TxBuffer of None \<Rightarrow> None | Some (c0, c1) \<Rightarrow>
          if length TxBuffer \<le> unat count_minus_crc + 1 then None
          else
            let TxBuffer = TxBuffer[unat count_minus_crc := c0, unat count_minus_crc + 1 := c1]
            in case SHA204Ac_check_crc TxBuffer of None \<Rightarrow> None
               | Some True \<Rightarrow> Some (1, TxBuffer, RxBuffer, s)
               | Some False \<Rightarrow>
                   let count = TxBuffer ! 0
                   in if length TxBuffer < unat count then None
                      else
                        let (e, s) = SHA204Ac_send_cmd p (take (unat count) TxBuffer) s
                        in if e then Some (1, TxBuffer, RxBuffer, s)
                           else if length RxBuffer < unat RxLength then None
                           else case SHA204Ac_recv_response p RxLength (replicate (unat RxLength) 0 @ drop (unat RxLength) RxBuffer) s
                             of None \<Rightarrow> None | Some (e, RxBuffer, s) \<Rightarrow>
                                if e then Some (1, TxBuffer, RxBuffer, s)
                                else case SHA204Ac_check_crc RxBuffer of None \<Rightarrow> None
                                  | Some c \<Rightarrow> Some (if c then 1 else 0, TxBuffer, RxBuffer, s))"

subsection \<open>Commands\<close>

definition SHA204_DEVREV :: u8 where [c_consts]: "SHA204_DEVREV = 0x30"
definition SHA204_MAC :: u8 where [c_consts]: "SHA204_MAC = 0x08"
definition SHA204_RANDOM :: u8 where [c_consts]: "SHA204_RANDOM = 0x1B"
definition SHA204_READ :: u8 where [c_consts]: "SHA204_READ = 0x02"
definition SHA204_WRITE :: u8 where [c_consts]: "SHA204_WRITE = 0x12"
definition SHA204_ZONE_OTP :: u8 where [c_consts]: "SHA204_ZONE_OTP = 0x01"
definition SHA204_ZONE_DATA :: u8 where [c_consts]: "SHA204_ZONE_DATA = 0x02"
definition SHA204_ZONE_COUNT_FLAG :: u8 where [c_consts]: "SHA204_ZONE_COUNT_FLAG = 0x80"
definition SHA204_ADDRESS_MASK :: u16 where [c_consts]: "SHA204_ADDRESS_MASK = 0x7F"
definition READ_ZONE_MASK :: u8 where [c_consts]: "READ_ZONE_MASK = 0x83"
definition READ_ZONE_MODE_32_BYTES :: u8 where [c_consts]: "READ_ZONE_MODE_32_BYTES = 0x80"
definition WRITE_ZONE_MASK :: u8 where [c_consts]: "WRITE_ZONE_MASK = 0xC1"
definition WRITE_MAC_SIZE :: nat where [c_consts]: "WRITE_MAC_SIZE = 32"
definition MAC_COUNT_LONG :: u8 where [c_consts]: "MAC_COUNT_LONG = 39"
definition MAC_MODE_MASK :: u8 where [c_consts]: "MAC_MODE_MASK = 0x77"
definition MAC_MODE_BLOCK2_TEMPKEY :: u8 where [c_consts]: "MAC_MODE_BLOCK2_TEMPKEY = 0x01"
definition MAC_CHALLENGE_SIZE :: nat where [c_consts]: "MAC_CHALLENGE_SIZE = 32"
definition RANDOM_NO_SEED_UPDATE :: u8 where [c_consts]: "RANDOM_NO_SEED_UPDATE = 1"

text \<open>A buffer argument is \<open>None\<close> for a null pointer.\<close>

type_synonym pointer = "u8 list option"

definition bad_param :: "pointer \<Rightarrow> pointer \<Rightarrow> 's \<Rightarrow> 's exchange option" where
  "bad_param tx rx s = Some (SHA204_BAD_PARAM, case tx of None \<Rightarrow> [] | Some b \<Rightarrow> b, case rx of None \<Rightarrow> [] | Some b \<Rightarrow> b, s)"

text \<open>A copy of \<open>n\<close> bytes from a source that has to hold them.\<close>

definition copy_to :: "u8 list \<Rightarrow> nat \<Rightarrow> u8 list \<Rightarrow> nat \<Rightarrow> u8 list option" where
  "copy_to buf i src n = (if n \<le> length src then store_at buf i (take n src) else None)"

definition ATSHA204m_dev_rev :: "'s sha_port \<Rightarrow> pointer \<Rightarrow> pointer \<Rightarrow> 's \<Rightarrow> 's exchange option" where
  "ATSHA204m_dev_rev p TxBuffer RxBuffer s =
     (case (TxBuffer, RxBuffer) of
        (Some tx, Some rx) \<Rightarrow>
          (case store_at tx 0 [SHA204_CMD_SIZE_MIN, SHA204_DEVREV, 0, 0, 0] of None \<Rightarrow> None
           | Some tx \<Rightarrow> SHA204Ac_send_and_recv p tx rx SHA204_RSP_SIZE_VAL s)
      | _ \<Rightarrow> bad_param TxBuffer RxBuffer s)"

definition ATSHA204m_read :: "'s sha_port \<Rightarrow> pointer \<Rightarrow> pointer \<Rightarrow> u8 \<Rightarrow> u16 \<Rightarrow> 's \<Rightarrow> 's exchange option" where
  "ATSHA204m_read p TxBuffer RxBuffer zone address s =
     (case (TxBuffer, RxBuffer) of
        (Some tx, Some rx) \<Rightarrow>
          if zone AND NOT READ_ZONE_MASK \<noteq> 0 \<or> zone AND READ_ZONE_MODE_32_BYTES \<noteq> 0 \<and> zone = SHA204_ZONE_OTP then bad_param TxBuffer RxBuffer s
          else
            let rx_size = (if zone AND SHA204_ZONE_COUNT_FLAG \<noteq> 0 then SHA204_RSP_SIZE_MAX else SHA204_RSP_SIZE_VAL)
            in case store_at tx 0 [SHA204_CMD_SIZE_MIN, SHA204_READ, zone, ucast (address AND SHA204_ADDRESS_MASK), 0] of None \<Rightarrow> None
               | Some tx \<Rightarrow> SHA204Ac_send_and_recv p tx rx rx_size s
      | _ \<Rightarrow> bad_param TxBuffer RxBuffer s)"

definition ATSHA204m_write :: "'s sha_port \<Rightarrow> pointer \<Rightarrow> pointer \<Rightarrow> u8 \<Rightarrow> u16 \<Rightarrow> pointer \<Rightarrow> pointer \<Rightarrow> 's \<Rightarrow> 's exchange option" where
  "ATSHA204m_write p TxBuffer RxBuffer zone address new_value mac s =
     (case (TxBuffer, RxBuffer, new_value) of
        (Some tx, Some rx, Some value) \<Rightarrow>
          if zone AND NOT WRITE_ZONE_MASK \<noteq> 0 then bad_param TxBuffer RxBuffer s
          else
            let in_data = (zone AND SHA204_ZONE_DATA \<noteq> 0); address = (if in_data then drop_bit 2 address else address)
            in if in_data \<and> address AND 1 \<noteq> 0 then bad_param TxBuffer RxBuffer s
               else
                 let count = (if zone AND SHA204_ZONE_COUNT_FLAG \<noteq> 0 then 32 else 4)
                 in case Option.bind (store_at tx 1 [SHA204_WRITE, zone, ucast (address AND SHA204_ADDRESS_MASK), 0]) (\<lambda>tx. copy_to tx 5 value count)
                    of None \<Rightarrow> None
                    | Some tx \<Rightarrow>
                        (case (case mac of None \<Rightarrow> Some (tx, 5 + count)
                               | Some m \<Rightarrow> map_option (\<lambda>tx. (tx, 5 + count + WRITE_MAC_SIZE)) (copy_to tx (5 + count) m WRITE_MAC_SIZE))
                         of None \<Rightarrow> None
                         | Some (tx, p_command) \<Rightarrow>
                             SHA204Ac_send_and_recv p (tx[0 := of_nat (p_command + unat SHA204_CRC_SIZE)]) rx SHA204_RSP_SIZE_MIN s)
      | _ \<Rightarrow> bad_param TxBuffer RxBuffer s)"

definition ATSHA204m_mac :: "'s sha_port \<Rightarrow> pointer \<Rightarrow> pointer \<Rightarrow> u8 \<Rightarrow> u16 \<Rightarrow> pointer \<Rightarrow> 's \<Rightarrow> 's exchange option" where
  "ATSHA204m_mac p tx_buffer rx_buffer mode key_id challenge s =
     (case (tx_buffer, rx_buffer) of
        (Some tx, Some rx) \<Rightarrow>
          if mode AND NOT MAC_MODE_MASK \<noteq> 0 \<or> mode AND MAC_MODE_BLOCK2_TEMPKEY = 0 \<and> challenge = None then bad_param tx_buffer rx_buffer s
          else
            (case store_at tx 0 [SHA204_CMD_SIZE_MIN, SHA204_MAC, mode, ucast (key_id AND 0xFF), ucast (drop_bit 8 key_id)] of None \<Rightarrow> None
             | Some tx \<Rightarrow>
                 (case (if mode AND MAC_MODE_BLOCK2_TEMPKEY = 0
                        then map_option (\<lambda>tx. tx[0 := MAC_COUNT_LONG]) (copy_to tx 5 (the challenge) MAC_CHALLENGE_SIZE)
                        else Some tx)
                  of None \<Rightarrow> None | Some tx \<Rightarrow> SHA204Ac_send_and_recv p tx rx SHA204_RSP_SIZE_MAX s))
      | _ \<Rightarrow> bad_param tx_buffer rx_buffer s)"

definition sha204m_random :: "'s sha_port \<Rightarrow> pointer \<Rightarrow> pointer \<Rightarrow> u8 \<Rightarrow> 's \<Rightarrow> 's exchange option" where
  "sha204m_random p tx_buffer rx_buffer mode s =
     (case (tx_buffer, rx_buffer) of
        (Some tx, Some rx) \<Rightarrow>
          if mode > RANDOM_NO_SEED_UPDATE then bad_param tx_buffer rx_buffer s
          else
            (case store_at tx 0 [SHA204_CMD_SIZE_MIN, SHA204_RANDOM, mode, 0, 0] of None \<Rightarrow> None
             | Some tx \<Rightarrow> SHA204Ac_send_and_recv p tx rx SHA204_RSP_SIZE_MAX s)
      | _ \<Rightarrow> bad_param tx_buffer rx_buffer s)"

section \<open>The checksum\<close>

text \<open>The register as a fold over the bits of the data, lowest bit of each byte first.\<close>

definition lsb_bits :: "u8 \<Rightarrow> bool list" where
  "lsb_bits b = map (bit b) [0, 1, 2, 3, 4, 5, 6, 7]"

definition data_bits :: "u8 list \<Rightarrow> bool list" where
  "data_bits ds = concat (map lsb_bits ds)"

definition crc_step :: "u16 \<Rightarrow> bool \<Rightarrow> u16" where
  "crc_step r b = (if b = bit r 15 then push_bit 1 r else push_bit 1 r XOR 0x8005)"

lemma top_bit: "(ucast (drop_bit 15 r) :: u8) = of_bool (bit r 15)" for r :: u16
proof (rule bit_word_eqI)
  fix n assume "n < LENGTH(8)"
  moreover have "\<not> bit r (15 + n)" if "n \<noteq> 0" using that by (auto dest: bit_imp_le_length)
  ultimately show "bit (ucast (drop_bit 15 r) :: u8) n = bit (of_bool (bit r 15) :: u8) n"
    by (cases "n = 0") (simp_all add: bit_simps)
qed

lemma crc_turn_step: "crc_turn d sr r = crc_step r (d AND sr \<noteq> 0)"
  by (simp add: crc_turn_def crc_step_def top_bit Let_def)

lemma and_power_bit: "(d AND 2 ^ n \<noteq> 0) = bit d n" for d :: u8
  by (simp add: and_exp_eq_0_iff_not_bit)

lemma crc_byte_step: "sr \<noteq> 0 \<Longrightarrow> crc_byte d sr r = crc_byte d (push_bit 1 sr) (crc_step r (d AND sr \<noteq> 0))"
  using crc_byte.simps [of d sr r] by (simp add: crc_turn_step word_neq_0_conv)

lemma crc_byte_bits: "crc_byte d 1 r = foldl crc_step r (lsb_bits d)"
proof -
  note b = and_power_bit [of d 0] and_power_bit [of d 1] and_power_bit [of d 2] and_power_bit [of d 3]
    and_power_bit [of d 4] and_power_bit [of d 5] and_power_bit [of d 6] and_power_bit [of d 7]
  have "crc_byte d 256 x = x" for x using crc_byte.simps [of d 256 x] by simp
  then show ?thesis
    using b by (simp add: crc_byte_step lsb_bits_def)
qed

lemma crc_loop_bits: "crc_loop ds r = foldl crc_step r (data_bits ds)"
  by (induction ds r rule: crc_loop.induct) (simp_all add: data_bits_def crc_byte_bits)

lemma length_data_bits: "length (data_bits ds) = 8 * length ds"
  by (induction ds) (simp_all add: data_bits_def lsb_bits_def)

text \<open>The register is linear; a zero register stays zero on zero bits and no other register does.\<close>

lemma crc_step_xor: "crc_step r a XOR crc_step s b = crc_step (r XOR s) (a \<noteq> b)"
  by (auto simp: crc_step_def bit_xor_iff push_bit_xor ac_simps xor.left_commute)

lemma crc_fold_xor:
  "length a = length b \<Longrightarrow> foldl crc_step r a XOR foldl crc_step s b = foldl crc_step (r XOR s) (map2 (\<noteq>) a b)"
  by (induction a b arbitrary: r s rule: list_induct2) (simp_all add: crc_step_xor)

lemma crc_step_low:
  assumes "take_bit (Suc m) (crc_step r b) = 0"
  shows "b = bit r 15 \<and> (m < 16 \<longrightarrow> take_bit m r = 0)"
proof -
  have z: "\<not> bit (crc_step r b) n" if "n \<le> m" for n
    using assms that bit_imp_le_length [of "crc_step r b" n] by (auto simp: bit_eq_iff bit_take_bit_iff less_Suc_eq_le)
  have "bit (0x8005 :: u16) 0" by simp
  moreover have "\<not> bit (push_bit 1 r) 0" unfolding bit_push_bit_iff by simp
  ultimately have "bit (push_bit 1 r XOR 0x8005) 0" unfolding bit_xor_iff by blast
  with z [of 0] have b: "b = bit r 15" unfolding crc_step_def by (auto split: if_splits)
  moreover have "take_bit m r = 0" if "m < 16"
  proof (rule bit_word_eqI)
    fix n assume "n < LENGTH(16)"
    have "crc_step r b = push_bit 1 r" unfolding crc_step_def using b by simp
    moreover have "bit (push_bit 1 r) (Suc n) = bit r n" if "n < m" unfolding bit_push_bit_iff using that \<open>m < 16\<close> by simp
    ultimately have "\<not> bit r n" if "n < m" using z [of "Suc n"] that by (metis Suc_leI)
    then show "bit (take_bit m r) n = bit 0 n" by (auto simp: bit_take_bit_iff)
  qed
  ultimately show ?thesis by simp
qed

lemma crc_zeros: "foldl crc_step 0 (replicate n False) = 0"
  by (induction n) (simp_all add: crc_step_def)

lemma crc_zeros_inj: "foldl crc_step r (replicate n False) = 0 \<Longrightarrow> r = 0"
proof (induction n arbitrary: r)
  case (Suc n)
  then have "crc_step r False = 0" by simp
  then have "take_bit (Suc 15) (crc_step r False) = 0" by simp
  from crc_step_low [OF this] have l: "\<not> bit r 15" "take_bit 15 r = 0" by simp_all
  show ?case
  proof (rule bit_word_eqI)
    fix n assume "n < LENGTH(16)"
    moreover have "\<not> bit r n" if "n < 15" using l(2) that by (metis bit_take_bit_iff bit_0_eq bot_apply bot_bool_def)
    ultimately show "bit r n = bit 0 n" using l(1) by (cases "n = 15") auto
  qed
qed simp

lemma crc_burst:
  "take_bit m (foldl crc_step 0 bs) = 0 \<Longrightarrow> length bs \<le> m \<Longrightarrow> m \<le> 16 \<Longrightarrow> bs = replicate (length bs) False"
proof (induction bs arbitrary: m rule: rev_induct)
  case (snoc b bs)
  then obtain k where m: "m = Suc k" by (cases m) auto
  with snoc.prems crc_step_low [of k "foldl crc_step 0 bs" b]
  have l: "b = bit (foldl crc_step 0 bs) 15" "take_bit k (foldl crc_step 0 bs) = 0" by simp_all
  with snoc.IH [of k] snoc.prems m have bs: "bs = replicate (length bs) False" by simp
  then have "foldl crc_step 0 bs = 0" using crc_zeros [of "length bs"] by simp
  with l(1) have "\<not> b" by simp
  with bs show ?case using replicate_append_same [of "length bs" False] by simp
qed simp

lemma map2_neq_replicate: "length v = length v' \<Longrightarrow> map2 (\<noteq>) v v' = replicate (length v) False \<Longrightarrow> v = v'"
  by (induction v v' rule: list_induct2) auto

lemma crc_detects:
  assumes "length v = length v'" "length v \<le> 16" "v \<noteq> v'"
  shows "foldl crc_step 0 (u @ v @ w) \<noteq> foldl crc_step 0 (u @ v' @ w)"
proof
  let ?d = "map2 (\<noteq>) v v'"
  have z: "map2 (\<lambda>x y. x = (\<not> y)) x x = replicate (length x) False" for x :: "bool list" by (induction x) simp_all
  assume "foldl crc_step 0 (u @ v @ w) = foldl crc_step 0 (u @ v' @ w)"
  then have "foldl crc_step 0 (u @ v @ w) XOR foldl crc_step 0 (u @ v' @ w) = 0" by simp
  then have "foldl crc_step 0 (replicate (length u) False @ ?d @ replicate (length w) False) = 0"
    using crc_fold_xor [of "u @ v @ w" "u @ v' @ w" 0 0] assms(1) by (simp add: z)
  then have "foldl crc_step 0 ?d = 0" by (auto simp: crc_zeros dest: crc_zeros_inj)
  then have "take_bit 16 (foldl crc_step 0 ?d) = 0" by simp
  from crc_burst [OF this] assms have "?d = replicate (length v) False" by simp
  with map2_neq_replicate [OF assms(1)] assms(3) show False by blast
qed

lemma crc_bytes_inj:
  fixes r s :: u16
  assumes "ucast (r AND 0x00FF) = (ucast (s AND 0x00FF) :: u8)" "ucast (drop_bit 8 r) = (ucast (drop_bit 8 s) :: u8)"
  shows "r = s"
proof (rule bit_word_eqI)
  fix n assume n: "n < LENGTH(16)"
  have m: "(0x00FF :: u16) = mask 8" by (simp add: mask_eq_exp_minus_1)
  show "bit r n = bit s n"
  proof (cases "n < 8")
    case True
    with arg_cong [OF assms(1), of "\<lambda>w. bit w n"] show ?thesis by (simp add: m bit_simps)
  next
    case False
    then have "n - 8 < 8" using n by simp
    with False arg_cong [OF assms(2), of "\<lambda>w. bit w (n - 8)"] show ?thesis by (simp add: bit_simps)
  qed
qed

text \<open>The checksum bytes of some data.\<close>

definition crc_of :: "u8 list \<Rightarrow> u8 list" where
  "crc_of ds = (let r = foldl crc_step 0 (data_bits ds) in [ucast (r AND 0x00FF), ucast (drop_bit 8 r)])"

lemma length_crc_of [simp]: "length (crc_of ds) = 2"
  by (simp add: crc_of_def Let_def)

lemma calculate_crc_of: "unat n \<le> length d \<Longrightarrow> SHA204Ac_calculate_crc n d = Some (crc_of (take (unat n) d) ! 0, crc_of (take (unat n) d) ! 1)"
  by (simp add: SHA204Ac_calculate_crc_def crc_of_def crc_loop_bits Let_def)

text \<open>A packet: data that starts with the count, two bytes of checksum, and what follows them in the buffer.\<close>

definition counted :: "u8 list \<Rightarrow> bool" where
  "counted ds \<longleftrightarrow> ds \<noteq> [] \<and> unat (hd ds) = length ds + 2"

lemma counted_minus: "counted ds \<Longrightarrow> unat (hd ds - SHA204_CRC_SIZE) = length ds"
  by (simp add: counted_def c_consts unat_sub word_le_nat_alt)

lemma check_crc_packet:
  assumes "counted ds" "length c = 2"
  shows "SHA204Ac_check_crc (ds @ c @ rest) = Some (c \<noteq> crc_of ds)"
proof -
  obtain d es where ds: "ds = d # es" using assms(1) by (cases ds) (auto simp: counted_def)
  obtain c0 c1 where c: "c = [c0, c1]" using assms(2) by (auto simp: numeral_2_eq_2 length_Suc_conv)
  obtain x y where x: "crc_of ds = [x, y]" by (simp add: crc_of_def Let_def)
  have n: "unat (d - SHA204_CRC_SIZE) = length ds" using counted_minus [OF assms(1)] ds by simp
  have "SHA204Ac_calculate_crc (d - SHA204_CRC_SIZE) (ds @ c @ rest) = Some (x, y)"
    using calculate_crc_of [of "d - SHA204_CRC_SIZE" "ds @ c @ rest"] by (simp add: n x)
  moreover have "(ds @ c @ rest) ! length ds = c0" "(ds @ c @ rest) ! (length ds + 1) = c1" by (simp_all add: c nth_append)
  ultimately show ?thesis
    using ds n c x by (simp add: SHA204Ac_check_crc_def Let_def) (auto)
qed

lemma check_crc_split:
  assumes "buf \<noteq> []" "2 < unat (buf ! 0)" "unat (buf ! 0) \<le> length buf"
  shows "SHA204Ac_check_crc buf = Some (take 2 (drop (unat (buf ! 0) - 2) buf) \<noteq> crc_of (take (unat (buf ! 0) - 2) buf))"
proof -
  let ?n = "unat (buf ! 0) - 2"
  have "counted (take ?n buf)" using assms by (auto simp: counted_def hd_conv_nth)
  moreover have "length (take 2 (drop ?n buf)) = 2" using assms by simp
  moreover have "take ?n buf @ take 2 (drop ?n buf) @ drop (2 + ?n) buf = buf"
    by (metis append_take_drop_id drop_drop)
  ultimately show ?thesis using check_crc_packet [of "take ?n buf" "take 2 (drop ?n buf)" "drop (2 + ?n) buf"] by simp
qed

section \<open>Exchanges\<close>

text \<open>The packet that a command buffer becomes: its first \<open>n - 2\<close> bytes and their checksum.\<close>

definition command_packet :: "u8 list \<Rightarrow> u8 list" where
  "command_packet tx = (let ds = take (unat (hd tx) - 2) tx in ds @ crc_of ds)"

lemma update_two: "Suc m < length xs \<Longrightarrow> xs[m := a, m + 1 := b] = take m xs @ [a, b] @ drop (m + 2) xs"
proof (induction m arbitrary: xs)
  case 0
  then obtain x y zs where "xs = x # y # zs" by (cases xs; cases "tl xs") auto
  then show ?case by simp
next
  case (Suc m)
  then obtain x ys where "xs = x # ys" by (cases xs) auto
  with Suc show ?case by simp
qed

lemma send_and_recv_exec:
  assumes tx: "tx \<noteq> []" "7 \<le> unat (hd tx)" "unat (hd tx) \<le> length tx" and rx: "unat n \<le> length rx"
  defines "tx' \<equiv> command_packet tx @ drop (unat (hd tx)) tx"
  shows "SHA204Ac_send_and_recv p tx rx n s =
     (let (e, s1) = port_write p 3 (command_packet tx) s
      in if e then Some (1, tx', rx, s1)
         else case port_read p n (replicate (unat n) 0 @ drop (unat n) rx) s1 of None \<Rightarrow> None | Some (e, rx', s2) \<Rightarrow>
           if e then Some (1, tx', rx', s2) else map_option (\<lambda>c. (if c then 1 else 0, tx', rx', s2)) (SHA204Ac_check_crc rx'))"
proof -
  let ?m = "unat (hd tx) - 2" let ?ds = "take (unat (hd tx) - 2) tx"
  obtain c cs where c: "tx = c # cs" using tx(1) by (cases tx) auto
  have ds: "counted ?ds" "length ?ds = ?m" using tx by (auto simp: counted_def hd_conv_nth)
  have h: "hd ?ds = c" using tx c by (simp add: hd_conv_nth)
  have m: "unat (c - SHA204_CRC_SIZE) = ?m" using counted_minus [OF ds(1)] ds(2) h by simp
  have crc: "SHA204Ac_calculate_crc (c - SHA204_CRC_SIZE) tx = Some (crc_of ?ds ! 0, crc_of ?ds ! 1)"
    using calculate_crc_of [of "c - SHA204_CRC_SIZE" tx] tx(3) by (simp add: m)
  have "tx[?m := crc_of ?ds ! 0, ?m + 1 := crc_of ?ds ! 1] = ?ds @ [crc_of ?ds ! 0, crc_of ?ds ! 1] @ drop (?m + 2) tx"
    using tx by (intro update_two) simp
  moreover have "[crc_of ?ds ! 0, crc_of ?ds ! 1] = crc_of ?ds" by (simp add: crc_of_def Let_def)
  moreover have "?m + 2 = unat (hd tx)" using tx(2) by simp
  ultimately have "tx[?m := crc_of ?ds ! 0, ?m + 1 := crc_of ?ds ! 1] = ?ds @ crc_of ?ds @ drop (unat (hd tx)) tx" by simp
  then have u: "tx[?m := crc_of ?ds ! 0, ?m + 1 := crc_of ?ds ! 1] = tx'"
    by (simp add: tx'_def command_packet_def Let_def)
  have ok: "SHA204Ac_check_crc tx' = Some False"
    using check_crc_packet [OF ds(1) length_crc_of, of ?ds "drop (unat (hd tx)) tx"] by (simp add: tx'_def command_packet_def Let_def)
  have l: "length (command_packet tx) = unat (hd tx)" using tx by (simp add: command_packet_def Let_def)
  have "tx' ! 0 = c" using tx c by (simp add: tx'_def command_packet_def Let_def nth_append)
  moreover have "length tx' = length tx" using tx(3) l by (simp add: tx'_def)
  moreover have "take (unat (hd tx)) tx' = command_packet tx" by (simp add: tx'_def l)
  moreover have "\<not> length tx \<le> ?m + 1" using tx by simp
  moreover obtain e s1 where w: "port_write p 3 (command_packet tx) s = (e, s1)" by fastforce
  ultimately show ?thesis
    unfolding SHA204Ac_send_and_recv_def using crc u ok m tx(3) rx c
    by (simp add: Let_def SHA204Ac_send_cmd_def SHA204Ac_recv_response_def map_option_case cong: option.case_cong if_cong)
qed

text \<open>
  What the packet layer needs of the bus: a read into a buffer of at least the limit stores inside the buffer, keeps its size, and when it succeeds the first byte
  is a count between 4 and the limit. With it no access of the packet layer leaves a buffer.
\<close>

locale sha_link =
  fixes p :: "'s sha_port"
  assumes read_law: "unat n \<le> length buf \<Longrightarrow>
    \<exists>e buf' s'. port_read p n buf s = Some (e, buf', s') \<and> length buf' = length buf \<and> (\<not> e \<longrightarrow> 4 \<le> buf' ! 0 \<and> buf' ! 0 \<le> n)"
begin

lemma read_check:
  assumes "port_read p n buf s = Some (False, buf', s')" "unat n \<le> length buf"
  shows "SHA204Ac_check_crc buf' =
    Some (take 2 (drop (unat (buf' ! 0) - 2) buf') \<noteq> crc_of (take (unat (buf' ! 0) - 2) buf'))"
proof (rule check_crc_split)
  from read_law [OF assms(2), of s] assms(1) have l: "length buf' = length buf" "4 \<le> unat (buf' ! 0)" "unat (buf' ! 0) \<le> unat n"
    by (auto simp: word_le_nat_alt)
  with assms(2) show "buf' \<noteq> []" "2 < unat (buf' ! 0)" "unat (buf' ! 0) \<le> length buf'" by auto
qed

text \<open>The wake-up succeeds exactly on the answer 04 11 33 43.\<close>

lemma wakeup_value:
  assumes "port_read p 7 (replicate 7 0) (port_wake p s) = Some (e, b, s')"
  shows "SHA204Ac_wakeup p s = Some (of_bool (e \<or> take 4 b \<noteq> [4, 0x11, 0x33, 0x43]), s')"
proof (cases e)
  case False
  have "length b = 7" using read_law [of 7 "replicate 7 0" "port_wake p s"] assms by auto
  then have t: "take 4 b = [b ! 0, b ! 1, b ! 2, b ! 3]"
    by (auto simp: list_eq_iff_nth_eq less_Suc_eq numeral_eq_Suc)
  from False assms read_check [of 7 "replicate 7 0"] show ?thesis by (simp add: SHA204Ac_wakeup_def c_consts t)
qed (use assms in \<open>simp add: SHA204Ac_wakeup_def c_consts\<close>)

lemma wakeup_total: "\<exists>r s'. SHA204Ac_wakeup p s = Some (r, s')"
proof -
  obtain e b s' where "port_read p 7 (replicate 7 0) (port_wake p s) = Some (e, b, s')"
    using read_law [of 7 "replicate 7 0" "port_wake p s"] by auto
  from wakeup_value [OF this] show ?thesis by blast
qed

lemma exchange:
  assumes tx: "tx \<noteq> []" "7 \<le> unat (hd tx)" "unat (hd tx) \<le> length tx" and rx: "unat n \<le> length rx"
  shows "\<exists>r tx' rx' s'. SHA204Ac_send_and_recv p tx rx n s = Some (r, tx', rx', s') \<and> length tx' = length tx \<and> length rx' = length rx"
proof -
  obtain e s1 where w: "port_write p 3 (command_packet tx) s = (e, s1)" by fastforce
  obtain e2 rx' s2 where r: "port_read p n (replicate (unat n) 0 @ drop (unat n) rx) s1 = Some (e2, rx', s2)" "length rx' = length rx"
    using read_law [of n "replicate (unat n) 0 @ drop (unat n) rx" s1] rx by auto
  have "length (command_packet tx @ drop (unat (hd tx)) tx) = length tx" using tx by (simp add: command_packet_def Let_def)
  then show ?thesis
    using w r read_check [of n _ s1 rx' s2] rx by (cases e; cases e2) (auto simp: send_and_recv_exec [OF tx rx])
qed

end

interpretation i2c: sha_link "i2c_port dev"
  by unfold_locales (simp only: i2c_port_def sha_port.simps, rule Read_law)

section \<open>Properties\<close>

text \<open>
  C38: \<open>SHA204Ac_check_crc\<close> refuses every damaged packet whose damage lies within sixteen successive bits: if the data of a packet passes with some
  checksum, other data with the same count that differs from it in a run of at most sixteen bits does not pass with that checksum.
\<close>

theorem crc_detects_bursts:
  assumes "counted ds" "counted ds'" and "SHA204Ac_check_crc (ds @ [c0, c1] @ rest) = Some False"
    and "data_bits ds = u @ v @ w" "data_bits ds' = u @ v' @ w" "length v = length v'" "length v \<le> 16" "v \<noteq> v'"
  shows "SHA204Ac_check_crc (ds' @ [c0, c1] @ rest') = Some True"
proof -
  have "[c0, c1] = crc_of ds" using assms(3) check_crc_packet [OF assms(1), of "[c0, c1]" rest] by simp
  moreover have "crc_of ds \<noteq> crc_of ds'"
    using crc_detects [OF assms(6-8), of u w] crc_bytes_inj assms(4,5) unfolding crc_of_def Let_def by auto
  ultimately show ?thesis using check_crc_packet [OF assms(2), of "[c0, c1]" rest'] by simp
qed

theorem crc_detects_bursts_witness:
  "SHA204Ac_check_crc [4, 0x11, 0x33, 0x43] = Some False \<and> SHA204Ac_check_crc [4, 0x0F, 0x33, 0x43] = Some True"
proof -
  have b: "data_bits [4, 0x11] = lsb_bits 4 @ lsb_bits 0x11 @ []" "data_bits [4, 0x0F] = lsb_bits 4 @ lsb_bits 0x0F @ []"
    by (simp_all add: data_bits_def)
  have "crc_of [4, 0x11] = [0x33, 0x43]" by (simp add: crc_of_def data_bits_def lsb_bits_def crc_step_def)
  moreover have c: "counted [4, 0x11]" "counted [4, 0x0F]" by (simp_all add: counted_def)
  ultimately have ok: "SHA204Ac_check_crc ([4, 0x11] @ [0x33, 0x43] @ []) = Some False"
    using check_crc_packet [of "[4, 0x11]" "[0x33, 0x43]" "[]"] by simp
  moreover have "length (lsb_bits 0x11) = length (lsb_bits 0x0F)" "length (lsb_bits 0x11) \<le> 16" "lsb_bits 0x11 \<noteq> lsb_bits 0x0F"
    by (simp_all add: lsb_bits_def)
  from crc_detects_bursts [OF c ok b this, of "[]"] ok show ?thesis by simp
qed

end
