(* ===== verification/Sha204_Auth.thy ===== *)
theory Sha204_Auth
  imports Sha256 Sha204_Comm "HOL-Library.Monad_Syntax"
begin

text \<open>
  The check of the authentication chip when the firmware starts: the keys of \<open>SHA204A/sha204_data.c\<close>, the message digest of
  \<open>SHA204A/sha204_authentication.c\<close> and the protocol of \<open>SHA204A/sha204a.c\<close>. The theorems run the whole stack, from the levels on the data line
  through the packets to the digest.
\<close>

section \<open>The code\<close>

definition key_dat :: "u8 list list" where
  "key_dat =
    [[0x6a, 0x32, 0x79, 0x6e, 0x45, 0x41, 0x55, 0x4e, 0x75, 0x46, 0x58, 0x68, 0x43, 0x37, 0x31, 0x4a,
      0x34, 0x59, 0x72, 0x31, 0x32, 0x69, 0x77, 0x6d, 0x47, 0x48, 0x49, 0x44, 0x36, 0x56, 0x5a, 0x6b],
     [0x78, 0x31, 0x63, 0x4d, 0x78, 0x7a, 0x77, 0x53, 0x35, 0x64, 0x37, 0x30, 0x30, 0x77, 0x70, 0x74,
      0x56, 0x6a, 0x61, 0x68, 0x72, 0x58, 0x47, 0x4c, 0x65, 0x64, 0x44, 0x75, 0x5a, 0x78, 0x70, 0x45],
     [0x67, 0x41, 0x6f, 0x43, 0x4b, 0x51, 0x66, 0x32, 0x54, 0x4e, 0x31, 0x77, 0x76, 0x32, 0x69, 0x78,
      0x49, 0x35, 0x35, 0x49, 0x38, 0x78, 0x37, 0x6b, 0x6e, 0x44, 0x46, 0x72, 0x76, 0x75, 0x69, 0x70],
     [0x47, 0x71, 0x69, 0x36, 0x35, 0x78, 0x41, 0x54, 0x43, 0x33, 0x65, 0x4a, 0x68, 0x44, 0x67, 0x46,
      0x30, 0x65, 0x78, 0x51, 0x7a, 0x48, 0x55, 0x30, 0x67, 0x50, 0x64, 0x43, 0x30, 0x66, 0x4d, 0x57],
     [0x69, 0x35, 0x4d, 0x57, 0x75, 0x65, 0x63, 0x79, 0x46, 0x71, 0x4f, 0x4b, 0x4c, 0x4b, 0x70, 0x38,
      0x70, 0x72, 0x59, 0x69, 0x44, 0x35, 0x64, 0x54, 0x47, 0x47, 0x41, 0x61, 0x4c, 0x4b, 0x59, 0x38],
     [0x65, 0x7a, 0x39, 0x69, 0x61, 0x78, 0x72, 0x63, 0x31, 0x62, 0x71, 0x45, 0x4f, 0x34, 0x56, 0x54,
      0x6d, 0x51, 0x78, 0x43, 0x34, 0x49, 0x76, 0x4b, 0x6c, 0x6e, 0x50, 0x52, 0x62, 0x54, 0x55, 0x62],
     [0x6c, 0x41, 0x37, 0x6f, 0x5a, 0x39, 0x35, 0x34, 0x45, 0x69, 0x41, 0x30, 0x74, 0x39, 0x75, 0x73,
      0x6f, 0x41, 0x79, 0x6f, 0x6a, 0x36, 0x5a, 0x74, 0x4c, 0x30, 0x58, 0x71, 0x51, 0x6a, 0x6a, 0x5a],
     [0x79, 0x42, 0x39, 0x30, 0x45, 0x44, 0x50, 0x6d, 0x57, 0x68, 0x73, 0x78, 0x64, 0x6b, 0x63, 0x55,
      0x7a, 0x63, 0x4d, 0x59, 0x61, 0x7a, 0x67, 0x71, 0x58, 0x31, 0x79, 0x68, 0x67, 0x56, 0x70, 0x76],
     [0x4f, 0x58, 0x41, 0x4c, 0x6e, 0x41, 0x57, 0x67, 0x64, 0x46, 0x47, 0x65, 0x34, 0x6b, 0x41, 0x4c,
      0x43, 0x55, 0x6e, 0x48, 0x70, 0x4b, 0x4c, 0x31, 0x79, 0x63, 0x6b, 0x73, 0x76, 0x51, 0x66, 0x39],
     [0x69, 0x45, 0x4e, 0x56, 0x39, 0x6b, 0x33, 0x4e, 0x44, 0x41, 0x55, 0x35, 0x64, 0x31, 0x35, 0x78,
      0x44, 0x59, 0x47, 0x72, 0x51, 0x4b, 0x46, 0x6d, 0x6b, 0x4e, 0x4e, 0x51, 0x42, 0x33, 0x56, 0x6b],
     [0x42, 0x6e, 0x6a, 0x6e, 0x75, 0x38, 0x52, 0x47, 0x64, 0x68, 0x56, 0x61, 0x69, 0x48, 0x6b, 0x4d,
      0x79, 0x6b, 0x4d, 0x66, 0x49, 0x62, 0x62, 0x74, 0x30, 0x70, 0x51, 0x56, 0x33, 0x51, 0x41, 0x61],
     [0x67, 0x62, 0x4f, 0x33, 0x59, 0x6a, 0x31, 0x53, 0x62, 0x62, 0x51, 0x74, 0x52, 0x48, 0x6f, 0x52,
      0x33, 0x31, 0x70, 0x6d, 0x66, 0x54, 0x45, 0x55, 0x76, 0x4a, 0x71, 0x6f, 0x6d, 0x34, 0x7a, 0x36],
     [0x73, 0x62, 0x38, 0x52, 0x49, 0x51, 0x67, 0x73, 0x51, 0x66, 0x39, 0x6c, 0x41, 0x54, 0x37, 0x79,
      0x4a, 0x66, 0x35, 0x53, 0x6c, 0x4d, 0x31, 0x63, 0x66, 0x31, 0x6b, 0x7a, 0x6a, 0x62, 0x67, 0x33],
     [0x58, 0x41, 0x56, 0x31, 0x62, 0x48, 0x47, 0x79, 0x54, 0x41, 0x73, 0x4d, 0x59, 0x58, 0x39, 0x61,
      0x42, 0x31, 0x74, 0x43, 0x6f, 0x49, 0x42, 0x30, 0x65, 0x6b, 0x69, 0x70, 0x61, 0x37, 0x4b, 0x37],
     [0x35, 0x32, 0x73, 0x58, 0x50, 0x4b, 0x76, 0x56, 0x69, 0x46, 0x4d, 0x47, 0x58, 0x56, 0x37, 0x6f,
      0x76, 0x77, 0x62, 0x4e, 0x76, 0x71, 0x39, 0x53, 0x4a, 0x77, 0x6f, 0x70, 0x36, 0x35, 0x64, 0x4a],
     [0x59, 0x77, 0x78, 0x35, 0x4b, 0x49, 0x37, 0x34, 0x71, 0x55, 0x52, 0x6b, 0x6b, 0x42, 0x52, 0x41,
      0x31, 0x43, 0x75, 0x6e, 0x46, 0x34, 0x69, 0x65, 0x66, 0x31, 0x68, 0x54, 0x71, 0x59, 0x42, 0x31]]"

definition MAC_MODE_BLOCK1_TEMPKEY :: u8 where [c_consts]: "MAC_MODE_BLOCK1_TEMPKEY = 0x02"
definition MAC_MODE_SOURCE_FLAG_MATCH :: u8 where [c_consts]: "MAC_MODE_SOURCE_FLAG_MATCH = 0x04"
definition MAC_MODE_INCLUDE_OTP_88 :: u8 where [c_consts]: "MAC_MODE_INCLUDE_OTP_88 = 0x10"
definition MAC_MODE_INCLUDE_OTP_64 :: u8 where [c_consts]: "MAC_MODE_INCLUDE_OTP_64 = 0x20"
definition MAC_MODE_INCLUDE_SN :: u8 where [c_consts]: "MAC_MODE_INCLUDE_SN = 0x50"
definition MAC_MODE_USE_TEMPKEY_MASK :: u8 where [c_consts]: "MAC_MODE_USE_TEMPKEY_MASK = 0x03"
definition SHA204_SN_0 :: u8 where [c_consts]: "SHA204_SN_0 = 0x01"
definition SHA204_SN_1 :: u8 where [c_consts]: "SHA204_SN_1 = 0x23"
definition SHA204_SN_8 :: u8 where [c_consts]: "SHA204_SN_8 = 0xEE"
definition SHA204_MSG_SIZE_MAC :: nat where [c_consts]: "SHA204_MSG_SIZE_MAC = 88"

record sha204h_temp_key =
  tk_value :: "u8 list"
  tk_key_id :: "4 word"
  tk_source_flag :: bool
  tk_gen_data :: bool
  tk_check_flag :: bool
  tk_valid :: bool

record sha204h_mac_in_out =
  m_mode :: u8
  m_key_id :: u16
  m_challenge :: pointer
  m_key :: pointer
  m_otp :: pointer
  m_sn :: pointer
  m_response :: pointer
  m_temp_key :: "sha204h_temp_key option"

text \<open>A copy of \<open>n\<close> bytes from index \<open>i\<close> of an array; \<open>None\<close> when it does not hold them.\<close>

definition fetch :: "u8 list option \<Rightarrow> nat \<Rightarrow> nat \<Rightarrow> u8 list option" where
  "fetch a i n = (case a of None \<Rightarrow> None | Some bs \<Rightarrow> if i + n \<le> length bs then Some (take n (drop i bs)) else None)"

text \<open>\<open>garbage\<close> is what the stack held where \<open>create_sha256\<close> has its array.\<close>

definition sha204h_calculate_sha256 :: "(nat \<Rightarrow> u32) \<Rightarrow> nat \<Rightarrow> u8 list \<Rightarrow> u8 list option" where
  "sha204h_calculate_sha256 garbage n message = (case create_sha256 (map garbage [0..<64]) n message of Inl _ \<Rightarrow> None | Inr d \<Rightarrow> Some d)"

definition mode_has :: "sha204h_mac_in_out \<Rightarrow> u8 \<Rightarrow> bool" where
  "mode_has param m \<longleftrightarrow> m_mode param AND m \<noteq> 0"

text \<open>The array \<open>temporary\<close>, parts (1) to (11).\<close>

definition mac_temporary :: "sha204h_mac_in_out \<Rightarrow> u8 list option" where
  "mac_temporary param =
     (let tk = map_option tk_value (m_temp_key param)
      in do {
        first \<leftarrow> fetch (if mode_has param MAC_MODE_BLOCK1_TEMPKEY then tk else m_key param) 0 32;
        second \<leftarrow> fetch (if mode_has param MAC_MODE_BLOCK2_TEMPKEY then tk else m_challenge param) 0 32;
        otp \<leftarrow> (if mode_has param MAC_MODE_INCLUDE_OTP_88 then fetch (m_otp param) 0 11
                else do {
                  o8 \<leftarrow> (if mode_has param MAC_MODE_INCLUDE_OTP_64 then fetch (m_otp param) 0 8 else Some (replicate 8 0));
                  Some (o8 @ replicate 3 0)
                });
        sn4 \<leftarrow> (if mode_has param MAC_MODE_INCLUDE_SN then fetch (m_sn param) 4 4 else Some (replicate 4 0));
        sn2 \<leftarrow> (if mode_has param MAC_MODE_INCLUDE_SN then fetch (m_sn param) 2 2 else Some (replicate 2 0));
        Some (first @ second @ [SHA204_MAC, m_mode param, ucast (m_key_id param AND 0xFF), ucast (drop_bit 8 (m_key_id param) AND 0xFF)] @ otp
          @ [SHA204_SN_8] @ sn4 @ [SHA204_SN_0, SHA204_SN_1] @ sn2)
      })"

definition sha204h_mac :: "(nat \<Rightarrow> u32) \<Rightarrow> sha204h_mac_in_out \<Rightarrow> (int \<times> sha204h_mac_in_out) option" where
  "sha204h_mac garbage param =
     (if m_response param = None
         \<or> m_mode param AND NOT MAC_MODE_MASK \<noteq> 0
         \<or> \<not> mode_has param MAC_MODE_BLOCK1_TEMPKEY \<and> m_key param = None
         \<or> \<not> mode_has param MAC_MODE_BLOCK2_TEMPKEY \<and> m_challenge param = None
         \<or> mode_has param MAC_MODE_USE_TEMPKEY_MASK \<and> m_temp_key param = None
         \<or> mode_has param MAC_MODE_INCLUDE_OTP_64 \<and> m_otp param = None
         \<or> mode_has param MAC_MODE_INCLUDE_OTP_88 \<and> m_otp param = None
         \<or> mode_has param MAC_MODE_INCLUDE_SN \<and> m_sn param = None
      then Some (- 1, param)
      else if mode_has param MAC_MODE_USE_TEMPKEY_MASK
         \<and> (let tk = the (m_temp_key param)
            in tk_check_flag tk \<or> \<not> tk_valid tk \<or> (\<not> mode_has param MAC_MODE_SOURCE_FLAG_MATCH) \<noteq> (\<not> tk_source_flag tk))
      then Some (- 2, param\<lparr>m_temp_key := map_option (tk_valid_update (\<lambda>_. False)) (m_temp_key param)\<rparr>)
      else do {
        temporary \<leftarrow> mac_temporary param;
        digest \<leftarrow> sha204h_calculate_sha256 garbage SHA204_MSG_SIZE_MAC temporary;
        response \<leftarrow> store_at (the (m_response param)) 0 digest;
        Some (0, param\<lparr>m_response := Some response, m_temp_key := map_option (tk_valid_update (\<lambda>_. False)) (m_temp_key param)\<rparr>)
      })"

text \<open>The buffers of \<open>sha204_authentication\<close>, the globals \<open>challenge\<close> and \<open>response\<close>, and the bus.\<close>

record 's auth =
  a_tx :: "u8 list"
  a_rx :: "u8 list"
  a_challenge :: "u8 list"
  a_response :: "u8 list"
  a_bus :: 's

definition challenge_default :: "u8 list" where
  "challenge_default =
     [0x00, 0x11, 0x22, 0x33, 0x44, 0x55, 0x66, 0x77, 0x88, 0x99, 0xAA, 0xBB, 0xCC, 0xDD, 0xEE, 0xFF,
      0x00, 0x11, 0x22, 0x33, 0x44, 0x55, 0x66, 0x77, 0x88, 0x99, 0xAA, 0xBB, 0xCC, 0xDD, 0xEE, 0xFF]"

definition sha204a_mac_random :: "(nat \<Rightarrow> u32) \<Rightarrow> 's sha_port \<Rightarrow> 's auth \<Rightarrow> (int \<times> 's auth) option" where
  "sha204a_mac_random garbage p a =
     do {
       let key_id = 0x0C;
       (r, tx, rx, s) \<leftarrow> sha204m_random p (Some (a_tx a)) (Some (a_rx a)) 0 (a_bus a);
       challenge \<leftarrow> (if r \<noteq> 0 then Some (a_challenge a)
                     else if rx = [] then None
                     else if rx ! 0 = SHA204_RSP_SIZE_MAX then fetch (Some rx) 1 MAC_CHALLENGE_SIZE
                     else Some (a_challenge a));
       (r, tx, rx, s) \<leftarrow> ATSHA204m_mac p (Some tx) (Some rx) 0 key_id (Some challenge) s;
       let a = a\<lparr>a_tx := tx, a_rx := rx, a_challenge := challenge, a_bus := s\<rparr>;
       if r \<noteq> 0 then Some (- 1, a)
       else if rx = [] then None
       else if rx ! 0 \<noteq> SHA204_RSP_SIZE_MAX then Some (- 1, a)
       else do {
         (c, param) \<leftarrow> sha204h_mac garbage
           \<lparr>m_mode = 0, m_key_id = key_id, m_challenge = Some challenge, m_key = Some (key_dat ! unat key_id), m_otp = None, m_sn = None,
            m_response = Some (a_response a), m_temp_key = None\<rparr>;
         let a = a\<lparr>a_response := the (m_response param)\<rparr>;
         if c < 0 then Some (- 1, a)
         else do {
           mac_res_data \<leftarrow> fetch (Some rx) 1 32;
           mine \<leftarrow> fetch (Some (a_response a)) 0 32;
           Some (if mac_res_data = mine then 0 else - 1, a)
         }
       }
     }"

text \<open>
  The start-up check. \<open>None\<close> is a call that does not return: after a failure the code waits in a loop without an exit. An access outside an array is
  the value \<open>Inl\<close>.
\<close>

datatype memory_fault = Out_of_bounds

partial_function (option) wait_forever :: "'s \<Rightarrow> 'a option" where
  "wait_forever s = wait_forever s"

definition auth_failed :: "'s sha_port \<Rightarrow> 's auth \<Rightarrow> (memory_fault + int \<times> 's auth) option" where
  "auth_failed p a = (let (_, s) = SHA204Ac_sleep p (a_bus a) in wait_forever (a\<lparr>a_bus := s\<rparr>))"

definition sha204_authentication ::
  "(nat \<Rightarrow> u32) \<Rightarrow> 's sha_port \<Rightarrow> u8 list \<Rightarrow> u8 list \<Rightarrow> 's \<Rightarrow> (memory_fault + int \<times> 's auth) option" where
  "sha204_authentication garbage p challenge response s =
     (let a = \<lparr>a_tx = replicate (unat SHA204_CMD_SIZE_MAX) 0, a_rx = replicate (unat SHA204_RSP_SIZE_MAX) 0,
               a_challenge = challenge, a_response = response, a_bus = port_init p s\<rparr>
      in case SHA204Ac_wakeup p (a_bus a) of
           None \<Rightarrow> Some (Inl Out_of_bounds)
         | Some (r, s) \<Rightarrow>
             let a = a\<lparr>a_bus := s\<rparr>
             in if r \<noteq> 0 then auth_failed p a
                else case sha204a_mac_random garbage p a of
                    None \<Rightarrow> Some (Inl Out_of_bounds)
                  | Some (c, a) \<Rightarrow>
                      if c < 0 then auth_failed p a
                      else let (_, s) = SHA204Ac_sleep p (a_bus a) in Some (Inr (0, a\<lparr>a_bus := s\<rparr>)))"

section \<open>The digest\<close>

lemma wait_forever_None: "wait_forever s = (None :: 'a option)"
proof -
  have "False" if "wait_forever s = Some y" for y :: 'a
    by (rule wait_forever.raw_induct [of "\<lambda>_ _. False", OF _ that]) assumption
  then show ?thesis by (cases "wait_forever s :: 'a option") auto
qed

lemma fetch_Some [simp]: "fetch (Some bs) i n = (if i + n \<le> length bs then Some (take n (drop i bs)) else None)"
  by (simp add: fetch_def)

lemma length_fetch: "fetch a i n = Some bs \<Longrightarrow> length bs = n"
  by (auto simp: fetch_def split: option.splits if_splits)

lemma length_temporary: "mac_temporary param = Some t \<Longrightarrow> length t = SHA204_MSG_SIZE_MAC"
  by (auto simp: mac_temporary_def Let_def SHA204_MSG_SIZE_MAC_def dest!: length_fetch split: bind_splits if_splits)

lemma length_sha256: "length (sha256 m) = 32"
proof -
  have "length (concat (map digest_bytes h)) = 4 * length h" for h
    by (induction h) (simp_all add: digest_bytes_def)
  moreover have "length h = 8 \<Longrightarrow> length (foldl compress h bs) = 8" for h bs
    by (induction bs arbitrary: h) (simp_all add: compress_def of_chain_def split: prod.splits)
  ultimately show ?thesis by (simp add: sha256_def sha_hash_def)
qed

lemma calculate_digest: "length t = SHA204_MSG_SIZE_MAC \<Longrightarrow> sha204h_calculate_sha256 garbage SHA204_MSG_SIZE_MAC t = Some (sha256 t)"
  using create_sha256_ok [of t "map garbage [0..<64]"] by (simp add: sha204h_calculate_sha256_def SHA204_MSG_SIZE_MAC_def)

text \<open>The message authentication code of the chip for a key, the number of the key and a challenge, without one time programming data and serial number.\<close>

definition mac_of :: "u16 \<Rightarrow> u8 list \<Rightarrow> u8 list \<Rightarrow> u8 list" where
  "mac_of key_id key challenge =
     sha256 (key @ challenge @ [0x08, 0, ucast key_id, ucast (drop_bit 8 key_id)] @ replicate 11 0 @ [0xEE, 0, 0, 0, 0, 0x01, 0x23, 0, 0])"

lemma ucast_and_FF: "(ucast (w AND 0xFF) :: u8) = ucast w" for w :: u16
proof (rule bit_word_eqI)
  have m: "(0xFF :: u16) = mask 8" by (simp add: mask_eq_exp_minus_1)
  show "n < LENGTH(8) \<Longrightarrow> bit (ucast (w AND 0xFF) :: u8) n = bit (ucast w :: u8) n" for n
    unfolding m by (simp add: bit_simps)
qed

lemma sha204h_mac_plain:
  assumes "length key = 32" "length challenge = 32" "length response = 32"
  shows "sha204h_mac garbage \<lparr>m_mode = 0, m_key_id = key_id, m_challenge = Some challenge, m_key = Some key, m_otp = None, m_sn = None,
      m_response = Some response, m_temp_key = None\<rparr> =
    Some (0, \<lparr>m_mode = 0, m_key_id = key_id, m_challenge = Some challenge, m_key = Some key, m_otp = None, m_sn = None,
      m_response = Some (mac_of key_id key challenge), m_temp_key = None\<rparr>)"
proof -
  let ?p = "\<lparr>m_mode = 0, m_key_id = key_id, m_challenge = Some challenge, m_key = Some key, m_otp = None, m_sn = None,
      m_response = Some response, m_temp_key = None\<rparr>"
  let ?t = "key @ challenge @ [0x08, 0, ucast key_id, ucast (drop_bit 8 key_id)] @ replicate 11 0 @ [0xEE, 0, 0, 0, 0, 0x01, 0x23, 0, 0]"
  have t: "mac_temporary ?p = Some ?t"
    using assms by (simp add: mac_temporary_def mode_has_def c_consts ucast_and_FF numeral_eq_Suc)
  have "store_at response 0 (sha256 ?t) = Some (sha256 ?t)"
    using assms(3) by (simp add: store_at_def put_bytes_def length_sha256)
  then show ?thesis
    using t calculate_digest [OF length_temporary [OF t]]
    by (simp add: sha204h_mac_def mode_has_def mac_of_def)
qed

section \<open>The protocol\<close>

text \<open>The commands with the buffers of the start-up check.\<close>

definition random_command :: "u8 list" where
  "random_command = [7, 0x1B, 0, 0, 0]"

definition mac_command :: "u8 list \<Rightarrow> u8 list" where
  "mac_command challenge = [39, 0x08, 0, 0x0C, 0] @ challenge"

lemma random_exec:
  "5 \<le> length tx \<Longrightarrow> sha204m_random p (Some tx) (Some rx) 0 s = SHA204Ac_send_and_recv p (random_command @ drop 5 tx) rx 35 s"
  by (simp add: sha204m_random_def c_consts store_at_def put_bytes_def random_command_def eval_nat_numeral)

lemma put_bytes_after: "length bs = i \<Longrightarrow> put_bytes (bs @ r) i cs = bs @ cs @ drop (length cs) r"
  by (auto simp: put_bytes_def)

lemma store_at_5: "5 \<le> length tx \<Longrightarrow> store_at tx 0 [a, b, c, d, e] = Some (a # b # c # d # e # drop 5 tx)"
  by (simp add: store_at_def put_bytes_def eval_nat_numeral)

lemma mac_exec:
  assumes "37 \<le> length tx" "length challenge = 32"
  shows "ATSHA204m_mac p (Some tx) (Some rx) 0 0x0C (Some challenge) s = SHA204Ac_send_and_recv p (mac_command challenge @ drop 37 tx) rx 35 s"
proof -
  let ?h = "[39, 0x08, 0, 0x0C, 0] :: u8 list"
  have h: "store_at tx 0 [SHA204_CMD_SIZE_MIN, SHA204_MAC, 0, ucast ((0x0C :: u16) AND 0xFF), ucast (drop_bit 8 (0x0C :: u16))] = Some (7 # tl ?h @ drop 5 tx)"
    using assms(1) store_at_5 [of tx 7] by (simp add: c_consts)
  have "store_at (7 # tl ?h @ drop 5 tx) 5 challenge = Some (7 # tl ?h @ challenge @ drop 37 tx)"
    using assms put_bytes_after [of "7 # tl ?h" 5 "drop 5 tx" challenge] by (simp add: store_at_def)
  then have "copy_to (7 # tl ?h @ drop 5 tx) 5 challenge MAC_CHALLENGE_SIZE = Some (7 # tl ?h @ challenge @ drop 37 tx)"
    using assms by (simp add: copy_to_def MAC_CHALLENGE_SIZE_def)
  with h show ?thesis by (simp add: ATSHA204m_mac_def mac_command_def MAC_MODE_MASK_def MAC_MODE_BLOCK2_TEMPKEY_def MAC_COUNT_LONG_def SHA204_RSP_SIZE_MAX_def)
qed

lemma key_12: "length (key_dat ! 12) = 32"
  by (simp add: key_dat_def)

context sha_link
begin

lemma commands_total:
  assumes "length tx = 84" "length rx = 35"
  shows "\<exists>r tx' rx' s'. sha204m_random p (Some tx) (Some rx) 0 s = Some (r, tx', rx', s') \<and> length tx' = 84 \<and> length rx' = 35"
    and "length c = 32 \<Longrightarrow>
      \<exists>r tx' rx' s'. ATSHA204m_mac p (Some tx) (Some rx) 0 0x0C (Some c) s = Some (r, tx', rx', s') \<and> length tx' = 84 \<and> length rx' = 35"
  using exchange [of "random_command @ drop 5 tx" 35 rx s] exchange [of "mac_command c @ drop 37 tx" 35 rx s] assms
  by (simp_all add: random_exec mac_exec random_command_def mac_command_def)

lemma mac_random_total:
  assumes "length (a_tx a) = 84" "length (a_rx a) = 35" "length (a_challenge a) = 32" "length (a_response a) = 32"
  shows "\<exists>c a'. sha204a_mac_random garbage p a = Some (c, a')"
proof -
  obtain r tx rx s where r: "sha204m_random p (Some (a_tx a)) (Some (a_rx a)) 0 (a_bus a) = Some (r, tx, rx, s)" "length tx = 84" "length rx = 35"
    using commands_total(1) [OF assms(1,2)] by blast
  define ch where "ch = (if r \<noteq> 0 then a_challenge a else if rx ! 0 = 35 then take 32 (drop 1 rx) else a_challenge a)"
  have "length ch = 32" using assms(3) r(3) by (simp add: ch_def)
  with commands_total(2) [OF r(2,3)] obtain r2 tx2 rx2 s2 where
    m: "ATSHA204m_mac p (Some tx) (Some rx) 0 0x0C (Some ch) s = Some (r2, tx2, rx2, s2)" "length rx2 = 35" by blast
  have "rx \<noteq> []" "rx2 \<noteq> []" using r(3) m(2) by auto
  with r m assms(4) sha204h_mac_plain [OF key_12 \<open>length ch = 32\<close>, of "a_response a" garbage "0x0C"]
  show ?thesis by (auto simp: sha204a_mac_random_def Let_def c_consts ch_def mac_of_def length_sha256)
qed

lemma authentication_safe:
  assumes "length challenge = 32" "length response = 32"
  shows "sha204_authentication garbage p challenge response s \<noteq> Some (Inl f)"
proof -
  obtain r s1 where w: "SHA204Ac_wakeup p (port_init p s) = Some (r, s1)"
    using wakeup_total by blast
  let ?a = "\<lparr>a_tx = replicate 84 0, a_rx = replicate 35 0, a_challenge = challenge, a_response = response, a_bus = s1\<rparr>"
  obtain c a where m: "sha204a_mac_random garbage p ?a = Some (c, a)"
    using mac_random_total [of ?a garbage] assms by auto
  from w m show ?thesis
    by (auto simp: sha204_authentication_def c_consts Let_def auth_failed_def wait_forever_None split_beta)
qed

end

section \<open>A session on the bus\<close>

text \<open>The packet with which the chip answers 32 bytes.\<close>

definition reply :: "u8 list \<Rightarrow> u8 list" where
  "reply x = (35 # x) @ crc_of (35 # x)"

text \<open>
  The levels of a session: the wake-up pulse, the status after it, the acknowledgements of the Random command and its answer \<open>r\<close>, those of the MAC command
  and its answer \<open>d\<close>.
\<close>

definition session_levels :: "u8 list \<Rightarrow> u8 list \<Rightarrow> bool list" where
  "session_levels r d = [False] @ read_levels [4, 0x11, 0x33, 0x43] @ replicate 9 False @ read_levels (reply r) @ replicate 41 False @ read_levels (reply d)"

lemma exchange_answers:
  assumes "line_answers dev (looks (pins s)) (replicate n False @ read_levels (reply x) @ ls)" "n = unat (hd tx) + 2"
    and tx: "tx \<noteq> []" "7 \<le> unat (hd tx)" "unat (hd tx) \<le> length tx" and "length rx = 35" "length x = 32"
  shows "\<exists>s'. SHA204Ac_send_and_recv (i2c_port dev) tx rx 35 s = Some (0, command_packet tx @ drop (unat (hd tx)) tx, reply x, s')
    \<and> line_answers dev (looks (pins s')) ls"
proof -
  have l: "length (command_packet tx) = unat (hd tx)" using tx by (simp add: command_packet_def Let_def)
  from Write_answers [of dev s "command_packet tx" "read_levels (reply x) @ ls" 3] assms(1,2) obtain s1 where
    w: "I2C_SHA204A_Write dev 3 (command_packet tx) s = (False, s1)" "line_answers dev (looks (pins s1)) (read_levels (reply x) @ ls)"
    by (auto simp: l simp del: replicate_Suc)
  have "length (reply x) = 35" using assms(7) by (simp add: reply_def)
  with Read_packet [OF w(2), of 35 "replicate 35 0"] obtain s2 where
    r: "I2C_SHA204A_Read dev 35 (replicate 35 0) s1 = Some (False, reply x, s2)" "line_answers dev (looks (pins s2)) ls"
    by (auto simp: reply_def)
  have "SHA204Ac_check_crc (reply x) = Some False"
    using check_crc_packet [of "35 # x" "crc_of (35 # x)" "[]"] assms(7) by (simp add: reply_def counted_def)
  with send_and_recv_exec [OF tx, of 35 rx "i2c_port dev" s] w r assms(6) show ?thesis by (simp add: i2c_port_def)
qed

lemma session:
  assumes "line_answers dev (looks (pins s)) (session_levels r d)" and "length r = 32" "length d = 32" "length response = 32"
  shows "if d = mac_of 0x0C (key_dat ! 12) r
    then \<exists>a. sha204_authentication garbage (i2c_port dev) challenge response s = Some (Inr (0, a))
    else sha204_authentication garbage (i2c_port dev) challenge response s = None"
proof -
  let ?p = "i2c_port dev" and ?w = "I2C_SHA204A_Wake dev (SI2C_Init s)"
  have "looks (pins (SI2C_Init s)) = looks (pins s)" by (simp add: SI2C_Init_def emit_def looks_def)
  with assms(1) Wake_answers [of dev "SI2C_Init s"] have "line_answers dev (looks (pins ?w)) (read_levels [4, 0x11, 0x33, 0x43] @ replicate 9 False
      @ read_levels (reply r) @ replicate 41 False @ read_levels (reply d))" by (simp add: session_levels_def)
  from Read_packet [OF this, of 7 "replicate 7 0"] obtain s1 where
    wake: "I2C_SHA204A_Read dev 7 (replicate 7 0) ?w = Some (False, [4, 0x11, 0x33, 0x43] @ replicate 3 0, s1)" and
    s1: "line_answers dev (looks (pins s1)) (replicate 9 False @ read_levels (reply r) @ replicate 41 False @ read_levels (reply d))"
    by auto
  have wk: "SHA204Ac_wakeup ?p (SI2C_Init s) = Some (0, s1)"
    using i2c.wakeup_value [of dev "SI2C_Init s" False] wake by (simp add: i2c_port_def)
  let ?t1 = "random_command @ drop 5 (replicate 84 0)"
  define tx1 where "tx1 = command_packet ?t1 @ drop (unat (hd ?t1)) ?t1"
  have l1: "length tx1 = 84" by (simp add: tx1_def command_packet_def Let_def random_command_def)
  have "hd ?t1 = 7" "?t1 \<noteq> []" "length ?t1 = 84" by (simp_all add: random_command_def)
  with exchange_answers [OF s1, of ?t1 "replicate 35 0", folded tx1_def] assms(2) obtain s2 where
    rnd: "SHA204Ac_send_and_recv ?p ?t1 (replicate 35 0) 35 s1 = Some (0, tx1, reply r, s2)" and
    s2: "line_answers dev (looks (pins s2)) (replicate 41 False @ read_levels (reply d) @ [])"
    by auto
  let ?t2 = "mac_command r @ drop 37 tx1"
  have "hd ?t2 = 39" "?t2 \<noteq> []" "length ?t2 = 84" using assms(2) l1 by (simp_all add: mac_command_def)
  moreover have "length (reply r) = 35" using assms(2) by (simp add: reply_def)
  ultimately obtain s3 tx2 where
    mac: "SHA204Ac_send_and_recv ?p ?t2 (reply r) 35 s2 = Some (0, tx2, reply d, s3)"
    using exchange_answers [OF s2, of ?t2 "reply r"] assms(3) by auto
  have x: "fetch (Some (reply x)) 1 32 = Some x" "reply x ! 0 = 35" "reply x \<noteq> []" if "length x = 32" for x
    using that by (simp_all add: reply_def)
  let ?a = "\<lparr>a_tx = replicate 84 0, a_rx = replicate 35 0, a_challenge = challenge, a_response = response, a_bus = s1\<rparr>"
  have "\<exists>a. sha204a_mac_random garbage ?p ?a = Some (if d = mac_of 0x0C (key_dat ! 12) r then 0 else - 1, a)"
    using rnd mac x [OF assms(2)] x [OF assms(3)] l1 sha204h_mac_plain [OF key_12 assms(2,4), of garbage "0x0C"] assms(2)
    by (simp add: sha204a_mac_random_def random_exec mac_exec c_consts mac_of_def length_sha256)
  then obtain a where m: "sha204a_mac_random garbage ?p ?a = Some (if d = mac_of 0x0C (key_dat ! 12) r then 0 else - 1, a)" by blast
  have "port_init ?p s = SI2C_Init s" by (simp add: i2c_port_def)
  with wk m show ?thesis
    by (auto simp: sha204_authentication_def c_consts auth_failed_def wait_forever_None split_beta)
qed

text \<open>With the serial number flag 0x50 the mode for 88 bits of one time programming data alone is refused when there is no serial number.\<close>

lemma otp_mode_refused:
  "m_mode param = MAC_MODE_INCLUDE_OTP_88 \<Longrightarrow> m_sn param = None \<Longrightarrow> sha204h_mac garbage param = Some (- 1, param)"
  by (simp add: sha204h_mac_def mode_has_def c_consts)

text \<open>No write to the data zone of the chip passes the check of the zone.\<close>

lemma data_zone_write_refused:
  assumes "zone AND SHA204_ZONE_DATA \<noteq> 0"
  shows "\<exists>tx' rx'. ATSHA204m_write p tx rx zone address v m s = Some (SHA204_BAD_PARAM, tx', rx', s)"
proof -
  have "bit (zone AND 0x02) 1"
    using assms and_exp_eq_0_iff_not_bit [of zone 1] by (simp add: c_consts bit_and_iff)
  then have "bit (zone AND NOT WRITE_ZONE_MASK) 1" by (simp add: WRITE_ZONE_MASK_def bit_and_iff)
  then have "zone AND NOT WRITE_ZONE_MASK \<noteq> 0" by (metis bit_0_eq bot_apply bot_bool_def)
  then show ?thesis
    by (cases tx; cases rx; cases v) (simp_all add: ATSHA204m_write_def bad_param_def)
qed

section \<open>Properties\<close>

text \<open>
  C11: the start-up check decides about the chip by its message authentication code. When the chip acknowledges, wakes up, answers the Random command with
  \<open>r\<close> and the MAC command with \<open>d\<close>, all as levels on the data line of the bus, \<open>sha204_authentication\<close> returns 0 if \<open>d\<close> is the SHA-256 digest
  of key 12, \<open>r\<close> and the fixed fields, and does not return at all otherwise.
\<close>

theorem authentication_decides:
  assumes "line_answers dev (looks (pins s)) (session_levels r d)" and "length r = 32" "length d = 32" "length response = 32"
  shows "if d = mac_of 0x0C (key_dat ! 12) r
    then \<exists>a. sha204_authentication garbage (i2c_port dev) challenge response s = Some (Inr (0, a))
    else sha204_authentication garbage (i2c_port dev) challenge response s = None"
  using assms by (rule session)

lemma tape_answers: "line_answers (\<lambda>h. ls ! looks h) (looks (pins \<lparr>pins = [], slave_address = 0\<rparr>)) ls"
  by (simp add: line_answers_def looks_def)

theorem authentication_decides_witness:
  "\<exists>a. sha204_authentication (\<lambda>_. 0)
     (i2c_port (\<lambda>h. session_levels challenge_default (mac_of 0x0C (key_dat ! 12) challenge_default) ! looks h))
     challenge_default (replicate 32 0) \<lparr>pins = [], slave_address = 0\<rparr> = Some (Inr (0, a))"
  using authentication_decides [OF tape_answers [of "session_levels challenge_default (mac_of 0x0C (key_dat ! 12) challenge_default)"],
      of "replicate 32 0" "\<lambda>_. 0" challenge_default]
  by (simp add: challenge_default_def mac_of_def length_sha256)

text \<open>
  C39: the check accepts a recording. The challenge is a number of the chip's own choice, so there is a list of levels that passes at every start, played
  back by a circuit that knows no key and looks at nothing the processor sends: its output depends only on how often the line was read.
\<close>

theorem recorded_session_accepted:
  "\<exists>levels. \<forall>garbage challenge. \<exists>a.
     sha204_authentication garbage (i2c_port (\<lambda>h. levels ! looks h)) challenge (replicate 32 0) \<lparr>pins = [], slave_address = 0\<rparr> = Some (Inr (0, a))"
  using session [OF tape_answers [of "session_levels challenge_default (mac_of 0x0C (key_dat ! 12) challenge_default)"], of "replicate 32 0"]
  by (intro exI [of _ "session_levels challenge_default (mac_of 0x0C (key_dat ! 12) challenge_default)"] allI)
     (simp add: challenge_default_def mac_of_def length_sha256)

text \<open>
  C15: whatever levels a chip puts on the bus, and whatever the stack held, no access of the start-up check leaves an array, through the bus driver, the
  packets, the commands and the digest. Without a chip the call does not return.
\<close>

theorem authentication_stays_in_bounds:
  assumes "length challenge = 32" "length response = 32"
  shows "sha204_authentication garbage (i2c_port dev) challenge response s \<noteq> Some (Inl f)
    \<and> sha204_authentication garbage (i2c_port (\<lambda>_. True)) challenge response s = None"
proof -
  have "\<exists>t'. port_read (i2c_port (\<lambda>_. True)) n buf t = Some (True, buf, t')" for n buf t
    using Send_Byte_absent [of _ "SI2C_Start t"] by (simp add: i2c_port_def I2C_SHA204A_Read_def split_beta)
  then obtain t where "port_read (i2c_port (\<lambda>_. True)) 7 (replicate 7 0) (port_wake (i2c_port (\<lambda>_. True)) (SI2C_Init s)) =
    Some (True, replicate 7 0, t)" by blast
  from i2c.wakeup_value [OF this] have "SHA204Ac_wakeup (i2c_port (\<lambda>_. True)) (SI2C_Init s) = Some (1, t)" by simp
  then have "sha204_authentication garbage (i2c_port (\<lambda>_. True)) challenge response s = None"
    by (simp add: sha204_authentication_def i2c_port_def auth_failed_def wait_forever_None split_beta Let_def)
  with i2c.authentication_safe [OF assms] show ?thesis by simp
qed

theorem authentication_stays_in_bounds_witness:
  "sha204_authentication (\<lambda>_. 0) (i2c_port (\<lambda>_. False)) challenge_default (replicate 32 0) \<lparr>pins = [], slave_address = 0\<rparr> \<noteq> Some (Inl Out_of_bounds)
   \<and> sha204_authentication (\<lambda>_. 0) (i2c_port (\<lambda>_. True)) challenge_default (replicate 32 0) \<lparr>pins = [], slave_address = 0\<rparr> = None"
  using authentication_stays_in_bounds [of challenge_default "replicate 32 0" "\<lambda>_. 0" "\<lambda>_. False" "\<lparr>pins = [], slave_address = 0\<rparr>" Out_of_bounds]
  by (simp add: challenge_default_def)

end
