(* ===== verification/Tcp_Server.thy ===== *)
theory Tcp_Server
  imports Net_Link "HOL-Library.Multiset"
begin

text \<open>
  The loop of \<open>tcpserv\<close> in \<open>USER/tcpserver.c\<close>: \<open>select\<close>, the array of client sockets, \<open>accept\<close> and \<open>recv\<close>. The network stack is what the calls
  return, one record for each pass of the loop; the sockets closed are a list. Handling the data is \<open>tcp_received\<close> of the theory \<open>Net_Link\<close>, and the passes
  of the other threads interleave with the passes of the server in any order.
\<close>

section \<open>The code\<close>

text \<open>
  What the calls of a pass return: the number of ready sockets, the set \<open>select\<close> leaves, the new socket or -1, and for every socket the data of
  \<open>recv\<close>, \<open>None\<close> when its result is zero or negative.
\<close>

record select_result =
  nready :: int
  rset :: "int set"
  accepted :: int
  reply :: "int \<Rightarrow> u8 list option"

record ('c, 'd) server =
  clients :: "int list"
  allset :: "int set"
  maxfd :: int
  maxi :: int
  connected :: int
  closed :: "int list"
  mach :: "('c, 'd) stm"

datatype server_fault = Past_Clients | Machine stm_fault

text \<open>The variables when the loop is entered; \<open>connected\<close> is not initialised.\<close>

definition server_init :: "int \<Rightarrow> int \<Rightarrow> ('c, 'd) stm \<Rightarrow> ('c, 'd) server" where
  "server_init sock garbage m =
     \<lparr>clients = replicate 5 (- 1), allset = {sock}, maxfd = sock, maxi = - 1, connected = garbage, closed = [], mach = m\<rparr>"

text \<open>The first loop after \<open>accept\<close>: every socket left in the array is closed.\<close>

definition close_slot :: "nat \<Rightarrow> ('c, 'd) server \<Rightarrow> ('c, 'd) server" where
  "close_slot i s =
     (let fd = clients s ! i
      in if fd \<ge> 0 then
           s\<lparr>mach := (mach s)\<lparr>g_i_connected_flag := 0, g_i_connected_id := 0\<rparr>, closed := closed s @ [fd],
             allset := allset s - {fd}, clients := (clients s)[i := - 1]\<rparr>
         else s)"

definition close_clients :: "('c, 'd) server \<Rightarrow> ('c, 'd) server" where
  "close_clients s = fold close_slot [0..<5] s"

text \<open>The second loop and what follows it: the new socket takes the first free place.\<close>

definition add_client :: "int \<Rightarrow> ('c, 'd) server \<Rightarrow> ('c, 'd) server" where
  "add_client conn s =
     (let i = scan_from (\<lambda>i. clients s ! i < 0) 0 5 5;
          s = (if i < 5 then s\<lparr>clients := (clients s)[i := conn]\<rparr> else s);
          s = s\<lparr>mach := tcp_accepted conn (mach s)\<rparr>;
          s = s\<lparr>allset := insert conn (allset s)\<rparr>;
          s = (if conn > maxfd s then s\<lparr>maxfd := conn\<rparr> else s)
      in if int i > maxi s then s\<lparr>maxi := int i\<rparr> else s)"

text \<open>The data of a ready socket. The handler is passed \<open>connected\<close>, the socket of the last \<open>accept\<close>.\<close>

definition serve_client :: "'d flash_ops \<Rightarrow> select_result \<Rightarrow> nat \<Rightarrow> ('c, 'd) server \<Rightarrow> server_fault + ('c, 'd) server" where
  "serve_client F e i s =
     (let sockfd = clients s ! i
      in case tcp_received F (connected s) (reply e sockfd) (mach s) of
           Inl f \<Rightarrow> Inl (Machine f)
         | Inr m \<Rightarrow>
             (let s = s\<lparr>mach := m\<rparr>
              in Inr (if reply e sockfd = None
                 then s\<lparr>closed := closed s @ [sockfd], allset := allset s - {sockfd}, clients := (clients s)[i := - 1]\<rparr>
                 else s)))"

fun client_loop :: "'d flash_ops \<Rightarrow> select_result \<Rightarrow> nat list \<Rightarrow> int \<Rightarrow> ('c, 'd) server \<Rightarrow> server_fault + ('c, 'd) server" where
  "client_loop F e [] n s = Inr s"
| "client_loop F e (i # is') n s =
     (if length (clients s) \<le> i then Inl Past_Clients
      else if clients s ! i < 0 then client_loop F e is' n s
      else if clients s ! i \<in> rset e then
        bindE (serve_client F e i s) (\<lambda>s. if n - 1 \<le> 0 then Inr s else client_loop F e is' (n - 1) s)
      else client_loop F e is' n s)"

text \<open>One pass of the loop around \<open>select\<close>.\<close>

definition select_pass :: "'d flash_ops \<Rightarrow> int \<Rightarrow> select_result \<Rightarrow> ('c, 'd) server \<Rightarrow> server_fault + ('c, 'd) server" where
  "select_pass F sock e s =
     (if sock \<in> rset e then
        let s = s\<lparr>connected := accepted e\<rparr>
        in if accepted e = - 1 then Inr s
           else
             let s = add_client (accepted e) (close_clients s)
             in if nready e - 1 \<le> 0 then Inr s else client_loop F e [0..<nat (maxi s + 1)] (nready e - 1) s
      else client_loop F e [0..<nat (maxi s + 1)] (nready e) s)"

section \<open>The program of the STM32\<close>

text \<open>A pass of the server or of one of the other threads.\<close>

datatype program_event = Select select_result | Thread stm_event

definition program_exec ::
  "'c spi_port \<Rightarrow> 'd flash_ops \<Rightarrow> int \<Rightarrow> program_event \<Rightarrow> idle_timer \<times> ('c, 'd) server \<Rightarrow> server_fault + idle_timer \<times> ('c, 'd) server" where
  "program_exec p F sock ev ts =
     (case ts of (t, s) \<Rightarrow>
      case ev of
        Select e \<Rightarrow> map_sum id (Pair t) (select_pass F sock e s)
      | Thread ev \<Rightarrow> map_sum Machine (\<lambda>(t, m). (t, s\<lparr>mach := m\<rparr>)) (stm_exec p F ev (t, mach s)))"

fun program_run ::
  "'c spi_port \<Rightarrow> 'd flash_ops \<Rightarrow> int \<Rightarrow> program_event list \<Rightarrow> idle_timer \<times> ('c, 'd) server \<Rightarrow> server_fault + idle_timer \<times> ('c, 'd) server" where
  "program_run p F sock [] ts = Inr ts"
| "program_run p F sock (ev # evs) ts = bindE (program_exec p F sock ev ts) (program_run p F sock evs)"

text \<open>
  What the stack promises: \<open>select\<close> only reports sockets of its set, \<open>accept\<close> returns -1 or a descriptor that is not in use, and packets are shorter than the
  buffer. The other events are those of the other threads.
\<close>

definition result_ok :: "int \<Rightarrow> select_result \<Rightarrow> ('c, 'd) server \<Rightarrow> bool" where
  "result_ok sock e s \<longleftrightarrow> rset e \<subseteq> allset s \<and> (accepted e = - 1 \<or> 0 \<le> accepted e \<and> accepted e \<notin> allset s)
     \<and> (\<forall>fd \<in> allset s. case reply e fd of None \<Rightarrow> True | Some bs \<Rightarrow> length bs < RECEIVE_DATA_LEN)"

definition other_thread :: "stm_event \<Rightarrow> bool" where
  "other_thread ev = (case ev of Spi_Pass _ \<Rightarrow> True | Key_Pass _ _ \<Rightarrow> True | Idle_Pass \<Rightarrow> True | _ \<Rightarrow> False)"

definition program_event_ok :: "int \<Rightarrow> program_event \<Rightarrow> ('c, 'd) server \<Rightarrow> bool" where
  "program_event_ok sock ev s = (case ev of Select e \<Rightarrow> result_ok sock e s | Thread ev \<Rightarrow> other_thread ev)"

fun run_ok_events ::
  "'c spi_port \<Rightarrow> 'd flash_ops \<Rightarrow> int \<Rightarrow> program_event list \<Rightarrow> idle_timer \<times> ('c, 'd) server \<Rightarrow> bool" where
  "run_ok_events p F sock [] ts = True"
| "run_ok_events p F sock (ev # evs) ts \<longleftrightarrow>
     program_event_ok sock ev (snd ts) \<and> (case program_exec p F sock ev ts of Inl _ \<Rightarrow> True | Inr ts \<Rightarrow> run_ok_events p F sock evs ts)"

section \<open>The invariant\<close>

text \<open>
  \<open>c\<close> is the socket of the only client, -1 without one. It stands in the first place of the array, the set holds it and the listening socket,
  and the flag and the number that the SPI thread uses to send are those of this client.
\<close>

definition server_ok :: "('d \<Rightarrow> bool) \<Rightarrow> int \<Rightarrow> int \<Rightarrow> ('c, 'd) server \<Rightarrow> bool" where
  "server_ok ready sock c s \<longleftrightarrow>
     0 \<le> sock \<and> c \<noteq> sock \<and> - 1 \<le> c \<and> clients s = [c, - 1, - 1, - 1, - 1] \<and> allset s = (if c < 0 then {sock} else {sock, c})
     \<and> (\<forall>fd \<in> allset s. fd \<le> maxfd s) \<and> (maxi s = 0 \<or> maxi s = - 1 \<and> c < 0)
     \<and> g_i_connected_flag (mach s) = (if c < 0 then 0 else 1) \<and> g_i_connected_id (mach s) = (if c < 0 then 0 else c)
     \<and> stm_ok ready (mach s)"

lemma server_init_ok:
  assumes "0 \<le> sock" "stm_ok ready m" "g_i_connected_flag m = 0"
  shows "server_ok ready sock (- 1) (server_init sock g m)"
  using assms by (simp add: server_ok_def server_init_def stm_ok_def numeral_eq_Suc)

lemma scan_first: "scan_from P 0 5 5 = 0" if "P 0"
  using that by (simp add: scan_from.simps)

lemma close_slot_free: "clients s ! i = - 1 \<Longrightarrow> close_slot i s = s"
  by (simp add: close_slot_def)

lemma close_clients_one:
  assumes "clients s = [c, - 1, - 1, - 1, - 1]"
  shows "close_clients s = (if c \<ge> 0 then
    s\<lparr>mach := (mach s)\<lparr>g_i_connected_flag := 0, g_i_connected_id := 0\<rparr>, closed := closed s @ [c],
      allset := allset s - {c}, clients := [- 1, - 1, - 1, - 1, - 1]\<rparr> else s)"
proof -
  let ?s = "close_slot 0 s"
  have l: "[0..<5] = [0, 1, 2, 3, 4]" by (simp add: upt_rec)
  have "clients ?s ! 1 = - 1" "clients ?s ! 2 = - 1" "clients ?s ! 3 = - 1" "clients ?s ! 4 = - 1"
    using assms by (simp_all add: close_slot_def Let_def)
  then have "close_clients s = ?s" by (simp only: close_clients_def l fold_simps close_slot_free)
  then show ?thesis using assms by (simp add: close_slot_def Let_def)
qed

text \<open>A new client replaces the old one.\<close>

lemma add_client_free:
  assumes "clients s = [- 1, - 1, - 1, - 1, - 1]" "maxi s = 0 \<or> maxi s = - 1"
  shows "add_client n s = s\<lparr>clients := [n, - 1, - 1, - 1, - 1], mach := tcp_accepted n (mach s), allset := insert n (allset s),
    maxfd := max (maxfd s) n, maxi := 0\<rparr>"
proof -
  have "scan_from (\<lambda>i. clients s ! i < 0) 0 5 5 = 0" using assms(1) by (intro scan_first) simp
  then show ?thesis using assms by (auto simp: add_client_def Let_def max_def)
qed

lemma accept_ok:
  assumes "server_ok ready sock c s" "0 \<le> n" "n \<notin> allset s"
  shows "server_ok ready sock n (add_client n (close_clients s)) \<and>
    closed (add_client n (close_clients s)) = closed s @ (if c < 0 then [] else [c])"
proof -
  let ?s = "close_clients s"
  have s: "0 \<le> sock" "clients s = [c, - 1, - 1, - 1, - 1]" "c \<noteq> sock" "- 1 \<le> c" "allset s = (if c < 0 then {sock} else {sock, c})"
    "\<forall>fd \<in> allset s. fd \<le> maxfd s" "maxi s = 0 \<or> maxi s = - 1" "stm_ok ready (mach s)"
    using assms(1) by (auto simp: server_ok_def)
  have free: "clients ?s = [- 1, - 1, - 1, - 1, - 1]" "allset ?s = {sock}" "maxfd ?s = maxfd s" "maxi ?s = maxi s"
    "closed ?s = closed s @ (if c < 0 then [] else [c])" "stm_ok ready (mach ?s)"
    using s by (auto simp: close_clients_one stm_ok_def)
  have "sock \<le> maxfd s" "n \<noteq> sock" using s(5,6) assms(3) by (auto split: if_splits)
  moreover have "stm_ok ready (tcp_accepted n (mach ?s))" using free(6) by (simp add: tcp_accepted_def stm_ok_def)
  moreover let ?t = "add_client n ?s"
  have t: "?t = ?s\<lparr>clients := [n, - 1, - 1, - 1, - 1], mach := tcp_accepted n (mach ?s), allset := insert n (allset ?s),
      maxfd := max (maxfd ?s) n, maxi := 0\<rparr>" by (rule add_client_free) (use free s(7) in simp_all)
  have "clients ?t = [n, - 1, - 1, - 1, - 1]" "mach ?t = tcp_accepted n (mach ?s)" "allset ?t = {sock, n}" "maxfd ?t = max (maxfd s) n" "maxi ?t = 0"
    "closed ?t = closed s @ (if c < 0 then [] else [c])"
    unfolding t by (simp_all add: free insert_commute)
  ultimately show ?thesis using s(1) assms(2) unfolding server_ok_def by (auto simp: tcp_accepted_def)
qed

text \<open>The data of the client, or its end.\<close>

lemma client_loop_one:
  assumes "clients s = [c, - 1, - 1, - 1, - 1]" "maxi s = 0 \<or> maxi s = - 1 \<and> c < 0"
  shows "client_loop F e [0..<nat (maxi s + 1)] n s = (if 0 \<le> c \<and> c \<in> rset e then serve_client F e 0 s else Inr s)"
  using assms by (auto simp: bindE_def split: sum.splits)

lemma net_cmd_flags:
  "handle_net_cmd F fd c s = Inr s' \<Longrightarrow> g_i_connected_flag s' = g_i_connected_flag s \<and> g_i_connected_id s' = g_i_connected_id s"
  by (auto simp: handle_net_cmd_def set_entry_cmd_def release_sem_def Let_def bindE_def split: if_splits option.splits sum.splits)

lemma net_data_flags:
  "handle_net_data F fd bs s = Inr s' \<Longrightarrow> g_i_connected_flag s' = g_i_connected_flag s \<and> g_i_connected_id s' = g_i_connected_id s"
proof (induction F fd bs s rule: handle_net_data.induct)
  case (1 F fd b0 b1 b2 b3 bs s)
  then obtain t where t: "handle_net_cmd F fd (b0, b1, b2, b3) s = Inr t" "handle_net_data F fd bs t = Inr s'"
    by (auto simp: bindE_def split: sum.splits)
  from 1(1) [OF t(2)] net_cmd_flags [OF t(1)] show ?case by simp
qed simp_all

lemma thread_flags:
  assumes "other_thread ev" "stm_exec p F ev (t, m) = Inr (t', m')"
  shows "g_i_connected_flag m' = g_i_connected_flag m \<and> g_i_connected_id m' = g_i_connected_id m"
proof -
  have parts: "g_i_connected_flag (spi_volume p (spi_mute p (spi_take p m))) = g_i_connected_flag m"
    "g_i_connected_id (spi_volume p (spi_mute p (spi_take p m))) = g_i_connected_id m"
    by (simp_all add: spi_take_def spi_mute_def spi_volume_def tcp_send_instruction_to_dsp_def send_word_def Let_def split: prod.splits)
  have poll: "g_i_connected_flag s' = g_i_connected_flag s \<and> g_i_connected_id s' = g_i_connected_id s" if "spi_poll p ls s = Inr s'" for ls s s'
    using that by (auto simp: spi_poll_def set_entry_cmd_def send_instru_via_socket_def Let_def bindE_def split: prod.splits if_splits option.splits sum.splits)
  show ?thesis
  proof (cases ev)
    case (Spi_Pass ls)
    with assms(2) have "spi_poll p ls (spi_volume p (spi_mute p (spi_take p m))) = Inr m'"
      by (cases "spi_poll p ls (spi_volume p (spi_mute p (spi_take p m)))") (simp_all add: stm_exec_def SPI_DSP_thread_entry_def)
    from poll [OF this] parts show ?thesis by simp
  qed (use assms in \<open>auto simp: other_thread_def stm_exec_def split: option.splits prod.splits\<close>)
qed

text \<open>The sockets of a pass: the current client, and what \<open>accept\<close> returned.\<close>

definition client_set :: "int \<Rightarrow> int multiset" where
  "client_set c = (if c < 0 then {#} else {#c#})"

definition accepted_set :: "int \<Rightarrow> select_result \<Rightarrow> int multiset" where
  "accepted_set sock e = (if sock \<in> rset e \<and> accepted e \<noteq> - 1 then {#accepted e#} else {#})"

fun all_accepted :: "int \<Rightarrow> program_event list \<Rightarrow> int multiset" where
  "all_accepted sock [] = {#}"
| "all_accepted sock (ev # evs) = (case ev of Select e \<Rightarrow> accepted_set sock e | Thread _ \<Rightarrow> {#}) + all_accepted sock evs"

context nor_flash
begin

lemma serve_ok:
  fixes s :: "('l, 'c) server"
  assumes "server_ok ready sock c s" "0 \<le> c" "case reply e c of None \<Rightarrow> True | Some bs \<Rightarrow> length bs < RECEIVE_DATA_LEN"
  shows "\<exists>s' c'. serve_client F e 0 s = Inr s' \<and> server_ok ready sock c' s' \<and> mset (closed s') + client_set c' = mset (closed s) + client_set c"
proof (cases "reply e c")
  case None
  let ?s = "s\<lparr>mach := (mach s)\<lparr>g_i_connected_flag := 0, g_i_connected_id := 0\<rparr>, closed := closed s @ [c], allset := allset s - {c},
    clients := (clients s)[0 := - 1]\<rparr>"
  have "serve_client F e 0 s = Inr ?s"
    using assms(1) None by (simp add: serve_client_def tcp_received_def server_ok_def)
  moreover have "server_ok ready sock (- 1) ?s" using assms(1,2) by (auto simp: server_ok_def stm_ok_def)
  ultimately show ?thesis using assms(2) by (intro exI [of _ ?s] exI [of _ "- 1"]) (simp add: client_set_def)
next
  case (Some bs)
  have ok: "stm_ok ready (mach s)" "clients s ! 0 = c" using assms(1) by (simp_all add: server_ok_def)
  from received_ok [OF ok(1), of bs "connected s"] assms(3) Some obtain m where
    m: "tcp_received F (connected s) (Some bs) (mach s) = Inr m" "stm_ok ready m" by auto
  have "g_i_connected_flag m = g_i_connected_flag (mach s) \<and> g_i_connected_id m = g_i_connected_id (mach s)"
    using m(1) by (auto simp: tcp_received_def split: if_splits dest!: net_data_flags)
  with assms(1) m(2) have "server_ok ready sock c (s\<lparr>mach := m\<rparr>)" by (simp add: server_ok_def)
  with m(1) Some ok(2) show ?thesis by (intro exI [of _ "s\<lparr>mach := m\<rparr>"] exI [of _ c]) (simp add: serve_client_def)
qed

lemma loop_ok:
  fixes s :: "('l, 'c) server"
  assumes "server_ok ready sock c s" "0 \<le> c \<Longrightarrow> c \<in> rset e \<Longrightarrow> case reply e c of None \<Rightarrow> True | Some bs \<Rightarrow> length bs < RECEIVE_DATA_LEN"
  shows "\<exists>s' c'. client_loop F e [0..<nat (maxi s + 1)] n s = Inr s' \<and> server_ok ready sock c' s'
    \<and> mset (closed s') + client_set c' = mset (closed s) + client_set c"
proof -
  have "clients s = [c, - 1, - 1, - 1, - 1]" "maxi s = 0 \<or> maxi s = - 1 \<and> c < 0" using assms(1) by (auto simp: server_ok_def)
  from client_loop_one [OF this, of F e n] serve_ok [OF assms(1), of e] assms show ?thesis by auto
qed

lemma pass_ok:
  fixes s :: "('l, 'c) server"
  assumes "server_ok ready sock c s" "result_ok sock e s"
  shows "\<exists>s' c'. select_pass F sock e s = Inr s' \<and> server_ok ready sock c' s'
    \<and> mset (closed s') + client_set c' = mset (closed s) + client_set c + accepted_set sock e"
proof -
  have small: "fd \<in> allset s \<Longrightarrow> case reply e fd of None \<Rightarrow> True | Some bs \<Rightarrow> length bs < RECEIVE_DATA_LEN" for fd
    using assms(2) by (simp add: result_ok_def)
  let ?s = "s\<lparr>connected := accepted e\<rparr>"
  have s: "server_ok ready sock c ?s" using assms(1) by (simp add: server_ok_def)
  consider "sock \<notin> rset e" | "sock \<in> rset e" "accepted e = - 1" | "sock \<in> rset e" "accepted e \<noteq> - 1" by blast
  then show ?thesis
  proof cases
    case 1
    have "rset e \<subseteq> allset s" using assms(2) by (simp add: result_ok_def)
    with loop_ok [OF assms(1), of e "nready e"] small 1 show ?thesis by (auto simp: select_pass_def accepted_set_def)
  next
    case 2
    with s show ?thesis by (auto simp: select_pass_def accepted_set_def)
  next
    case 3
    with assms(2) have n: "0 \<le> accepted e" "accepted e \<notin> allset ?s" "accepted e \<notin> rset e" by (auto simp: result_ok_def)
    let ?t = "add_client (accepted e) (close_clients ?s)"
    from accept_ok [OF s n(1,2)] have t: "server_ok ready sock (accepted e) ?t" "closed ?t = closed s @ (if c < 0 then [] else [c])" by simp_all
    obtain s' c' where l: "client_loop F e [0..<nat (maxi ?t + 1)] (nready e - 1) ?t = Inr s'" "server_ok ready sock c' s'"
      "mset (closed s') + client_set c' = mset (closed ?t) + client_set (accepted e)"
      using loop_ok [OF t(1), of e "nready e - 1"] n(3) by auto
    have a: "mset (closed ?t) + client_set (accepted e) = mset (closed s) + client_set c + accepted_set sock e"
      using t(2) n(1) 3 by (simp add: client_set_def accepted_set_def)
    have p: "select_pass F sock e s = (if nready e - 1 \<le> 0 then Inr ?t else Inr s')"
      unfolding select_pass_def using 3 l(1) by (simp only: Let_def if_True if_False simp_thms)
    show ?thesis
    proof (cases "nready e - 1 \<le> 0")
      case True
      then show ?thesis using p t(1) a by (intro exI [of _ ?t] exI [of _ "accepted e"]) simp
    next
      case False
      then show ?thesis using p l a by (intro exI [of _ s'] exI [of _ c']) simp
    qed
  qed
qed

lemma program_ok:
  fixes s :: "('l, 'c) server"
  assumes "server_ok ready sock c s" "run_ok_events p F sock evs (t, s)"
  shows "\<exists>t' s' c'. program_run p F sock evs (t, s) = Inr (t', s') \<and> server_ok ready sock c' s'
    \<and> mset (closed s') + client_set c' = mset (closed s) + client_set c + all_accepted sock evs"
  using assms
proof (induction evs arbitrary: c t s)
  case (Cons ev evs)
  show ?case
  proof (cases ev)
    case (Select e)
    with Cons.prems(2) have "result_ok sock e s" by (simp add: program_event_ok_def)
    from pass_ok [OF Cons.prems(1) this] obtain s' c' where s: "select_pass F sock e s = Inr s'" "server_ok ready sock c' s'"
      "mset (closed s') + client_set c' = mset (closed s) + client_set c + accepted_set sock e" by blast
    with Cons.prems(2) Select have "run_ok_events p F sock evs (t, s')" by (simp add: program_exec_def)
    from Cons.IH [OF s(2) this] obtain t2 s2 c2 where r: "program_run p F sock evs (t, s') = Inr (t2, s2)" "server_ok ready sock c2 s2"
      "mset (closed s2) + client_set c2 = mset (closed s') + client_set c' + all_accepted sock evs" by blast
    have "program_run p F sock (ev # evs) (t, s) = Inr (t2, s2)" using s(1) r(1) Select by (simp add: program_exec_def)
    moreover have "mset (closed s2) + client_set c2 = mset (closed s) + client_set c + all_accepted sock (ev # evs)"
      using r(3) s(3) Select by (simp add: add.assoc)
    ultimately show ?thesis using r(2) by blast
  next
    case (Thread ev')
    with Cons.prems(2) have o: "other_thread ev'" by (simp add: program_event_ok_def)
    then have "small_packet ev'" by (auto simp: other_thread_def small_packet_def split: stm_event.splits)
    moreover have "stm_ok ready (mach s)" using Cons.prems(1) by (simp add: server_ok_def)
    ultimately obtain t' m where m: "stm_exec p F ev' (t, mach s) = Inr (t', m)" "stm_ok ready m" using exec_ok by blast
    let ?s = "s\<lparr>mach := m\<rparr>"
    have "server_ok ready sock c ?s" using Cons.prems(1) thread_flags [OF o m(1)] m(2) by (simp add: server_ok_def)
    moreover have "run_ok_events p F sock evs (t', ?s)" using Cons.prems(2) Thread m(1) by (simp add: program_exec_def)
    ultimately show ?thesis using Cons.IH [of c ?s t'] Thread m(1) by (auto simp: program_exec_def)
  qed
qed (auto intro: exI [of _ c])

end

section \<open>Properties\<close>

text \<open>
  C12: the server has one client at a time and loses no socket. Whatever sockets \<open>select\<close> reports, whatever \<open>accept\<close> and \<open>recv\<close> return for
  packets below 1024 bytes, and however the other threads run in between, the program runs on without a fault and without an access behind the array of
  clients; the only client stands in its first place, the set of \<open>select\<close> is the listening socket and this client, which is the one the SPI thread sends
  to; and every socket that was accepted has been closed exactly once, but for this client.
\<close>

theorem server_single_client:
  fixes m :: "('l, 'c) stm"
  assumes "w25q_chip q ready desel wel mem" "stm_ok ready m" "g_i_connected_flag m = 0" "0 \<le> sock"
    and "run_ok_events p (spi_flash_ops q) sock evs (t, server_init sock g m)"
  shows "\<exists>t' s' c. program_run p (spi_flash_ops q) sock evs (t, server_init sock g m) = Inr (t', s') \<and> server_ok ready sock c s' \<and>
    mset (closed s') + client_set c = all_accepted sock evs"
proof -
  note init = server_init_ok [OF assms(4,2,3), of g]
  have "mset (closed (server_init sock g m)) + client_set (- 1) = {#}" by (simp add: server_init_def client_set_def)
  with nor_flash.program_ok [OF w25q_chip.driver_contract [OF assms(1)] init assms(5)] show ?thesis by auto
qed

definition no_result :: select_result where
  "no_result = \<lparr>nready = 1, rset = {}, accepted = - 1, reply = \<lambda>_. Some [1]\<rparr>"

text \<open>Two clients, the second replaces the first, sends a byte, and closes.\<close>

definition two_clients :: "program_event list" where
  "two_clients = [Select (no_result\<lparr>rset := {0}, accepted := 3\<rparr>), Select (no_result\<lparr>nready := 2, rset := {0, 3}, accepted := 4\<rparr>),
     Select (no_result\<lparr>rset := {4}\<rparr>), Select (no_result\<lparr>rset := {4}, reply := \<lambda>_. None\<rparr>), Thread (Spi_Pass 1)]"


theorem server_single_client_witness:
  "\<exists>t' s' c. program_run (trace_port (\<lambda>_. 0x21)) (spi_flash_ops w25q_port) 0 two_clients (idle_init, server_init 0 7 (boot_stm blank_chip)) = Inr (t', s') \<and>
     server_ok chip_ready 0 c s' \<and> mset (closed s') + client_set c = {#3, 4#}"
proof -
  let ?F = "spi_flash_ops w25q_port" and ?m = "boot_stm blank_chip"
  define s1 where "s1 = \<lparr>clients = [3, - 1, - 1, - 1, - 1], allset = {3, 0}, maxfd = 3, maxi = 0, connected = 3, closed = [], mach = tcp_accepted 3 ?m\<rparr>"
  define s2 where "s2 = \<lparr>clients = [4, - 1, - 1, - 1, - 1], allset = {4, 0}, maxfd = 4, maxi = 0, connected = 4, closed = [3],
      mach = tcp_accepted 4 ((tcp_accepted 3 ?m)\<lparr>g_i_connected_flag := 0, g_i_connected_id := 0\<rparr>)\<rparr>"
  have 1: "select_pass ?F 0 (no_result\<lparr>rset := {0}, accepted := 3\<rparr>) (server_init 0 7 ?m) = Inr s1"
    by (simp add: select_pass_def server_init_def close_clients_one add_client_free no_result_def s1_def numeral_eq_Suc)
  have 2: "select_pass ?F 0 (no_result\<lparr>nready := 2, rset := {0, 3}, accepted := 4\<rparr>) s1 = Inr s2"
    by (simp add: select_pass_def s1_def s2_def close_clients_one add_client_free no_result_def)
  have 3: "select_pass ?F 0 (no_result\<lparr>rset := {4}\<rparr>) s2 = Inr s2"
    by (simp add: select_pass_def s2_def no_result_def serve_client_def tcp_received_def RECEIVE_DATA_LEN_def)
  have r: "run_ok_events (trace_port (\<lambda>_. 0x21)) ?F 0 two_clients (idle_init, server_init 0 7 ?m)"
    unfolding two_clients_def run_ok_events.simps program_exec_def prod.case program_event.case 1 2 3 map_sum.simps sum.case
    by (auto simp: program_event_ok_def result_ok_def other_thread_def no_result_def server_init_def s1_def s2_def RECEIVE_DATA_LEN_def split: sum.splits)
  have "all_accepted 0 two_clients = {#3, 4#}" by (simp add: two_clients_def no_result_def accepted_set_def add_mset_commute)
  moreover have "g_i_connected_flag ?m = 0" by (simp add: boot_stm_def)
  ultimately show ?thesis using server_single_client [OF w25q_model boot_stm_ok _ _ r] by simp
qed

text \<open>
  C30: a failed \<open>accept\<close> misdirects the answers to the client that is connected. \<open>handle_net_data\<close> is passed the variable \<open>connected\<close>, which then holds -1:
  when the PC opens its session after that, the parameters are sent to the socket -1.
\<close>

theorem failed_accept_misdirects:
  assumes "server_ok ready sock c s" "0 \<le> c" "sock \<in> rset e1" "accepted e1 = - 1"
    and "sock \<notin> rset e2" "c \<in> rset e2" "reply e2 c = Some [0x06, 0x01, 0x00, 0x00]"
  shows "\<exists>s1 s2. select_pass F sock e1 s = Inr s1 \<and> select_pass F sock e2 s1 = Inr s2 \<and>
    sock_out (mach s2) = sock_out (mach s) @ map (Pair (- 1)) (send_data_to_pc (db (mach s)))"
proof -
  let ?s = "s\<lparr>connected := - 1\<rparr>"
  have s: "clients ?s = [c, - 1, - 1, - 1, - 1]" "maxi ?s = 0 \<or> maxi ?s = - 1 \<and> c < 0" using assms(1) by (auto simp: server_ok_def)
  have "select_pass F sock e1 s = Inr ?s" using assms(3,4) by (simp add: select_pass_def)
  moreover have "select_pass F sock e2 ?s = serve_client F e2 0 ?s"
    using client_loop_one [OF s, of F e2 "nready e2"] assms(2,5,6) by (simp add: select_pass_def)
  moreover have "serve_client F e2 0 ?s =
      Inr (s\<lparr>connected := - 1, mach := (mach s)\<lparr>sock_out := sock_out (mach s) @ map (Pair (- 1)) (send_data_to_pc (db (mach s)))\<rparr>\<rparr>)"
    using s(1) assms(7) by (simp add: serve_client_def tcp_received_def handle_net_cmd_def RECEIVE_DATA_LEN_def)
  ultimately show ?thesis by simp
qed

theorem failed_accept_misdirects_witness:
  "\<exists>s1 s2. select_pass (spi_flash_ops w25q_port) 0 (no_result\<lparr>rset := {0}\<rparr>) \<lparr>clients = [3, - 1, - 1, - 1, - 1], allset = {0, 3}, maxfd = 3, maxi = 0,
       connected = 3, closed = [], mach = tcp_accepted 3 (boot_stm blank_chip)\<rparr> = Inr s1 \<and>
     select_pass (spi_flash_ops w25q_port) 0 (no_result\<lparr>rset := {3}, reply := \<lambda>_. Some [0x06, 0x01, 0x00, 0x00]\<rparr>) s1 = Inr s2 \<and>
     sock_out (mach s2) = map (Pair (- 1)) (send_data_to_pc group_table_init)"
proof -
  let ?s = "\<lparr>clients = [3, - 1, - 1, - 1, - 1], allset = {0, 3}, maxfd = 3, maxi = 0, connected = 3, closed = [],
    mach = tcp_accepted 3 (boot_stm blank_chip)\<rparr>"
  have "server_ok chip_ready 0 3 ?s" using boot_stm_ok by (simp add: server_ok_def tcp_accepted_def stm_ok_def)
  from failed_accept_misdirects [OF this, of "no_result\<lparr>rset := {0}\<rparr>" "no_result\<lparr>rset := {3}, reply := \<lambda>_. Some [0x06, 0x01, 0x00, 0x00]\<rparr>"]
  show ?thesis by (simp add: no_result_def tcp_accepted_def boot_stm_def)
qed

end
