(* ===== verification/Tftp_Put.thy ===== *)
theory Tftp_Put
  imports Dsp_Loader
begin

text \<open>
  The shell command \<open>tftp_put\<close> of \<open>USER/tftp.c\<close>, which sends a file to a TFTP server. The file is what \<open>open\<close> and \<open>read\<close> give, a list of bytes or
  \<open>None\<close> (a \<open>read\<close> that fails in the middle of a file is left out); the replies of \<open>lwip_recvfrom\<close> are a list, \<open>None\<close> for an error or the
  time-out, and the result is how the function ends with the datagrams it sent.
\<close>

section \<open>The code\<close>

definition TFTP_WRQ :: u8 where [c_consts]: "TFTP_WRQ = 2"
definition TFTP_DATA :: u8 where [c_consts]: "TFTP_DATA = 3"

datatype put_end = No_File | No_Socket | Server_Error | Done | Bad_Ack | Timeout | No_Reply_Yet

text \<open>What a receive leaves in the buffer; an error leaves it alone.\<close>

definition received_into :: "u8 list option \<Rightarrow> u8 list \<Rightarrow> u8 list" where
  "received_into r buf = (case r of None \<Rightarrow> buf | Some bs \<Rightarrow> fill (take (length buf) bs) buf)"

text \<open>
  The loop for the rest of the file. In the test of the acknowledgement \<open>==\<close> binds tighter than \<open>&\<close>, so the third byte is compared with
  \<open>block_number >> 8\<close> without the mask. The length -1 of an error is a large unsigned number: the old content of the buffer is tested.
\<close>

fun put_loop :: "u8 list \<Rightarrow> u8 list option list \<Rightarrow> u32 \<Rightarrow> u8 list \<Rightarrow> u8 list list \<Rightarrow> put_end \<times> u8 list list" where
  "put_loop file [] block_number buf out =
     (if file = [] then (Done, out)
      else (No_Reply_Yet, out @ [[0, TFTP_DATA, ucast (drop_bit 8 block_number AND 0xFF), ucast (block_number AND 0xFF)] @ take 512 file]))"
| "put_loop file (r # rs) block_number buf out =
     (if file = [] then (Done, out)
      else
        let datagram = [0, TFTP_DATA, ucast (drop_bit 8 block_number AND 0xFF), ucast (block_number AND 0xFF)] @ take 512 file;
            out = out @ [datagram];
            buf = received_into r (fill datagram buf)
        in if r = Some [] then (Timeout, out)
           else if buf ! 0 = 0 \<and> buf ! 1 = TFTP_ACK \<and> (ucast (buf ! 2) :: u32) = drop_bit 8 block_number
             \<and> (ucast (buf ! 3) :: u32) = block_number AND 0xFF
           then put_loop (drop 512 file) rs (block_number + 1) buf out
           else (Bad_Ack, out))"

definition put_request :: "string \<Rightarrow> u8 list" where
  "put_request filename = [0, TFTP_WRQ] @ char_bytes filename @ [0] @ char_bytes ''octet'' @ [0]"

text \<open>\<open>None\<close>: the request is longer than the buffer, which the code does not check.\<close>

definition tftp_put ::
  "string \<Rightarrow> string \<Rightarrow> u8 list option \<Rightarrow> int \<Rightarrow> u8 list option list \<Rightarrow> u8 list \<Rightarrow> (put_end \<times> u8 list list) option" where
  "tftp_put dir filename file sock_fd rs buf =
     (let buf = fill (take (length buf - 1) (char_bytes dir @ [0x2F] @ char_bytes filename) @ [0]) buf
      in case file of
           None \<Rightarrow> Some (No_File, [])
         | Some file \<Rightarrow>
             if sock_fd < 0 then Some (No_Socket, [])
             else
               let req = put_request filename
               in if length buf < length req then None
                  else
                    let buf = fill req buf
                    in case rs of
                         [] \<Rightarrow> Some (No_Reply_Yet, [req])
                       | r # rs \<Rightarrow>
                           let buf = received_into r buf
                           in if \<not> (buf ! 0 = 0 \<and> buf ! 1 = TFTP_ACK \<and> buf ! 2 = 0 \<and> buf ! 3 = 0) then Some (Server_Error, [req])
                              else Some (put_loop file rs 1 buf [req]))"

section \<open>Transfers\<close>

text \<open>The data packets of the protocol for a file, from a block number on, and the acknowledgement of a block.\<close>

definition block_header :: "u8 \<Rightarrow> nat \<Rightarrow> u8 list" where
  "block_header opcode k = [0, opcode, word_of_nat (k div 256), word_of_nat k]"

function data_packets :: "nat \<Rightarrow> u8 list \<Rightarrow> u8 list list" where
  "data_packets k file = (if file = [] then [] else (block_header TFTP_DATA k @ take 512 file) # data_packets (Suc k) (drop 512 file))"
  by pat_completeness auto
termination by (relation "measure (\<lambda>(k, file). length file)") auto

declare data_packets.simps [simp del]

lemma packets_payload: "concat (map (drop 4) (data_packets k f)) = f"
proof (induction k f rule: data_packets.induct)
  case (1 k f)
  then show ?case
    by (cases "f = []") (simp_all add: data_packets.simps [of k] block_header_def)
qed

lemma packets_full: "512 dvd length f \<Longrightarrow> list_all (\<lambda>p. length p = 516) (data_packets k f)"
proof (induction k f rule: data_packets.induct)
  case (1 k f)
  show ?case
  proof (cases "f = []")
    case False
    with 1(2) have "512 \<le> length f" by (auto dest: dvd_imp_le)
    with False 1 show ?thesis by (simp add: data_packets.simps [of k f] block_header_def dvd_minus_self)
  qed (simp add: data_packets.simps)
qed

lemma block_bytes:
  fixes w :: u32
  assumes "k < 65536" "w = word_of_nat k"
  shows "ucast (drop_bit 8 w AND 0xFF) = (word_of_nat (k div 256) :: u8)" "ucast (w AND 0xFF) = (word_of_nat k :: u8)"
    "(ucast (word_of_nat (k div 256) :: u8) :: u32) = drop_bit 8 w" "(ucast (word_of_nat k :: u8) :: u32) = w AND 0xFF"
proof -
  have m: "(0xFF :: u32) = mask 8" by (simp add: mask_eq_exp_minus_1)
  have w: "unat w = k" using assms unat_of_nat_less [of k, where 'a = 32] by simp
  have d: "unat (drop_bit 8 w) = k div 256" unfolding unat_drop_bit_eq w by (simp add: drop_bit_eq_div)
  have a: "unat (v AND 0xFF) = unat v mod 256" for v :: u32 unfolding m by (simp only: take_bit_eq_mask [symmetric] unsigned_take_bit_eq) (simp add: take_bit_eq_mod)
  have "k div 256 < 256" using assms(1) by (simp add: less_mult_imp_div_less)
  then show "ucast (drop_bit 8 w AND 0xFF) = (word_of_nat (k div 256) :: u8)" "(ucast (word_of_nat (k div 256) :: u8) :: u32) = drop_bit 8 w"
    by (simp_all add: word_unat_eq_iff unat_ucast_to_u8 a d unat_of_nat_less)
  show "ucast (w AND 0xFF) = (word_of_nat k :: u8)" "(ucast (word_of_nat k :: u8) :: u32) = w AND 0xFF"
    by (simp_all add: word_unat_eq_iff unat_ucast_to_u8 a w unat_of_nat)
qed

text \<open>A server that acknowledges every block in turn.\<close>

lemma put_loop_acked:
  assumes "k + length (data_packets k f) \<le> 65536" "length buf = 516"
  shows "put_loop f (map (\<lambda>i. Some (block_header TFTP_ACK i)) [k..<k + length (data_packets k f)]) (word_of_nat k) buf out
    = (Done, out @ data_packets k f)"
  using assms
proof (induction k f arbitrary: buf out rule: data_packets.induct)
  case (1 k f)
  show ?case
  proof (cases "f = []")
    case False
    let ?n = "length (data_packets (Suc k) (drop 512 f))" and ?w = "word_of_nat k :: u32"
    have p: "data_packets k f = (block_header TFTP_DATA k @ take 512 f) # data_packets (Suc k) (drop 512 f)"
      using False by (simp add: data_packets.simps [of k f])
    with 1(2) have k: "k < 65536" "Suc k + ?n \<le> 65536" by simp_all
    note b = block_bytes [OF k(1) refl]
    let ?d = "block_header TFTP_DATA k @ take 512 f" and ?a = "block_header TFTP_ACK k"
    have dg: "[0, TFTP_DATA, ucast (drop_bit 8 ?w AND 0xFF), ucast (?w AND 0xFF)] = block_header TFTP_DATA k" by (simp add: block_header_def b)
    have t: "fill ?a z ! 0 = 0" "fill ?a z ! 1 = TFTP_ACK" "(ucast (fill ?a z ! 2) :: u32) = drop_bit 8 ?w" "(ucast (fill ?a z ! 3) :: u32) = ?w AND 0xFF" for z
      using b(3,4) by (simp_all add: block_header_def fill_def)
    have ne: "?a \<noteq> []" by (simp add: block_header_def)
    have l: "length (fill ?d buf) = 516" using 1(3) by (intro trans [OF fill_length]) (simp_all add: block_header_def)
    have a: "length ?a = 4" by (simp add: block_header_def)
    have r: "received_into (Some ?a) (fill ?d buf) = fill ?a (fill ?d buf)" using l a by (simp add: received_into_def)
    have l2: "length (fill ?a (fill ?d buf)) = 516" using fill_length [of ?a "fill ?d buf"] l a by simp
    have x: "[k..<k + length (data_packets k f)] = k # [Suc k..<Suc k + ?n]" using p by (simp add: upt_rec)
    have "put_loop f (Some ?a # map (\<lambda>i. Some (block_header TFTP_ACK i)) [Suc k..<Suc k + ?n]) ?w buf out
      = put_loop (drop 512 f) (map (\<lambda>i. Some (block_header TFTP_ACK i)) [Suc k..<Suc k + ?n]) (?w + 1) (fill ?a (fill ?d buf)) (out @ [?d])"
      by (simp only: put_loop.simps(2) False if_False Let_def dg r) (simp only: t ne option.inject if_False simp_thms if_True)
    also have "?w + 1 = word_of_nat (Suc k)" by simp
    also have "put_loop (drop 512 f) (map (\<lambda>i. Some (block_header TFTP_ACK i)) [Suc k..<Suc k + ?n]) (word_of_nat (Suc k)) (fill ?a (fill ?d buf)) (out @ [?d])
      = (Done, (out @ [?d]) @ data_packets (Suc k) (drop 512 f))"
      by (rule 1(1) [OF False k(2) l2])
    finally show ?thesis unfolding x list.map unfolding p by (simp only: append_assoc append_Cons append_Nil)
  qed (simp add: data_packets.simps)
qed

section \<open>Properties\<close>

text \<open>
  C31: \<open>tftp_put\<close> sends the file. For a file of fewer than 65536 blocks and a server that acknowledges the request and every block in turn, the datagrams are
  the request and then the data packets of TFTP numbered from 1, whose payloads together are the file. When the length of the file is a multiple of 512 every
  packet is a full one, so the short packet with which a transfer has to end is never sent.
\<close>

theorem tftp_put_sends_file:
  assumes "length buf = 516" "length filename \<le> 500" "0 \<le> sock_fd" "length (data_packets 1 f) < 65536"
  shows "tftp_put dir filename (Some f) sock_fd (map (\<lambda>i. Some (block_header TFTP_ACK i)) [0..<length (data_packets 1 f) + 1]) buf
      = Some (Done, put_request filename # data_packets 1 f)
    \<and> concat (map (drop 4) (data_packets 1 f)) = f
    \<and> (512 dvd length f \<longrightarrow> list_all (\<lambda>p. length p = 516) (data_packets 1 f))"
proof -
  let ?n = "length (data_packets 1 f)" and ?req = "put_request filename" and ?a = "block_header TFTP_ACK 0"
  let ?b = "fill (take (length buf - 1) (char_bytes dir @ [0x2F] @ char_bytes filename) @ [0]) buf"
  have b: "length ?b = 516" using assms(1) by (intro trans [OF fill_length]) simp_all
  have req: "length ?req \<le> 516" using assms(2) by (simp add: put_request_def char_bytes_def)
  then have c: "length (fill ?req ?b) = 516" using fill_length [of ?req ?b] b by simp
  have a: "length ?a = 4" by (simp add: block_header_def)
  have r: "received_into (Some ?a) (fill ?req ?b) = fill ?a (fill ?req ?b)" using a c by (simp add: received_into_def)
  have d: "length (fill ?a (fill ?req ?b)) = 516" using fill_length [of ?a "fill ?req ?b"] a c by simp
  have x: "[0..<?n + 1] = 0 # [1..<1 + ?n]" by (simp add: upt_conv_Cons del: upt_Suc)
  have h: "fill ?a z ! 0 = 0 \<and> fill ?a z ! 1 = TFTP_ACK \<and> fill ?a z ! 2 = 0 \<and> fill ?a z ! 3 = 0" for z
    by (simp add: block_header_def fill_def)
  have "put_loop f (map (\<lambda>i. Some (block_header TFTP_ACK i)) [1..<1 + ?n]) 1 (fill ?a (fill ?req ?b)) [?req] = (Done, [?req] @ data_packets 1 f)"
    using put_loop_acked [of 1 f "fill ?a (fill ?req ?b)" "[?req]"] assms(4) d by simp
  then have "tftp_put dir filename (Some f) sock_fd (Some ?a # map (\<lambda>i. Some (block_header TFTP_ACK i)) [1..<1 + ?n]) buf
      = Some (Done, put_request filename # data_packets 1 f)"
    using assms(3) b req r h by (simp add: tftp_put_def Let_def)
  then have "tftp_put dir filename (Some f) sock_fd (map (\<lambda>i. Some (block_header TFTP_ACK i)) [0..<?n + 1]) buf
      = Some (Done, put_request filename # data_packets 1 f)" unfolding x list.map .
  then show ?thesis using packets_payload packets_full by blast
qed

lemma one_block: "f \<noteq> [] \<Longrightarrow> length f \<le> 512 \<Longrightarrow> data_packets k f = [block_header TFTP_DATA k @ f]"
  by (simp add: data_packets.simps)

theorem tftp_put_sends_file_witness:
  "tftp_put ''/SD'' ''a'' (Some [1, 2, 3]) 0 [Some [0, 4, 0, 0], Some [0, 4, 0, 1]] (replicate 516 0)
     = Some (Done, [put_request ''a'', [0, 3, 0, 1, 1, 2, 3]]) \<and>
   list_all (\<lambda>p. length p = 516) (data_packets 1 (replicate 512 7))"
proof -
  have "data_packets 1 [1, 2, 3] = [block_header TFTP_DATA 1 @ [1, 2, 3]]" "data_packets 1 (replicate 512 7) = [block_header TFTP_DATA 1 @ replicate 512 7]"
    by (rule one_block; simp)+
  then show ?thesis
    using tftp_put_sends_file [of "replicate 516 0" "''a''" 0 "[1, 2, 3]" "''/SD''"]
      tftp_put_sends_file [of "replicate 516 0" "''a''" 0 "replicate 512 7" "''/SD''"]
    by (simp add: block_header_def TFTP_ACK_def TFTP_DATA_def upt_rec)
qed

end
