(* ===== verification/Console.thy ===== *)
theory Console
  imports Net_Link
begin

text \<open>
  The shell commands of \<open>USER/app_cmd.c\<close> that change a state and are not about the flash (those are in \<open>Dsp_Loader\<close>): sending all
  parameters, muting, and the debug switches. The commands that only print are left out.
\<close>

section \<open>The code\<close>

definition send_config_dsp :: "'c spi_port \<Rightarrow> ('c, 'd) stm \<Rightarrow> ('c, 'd) stm" where
  "send_config_dsp p s = s\<lparr>link := send_data_to_dsp p (db s) (link s)\<rparr>"

text \<open>The shell command \<open>mute\<close>.\<close>

definition mute_command :: "'c spi_port \<Rightarrow> int \<Rightarrow> ('c, 'd) stm \<Rightarrow> ('c, 'd) stm" where
  "mute_command p i_value s =
     (let i_temp = 0x05E00000 OR push_bit 16 (word_of_int i_value)
      in send_word p i_temp (s\<lparr>pan := (pan s)\<lparr>g_mute := i_value\<rparr>\<rparr>))"

text \<open>\<open>g_i_debug\<close> is passed in and out.\<close>

definition net_debug :: "int \<Rightarrow> u32 \<Rightarrow> u32" where
  "net_debug i_on g_i_debug = (if i_on \<noteq> 0 then g_i_debug OR push_bit 0 1 else g_i_debug AND NOT (push_bit 0 1))"

definition flash_debug :: "int \<Rightarrow> u32 \<Rightarrow> u32" where
  "flash_debug i_on g_i_debug = (if i_on \<noteq> 0 then g_i_debug OR push_bit 1 1 else g_i_debug AND NOT (push_bit 1 1))"

definition clear_debug :: "u32 \<Rightarrow> u32" where
  "clear_debug g_i_debug = 0"

section \<open>What they do\<close>

text \<open>The switches are independent.\<close>

lemma net_debug_bits: "bit (net_debug i d) n = (if n = 0 then i \<noteq> 0 else bit d n)"
  by (cases "n < 32") (auto simp: net_debug_def bit_simps bit_1_iff dest: bit_imp_le_length)

lemma flash_debug_bits: "bit (flash_debug i d) n = (if n = 1 then i \<noteq> 0 else bit d n)"
proof -
  have "bit (push_bit 1 (1 :: u32)) n = (n = 1)" unfolding bit_push_bit_iff bit_1_iff by auto
  then show ?thesis
    by (cases "n < 32") (auto simp: flash_debug_def bit_simps bit_1_iff dest: bit_imp_le_length)
qed

text \<open>The mute command sends what the mute key sends: after it a pass of the SPI thread for a pressed key repeats the word.\<close>

lemma mute_command_as_key:
  "mute_select (g_key_spi (pan s)) = 1 \<Longrightarrow> g_mute (pan s) = i \<Longrightarrow> link (mute_command p i s) = link (spi_mute p s)"
  by (simp add: mute_command_def spi_mute_def send_word_def)

end
