(* ===== verification/Lcd1602.thy ===== *)
theory Lcd1602
  imports Front_Panel Dsp_Loader
begin

text \<open>
  The driver of the character display, \<open>USER/lcd1602.c\<close>. The state is the history of operations on the pins, the display gives the level of its busy line
  for every history. Pin set-up of the ports is one operation, delays are left out. The reference is the display itself: what it takes from the pins at the
  falling edge of the enable line, how long it is busy after that, what it answers when its busy flag is read, and the memory behind its two rows.
\<close>

section \<open>The code\<close>

datatype lcd_op = RD bool | WR bool | EN bool | IO nat bool | IO_INPUT | IO_OUTPUT | ALL_OUTPUT

type_synonym lcd_device = "lcd_op list \<Rightarrow> bool"

definition rt_hw_lcd_init_output :: "lcd_op list \<Rightarrow> lcd_op list" where
  "rt_hw_lcd_init_output h = h @ [ALL_OUTPUT]"

definition rt_hw_lcd_init_data_input :: "lcd_op list \<Rightarrow> lcd_op list" where
  "rt_hw_lcd_init_data_input h = h @ [IO_INPUT]"

definition rt_hw_lcd_init_data_output :: "lcd_op list \<Rightarrow> lcd_op list" where
  "rt_hw_lcd_init_data_output h = h @ [IO_OUTPUT]"

text \<open>The values are \<open>LCD_CLR\<close> = 0 and \<open>LCD_SET\<close> = 1, others do nothing.\<close>

definition rt_hw_lcd_RD_set_reset :: "nat \<Rightarrow> lcd_op list \<Rightarrow> lcd_op list" where
  "rt_hw_lcd_RD_set_reset i_value h = (if i_value = 0 then h @ [RD False] else if i_value = 1 then h @ [RD True] else h)"

definition rt_hw_lcd_WR_set_reset :: "nat \<Rightarrow> lcd_op list \<Rightarrow> lcd_op list" where
  "rt_hw_lcd_WR_set_reset i_value h = (if i_value = 0 then h @ [WR False] else if i_value = 1 then h @ [WR True] else h)"

definition rt_hw_lcd_EN_set_reset :: "nat \<Rightarrow> lcd_op list \<Rightarrow> lcd_op list" where
  "rt_hw_lcd_EN_set_reset i_value h = (if i_value = 0 then h @ [EN False] else if i_value = 1 then h @ [EN True] else h)"

definition rt_hw_lcd_data_set_reset :: "u8 \<Rightarrow> lcd_op list \<Rightarrow> lcd_op list" where
  "rt_hw_lcd_data_set_reset v h = h @ map (\<lambda>i. IO i (bit v i)) [0, 1, 2, 3, 4, 5, 6, 7]"

definition LCD_Check_Busy :: "lcd_device \<Rightarrow> lcd_op list \<Rightarrow> bool \<times> lcd_op list" where
  "LCD_Check_Busy disp h =
     (let h = rt_hw_lcd_data_set_reset 0xFF h;
          h = rt_hw_lcd_RD_set_reset 0 h;
          h = rt_hw_lcd_WR_set_reset 1 h;
          h = rt_hw_lcd_EN_set_reset 0 h;
          h = rt_hw_lcd_EN_set_reset 1 h;
          h = rt_hw_lcd_init_data_input h
      in (disp h, h))"

text \<open>The loop in front of every write: it gives up when the display was busy \<open>n\<close> times.\<close>

fun busy_loop :: "lcd_device \<Rightarrow> nat \<Rightarrow> lcd_op list \<Rightarrow> lcd_op list" where
  "busy_loop disp 0 h = h"
| "busy_loop disp (Suc n) h = (let (busy, h) = LCD_Check_Busy disp h in if busy then busy_loop disp n h else h)"

text \<open>The common end of the four functions that write: a command or data.\<close>

definition write_byte :: "nat \<Rightarrow> u8 \<Rightarrow> lcd_op list \<Rightarrow> lcd_op list" where
  "write_byte rs v h =
     (let h = rt_hw_lcd_init_data_output h;
          h = rt_hw_lcd_RD_set_reset rs h;
          h = rt_hw_lcd_WR_set_reset 0 h;
          h = rt_hw_lcd_EN_set_reset 1 h;
          h = rt_hw_lcd_data_set_reset v h
      in rt_hw_lcd_EN_set_reset 0 h)"

definition LCD_Write_Com :: "lcd_device \<Rightarrow> u8 \<Rightarrow> lcd_op list \<Rightarrow> lcd_op list" where
  "LCD_Write_Com disp com h = write_byte 0 com (busy_loop disp 10 h)"

definition LCD_Write_Com_hard :: "lcd_device \<Rightarrow> u8 \<Rightarrow> lcd_op list \<Rightarrow> lcd_op list" where
  "LCD_Write_Com_hard disp com h = write_byte 0 com (busy_loop disp 3000 h)"

definition LCD_Write_Data :: "lcd_device \<Rightarrow> u8 \<Rightarrow> lcd_op list \<Rightarrow> lcd_op list" where
  "LCD_Write_Data disp Data h = write_byte 1 Data (busy_loop disp 30 h)"

definition LCD_Write_Data_hard :: "lcd_device \<Rightarrow> u8 \<Rightarrow> lcd_op list \<Rightarrow> lcd_op list" where
  "LCD_Write_Data_hard disp Data h = write_byte 1 Data (busy_loop disp 3000 h)"

definition LCD_Clear :: "lcd_device \<Rightarrow> lcd_op list \<Rightarrow> lcd_op list" where
  "LCD_Clear disp h = LCD_Write_Com disp 0x01 h"

text \<open>The character string of C ends at its first zero.\<close>

definition c_string :: "u8 list \<Rightarrow> u8 list" where
  "c_string s = takeWhile (\<lambda>b. b \<noteq> 0) s"

definition LCD_Write_String :: "lcd_device \<Rightarrow> u8 \<Rightarrow> u8 \<Rightarrow> u8 list \<Rightarrow> lcd_op list \<Rightarrow> lcd_op list" where
  "LCD_Write_String disp x y s h =
     fold (LCD_Write_Data disp) (c_string s) (LCD_Write_Com disp (if y = 0 then 0x80 + x else 0xC0 + x) h)"

definition LCD_Write_String_hard :: "lcd_device \<Rightarrow> u8 \<Rightarrow> u8 \<Rightarrow> u8 list \<Rightarrow> lcd_op list \<Rightarrow> lcd_op list" where
  "LCD_Write_String_hard disp x y s h =
     fold (LCD_Write_Data_hard disp) (c_string s) (LCD_Write_Com_hard disp (if y = 0 then 0x80 + x else 0xC0 + x) h)"

definition LCD_Write_Digital :: "lcd_device \<Rightarrow> u8 \<Rightarrow> u8 \<Rightarrow> u8 \<Rightarrow> lcd_op list \<Rightarrow> lcd_op list" where
  "LCD_Write_Digital disp x y uData h =
     fold (LCD_Write_Data disp) (c_string [uData div 10 + 0x30, uData mod 10 + 0x30, 0]) (LCD_Write_Com disp (if y = 0 then 0x80 + x else 0xC0 + x) h)"

definition LCD_Write_Char :: "lcd_device \<Rightarrow> u8 \<Rightarrow> u8 \<Rightarrow> u8 \<Rightarrow> lcd_op list \<Rightarrow> lcd_op list" where
  "LCD_Write_Char disp x y Data h = LCD_Write_Data disp Data (LCD_Write_Com disp (if y = 0 then 0x80 + x else 0xC0 + x) h)"

definition rt_hw_lcd1602_init :: "lcd_device \<Rightarrow> lcd_op list \<Rightarrow> lcd_op list" where
  "rt_hw_lcd1602_init disp h =
     fold (LCD_Write_Com_hard disp) [0x38, 0x38, 0x38, 0x38, 0x08, 0x01, 0x06, 0x0C] (rt_hw_lcd_init_output h)"

definition LCD_CLOSE :: "lcd_device \<Rightarrow> lcd_op list \<Rightarrow> lcd_op list" where
  "LCD_CLOSE disp h = LCD_Write_Com disp 0x08 h"

definition TestIO :: "lcd_op list \<Rightarrow> lcd_op list" where
  "TestIO h = rt_hw_lcd_data_set_reset 2 (rt_hw_lcd_init_output h)"

text \<open>What the display thread does with a new text, one pass of it, and the start of the display in \<open>rt_application_init\<close>.\<close>

definition show_text :: "lcd_device \<Rightarrow> string \<Rightarrow> lcd_op list \<Rightarrow> lcd_op list" where
  "show_text disp t h = LCD_Write_String disp 0 0 (char_bytes t) (LCD_Clear disp h)"

definition display_pass :: "lcd_device \<Rightarrow> panel \<Rightarrow> u32 \<times> lcd_op list \<Rightarrow> u32 \<times> lcd_op list" where
  "display_pass disp s sh =
     (case sh of (shown, h) \<Rightarrow> case lcd1602_thread_entry shown s of
        (n, None) \<Rightarrow> (n, h)
      | (n, Some t) \<Rightarrow> (n, show_text disp t h))"

definition display_start :: "lcd_device \<Rightarrow> lcd_op list \<Rightarrow> lcd_op list" where
  "display_start disp h = LCD_Write_String_hard disp 2 1 (char_bytes ''DSP950 V0.1'') (rt_hw_lcd1602_init disp h)"

text \<open>The start, then a pass of the thread in each of some states of the panel; \<open>g_i_lcd_show_value\<close> is -1 at the start.\<close>

definition display_run :: "lcd_device \<Rightarrow> panel list \<Rightarrow> u32 \<times> lcd_op list" where
  "display_run disp ss = fold (display_pass disp) ss (- 1, display_start disp [])"

section \<open>The display\<close>

text \<open>The memory of the display for its two rows, the address of the next character, whether it counts up, and whether the display is on (data sheet of the HD44780).\<close>

datatype lcd_event = Command u8 | Data u8

record hd_display =
  hd_mem :: "nat \<Rightarrow> u8"
  hd_addr :: nat
  hd_incr :: bool
  hd_on :: bool

definition hd_command :: "u8 \<Rightarrow> hd_display \<Rightarrow> hd_display" where
  "hd_command c d =
     (if bit c 7 then d\<lparr>hd_addr := unat c - 128\<rparr>
      else if c = 1 then d\<lparr>hd_mem := \<lambda>_. 0x20, hd_addr := 0, hd_incr := True\<rparr>
      else if 4 \<le> c \<and> c < 8 then d\<lparr>hd_incr := bit c 1\<rparr>
      else if 8 \<le> c \<and> c < 16 then d\<lparr>hd_on := bit c 2\<rparr>
      else d)"

fun hd_event :: "lcd_event \<Rightarrow> hd_display \<Rightarrow> hd_display" where
  "hd_event (Command c) d = hd_command c d"
| "hd_event (Data v) d =
     d\<lparr>hd_mem := (hd_mem d)(hd_addr d := v), hd_addr := (if hd_incr d then hd_addr d + 1 else hd_addr d - 1)\<rparr>"

definition lcd_row :: "nat \<Rightarrow> hd_display \<Rightarrow> u8 list" where
  "lcd_row y d = map (\<lambda>x. hd_mem d (64 * y + x)) [0..<16]"

text \<open>
  The display at its pins. A falling edge of the enable line with \<open>WR\<close> low is a write, a command or data (line \<open>RD\<close>), if the controller drives the data lines; a
  write is lost when the display is busy, and otherwise makes it busy for a time that depends on what was written. A rising edge with \<open>WR\<close> high and \<open>RD\<close> low
  reads the busy flag. The time is counted in such reads.
\<close>

record hd_machine =
  p_rd :: bool
  p_wr :: bool
  p_en :: bool
  p_io :: "nat \<Rightarrow> bool"
  p_out :: bool
  hd_busy :: nat
  hd_line :: bool
  hd_disp :: hd_display

definition io_byte :: "(nat \<Rightarrow> bool) \<Rightarrow> u8" where
  "io_byte io = horner_sum of_bool 2 (map io [0..<8])"

definition lcd_edge :: "(lcd_event \<Rightarrow> nat) \<Rightarrow> bool \<Rightarrow> hd_machine \<Rightarrow> hd_machine" where
  "lcd_edge D b m =
     (if p_en m \<and> \<not> b \<and> \<not> p_wr m \<and> p_out m \<and> hd_busy m = 0 then
        let v = io_byte (p_io m); e = (if p_rd m then Data v else Command v)
        in m\<lparr>p_en := b, hd_disp := hd_event e (hd_disp m), hd_busy := D e\<rparr>
      else if \<not> p_en m \<and> b \<and> p_wr m \<and> \<not> p_rd m then m\<lparr>p_en := b, hd_line := 0 < hd_busy m, hd_busy := hd_busy m - 1\<rparr>
      else m\<lparr>p_en := b\<rparr>)"

primrec lcd_step :: "(lcd_event \<Rightarrow> nat) \<Rightarrow> lcd_op \<Rightarrow> hd_machine \<Rightarrow> hd_machine" where
  "lcd_step D (RD b) m = m\<lparr>p_rd := b\<rparr>"
| "lcd_step D (WR b) m = m\<lparr>p_wr := b\<rparr>"
| "lcd_step D (EN b) m = lcd_edge D b m"
| "lcd_step D (IO i b) m = m\<lparr>p_io := (p_io m)(i := b)\<rparr>"
| "lcd_step D IO_INPUT m = m\<lparr>p_out := False\<rparr>"
| "lcd_step D IO_OUTPUT m = m\<lparr>p_out := True\<rparr>"
| "lcd_step D ALL_OUTPUT m = m\<lparr>p_out := True\<rparr>"

definition lcd_after :: "(lcd_event \<Rightarrow> nat) \<Rightarrow> hd_machine \<Rightarrow> lcd_op list \<Rightarrow> hd_machine" where
  "lcd_after D m h = fold (lcd_step D) h m"

text \<open>The level of the highest data line: what the controller drives, or the busy flag while the display drives it, or the pull-up resistor.\<close>

definition hd_device :: "(lcd_event \<Rightarrow> nat) \<Rightarrow> hd_machine \<Rightarrow> lcd_device" where
  "hd_device D m h =
     (let m = lcd_after D m h in if p_out m then p_io m 7 else if p_en m \<and> p_wr m \<and> \<not> p_rd m then hd_line m else True)"

lemma after_append: "lcd_after D m (h @ ops) = fold (lcd_step D) ops (lcd_after D m h)"
  by (simp add: lcd_after_def)

lemmas pin_ops = rt_hw_lcd_data_set_reset_def rt_hw_lcd_RD_set_reset_def rt_hw_lcd_WR_set_reset_def rt_hw_lcd_EN_set_reset_def
  rt_hw_lcd_init_data_input_def rt_hw_lcd_init_data_output_def rt_hw_lcd_init_output_def

lemma io_byte_set: "io_byte (f(0 := bit v 0, Suc 0 := bit v 1, 2 := bit v 2, 3 := bit v 3, 4 := bit v 4, 5 := bit v 5, 6 := bit v 6, 7 := bit v 7)) = v"
proof -
  let ?f = "f(0 := bit v 0, Suc 0 := bit v 1, 2 := bit v 2, 3 := bit v 3, 4 := bit v 4, 5 := bit v 5, 6 := bit v 6, 7 := bit v 7)"
  have "map ?f [0..<8] = map (bit v) [0..<8]" by (simp add: upt_rec numeral_eq_Suc)
  then have "io_byte ?f = take_bit 8 v" by (simp only: io_byte_def horner_sum_bit_eq_take_bit)
  also have "\<dots> = v" by (rule take_bit_word_eq_self) simp
  finally show ?thesis .
qed

text \<open>One look at the busy flag, and the loop: a display that is busy for at most as many looks as the loop has rounds is ready after it.\<close>

lemma Check_Busy_machine:
  assumes "LCD_Check_Busy (hd_device D m) h = (bz, h')"
  shows "bz = (0 < hd_busy (lcd_after D m h))" "hd_busy (lcd_after D m h') = hd_busy (lcd_after D m h) - 1"
    "hd_disp (lcd_after D m h') = hd_disp (lcd_after D m h)"
  using assms by (auto simp: LCD_Check_Busy_def pin_ops hd_device_def Let_def after_append lcd_edge_def)

lemma busy_loop_machine:
  assumes "hd_busy (lcd_after D m h) \<le> n"
  shows "hd_busy (lcd_after D m (busy_loop (hd_device D m) n h)) = 0 \<and>
    hd_disp (lcd_after D m (busy_loop (hd_device D m) n h)) = hd_disp (lcd_after D m h)"
  using assms
proof (induction n arbitrary: h)
  case (Suc n)
  obtain bz h' where c: "LCD_Check_Busy (hd_device D m) h = (bz, h')" by fastforce
  note b = Check_Busy_machine [OF c]
  with Suc.prems have "hd_busy (lcd_after D m h') \<le> n" by simp
  from Suc.IH [OF this] b show ?case by (simp add: c)
qed simp

lemma write_byte_machine:
  fixes v :: u8
  assumes "rs = 0 \<or> rs = 1" "hd_busy (lcd_after D m h) = 0"
  defines "e \<equiv> (if rs = 1 then Data v else Command v)"
  shows "hd_disp (lcd_after D m (write_byte rs v h)) = hd_event e (hd_disp (lcd_after D m h)) \<and> hd_busy (lcd_after D m (write_byte rs v h)) = D e"
  using assms by (auto simp: write_byte_def pin_ops after_append lcd_edge_def Let_def io_byte_set [simplified])

text \<open>From \<open>h\<close> to \<open>h'\<close> a display that is busy for at most \<open>n\<close> looks takes \<open>evs\<close>, and is then busy for at most ten.\<close>

definition lcd_writes :: "(lcd_event \<Rightarrow> nat) \<Rightarrow> hd_machine \<Rightarrow> nat \<Rightarrow> lcd_op list \<Rightarrow> lcd_event list \<Rightarrow> lcd_op list \<Rightarrow> bool" where
  "lcd_writes D m n h evs h' \<longleftrightarrow> (hd_busy (lcd_after D m h) \<le> n \<longrightarrow>
     hd_disp (lcd_after D m h') = fold hd_event evs (hd_disp (lcd_after D m h)) \<and> hd_busy (lcd_after D m h') \<le> 10)"

lemma writes_trans: "lcd_writes D m n h a h1 \<Longrightarrow> lcd_writes D m 10 h1 b h2 \<Longrightarrow> lcd_writes D m n h (a @ b) h2"
  by (simp add: lcd_writes_def)

lemma writes_less: "lcd_writes D m n h a h1 \<Longrightarrow> k \<le> n \<Longrightarrow> lcd_writes D m k h a h1"
  by (simp add: lcd_writes_def)

lemma write_writes:
  assumes "\<forall>e. D e \<le> 10" "rs = 0 \<or> rs = 1"
  shows "lcd_writes D m n h [if rs = 1 then Data v else Command v] (write_byte rs v (busy_loop (hd_device D m) n h))"
  using busy_loop_machine [of D m h n] write_byte_machine [OF assms(2), of D m "busy_loop (hd_device D m) n h" v] assms(1)
  by (auto simp: lcd_writes_def)

lemma lcd_write_functions:
  assumes "\<forall>e. D e \<le> 10"
  shows "lcd_writes D m 10 h [Command c] (LCD_Write_Com (hd_device D m) c h)"
    "lcd_writes D m 3000 h [Command c] (LCD_Write_Com_hard (hd_device D m) c h)"
    "lcd_writes D m 30 h [Data c] (LCD_Write_Data (hd_device D m) c h)"
    "lcd_writes D m 3000 h [Data c] (LCD_Write_Data_hard (hd_device D m) c h)"
  using write_writes [OF assms, of 0] write_writes [OF assms, of 1]
  by (simp_all add: LCD_Write_Com_def LCD_Write_Com_hard_def LCD_Write_Data_def LCD_Write_Data_hard_def)

lemma lcd_write_fold:
  assumes "\<And>c h. lcd_writes D m n h [e c] (f c h)" "10 \<le> n"
  shows "lcd_writes D m 10 h (map e cs) (fold f cs h)"
proof (induction cs arbitrary: h)
  case (Cons c cs)
  from writes_trans [OF writes_less [OF assms] Cons] show ?case by simp
qed (simp add: lcd_writes_def)

lemma String_writes:
  fixes x y :: u8 and t :: "u8 list"
  assumes "\<forall>e. D e \<le> 10"
  defines "evs \<equiv> Command (if y = 0 then 0x80 + x else 0xC0 + x) # map Data (c_string t)"
  shows "lcd_writes D m 10 h evs (LCD_Write_String (hd_device D m) x y t h)"
    and "lcd_writes D m 3000 h evs (LCD_Write_String_hard (hd_device D m) x y t h)"
proof -
  note w = lcd_write_functions [OF assms(1)]
  show "lcd_writes D m 10 h evs (LCD_Write_String (hd_device D m) x y t h)"
    using writes_trans [OF w(1) lcd_write_fold [where e = Data, OF w(3)]] by (simp add: LCD_Write_String_def evs_def)
  show "lcd_writes D m 3000 h evs (LCD_Write_String_hard (hd_device D m) x y t h)"
    using writes_trans [OF w(2) lcd_write_fold [where e = Data, OF w(4)]] by (simp add: LCD_Write_String_hard_def evs_def)
qed

text \<open>Data bytes fill the memory from the address on.\<close>

lemma data_bytes:
  "hd_incr d \<Longrightarrow> fold hd_event (map Data cs) d =
    d\<lparr>hd_mem := (\<lambda>a. if hd_addr d \<le> a \<and> a < hd_addr d + length cs then cs ! (a - hd_addr d) else hd_mem d a), hd_addr := hd_addr d + length cs\<rparr>"
proof (induction cs arbitrary: d)
  case (Cons c cs)
  have "(c # cs) ! (a - hd_addr d) = cs ! (a - Suc (hd_addr d))" if "Suc (hd_addr d) \<le> a" for a using that by (simp add: nth_Cons')
  with Cons show ?case by (auto simp: fun_eq_iff)
next
  case Nil
  have "(\<lambda>a. if hd_addr d \<le> a \<and> a < hd_addr d + length [] then [] ! (a - hd_addr d) else hd_mem d a) = hd_mem d" by (auto simp: fun_eq_iff)
  then show ?case by simp
qed

lemma text_bytes: "c_string (char_bytes t) = char_bytes t" if "0 \<notin> set (char_bytes t)"
  using that by (induction t) (auto simp: c_string_def char_bytes_def)


text \<open>A number is written with two characters; they are its digits up to 99, from 100 on the first is not a digit.\<close>

lemma write_digital:
  assumes "\<forall>e. D e \<le> 10" "n < 256"
  shows "lcd_writes D m 10 h [Command (0x80 + x), Data (word_of_nat (48 + n div 10)), Data (word_of_nat (48 + n mod 10))]
    (LCD_Write_Digital (hd_device D m) x 0 (word_of_nat n) h)"
proof -
  let ?a = "word_of_nat n div 10 + 0x30 :: u8" and ?b = "word_of_nat n mod 10 + 0x30 :: u8"
  have u: "unat (word_of_nat n :: u8) = n" using assms(2) by (simp add: unat_of_nat)
  have l: "n div 10 < 26" "n mod 10 < 10" "n mod 256 = n" using assms(2) by (simp_all add: less_mult_imp_div_less)
  have t: "unat (10 :: u8) = 10" by simp
  have "word_of_nat n div 10 = (word_of_nat (n div 10) :: u8)"
    unfolding word_unat_eq_iff unat_div u t using l by (simp add: unat_of_nat)
  then have a: "?a = word_of_nat (48 + n div 10)" by simp
  have "word_of_nat n mod 10 = (word_of_nat (n mod 10) :: u8)"
    unfolding word_unat_eq_iff unat_mod u t using l by (simp add: unat_of_nat)
  then have b: "?b = word_of_nat (48 + n mod 10)" by simp
  have "?a \<noteq> 0" "?b \<noteq> 0" unfolding a b
    using unat_of_nat_less [of "48 + n div 10", where 'a = 8] unat_of_nat_less [of "48 + n mod 10", where 'a = 8] l
    by (auto simp del: of_nat_add)
  then have c: "c_string [?a, ?b, 0] = [?a, ?b]" by (simp add: c_string_def)
  note w = lcd_write_functions [OF assms(1)]
  have "lcd_writes D m 10 h ([Command (0x80 + x)] @ map Data [?a, ?b]) (LCD_Write_Digital (hd_device D m) x 0 (word_of_nat n) h)"
    unfolding LCD_Write_Digital_def c if_P [OF refl] by (rule writes_trans [OF w(1) lcd_write_fold [where e = Data, OF w(3)]]) simp
  then show ?thesis unfolding a b by (simp only: list.map append_Cons append_Nil)
qed

text \<open>A row that holds a text.\<close>

definition row_text :: "string \<Rightarrow> u8 list" where
  "row_text t = char_bytes t @ replicate (16 - length t) 0x20"

lemma data_row:
  assumes "hd_incr d" "hd_addr d = 64 * y + x" "hd_mem d = (\<lambda>_. 0x20)" "x + length cs \<le> 16" "y < 2"
  shows "lcd_row y (fold hd_event (map Data cs) d) = replicate x 0x20 @ cs @ replicate (16 - x - length cs) 0x20"
    and "lcd_row (1 - y) (fold hd_event (map Data cs) d) = replicate 16 0x20"
    and "hd_on (fold hd_event (map Data cs) d) = hd_on d"
proof -
  show "lcd_row y (fold hd_event (map Data cs) d) = replicate x 0x20 @ cs @ replicate (16 - x - length cs) 0x20"
    using assms by (intro nth_equalityI) (auto simp: lcd_row_def data_bytes nth_append)
  show "lcd_row (1 - y) (fold hd_event (map Data cs) d) = replicate 16 0x20"
    using assms by (intro nth_equalityI) (auto simp: lcd_row_def data_bytes)
  show "hd_on (fold hd_event (map Data cs) d) = hd_on d" using assms(1) by (simp add: data_bytes)
qed

lemma rows_of_two: "lcd_row 1 d = a \<Longrightarrow> lcd_row (1 - 1) d = b \<Longrightarrow> lcd_row 0 d = b \<and> lcd_row 1 d = a"
  by simp

lemma show_text_rows:
  assumes "\<forall>e. D e \<le> 10" "hd_busy (lcd_after D m h) \<le> 10" "length t \<le> 16" "0 \<notin> set (char_bytes t)"
  defines "m' \<equiv> lcd_after D m (show_text (hd_device D m) t h)"
  shows "lcd_row 0 (hd_disp m') = row_text t \<and> lcd_row 1 (hd_disp m') = replicate 16 0x20 \<and>
    hd_on (hd_disp m') = hd_on (hd_disp (lcd_after D m h)) \<and> hd_busy m' \<le> 10"
proof -
  let ?d = "(hd_disp (lcd_after D m h))\<lparr>hd_mem := \<lambda>_. 0x20, hd_addr := 0, hd_incr := True\<rparr>"
  have "lcd_writes D m 10 h [Command 1] (LCD_Clear (hd_device D m) h)" by (simp add: LCD_Clear_def lcd_write_functions assms(1))
  from writes_trans [OF this String_writes(1) [OF assms(1), of m _ 0 0 "char_bytes t"]]
  have w: "hd_disp m' = fold hd_event (map Data (char_bytes t)) (hd_command 0x80 (hd_command 1 (hd_disp (lcd_after D m h))))" "hd_busy m' \<le> 10"
    using assms(2) by (simp_all add: lcd_writes_def show_text_def m'_def text_bytes [OF assms(4)])
  have "hd_command 1 (hd_disp (lcd_after D m h)) = ?d" "hd_command 0x80 ?d = ?d" by (simp_all add: hd_command_def)
  with w have e: "hd_disp m' = fold hd_event (map Data (char_bytes t)) ?d" by simp
  have "length (char_bytes t) = length t" by (simp add: char_bytes_def)
  with data_row [of ?d 0 0 "char_bytes t"] assms(3) w(2) show ?thesis by (simp add: e row_text_def)
qed

lemma start_rows:
  assumes "\<forall>e. D e \<le> 10" "hd_busy m \<le> 3000"
  defines "m' \<equiv> lcd_after D m (display_start (hd_device D m) [])"
  shows "lcd_row 0 (hd_disp m') = replicate 16 0x20 \<and> lcd_row 1 (hd_disp m') = replicate 2 0x20 @ char_bytes ''DSP950 V0.1'' @ replicate 3 0x20 \<and>
    hd_on (hd_disp m') \<and> hd_busy m' \<le> 10"
proof -
  let ?h = "rt_hw_lcd_init_output []" and ?cs = "[0x38, 0x38, 0x38, 0x08, 0x01, 0x06, 0x0C] :: u8 list"
  let ?d = "(hd_disp m)\<lparr>hd_mem := \<lambda>_. 0x20, hd_addr := 0, hd_incr := True, hd_on := True\<rparr>" and ?t = "''DSP950 V0.1''"
  have h: "hd_busy (lcd_after D m ?h) = hd_busy m" "hd_disp (lcd_after D m ?h) = hd_disp m" by (simp_all add: pin_ops lcd_after_def)
  have i: "lcd_writes D m 3000 ?h ([Command 0x38] @ map Command ?cs) (rt_hw_lcd1602_init (hd_device D m) [])"
    unfolding rt_hw_lcd1602_init_def fold_simps(2) [of _ "0x38 :: u8" ?cs]
    by (rule writes_trans [OF lcd_write_functions(2) lcd_write_fold [where e = Command, OF lcd_write_functions(2)]]) (simp_all add: assms(1))
  have t: "c_string (char_bytes ?t) = char_bytes ?t" by (rule text_bytes) (simp add: char_bytes_def)
  from String_writes(2) [OF assms(1), of m "rt_hw_lcd1602_init (hd_device D m) []" 1 2 "char_bytes ?t"]
  have "lcd_writes D m 10 (rt_hw_lcd1602_init (hd_device D m) []) (Command 0xC2 # map Data (char_bytes ?t)) (display_start (hd_device D m) [])"
    unfolding t display_start_def by (auto intro: writes_less)
  from writes_trans [OF i this]
  have w: "hd_disp m' = fold hd_event (map Data (char_bytes ?t)) (hd_command 0xC2 (fold hd_event ([Command 0x38] @ map Command ?cs) (hd_disp m)))"
      "hd_busy m' \<le> 10"
    using assms(2) by (simp_all add: lcd_writes_def h m'_def del: list.map append.simps)
  have "fold hd_event ([Command 0x38] @ map Command ?cs) (hd_disp m) = ?d" by (simp add: hd_command_def)
  moreover have "hd_command 0xC2 ?d = ?d\<lparr>hd_addr := 66\<rparr>" by (simp add: hd_command_def)
  ultimately have e: "hd_disp m' = fold hd_event (map Data (char_bytes ?t)) (?d\<lparr>hd_addr := 66\<rparr>)" unfolding w(1) by simp
  have "length (char_bytes ?t) = 11" by (simp add: char_bytes_def)
  with data_row [of "?d\<lparr>hd_addr := 66\<rparr>" 1 2 "char_bytes ?t"] w(2) show ?thesis unfolding e by simp
qed

text \<open>The names of the inputs that the panel can select.\<close>

definition input_names :: "(u32 \<times> string) list" where
  "input_names = [(AES_INPUT, ''AES input''), (SPDIF_INPUT, ''SPDIF input''), (COAX_INPUT, ''COAX input''), (DVD_INPUT, ''DVD input''),
     (AD_INPUT, ''AD input''), (MIC_INPUT, ''MIC input'')]"

text \<open>The invariant of the display thread: the display is on, and while the value shown is a selected input, the rows show its name.\<close>

definition shows_input :: "(lcd_event \<Rightarrow> nat) \<Rightarrow> hd_machine \<Rightarrow> u32 \<times> lcd_op list \<Rightarrow> bool" where
  "shows_input D m sh \<longleftrightarrow> (case sh of (n, h) \<Rightarrow> let m' = lcd_after D m h in hd_busy m' \<le> 10 \<and> hd_on (hd_disp m') \<and>
     (\<forall>t. map_of input_names n = Some t \<longrightarrow> lcd_row 0 (hd_disp m') = row_text t \<and> lcd_row 1 (hd_disp m') = replicate 16 0x20))"

lemma lcd_text_name:
  assumes "map_of input_names n = Some t"
  shows "lcd_text ((drop_bit 8 n AND 0xf) - 1) = Some t"
proof -
  have "(drop_bit 8 AES_INPUT AND 0xf) - 1 = 0" "(drop_bit 8 SPDIF_INPUT AND 0xf) - 1 = 1" "(drop_bit 8 COAX_INPUT AND 0xf) - 1 = 2"
    "(drop_bit 8 DVD_INPUT AND 0xf) - 1 = 3" "(drop_bit 8 AD_INPUT AND 0xf) - 1 = 4" "(drop_bit 8 MIC_INPUT AND 0xf) - 1 = 5" by code_simp+
  moreover have "(n, t) \<in> set input_names" using assms by (rule map_of_SomeD)
  ultimately show ?thesis unfolding input_names_def by (auto simp: lcd_text_def)
qed

lemma lcd_text_length: "lcd_text x = Some t \<Longrightarrow> length t \<le> 16 \<and> 0 \<notin> set (char_bytes t)"
  by (auto simp: lcd_text_def char_bytes_def split: if_splits)

lemma pass_shows:
  assumes "\<forall>e. D e \<le> 10" "shows_input D m sh"
  shows "shows_input D m (display_pass (hd_device D m) s sh)" "fst (display_pass (hd_device D m) s sh) = g_i_key_led_handle_count s"
proof -
  obtain n h where sh: "sh = (n, h)" by fastforce
  let ?c = "g_i_key_led_handle_count s" let ?t = "lcd_text ((drop_bit 8 ?c AND 0xf) - 1)"
  have b: "hd_busy (lcd_after D m h) \<le> 10" "hd_on (hd_disp (lcd_after D m h))" using assms(2) by (simp_all add: shows_input_def sh Let_def)
  show "fst (display_pass (hd_device D m) s sh) = ?c"
    by (auto simp: display_pass_def lcd1602_thread_entry_def sh split: option.splits)
  show "shows_input D m (display_pass (hd_device D m) s sh)"
  proof (cases "n = ?c \<or> ?t = None")
    case True
    with assms(2) lcd_text_name [of ?c] show ?thesis
      by (auto simp: display_pass_def lcd1602_thread_entry_def sh shows_input_def Let_def)
  next
    case False
    then obtain t where t: "?t = Some t" "n \<noteq> ?c" by auto
    then have p: "display_pass (hd_device D m) s sh = (?c, show_text (hd_device D m) t h)"
      by (simp add: display_pass_def lcd1602_thread_entry_def sh)
    have "map_of input_names ?c = Some u \<Longrightarrow> u = t" for u using lcd_text_name [of ?c u] t(1) by simp
    with show_text_rows [OF assms(1) b(1), of t] lcd_text_length [OF t(1)] b(2) show ?thesis by (auto simp: p shows_input_def Let_def)
  qed
qed

lemma run_shows:
  assumes "\<forall>e. D e \<le> 10" "shows_input D m sh"
  shows "shows_input D m (fold (display_pass (hd_device D m)) ss sh)"
  using assms(2) by (induction ss arbitrary: sh) (simp_all add: pass_shows(1) assms(1))

section \<open>Properties\<close>

text \<open>
  C40: the display shows the input. The display is powered up in any state of its pins and memory, busy for at most 3000 looks at its flag, and every write keeps it
  busy for at most ten looks; a write while it is busy is lost. After the set-up and any number of passes of the display thread, each with any state of the
  panel, the display is on. Before the first pass it shows the version in the second row; after a pass with one of the six inputs selected the first row is the name of
  this input and the second row is empty.
\<close>

theorem display_shows_input:
  assumes "\<forall>e. D e \<le> 10" "hd_busy m \<le> 3000"
  shows "let d = hd_disp (lcd_after D m (snd (display_run (hd_device D m) ss))) in
    hd_on d \<and>
    (ss = [] \<longrightarrow> lcd_row 0 d = replicate 16 0x20 \<and> lcd_row 1 d = replicate 2 0x20 @ char_bytes ''DSP950 V0.1'' @ replicate 3 0x20) \<and>
    (\<forall>t. ss \<noteq> [] \<and> map_of input_names (g_i_key_led_handle_count (last ss)) = Some t \<longrightarrow>
       lcd_row 0 d = row_text t \<and> lcd_row 1 d = replicate 16 0x20)"
proof -
  let ?s0 = "(- 1, display_start (hd_device D m) [])" and ?r = "display_run (hd_device D m) ss"
  note st = start_rows [OF assms(1) assms(2)]
  have "map_of input_names (- 1) = None" by (simp add: input_names_def c_consts)
  then have s0: "shows_input D m ?s0" using st by (simp add: shows_input_def Let_def)
  from run_shows [OF assms(1) s0, of ss] have r: "shows_input D m ?r" by (simp add: display_run_def)
  have "fst ?r = g_i_key_led_handle_count (last ss)" if "ss \<noteq> []"
  proof -
    have "ss = butlast ss @ [last ss]" using that by simp
    then have "?r = display_pass (hd_device D m) (last ss) (fold (display_pass (hd_device D m)) (butlast ss) ?s0)"
      unfolding display_run_def by (metis fold_append fold_simps comp_apply)
    with pass_shows(2) [OF assms(1) run_shows [OF assms(1) s0]] show ?thesis by simp
  qed
  then show ?thesis using r st by (auto simp: shows_input_def Let_def display_run_def split: prod.splits)
qed

definition power_on_display :: hd_machine where
  "power_on_display = \<lparr>p_rd = False, p_wr = False, p_en = False, p_io = \<lambda>_. False, p_out = False, hd_busy = 100, hd_line = False,
     hd_disp = \<lparr>hd_mem = \<lambda>_. 0, hd_addr = 0, hd_incr = True, hd_on = False\<rparr>\<rparr>"

theorem display_shows_input_witness:
  "let D = (\<lambda>e. if e = Command 1 then 10 else 1); m = power_on_display;
       d = hd_disp (lcd_after D m (snd (display_run (hd_device D m) [panel_init, panel_init\<lparr>g_i_key_led_handle_count := AD_INPUT\<rparr>])))
   in hd_on d \<and> lcd_row 0 d = [0x41, 0x44, 0x20, 0x69, 0x6E, 0x70, 0x75, 0x74] @ replicate 8 0x20"
proof -
  let ?D = "\<lambda>e. if e = Command 1 then 10 else 1 :: nat"
  have "\<forall>e. ?D e \<le> 10" "hd_busy power_on_display \<le> 3000" by (simp_all add: power_on_display_def)
  moreover have "map_of input_names AD_INPUT = Some ''AD input''" by (simp add: input_names_def c_consts)
  ultimately show ?thesis
    using display_shows_input [of ?D power_on_display "[panel_init, panel_init\<lparr>g_i_key_led_handle_count := AD_INPUT\<rparr>]"]
    by (simp add: Let_def row_text_def char_bytes_def)
qed

end
