(* ===== verification/Converters.thy ===== *)
theory Converters
  imports Dsp_Main
begin

text \<open>
  The converters of the DSP: the set-up functions of \<open>PCM4104.c\<close> (output), \<open>CS5368.c\<close> and \<open>Spdif_Coax.c\<close> (inputs), \<open>MIC.c\<close>, \<open>RCA.c\<close> and
  \<open>initSRU.c\<close>, as functions on the registers, the routing of the signals and the DMA chains. They are the calls that \<open>Input_Select\<close>
  records. The references are what an input needs of the hardware, and the DMA controller. Waiting loops are left out.
\<close>

section \<open>The state\<close>

text \<open>Inputs of the signal routing unit and the signals they can be connected to. \<open>PCG\<close> are the two clock generators.\<close>

datatype pcg = PCGA | PCGB

datatype sru_pin =
    PBEN nat | DAI_PB nat | DPI_PBEN nat | DPI_PB nat | SPORT_CLK nat | SPORT_FS nat | SPORT_DA nat | SPORT_DB nat
  | DIR_I | SRC1_CLK_IP | SRC1_FS_IP | SRC1_DAT_IP | SRC1_CLK_OP | SRC1_FS_OP | PCG_EXT pcg

datatype sig =
    LOW | HIGH | DAI_PB_O nat | PCG_CLK pcg | PCG_FS pcg | SPORT_DA_O nat | SPORT_DB_O nat | DIR_CLK_O | DIR_FS_O | DIR_DAT_O | SRC1_DAT_OP_O

datatype sport_bit =
  SPTRAN | OPMODE | SLEN24 | SLEN32 | SPEN_A | SPEN_B | SCHEN_A | SCHEN_B | SDEN_A | SDEN_B | L_FIRST | CKRE

datatype pcg_bit = CLKSOURCE | FSSOURCE | ENCLK | ENFS

datatype src_bit = SRC1_IN_I2S | SRC1_OUT_I2S | SRC1_OUT_24 | SRC1_ENABLE

datatype sport_half = HA | HB

datatype isr = SIG_DFL | SIG_IGN | SP0_send | SP4_receive | SP6_receive

text \<open>
  A control register is its number with its named bits. \<open>cpsp\<close> are the chain pointers of the serial ports, \<open>spctl\<close> their control
  registers, \<open>irq\<close> the interrupt handlers. The last six fields are the arrays.
\<close>

record conv =
  sru :: "sru_pin \<Rightarrow> sig"
  cpsp :: "nat \<times> sport_half \<Rightarrow> u32"
  spctl :: "nat \<Rightarrow> sport_bit list"
  spdiv :: "nat \<Rightarrow> u32"
  pcg_ctl1 :: "pcg \<Rightarrow> nat \<times> pcg_bit list"
  pcg_ctl0 :: "pcg \<Rightarrow> nat \<times> pcg_bit list"
  srcctl0 :: "src_bit list"
  dirctl :: u32
  irq :: "nat \<Rightarrow> isr"
  g_i_pcg_used :: int
  Init_PCG_FLAG :: int
  g_i_ad_current_index :: int
  TCB_TxBlock_PCM4104 :: "u32 list list list"
  TCB_RxBlock_I2S_CS5368 :: "u32 list list list"
  TCB_RxBlock_SPDIF :: "u32 list list"
  tx_samples :: "int list list"
  RxBlock_I2S_CS5368 :: "int list list"
  RxBlock_SPDIF :: "int list list"

text \<open>Where the linker puts the arrays of the DMA.\<close>

record links =
  tx_tcb_at :: u32
  tx_block_at :: u32
  rx_tcb_at :: u32
  rx_block_at :: u32
  spdif_tcb_at :: u32
  spdif_block_at :: u32

definition route_all :: "(sru_pin \<times> sig) list \<Rightarrow> (sru_pin \<Rightarrow> sig) \<Rightarrow> sru_pin \<Rightarrow> sig" where
  "route_all rs f = fold (\<lambda>(p, s) f. f(p := s)) rs f"

definition SRU :: "(sru_pin \<times> sig) list \<Rightarrow> conv \<Rightarrow> conv" where
  "SRU rs c = c\<lparr>sru := route_all rs (sru c)\<rparr>"

definition USE_PCM4104_DATALINE_MAX :: nat where [c_consts]: "USE_PCM4104_DATALINE_MAX = 8"
definition MAININPUT_SPORTNUM :: nat where [c_consts]: "MAININPUT_SPORTNUM = 4"
definition CIRCLEDMADATABUFFNUM :: nat where [c_consts]: "CIRCLEDMADATABUFFNUM = 4"
definition PCI :: u32 where [c_consts]: "PCI = 0x00080000"
definition OFFSET :: u32 where [c_consts]: "OFFSET = 0x00080000"

text \<open>
  The chain pointer to entry \<open>j\<close> of a chain at address \<open>a\<close>, and the chain itself: each of its four blocks of four words has the pointer to the
  next, the length, the step and the address of the samples.
\<close>

definition chain_pointer :: "u32 \<Rightarrow> nat \<Rightarrow> u32" where
  "chain_pointer a j = a + of_nat (4 * j) + 3 - OFFSET + PCI"

definition dma_chain :: "u32 \<Rightarrow> u32 \<Rightarrow> u32 list list" where
  "dma_chain a buf = map (\<lambda>j. [chain_pointer a ((j + 1) mod CIRCLEDMADATABUFFNUM), 256, 1, buf + of_nat (j * 256)]) [0..<CIRCLEDMADATABUFFNUM]"

section \<open>The output: PCM4104.c\<close>

definition PCM4104_Pin_Init :: "u32 \<Rightarrow> conv \<Rightarrow> conv" where
  "PCM4104_Pin_Init g_input_type c =
     SRU [(PBEN 13, HIGH), (DAI_PB 13, SPORT_DA_O 0), (PBEN 7, HIGH), (DAI_PB 7, SPORT_DB_O 0),
          (PBEN 1, HIGH), (DAI_PB 1, SPORT_DA_O 1), (PBEN 19, HIGH), (DAI_PB 19, SPORT_DB_O 1),
          (PBEN 6, HIGH), (DAI_PB 6, SPORT_DA_O 2), (PBEN 2, HIGH), (DAI_PB 2, SPORT_DB_O 2),
          (PBEN 9, HIGH), (DAI_PB 9, SPORT_DA_O 3), (PBEN 5, HIGH), (DAI_PB 5, SPORT_DB_O 3)]
       (if g_input_type = INPUT_TYPE_AES then
          SRU [(PBEN 20, HIGH), (DAI_PB 20, DAI_PB_O 17), (PBEN 10, HIGH), (DAI_PB 10, DAI_PB_O 16),
               (SPORT_CLK 0, DAI_PB_O 17), (SPORT_FS 0, DAI_PB_O 16), (SPORT_CLK 1, DAI_PB_O 17), (SPORT_FS 1, DAI_PB_O 16),
               (SPORT_CLK 2, DAI_PB_O 17), (SPORT_FS 2, DAI_PB_O 16), (SPORT_CLK 3, DAI_PB_O 17), (SPORT_FS 3, DAI_PB_O 16)] c
        else
          SRU [(PBEN 20, HIGH), (DAI_PB 20, PCG_CLK PCGB), (SPORT_CLK 0, PCG_CLK PCGB),
               (PBEN 10, HIGH), (SPORT_FS 0, PCG_FS PCGB), (DAI_PB 10, PCG_FS PCGB),
               (SPORT_CLK 1, PCG_CLK PCGB), (SPORT_FS 1, PCG_FS PCGB), (SPORT_CLK 2, PCG_CLK PCGB), (SPORT_FS 2, PCG_FS PCGB),
               (SPORT_CLK 3, PCG_CLK PCGB), (SPORT_FS 3, PCG_FS PCGB)] c)"

definition PCM4104_Reset :: "conv \<Rightarrow> conv" where
  "PCM4104_Reset c = SRU [(DPI_PBEN 6, HIGH), (DPI_PB 6, LOW), (DPI_PB 6, HIGH)] c"

definition mute_pin :: "int \<Rightarrow> conv \<Rightarrow> conv" where
  "mute_pin i_choice c =
     SRU ((DPI_PBEN 8, HIGH) # (if i_choice = 0 then [(DPI_PB 8, LOW)] else if i_choice = 1 then [(DPI_PB 8, HIGH)] else [])) c"

definition Stop_PCM4104_DMA :: "conv \<Rightarrow> conv" where
  "Stop_PCM4104_DMA c = c\<lparr>cpsp := (cpsp c)((0, HA) := 0, (0, HB) := 0, (1, HA) := 0, (1, HB) := 0, (2, HA) := 0, (2, HB) := 0, (3, HA) := 0, (3, HB) := 0)\<rparr>"

definition tx_control :: "sport_bit list" where
  "tx_control = [SPTRAN, OPMODE, SLEN24, SPEN_A, SCHEN_A, SDEN_A, L_FIRST, SPEN_B, SCHEN_B, SDEN_B]"

definition PCM4104_InitData :: "links \<Rightarrow> conv \<Rightarrow> conv" where
  "PCM4104_InitData L c =
     (let c = Stop_PCM4104_DMA c;
          c = c\<lparr>spctl := (spctl c)(0 := [], 1 := [], 2 := [], 3 := [])\<rparr>;
          c = c\<lparr>TCB_TxBlock_PCM4104 := map (\<lambda>i. dma_chain (tx_tcb_at L + of_nat (16 * i)) (tx_block_at L + of_nat (1024 * i))) [0..<USE_PCM4104_DATALINE_MAX]\<rparr>;
          p = (\<lambda>i. chain_pointer (tx_tcb_at L + of_nat (16 * i)) 0);
          c = c\<lparr>cpsp := (cpsp c)((0, HA) := p 0, (0, HB) := p 1, (1, HA) := p 2, (1, HB) := p 3, (2, HA) := p 4, (2, HB) := p 5, (3, HA) := p 6, (3, HB) := p 7)\<rparr>
      in c\<lparr>spctl := (spctl c)(0 := tx_control, 1 := tx_control, 2 := tx_control, 3 := tx_control)\<rparr>)"

definition clear_pcm4104_data :: "conv \<Rightarrow> conv" where
  "clear_pcm4104_data c = c\<lparr>tx_samples := replicate USE_PCM4104_DATALINE_MAX (replicate 1024 0)\<rparr>"

definition Register_DA_Interrupt :: "conv \<Rightarrow> conv" where
  "Register_DA_Interrupt c = c\<lparr>irq := (irq c)(0 := SP0_send)\<rparr>"

definition Init_PCG :: "conv \<Rightarrow> conv" where
  "Init_PCG c =
     (if Init_PCG_FLAG c = 1 then c
      else let c = SRU [(PBEN 3, LOW), (PCG_EXT PCGB, DAI_PB_O 3)] (c\<lparr>Init_PCG_FLAG := 1\<rparr>)
           in c\<lparr>pcg_ctl1 := (pcg_ctl1 c)(PCGB := (4 + 2 * 2 ^ 20, [CLKSOURCE, FSSOURCE])), pcg_ctl0 := (pcg_ctl0 c)(PCGB := (512, [ENCLK, ENFS]))\<rparr>)"

definition PCM4104_Init :: "links \<Rightarrow> u32 \<Rightarrow> conv \<Rightarrow> conv" where
  "PCM4104_Init L g_input_type c =
     mute_pin 0 (Register_DA_Interrupt (PCM4104_InitData L (PCM4104_Reset (PCM4104_Pin_Init g_input_type (Stop_PCM4104_DMA (Init_PCG c))))))"

definition reinit_da_body :: "links \<Rightarrow> u32 \<Rightarrow> conv \<Rightarrow> conv" where
  "reinit_da_body L g_input_type c = PCM4104_Init L g_input_type (clear_pcm4104_data (Stop_PCM4104_DMA c))"

section \<open>The analogue and AES input: CS5368.c, MIC.c, RCA.c, initSRU.c\<close>

definition PCG_Init_GLOBAL :: "conv \<Rightarrow> conv" where
  "PCG_Init_GLOBAL c =
     (if g_i_pcg_used c = 0 then
        let c = SRU [(PBEN 3, LOW), (PCG_EXT PCGA, DAI_PB_O 3)] (c\<lparr>g_i_pcg_used := 1\<rparr>)
        in c\<lparr>pcg_ctl1 := (pcg_ctl1 c)(PCGA := (4 + 2 * 2 ^ 20, [CLKSOURCE, FSSOURCE])), pcg_ctl0 := (pcg_ctl0 c)(PCGA := (512, [ENCLK, ENFS]))\<rparr>
      else c)"

definition clearDAIpins :: "conv \<Rightarrow> conv" where
  "clearDAIpins c = SRU (map (\<lambda>n. (DAI_PB n, LOW)) [1..<21] @ map (\<lambda>n. (PBEN n, LOW)) [1..<21]) c"

definition ad_data_pins :: "(sru_pin \<times> sig) list" where
  "ad_data_pins = [(PBEN 18, LOW), (SPORT_DA 5, DAI_PB_O 18), (PBEN 4, LOW), (SPORT_DB 5, DAI_PB_O 4),
     (PBEN 8, LOW), (SPORT_DA 6, DAI_PB_O 8), (PBEN 14, LOW), (SPORT_DB 6, DAI_PB_O 14)]"

definition AD_AES_Pin_Init :: "int \<Rightarrow> conv \<Rightarrow> conv" where
  "AD_AES_Pin_Init i_choice c =
     (if i_choice = 0 then
        SRU ([(PBEN 17, HIGH), (DAI_PB 17, PCG_CLK PCGA), (SPORT_CLK 5, PCG_CLK PCGA), (SPORT_CLK 6, PCG_CLK PCGA),
              (PBEN 16, HIGH), (DAI_PB 16, PCG_FS PCGA), (SPORT_FS 5, PCG_FS PCGA), (SPORT_FS 6, PCG_FS PCGA)] @ ad_data_pins)
          (PCG_Init_GLOBAL c)
      else if i_choice = 1 then
        SRU ([(PBEN 17, LOW), (PBEN 16, LOW), (SPORT_CLK 5, DAI_PB_O 17), (SPORT_FS 5, DAI_PB_O 16),
              (SPORT_CLK 6, DAI_PB_O 17), (SPORT_FS 6, DAI_PB_O 16)] @ ad_data_pins) c
      else c)"

definition AD_Reset :: "conv \<Rightarrow> conv" where
  "AD_Reset c = SRU [(DPI_PBEN 11, HIGH), (DPI_PB 11, LOW), (DPI_PB 11, HIGH)] c"

definition AD_PowerOff :: "conv \<Rightarrow> conv" where
  "AD_PowerOff c = SRU [(DPI_PBEN 11, HIGH), (DPI_PB 11, LOW)] c"

definition AES_Reset :: "conv \<Rightarrow> conv" where
  "AES_Reset c = SRU [(DPI_PBEN 9, HIGH), (DPI_PB 9, LOW), (DPI_PB 9, HIGH)] c"

definition AES_PowerOff :: "conv \<Rightarrow> conv" where
  "AES_PowerOff c = SRU [(DPI_PBEN 9, HIGH), (DPI_PB 9, LOW)] c"

definition select_pin :: "nat \<Rightarrow> int \<Rightarrow> conv \<Rightarrow> conv" where
  "select_pin n i_choice c =
     SRU ((DPI_PBEN n, HIGH) # (if i_choice = 0 then [(DPI_PB n, LOW)] else if i_choice = 1 then [(DPI_PB n, HIGH)] else [])) c"

definition AD_AES_Select_body :: "int \<Rightarrow> conv \<Rightarrow> conv" where
  "AD_AES_Select_body = select_pin 13"

definition AD_MIC_Select_body :: "int \<Rightarrow> conv \<Rightarrow> conv" where
  "AD_MIC_Select_body = select_pin 7"

definition Disable_AD_DMA :: "conv \<Rightarrow> conv" where
  "Disable_AD_DMA c = c\<lparr>cpsp := (cpsp c)((5, HA) := 0, (5, HB) := 0, (6, HA) := 0, (6, HB) := 0)\<rparr>"

definition rx_control :: "sport_bit list" where
  "rx_control = [OPMODE, SLEN32, SPEN_A, SCHEN_A, SDEN_A, L_FIRST, CKRE, SPEN_B, SCHEN_B, SDEN_B]"

definition CS5368_InitData :: "links \<Rightarrow> conv \<Rightarrow> conv" where
  "CS5368_InitData L c =
     (let c = Disable_AD_DMA c;
          c = c\<lparr>spdiv := (spdiv c)(5 := 0, 6 := 0)\<rparr>;
          c = c\<lparr>TCB_RxBlock_I2S_CS5368 := map (\<lambda>i. dma_chain (rx_tcb_at L + of_nat (16 * i)) (rx_block_at L + of_nat (1024 * i))) [0..<MAININPUT_SPORTNUM]\<rparr>;
          p = (\<lambda>i. chain_pointer (rx_tcb_at L + of_nat (16 * i)) 0);
          c = c\<lparr>cpsp := (cpsp c)((5, HA) := p 0, (5, HB) := p 1, (6, HA) := p 2, (6, HB) := p 3)\<rparr>
      in c\<lparr>spctl := (spctl c)(5 := rx_control, 6 := rx_control)\<rparr>)"

text \<open>The block after the one that the DMA fills, by the chain pointer \<open>cp\<close> of the port; 0 when no block matches.\<close>

definition Get_Current_Dma_CS5368_Rxblock :: "links \<Rightarrow> u32 \<Rightarrow> nat" where
  "Get_Current_Dma_CS5368_Rxblock L cp =
     (let i = length (takeWhile (\<lambda>a. a \<noteq> cp) (map (chain_pointer (rx_tcb_at L + of_nat (16 * 2))) [0..<4])) in if i < 4 then i else 0)"

definition Unregister_AD_Interrupt :: "conv \<Rightarrow> conv" where
  "Unregister_AD_Interrupt c = c\<lparr>irq := (irq c)(5 := SIG_IGN, 6 := SIG_IGN)\<rparr>"

definition Register_AD_Interrupt :: "conv \<Rightarrow> conv" where
  "Register_AD_Interrupt c = c\<lparr>irq := (irq c)(6 := SP6_receive)\<rparr>"

definition clear_ad_interrupt_index :: "conv \<Rightarrow> conv" where
  "clear_ad_interrupt_index c = c\<lparr>g_i_ad_current_index := 4 - 1\<rparr>"

definition clear_ad_buffer :: "conv \<Rightarrow> conv" where
  "clear_ad_buffer c = c\<lparr>RxBlock_I2S_CS5368 := replicate MAININPUT_SPORTNUM (replicate 1024 0)\<rparr>"

definition AD_AES_Init_body :: "links \<Rightarrow> u32 \<Rightarrow> int \<Rightarrow> conv \<Rightarrow> conv" where
  "AD_AES_Init_body L g_input_type i_choice c =
     (let c = clear_ad_buffer (clear_ad_interrupt_index (Register_AD_Interrupt (Unregister_AD_Interrupt (Disable_AD_DMA c))));
          c = (if i_choice = 0 then AD_Reset (AD_AES_Pin_Init 0 (AD_MIC_Select_body 0 (AD_AES_Select_body 1 c)))
               else if i_choice = 1 then AD_AES_Pin_Init 1 (AD_MIC_Select_body 0 (AD_AES_Select_body 0 (AES_Reset c)))
               else c)
      in CS5368_InitData L (reinit_da_body L g_input_type c))"

definition Disable_SPDIF_DMA :: "conv \<Rightarrow> conv" where
  "Disable_SPDIF_DMA c = c\<lparr>spctl := (spctl c)(4 := []), cpsp := (cpsp c)((4, HA) := 0)\<rparr>"

definition Clear_SPDIF_DMA_Buffer :: "conv \<Rightarrow> conv" where
  "Clear_SPDIF_DMA_Buffer c = c\<lparr>RxBlock_SPDIF := (RxBlock_SPDIF c)[0 := replicate 1024 0]\<rparr>"

definition AD_Disable_Others_body :: "conv \<Rightarrow> conv" where
  "AD_Disable_Others_body c = Clear_SPDIF_DMA_Buffer (Disable_SPDIF_DMA (AES_PowerOff (Unregister_AD_Interrupt c)))"

definition AES_Disable_Others_body :: "conv \<Rightarrow> conv" where
  "AES_Disable_Others_body c = Clear_SPDIF_DMA_Buffer (Disable_SPDIF_DMA (AD_PowerOff (Unregister_AD_Interrupt c)))"

definition MIC_Init_body :: "links \<Rightarrow> u32 \<Rightarrow> conv \<Rightarrow> conv" where
  "MIC_Init_body L g_input_type c = AD_MIC_Select_body 1 (AD_AES_Init_body L g_input_type 0 c)"

text \<open>The pins of two inputs that have a port of their own; no function calls these.\<close>

definition MIC_Pin_Init :: "conv \<Rightarrow> conv" where
  "MIC_Pin_Init c =
     SRU [(PBEN 10, HIGH), (DAI_PB 10, PCG_CLK PCGA), (SPORT_CLK 6, PCG_CLK PCGA), (PBEN 20, HIGH), (DAI_PB 20, PCG_FS PCGA),
          (SPORT_FS 6, PCG_FS PCGA), (PBEN 14, LOW), (SPORT_DA 6, DAI_PB_O 14)] (PCG_Init_GLOBAL c)"

definition RCA_Pin_Init :: "conv \<Rightarrow> conv" where
  "RCA_Pin_Init c =
     SRU [(PBEN 10, HIGH), (DAI_PB 10, PCG_CLK PCGA), (SPORT_CLK 6, PCG_CLK PCGA), (PBEN 20, HIGH), (DAI_PB 20, PCG_FS PCGA),
          (SPORT_FS 6, PCG_FS PCGA), (PBEN 5, LOW), (SPORT_DA 6, DAI_PB_O 5)] (PCG_Init_GLOBAL c)"

definition RCA_Init_body :: "links \<Rightarrow> u32 \<Rightarrow> conv \<Rightarrow> conv" where
  "RCA_Init_body L g_input_type c = AD_MIC_Select_body 1 (AD_AES_Init_body L g_input_type 0 c)"

section \<open>The digital input: Spdif\_Coax.c\<close>

definition InitSRC :: "conv \<Rightarrow> conv" where
  "InitSRC c = c\<lparr>srcctl0 := [SRC1_IN_I2S, SRC1_OUT_I2S, SRC1_OUT_24] @ [SRC1_ENABLE]\<rparr>"

definition Register_SPDIF_Interrupt :: "conv \<Rightarrow> conv" where
  "Register_SPDIF_Interrupt c = c\<lparr>irq := (irq c)(4 := SP4_receive)\<rparr>"

definition Unregister_SPDIF_Interrupt :: "conv \<Rightarrow> conv" where
  "Unregister_SPDIF_Interrupt c = c\<lparr>irq := (irq c)(4 := SIG_IGN)\<rparr>"

definition Init_SPDIF_Pin :: "conv \<Rightarrow> conv" where
  "Init_SPDIF_Pin c =
     (let c = SRU [(DIR_I, LOW), (DAI_PB 11, LOW), (SPORT_CLK 4, LOW), (SPORT_FS 4, LOW), (SPORT_DA 4, LOW), (SRC1_CLK_OP, LOW), (SRC1_FS_OP, LOW),
                   (SRC1_CLK_IP, LOW), (SRC1_FS_IP, LOW), (SRC1_DAT_IP, LOW)] c;
          c = Init_PCG (InitSRC (c\<lparr>dirctl := 0\<rparr>));
          c = SRU [(DIR_I, DAI_PB_O 11), (SRC1_CLK_IP, DIR_CLK_O), (SRC1_FS_IP, DIR_FS_O), (SRC1_DAT_IP, DIR_DAT_O),
                   (SPORT_CLK 4, PCG_CLK PCGB), (SPORT_FS 4, PCG_FS PCGB), (SRC1_CLK_OP, PCG_CLK PCGB), (SRC1_FS_OP, PCG_FS PCGB),
                   (SPORT_DA 4, SRC1_DAT_OP_O)] c
      in Register_SPDIF_Interrupt c)"

definition SPDIF_COAX_SEL :: "int \<Rightarrow> conv \<Rightarrow> conv" where
  "SPDIF_COAX_SEL = select_pin 12"

definition spdif_control :: "sport_bit list" where
  "spdif_control = [OPMODE, SLEN32, SPEN_A, SCHEN_A, SDEN_A, L_FIRST, CKRE]"

definition SPDIF_InitData :: "links \<Rightarrow> conv \<Rightarrow> conv" where
  "SPDIF_InitData L c =
     (let c = c\<lparr>cpsp := (cpsp c)((4, HA) := 0)\<rparr>;
          c = c\<lparr>spdiv := (spdiv c)(4 := 0)\<rparr>;
          c = c\<lparr>TCB_RxBlock_SPDIF := dma_chain (spdif_tcb_at L) (spdif_block_at L)\<rparr>;
          c = c\<lparr>cpsp := (cpsp c)((4, HA) := chain_pointer (spdif_tcb_at L) 0)\<rparr>
      in c\<lparr>spctl := (spctl c)(4 := spdif_control)\<rparr>)"

definition Get_Current_Dma_Rxblock_SPDIF :: "links \<Rightarrow> u32 \<Rightarrow> nat" where
  "Get_Current_Dma_Rxblock_SPDIF L cp =
     (let i = length (takeWhile (\<lambda>a. a \<noteq> cp) (map (chain_pointer (spdif_tcb_at L)) [0..<4])) in if i < 4 then i else 0)"

definition SPDIF_Disable_Others_body :: "conv \<Rightarrow> conv" where
  "SPDIF_Disable_Others_body c = Disable_AD_DMA (AES_PowerOff (AD_PowerOff (Clear_SPDIF_DMA_Buffer (Disable_SPDIF_DMA c))))"

definition Init_SPDIF_COAX_body :: "links \<Rightarrow> u32 \<Rightarrow> int \<Rightarrow> conv \<Rightarrow> conv" where
  "Init_SPDIF_COAX_body L g_input_type i_choice c =
     (let c = SPDIF_Disable_Others_body c;
          c = (if i_choice = 0 then Init_SPDIF_Pin (SPDIF_COAX_SEL 1 c)
               else if i_choice = 1 then Init_SPDIF_Pin (SPDIF_COAX_SEL 0 c) else c)
      in SPDIF_InitData L (reinit_da_body L g_input_type (AD_AES_Select_body 1 c)))"

section \<open>The calls of the input selection\<close>

fun hw_exec :: "links \<Rightarrow> u32 \<Rightarrow> hw_call \<Rightarrow> conv \<Rightarrow> conv" where
  "hw_exec L t (PCM4104_Mute i) = mute_pin i"
| "hw_exec L t AD_Disable_Others = AD_Disable_Others_body"
| "hw_exec L t AES_Disable_Others = AES_Disable_Others_body"
| "hw_exec L t SPDIF_Disable_Others = SPDIF_Disable_Others_body"
| "hw_exec L t (AD_AES_Init i) = AD_AES_Init_body L t i"
| "hw_exec L t RCA_Init = RCA_Init_body L t"
| "hw_exec L t MIC_Init = MIC_Init_body L t"
| "hw_exec L t (Init_SPDIF_COAX i) = Init_SPDIF_COAX_body L t i"
| "hw_exec L t (AD_AES_Select i) = AD_AES_Select_body i"
| "hw_exec L t (AD_MIC_Select i) = AD_MIC_Select_body i"
| "hw_exec L t Reinit_da = reinit_da_body L t"

text \<open>A pass of the selection with its calls, the input type being set before the first call that reads it; \<open>main\<close> starts with these two calls.\<close>

definition conv_pass :: "'f flt \<Rightarrow> links \<Rightarrow> u32 \<Rightarrow> u32 \<Rightarrow> 'f insel \<times> conv \<Rightarrow> 'f insel \<times> conv" where
  "conv_pass F L sys w sc =
     (let s = Init_all_input_types F sys w (fst sc)
      in (s, fold (hw_exec L (dsp_input_type s)) (drop (length (hw (fst sc))) (hw s)) (snd sc)))"

definition conv_start :: "links \<Rightarrow> conv \<Rightarrow> conv" where
  "conv_start L c = PCM4104_Init L INPUT_TYPE_AD (clearDAIpins c)"

fun conv_run :: "'f flt \<Rightarrow> links \<Rightarrow> insel_event list \<Rightarrow> 'f insel \<times> conv \<Rightarrow> 'f insel \<times> conv" where
  "conv_run F L [] sc = sc"
| "conv_run F L (Tick # es) sc = conv_run F L es (set_interrupt_times (fst sc), snd sc)"
| "conv_run F L (Pass sys w # es) sc = conv_run F L es (conv_pass F L sys w sc)"

section \<open>What an input needs\<close>

text \<open>
  The clock behind a signal: a pin that is an input, or a generator that divides such a pin. Both generators run from the quartz of the converters on pin
  3; AES brings its own clocks on pins 17 and 16.
\<close>

datatype clock = Pin nat | Divided nat nat

definition pin_clock :: "conv \<Rightarrow> sig \<Rightarrow> nat option" where
  "pin_clock c s = (case s of DAI_PB_O n \<Rightarrow> if sru c (PBEN n) = LOW then Some n else None | _ \<Rightarrow> None)"

definition divided :: "conv \<Rightarrow> pcg \<Rightarrow> nat \<times> pcg_bit list \<Rightarrow> clock option" where
  "divided c g r = (if {CLKSOURCE, FSSOURCE} \<subseteq> set (snd (pcg_ctl1 c g)) \<and> {ENCLK, ENFS} \<subseteq> set (snd (pcg_ctl0 c g))
     then map_option (\<lambda>p. Divided p (fst r mod 2 ^ 20)) (pin_clock c (sru c (PCG_EXT g))) else None)"

definition clock_of :: "conv \<Rightarrow> sig \<Rightarrow> clock option" where
  "clock_of c s = (case s of PCG_CLK g \<Rightarrow> divided c g (pcg_ctl1 c g) | PCG_FS g \<Rightarrow> divided c g (pcg_ctl0 c g) | _ \<Rightarrow> map_option Pin (pin_clock c s))"

text \<open>A serial port runs with the clocks of input \<open>t\<close>.\<close>

definition port_clocked :: "u32 \<Rightarrow> conv \<Rightarrow> nat \<Rightarrow> bool" where
  "port_clocked t c n \<longleftrightarrow>
     clock_of c (sru c (SPORT_CLK n)) = Some (if t = INPUT_TYPE_AES then Pin 17 else Divided 3 4) \<and>
     clock_of c (sru c (SPORT_FS n)) = Some (if t = INPUT_TYPE_AES then Pin 16 else Divided 3 512)"

text \<open>A signal leaves through pin \<open>n\<close>, or comes in through it; the level of a pin of the control port.\<close>

definition leaves :: "conv \<Rightarrow> nat \<Rightarrow> sig \<Rightarrow> bool" where
  "leaves c n s \<longleftrightarrow> sru c (PBEN n) = HIGH \<and> sru c (DAI_PB n) = s"

definition enters :: "conv \<Rightarrow> nat \<Rightarrow> sru_pin \<Rightarrow> bool" where
  "enters c n p \<longleftrightarrow> sru c (PBEN n) = LOW \<and> sru c p = DAI_PB_O n"

definition control_pin :: "conv \<Rightarrow> nat \<Rightarrow> sig \<Rightarrow> bool" where
  "control_pin c n s \<longleftrightarrow> sru c (DPI_PBEN n) = HIGH \<and> sru c (DPI_PB n) = s"

definition output_ready :: "links \<Rightarrow> u32 \<Rightarrow> conv \<Rightarrow> bool" where
  "output_ready L t c \<longleftrightarrow> list_all (port_clocked t c) [0, 1, 2, 3] \<and>
     list_all (\<lambda>(n, s). leaves c n s) [(13, SPORT_DA_O 0), (7, SPORT_DB_O 0), (1, SPORT_DA_O 1), (19, SPORT_DB_O 1),
       (6, SPORT_DA_O 2), (2, SPORT_DB_O 2), (9, SPORT_DA_O 3), (5, SPORT_DB_O 3)] \<and>
     list_all (\<lambda>n. spctl c n = tx_control \<and> cpsp c (n, HA) = chain_pointer (tx_tcb_at L + of_nat (32 * n)) 0 \<and>
       cpsp c (n, HB) = chain_pointer (tx_tcb_at L + of_nat (32 * n + 16)) 0) [0, 1, 2, 3] \<and>
     irq c 0 = SP0_send \<and> control_pin c 6 HIGH \<and> control_pin c 8 LOW"

definition analogue_ready :: "links \<Rightarrow> u32 \<Rightarrow> conv \<Rightarrow> bool" where
  "analogue_ready L t c \<longleftrightarrow> list_all (port_clocked t c) [5, 6] \<and>
     list_all (\<lambda>(n, p). enters c n p) [(18, SPORT_DA 5), (4, SPORT_DB 5), (8, SPORT_DA 6), (14, SPORT_DB 6)] \<and>
     list_all (\<lambda>n. spctl c n = rx_control \<and> cpsp c (n, HA) = chain_pointer (rx_tcb_at L + of_nat (32 * (n - 5))) 0 \<and>
       cpsp c (n, HB) = chain_pointer (rx_tcb_at L + of_nat (32 * (n - 5) + 16)) 0) [5, 6] \<and>
     irq c 6 = SP6_receive \<and> cpsp c (4, HA) = 0 \<and> spctl c 4 = [] \<and>
     control_pin c 13 (if t = INPUT_TYPE_AES then LOW else HIGH) \<and>
     control_pin c 7 (if t \<in> {INPUT_TYPE_DVD, INPUT_TYPE_MIC} then HIGH else LOW) \<and>
     control_pin c (if t = INPUT_TYPE_AES then 9 else 11) HIGH \<and> control_pin c (if t = INPUT_TYPE_AES then 11 else 9) LOW"

definition digital_ready :: "links \<Rightarrow> u32 \<Rightarrow> conv \<Rightarrow> bool" where
  "digital_ready L t c \<longleftrightarrow> port_clocked t c 4 \<and> enters c 11 DIR_I \<and> sru c SRC1_CLK_IP = DIR_CLK_O \<and> sru c SRC1_FS_IP = DIR_FS_O \<and>
     sru c SRC1_DAT_IP = DIR_DAT_O \<and> sru c SRC1_CLK_OP = sru c (SPORT_CLK 4) \<and> sru c SRC1_FS_OP = sru c (SPORT_FS 4) \<and>
     sru c (SPORT_DA 4) = SRC1_DAT_OP_O \<and> SRC1_ENABLE \<in> set (srcctl0 c) \<and> dirctl c = 0 \<and>
     spctl c 4 = spdif_control \<and> cpsp c (4, HA) = chain_pointer (spdif_tcb_at L) 0 \<and> irq c 4 = SP4_receive \<and>
     control_pin c 12 (if t = INPUT_TYPE_SPDIF then HIGH else LOW) \<and>
     list_all (\<lambda>k. cpsp c k = 0) [(5, HA), (5, HB), (6, HA), (6, HB)] \<and> control_pin c 9 LOW \<and> control_pin c 11 LOW"

definition input_hardware :: "links \<Rightarrow> u32 \<Rightarrow> conv \<Rightarrow> bool" where
  "input_hardware L t c \<longleftrightarrow> output_ready L t c \<and>
     (if t \<in> {INPUT_TYPE_SPDIF, INPUT_TYPE_COAX} then digital_ready L t c
      else if t = INPUT_TEST then list_all (\<lambda>k. cpsp c k = 0) [(4, HA), (5, HA), (5, HB), (6, HA), (6, HB)]
      else analogue_ready L t c)"

text \<open>The state in which every call finds the hardware: the pin of the quartz and the digital input are inputs, a generator that counts as set up is.\<close>

definition generator :: "conv \<Rightarrow> pcg \<Rightarrow> bool" where
  "generator c g \<longleftrightarrow> sru c (PCG_EXT g) = DAI_PB_O 3 \<and> pcg_ctl1 c g = (4 + 2 * 2 ^ 20, [CLKSOURCE, FSSOURCE]) \<and> pcg_ctl0 c g = (512, [ENCLK, ENFS])"

definition conv_ok :: "conv \<Rightarrow> bool" where
  "conv_ok c \<longleftrightarrow> sru c (PBEN 3) = LOW \<and> sru c (PBEN 11) = LOW \<and> Init_PCG_FLAG c = 1 \<and> generator c PCGB \<and> (g_i_pcg_used c = 0 \<or> generator c PCGA)"

lemma route_all_simps: "route_all [] f = f" "route_all ((p, s) # rs) f = route_all rs (f(p := s))"
  by (simp_all add: route_all_def)

lemma route_all_append: "route_all (a @ b) f = route_all b (route_all a f)"
  by (simp add: route_all_def)

text \<open>The functions as updates of single fields, so that the state occurs once in each.\<close>

lemma SRU_update: "SRU rs c = sru_update (route_all rs) c"
  by (simp add: SRU_def)

lemma Stop_PCM4104_DMA_update: "Stop_PCM4104_DMA c =
    cpsp_update (\<lambda>f. f((0, HA) := 0, (0, HB) := 0, (1, HA) := 0, (1, HB) := 0, (2, HA) := 0, (2, HB) := 0, (3, HA) := 0, (3, HB) := 0)) c"
  by (simp add: Stop_PCM4104_DMA_def)

lemma Disable_AD_DMA_update: "Disable_AD_DMA c = cpsp_update (\<lambda>f. f((5, HA) := 0, (5, HB) := 0, (6, HA) := 0, (6, HB) := 0)) c"
  by (simp add: Disable_AD_DMA_def)

lemma PCM4104_InitData_update: "PCM4104_InitData L c =
    spctl_update (\<lambda>f. f(0 := tx_control, 1 := tx_control, 2 := tx_control, 3 := tx_control))
      (cpsp_update (\<lambda>f. f((0, HA) := chain_pointer (tx_tcb_at L) 0, (0, HB) := chain_pointer (tx_tcb_at L + 16) 0,
         (1, HA) := chain_pointer (tx_tcb_at L + 32) 0, (1, HB) := chain_pointer (tx_tcb_at L + 48) 0,
         (2, HA) := chain_pointer (tx_tcb_at L + 64) 0, (2, HB) := chain_pointer (tx_tcb_at L + 80) 0,
         (3, HA) := chain_pointer (tx_tcb_at L + 96) 0, (3, HB) := chain_pointer (tx_tcb_at L + 112) 0))
       (TCB_TxBlock_PCM4104_update (\<lambda>_. map (\<lambda>i. dma_chain (tx_tcb_at L + of_nat (16 * i)) (tx_block_at L + of_nat (1024 * i))) [0..<8]) c))"
  by (cases c) (simp add: PCM4104_InitData_def Stop_PCM4104_DMA_def c_consts fun_upd_twist fun_eq_iff)

lemma CS5368_InitData_update: "CS5368_InitData L c =
    spctl_update (\<lambda>f. f(5 := rx_control, 6 := rx_control))
      (cpsp_update (\<lambda>f. f((5, HA) := chain_pointer (rx_tcb_at L) 0, (5, HB) := chain_pointer (rx_tcb_at L + 16) 0,
         (6, HA) := chain_pointer (rx_tcb_at L + 32) 0, (6, HB) := chain_pointer (rx_tcb_at L + 48) 0))
       (TCB_RxBlock_I2S_CS5368_update (\<lambda>_. map (\<lambda>i. dma_chain (rx_tcb_at L + of_nat (16 * i)) (rx_block_at L + of_nat (1024 * i))) [0..<4])
       (spdiv_update (\<lambda>f. f(5 := 0, 6 := 0)) c)))"
  by (cases c) (simp add: CS5368_InitData_def Disable_AD_DMA_def c_consts fun_eq_iff)

lemma SPDIF_InitData_update: "SPDIF_InitData L c =
    spctl_update (\<lambda>f. f(4 := spdif_control)) (cpsp_update (\<lambda>f. f((4, HA) := chain_pointer (spdif_tcb_at L) 0))
       (TCB_RxBlock_SPDIF_update (\<lambda>_. dma_chain (spdif_tcb_at L) (spdif_block_at L)) (spdiv_update (\<lambda>f. f(4 := 0)) c)))"
  by (cases c) (simp add: SPDIF_InitData_def)

lemma field_updates:
  "Register_DA_Interrupt c = irq_update (\<lambda>f. f(0 := SP0_send)) c"
  "Unregister_AD_Interrupt c = irq_update (\<lambda>f. f(5 := SIG_IGN, 6 := SIG_IGN)) c"
  "Register_AD_Interrupt c = irq_update (\<lambda>f. f(6 := SP6_receive)) c"
  "Register_SPDIF_Interrupt c = irq_update (\<lambda>f. f(4 := SP4_receive)) c"
  "Disable_SPDIF_DMA c = cpsp_update (\<lambda>f. f((4, HA) := 0)) (spctl_update (\<lambda>f. f(4 := [])) c)"
  "Clear_SPDIF_DMA_Buffer c = RxBlock_SPDIF_update (\<lambda>b. b[0 := replicate 1024 0]) c"
  by (simp_all add: Register_DA_Interrupt_def Unregister_AD_Interrupt_def Register_AD_Interrupt_def Register_SPDIF_Interrupt_def
      Disable_SPDIF_DMA_def Clear_SPDIF_DMA_Buffer_def)

lemmas conv_updates = SRU_update Stop_PCM4104_DMA_update Disable_AD_DMA_update PCM4104_InitData_update CS5368_InitData_update
  SPDIF_InitData_update field_updates

lemmas conv_calls = mute_pin_def select_pin_def PCM4104_Pin_Init_def PCM4104_Reset_def clear_pcm4104_data_def PCM4104_Init_def
  reinit_da_body_def AD_AES_Pin_Init_def ad_data_pins_def AD_Reset_def AD_PowerOff_def AES_Reset_def AES_PowerOff_def AD_AES_Select_body_def
  AD_MIC_Select_body_def clear_ad_interrupt_index_def clear_ad_buffer_def AD_AES_Init_body_def AD_Disable_Others_body_def
  AES_Disable_Others_body_def MIC_Init_body_def RCA_Init_body_def InitSRC_def Init_SPDIF_Pin_def SPDIF_COAX_SEL_def SPDIF_Disable_Others_body_def
  Init_SPDIF_COAX_body_def

text \<open>The clock generators are set up once.\<close>

lemma Init_PCG_again: "Init_PCG_FLAG c = 1 \<Longrightarrow> Init_PCG c = c"
  by (simp add: Init_PCG_def)

lemma PCG_Init_GLOBAL_fields:
  "sru (PCG_Init_GLOBAL c) = (if g_i_pcg_used c = 0 then (sru c)(PBEN 3 := LOW, PCG_EXT PCGA := DAI_PB_O 3) else sru c)"
  "cpsp (PCG_Init_GLOBAL c) = cpsp c" "spctl (PCG_Init_GLOBAL c) = spctl c" "irq (PCG_Init_GLOBAL c) = irq c"
  "Init_PCG_FLAG (PCG_Init_GLOBAL c) = Init_PCG_FLAG c" "srcctl0 (PCG_Init_GLOBAL c) = srcctl0 c" "dirctl (PCG_Init_GLOBAL c) = dirctl c"
  "g_i_pcg_used (PCG_Init_GLOBAL c) = (if g_i_pcg_used c = 0 then 1 else g_i_pcg_used c)"
  "pcg_ctl1 (PCG_Init_GLOBAL c) = (if g_i_pcg_used c = 0 then (pcg_ctl1 c)(PCGA := (4 + 2 * 2 ^ 20, [CLKSOURCE, FSSOURCE])) else pcg_ctl1 c)"
  "pcg_ctl0 (PCG_Init_GLOBAL c) = (if g_i_pcg_used c = 0 then (pcg_ctl0 c)(PCGA := (512, [ENCLK, ENFS])) else pcg_ctl0 c)"
  by (simp_all add: PCG_Init_GLOBAL_def SRU_def route_all_simps)

lemma reinit_ok: "conv_ok c \<Longrightarrow> conv_ok (reinit_da_body L t c)"
  by (simp add: conv_ok_def generator_def conv_calls conv_updates Init_PCG_again route_all_simps)

lemma AD_AES_Init_forms:
  "AD_AES_Init_body L t 0 c = CS5368_InitData L (reinit_da_body L t (AD_Reset (AD_AES_Pin_Init 0 (AD_MIC_Select_body 0 (AD_AES_Select_body 1
     (clear_ad_buffer (clear_ad_interrupt_index (Register_AD_Interrupt (Unregister_AD_Interrupt (Disable_AD_DMA c))))))))))"
  "AD_AES_Init_body L t 1 c = CS5368_InitData L (reinit_da_body L t (AD_AES_Pin_Init 1 (AD_MIC_Select_body 0 (AD_AES_Select_body 0 (AES_Reset
     (clear_ad_buffer (clear_ad_interrupt_index (Register_AD_Interrupt (Unregister_AD_Interrupt (Disable_AD_DMA c))))))))))"
  by (simp_all add: AD_AES_Init_body_def Let_def)

lemma Init_SPDIF_COAX_forms:
  "Init_SPDIF_COAX_body L t 0 c =
     SPDIF_InitData L (reinit_da_body L t (AD_AES_Select_body 1 (Init_SPDIF_Pin (SPDIF_COAX_SEL 1 (SPDIF_Disable_Others_body c)))))"
  "Init_SPDIF_COAX_body L t 1 c =
     SPDIF_InitData L (reinit_da_body L t (AD_AES_Select_body 1 (Init_SPDIF_Pin (SPDIF_COAX_SEL 0 (SPDIF_Disable_Others_body c)))))"
  by (simp_all add: Init_SPDIF_COAX_body_def Let_def)

lemma Init_SPDIF_Pin_form: "Init_SPDIF_Pin c = Register_SPDIF_Interrupt (SRU
    [(DIR_I, DAI_PB_O 11), (SRC1_CLK_IP, DIR_CLK_O), (SRC1_FS_IP, DIR_FS_O), (SRC1_DAT_IP, DIR_DAT_O),
     (SPORT_CLK 4, PCG_CLK PCGB), (SPORT_FS 4, PCG_FS PCGB), (SRC1_CLK_OP, PCG_CLK PCGB), (SRC1_FS_OP, PCG_FS PCGB), (SPORT_DA 4, SRC1_DAT_OP_O)]
    (Init_PCG (InitSRC (dirctl_update (\<lambda>_. 0) (SRU [(DIR_I, LOW), (DAI_PB 11, LOW), (SPORT_CLK 4, LOW), (SPORT_FS 4, LOW), (SPORT_DA 4, LOW),
       (SRC1_CLK_OP, LOW), (SRC1_FS_OP, LOW), (SRC1_CLK_IP, LOW), (SRC1_FS_IP, LOW), (SRC1_DAT_IP, LOW)] c)))))"
  by (simp add: Init_SPDIF_Pin_def Let_def)

lemmas conv_steps = conv_updates mute_pin_def select_pin_def PCM4104_Reset_def clear_pcm4104_data_def PCM4104_Init_def reinit_da_body_def
  ad_data_pins_def AD_Reset_def AD_PowerOff_def AES_Reset_def AES_PowerOff_def AD_AES_Select_body_def AD_MIC_Select_body_def
  clear_ad_interrupt_index_def clear_ad_buffer_def AD_Disable_Others_body_def AES_Disable_Others_body_def InitSRC_def Init_SPDIF_Pin_form
  SPDIF_COAX_SEL_def SPDIF_Disable_Others_body_def route_all_simps route_all_append PCG_Init_GLOBAL_fields Init_PCG_again

lemmas conv_eval = conv_steps PCM4104_Pin_Init_def AD_AES_Pin_Init_def

text \<open>Every call keeps \<open>conv_ok\<close>.\<close>

lemma SRU_ok: "conv_ok c \<Longrightarrow> {PBEN 3, PBEN 11, PCG_EXT PCGA, PCG_EXT PCGB} \<inter> fst ` set rs = {} \<Longrightarrow> conv_ok (SRU rs c)"
proof -
  have "q \<notin> fst ` set rs \<Longrightarrow> route_all rs f q = f q" for q f
    by (induction rs arbitrary: f) (auto simp: route_all_simps)
  then show "conv_ok c \<Longrightarrow> {PBEN 3, PBEN 11, PCG_EXT PCGA, PCG_EXT PCGB} \<inter> fst ` set rs = {} \<Longrightarrow> conv_ok (SRU rs c)"
    by (simp add: conv_ok_def generator_def SRU_def)
qed

lemma field_ok: "conv_ok c \<Longrightarrow> conv_ok (cpsp_update f1 c)" "conv_ok c \<Longrightarrow> conv_ok (spctl_update f2 c)" "conv_ok c \<Longrightarrow> conv_ok (irq_update f3 c)"
  "conv_ok c \<Longrightarrow> conv_ok (RxBlock_SPDIF_update f4 c)" "conv_ok c \<Longrightarrow> conv_ok (tx_samples_update f5 c)" "conv_ok c \<Longrightarrow> conv_ok (spdiv_update f6 c)"
  "conv_ok c \<Longrightarrow> conv_ok (TCB_TxBlock_PCM4104_update f7 c)" "conv_ok c \<Longrightarrow> conv_ok (TCB_RxBlock_I2S_CS5368_update f8 c)"
  "conv_ok c \<Longrightarrow> conv_ok (TCB_RxBlock_SPDIF_update f9 c)" "conv_ok c \<Longrightarrow> conv_ok (g_i_ad_current_index_update f10 c)"
  "conv_ok c \<Longrightarrow> conv_ok (RxBlock_I2S_CS5368_update f11 c)" "conv_ok c \<Longrightarrow> conv_ok (dirctl_update f12 c)" "conv_ok c \<Longrightarrow> conv_ok (srcctl0_update f13 c)"
  by (simp_all add: conv_ok_def generator_def)

lemma PCG_ok: "conv_ok c \<Longrightarrow> conv_ok (Init_PCG c)" "conv_ok c \<Longrightarrow> conv_ok (PCG_Init_GLOBAL c)"
  by (simp add: conv_ok_def Init_PCG_def) (auto simp add: conv_ok_def generator_def PCG_Init_GLOBAL_fields)

lemmas conv_oks = SRU_ok field_ok PCG_ok

lemma hw_exec_ok: "conv_ok c \<Longrightarrow> conv_ok (hw_exec L t call c)"
proof -
  note defs = Stop_PCM4104_DMA_update Disable_AD_DMA_update PCM4104_InitData_update CS5368_InitData_update SPDIF_InitData_update field_updates
  have reinit: "conv_ok c \<Longrightarrow> conv_ok (reinit_da_body L t c)" for c
    by (simp add: reinit_da_body_def clear_pcm4104_data_def PCM4104_Init_def mute_pin_def PCM4104_Reset_def PCM4104_Pin_Init_def defs conv_oks)
  have sel: "conv_ok c \<Longrightarrow> conv_ok (select_pin n i c)" for n i c by (simp add: select_pin_def conv_oks)
  have ad: "conv_ok c \<Longrightarrow> conv_ok (AD_AES_Init_body L t i c)" for i c
    by (simp add: AD_AES_Init_body_def Let_def defs conv_oks reinit sel AD_Reset_def AD_AES_Pin_Init_def ad_data_pins_def AES_Reset_def
        AD_MIC_Select_body_def AD_AES_Select_body_def clear_ad_buffer_def clear_ad_interrupt_index_def)
  have spdif: "conv_ok c \<Longrightarrow> conv_ok (SPDIF_Disable_Others_body c)" for c
    by (simp add: SPDIF_Disable_Others_body_def defs conv_oks AES_PowerOff_def AD_PowerOff_def)
  show "conv_ok c \<Longrightarrow> conv_ok (hw_exec L t call c)"
    by (cases call) (simp_all add: mute_pin_def AD_Disable_Others_body_def AES_Disable_Others_body_def MIC_Init_body_def RCA_Init_body_def
      AD_MIC_Select_body_def AD_AES_Select_body_def Init_SPDIF_COAX_body_def Let_def Init_SPDIF_Pin_form InitSRC_def SPDIF_COAX_SEL_def defs conv_oks
      reinit sel ad spdif AES_PowerOff_def AD_PowerOff_def)
qed

lemma hw_execs_ok: "conv_ok c \<Longrightarrow> conv_ok (fold (hw_exec L t) calls c)"
  by (induction calls arbitrary: c) (simp_all add: hw_exec_ok)

text \<open>What the set-up calls of each input leave behind.\<close>

lemmas ready_defs = input_hardware_def output_ready_def analogue_ready_def digital_ready_def port_clocked_def leaves_def enters_def control_pin_def
  clock_of_def pin_clock_def divided_def

lemma AD_ready_first:
  "conv_ok c \<Longrightarrow> g_i_pcg_used c = 0 \<Longrightarrow> input_hardware L INPUT_TYPE_AD (mute_pin 0 (AD_AES_Init_body L INPUT_TYPE_AD 0 (AD_Disable_Others_body c)))"
  by (simp add: ready_defs conv_ok_def generator_def AD_AES_Init_forms conv_eval c_consts)

lemma AD_ready_again:
  "conv_ok c \<Longrightarrow> g_i_pcg_used c \<noteq> 0 \<Longrightarrow> input_hardware L INPUT_TYPE_AD (mute_pin 0 (AD_AES_Init_body L INPUT_TYPE_AD 0 (AD_Disable_Others_body c)))"
  by (simp add: ready_defs conv_ok_def generator_def AD_AES_Init_forms conv_eval c_consts)

lemma AD_ready: "conv_ok c \<Longrightarrow> input_hardware L INPUT_TYPE_AD (mute_pin 0 (AD_AES_Init_body L INPUT_TYPE_AD 0 (AD_Disable_Others_body c)))"
  using AD_ready_first [of c L] AD_ready_again [of c L] by blast

text \<open>The other two inputs of this converter differ in one pin.\<close>

lemma clock_of_control:
  assumes "\<And>g n. f g (PBEN n) = g (PBEN n)" "\<And>g p. f g (PCG_EXT p) = g (PCG_EXT p)"
  shows "clock_of (sru_update f c) s = clock_of c s"
proof -
  have p: "pin_clock (sru_update f c) = pin_clock c" by (rule ext) (simp add: pin_clock_def assms split: sig.split)
  have "divided (sru_update f c) g r = divided c g r" for g r by (simp add: divided_def p assms)
  then show ?thesis by (simp add: clock_of_def p split: sig.split)
qed

lemma MIC_pin_ready:
  assumes "input_hardware L INPUT_TYPE_AD (mute_pin 0 x)" "t = INPUT_TYPE_DVD \<or> t = INPUT_TYPE_MIC"
  shows "input_hardware L t (mute_pin 0 (AD_MIC_Select_body 1 x))"
proof -
  have "t \<notin> {INPUT_TYPE_AD, INPUT_TYPE_AES, INPUT_TYPE_SPDIF, INPUT_TYPE_COAX, INPUT_TEST}" "INPUT_TYPE_AD \<notin> {INPUT_TYPE_AES, INPUT_TYPE_SPDIF, INPUT_TYPE_COAX, INPUT_TEST}"
    using assms(2) by (auto simp: c_consts)
  with assms show ?thesis
    by (simp add: input_hardware_def output_ready_def analogue_ready_def port_clocked_def leaves_def enters_def control_pin_def clock_of_control
        mute_pin_def AD_MIC_Select_body_def select_pin_def SRU_update route_all_simps)
qed

lemma AD_AES_Init_type: "t \<noteq> INPUT_TYPE_AES \<Longrightarrow> AD_AES_Init_body L t 0 c = AD_AES_Init_body L INPUT_TYPE_AD 0 c"
  by (simp add: AD_AES_Init_forms reinit_da_body_def PCM4104_Init_def PCM4104_Pin_Init_def c_consts)

lemma RCA_ready: "conv_ok c \<Longrightarrow> input_hardware L INPUT_TYPE_DVD (mute_pin 0 (RCA_Init_body L INPUT_TYPE_DVD (AD_Disable_Others_body c)))"
  using MIC_pin_ready [OF AD_ready] AD_AES_Init_type [of INPUT_TYPE_DVD] by (simp add: RCA_Init_body_def c_consts)

lemma MIC_ready: "conv_ok c \<Longrightarrow> input_hardware L INPUT_TYPE_MIC (mute_pin 0 (MIC_Init_body L INPUT_TYPE_MIC (AD_Disable_Others_body c)))"
  using MIC_pin_ready [OF AD_ready] AD_AES_Init_type [of INPUT_TYPE_MIC] by (simp add: MIC_Init_body_def c_consts)

lemma AES_ready: "conv_ok c \<Longrightarrow> input_hardware L INPUT_TYPE_AES (mute_pin 0 (AD_AES_Init_body L INPUT_TYPE_AES 1 (AES_Disable_Others_body c)))"
  by (simp add: ready_defs conv_ok_def generator_def AD_AES_Init_forms conv_eval c_consts)

lemma SPDIF_ready: "conv_ok c \<Longrightarrow> input_hardware L INPUT_TYPE_SPDIF (mute_pin 0 (Init_SPDIF_COAX_body L INPUT_TYPE_SPDIF 0 c))"
  by (simp add: ready_defs conv_ok_def generator_def Init_SPDIF_COAX_forms conv_eval c_consts)

lemma COAX_ready: "conv_ok c \<Longrightarrow> input_hardware L INPUT_TYPE_COAX (mute_pin 0 (Init_SPDIF_COAX_body L INPUT_TYPE_COAX 1 c))"
  by (simp add: ready_defs conv_ok_def generator_def Init_SPDIF_COAX_forms conv_eval c_consts)

lemma TEST_ready: "conv_ok c \<Longrightarrow> input_hardware L INPUT_TEST (mute_pin 0 (AD_Disable_Others_body (SPDIF_Disable_Others_body
    (reinit_da_body L INPUT_TEST (AD_MIC_Select_body 0 (AD_AES_Select_body 1 c))))))"
  by (simp add: ready_defs conv_ok_def generator_def conv_eval c_consts)

section \<open>Runs of the selection\<close>

lemma conv_start_ok: "Init_PCG_FLAG c = 0 \<Longrightarrow> g_i_pcg_used c = 0 \<Longrightarrow> conv_ok (conv_start L c)"
  by (simp add: conv_ok_def generator_def conv_start_def clearDAIpins_def Init_PCG_def PCM4104_Init_def PCM4104_Pin_Init_def PCM4104_Reset_def
      mute_pin_def conv_updates route_all_simps route_all_append c_consts upt_rec)

lemma setup_ready:
  assumes "conv_ok c" "input_setup t ad = Some (ad', calls)"
  shows "input_hardware L t (fold (hw_exec L t) (calls @ [PCM4104_Mute 0]) c)"
  using assms(2) AD_ready [OF assms(1), of L] RCA_ready [OF assms(1), of L] MIC_ready [OF assms(1), of L] AES_ready [OF assms(1), of L]
    SPDIF_ready [OF assms(1), of L] COAX_ready [OF assms(1), of L] TEST_ready [OF assms(1), of L]
  by (auto simp: input_setup_def split: if_splits)

text \<open>Set up means: the hardware is the one of the input, and no fade is waiting.\<close>

definition conv_inv :: "links \<Rightarrow> 'f insel \<times> conv \<Rightarrow> bool" where
  "conv_inv L sc \<longleftrightarrow> conv_ok (snd sc) \<and> (g_Init_Input_Types (fst sc) = 1 \<longrightarrow>
     i_now_input (fst sc) = dsp_input_type (fst sc) \<and> g_i_change_down_flag (fst sc) \<noteq> 1 \<and> known_input (dsp_input_type (fst sc)) \<and>
     input_hardware L (dsp_input_type (fst sc)) (snd sc))"

lemma pass_set_up:
  assumes "g_Init_Input_Types (Init_all_input_types F sys w s) = 1"
    and "g_Init_Input_Types s = 1 \<Longrightarrow> i_now_input s = dsp_input_type s \<and> g_i_change_down_flag s \<noteq> 1 \<and> known_input (dsp_input_type s)"
  defines "s' \<equiv> Init_all_input_types F sys w s"
  shows "i_now_input s' = dsp_input_type s' \<and> g_i_change_down_flag s' \<noteq> 1 \<and> known_input (dsp_input_type s') \<and>
    (g_Init_Input_Types s = 1 \<and> dsp_input_type s' = dsp_input_type s \<and> hw s' = hw s \<or>
     (\<exists>ad ad' calls pre. input_setup (dsp_input_type s') ad = Some (ad', calls) \<and> hw s' = hw s @ pre @ calls @ [PCM4104_Mute 0]))"
proof -
  let ?a = "select_code sys w s"
  have a: "hw ?a = hw s" "g_Init_Input_Types ?a = g_Init_Input_Types s" "i_now_input ?a = i_now_input s" "dsp_input_type ?a = dsp_input_type s"
    "g_i_change_down_flag ?a = g_i_change_down_flag s"
    by (simp_all add: select_code_def Let_def)
  let ?b = "start_fade F ?a"
  have b: "hw ?b = hw s" "dsp_input_type ?b = dsp_input_type s"
    "g_Init_Input_Types ?b = 1 \<Longrightarrow> g_Init_Input_Types s = 1 \<and> ?b = ?a"
    by (simp_all add: start_fade_def a split: if_splits)
  let ?c = "end_fade F ?b"
  have c: "\<exists>pre. hw ?c = hw s @ pre" "dsp_input_type ?c = dsp_input_type s" "g_Init_Input_Types ?c = g_Init_Input_Types ?b" "i_now_input ?c = i_now_input ?b"
    "g_i_change_down_flag ?b \<noteq> 1 \<Longrightarrow> ?c = ?b"
    by (simp_all add: end_fade_def b)
  show ?thesis
  proof (cases "g_Init_Input_Types ?b = 1")
    case True
    with b(3) a assms(2) have e: "g_Init_Input_Types s = 1" "?b = ?a" "?c = ?a" "i_now_input ?a = dsp_input_type s" "g_i_change_down_flag ?a \<noteq> 1"
      "known_input (dsp_input_type s)" using c(5) by auto
    obtain ad calls where "input_setup (dsp_input_type s) (g_i_ad_in ?a) = Some (ad, calls)" using known_setup [OF e(6)] by fastforce
    then have "s' = ?a\<lparr>dsp_input_type := dsp_input_type s\<rparr>"
      using e a by (simp add: s'_def Init_all_input_types_def switch_input_def Let_def)
    with e a show ?thesis by simp
  next
    case False
    with assms(1) c(3) have d: "g_i_change_down_flag ?c \<noteq> 1" "s' = switch_input ?c"
      by (auto simp: s'_def Init_all_input_types_def Let_def split: if_splits)
    obtain ad calls where i: "input_setup (i_now_input ?c) (g_i_ad_in ?c) = Some (ad, calls)"
      using assms(1) False c(3) d(2) unfolding s'_def [symmetric] by (auto simp: switch_input_def Let_def split: option.splits)
    then have "s' = ?c\<lparr>dsp_input_type := i_now_input ?c, g_Init_Input_Types := 1, g_i_ad_in := ad, hw := hw ?c @ calls @ [PCM4104_Mute 0]\<rparr>"
      using False c(3) d(2) by (simp add: switch_input_def Let_def)
    moreover have "known_input (i_now_input ?c)" using i by (auto simp: input_setup_def known_input_def split: if_splits)
    ultimately show ?thesis using i c(1) d(1) by fastforce
  qed
qed

lemma conv_run_fst: "fst (conv_run F L es sc) = insel_run F es (fst sc)"
  by (induction F L es sc rule: conv_run.induct) (simp_all add: conv_pass_def Let_def)

lemma conv_pass_inv:
  assumes "conv_inv L sc"
  shows "conv_inv L (conv_pass F L sys w sc)"
proof -
  let ?s = "fst sc" and ?s' = "Init_all_input_types F sys w (fst sc)"
  let ?c' = "fold (hw_exec L (dsp_input_type ?s')) (drop (length (hw ?s)) (hw ?s')) (snd sc)"
  have pass: "conv_pass F L sys w sc = (?s', ?c')" by (simp add: conv_pass_def Let_def)
  have ok: "conv_ok (snd sc)" "conv_ok ?c'" using assms by (simp_all add: conv_inv_def hw_execs_ok)
  show ?thesis
  proof (cases "g_Init_Input_Types ?s' = 1")
    case True
    from assms have "g_Init_Input_Types ?s = 1 \<Longrightarrow> i_now_input ?s = dsp_input_type ?s \<and> g_i_change_down_flag ?s \<noteq> 1 \<and> known_input (dsp_input_type ?s)"
      by (simp add: conv_inv_def)
    from pass_set_up [OF True this]
    consider "g_Init_Input_Types ?s = 1" "dsp_input_type ?s' = dsp_input_type ?s" "hw ?s' = hw ?s"
        "i_now_input ?s' = dsp_input_type ?s' \<and> g_i_change_down_flag ?s' \<noteq> 1 \<and> known_input (dsp_input_type ?s')"
      | ad ad' calls pre where "input_setup (dsp_input_type ?s') ad = Some (ad', calls)" "hw ?s' = hw ?s @ pre @ calls @ [PCM4104_Mute 0]"
        "i_now_input ?s' = dsp_input_type ?s' \<and> g_i_change_down_flag ?s' \<noteq> 1 \<and> known_input (dsp_input_type ?s')"
      by blast
    then show ?thesis
    proof cases
      case 1
      with assms ok show ?thesis unfolding pass by (simp add: conv_inv_def)
    next
      case 2
      have "input_hardware L (dsp_input_type ?s') ?c'"
        using setup_ready [OF hw_execs_ok [OF ok(1), of L "dsp_input_type ?s'" pre] 2(1)] 2(2) by simp
      with 2(3) ok(2) show ?thesis unfolding pass by (simp add: conv_inv_def)
    qed
  next
    case False
    with ok(2) show ?thesis unfolding pass by (simp add: conv_inv_def)
  qed
qed

lemma conv_run_inv: "conv_inv L sc \<Longrightarrow> conv_inv L (conv_run F L es sc)"
proof (induction F L es sc rule: conv_run.induct)
  case (2 F L es sc)
  then show ?case by (simp add: conv_inv_def set_interrupt_times_def)
qed (simp_all add: conv_pass_inv)

section \<open>Properties\<close>

text \<open>
  C23: the hardware follows the selected input. After the set-up of \<open>main\<close> and any sequence of converter interrupts and passes of the selection, whatever was
  requested, the hardware is the one of the input type as soon as the selection counts as done: the sending ports run, are routed to their pins, clocked like the
  receiver and not muted; the receiver of this input runs with its interrupt, its data come from the right pins, the switches in front of it select it,
  and the other receivers and chips are stopped.
\<close>

theorem hardware_follows_input:
  assumes "Init_PCG_FLAG c = 0" "g_i_pcg_used c = 0"
    and "g_Init_Input_Types (insel_run F es (insel_reset F)) = 1"
  shows "input_hardware L (dsp_input_type (insel_run F es (insel_reset F))) (snd (conv_run F L es (insel_reset F, conv_start L c)))"
proof -
  have "conv_inv L (insel_reset F, conv_start L c)"
    using conv_start_ok [OF assms(1,2)] by (simp add: conv_inv_def insel_reset_def)
  from conv_run_inv [OF this, of F es] show ?thesis using assms(3) by (simp add: conv_inv_def conv_run_fst)
qed

definition conv_reset :: conv where
  "conv_reset = \<lparr>sru = \<lambda>_. LOW, cpsp = \<lambda>_. 0, spctl = \<lambda>_. [], spdiv = \<lambda>_. 0, pcg_ctl1 = \<lambda>_. (0, []), pcg_ctl0 = \<lambda>_. (0, []), srcctl0 = [],
     dirctl = 0, irq = \<lambda>_. SIG_DFL, g_i_pcg_used = 0, Init_PCG_FLAG = 0, g_i_ad_current_index = 2, TCB_TxBlock_PCM4104 = [],
     TCB_RxBlock_I2S_CS5368 = [], TCB_RxBlock_SPDIF = [], tx_samples = [], RxBlock_I2S_CS5368 = [], RxBlock_SPDIF = []\<rparr>"

theorem hardware_follows_input_witness:
  "\<forall>L. analogue_ready L INPUT_TYPE_MIC (snd (conv_run real_flt L (Pass 1 INPUT_TYPE_MIC # replicate 100 Tick @ [Pass 1 INPUT_TYPE_MIC])
     (insel_reset real_flt, conv_start L conv_reset)))"
proof
  fix L :: links
  let ?es = "Pass 1 INPUT_TYPE_MIC # replicate 100 Tick @ [Pass 1 INPUT_TYPE_MIC]" and ?t = INPUT_TYPE_MIC
  have t: "ticks (replicate n Tick) = n" for n by (induction n) simp_all
  have "list_all (keeps ?t) (replicate 100 Tick)" by (simp add: list_all_iff keeps_def)
  then have "settled ?t (insel_run real_flt ?es (insel_reset real_flt))"
    using switch_complete [of SYSTEMSTATE_NORMAL ?t "insel_reset real_flt" ?t "replicate 100 Tick" SYSTEMSTATE_NORMAL ?t real_flt] t [of 100]
    by (simp add: switched_def known_input_def insel_reset_def select_code_def input_word_def keeps_def Let_def c_consts)
  then have "g_Init_Input_Types (insel_run real_flt ?es (insel_reset real_flt)) = 1" "dsp_input_type (insel_run real_flt ?es (insel_reset real_flt)) = ?t"
    by (simp_all add: settled_def)
  from hardware_follows_input [OF _ _ this(1), of conv_reset L] this(2)
  show "analogue_ready L ?t (snd (conv_run real_flt L ?es (insel_reset real_flt, conv_start L conv_reset)))"
    by (simp add: conv_reset_def input_hardware_def c_consts)
qed

end
