(* ===== verification/Dma_Chain.thy ===== *)
theory Dma_Chain
  imports Converters
begin

text \<open>
  The chains that the set-up functions of \<open>Converters\<close> give to the DMA controller, what the controller does with them, and which blocks
  the main loop reads and writes meanwhile.
\<close>

section \<open>The DMA controller\<close>

text \<open>
  What the controller does with a chain (hardware reference of the processor): a chain pointer is an offset of 19 bits into the internal memory at
  0x80000, below the bit that asks for an interrupt. At this address and below it are the address of the samples, the step, the length and the
  next chain pointer. \<open>dma_block n\<close> is the controller during block \<open>n\<close>, counted from the start of the chain.
\<close>

record dma =
  dma_index :: u32
  dma_modify :: u32
  dma_count :: u32
  dma_cp :: u32

definition dma_load :: "u32 \<Rightarrow> u32 list list \<Rightarrow> u32 \<Rightarrow> dma" where
  "dma_load base tcb cp =
     (let e = 0x80000 + take_bit 19 cp; w = (\<lambda>a. concat tcb ! unat (a - base))
      in \<lparr>dma_index = w e, dma_modify = w (e - 1), dma_count = w (e - 2), dma_cp = w (e - 3)\<rparr>)"

fun dma_block :: "nat \<Rightarrow> u32 \<Rightarrow> u32 list list \<Rightarrow> u32 \<Rightarrow> dma" where
  "dma_block 0 base tcb cp = dma_load base tcb cp"
| "dma_block (Suc n) base tcb cp = dma_load base tcb (dma_cp (dma_block n base tcb cp))"

text \<open>A chain that lies in the internal memory.\<close>

definition internal :: "u32 \<Rightarrow> bool" where
  "internal a \<longleftrightarrow> 0x80000 \<le> a \<and> a \<le> 0x100000 - 16"

lemma chain_pointer_plain: "chain_pointer a j = a + of_nat (4 * j) + 3"
  by (simp add: chain_pointer_def c_consts)

lemma chain_address:
  assumes "internal a" "j < 4"
  shows "0x80000 + take_bit 19 (chain_pointer a j) = a + of_nat (4 * j + 3)"
proof -
  have a: "0x80000 \<le> unat a" "unat a \<le> 0xFFFF0" using assms(1) by (auto simp: internal_def word_le_nat_alt)
  have o: "unat (word_of_nat (4 * j + 3) :: u32) = 4 * j + 3" using assms(2) by (subst unat_of_nat) simp
  have u: "unat (a + of_nat (4 * j + 3)) = unat a + 4 * j + 3" using a assms(2) by (subst unat_word_ariths(1)) (simp add: o del: of_nat_add of_nat_mult)
  have t: "unat (take_bit 19 (a + word_of_nat (4 * j + 3))) = unat a + 4 * j + 3 - 0x80000"
    using a assms(2) by (subst unsigned_take_bit_eq, subst u) (simp add: take_bit_eq_mod mod_if)
  have "unat (0x80000 + take_bit 19 (a + of_nat (4 * j + 3))) = unat a + 4 * j + 3"
    using a assms(2) by (subst unat_word_ariths(1)) (simp add: t del: of_nat_add of_nat_mult)
  then have "0x80000 + take_bit 19 (a + of_nat (4 * j + 3)) = a + of_nat (4 * j + 3)" unfolding word_unat_eq_iff u .
  then show ?thesis by (simp add: chain_pointer_plain add.assoc)
qed


lemma chain_word:
  assumes "j < 4" "i < 4"
  shows "concat (dma_chain a buf) ! (4 * j + i) =
    [chain_pointer a ((j + 1) mod 4), 256, 1, buf + of_nat (j * 256)] ! i"
proof -
  have "j = 0 \<or> j = 1 \<or> j = 2 \<or> j = 3" "i = 0 \<or> i = 1 \<or> i = 2 \<or> i = 3" using assms by auto
  then show ?thesis by (auto simp: dma_chain_def c_consts upt_rec)
qed

lemma dma_load_chain:
  assumes "internal a" "j < 4"
  shows "dma_load a (dma_chain a buf) (chain_pointer a j) =
    \<lparr>dma_index = buf + of_nat (j * 256), dma_modify = 1, dma_count = 256, dma_cp = chain_pointer a ((j + 1) mod 4)\<rparr>"
proof -
  have w: "concat (dma_chain a buf) ! unat (a + of_nat (4 * j + 3) - of_nat k - a) =
      [chain_pointer a ((j + 1) mod 4), 256, 1, buf + of_nat (j * 256)] ! (3 - k)" if "k < 4" for k
  proof -
    have "a + of_nat (4 * j + 3) - of_nat k - a = (of_nat (4 * j + (3 - k)) :: u32)" using that by (simp add: of_nat_diff)
    moreover have "unat (of_nat (4 * j + (3 - k)) :: u32) = 4 * j + (3 - k)" using assms(2) by (subst unat_of_nat) simp
    ultimately show ?thesis using chain_word [OF assms(2), of "3 - k" a buf] by simp
  qed
  from w [of 0] w [of 1] w [of 2] w [of 3] show ?thesis
    by (simp add: dma_load_def Let_def chain_address [OF assms] del: of_nat_add of_nat_mult)
qed

text \<open>Block \<open>n\<close> of a chain is the quarter \<open>n mod 4\<close> of its samples, and the pointer is at the next.\<close>

lemma dma_block_chain:
  assumes "internal a"
  shows "dma_block n a (dma_chain a buf) (chain_pointer a 0) =
    \<lparr>dma_index = buf + of_nat (n mod 4 * 256), dma_modify = 1, dma_count = 256, dma_cp = chain_pointer a (Suc n mod 4)\<rparr>"
proof (induction n)
  case 0
  then show ?case using dma_load_chain [OF assms, of 0 buf] by simp
next
  case (Suc n)
  then show ?case using dma_load_chain [OF assms, of "Suc n mod 4" buf] by (simp add: mod_Suc_eq)
qed

lemma chain_pointer_inj: "i < 4 \<Longrightarrow> j < 4 \<Longrightarrow> chain_pointer a i = chain_pointer a j \<longleftrightarrow> i = j"
proof -
  assume "i < 4" "j < 4"
  then have "unat (of_nat (4 * i) :: u32) = 4 * i" "unat (of_nat (4 * j) :: u32) = 4 * j" by (subst unat_of_nat, simp)+
  then have "(of_nat (4 * i) :: u32) = of_nat (4 * j) \<longleftrightarrow> i = j" by (metis mult_cancel1 zero_neq_numeral)
  then show ?thesis by (simp add: chain_pointer_plain)
qed

lemma search_block:
  assumes "j < 4"
  shows "length (takeWhile (\<lambda>p. p \<noteq> chain_pointer a j) (map (chain_pointer a) [0..<4])) = j"
proof -
  have "takeWhile (\<lambda>p. p \<noteq> chain_pointer a j) (map (chain_pointer a) [0..<4]) = take j (map (chain_pointer a) [0..<4])"
    using assms by (intro takeWhile_eq_take_P_nth) (auto simp: chain_pointer_inj)
  then show ?thesis using assms by simp
qed

lemma search_tx_block:
  assumes "j < 4"
  shows "get_current_dma_tx_block (map (\<lambda>i. unat (chain_pointer a i)) [0..<4]) (unat (chain_pointer a j)) = j"
proof -
  have "takeWhile (\<lambda>p. p \<noteq> unat (chain_pointer a j)) (map (\<lambda>i. unat (chain_pointer a i)) [0..<4]) = take j (map (\<lambda>i. unat (chain_pointer a i)) [0..<4])"
    using assms by (intro takeWhile_eq_take_P_nth) (auto simp: chain_pointer_inj word_unat_eq_iff [symmetric])
  then show ?thesis using assms by (simp add: get_current_dma_tx_block_def)
qed

text \<open>The choice of the blocks by the main loop, for the sender at block \<open>n\<close> and a receiver at block \<open>m\<close>.\<close>

lemma input_index_free: "input_index (int (Suc n mod 4)) (int (Suc m mod 4)) \<in> {0..3} - {int (m mod 4)}"
proof -
  have "n mod 4 < 4" "m mod 4 < 4" by simp_all
  then have "n mod 4 \<in> {0, 1, 2, 3}" "m mod 4 \<in> {0, 1, 2, 3}" by auto
  then show ?thesis by (auto simp: input_index_def NUMDMAUSED_def smod_pos mod_Suc)
qed

lemma output_block_free: "(int (Suc n mod 4) - 2 + NUMDMAUSED) smod NUMDMAUSED \<in> {0..3} - {int (n mod 4)}"
  "int (Suc n mod 4) \<in> {0..3} - {int (n mod 4)}"
proof -
  have "n mod 4 \<in> {0, 1, 2, 3}" by auto
  then show "(int (Suc n mod 4) - 2 + NUMDMAUSED) smod NUMDMAUSED \<in> {0..3} - {int (n mod 4)}" "int (Suc n mod 4) \<in> {0..3} - {int (n mod 4)}"
    by (auto simp: NUMDMAUSED_def smod_pos mod_Suc)
qed

section \<open>Properties\<close>

text \<open>
  C24: the blocks of the samples. With its tables in internal memory the sender works, on each of its eight lines, through the four quarters of that
  line in turn, and so do the receivers. While the sender is at block \<open>n\<close> and the receiver at block \<open>m\<close>, the main loop writes a quarter that is not being
  sent (in normal operation and with the test signal) and reads one that is not being received.
\<close>

theorem dma_blocks_apart:
  fixes b :: "'f board" and c :: conv and L :: links and n m i j :: nat
  assumes "i < 8" "j < 4" "\<forall>k < 8. internal (tx_tcb_at L + of_nat (16 * k))" "\<forall>k < 4. internal (rx_tcb_at L + of_nat (16 * k))" "internal (spdif_tcb_at L)"
  defines "tx \<equiv> PCM4104_InitData L c" and "rx \<equiv> CS5368_InitData L c" and "sp \<equiv> SPDIF_InitData L c"
  defines "T \<equiv> \<lambda>k. dma_block n (tx_tcb_at L + of_nat (16 * k)) (TCB_TxBlock_PCM4104 tx ! k) (cpsp tx (k div 2, if even k then HA else HB))"
    and "R \<equiv> \<lambda>k. dma_block m (rx_tcb_at L + of_nat (16 * k)) (TCB_RxBlock_I2S_CS5368 rx ! k) (cpsp rx (5 + k div 2, if even k then HA else HB))"
    and "S \<equiv> dma_block m (spdif_tcb_at L) (TCB_RxBlock_SPDIF sp) (cpsp sp (4, HA))"
  defines "wa \<equiv> g_i_da_write_addr (SP0ADCSend_ISR (map (\<lambda>k. unat (chain_pointer (tx_tcb_at L) k)) [0..<4]) (unat (dma_cp (T 0))) b)"
  shows "dma_index (T i) = tx_block_at L + of_nat (1024 * i) + of_nat (n mod 4 * 256) \<and> dma_count (T i) = 256 \<and> dma_modify (T i) = 1 \<and>
    dma_index (R j) = rx_block_at L + of_nat (1024 * j) + of_nat (m mod 4 * 256) \<and> dma_count (R j) = 256 \<and>
    dma_index S = spdif_block_at L + of_nat (m mod 4 * 256) \<and> dma_count S = 256 \<and>
    (wa - 2 + NUMDMAUSED) smod NUMDMAUSED \<in> {0..3} - {int (n mod 4)} \<and> wa \<in> {0..3} - {int (n mod 4)} \<and>
    input_index wa (int (Get_Current_Dma_CS5368_Rxblock L (dma_cp (R 2)))) \<in> {0..3} - {int (m mod 4)} \<and>
    input_index wa (int (Get_Current_Dma_Rxblock_SPDIF L (dma_cp S))) \<in> {0..3} - {int (m mod 4)}"
proof -
  have txc: "cpsp tx (k div 2, if even k then HA else HB) = chain_pointer (tx_tcb_at L + of_nat (16 * k)) 0" if "k < 8" for k
  proof -
    have "k = 0 \<or> k = 1 \<or> k = 2 \<or> k = 3 \<or> k = 4 \<or> k = 5 \<or> k = 6 \<or> k = 7" using that by auto
    then show ?thesis by (auto simp: tx_def PCM4104_InitData_update)
  qed
  have rxc: "cpsp rx (5 + k div 2, if even k then HA else HB) = chain_pointer (rx_tcb_at L + of_nat (16 * k)) 0" if "k < 4" for k
  proof -
    have "k = 0 \<or> k = 1 \<or> k = 2 \<or> k = 3" using that by auto
    then show ?thesis by (auto simp: rx_def CS5368_InitData_update)
  qed
  have T: "T k = \<lparr>dma_index = tx_block_at L + of_nat (1024 * k) + of_nat (n mod 4 * 256), dma_modify = 1, dma_count = 256,
      dma_cp = chain_pointer (tx_tcb_at L + of_nat (16 * k)) (Suc n mod 4)\<rparr>" if "k < 8" for k
    unfolding T_def txc [OF that] using that assms(3) dma_block_chain by (simp add: tx_def PCM4104_InitData_update del: of_nat_mult)
  have R: "R k = \<lparr>dma_index = rx_block_at L + of_nat (1024 * k) + of_nat (m mod 4 * 256), dma_modify = 1, dma_count = 256,
      dma_cp = chain_pointer (rx_tcb_at L + of_nat (16 * k)) (Suc m mod 4)\<rparr>" if "k < 4" for k
    unfolding R_def rxc [OF that] using that assms(4) dma_block_chain by (simp add: rx_def CS5368_InitData_update del: of_nat_mult)
  have S: "S = \<lparr>dma_index = spdif_block_at L + of_nat (m mod 4 * 256), dma_modify = 1, dma_count = 256, dma_cp = chain_pointer (spdif_tcb_at L) (Suc m mod 4)\<rparr>"
    unfolding S_def using assms(5) dma_block_chain by (simp add: sp_def SPDIF_InitData_update)
  have l: "Suc n mod 4 < 4" "Suc m mod 4 < 4" by simp_all
  have wa: "wa = int (Suc n mod 4)"
    unfolding wa_def T [of 0, simplified] SP0ADCSend_ISR_def using search_tx_block [OF l(1)] by simp
  have "Get_Current_Dma_CS5368_Rxblock L (dma_cp (R 2)) = Suc m mod 4" "Get_Current_Dma_Rxblock_SPDIF L (dma_cp S) = Suc m mod 4"
    using search_block [OF l(2)] l(2) by (simp_all add: Get_Current_Dma_CS5368_Rxblock_def Get_Current_Dma_Rxblock_SPDIF_def R [of 2] S)
  with T [OF assms(1)] R [OF assms(2)] S output_block_free [of n] input_index_free [of n m] show ?thesis unfolding wa by simp
qed

definition some_links :: links where
  "some_links = \<lparr>tx_tcb_at = 0xB8000, tx_block_at = 0x200000, rx_tcb_at = 0xB8080, rx_block_at = 0xB0000, spdif_tcb_at = 0xB80C0, spdif_block_at = 0x204000\<rparr>"

theorem dma_blocks_apart_witness:
  "\<forall>c. dma_index (dma_block 5 0xB8080 (TCB_RxBlock_I2S_CS5368 (CS5368_InitData some_links c) ! 0) (cpsp (CS5368_InitData some_links c) (5, HA))) = 0xB0100"
proof
  fix c :: conv
  have "internal (tx_tcb_at some_links + of_nat (16 * k))" "internal (rx_tcb_at some_links + of_nat (16 * k))" if "k < 8" for k
  proof -
    have "k = 0 \<or> k = 1 \<or> k = 2 \<or> k = 3 \<or> k = 4 \<or> k = 5 \<or> k = 6 \<or> k = 7" using that by auto
    then show "internal (tx_tcb_at some_links + of_nat (16 * k))" "internal (rx_tcb_at some_links + of_nat (16 * k))"
      by (auto simp: some_links_def internal_def)
  qed
  then have "\<forall>k < 8. internal (tx_tcb_at some_links + of_nat (16 * k))" "\<forall>k < 4. internal (rx_tcb_at some_links + of_nat (16 * k))"
    "internal (spdif_tcb_at some_links)"
    by (auto simp: some_links_def internal_def)
  from dma_blocks_apart [where i = 0 and j = 0 and n = 0 and m = 5 and c = c and b = "board_reset real_dspflt real_flt", OF _ _ this]
  show "dma_index (dma_block 5 0xB8080 (TCB_RxBlock_I2S_CS5368 (CS5368_InitData some_links c) ! 0) (cpsp (CS5368_InitData some_links c) (5, HA))) = 0xB0100"
    by (simp add: some_links_def)
qed

end
