(* ===== verification/Spec2Isabelle.thy ===== *)
theory Spec2Isabelle
  imports Protocol Command_Db Flash_Store Net_Link Dsp_Loader Dsp_Main Sha204_Auth Tcp_Server Tftp_Put Console Lcd1602 Dma_Chain
begin

text \<open>
  \<^bold>\<open>Verification of the firmware of the DSP950 surround processor.\<close>

  The machine has two processors. An STM32 (sources under \<open>src/DS950_APP_2017-03-08\<close>) talks to a PC
  over TCP, keeps all parameters in tables, stores them in a serial flash, runs the front panel
  and is the master of an SPI link to a SHARC DSP (\<open>src/DSP950_Code\<close>). The DSP executes the four byte
  parameter commands it receives, processes the audio, and reports turns of the volume knob over
  the same link.

  \<^bold>\<open>Theories and sources.\<close>

  \<^item> \<open>Prelude950\<close>: words and bytes, bit fields, results that may fail, search loops; the collections
    \<open>c_consts\<close> and \<open>layout\<close> hold the numeric macros.
  \<^item> \<open>Protocol\<close>: the command codec, \<open>drivers/protocol.c\<close> on the STM32 and the field getters and the encoder
    of \<open>Spi_Code.c\<close> on the DSP. Both are instances of the locale \<open>frame_codec\<close>; they read the same
    fields from every command.
  \<^item> \<open>Spi_Port\<close>: the block transfers of \<open>drivers/spi_instruction.c\<close> over a record of what a chip on the bus
    does, and a port that records the bus.
  \<^item> \<open>Command_Db\<close>: the parameter tables of \<open>drivers/do_data.c\<close> and \<open>drivers/inc.c\<close> (\<open>do_add_cmd\<close>,
    \<open>do_get_data\<close>, \<open>send_data_to_pc\<close>, \<open>send_data_to_dsp\<close>). One table is an instance of the locale
    \<open>id_store\<close>; the database refines a finite map from parameters to commands.
  \<^item> \<open>Spi_Flash\<close>: the driver \<open>drivers/spi_flash.c\<close>. The locale \<open>w25q_chip\<close> states what the driver relies on (the
    data sheet of the W25Q16: erase, page program with wrap-around, busy flag) and is interpreted by
    an executable chip with a busy counter. The polling loop is a partial function; it is proved
    when it returns.
  \<^item> \<open>Flash_Store\<close>: persistence, \<open>store_w25q16\<close>, \<open>read_w25q16\<close>, \<open>read_reboot_times\<close> of \<open>drivers/inc.c\<close>, over the
    locale \<open>nor_flash\<close> that the driver provides (a sublocale of \<open>w25q_chip\<close>).
  \<^item> \<open>Front_Panel\<close>: keys, lamps, display text, input selection, idle timer (\<open>drivers/key_input.c\<close>,
    \<open>drivers/led.c\<close>, \<open>USER/application.c\<close>).
  \<^item> \<open>Lcd1602\<close>: the character display, \<open>USER/lcd1602.c\<close>, as operations on its pins, and the display thread, against a display that is busy after
    every write and loses what it is sent meanwhile.
  \<^item> \<open>Net_Link\<close>: the TCP server of \<open>USER/tcpserver.c\<close> and the SPI thread of \<open>USER/application.c\<close>, with the
    record \<open>stm\<close> of all state the threads share. The passes of the threads are events, taken as atomic
    and in any order (\<open>stm_run\<close>).
  \<^item> \<open>Tcp_Server\<close>: the \<open>select\<close> loop of \<open>USER/tcpserver.c\<close> with its array of client sockets around the handlers of \<open>Net_Link\<close>, and the
    program of the STM32, passes of the server and of the other threads in any order.
  \<^item> \<open>Dsp_Loader\<close>: \<open>USER/tftp.c\<close> (fetching the program of the DSP, loading it) and the erase commands of
    \<open>USER/app_cmd.c\<close>; \<open>Tftp_Put\<close> has the command that sends a file, \<open>Console\<close> the other commands of \<open>app_cmd.c\<close>.
  \<^item> \<open>Dsp_State\<close>, \<open>Dsp_Params\<close>: the parameter records of the DSP and every handler of \<open>Spi_Code.c\<close> with the
    dispatch table, the SPI interrupt of \<open>SPI.c\<close>, the knob interrupt of \<open>Volume.c\<close>. Array accesses out
    of bounds are faults. Floating point is the record \<open>flt\<close> of the operations the code uses, a
    parameter of the handlers.
  \<^item> \<open>Dsp_Safety\<close>, \<open>Dsp_Behaviour\<close>: the invariant \<open>dsp_ok\<close>, proved handler by handler with a weakest
    precondition calculus for the fault monad, the reachable states, and the behaviour of the handlers.
  \<^item> \<open>Input_Select\<close>: \<open>Init_all_input_types\<close> of \<open>Input_Types.c\<close>, the switch between audio inputs with its fade,
    and runs of main loop passes and converter interrupts.
  \<^item> \<open>Equalizer\<close>: the design of the filter sections in \<open>EQ.c\<close> (\<open>set_EQ_Peak\<close>, \<open>set_EQ_Low_Shelf\<close>, \<open>set_EQ_High_Shelf\<close>, \<open>set_EQ_HPF\<close>,
    \<open>set_EQ_LPF\<close>) over the record \<open>dspflt\<close>, which adds roots and trigonometric functions to \<open>flt\<close>; the frequency response over
    the reals.
  \<^item> \<open>Filter_Bank\<close>, \<open>Filter_Stream\<close>: the coefficient memory with the functions of \<open>EQ.c\<close> that fill it, and the block filters. The
    \<open>biquad\<close> of the DSP library is a parameter.
  \<^item> \<open>Audio_Path\<close>: \<open>handle_audio_data\<close> of \<open>Input_Types.c\<close> with \<open>Channel_To_DA_Port.c\<close>, from the input buffers to the converter: matrix,
    fade, equalizer, crossover, delay, limiter, mute. The record \<open>board\<close> holds the buffers. \<open>Audio_Safety\<close> has its
    invariant, \<open>Delay_Line\<close> the delay ring against a pure delay, \<open>Audio_Output\<close> and \<open>Audio_Effects\<close> what leaves the outputs.
  \<^item> \<open>Test_Signal\<close>: the generator of \<open>Dsp_Signal.c\<close>, the alignment mode \<open>test_audio_mode\<close>, and the dispatch over the inputs. \<open>rand\<close> of the C
    library is a parameter.
  \<^item> \<open>Command_Path\<close>, \<open>Dsp_Main\<close>: what commands change of the audio path, and the program of the DSP: set-up and loop of \<open>main.c\<close>, the
    crossover set-up of \<open>EQ.c\<close> and the interrupts, interleaved in any order with whole passes of the loop.
  \<^item> \<open>Converters\<close>: the set-up calls that \<open>Input_Select\<close> records (\<open>PCM4104.c\<close>, \<open>CS5368.c\<close>, \<open>Spdif_Coax.c\<close>, \<open>MIC.c\<close>, \<open>RCA.c\<close>, \<open>initSRU.c\<close>), on routing, clocks,
    registers and DMA chains; \<open>Dma_Chain\<close> runs the chains on the DMA controller.
  \<^item> \<open>Sha256\<close>: \<open>create_sha256\<close> of \<open>SHA204A/Sha256_atmel.c\<close> against the Secure Hash Standard as a reference.
  \<^item> \<open>I2c_Bus\<close>: the bus driver \<open>SHA204A/hal_i2c_sha204a.c\<close> as operations on two pins. The chip is a function from the history of the
    pins to the level of the data line; a monitor reads the frames off the history.
  \<^item> \<open>Sha204_Comm\<close>: packets, checksum and commands (\<open>sha204a_comm.c\<close>, \<open>sha204a_comm_marshaling.c\<close>) over a record of the functions of the driver;
    the locale \<open>sha_link\<close> is what they rely on, interpreted on the driver.
  \<^item> \<open>Sha204_Auth\<close>: the keys, the message authentication code and the check at start-up (\<open>sha204_data.c\<close>, \<open>sha204_authentication.c\<close>, \<open>sha204a.c\<close>),
    from the levels on the bus to the decision.
  \<^item> This theory: the properties that join the two processors.

  \<^bold>\<open>What is shown.\<close> Codecs and storage are round trips; the database refines a map and refuses commands
  exactly when it should; the driver turns page writes into contiguous writes and every call
  returns on a chip that gets ready; the STM32 survives every sequence of events with packets
  below 1024 bytes, serves one client at a time and loses no socket; the DSP stays inside its arrays for commands that name channels in range; at
  start-up the DSP executes the stored commands, and after a power cycle and after a knob turn the two sides hold the same parameters. The filter
  sections have the gains that were set, and are stable, up to 23999 Hz; a block of samples stays inside all buffers for any input (the test signal needs a
  channel to be chosen); the delay ring is a delay; the character display shows the selected input; the hardware is the one of the selected input, and the DMA and the main loop never meet in a block; an output carries its band behind delay, limiter and mute, within 24 bits; the whole program of the DSP
  keeps its invariant over every sequence of interrupts, commands and blocks, but for one set-up loop that reads behind its table. The hash is the standard one, the bus carries the
  frames of the data sheet, the checksum finds every burst of sixteen bits, and the check at start-up accepts exactly the right code,
  inside its arrays for every chip.
  Several theorems state defects precisely: an interrupted store restores one command, several
  commands in one packet reach the DSP as copies of the last, channel number 0 indexes before the
  array, a port above 16 behind it, a crossover frequency above 24 kHz is accepted and makes the filters unstable, two loops of the set-up run over 24 channels of tables with 16, the volume sent at start is misread because its bytes are not swapped, a failed program
  update mixes two programs, the check of the authentication chip accepts a recording.

  \<^bold>\<open>Bounds.\<close> Loops with a fixed bound recurse on it. \<open>wait_poll\<close> of the flash driver and \<open>wait_forever\<close> after a failed
  authentication, the loops without one, are partial functions with value \<open>None\<close> when they never end. The TFTP loop recurses on the datagrams that arrive. The display is taken to be busy for at
  most ten looks at its flag after a write (3000 at power-up), the shortest of the limits at which the driver gives up. Integers
  are words of their width; counters that the code never lets grow are \<open>nat\<close> or \<open>int\<close>. Floating point is a record of operations;
  safety holds for every such record, numeric properties for the reals.

  \<^bold>\<open>Not modelled.\<close> RT-Thread, lwIP, the shell, the file systems and the vendor libraries are third-party code: their
  calls are events, outputs or parameters. The register set-up of the clocks, the memory
  controller and the pins of the STM32 has no logic to state. The Dolby decoder calls a library without sources.
\<close>

section \<open>Start of the DSP\<close>

text \<open>
  C1: start-up. The STM32 replays its tables, whatever they hold, to a DSP that has just been reset, and after each received word the main loop of the DSP runs
  once. The run is then the execution, by the command handlers and from the reset state, of the stored commands in table order followed by the end mark, where only
  the words 0 and 0xffffffff are passed over; it stops with a fault exactly if one of the handlers does. A run that does not is over with the DSP
  initialised. No handler faults, and the state of the DSP is well formed, when each stored command names channels that exist (\<open>safe_word\<close>), or is one of
  the two words that are passed over.
\<close>

theorem replay_initialises_dsp:
  fixes F :: "'f flt" and tabs :: cmd_db and r
  defines "ws \<equiv> map (\<lambda>e. be_word (le_bytes (cd_data e))) (all_used tabs)"
  defines "run \<equiv> dsp_run F (concat (map (\<lambda>w. [RxWord w, MainLoop w]) (received_words (send_data_to_dsp (trace_port r) tabs [])))) (rx_reset, dsp_reset F)"
  shows "map_sum id snd run = handle_words F (filter (\<lambda>w. w \<noteq> 0 \<and> w \<noteq> 0xffffffff) ws @ [0x34000000]) (dsp_reset F) \<and>
    (\<forall>r' s'. run = Inr (r', s') \<longrightarrow> g_init_done s' = 1) \<and>
    (list_all (\<lambda>w. w \<in> {0, 0xffffffff} \<or> safe_word w) ws \<longrightarrow> (\<exists>r' s'. run = Inr (r', s') \<and> dsp_ok s'))"
proof -
  let ?ws = "filter (\<lambda>w. w \<noteq> 0 \<and> w \<noteq> 0xffffffff) ws @ [0x34000000]"
  have run: "map_sum id snd run = handle_words F ?ws (dsp_reset F)"
    unfolding run_def ws_def received_words_dsp run_delivers by simp
  have "g_init_done s' = 1" if "run = Inr (r', s')" for r' s'
    using run handle_words_init [of F ?ws "dsp_reset F" s'] that by simp
  moreover have "\<exists>r' s'. run = Inr (r', s') \<and> dsp_ok s'" if "list_all (\<lambda>w. w \<in> {0, 0xffffffff} \<or> safe_word w) ws"
  proof -
    have "safe_word 0x34000000" by code_simp
    with that have "list_all safe_word ?ws" by (auto simp: list_all_iff)
    then obtain s' where "handle_words F ?ws (dsp_reset F) = Inr s'" "dsp_ok s'"
      using handle_words_safe [OF dsp_reset_ok, of ?ws F F] by (auto simp: sumP_ex)
    with run show ?thesis by (cases run) auto
  qed
  ultimately show ?thesis using run by blast
qed

definition one_command_db :: cmd_db where
  "one_command_db = [\<lparr>gt_key = 1, gt_table =
     [\<lparr>cd_id = get_cmd_id (knob_msg 48), cd_data = le_word (0x05, 0x00, 0x30, 0x00)\<rparr>, zero_entry]\<rparr>]"

theorem replay_initialises_dsp_witness:
  "\<exists>r' s'. dsp_run real_flt (concat (map (\<lambda>w. [RxWord w, MainLoop w])
        (received_words (send_data_to_dsp (trace_port (\<lambda>_. 0)) one_command_db [])))) (rx_reset, dsp_reset real_flt)
      = Inr (r', s') \<and> handle_words real_flt [0x05003000, 0x34000000] (dsp_reset real_flt) = Inr s' \<and> dsp_ok s' \<and> g_init_done s' = 1"
proof -
  have w: "be_word (0x05, 0x00, 0x30, 0x00) = 0x05003000" "safe_word 0x05003000" "get_cmd_id (knob_msg 48) \<noteq> 0" by code_simp+
  have "map (\<lambda>e. be_word (le_bytes (cd_data e))) (all_used one_command_db) = [0x05003000]"
    by (simp add: one_command_db_def all_used_def used_def zero_entry_def w(1,3))
  with replay_initialises_dsp [where F = real_flt and tabs = one_command_db and r = "\<lambda>_. 0"] w(2) show ?thesis by fastforce
qed

section \<open>The knob\<close>

text \<open>\<open>r\<close> answers the next four bytes with the word \<open>w\<close>, low byte first, as the port of the DSP is set up.\<close>

definition answers :: "(spi_event list \<Rightarrow> u8) \<Rightarrow> spi_event list \<Rightarrow> u32 \<Rightarrow> bool" where
  "answers r t w \<longleftrightarrow>
     (r (t @ [CsLow]), r (t @ [CsLow, Tx 0xff]), r (t @ [CsLow, Tx 0xff, Tx 0xff]),
      r (t @ [CsLow, Tx 0xff, Tx 0xff, Tx 0xff])) = le_bytes w"

lemma read_answer: "answers r t w \<Longrightarrow> SPI_DSP_ReadByte (trace_port r) t = (be_word (le_bytes w), t @ poll_frame)"
  by (simp add: ReadByte_trace answers_def poll_frame_def)

lemma swap_bytes: "le_bytes (be_word (le_bytes w)) = (case le_bytes w of (b0, b1, b2, b3) \<Rightarrow> (b3, b2, b1, b0))"
  by (cases "le_bytes w") (simp add: be_word_rev)

lemma swap_swap: "be_word (le_bytes (be_word (le_bytes w))) = w"
  unfolding swap_bytes
  by (cases "le_bytes w") (simp add: be_word_rev, metis le_word_le_bytes)

text \<open>A word of the DSP, read by the STM32, is the command with the same fields.\<close>

lemma dsp_word_command:
  assumes "msg_in_range m" "dsp_in_range m"
  shows "decode_cmd (le_bytes (be_word (le_bytes (dsp_encode m)))) = Some m"
proof -
  obtain c where c: "decode_cmd c = Some m" using decode_encode [OF assms(1)] by blast
  have "dsp_decode (be_word c) = dsp_decode (dsp_encode m)"
    by (simp add: dsp_agrees [OF c] dsp_decode_encode [OF assms(2)])
  then have w: "be_word c = dsp_encode m" by (metis dsp.dec_enc option.inject)
  obtain b0 b1 b2 b3 where b: "c = (b3, b2, b1, b0)" by (cases c) auto
  then have "dsp_encode m = le_word (b0, b1, b2, b3)" by (simp add: w [symmetric] be_word_rev)
  then have "le_bytes (be_word (le_bytes (dsp_encode m))) = c" unfolding swap_bytes by (simp add: b)
  then show ?thesis by (simp add: c)
qed

text \<open>
  C21: a turn of the knob. The interrupt of the DSP reports the new volume; the SPI thread of the STM32
  reads the report, stores it as the volume command with the same value, marks the settings as
  changed, forwards the command to a connected PC, and would send the very same word back to the
  DSP when the PC closes its session.
\<close>

theorem knob_reaches_tables:
  fixes s :: "(spi_event list, 'd) stm"
  assumes "dsp_ok d" "knobvolume_SIGIRQ2 F a b d = (d', w)" "answers r (link s) w"
    and "db_ok (db s)" "\<not> table_full (db s) 1"
  shows "\<exists>s' c. spi_poll (trace_port r) ls s = Inr s' \<and>
    decode_cmd c = Some (knob_msg (g_volume_count_value (gen d'))) \<and> be_word c = w \<and>
    do_get_data (db s') 1 8 = le_word c \<and> db_ok (db s') \<and> g_key_input_pressed_flag (pan s') = 1 \<and>
    (g_i_connected_flag s = 1 \<and> ls = 1 \<longrightarrow> sock_out s' = sock_out s @ [(g_i_connected_id s, c)]) \<and>
    link (spi_volume (trace_port r) (s'\<lparr>g_set_volume_to_dsp_flag := 1\<rparr>)) = link s' @ word_frame w"
proof -
  obtain v where w: "w = dsp_encode (knob_msg v)" and v: "unat v \<le> 96" "g_volume_count_value (gen d') = v"
    using knob_report [OF assms(1), of F a b] assms(2) by (metis prod.inject)
  let ?c = "le_bytes (be_word (le_bytes w))"
  have m: "msg_in_range (knob_msg v)" "dsp_in_range (knob_msg v)"
    using v(1) by (simp_all add: msg_in_range_def dsp_in_range_def knob_msg_def)
  have c: "decode_cmd ?c = Some (knob_msg v)" unfolding w by (rule dsp_word_command [OF m])
  have bc: "be_word ?c = w" by (rule swap_swap)
  have i0: "get_cmd_index 1 8 = 1"
    by (simp add: get_cmd_index_def get_cmd_desc_s_def general_cmd_desc_def c_consts)
  then have ix: "get_cmd_index 1 8 \<noteq> CMD_DATA_INDEX_INVALID" by (simp add: c_consts)
  have "addressable (knob_msg v)" using m(1) ix by (simp add: addressable_def knob_msg_def)
  then have "do_add_cmd ?c (db s) \<noteq> Some (-1, db s)"
    using do_add_cmd_fail [OF assms(4) c] assms(5) by (simp add: knob_msg_def)
  then obtain db' where db': "do_add_cmd ?c (db s) = Some (0, db')" "db_ok db'"
    using do_add_cmd_cases [OF assms(4), of ?c] by auto
  have get: "do_get_data db' 1 8 = le_word ?c"
    using db_lookup_add [OF assms(4) c db'(1) addressable_query [OF ix]]
    by (simp add: do_get_data_lookup [OF ix] same_param_def knob_msg_def zero_msg_def i0)
  have nz: "be_word (le_bytes w) \<noteq> 0 \<and> be_word (le_bytes w) \<noteq> 0xffffffff"
  proof -
    have "decode_cmd (le_bytes 0) = None" "decode_cmd (le_bytes 0xffffffff) \<noteq> Some (knob_msg v)"
      by (simp_all add: decode_cmd_eq le_bytes_def knob_msg_def)
    then show ?thesis using c by auto
  qed
  obtain c where c': "?c = c" by blast
  have lc: "be_word (le_bytes w) = le_word c" by (simp add: c' [symmetric])
  have "\<exists>s'. spi_poll (trace_port r) ls s = Inr s' \<and> do_get_data (db s') 1 8 = le_word c \<and> db_ok (db s') \<and>
    g_key_input_pressed_flag (pan s') = 1 \<and>
    (g_i_connected_flag s = 1 \<and> ls = 1 \<longrightarrow> sock_out s' = sock_out s @ [(g_i_connected_id s, c)]) \<and>
    link (spi_volume (trace_port r) (s'\<lparr>g_set_volume_to_dsp_flag := 1\<rparr>)) = link s' @ word_frame w"
    using read_answer [OF assms(3)] nz db' get bc [unfolded c']
    by (simp add: spi_poll_def set_entry_cmd_def do_set_cmd_entry_def send_instru_via_socket_def spi_volume_def
        send_word_def word_frame_def Tranverse32_be Let_def lc)
  with c bc v(2) show ?thesis unfolding c' by blast
qed

definition knob_reply :: "spi_event list \<Rightarrow> u8" where
  "knob_reply t = (if t = [CsLow, Tx 0xff] then 49 else if length t = 4 then 5 else 0)"

lemma knob_up: "\<exists>d'. knobvolume_SIGIRQ2 real_flt True True (dsp_reset real_flt) = (d', 0x05003100)"
proof -
  have r: "unat (g_volume_count_value (gen (dsp_reset real_flt))) = 48" by (simp add: dsp_reset_def)
  obtain v d' where k: "knobvolume_SIGIRQ2 real_flt True True (dsp_reset real_flt) = (d', dsp_encode (knob_msg v))"
    "unat v = knob_next True True (unat (g_volume_count_value (gen (dsp_reset real_flt))))"
    by (rule knob_report [OF dsp_reset_ok])
  have "unat v = unat (49 :: u32)" using k(2) r by (simp add: knob_next_def)
  then have "v = 49" by (simp only: word_unat_eq_iff)
  moreover have "dsp_encode (knob_msg 49) = 0x05003100" by code_simp
  ultimately show ?thesis using k(1) by auto
qed

theorem knob_reaches_tables_witness:
  "\<exists>s' c v. spi_poll (trace_port knob_reply) 1 (boot_stm blank_chip) = Inr s' \<and>
    decode_cmd c = Some (knob_msg v) \<and> be_word c = 0x05003100 \<and> do_get_data (db s') 1 8 = le_word c"
proof -
  obtain d' where k: "knobvolume_SIGIRQ2 real_flt True True (dsp_reset real_flt) = (d', 0x05003100)"
    using knob_up by blast
  have "le_bytes 0x05003100 = (0, 49, 0, 5)" by code_simp
  then have "answers knob_reply (link (boot_stm blank_chip)) 0x05003100"
    by (simp add: answers_def knob_reply_def boot_stm_def)
  moreover have "db_ok (db (boot_stm blank_chip))" by (simp add: boot_stm_def db_ok_init)
  moreover have "\<not> table_full (db (boot_stm blank_chip)) 1"
    by (simp add: boot_stm_def table_full_def group_table_init_def group_sizes_def para_size)
  ultimately show ?thesis
    using knob_reaches_tables [OF dsp_reset_ok k, of knob_reply "boot_stm blank_chip" 1] by blast
qed

section \<open>Words outside the tables\<close>

lemma input_codes:
  assumes "code_input n = Some t"
  shows "known_input t \<and> t \<noteq> INPUT_TEST \<and> getinstructiongroup t = 0 \<and> getinstructionindexingroup t = 0 \<and>
    t \<notin> {0, 0xffffffff, 0x34000000, 0x34000001}"
proof -
  have t: "t \<in> {0x2105, 0x2205, 0x2305, 0x2405, 0x2505, 0x2605}"
    using assms by (auto simp: code_input_def c_consts split: if_splits)
  then have "known_input t \<and> t \<noteq> INPUT_TEST" by (auto simp: known_input_def c_consts)
  moreover have "getinstructiongroup t = 0 \<and> getinstructionindexingroup t = 0 \<and> t \<notin> {0, 0xffffffff, 0x34000000, 0x34000001}"
    using t by (elim insertE emptyE) (simp_all add: getters_take_bit take_bit_eq_mod drop_bit_eq_div)
  ultimately show ?thesis by blast
qed

text \<open>
  A key of the panel switches the input of the DSP. The code that \<open>code_to_dsp\<close> sends is no parameter
  command: the handlers ignore it, the parameters of the DSP stay as they are, and it becomes the
  last word, from which the main loop switches the input after 100 interrupts of the converter.
\<close>

theorem panel_key_switches_input:
  fixes F :: "'f flt" and d :: "'f dsp" and i :: "'f insel"
  assumes "code_input n = Some t" "t \<noteq> i_now_input i" "list_all (keeps t) es" "100 \<le> ticks es"
  shows "received_words (snd (code_to_dsp (trace_port r) n (q, []))) = [t] \<and>
    (\<exists>u'. dsp_run F [RxWord t, MainLoop t] (u, d) = Inr (u', d) \<and>
      (let i' = insel_run F (Pass SYSTEMSTATE_NORMAL (g_spi_data u') # es @ [Pass SYSTEMSTATE_NORMAL (g_spi_data u')]) i
       in dsp_input_type i' = t \<and> settled t i'))"
proof -
  have t: "known_input t" "t \<noteq> INPUT_TEST" "getinstructiongroup t = 0" "getinstructionindexingroup t = 0"
    "t \<notin> {0, 0xffffffff, 0x34000000, 0x34000001}"
    using input_codes [OF assms(1)] by blast+
  have "snd (code_to_dsp (trace_port r) n (q, [])) = word_frame t @ []"
    using assms(1) by (simp add: code_to_dsp_def Let_def select_input_spi word_frame_def)
  then have sent: "received_words (snd (code_to_dsp (trace_port r) n (q, []))) = [t]" using received_frames(1) [of t "[]"] by simp
  have "select_handler t = (None :: 'f handler option)"
    using t(3,4) by (simp add: select_handler_def decoder_row_def instructiondecoder_def pad17_def)
  then have "handle_spi_raw_data F t d = Inr d" using t(5) by (simp add: handle_spi_raw_data_def)
  then obtain u' where u': "dsp_run F [RxWord t, MainLoop t] (u, d) = Inr (u', d)" "g_spi_data u' = t"
    using t(5) by (simp add: dsp_event_step_def SPIH_ISR_def handle_spi_code_def)
  have w: "input_word t" using t(1) by (auto simp: known_input_def input_word_def c_consts)
  then have "i_old_input (select_code SYSTEMSTATE_NORMAL t i) = t" using t(2) by (simp add: select_code_def Let_def c_consts)
  from switch_complete(1) [OF this assms(2) t(1) assms(3), of SYSTEMSTATE_NORMAL t F] assms(4) t(2)
  have "settled t (insel_run F (Pass SYSTEMSTATE_NORMAL t # es @ [Pass SYSTEMSTATE_NORMAL t]) i)"
    by (simp add: keeps_def switched_def)
  with sent u' show ?thesis by (simp add: settled_def Let_def)
qed

theorem panel_key_switches_input_witness:
  "\<exists>u'. dsp_run real_flt [RxWord 0x2205, MainLoop 0x2205] (rx_reset, dsp_reset real_flt) = Inr (u', dsp_reset real_flt) \<and>
    dsp_input_type (insel_run real_flt (Pass SYSTEMSTATE_NORMAL (g_spi_data u') # replicate 100 Tick @
      [Pass SYSTEMSTATE_NORMAL (g_spi_data u')]) (insel_reset real_flt)) = 0x2205"
proof -
  have "code_input 2 = Some 0x2205" by (simp add: code_input_def c_consts)
  moreover have "100 \<le> ticks (replicate 100 Tick)" by (simp add: ticks_def)
  moreover have "list_all (keeps 0x2205) (replicate 100 Tick)" by (simp add: list_all_iff keeps_def)
  ultimately show ?thesis
    using panel_key_switches_input [of 2 "0x2205" "insel_reset real_flt" "replicate 100 Tick" "\<lambda>_. 0" panel_init
        real_flt rx_reset "dsp_reset real_flt"]
    by (auto simp: insel_reset_def Let_def)
qed

text \<open>
  C27: the volume sent at start. Other than the tables, whose bytes are swapped on the way, the SPI thread sends
  \<open>g_volume\<close> as it is stored. The DSP takes the default volume for a command of input group 0
  and indexes \<open>inputparam\<close> out of bounds; the swapped word would set the volume.
\<close>

theorem startup_volume_misread:
  fixes d :: "'f dsp" and s :: "(spi_event list, 'e) stm"
  assumes "dsp_ok d" "g_volume s = 0x00300005"
  shows "link (SPI_DSP_thread_start (trace_port r) s) = link s @ word_frame (g_input_type (pan s)) @ word_frame (g_volume s) \<and>
    handle_spi_raw_data F (g_volume s) d = Inl (OutOfBounds ''inputparam'') \<and>
    (\<exists>d'. handle_spi_raw_data F (be_word (le_bytes (g_volume s))) d = Inr d' \<and> g_volume_count_value (gen d') = 48)"
proof -
  have v: "getinstructiontype 0x00300005 = 0" "getinstructiongroup 0x00300005 = 0"
    "getinstructionindexingroup 0x00300005 = 1" by code_simp+
  have h: "select_handler 0x00300005 = Some (instructiondecoder_Input_SamplingRate_Set :: 'f handler)"
    by (subst select_slot [OF v(2,3)]) (simp_all add: decoder_row_def instructiondecoder_def pad17_def)
  have "length (inputparam d) = 8" using assms(1) by (simp add: dsp_ok_def)
  then have fault: "handle_spi_raw_data F (g_volume s) d = Inl (OutOfBounds ''inputparam'')"
    using raw_data_call [OF h, of F d] assms(2)
    by (simp add: v instructiondecoder_Input_SamplingRate_Set_def upd_input_def get_at_def Let_def unat_minus_one_u32)
  let ?w = "0x05003000 :: u32"
  have w: "getinstructiontype ?w = 0" "getinstructiongroup ?w = 1" "getinstructionindexingroup ?w = 8"
    "getpara2_unsignedint ?w = 48" by code_simp+
  have k: "select_handler ?w = Some (instructiondecoder_KnobVolume_Set :: 'f handler)"
    by (subst select_slot [OF w(2,3)]) (simp_all add: decoder_row_def instructiondecoder_def pad17_def)
  have e: "be_word (le_bytes 0x00300005) = ?w" by code_simp
  have "\<exists>d'. handle_spi_raw_data F ?w d = Inr d' \<and> g_volume_count_value (gen d') = 48"
    using raw_data_call [OF k, of F d] by (simp add: w instructiondecoder_KnobVolume_Set_def Let_def)
  with fault show ?thesis
    by (simp add: assms(2) e SPI_DSP_thread_start_def send_word_def word_frame_def Let_def)
qed

theorem startup_volume_misread_witness:
  "handle_spi_raw_data real_flt 0x00300005 (dsp_reset real_flt) = Inl (OutOfBounds ''inputparam'') \<and>
   (\<exists>d'. handle_spi_raw_data real_flt 0x05003000 (dsp_reset real_flt) = Inr d' \<and> g_volume_count_value (gen d') = 48)"
proof -
  have "be_word (le_bytes 0x00300005) = 0x05003000" by code_simp
  then show ?thesis
    using startup_volume_misread [of "dsp_reset real_flt" "(boot_stm blank_chip)\<lparr>g_volume := 0x00300005\<rparr>"
        "\<lambda>_. 0" real_flt] dsp_reset_ok [of real_flt]
    by simp
qed

end
